(* ===== verification/Prelude.thy ===== *)
theory Prelude
  imports Main "HOL-Library.Word"
begin

text \<open>
  Shared vocabulary of the development: the types of identifiers and instants, the
  computation type in which the backend's fallible handlers are written (state passing
  with an error sum), the frame interface used to prove what a computation leaves
  alone, the transition-system interface used for invariants of reachable states, and
  the operations of Rust's standard library on strings and integers that the source
  calls.
\<close>

section \<open>Identifiers and time\<close>

text \<open>A \<open>Uuid\<close> is a 128-bit value; its derived order is the numeric one. Instants
  (\<open>DateTime<Utc>\<close>, \<open>SystemTime\<close>) are counted in nanoseconds since the epoch.\<close>

type_synonym uuid = "128 word"
type_synonym instant = int

definition secs :: "int \<Rightarrow> int" where
  "secs n = n * 1000000000"

text \<open>\<open>Utc::now().timestamp()\<close>: whole seconds, rounded towards minus infinity.\<close>

definition timestamp :: "instant \<Rightarrow> int" where
  "timestamp t = t div 1000000000"

lemma timestamp_add_secs [simp]: "timestamp (t + secs n) = timestamp t + n"
  by (simp add: timestamp_def secs_def)

lemma timestamp_mono: "s \<le> t \<Longrightarrow> timestamp s \<le> timestamp t"
  by (simp add: timestamp_def zdiv_mono1)

lemma secs_less_iff [simp]: "secs m < secs n \<longleftrightarrow> m < n"
  by (simp add: secs_def)

section \<open>Integers at their width\<close>

text \<open>\<open>as i32\<close> and release-mode \<open>i64\<close> arithmetic wrap around in two's complement.\<close>

definition wrap32 :: "int \<Rightarrow> int" where
  "wrap32 x = (x + 2147483648) mod 4294967296 - 2147483648"

definition wrap64 :: "int \<Rightarrow> int" where
  "wrap64 x = (x + 9223372036854775808) mod 18446744073709551616 - 9223372036854775808"

definition i64_range :: "int \<Rightarrow> bool" where
  "i64_range x \<longleftrightarrow> - 9223372036854775808 \<le> x \<and> x < 9223372036854775808"

definition i32_range :: "int \<Rightarrow> bool" where
  "i32_range x \<longleftrightarrow> - 2147483648 \<le> x \<and> x < 2147483648"

lemma wrap64_id: "i64_range x \<Longrightarrow> wrap64 x = x"
  by (simp add: wrap64_def i64_range_def)

lemma wrap32_id: "i32_range x \<Longrightarrow> wrap32 x = x"
  by (simp add: wrap32_def i32_range_def)

lemma wrap32_range: "i32_range (wrap32 x)"
  by (simp add: wrap32_def i32_range_def)

section \<open>Computations: state passing with errors\<close>

text \<open>
  An \<open>async fn\<close> that returns \<open>Result<T, E>\<close> and acts on shared state is a function from
  the state to a result and the next state; \<open>?\<close> is \<open>bnd\<close>. The state returned beside an
  error is the state the failed computation leaves behind.
\<close>

type_synonym ('s, 'e, 'a) comp = "'s \<Rightarrow> ('e + 'a) \<times> 's"

definition ret :: "'a \<Rightarrow> ('s, 'e, 'a) comp" where
  "ret a = (\<lambda>s. (Inr a, s))"

definition throw :: "'e \<Rightarrow> ('s, 'e, 'a) comp" where
  "throw e = (\<lambda>s. (Inl e, s))"

definition bnd :: "('s, 'e, 'a) comp \<Rightarrow> ('a \<Rightarrow> ('s, 'e, 'b) comp) \<Rightarrow> ('s, 'e, 'b) comp" where
  "bnd m f = (\<lambda>s. case m s of (Inl e, s') \<Rightarrow> (Inl e, s') | (Inr a, s') \<Rightarrow> f a s')"

definition andthen :: "('s, 'e, 'a) comp \<Rightarrow> ('s, 'e, 'b) comp \<Rightarrow> ('s, 'e, 'b) comp" where
  "andthen m n = bnd m (\<lambda>_. n)"

text \<open>\<open>let _ = ...\<close>: the result and the error are dropped, the effect stays.\<close>

definition ignore :: "('s, 'e, 'a) comp \<Rightarrow> ('s, 'f, unit) comp" where
  "ignore m = (\<lambda>s. (Inr (), snd (m s)))"

definition from_result :: "'e + 'a \<Rightarrow> ('s, 'e, 'a) comp" where
  "from_result r = (\<lambda>s. (r, s))"

definition ensure :: "bool \<Rightarrow> 'e \<Rightarrow> ('s, 'e, unit) comp" where
  "ensure b e = (if b then ret () else throw e)"

definition asks :: "('s \<Rightarrow> 'a) \<Rightarrow> ('s, 'e, 'a) comp" where
  "asks f = (\<lambda>s. (Inr (f s), s))"

text \<open>\<open>ok_or_else\<close> on an optional value.\<close>

definition some_or :: "'a option \<Rightarrow> 'e \<Rightarrow> ('s, 'e, 'a) comp" where
  "some_or x e = (case x of Some a \<Rightarrow> ret a | None \<Rightarrow> throw e)"

definition map_err :: "('e \<Rightarrow> 'f) \<Rightarrow> ('s, 'e, 'a) comp \<Rightarrow> ('s, 'f, 'a) comp" where
  "map_err h m = (\<lambda>s. case m s of (Inl e, s') \<Rightarrow> (Inl (h e), s') | (Inr a, s') \<Rightarrow> (Inr a, s'))"

text \<open>A \<open>for\<close> loop whose body may leave early with \<open>?\<close>.\<close>

fun for_each :: "'x list \<Rightarrow> ('x \<Rightarrow> ('s, 'e, unit) comp) \<Rightarrow> ('s, 'e, unit) comp" where
  "for_each [] body = ret ()"
| "for_each (x # xs) body = andthen (body x) (for_each xs body)"

named_theorems comp_defs \<open>the combinators, to be unfolded when a computation is run\<close>

lemmas comp_unfold [comp_defs] =
  ret_def throw_def bnd_def andthen_def ignore_def from_result_def ensure_def asks_def
  some_or_def map_err_def

lemma bnd_ret [simp]: "bnd (ret a) f = f a"
  by (simp add: comp_defs)

lemma bnd_throw [simp]: "bnd (throw e) f = throw e"
  by (simp add: comp_defs)

lemma bnd_assoc: "bnd (bnd m f) g = bnd m (\<lambda>a. bnd (f a) g)"
  by (rule ext) (simp add: comp_defs split: prod.splits sum.splits)

text \<open>Inversion of a successful run: what \<open>?\<close> means for the caller.\<close>

lemma bnd_InrE:
  assumes "bnd m f s = (Inr b, t)"
  obtains a u where "m s = (Inr a, u)" and "f a u = (Inr b, t)"
  using assms by (auto simp: bnd_def split: prod.splits sum.splits)

lemma andthen_InrE:
  assumes "andthen m n s = (Inr b, t)"
  obtains a u where "m s = (Inr a, u)" and "n u = (Inr b, t)"
  using assms by (auto simp: andthen_def elim: bnd_InrE)

named_theorems runs \<open>successful runs of the combinators, as equivalences\<close>

lemma bnd_runs [runs]: "bnd m f s = (Inr b, t) \<longleftrightarrow> (\<exists>a u. m s = (Inr a, u) \<and> f a u = (Inr b, t))"
  by (auto simp: bnd_def split: prod.splits sum.splits)

lemma andthen_runs [runs]: "andthen m n s = (Inr b, t) \<longleftrightarrow> (\<exists>a u. m s = (Inr a, u) \<and> n u = (Inr b, t))"
  by (simp add: andthen_def bnd_runs)

lemma ret_runs [runs]: "ret a s = (Inr b, t) \<longleftrightarrow> b = a \<and> t = s"
  by (auto simp: ret_def)

lemma throw_runs [runs]: "throw e s = (Inr b, t) \<longleftrightarrow> False"
  by (auto simp: throw_def)

lemma if_runs [runs]: "(if c then m else n) s = (Inr b, t) \<longleftrightarrow> (if c then m s = (Inr b, t) else n s = (Inr b, t))"
  by simp

lemma ensure_Inr [simp]: "ensure b e s = (Inr u, t) \<longleftrightarrow> b \<and> t = s"
  by (auto simp: comp_defs)

lemma asks_run [simp]: "asks f s = (Inr (f s), s)"
  by (simp add: comp_defs)

lemma some_or_Inr [simp]: "some_or x e s = (Inr a, t) \<longleftrightarrow> x = Some a \<and> t = s"
  by (auto simp: comp_defs split: option.splits)

lemma from_result_Inr [simp]: "from_result r s = (Inr a, t) \<longleftrightarrow> r = Inr a \<and> t = s"
  by (auto simp: comp_defs)

lemma map_err_Inr [simp]: "map_err h m s = (Inr a, t) \<longleftrightarrow> m s = (Inr a, t)"
  by (auto simp: comp_defs split: prod.splits sum.splits)

section \<open>Frames: what a computation may do to the state\<close>

text \<open>A computation obeys a relation when every run, successful or failed, relates
  the state before to the state after.\<close>

definition obeys :: "('s \<Rightarrow> 's \<Rightarrow> bool) \<Rightarrow> ('s, 'e, 'a) comp \<Rightarrow> bool" where
  "obeys R m \<longleftrightarrow> (\<forall>s. R s (snd (m s)))"

lemma obeysD: "obeys R m \<Longrightarrow> R s (snd (m s))"
  by (simp add: obeys_def)

lemma obeys_run: "obeys R m \<Longrightarrow> m s = (r, t) \<Longrightarrow> R s t"
  by (metis obeysD snd_conv)

locale frame =
  fixes R :: "'s \<Rightarrow> 's \<Rightarrow> bool"
  assumes refl_R: "R s s"
    and trans_R: "R s t \<Longrightarrow> R t u \<Longrightarrow> R s u"
begin

lemma obeys_ret: "obeys R (ret a)"
  by (simp add: obeys_def ret_def refl_R)

lemma obeys_throw: "obeys R (throw e)"
  by (simp add: obeys_def throw_def refl_R)

lemma obeys_bnd:
  assumes "obeys R m" and "\<And>a. obeys R (f a)"
  shows "obeys R (bnd m f)"
  unfolding obeys_def
proof
  fix s
  obtain r u where m: "m s = (r, u)" by (cases "m s")
  with assms(1) have su: "R s u" by (rule obeys_run)
  show "R s (snd (bnd m f s))"
  proof (cases r)
    case (Inl e)
    with m su show ?thesis by (simp add: bnd_def)
  next
    case (Inr a)
    have "R u (snd (f a u))" by (rule obeysD [OF assms(2)])
    with m su Inr show ?thesis by (simp add: bnd_def trans_R)
  qed
qed

lemma obeys_andthen: "obeys R m \<Longrightarrow> obeys R n \<Longrightarrow> obeys R (andthen m n)"
  by (simp add: andthen_def obeys_bnd)

lemma obeys_ignore: "obeys R m \<Longrightarrow> obeys R (ignore m)"
  by (simp add: obeys_def ignore_def)

lemma obeys_from_result: "obeys R (from_result r)"
  by (simp add: obeys_def from_result_def refl_R)

lemma obeys_ensure: "obeys R (ensure b e)"
  by (simp add: ensure_def obeys_ret obeys_throw)

lemma obeys_asks: "obeys R (asks f)"
  by (simp add: obeys_def asks_def refl_R)

lemma obeys_some_or: "obeys R (some_or x e)"
  by (cases x) (simp_all add: some_or_def obeys_ret obeys_throw)

lemma obeys_map_err: "obeys R m \<Longrightarrow> obeys R (map_err h m)"
  by (simp add: obeys_def map_err_def split: prod.splits sum.splits) (metis snd_conv)

lemma obeys_for_each: "(\<And>x. obeys R (body x)) \<Longrightarrow> obeys R (for_each xs body)"
  by (induction xs) (simp_all add: obeys_ret obeys_andthen)

lemma obeys_if: "obeys R m \<Longrightarrow> obeys R n \<Longrightarrow> obeys R (if b then m else n)"
  by simp

lemma obeys_case_option:
  "obeys R m \<Longrightarrow> (\<And>a. obeys R (f a)) \<Longrightarrow>
   obeys R (case x of None \<Rightarrow> m | Some a \<Rightarrow> f a)"
  by (cases x) simp_all

lemmas obeys_intros =
  obeys_ret obeys_throw obeys_bnd obeys_andthen obeys_ignore
  obeys_from_result obeys_ensure obeys_asks obeys_some_or obeys_map_err
  obeys_for_each obeys_if obeys_case_option

end

text \<open>An invariant is a frame: if it held before, it holds after.\<close>

definition keeping :: "('s \<Rightarrow> bool) \<Rightarrow> 's \<Rightarrow> 's \<Rightarrow> bool" where
  "keeping P s t \<longleftrightarrow> (P s \<longrightarrow> P t)"

interpretation keeping_frame: frame "keeping P" for P
  by unfold_locales (auto simp: keeping_def)

text \<open>A continuation may rely on what the first computation established.\<close>

lemma keeping_bnd:
  assumes "\<And>s t a. P s \<Longrightarrow> m s = (Inr a, t) \<Longrightarrow> Q a t"
    and "\<And>s t e. P s \<Longrightarrow> m s = (Inl e, t) \<Longrightarrow> P t"
    and "\<And>a t. Q a t \<Longrightarrow> P (snd (f a t))"
  shows "obeys (keeping P) (bnd m f)"
  unfolding obeys_def keeping_def
proof (intro allI impI)
  fix s assume "P s"
  then show "P (snd (bnd m f s))"
    using assms by (cases "m s"; cases "fst (m s)") (auto simp: bnd_def)
qed

lemma keepingD: "obeys (keeping P) m \<Longrightarrow> m s = (r, t) \<Longrightarrow> P s \<Longrightarrow> P t"
  using obeys_run [of "keeping P"] by (auto simp: keeping_def)

text \<open>A component of the state that is not written is a frame as well.\<close>

definition same :: "('s \<Rightarrow> 'v) \<Rightarrow> 's \<Rightarrow> 's \<Rightarrow> bool" where
  "same f s t \<longleftrightarrow> f t = f s"

interpretation same_frame: frame "same f" for f
  by unfold_locales (auto simp: same_def)

section \<open>Transition systems and their invariants\<close>

text \<open>The states an interleaving of steps can reach, and the proof principle for
  invariants, stated once for every machine of the development.\<close>

inductive reachable :: "('s \<Rightarrow> bool) \<Rightarrow> ('s \<Rightarrow> 's \<Rightarrow> bool) \<Rightarrow> 's \<Rightarrow> bool"
  for init :: "'s \<Rightarrow> bool" and step :: "'s \<Rightarrow> 's \<Rightarrow> bool" where
  start: "init s \<Longrightarrow> reachable init step s"
| move: "reachable init step s \<Longrightarrow> step s t \<Longrightarrow> reachable init step t"

locale invariant_system =
  fixes init :: "'s \<Rightarrow> bool"
    and step :: "'s \<Rightarrow> 's \<Rightarrow> bool"
    and inv :: "'s \<Rightarrow> bool"
  assumes inv_init: "init s \<Longrightarrow> inv s"
    and inv_step: "inv s \<Longrightarrow> step s t \<Longrightarrow> inv t"
begin

lemma reachable_inv: "reachable init step s \<Longrightarrow> inv s"
  by (induction rule: reachable.induct) (auto intro: inv_init inv_step)

end

section \<open>Strings\<close>

text \<open>A Rust string is its sequence of UTF-8 bytes: \<open>length\<close> is \<open>str::len\<close>. A literal
  that is not ASCII is given by its bytes.\<close>

definition bytes :: "nat list \<Rightarrow> string" where
  "bytes ns = map char_of ns"

definition starts_with :: "string \<Rightarrow> string \<Rightarrow> bool" where
  "starts_with s p \<longleftrightarrow> take (length p) s = p"

definition ends_with :: "string \<Rightarrow> string \<Rightarrow> bool" where
  "ends_with s p \<longleftrightarrow> starts_with (rev s) (rev p)"

fun contains :: "string \<Rightarrow> string \<Rightarrow> bool" where
  "contains [] p \<longleftrightarrow> p = []"
| "contains (c # cs) p \<longleftrightarrow> starts_with (c # cs) p \<or> contains cs p"

fun split_on :: "char \<Rightarrow> string \<Rightarrow> string list" where
  "split_on d [] = [[]]"
| "split_on d (c # cs) =
     (if c = d then [] # split_on d cs
      else case split_on d cs of w # ws \<Rightarrow> (c # w) # ws | [] \<Rightarrow> [[c]])"

fun join_with :: "string \<Rightarrow> string list \<Rightarrow> string" where
  "join_with sep [] = []"
| "join_with sep [w] = w"
| "join_with sep (w # v # ws) = w @ sep @ join_with sep (v # ws)"

text \<open>\<open>str::replace\<close> with a non-empty pattern: left to right, no overlaps.\<close>

function replace_all :: "string \<Rightarrow> string \<Rightarrow> string \<Rightarrow> string" where
  "replace_all p w [] = []"
| "replace_all p w (c # cs) =
     (if p \<noteq> [] \<and> starts_with (c # cs) p then w @ replace_all p w (drop (length p) (c # cs))
      else c # replace_all p w cs)"
  by pat_completeness auto
termination
  by (relation "measure (\<lambda>(p, w, s). length s)") auto

definition to_ascii_lower :: "char \<Rightarrow> char" where
  "to_ascii_lower c =
     (let n = of_char c :: nat in if 65 \<le> n \<and> n \<le> 90 then char_of (n + 32) else c)"

definition to_ascii_lowercase :: "string \<Rightarrow> string" where
  "to_ascii_lowercase s = map to_ascii_lower s"

text \<open>The UTF-8 encodings of the Unicode \<open>White_Space\<close> code points, which
  \<open>str::trim\<close> removes at both ends.\<close>

definition ws_encodings :: "string list" where
  "ws_encodings =
     [[CHR 0x20], [CHR 0x09], [CHR 0x0A], [CHR 0x0B], [CHR 0x0C], [CHR 0x0D],
      [CHR 0xC2, CHR 0x85], [CHR 0xC2, CHR 0xA0], [CHR 0xE1, CHR 0x9A, CHR 0x80],
      [CHR 0xE2, CHR 0x80, CHR 0x80], [CHR 0xE2, CHR 0x80, CHR 0x81],
      [CHR 0xE2, CHR 0x80, CHR 0x82], [CHR 0xE2, CHR 0x80, CHR 0x83],
      [CHR 0xE2, CHR 0x80, CHR 0x84], [CHR 0xE2, CHR 0x80, CHR 0x85],
      [CHR 0xE2, CHR 0x80, CHR 0x86], [CHR 0xE2, CHR 0x80, CHR 0x87],
      [CHR 0xE2, CHR 0x80, CHR 0x88], [CHR 0xE2, CHR 0x80, CHR 0x89],
      [CHR 0xE2, CHR 0x80, CHR 0x8A], [CHR 0xE2, CHR 0x80, CHR 0xA8],
      [CHR 0xE2, CHR 0x80, CHR 0xA9], [CHR 0xE2, CHR 0x80, CHR 0xAF],
      [CHR 0xE2, CHR 0x81, CHR 0x9F], [CHR 0xE3, CHR 0x80, CHR 0x80]]"

definition leading_ws :: "string list \<Rightarrow> string \<Rightarrow> nat option" where
  "leading_ws ws s = map_option length (find (\<lambda>w. w \<noteq> [] \<and> starts_with s w) ws)"

lemma leading_ws_bounds: "leading_ws ws s = Some n \<Longrightarrow> 0 < n \<and> n \<le> length s"
  by (auto simp: leading_ws_def find_Some_iff starts_with_def)
    (metis length_take min.cobounded1)

function strip_leading :: "string list \<Rightarrow> string \<Rightarrow> string" where
  "strip_leading ws s =
     (case leading_ws ws s of None \<Rightarrow> s | Some n \<Rightarrow> strip_leading ws (drop n s))"
  by pat_completeness auto
termination
  by (relation "measure (\<lambda>(ws, s). length s)") (auto dest: leading_ws_bounds)

declare strip_leading.simps [simp del]

definition trim :: "string \<Rightarrow> string" where
  "trim s =
     rev (strip_leading (map rev ws_encodings) (rev (strip_leading ws_encodings s)))"

definition trim_end_slashes :: "string \<Rightarrow> string" where
  "trim_end_slashes s = rev (dropWhile (\<lambda>c. c = CHR ''/'') (rev s))"

lemma trim_Nil [simp]: "trim [] = []"
  by code_simp

lemma starts_with_append [simp]: "starts_with (p @ s) p"
  by (simp add: starts_with_def)

lemma starts_with_Nil [simp]: "starts_with s []"
  by (simp add: starts_with_def)

lemma starts_with_Cons [simp]:
  "starts_with (c # s) (d # p) \<longleftrightarrow> c = d \<and> starts_with s p"
  by (auto simp: starts_with_def)

lemma starts_with_empty [simp]: "starts_with [] (d # p) \<longleftrightarrow> False"
  by (simp add: starts_with_def)

lemma starts_with_iff: "starts_with s p \<longleftrightarrow> (\<exists>r. s = p @ r)"
  by (metis append_take_drop_id starts_with_append starts_with_def)

lemma split_on_nonempty [simp]: "split_on d s \<noteq> []"
  by (induction s) (auto split: list.splits)

lemma join_split [simp]: "join_with [d] (split_on d s) = s"
proof (induction s)
  case (Cons c cs)
  then show ?case
    by (cases "split_on d cs"; cases "tl (split_on d cs)") auto
qed simp

section \<open>Association lists as keyed stores\<close>

text \<open>The in-memory \<open>DashMap\<close>s: \<open>insert\<close> replaces the value of a key, \<open>remove\<close> deletes
  it, at most one entry per key.\<close>

definition aget :: "('k \<times> 'v) list \<Rightarrow> 'k \<Rightarrow> 'v option" where
  "aget m k = map_of m k"

definition adel :: "'k \<Rightarrow> ('k \<times> 'v) list \<Rightarrow> ('k \<times> 'v) list" where
  "adel k m = filter (\<lambda>e. fst e \<noteq> k) m"

definition aput :: "'k \<Rightarrow> 'v \<Rightarrow> ('k \<times> 'v) list \<Rightarrow> ('k \<times> 'v) list" where
  "aput k v m = (k, v) # adel k m"

definition aretain :: "('v \<Rightarrow> bool) \<Rightarrow> ('k \<times> 'v) list \<Rightarrow> ('k \<times> 'v) list" where
  "aretain P m = filter (\<lambda>e. P (snd e)) m"

definition akeys :: "('k \<times> 'v) list \<Rightarrow> bool" where
  "akeys m \<longleftrightarrow> distinct (map fst m)"

locale keyed_store =
  fixes lookup :: "'m \<Rightarrow> 'k \<Rightarrow> 'v option"
    and insert :: "'k \<Rightarrow> 'v \<Rightarrow> 'm \<Rightarrow> 'm"
    and delete :: "'k \<Rightarrow> 'm \<Rightarrow> 'm"
    and valid :: "'m \<Rightarrow> bool"
  assumes lookup_insert: "valid m \<Longrightarrow> lookup (insert k v m) = (lookup m)(k \<mapsto> v)"
    and lookup_delete: "valid m \<Longrightarrow> lookup (delete k m) = (lookup m)(k := None)"
    and valid_insert: "valid m \<Longrightarrow> valid (insert k v m)"
    and valid_delete: "valid m \<Longrightarrow> valid (delete k m)"
begin

lemma take_once: "valid m \<Longrightarrow> lookup (delete k m) k = None"
  by (simp add: lookup_delete)

lemma insert_other: "valid m \<Longrightarrow> k \<noteq> j \<Longrightarrow> lookup (insert k v m) j = lookup m j"
  by (simp add: lookup_insert)

lemma delete_other: "valid m \<Longrightarrow> k \<noteq> j \<Longrightarrow> lookup (delete k m) j = lookup m j"
  by (simp add: lookup_delete)

end

lemma map_of_adel: "map_of (adel k m) = (map_of m)(k := None)"
  by (induction m) (auto simp: adel_def fun_eq_iff)

lemma akeys_adel: "akeys m \<Longrightarrow> akeys (adel k m)"
  by (simp add: akeys_def adel_def distinct_map_filter)

interpretation astore: keyed_store aget aput adel akeys
proof
  fix m :: "('a \<times> 'b) list" and k v
  assume m: "akeys m"
  show "aget (aput k v m) = (aget m)(k \<mapsto> v)"
    by (auto simp: aget_def [abs_def] aput_def map_of_adel)
  show "aget (adel k m) = (aget m)(k := None)"
    by (simp add: aget_def [abs_def] map_of_adel)
  show "akeys (aput k v m)"
    using akeys_adel [OF m] by (auto simp: akeys_def aput_def adel_def)
  show "akeys (adel k m)"
    by (rule akeys_adel [OF m])
qed

lemma aget_aput [simp]: "aget (aput k v m) j = (if j = k then Some v else aget m j)"
  by (simp add: aget_def aput_def map_of_adel)

lemma aget_adel [simp]: "aget (adel k m) j = (if j = k then None else aget m j)"
  by (simp add: aget_def map_of_adel)

lemma aget_Nil [simp]: "aget [] k = None"
  by (simp add: aget_def)

lemma aget_retain: "akeys m \<Longrightarrow>
  aget (aretain P m) k = (case aget m k of Some v \<Rightarrow> if P v then Some v else None | None \<Rightarrow> None)"
  unfolding aget_def aretain_def akeys_def
  by (induction m) (auto split: option.splits simp: map_of_eq_None_iff rev_image_eqI)

lemma akeys_retain: "akeys m \<Longrightarrow> akeys (aretain P m)"
  by (simp add: akeys_def aretain_def distinct_map_filter)

lemma akeys_aput [simp]: "akeys m \<Longrightarrow> akeys (aput k v m)"
  by (rule astore.valid_insert)

lemma length_adel_le: "length (adel k m) \<le> length m"
  by (simp add: adel_def)

lemma find_SomeD: "find P xs = Some x \<Longrightarrow> P x \<and> x \<in> set xs"
  by (auto simp: find_Some_iff)

lemma find_append: "find P (xs @ ys) = (case find P xs of Some x \<Rightarrow> Some x | None \<Rightarrow> find P ys)"
  by (induction xs) auto

end
