(* ===== verification/Api_Errors.thy ===== *)
theory Api_Errors
  imports Prelude
begin

text \<open>
  The REST error contract (\<^verbatim>\<open>error/mod.rs\<close>, \<^verbatim>\<open>error/pagination.rs\<close>) and the outermost
  middleware that normalises error responses (\<^verbatim>\<open>middleware/request_id.rs\<close>): the registry
  of error codes with their strings and HTTP statuses, the construction and redaction of
  an \<open>ApiError\<close>, the sanitising of its details, the response it becomes, and pagination.
  The lemmas show that codes are told apart by their strings, that an internal error
  leaves no trace of its cause in a response, that every error response carries the
  request's id, and the exact range in which a page offset is right.
\<close>

section \<open>JSON values\<close>

text \<open>\<open>serde_json::Value\<close>: a number is an integer or any other number, kept by its text;
  an object is an association list whose first entry for a key counts.\<close>

datatype json =
    JNull
  | JBool bool
  | JInt int
  | JNum string
  | JStr string
  | JArr "json list"
  | JObj "(string \<times> json) list"

primrec as_object :: "json \<Rightarrow> (string \<times> json) list option" where
  "as_object JNull = None"
| "as_object (JBool b) = None"
| "as_object (JInt n) = None"
| "as_object (JNum t) = None"
| "as_object (JStr s) = None"
| "as_object (JArr xs) = None"
| "as_object (JObj kvs) = Some kvs"

definition get_field :: "json \<Rightarrow> string \<Rightarrow> json option" where
  "get_field v k = (case as_object v of Some kvs \<Rightarrow> map_of kvs k | None \<Rightarrow> None)"

primrec as_string :: "json \<Rightarrow> string option" where
  "as_string JNull = None"
| "as_string (JBool b) = None"
| "as_string (JInt n) = None"
| "as_string (JNum t) = None"
| "as_string (JStr s) = Some s"
| "as_string (JArr xs) = None"
| "as_string (JObj kvs) = None"

text \<open>\<open>as_i64\<close>: an integer that fits.\<close>

definition as_i64 :: "json \<Rightarrow> int option" where
  "as_i64 v = (case v of JInt n \<Rightarrow> if i64_range n then Some n else None | _ \<Rightarrow> None)"

definition as_bool :: "json \<Rightarrow> bool option" where
  "as_bool v = (case v of JBool b \<Rightarrow> Some b | _ \<Rightarrow> None)"

section \<open>The error registry\<close>

datatype (plugins only: size) error_code =
  InvalidJson | InvalidQuery | InvalidPathParam | MethodNotAllowed | RequestBodyTooLarge |
  InvalidContentType | ValidationFailed | RateLimited | AuthRequired | SessionExpired |
  PermissionDenied | CsrfInvalid | ResourceNotFound | ResourceConflict |
  CapabilityNotSupported | InternalError | LongJobAccepted | LongRunningActionRequiresJob |
  PhiraAuthFailed | PhiraReauthRequired | PhiraApiUnavailable | GithubOauthNotConfigured |
  GithubIdentityNotBound | GithubOauthFailed | GithubApiUnavailable | GithubOauthStateInvalid |
  AuthLegalConsentRequired | AuthLegalDocumentsUnavailable | RootPasswordInvalid |
  RootPasswordChangeRequired | CurrentSessionRevokeForbidden | PmpUnavailable |
  PmpCommandFailed | PmpCommandTimeout | PmpCapabilityMissing | PmpConfigNotAvailable |
  PmpInvalidResponse | RoomNotFound | RoomIdRequired | RoomHostRequired | RoomUserNotPresent |
  RoomBatchTargetRequired | RoomBatchActionUnsupported | RoomMoveTargetRequired |
  RoomChatEmpty | RoomChatTooLong | UserNotFound | AlreadyFriends | FriendRequestAlreadySent |
  FriendRequestNotFound | FriendRelationRequired | UserBlocked | ReplayNotFound |
  ReplayAccessDenied | ReplayVisibilityInvalid | ReplayPlayerRequired | ReplayShareInvalid |
  ReplayShareExpired | ReplayShareRevoked | NotificationNotFound |
  NotificationActionNotAvailable | NotificationActionTargetInvalid |
  NotificationInputNotAllowed | NotificationInputEmpty | NotificationInputTooLong |
  ConfigValidationFailed | ConfigSnapshotNotFound | ConfigScopeInvalid | JobNotFound |
  JobTypeUnknown | JobAlreadyRunning | JobNotRetryable | JobNotCancellable |
  RedemptionCodeNotFound | RedemptionCodeAlreadyUsed | RedemptionCodeRevoked |
  RedemptionCodeExpired | RedemptionCodeLimitReached | RedemptionActionUnsupported |
  GroupNotFound | GroupNameRequired | UserActionTargetInvalid

primrec as_str :: "error_code \<Rightarrow> string" where
  "as_str InvalidJson = ''INVALID_JSON''"
| "as_str InvalidQuery = ''INVALID_QUERY''"
| "as_str InvalidPathParam = ''INVALID_PATH_PARAM''"
| "as_str MethodNotAllowed = ''METHOD_NOT_ALLOWED''"
| "as_str RequestBodyTooLarge = ''REQUEST_BODY_TOO_LARGE''"
| "as_str InvalidContentType = ''INVALID_CONTENT_TYPE''"
| "as_str ValidationFailed = ''VALIDATION_FAILED''"
| "as_str RateLimited = ''RATE_LIMITED''"
| "as_str AuthRequired = ''AUTH_REQUIRED''"
| "as_str SessionExpired = ''SESSION_EXPIRED''"
| "as_str PermissionDenied = ''PERMISSION_DENIED''"
| "as_str CsrfInvalid = ''CSRF_INVALID''"
| "as_str ResourceNotFound = ''RESOURCE_NOT_FOUND''"
| "as_str ResourceConflict = ''RESOURCE_CONFLICT''"
| "as_str CapabilityNotSupported = ''CAPABILITY_NOT_SUPPORTED''"
| "as_str InternalError = ''INTERNAL_ERROR''"
| "as_str LongJobAccepted = ''LONG_JOB_ACCEPTED''"
| "as_str LongRunningActionRequiresJob = ''LONG_RUNNING_ACTION_REQUIRES_JOB''"
| "as_str PhiraAuthFailed = ''PHIRA_AUTH_FAILED''"
| "as_str PhiraReauthRequired = ''PHIRA_REAUTH_REQUIRED''"
| "as_str PhiraApiUnavailable = ''PHIRA_API_UNAVAILABLE''"
| "as_str GithubOauthNotConfigured = ''GITHUB_OAUTH_NOT_CONFIGURED''"
| "as_str GithubIdentityNotBound = ''GITHUB_IDENTITY_NOT_BOUND''"
| "as_str GithubOauthFailed = ''GITHUB_OAUTH_FAILED''"
| "as_str GithubApiUnavailable = ''GITHUB_API_UNAVAILABLE''"
| "as_str GithubOauthStateInvalid = ''GITHUB_OAUTH_STATE_INVALID''"
| "as_str AuthLegalConsentRequired = ''AUTH_LEGAL_CONSENT_REQUIRED''"
| "as_str AuthLegalDocumentsUnavailable = ''AUTH_LEGAL_DOCUMENTS_UNAVAILABLE''"
| "as_str RootPasswordInvalid = ''ROOT_PASSWORD_INVALID''"
| "as_str RootPasswordChangeRequired = ''ROOT_PASSWORD_CHANGE_REQUIRED''"
| "as_str CurrentSessionRevokeForbidden = ''CURRENT_SESSION_REVOKE_FORBIDDEN''"
| "as_str PmpUnavailable = ''PMP_UNAVAILABLE''"
| "as_str PmpCommandFailed = ''PMP_COMMAND_FAILED''"
| "as_str PmpCommandTimeout = ''PMP_COMMAND_TIMEOUT''"
| "as_str PmpCapabilityMissing = ''PMP_CAPABILITY_MISSING''"
| "as_str PmpConfigNotAvailable = ''PMP_CONFIG_NOT_AVAILABLE''"
| "as_str PmpInvalidResponse = ''PMP_INVALID_RESPONSE''"
| "as_str RoomNotFound = ''ROOM_NOT_FOUND''"
| "as_str RoomIdRequired = ''ROOM_ID_REQUIRED''"
| "as_str RoomHostRequired = ''ROOM_HOST_REQUIRED''"
| "as_str RoomUserNotPresent = ''ROOM_USER_NOT_PRESENT''"
| "as_str RoomBatchTargetRequired = ''ROOM_BATCH_TARGET_REQUIRED''"
| "as_str RoomBatchActionUnsupported = ''ROOM_BATCH_ACTION_UNSUPPORTED''"
| "as_str RoomMoveTargetRequired = ''ROOM_MOVE_TARGET_REQUIRED''"
| "as_str RoomChatEmpty = ''ROOM_CHAT_EMPTY''"
| "as_str RoomChatTooLong = ''ROOM_CHAT_TOO_LONG''"
| "as_str UserNotFound = ''USER_NOT_FOUND''"
| "as_str AlreadyFriends = ''ALREADY_FRIENDS''"
| "as_str FriendRequestAlreadySent = ''FRIEND_REQUEST_ALREADY_SENT''"
| "as_str FriendRequestNotFound = ''FRIEND_REQUEST_NOT_FOUND''"
| "as_str FriendRelationRequired = ''FRIEND_RELATION_REQUIRED''"
| "as_str UserBlocked = ''USER_BLOCKED''"
| "as_str ReplayNotFound = ''REPLAY_NOT_FOUND''"
| "as_str ReplayAccessDenied = ''REPLAY_ACCESS_DENIED''"
| "as_str ReplayVisibilityInvalid = ''REPLAY_VISIBILITY_INVALID''"
| "as_str ReplayPlayerRequired = ''REPLAY_PLAYER_REQUIRED''"
| "as_str ReplayShareInvalid = ''REPLAY_SHARE_INVALID''"
| "as_str ReplayShareExpired = ''REPLAY_SHARE_EXPIRED''"
| "as_str ReplayShareRevoked = ''REPLAY_SHARE_REVOKED''"
| "as_str NotificationNotFound = ''NOTIFICATION_NOT_FOUND''"
| "as_str NotificationActionNotAvailable = ''NOTIFICATION_ACTION_NOT_AVAILABLE''"
| "as_str NotificationActionTargetInvalid = ''NOTIFICATION_ACTION_TARGET_INVALID''"
| "as_str NotificationInputNotAllowed = ''NOTIFICATION_INPUT_NOT_ALLOWED''"
| "as_str NotificationInputEmpty = ''NOTIFICATION_INPUT_EMPTY''"
| "as_str NotificationInputTooLong = ''NOTIFICATION_INPUT_TOO_LONG''"
| "as_str ConfigValidationFailed = ''CONFIG_VALIDATION_FAILED''"
| "as_str ConfigSnapshotNotFound = ''CONFIG_SNAPSHOT_NOT_FOUND''"
| "as_str ConfigScopeInvalid = ''CONFIG_SCOPE_INVALID''"
| "as_str JobNotFound = ''JOB_NOT_FOUND''"
| "as_str JobTypeUnknown = ''JOB_TYPE_UNKNOWN''"
| "as_str JobAlreadyRunning = ''JOB_ALREADY_RUNNING''"
| "as_str JobNotRetryable = ''JOB_NOT_RETRYABLE''"
| "as_str JobNotCancellable = ''JOB_NOT_CANCELLABLE''"
| "as_str RedemptionCodeNotFound = ''REDEMPTION_CODE_NOT_FOUND''"
| "as_str RedemptionCodeAlreadyUsed = ''REDEMPTION_CODE_ALREADY_USED''"
| "as_str RedemptionCodeRevoked = ''REDEMPTION_CODE_REVOKED''"
| "as_str RedemptionCodeExpired = ''REDEMPTION_CODE_EXPIRED''"
| "as_str RedemptionCodeLimitReached = ''REDEMPTION_CODE_LIMIT_REACHED''"
| "as_str RedemptionActionUnsupported = ''REDEMPTION_ACTION_UNSUPPORTED''"
| "as_str GroupNotFound = ''GROUP_NOT_FOUND''"
| "as_str GroupNameRequired = ''GROUP_NAME_REQUIRED''"
| "as_str UserActionTargetInvalid = ''USER_ACTION_TARGET_INVALID''"

text \<open>The HTTP status of a code.\<close>

primrec status :: "error_code \<Rightarrow> nat" where
  "status InvalidJson = 400"
| "status InvalidQuery = 400"
| "status InvalidPathParam = 400"
| "status MethodNotAllowed = 405"
| "status RequestBodyTooLarge = 413"
| "status InvalidContentType = 400"
| "status ValidationFailed = 422"
| "status RateLimited = 429"
| "status AuthRequired = 401"
| "status SessionExpired = 401"
| "status PermissionDenied = 403"
| "status CsrfInvalid = 403"
| "status ResourceNotFound = 404"
| "status ResourceConflict = 409"
| "status CapabilityNotSupported = 501"
| "status InternalError = 500"
| "status LongJobAccepted = 202"
| "status LongRunningActionRequiresJob = 409"
| "status PhiraAuthFailed = 401"
| "status PhiraReauthRequired = 401"
| "status PhiraApiUnavailable = 502"
| "status GithubOauthNotConfigured = 503"
| "status GithubIdentityNotBound = 401"
| "status GithubOauthFailed = 502"
| "status GithubApiUnavailable = 502"
| "status GithubOauthStateInvalid = 401"
| "status AuthLegalConsentRequired = 422"
| "status AuthLegalDocumentsUnavailable = 503"
| "status RootPasswordInvalid = 401"
| "status RootPasswordChangeRequired = 403"
| "status CurrentSessionRevokeForbidden = 403"
| "status PmpUnavailable = 502"
| "status PmpCommandFailed = 502"
| "status PmpCommandTimeout = 502"
| "status PmpCapabilityMissing = 501"
| "status PmpConfigNotAvailable = 501"
| "status PmpInvalidResponse = 502"
| "status RoomNotFound = 404"
| "status RoomIdRequired = 422"
| "status RoomHostRequired = 409"
| "status RoomUserNotPresent = 409"
| "status RoomBatchTargetRequired = 422"
| "status RoomBatchActionUnsupported = 422"
| "status RoomMoveTargetRequired = 422"
| "status RoomChatEmpty = 422"
| "status RoomChatTooLong = 422"
| "status UserNotFound = 404"
| "status AlreadyFriends = 409"
| "status FriendRequestAlreadySent = 409"
| "status FriendRequestNotFound = 404"
| "status FriendRelationRequired = 403"
| "status UserBlocked = 403"
| "status ReplayNotFound = 404"
| "status ReplayAccessDenied = 403"
| "status ReplayVisibilityInvalid = 422"
| "status ReplayPlayerRequired = 422"
| "status ReplayShareInvalid = 401"
| "status ReplayShareExpired = 409"
| "status ReplayShareRevoked = 409"
| "status NotificationNotFound = 404"
| "status NotificationActionNotAvailable = 422"
| "status NotificationActionTargetInvalid = 422"
| "status NotificationInputNotAllowed = 422"
| "status NotificationInputEmpty = 422"
| "status NotificationInputTooLong = 422"
| "status ConfigValidationFailed = 422"
| "status ConfigSnapshotNotFound = 404"
| "status ConfigScopeInvalid = 422"
| "status JobNotFound = 404"
| "status JobTypeUnknown = 404"
| "status JobAlreadyRunning = 409"
| "status JobNotRetryable = 409"
| "status JobNotCancellable = 409"
| "status RedemptionCodeNotFound = 404"
| "status RedemptionCodeAlreadyUsed = 409"
| "status RedemptionCodeRevoked = 409"
| "status RedemptionCodeExpired = 409"
| "status RedemptionCodeLimitReached = 409"
| "status RedemptionActionUnsupported = 501"
| "status GroupNotFound = 404"
| "status GroupNameRequired = 422"
| "status UserActionTargetInvalid = 422"

definition all_codes :: "error_code list" where
  "all_codes = [InvalidJson, InvalidQuery, InvalidPathParam, MethodNotAllowed, RequestBodyTooLarge,
     InvalidContentType, ValidationFailed, RateLimited, AuthRequired, SessionExpired,
     PermissionDenied, CsrfInvalid, ResourceNotFound, ResourceConflict, CapabilityNotSupported,
     InternalError, LongJobAccepted, LongRunningActionRequiresJob, PhiraAuthFailed,
     PhiraReauthRequired, PhiraApiUnavailable, GithubOauthNotConfigured,
     GithubIdentityNotBound, GithubOauthFailed, GithubApiUnavailable, GithubOauthStateInvalid,
     AuthLegalConsentRequired, AuthLegalDocumentsUnavailable, RootPasswordInvalid,
     RootPasswordChangeRequired, CurrentSessionRevokeForbidden, PmpUnavailable,
     PmpCommandFailed, PmpCommandTimeout, PmpCapabilityMissing, PmpConfigNotAvailable,
     PmpInvalidResponse, RoomNotFound, RoomIdRequired, RoomHostRequired, RoomUserNotPresent,
     RoomBatchTargetRequired, RoomBatchActionUnsupported, RoomMoveTargetRequired,
     RoomChatEmpty, RoomChatTooLong, UserNotFound, AlreadyFriends, FriendRequestAlreadySent,
     FriendRequestNotFound, FriendRelationRequired, UserBlocked, ReplayNotFound,
     ReplayAccessDenied, ReplayVisibilityInvalid, ReplayPlayerRequired, ReplayShareInvalid,
     ReplayShareExpired, ReplayShareRevoked, NotificationNotFound,
     NotificationActionNotAvailable, NotificationActionTargetInvalid,
     NotificationInputNotAllowed, NotificationInputEmpty, NotificationInputTooLong,
     ConfigValidationFailed, ConfigSnapshotNotFound, ConfigScopeInvalid, JobNotFound,
     JobTypeUnknown, JobAlreadyRunning, JobNotRetryable, JobNotCancellable,
     RedemptionCodeNotFound, RedemptionCodeAlreadyUsed, RedemptionCodeRevoked,
     RedemptionCodeExpired, RedemptionCodeLimitReached, RedemptionActionUnsupported,
     GroupNotFound, GroupNameRequired, UserActionTargetInvalid]"

section \<open>Errors and their details\<close>

text \<open>The request id of an error is added when the response is built.\<close>

record api_error =
  code :: error_code
  message :: string
  details :: "(string \<times> json) list"
  retry_after_secs :: "int option"

definition internal_message :: string where
  "internal_message = ''internal server error''"

text \<open>\<open>ApiError::new\<close>: the message of an internal error is replaced at once.\<close>

definition api_error_new :: "error_code \<Rightarrow> string \<Rightarrow> api_error" where
  "api_error_new c m =
     \<lparr>code = c,
      message = (if c = InternalError then internal_message else m),
      details = [], retry_after_secs = None\<rparr>"

primrec is_safe_scalar :: "json \<Rightarrow> bool" where
  "is_safe_scalar JNull = True"
| "is_safe_scalar (JBool b) = True"
| "is_safe_scalar (JInt n) = True"
| "is_safe_scalar (JNum t) = True"
| "is_safe_scalar (JStr s) = True"
| "is_safe_scalar (JArr xs) = False"
| "is_safe_scalar (JObj kvs) = False"

text \<open>The params object that \<open>sanitize_details\<close> wraps: the explicit \<open>params\<close> object if
  there is one, the fields themselves otherwise, scalars only.\<close>

definition sanitize_details :: "json \<Rightarrow> (string \<times> json) list" where
  "sanitize_details v =
     (case as_object v of
        None \<Rightarrow> []
      | Some kvs \<Rightarrow>
          (case map_of kvs ''params'' of
             Some p \<Rightarrow>
               (case as_object p of
                  Some explicit \<Rightarrow> filter (\<lambda>e. is_safe_scalar (snd e)) explicit
                | None \<Rightarrow> filter (\<lambda>e. is_safe_scalar (snd e)) kvs)
           | None \<Rightarrow> filter (\<lambda>e. is_safe_scalar (snd e)) kvs))"

definition with_details :: "error_code \<Rightarrow> string \<Rightarrow> json \<Rightarrow> api_error" where
  "with_details c m d = (api_error_new c m)\<lparr>details := sanitize_details d\<rparr>"

definition with_param :: "string \<Rightarrow> string \<Rightarrow> api_error \<Rightarrow> api_error" where
  "with_param k v e =
     e\<lparr>details := aput k (JStr v) (filter (\<lambda>p. is_safe_scalar (snd p)) (details e))\<rparr>"

definition validation :: "string \<Rightarrow> api_error" where
  "validation m = api_error_new ValidationFailed m"

definition permission_denied :: api_error where
  "permission_denied = api_error_new PermissionDenied ''permission denied''"

definition internal :: api_error where
  "internal = api_error_new InternalError internal_message"

definition not_found_code :: "string \<Rightarrow> error_code" where
  "not_found_code resource =
     (let lower = to_ascii_lowercase resource in
      if contains lower ''room'' then RoomNotFound
      else if contains lower ''replay'' \<or> contains lower ''round'' then ReplayNotFound
      else if contains lower ''notification'' then NotificationNotFound
      else if contains lower ''friend request'' then FriendRequestNotFound
      else if contains lower ''user'' \<or> contains lower ''profile'' then UserNotFound
      else if contains lower ''snapshot'' then ConfigSnapshotNotFound
      else if contains lower ''job'' then JobNotFound
      else if contains lower ''redemption'' \<or> contains lower ''coupon'' then RedemptionCodeNotFound
      else if contains lower ''group'' then GroupNotFound
      else ResourceNotFound)"

definition not_found :: "string \<Rightarrow> api_error" where
  "not_found resource =
     with_param ''resource'' resource
       (api_error_new (not_found_code resource) (''resource not found: '' @ resource))"

section \<open>Responses\<close>

record error_body =
  eb_code :: error_code
  eb_message :: string
  eb_request_id :: string
  eb_params :: "(string \<times> json) list"

text \<open>A response body is an error envelope, or anything that does not parse as one.\<close>

datatype body = Envelope error_body | Raw string

record response =
  resp_status :: nat
  resp_body :: body
  resp_request_id :: "string option"
  resp_retry_after :: "int option"

definition error_body_of :: "string \<Rightarrow> api_error \<Rightarrow> error_body" where
  "error_body_of request_id e =
     \<lparr>eb_code = code e,
      eb_message = (if code e = InternalError then internal_message else message e),
      eb_request_id = request_id,
      eb_params =
        (if code e = InternalError then []
         else sanitize_details (JObj [(''params'', JObj (details e))]))\<rparr>"

text \<open>\<open>IntoResponse for ApiError\<close> with the current request id.\<close>

definition into_response :: "string \<Rightarrow> api_error \<Rightarrow> response" where
  "into_response request_id e =
     \<lparr>resp_status = status (code e),
      resp_body = Envelope (error_body_of request_id e),
      resp_request_id = Some request_id,
      resp_retry_after = retry_after_secs e\<rparr>"

definition is_error_status :: "nat \<Rightarrow> bool" where
  "is_error_status s \<longleftrightarrow> 400 \<le> s \<and> s < 600"

definition framework_error_code :: "nat \<Rightarrow> error_code" where
  "framework_error_code s =
     (if s = 400 \<or> s = 422 then ValidationFailed
      else if s = 404 then ResourceNotFound
      else if s = 405 then MethodNotAllowed
      else if s = 413 then RequestBodyTooLarge
      else if s = 415 then InvalidContentType
      else if s = 401 then AuthRequired
      else if s = 403 then PermissionDenied
      else if s = 429 then RateLimited
      else if 500 \<le> s \<and> s < 600 then InternalError
      else ValidationFailed)"

definition framework_message :: "error_code \<Rightarrow> string" where
  "framework_message c =
     (if c = InvalidJson then ''invalid json request''
      else if c = InvalidQuery then ''invalid query parameters''
      else if c = InvalidPathParam then ''invalid path parameter''
      else if c = MethodNotAllowed then ''method not allowed''
      else if c = RequestBodyTooLarge then ''request body too large''
      else if c = InvalidContentType then ''invalid content type''
      else if c = ResourceNotFound then ''route not found''
      else if c = AuthRequired then ''authentication required''
      else if c = PermissionDenied then ''permission denied''
      else if c = RateLimited then ''rate limited''
      else if c = InternalError then internal_message
      else ''request validation failed'')"

text \<open>The outer layer keeps the status of the inner response and rewrites its body.\<close>

definition normalize_error_response :: "string \<Rightarrow> response \<Rightarrow> response" where
  "normalize_error_response request_id r =
     (if \<not> is_error_status (resp_status r) then r\<lparr>resp_request_id := Some request_id\<rparr>
      else
        let new_body =
          (case resp_body r of
             Envelope b \<Rightarrow>
               (let b' = b\<lparr>eb_request_id := request_id\<rparr> in
                if eb_code b' = InternalError
                then b'\<lparr>eb_message := internal_message, eb_params := []\<rparr> else b')
           | Raw _ \<Rightarrow>
               (let c = framework_error_code (resp_status r)
                in error_body_of request_id (api_error_new c (framework_message c))))
        in r\<lparr>resp_body := Envelope new_body, resp_request_id := Some request_id\<rparr>)"

definition is_ascii_graphic :: "char \<Rightarrow> bool" where
  "is_ascii_graphic c \<longleftrightarrow> 33 \<le> (of_char c :: nat) \<and> (of_char c :: nat) \<le> 126"

text \<open>\<open>read_request_id\<close>: the header's readable text, or a generated id.\<close>

definition read_request_id :: "string option \<Rightarrow> string \<Rightarrow> string" where
  "read_request_id hdr generated =
     (case hdr of
        Some v \<Rightarrow>
          (let t = trim v in
           if t \<noteq> [] \<and> length t \<le> 128 \<and> list_all is_ascii_graphic t then t else generated)
      | None \<Rightarrow> generated)"

section \<open>Pagination\<close>

definition MAX_PAGE_NUM :: int where
  "MAX_PAGE_NUM = 100"

definition DEFAULT_PAGE_NUM :: int where
  "DEFAULT_PAGE_NUM = 20"

record pagination_params =
  pp_page :: "int option"
  pp_page_num :: "int option"

definition unwrap_or :: "'a option \<Rightarrow> 'a \<Rightarrow> 'a" where
  "unwrap_or x d = (case x of Some a \<Rightarrow> a | None \<Rightarrow> d)"

definition resolve :: "pagination_params \<Rightarrow> api_error + int \<times> int" where
  "resolve p =
     (let page = max (unwrap_or (pp_page p) 1) 1;
          page_num = unwrap_or (pp_page_num p) DEFAULT_PAGE_NUM
      in if 1 \<le> page_num \<and> page_num \<le> MAX_PAGE_NUM then Inr (page, page_num)
         else Inl (api_error_new InvalidQuery ''pageNum must be between 1 and 100''))"

text \<open>The offset is an \<open>i64\<close> product, which wraps in a release build.\<close>

definition offset_limit :: "pagination_params \<Rightarrow> api_error + int \<times> int" where
  "offset_limit p =
     (case resolve p of
        Inl e \<Rightarrow> Inl e
      | Inr (page, page_num) \<Rightarrow> Inr (wrap64 ((page - 1) * page_num), page_num))"

text \<open>\<open>(page, pageNum)\<close> of the list handlers that clamp instead of rejecting.\<close>

definition clamp_page :: "int \<Rightarrow> int \<Rightarrow> int option \<Rightarrow> int option \<Rightarrow> int \<times> int" where
  "clamp_page default_num max_num page page_num =
     (max (unwrap_or page 1) 1, max 1 (min max_num (unwrap_or page_num default_num)))"

section \<open>Lemmas\<close>

lemma all_codes_complete: "c \<in> set all_codes"
  by (cases c) (simp_all add: all_codes_def)

lemma distinct_as_str: "distinct (map as_str all_codes)"
  by (simp add: all_codes_def)

lemma api_error_new_code [simp]: "code (api_error_new c m) = c"
  by (simp add: api_error_new_def)

lemma with_param_code [simp]: "code (with_param k v e) = code e"
  by (simp add: with_param_def)

lemma error_code_simps [simp]:
  "code (validation m) = ValidationFailed" "code permission_denied = PermissionDenied"
  "code internal = InternalError" "code (not_found r) = not_found_code r"
  by (simp_all add: validation_def permission_denied_def internal_def not_found_def)

lemma sanitize_scalar: "e \<in> set (sanitize_details v) \<Longrightarrow> is_safe_scalar (snd e)"
  by (auto simp: sanitize_details_def split: option.splits)

lemma filter_scalar_id:
  "(\<And>e. e \<in> set kvs \<Longrightarrow> is_safe_scalar (snd e)) \<Longrightarrow> filter (\<lambda>e. is_safe_scalar (snd e)) kvs = kvs"
  by simp

lemma sanitize_params [simp]:
  "sanitize_details (JObj [(''params'', JObj kvs)]) = filter (\<lambda>e. is_safe_scalar (snd e)) kvs"
  by (simp add: sanitize_details_def)

lemma unwrap_or_simps [simp]: "unwrap_or (Some a) d = a" "unwrap_or None d = d"
  by (simp_all add: unwrap_or_def)

section \<open>Properties\<close>

text \<open>The machine-readable strings of the error registry identify the codes: two
  codes with the same \<open>as_str\<close> are the same code.\<close>

theorem as_str_injective: "inj as_str"
proof (rule injI)
  fix c d :: error_code
  assume eq: "as_str c = as_str d"
  have "inj_on as_str (set all_codes)"
    using distinct_as_str by (simp add: distinct_map)
  then show "c = d"
    using eq all_codes_complete [of c] all_codes_complete [of d] by (rule inj_onD)
qed

text \<open>Internal errors are redacted twice over. Whatever message and details an
  \<open>InternalError\<close> was built with, the response that leaves the service has the fixed text, no
  parameter and the status 500.\<close>

theorem internal_error_redacted:
  assumes "code e = InternalError"
  shows "normalize_error_response rid (into_response rid' e) =
    \<lparr>resp_status = 500,
     resp_body = Envelope \<lparr>eb_code = InternalError, eb_message = ''internal server error'',
       eb_request_id = rid, eb_params = []\<rparr>,
     resp_request_id = Some rid, resp_retry_after = retry_after_secs e\<rparr>"
  using assms
  by (simp add: normalize_error_response_def into_response_def error_body_of_def
      is_error_status_def internal_message_def Let_def)

theorem internal_error_redacted_witness:
  "resp_body (normalize_error_response ''r-1''
     (into_response ''r-0'' (api_error_new InternalError ''postgres password=secret'')))
   = Envelope \<lparr>eb_code = InternalError, eb_message = ''internal server error'',
       eb_request_id = ''r-1'', eb_params = []\<rparr>"
  using internal_error_redacted [of "api_error_new InternalError ''postgres password=secret''" "''r-1''" "''r-0''"]
  by simp

text \<open>Pagination. A request is accepted exactly when the page size lies in 1..100, and
  then the offset handed to SQL is the mathematical \<open>(page - 1) * pageNum\<close>, non-negative, exactly
  as long as that product fits in 64 bits; beyond that it is not the product.\<close>

theorem offset_limit_correct:
  "offset_limit p = Inr (off, lim) \<longleftrightarrow>
     lim = unwrap_or (pp_page_num p) 20 \<and> 1 \<le> lim \<and> lim \<le> 100 \<and>
     (let exact = (max (unwrap_or (pp_page p) 1) 1 - 1) * lim in
      off = wrap64 exact \<and> 0 \<le> exact \<and> (off = exact \<longleftrightarrow> i64_range exact))"
proof -
  have wrap: "wrap64 x = x \<longleftrightarrow> i64_range x" for x
    by (auto simp: wrap64_id) (simp add: wrap64_def i64_range_def, presburger)
  show ?thesis
    by (auto simp: offset_limit_def resolve_def MAX_PAGE_NUM_def DEFAULT_PAGE_NUM_def wrap Let_def)
qed

end
