(* ===== verification/Config.thy ===== *)
theory Config
  imports Api_Errors
begin

text \<open>
  The runtime configuration (\<^verbatim>\<open>config/mod.rs\<close>) with its baked defaults, its validation and the
  merge of overrides, and the deployment secrets (\<^verbatim>\<open>config/deployment.rs\<close>). File paths are strings,
  the listen address is its text, and unsigned fields are naturals.
\<close>

section \<open>Runtime configuration\<close>

record server_config =
  listen_addr :: string
  public_url :: string
  graceful_shutdown_secs :: nat

record site_config =
  ppf_url :: string
  panel_url :: string
  docs_url :: string
  visit_count :: int

record cors_config =
  credentials :: bool
  allowed_origins :: "string list"
  dev_origins :: "string list"

record session_config =
  access_ttl_secs :: int
  refresh_ttl_secs :: int
  cookie_domain :: string
  cookie_secure :: bool
  cookie_samesite :: string
  csrf_cookie_name :: string
  csrf_header_name :: string
  reauth_ttl_secs :: int

record pmp_config =
  openuds_path :: string
  auth_mode :: string
  client_name :: string
  reconnect_base_ms :: nat
  reconnect_max_ms :: nat
  request_timeout_ms :: nat
  pmp_capabilities :: "string list"
  config_path :: "string option"
  http_url :: "string option"

record phira_config =
  base_url :: string
  timeout_ms :: nat
  access_token_ttl_secs :: int
  gateway_ttl_secs :: int
  gateway_rate_per_minute :: nat
  aggregator_enabled :: bool
  aggregator_interval_hours :: nat
  aggregator_top_n :: int

record rate_limit_config =
  login_per_minute :: nat
  reauth_per_minute :: nat
  github_start_per_minute :: nat
  github_callback_per_minute :: nat
  github_provider_per_minute :: nat
  chat_send_per_minute :: nat
  social_per_minute :: nat
  raw_cli_per_minute :: nat

record notification_config =
  default_chat_channel :: string
  vapid_private_key_pem :: "string option"
  vapid_subject :: "string option"

record legal_config =
  public_auth_enabled :: bool
  terms_version :: string
  privacy_version :: string
  terms_url :: string
  privacy_url :: string

record runtime_config =
  server :: server_config
  site :: site_config
  cors :: cors_config
  session_cfg :: session_config
  pmp :: pmp_config
  phira :: phira_config
  rate_limit :: rate_limit_config
  audit_retention_days :: int
  notification_cfg :: notification_config
  metrics_retention_days :: int
  return_to_allowlist :: "string list"
  github_callback_url :: string
  legal :: legal_config

definition default_server :: server_config where
  "default_server = \<lparr>listen_addr = ''0.0.0.0:8080'', public_url = ''https://api-phira.htadiy.com'',
     graceful_shutdown_secs = 15\<rparr>"

definition default_site :: site_config where
  "default_site = \<lparr>ppf_url = ''https://phira.htadiy.com'', panel_url = ''https://panel-phira.htadiy.com'',
     docs_url = ''https://docs.phira.htadiy.com'', visit_count = 0\<rparr>"

definition default_cors :: cors_config where
  "default_cors = \<lparr>credentials = True,
     allowed_origins = [''https://phira.htadiy.com'', ''https://panel-phira.htadiy.com'', ''https://beta.htadiy.com''],
     dev_origins = [''http://localhost:3000'', ''http://localhost:5173'']\<rparr>"

definition default_session :: session_config where
  "default_session = \<lparr>access_ttl_secs = 3600, refresh_ttl_secs = 2592000, cookie_domain = [],
     cookie_secure = True, cookie_samesite = ''lax'', csrf_cookie_name = ''ppb_csrf'',
     csrf_header_name = ''X-CSRF-Token'', reauth_ttl_secs = 300\<rparr>"

definition default_pmp :: pmp_config where
  "default_pmp = \<lparr>openuds_path = ''/var/run/pmp-openuds.sock'', auth_mode = ''approve'',
     client_name = ''ppb-server'', reconnect_base_ms = 500, reconnect_max_ms = 30000,
     request_timeout_ms = 10000,
     pmp_capabilities = [''persist.touches'', ''persist.judges'', ''persist.rounds'', ''room.chat_send'',
       ''stream.touches'', ''stream.judges''],
     config_path = None, http_url = None\<rparr>"

definition default_phira :: phira_config where
  "default_phira = \<lparr>base_url = ''https://phira.5wyxi.com'', timeout_ms = 15000, access_token_ttl_secs = 21600,
     gateway_ttl_secs = 120, gateway_rate_per_minute = 60, aggregator_enabled = True,
     aggregator_interval_hours = 1, aggregator_top_n = 50\<rparr>"

definition default_rate_limit :: rate_limit_config where
  "default_rate_limit = \<lparr>login_per_minute = 10, reauth_per_minute = 10, github_start_per_minute = 10,
     github_callback_per_minute = 20, github_provider_per_minute = 120, chat_send_per_minute = 60,
     social_per_minute = 30, raw_cli_per_minute = 30\<rparr>"

definition default_notifications :: notification_config where
  "default_notifications = \<lparr>default_chat_channel = ''only_when_companion_background'',
     vapid_private_key_pem = None, vapid_subject = None\<rparr>"

definition default_legal :: legal_config where
  "default_legal = \<lparr>public_auth_enabled = False, terms_version = [], privacy_version = [],
     terms_url = [], privacy_url = []\<rparr>"

definition default_config :: runtime_config where
  "default_config = \<lparr>server = default_server, site = default_site, cors = default_cors,
     session_cfg = default_session, pmp = default_pmp, phira = default_phira, rate_limit = default_rate_limit,
     audit_retention_days = 90, notification_cfg = default_notifications, metrics_retention_days = 30,
     return_to_allowlist = [''https://phira.htadiy.com'', ''https://panel-phira.htadiy.com'', ''https://beta.htadiy.com''],
     github_callback_url = ''https://api-phira.htadiy.com/api/v1/auth/github/callback'', legal = default_legal\<rparr>"

section \<open>Environment overrides and validation\<close>

definition env_override :: "string option \<Rightarrow> string option \<Rightarrow> string option" where
  "env_override var old =
     (case var of Some v \<Rightarrow> if trim v \<noteq> [] then Some v else old | None \<Rightarrow> old)"

definition apply_env_overrides :: "(string \<Rightarrow> string option) \<Rightarrow> runtime_config \<Rightarrow> runtime_config" where
  "apply_env_overrides env c =
     c\<lparr>notification_cfg := (notification_cfg c)
        \<lparr>vapid_private_key_pem :=
           env_override (env ''PPB_VAPID_PRIVATE_KEY_PEM'') (vapid_private_key_pem (notification_cfg c)),
         vapid_subject := env_override (env ''PPB_VAPID_SUBJECT'') (vapid_subject (notification_cfg c))\<rparr>\<rparr>"

definition safe_relative :: "string \<Rightarrow> bool" where
  "safe_relative v \<longleftrightarrow> starts_with v ''/'' \<and> \<not> starts_with v ''//'' \<and> \<not> contains v [CHR 0x5C]"

definition safe_absolute :: "string \<Rightarrow> bool" where
  "safe_absolute v \<longleftrightarrow> starts_with v ''https://'' \<or> starts_with v ''http://localhost'' \<or>
     starts_with v ''http://127.0.0.1''"

fun first_error :: "(bool \<times> string) list \<Rightarrow> string + unit" where
  "first_error [] = Inr ()"
| "first_error ((bad, m) # cs) = (if bad then Inl m else first_error cs)"

definition legal_required :: "string \<Rightarrow> string" where
  "legal_required n = n @ '' is required when legal.public_auth_enabled=true''"

definition legal_unsafe :: "string \<Rightarrow> string" where
  "legal_unsafe n = n @ '' must be HTTPS, localhost HTTP, or a safe relative path''"

definition validate_config :: "runtime_config \<Rightarrow> string + unit" where
  "validate_config c =
     (let l = legal c; public = public_auth_enabled l;
          unsafe = (\<lambda>v. \<not> safe_relative (trim v) \<and> \<not> safe_absolute (trim v)) in
      first_error
        [(credentials (cors c) \<and> ''*'' \<in> set (allowed_origins (cors c)),
            ''cors.credentials=true forbids '' @ [CHR 0x27, CHR ''*'', CHR 0x27] @ '' allowed_origins''),
         (auth_mode (pmp c) \<noteq> ''token'' \<and> auth_mode (pmp c) \<noteq> ''approve'',
            ''pmp.auth_mode must be '' @ [CHR 0x27] @ ''token'' @ [CHR 0x27] @ '' or '' @ [CHR 0x27] @ ''approve'' @ [CHR 0x27]),
         (to_ascii_lowercase (cookie_samesite (session_cfg c)) \<notin> {''lax'', ''strict'', ''none''},
            ''session.cookie_samesite must be lax|strict|none''),
         (public \<and> trim (terms_version l) = [], legal_required ''legal.terms_version''),
         (public \<and> trim (privacy_version l) = [], legal_required ''legal.privacy_version''),
         (public \<and> trim (terms_url l) = [], legal_required ''legal.terms_url''),
         (public \<and> trim (privacy_url l) = [], legal_required ''legal.privacy_url''),
         (public \<and> unsafe (terms_url l), legal_unsafe ''legal.terms_url''),
         (public \<and> unsafe (privacy_url l), legal_unsafe ''legal.privacy_url'')])"

section \<open>Merging overrides\<close>

text \<open>The overrides of \<open>apply_overrides\<close> are merged into the serialized configuration; a key the
  configuration does not have is ignored.\<close>

definition set_field :: "string \<Rightarrow> json \<Rightarrow> (string \<times> json) list \<Rightarrow> (string \<times> json) list" where
  "set_field k v fs = map (\<lambda>f. if fst f = k then (k, v) else f) fs"

function merge_objects :: "(string \<times> json) list \<Rightarrow> (string \<times> json) list \<Rightarrow> (string \<times> json) list" where
  "merge_objects fs [] = fs"
| "merge_objects fs ((k, v) # over) =
     merge_objects
       (case map_of fs k of
          None \<Rightarrow> fs
        | Some b \<Rightarrow>
            (case (b, v) of
               (JObj bs, JObj os) \<Rightarrow> set_field k (JObj (merge_objects bs os)) fs
             | _ \<Rightarrow> set_field k v fs)) over"
  by pat_completeness auto
termination
  by (relation "measure (\<lambda>(fs, over). size_list (size_prod (\<lambda>_. 0) size) over)") auto

section \<open>Secrets\<close>

record secrets =
  database_url :: "string option"
  jwt_secret :: string
  phira_credential_key :: string
  github_client_id :: "string option"
  github_client_secret :: "string option"
  pmp_openuds_token :: "string option"

definition env_or :: "(string \<Rightarrow> string option) \<Rightarrow> string \<Rightarrow> string option" where
  "env_or env name = (case env name of Some v \<Rightarrow> if v \<noteq> [] then Some v else None | None \<Rightarrow> None)"

text \<open>\<open>Secrets::from_env\<close>; the base64 decoder is a parameter (\<open>None\<close> is a decoding error,
  whose own message is left out).\<close>

definition secrets_from_env ::
  "(string \<Rightarrow> string option) \<Rightarrow> (string \<Rightarrow> string option) \<Rightarrow> string + secrets" where
  "secrets_from_env b64 env =
     (case env_or env ''PPB_JWT_SECRET'' of
        None \<Rightarrow> Inl ''PPB_JWT_SECRET is required''
      | Some jwt \<Rightarrow>
          (case env_or env ''PPB_PHIRA_CREDENTIAL_KEY'' of
             None \<Rightarrow> Inl ''PPB_PHIRA_CREDENTIAL_KEY is required''
           | Some cred \<Rightarrow>
               (case b64 cred of
                  None \<Rightarrow> Inl ''PPB_PHIRA_CREDENTIAL_KEY not valid base64''
                | Some key \<Rightarrow>
                    if length key \<noteq> 32
                    then Inl ''PPB_PHIRA_CREDENTIAL_KEY must decode to 32 bytes (AES-256)''
                    else Inr \<lparr>database_url = env_or env ''PPB_DATABASE_URL'', jwt_secret = jwt,
                      phira_credential_key = key,
                      github_client_id = env_or env ''PPB_GITHUB_CLIENT_ID'',
                      github_client_secret = env_or env ''PPB_GITHUB_CLIENT_SECRET'',
                      pmp_openuds_token = env_or env ''PPB_PMP_OPENUDS_TOKEN''\<rparr>)))"

definition github_configured :: "secrets \<Rightarrow> bool" where
  "github_configured s \<longleftrightarrow> github_client_id s \<noteq> None \<and> github_client_secret s \<noteq> None"

section \<open>Lemmas\<close>

lemma first_error_ok: "first_error cs = Inr () \<longleftrightarrow> (\<forall>c \<in> set cs. \<not> fst c)"
  by (induction cs rule: first_error.induct) auto

lemma set_field_keys [simp]: "map fst (set_field k v fs) = map fst fs"
  by (auto simp: set_field_def)

lemma map_of_set_field: "map_of (set_field k v fs) j =
    (if j = k \<and> map_of fs k \<noteq> None then Some v else map_of fs j)"
  by (induction fs) (auto simp: set_field_def)

lemma merge_keys: "map fst (merge_objects fs over) = map fst fs"
  by (induction fs over rule: merge_objects.induct) (auto split: option.splits json.splits)

lemma merge_other: "k \<notin> fst ` set over \<Longrightarrow> map_of (merge_objects fs over) k = map_of fs k"
  by (induction fs over rule: merge_objects.induct)
    (auto simp: map_of_set_field split: option.splits json.splits)



end
