(* ===== verification/Schema.thy ===== *)
theory Schema
  imports Api_Errors
begin

text \<open>
  The PostgreSQL database as the backend sees it: the tables of \<^verbatim>\<open>migrations/\<close> that the
  modelled components read and write, with the row structs of the source as records; the
  errors a statement can end in; the primitives that run one statement or one transaction
  against a connection that may fail at any statement; and the constraints of the schema
  that reject a statement.
\<close>

section \<open>Rows\<close>

record user =
  u_id :: uuid
  phira_id :: int
  username_cache :: string
  avatar_cache :: string
  u_status :: string
  u_created_at :: instant
  u_updated_at :: instant
  u_last_seen_at :: "instant option"

record group =
  g_id :: uuid
  g_name :: string
  g_description :: string
  system_kind :: "string option"
  is_default :: bool
  protected :: bool

record session =
  s_id :: uuid
  s_principal_type :: string
  s_user_id :: "uuid option"
  s_client_type :: string
  refresh_hash :: string
  device_name :: string
  s_ip :: string
  s_created_at :: instant
  s_expires_at :: instant
  revoked_at :: "instant option"
  last_seen_at :: "instant option"

record root_credential =
  password_hash :: string
  must_change_password :: bool

record identity =
  i_user_id :: uuid
  provider :: string
  provider_id :: string
  provider_name :: string

record phira_credential =
  pc_user_id :: uuid
  refresh_token_ciphertext :: string
  refresh_expires_at :: instant
  pc_state :: string
  pc_updated_at :: instant

record legal_row =
  l_user_id :: uuid
  l_terms_version :: string
  l_privacy_version :: string
  l_client_type :: string
  l_source :: string

record friend_request =
  fr_id :: uuid
  from_user_id :: uuid
  to_user_id :: uuid
  fr_status :: string
  fr_created_at :: instant
  responded_at :: "instant option"

record replay_override =
  ro_id :: uuid
  pmp_replay_id :: string
  ro_player :: int
  owner_user_id :: "uuid option"
  visibility :: string
  ro_updated_at :: instant

record share_link =
  sl_id :: uuid
  replay_round :: string
  sl_player :: int
  token_hash :: string
  created_by :: uuid
  sl_expires_at :: "instant option"
  sl_revoked_at :: "instant option"
  sl_created_at :: instant

text \<open>The progress of a job is a \<open>REAL\<close>, kept as its bits.\<close>

record job =
  j_id :: uuid
  j_type :: string
  j_resource_key :: string
  j_state :: string
  j_progress :: "32 word option"
  j_stage :: string
  j_created_at :: instant
  j_started_at :: "instant option"
  j_finished_at :: "instant option"
  j_error :: string

record command_run =
  c_id :: uuid
  c_action :: string
  c_actor :: string
  c_command :: string
  c_scope :: string
  c_resource_key :: string
  arguments_redacted :: json
  c_status :: string
  c_started_at :: "instant option"
  result_summary :: string
  c_error_code :: string
  c_finished_at :: "instant option"

record new_audit_event =
  ne_principal_type :: string
  ne_actor_user_id :: "uuid option"
  ne_actor_session_id :: "uuid option"
  ne_action :: string
  ne_resource_type :: string
  ne_resource_id :: string
  ne_parameters :: json
  ne_result :: string
  ne_error_code :: string
  ne_request_id :: string
  ne_command_id :: string
  ne_ip :: string
  ne_user_agent :: string

record audit_row =
  a_id :: uuid
  occurred_at :: instant
  a_event :: new_audit_event

record notification_event =
  ev_id :: uuid
  ev_type :: string
  ev_actor :: "uuid option"
  ev_payload :: json
  ev_created_at :: instant

record user_notification =
  un_id :: uuid
  un_event_id :: uuid
  un_user_id :: uuid
  un_read_at :: "instant option"
  un_dismissed_at :: "instant option"
  un_created_at :: instant

record push_endpoint =
  pe_id :: uuid
  pe_user_id :: uuid
  pe_device_id :: string
  pe_channel :: string
  pe_ciphertext :: string
  pe_platform :: string
  pe_created_at :: instant
  pe_last_seen_at :: "instant option"
  pe_disabled_at :: "instant option"

record preference_row =
  pr_user_id :: uuid
  pr_namespace :: string
  pr_revision :: int
  pr_data :: json
  pr_updated_at :: instant

record admin_task =
  at_id :: uuid
  at_source :: string
  at_source_id :: "uuid option"
  at_type :: string
  at_status :: string
  at_payload :: json
  at_created_by :: "uuid option"
  at_created_at :: instant
  at_completed_at :: "instant option"

record runbook =
  rb_id :: uuid
  rb_name :: string
  rb_description :: string
  rb_definition :: json
  rb_created_by :: "uuid option"
  rb_updated_by :: "uuid option"
  rb_created_at :: instant
  rb_updated_at :: instant

record runbook_run =
  rr_id :: uuid
  rr_runbook_id :: uuid
  rr_definition :: json
  rr_arguments :: json
  rr_actor :: string
  rr_status :: string
  rr_started_at :: "instant option"
  rr_finished_at :: "instant option"

record user_profile =
  up_user_id :: uuid
  up_bio :: string
  up_background_url :: string
  up_visibility :: string
  up_show_online :: bool
  up_show_recent :: bool
  up_updated_at :: instant

record coupon =
  cp_id :: uuid
  cp_code :: string
  cp_action_type :: string
  cp_payload :: json
  cp_max_uses :: int
  cp_used_count :: int
  cp_created_by :: "uuid option"
  cp_created_at :: instant
  cp_revoked_at :: "instant option"
  cp_holder_mode :: string
  cp_holder_user_id :: "uuid option"
  cp_note :: string
  cp_expires_at :: "instant option"

record redemption =
  rd_coupon_id :: uuid
  rd_user_id :: uuid
  rd_action_type :: string
  rd_result :: json
  rd_redeemed_at :: instant

record chart_snapshot =
  sn_chart_id :: int
  sn_record_count :: int
  sn_snapshot_at :: instant

record config_snapshot =
  cs_id :: uuid
  cs_scope :: string
  cs_content :: string
  cs_note :: string
  cs_created_by :: "uuid option"
  cs_created_at :: instant
  cs_restored_at :: "instant option"

text \<open>The tables with a single row hold a revision (where there is one), a content and who wrote it when.\<close>

record config_row =
  cr_revision :: int
  cr_content :: json
  cr_updated_by :: "uuid option"
  cr_updated_at :: instant

section \<open>Connection outcomes\<close>

text \<open>
  What becomes of one statement: it completes; or the connection fails before it takes
  effect; or after, so that the caller sees an error although the server has done the
  work. The list of outcomes is consumed statement by statement; past its end every
  statement completes.
\<close>

datatype outcome = Completes | FailsBefore | FailsAfter

datatype sqlx_error = RowNotFound | UniqueViolation | ForeignKeyViolation | CheckViolation | InvalidStatement | ConnectionFailed

record db =
  clock :: instant
  outcomes :: "outcome list"
  users :: "user list"
  groups :: "group list"
  group_members :: "(uuid \<times> uuid) list"
  group_permissions :: "(uuid \<times> string) list"
  sessions :: "session list"
  root_credentials :: "root_credential option"
  user_identities :: "identity list"
  phira_credentials :: "phira_credential list"
  legal_acceptances :: "legal_row list"
  friend_requests :: "friend_request list"
  friendships :: "(uuid \<times> uuid) list"
  user_blocks :: "(uuid \<times> uuid) list"
  notification_events :: "notification_event list"
  user_notifications :: "user_notification list"
  replay_overrides :: "replay_override list"
  replay_acl :: "(uuid \<times> uuid \<times> string) list"
  replay_share_links :: "share_link list"
  jobs :: "job list"
  command_runs :: "command_run list"
  audit_log :: "audit_row list"
  push_endpoints :: "push_endpoint list"
  user_preferences :: "preference_row list"
  admin_tasks :: "admin_task list"
  runbooks :: "runbook list"
  runbook_runs :: "runbook_run list"
  config_snapshots :: "config_snapshot list"
  public_content :: "(string \<times> config_row) list"
  ppf_build_config :: "config_row option"
  runtime_overrides :: "config_row option"
  user_profiles :: "user_profile list"
  chart_snapshots :: "chart_snapshot list"
  coupons :: "coupon list"
  coupon_redemptions :: "redemption list"

definition empty_db :: "instant \<Rightarrow> db" where
  "empty_db t =
     \<lparr>clock = t, outcomes = [], users = [], groups = [], group_members = [],
      group_permissions = [], sessions = [], root_credentials = None, user_identities = [],
      phira_credentials = [], legal_acceptances = [], friend_requests = [], friendships = [],
      user_blocks = [], notification_events = [], user_notifications = [], replay_overrides = [], replay_acl = [],
      replay_share_links = [], jobs = [], command_runs = [], audit_log = [], push_endpoints = [], user_preferences = [],
      admin_tasks = [], runbooks = [], runbook_runs = [], config_snapshots = [], public_content = [], ppf_build_config = None,
      runtime_overrides = None, user_profiles = [], chart_snapshots = [], coupons = [], coupon_redemptions = []\<rparr>"

section \<open>Statements and transactions\<close>

text \<open>A statement that violates a constraint has no effect, so its body returns either an
  error with the database it got, or a value with a new one.\<close>

type_synonym 'a statement = "db \<Rightarrow> sqlx_error + 'a \<times> db"

definition next_outcome :: "db \<Rightarrow> outcome \<times> db" where
  "next_outcome d =
     (case outcomes d of [] \<Rightarrow> (Completes, d) | x # xs \<Rightarrow> (x, d\<lparr>outcomes := xs\<rparr>))"

definition query :: "'a statement \<Rightarrow> (db, sqlx_error, 'a) comp" where
  "query q d =
     (case next_outcome d of
        (Completes, d1) \<Rightarrow> (case q d1 of Inl e \<Rightarrow> (Inl e, d1) | Inr (a, d2) \<Rightarrow> (Inr a, d2))
      | (FailsBefore, d1) \<Rightarrow> (Inl ConnectionFailed, d1)
      | (FailsAfter, d1) \<Rightarrow>
          (case q d1 of Inl e \<Rightarrow> (Inl ConnectionFailed, d1)
                      | Inr (a, d2) \<Rightarrow> (Inl ConnectionFailed, d2)))"

text \<open>A read returns a value of the tables.\<close>

definition select :: "(db \<Rightarrow> 'a) \<Rightarrow> (db, sqlx_error, 'a) comp" where
  "select f = query (\<lambda>d. Inr (f d, d))"

text \<open>A write without constraints.\<close>

definition execute :: "(db \<Rightarrow> db) \<Rightarrow> (db, sqlx_error, unit) comp" where
  "execute f = query (\<lambda>d. Inr ((), f d))"

text \<open>\<open>begin\<close> and \<open>commit\<close> are round trips too. A body that fails, or a commit that fails
  before it takes effect, leaves the tables as they were at \<open>begin\<close>.\<close>

definition rolled_back :: "db \<Rightarrow> db \<Rightarrow> db" where
  "rolled_back before now = before\<lparr>outcomes := outcomes now\<rparr>"

definition transaction ::
  "(sqlx_error \<Rightarrow> 'e) \<Rightarrow> (db, 'e, 'a) comp \<Rightarrow> (db, 'e, 'a) comp" where
  "transaction h m d =
     (case next_outcome d of
        (Completes, d1) \<Rightarrow>
          (case m d1 of
             (Inl e, d2) \<Rightarrow> (Inl e, rolled_back d1 d2)
           | (Inr a, d2) \<Rightarrow>
               (case next_outcome d2 of
                  (Completes, d3) \<Rightarrow> (Inr a, d3)
                | (FailsBefore, d3) \<Rightarrow> (Inl (h ConnectionFailed), rolled_back d1 d3)
                | (FailsAfter, d3) \<Rightarrow> (Inl (h ConnectionFailed), d3)))
      | (_, d1) \<Rightarrow> (Inl (h ConnectionFailed), d1))"

text \<open>The error mapping that most repositories share (\<open>db_err\<close>): a missing row is the
  given error, anything else is an internal one.\<close>

definition db_err :: "api_error \<Rightarrow> sqlx_error \<Rightarrow> api_error" where
  "db_err missing e = (if e = RowNotFound then missing else internal)"

section \<open>Lemmas\<close>

definition calm :: "db \<Rightarrow> bool" where
  "calm d \<longleftrightarrow> outcomes d = []"

lemma next_outcome_calm [simp]: "outcomes d = [] \<Longrightarrow> next_outcome d = (Completes, d)"
  by (simp add: next_outcome_def)

lemma query_calm: "outcomes d = [] \<Longrightarrow>
  query q d = (case q d of Inl e \<Rightarrow> (Inl e, d) | Inr (a, d2) \<Rightarrow> (Inr a, d2))"
  by (simp add: query_def)

lemma select_calm [simp]: "outcomes d = [] \<Longrightarrow> select f d = (Inr (f d), d)"
  by (simp add: select_def query_calm)

lemma execute_calm [simp]: "outcomes d = [] \<Longrightarrow> execute f d = (Inr (), f d)"
  by (simp add: execute_def query_calm)

lemma transaction_calm:
  assumes "outcomes d = []" and "\<And>r d'. m d = (r, d') \<Longrightarrow> outcomes d' = []"
  shows "transaction h m d =
    (case m d of (Inl e, d2) \<Rightarrow> (Inl e, rolled_back d d2) | (Inr a, d2) \<Rightarrow> (Inr a, d2))"
  using assms by (auto simp: transaction_def split: prod.splits sum.splits)

text \<open>What a statement or a transaction can have done, whatever the connection did.\<close>

lemma outcomes_self [simp]: "\<exists>xs. d = d\<lparr>outcomes := xs\<rparr>" for d :: db
  by (rule exI [of _ "outcomes d"]) simp

lemma outcomes_other [simp]: "\<exists>ys. d\<lparr>outcomes := xs\<rparr> = d\<lparr>outcomes := ys\<rparr>" for d :: db
  by blast

lemma next_outcome_cases:
  obtains x xs where "next_outcome d = (x, d\<lparr>outcomes := xs\<rparr>)"
  by (cases "outcomes d") (auto simp: next_outcome_def intro: that [of _ "outcomes d"])

lemma query_InrD:
  assumes "query q d = (Inr a, t)"
  shows "\<exists>xs. q (d\<lparr>outcomes := xs\<rparr>) = Inr (a, t)"
proof -
  obtain x xs where "next_outcome d = (x, d\<lparr>outcomes := xs\<rparr>)" by (rule next_outcome_cases)
  with assms show ?thesis
    by (cases x) (auto simp: query_def split: sum.splits prod.splits)
qed

lemma query_InlD:
  assumes "query q d = (Inl e, t)"
  shows "\<exists>xs. t = d\<lparr>outcomes := xs\<rparr> \<or> (\<exists>a. q (d\<lparr>outcomes := xs\<rparr>) = Inr (a, t))"
proof -
  obtain x xs where "next_outcome d = (x, d\<lparr>outcomes := xs\<rparr>)" by (rule next_outcome_cases)
  with assms show ?thesis
    by (cases x) (auto simp: query_def split: sum.splits prod.splits)
qed

lemma select_InrD: "select f d = (Inr a, t) \<Longrightarrow> \<exists>xs. t = d\<lparr>outcomes := xs\<rparr> \<and> a = f t"
  by (auto simp: select_def dest!: query_InrD)

lemma select_state: "\<exists>xs. snd (select f d) = d\<lparr>outcomes := xs\<rparr>"
proof -
  obtain x xs where "next_outcome d = (x, d\<lparr>outcomes := xs\<rparr>)" by (rule next_outcome_cases)
  then have "snd (select f d) = d\<lparr>outcomes := xs\<rparr>"
    by (cases x) (simp_all add: select_def query_def)
  then show ?thesis ..
qed

lemma execute_InrD: "execute f d = (Inr a, t) \<Longrightarrow> \<exists>xs. t = f (d\<lparr>outcomes := xs\<rparr>)"
  by (auto simp: execute_def dest!: query_InrD)

lemma transaction_cases:
  assumes "transaction h m d = (r, t)"
  obtains (undone) e xs where "r = Inl e" and "t = d\<lparr>outcomes := xs\<rparr>"
  | (finished) xs a d2 ys where "m (d\<lparr>outcomes := xs\<rparr>) = (Inr a, d2)" and "t = d2\<lparr>outcomes := ys\<rparr>"
      and "\<And>b. r = Inr b \<Longrightarrow> b = a"
proof -
  obtain x xs where n: "next_outcome d = (x, d\<lparr>outcomes := xs\<rparr>)" by (rule next_outcome_cases)
  obtain q d2 where m: "m (d\<lparr>outcomes := xs\<rparr>) = (q, d2)" by (cases "m (d\<lparr>outcomes := xs\<rparr>)")
  obtain y ys where n2: "next_outcome d2 = (y, d2\<lparr>outcomes := ys\<rparr>)" by (rule next_outcome_cases)
  show thesis
  proof (cases "x = Completes \<and> (\<exists>a. q = Inr a) \<and> y \<noteq> FailsBefore")
    case True
    then obtain a where q: "q = Inr a" by blast
    show thesis
      using assms n m n2 q True
      by (intro finished [of xs a d2 ys]) (auto simp: transaction_def split: outcome.splits)
  next
    case False
    then have "(\<exists>e. r = Inl e) \<and> (\<exists>zs. t = d\<lparr>outcomes := zs\<rparr>)"
      using assms n m n2
      by (cases x; cases q; cases y) (auto simp: transaction_def rolled_back_def)
    then show thesis using undone by blast
  qed
qed

text \<open>The outcome list is not part of the tables: a relation that ignores it is obeyed by a
  statement as soon as its body obeys it.\<close>

locale table_frame = frame R for R :: "db \<Rightarrow> db \<Rightarrow> bool" +
  assumes ignores_outcomes: "R d (d\<lparr>outcomes := xs\<rparr>)"
begin

lemma next_outcome_R: "next_outcome d = (x, d1) \<Longrightarrow> R d d1"
  by (auto simp: next_outcome_def refl_R ignores_outcomes split: list.splits)

lemma obeys_query:
  assumes "\<And>d a d'. q d = Inr (a, d') \<Longrightarrow> R d d'"
  shows "obeys R (query q)"
  unfolding obeys_def
proof
  fix d
  obtain x d1 where n: "next_outcome d = (x, d1)" by (cases "next_outcome d")
  then have d1: "R d d1" by (rule next_outcome_R)
  have d2: "q d1 = Inr (a, d2) \<Longrightarrow> R d d2" for a d2
    using d1 assms trans_R by blast
  show "R d (snd (query q d))"
    using n d1 d2 by (auto simp: query_def split: outcome.splits sum.splits prod.splits)
qed

lemma obeys_select: "obeys R (select f)"
  unfolding select_def by (rule obeys_query) (auto simp: refl_R)

lemma obeys_execute: "(\<And>d. R d (f d)) \<Longrightarrow> obeys R (execute f)"
  unfolding execute_def by (rule obeys_query) auto

lemma obeys_transaction:
  assumes "obeys R m"
  shows "obeys R (transaction h m)"
  unfolding obeys_def
proof
  fix d
  obtain x d1 where n: "next_outcome d = (x, d1)" by (cases "next_outcome d")
  then have d1: "R d d1" by (rule next_outcome_R)
  obtain r d2 where m: "m d1 = (r, d2)" by (cases "m d1")
  have d2: "R d d2" using d1 obeys_run [OF assms m] trans_R by blast
  have undone: "R d (rolled_back d1 d')" for d'
    using d1 ignores_outcomes trans_R unfolding rolled_back_def by blast
  obtain y d3 where n2: "next_outcome d2 = (y, d3)" by (cases "next_outcome d2")
  then have d3: "R d d3" using d2 next_outcome_R trans_R by blast
  show "R d (snd (transaction h m d))"
    using n m n2 d1 d2 d3 undone
    by (auto simp: transaction_def split: outcome.splits sum.splits)
qed

lemmas table_intros = obeys_intros obeys_select

end

text \<open>A computation that only reads leaves every table as it was.\<close>

definition untouched :: "db \<Rightarrow> db \<Rightarrow> bool" where
  "untouched d d' \<longleftrightarrow> (\<exists>xs. d' = d\<lparr>outcomes := xs\<rparr>)"

interpretation reader: table_frame untouched
  by unfold_locales (auto simp: untouched_def)

text \<open>Tables that no statement of a computation writes stay the same.\<close>

definition tables_same :: "(db \<Rightarrow> 'v) \<Rightarrow> bool" where
  "tables_same f \<longleftrightarrow> (\<forall>d xs. f (d\<lparr>outcomes := xs\<rparr>) = f d)"

lemma tables_same_columns:
  "tables_same users" "tables_same groups" "tables_same group_members"
  "tables_same group_permissions" "tables_same sessions" "tables_same clock"
  by (simp_all add: tables_same_def)

end
