(* ===== verification/Auth_Types.thy ===== *)
theory Auth_Types
  imports Schema
begin

text \<open>
  Principals and clients (\<^verbatim>\<open>auth/types.rs\<close>) and the risk levels of actions
  (\<^verbatim>\<open>actions/types.rs\<close>), whose derived order is the order of declaration.
\<close>

datatype principal_type = PUser | PRoot

primrec show_principal :: "principal_type \<Rightarrow> string" where
  "show_principal PUser = ''user''"
| "show_principal PRoot = ''root''"

datatype client_type = Ppf | Panel | Windows | Android

primrec show_client :: "client_type \<Rightarrow> string" where
  "show_client Ppf = ''ppf''"
| "show_client Panel = ''panel''"
| "show_client Windows = ''windows''"
| "show_client Android = ''android''"

definition parse_client :: "string \<Rightarrow> client_type option" where
  "parse_client s =
     (if s = ''ppf'' then Some Ppf
      else if s = ''panel'' then Some Panel
      else if s = ''windows'' then Some Windows
      else if s = ''android'' then Some Android
      else None)"

record auth_principal =
  sub :: uuid
  sid :: uuid
  principal :: principal_type
  client :: client_type
  request_id :: string

definition is_root :: "auth_principal \<Rightarrow> bool" where
  "is_root a \<longleftrightarrow> principal a = PRoot"

datatype risk = Low | Medium | High | Critical

primrec risk_rank :: "risk \<Rightarrow> nat" where
  "risk_rank Low = 0"
| "risk_rank Medium = 1"
| "risk_rank High = 2"
| "risk_rank Critical = 3"

lemma risk_rank_inject [simp]: "risk_rank a = risk_rank b \<longleftrightarrow> a = b"
  by (cases a; cases b) simp_all

instantiation risk :: linorder
begin

definition less_eq_risk :: "risk \<Rightarrow> risk \<Rightarrow> bool" where
  "a \<le> b \<longleftrightarrow> risk_rank a \<le> risk_rank b"

definition less_risk :: "risk \<Rightarrow> risk \<Rightarrow> bool" where
  "a < b \<longleftrightarrow> risk_rank a < risk_rank b"

instance
  by standard (auto simp: less_eq_risk_def less_risk_def)

end

lemma Critical_le_iff [simp]: "Critical \<le> r \<longleftrightarrow> r = Critical"
  by (cases r) (simp_all add: less_eq_risk_def)

lemma parse_show_client [simp]: "parse_client (show_client c) = Some c"
  by (cases c) (simp_all add: parse_client_def)

lemma parse_client_Some: "parse_client s = Some c \<Longrightarrow> s = show_client c"
  by (auto simp: parse_client_def split: if_splits)

end
