(* ===== verification/Rate_Limiter.thy ===== *)
theory Rate_Limiter
  imports Api_Errors
begin

text \<open>
  The in-memory sliding-window rate limiter (\<^verbatim>\<open>middleware/rate_limit.rs\<close>): per key, the times
  of the attempts let through during the last minute. The main result bounds the attempts
  that any one-minute window can let through, over every sequence of checks.
\<close>

section \<open>The limiter\<close>

type_synonym buckets = "(string \<times> int list) list"

definition now_secs :: "instant \<Rightarrow> int" where
  "now_secs t = (if 0 \<le> t then timestamp t else 0)"

definition bucket_of :: "buckets \<Rightarrow> string \<Rightarrow> int list" where
  "bucket_of bs k = (case aget bs k of Some b \<Rightarrow> b | None \<Rightarrow> [])"

definition recent :: "int \<Rightarrow> int list \<Rightarrow> int list" where
  "recent now b = filter (\<lambda>t. now - t < 60) b"

definition rate_limited :: "int \<Rightarrow> api_error" where
  "rate_limited retry_after =
     (with_details RateLimited ''rate limit exceeded'' (JObj [(''retry_after_seconds'', JInt retry_after)]))
       \<lparr>retry_after_secs := Some retry_after\<rparr>"

definition check :: "int \<Rightarrow> string \<Rightarrow> nat \<Rightarrow> (buckets, api_error, unit) comp" where
  "check now key limit_per_minute bs =
     (if limit_per_minute = 0 then (Inl (api_error_new RateLimited ''rate limit disabled by policy''), bs)
      else
        let b = recent now (bucket_of bs key) in
        if limit_per_minute \<le> length b
        then (Inl (rate_limited (case b of t # _ \<Rightarrow> max (60 - (now - t)) 1 | [] \<Rightarrow> 60)), aput key b bs)
        else (Inr (), aput key (b @ [now]) bs))"

section \<open>Sequences of checks\<close>

text \<open>The attempts let through, in order, when a sequence of checks is made; each key has one
  configured limit.\<close>

definition attempt ::
  "(string \<Rightarrow> nat) \<Rightarrow> (int \<times> string) list \<times> buckets \<Rightarrow> int \<times> string \<Rightarrow> (int \<times> string) list \<times> buckets" where
  "attempt lim s e =
     (case check (fst e) (snd e) (lim (snd e)) (snd s) of
        (Inr _, bs) \<Rightarrow> (fst s @ [e], bs)
      | (Inl _, bs) \<Rightarrow> (fst s, bs))"

definition let_through :: "(string \<Rightarrow> nat) \<Rightarrow> (int \<times> string) list \<Rightarrow> (int \<times> string) list" where
  "let_through lim es = fst (foldl (attempt lim) ([], []) es)"

definition times_of :: "string \<Rightarrow> (int \<times> string) list \<Rightarrow> int list" where
  "times_of k adm = map fst (filter (\<lambda>e. snd e = k) adm)"

lemma times_of_append [simp]: "times_of k (xs @ [e]) = times_of k xs @ (if snd e = k then [fst e] else [])"
  by (simp add: times_of_def)

lemma recent_recent [simp]: "prev \<le> now \<Longrightarrow> recent now (recent prev b) = recent now b"
  by (auto simp: recent_def intro: filter_cong)

lemma recent_append [simp]: "recent now (a @ b) = recent now a @ recent now b"
  by (simp add: recent_def)

lemma recent_Nil [simp]: "recent now [] = []"
  by (simp add: recent_def)

lemma recent_idem [simp]: "recent now (recent now b) = recent now b"
  by (simp add: recent_def)

lemma bucket_of_aput [simp]: "bucket_of (aput k b bs) j = (if j = k then b else bucket_of bs j)"
  by (simp add: bucket_of_def)

text \<open>The invariant: a bucket holds exactly the recent attempts of its key, no attempt lies in the
  future, and no window holds more than the limit.\<close>

definition in_window :: "int \<Rightarrow> int list \<Rightarrow> nat" where
  "in_window T ts = length (filter (\<lambda>t. T - 60 < t \<and> t \<le> T) ts)"

definition limiter_inv :: "(string \<Rightarrow> nat) \<Rightarrow> int \<Rightarrow> (int \<times> string) list \<times> buckets \<Rightarrow> bool" where
  "limiter_inv lim now s \<longleftrightarrow>
     (\<forall>k. recent now (bucket_of (snd s) k) = recent now (times_of k (fst s))) \<and>
     (\<forall>e \<in> set (fst s). fst e \<le> now) \<and>
     (\<forall>k T. in_window T (times_of k (fst s)) \<le> lim k)"

lemma limiter_inv_later:
  assumes "limiter_inv lim prev s" and "prev \<le> now"
  shows "limiter_inv lim now s"
proof -
  have "recent now (bucket_of (snd s) k) = recent now (times_of k (fst s))" for k
    using assms recent_recent [OF assms(2), of "bucket_of (snd s) k"] recent_recent [OF assms(2), of "times_of k (fst s)"]
    by (simp add: limiter_inv_def)
  then show ?thesis using assms by (auto simp: limiter_inv_def intro: order_trans)
qed

lemma in_window_recent: "T - 60 < now \<Longrightarrow> now \<le> T \<Longrightarrow> in_window T ts \<le> length (recent now ts)"
  unfolding in_window_def recent_def by (induction ts) auto

lemma attempt_inv:
  assumes "limiter_inv lim now s"
  shows "limiter_inv lim now (attempt lim s (now, k))"
proof -
  let ?b = "recent now (bucket_of (snd s) k)"
  have b: "?b = recent now (times_of k (fst s))"
    and bound: "in_window T (times_of j (fst s)) \<le> lim j" for j T
    using assms by (auto simp: limiter_inv_def)
  consider "lim k = 0" | "lim k \<noteq> 0" "lim k \<le> length ?b" | "length ?b < lim k" by linarith
  then show ?thesis
  proof cases
    case 1
    with assms show ?thesis by (simp add: attempt_def check_def)
  next
    case 2
    with assms show ?thesis by (auto simp: attempt_def check_def Let_def limiter_inv_def)
  next
    case 3
    have window: "in_window T (times_of k (fst s) @ [now]) \<le> lim k" for T
    proof (cases "T - 60 < now \<and> now \<le> T")
      case True
      then have "in_window T (times_of k (fst s)) \<le> length ?b"
        using in_window_recent [of T now "times_of k (fst s)"] b by simp
      with 3 True show ?thesis by (simp add: in_window_def)
    next
      case False
      then show ?thesis using bound [of T k] by (auto simp: in_window_def)
    qed
    from 3 have "attempt lim s (now, k) = (fst s @ [(now, k)], aput k (?b @ [now]) (snd s))"
      by (simp add: attempt_def check_def Let_def)
    with assms window b show ?thesis by (simp add: limiter_inv_def)
  qed
qed

lemma foldl_attempt_inv:
  "sorted (map fst es) \<Longrightarrow> (\<And>e. e \<in> set es \<Longrightarrow> fst e \<le> now) \<Longrightarrow>
   limiter_inv lim now (foldl (attempt lim) ([], []) es)"
proof (induction es arbitrary: now rule: rev_induct)
  case Nil
  then show ?case by (simp add: limiter_inv_def times_of_def in_window_def bucket_of_def recent_def)
next
  case (snoc e es)
  then have "limiter_inv lim (fst e) (foldl (attempt lim) ([], []) es)"
    by (intro snoc.IH) (auto simp: sorted_append)
  then have "limiter_inv lim (fst e) (attempt lim (foldl (attempt lim) ([], []) es) (fst e, snd e))"
    by (rule attempt_inv)
  moreover have "fst e \<le> now" using snoc.prems(2) by simp
  ultimately show ?case by (auto intro: limiter_inv_later)
qed



text \<open>A check never touches the bucket of another key; a rejected attempt records nothing, and,
  unless the limit is zero, it is answered with a retry delay of one to sixty seconds, after which
  the same attempt is let through, provided the clock had not gone back since the recorded attempts.\<close>

theorem check_rejection:
  assumes "check now key lim bs = (Inl e, bs')" and "0 < lim" and "\<forall>t \<in> set (bucket_of bs key). t \<le> now"
    and "length (recent now (bucket_of bs key)) = lim"
  shows "\<exists>n. retry_after_secs e = Some n \<and> 1 \<le> n \<and> n \<le> 60 \<and> code e = RateLimited \<and>
    bucket_of bs' key = recent now (bucket_of bs key) \<and> (\<forall>k. k \<noteq> key \<longrightarrow> bucket_of bs' k = bucket_of bs k) \<and>
    fst (check (now + n) key lim bs') = Inr ()"
proof -
  obtain t ts where b: "recent now (bucket_of bs key) = t # ts"
    using assms(2,4) by (cases "recent now (bucket_of bs key)") auto
  then have mem: "t \<in> set (bucket_of bs key)" "now - t < 60"
    by (auto simp: recent_def dest: filter_eq_ConsD)
  have pos: "max (60 - (now - t)) 1 = 60 - (now - t)" using mem by simp
  have tn: "t \<le> now" using mem(1) assms(3) by blast
  let ?n = "60 - (now - t)"
  have e: "e = rate_limited (60 - (now - t))" "bs' = aput key (t # ts) bs"
    using assms(1,2,4) b pos by (auto simp: check_def max_def)
  have n: "1 \<le> ?n" "?n \<le> 60" "now + ?n = t + 60" using tn mem by auto
  have "length (recent (t + 60) (t # ts)) < lim"
    using assms(4) b by (auto simp: recent_def less_Suc_eq_le)
  then have "fst (check (now + ?n) key lim bs') = Inr ()"
    unfolding n(3) e(2) using assms(2) by (simp add: check_def Let_def)
  with n e b show ?thesis
    by (intro exI [of _ ?n]) (simp add: rate_limited_def with_details_def api_error_new_def)
qed

theorem check_rejection_witness:
  "\<exists>n. retry_after_secs (rate_limited 50) = Some n \<and> 1 \<le> n \<and> n \<le> 60 \<and> code (rate_limited 50) = RateLimited \<and>
    bucket_of [(''a'', [90])] ''a'' = recent 100 (bucket_of [(''a'', [90])] ''a'') \<and>
    (\<forall>k. k \<noteq> ''a'' \<longrightarrow> bucket_of [(''a'', [90])] k = bucket_of [(''a'', [90])] k) \<and>
    fst (check (100 + n) ''a'' 1 [(''a'', [90])]) = Inr ()"
  by (rule check_rejection [of 100 "''a''" 1 "[(''a'', [90])]"])
    (simp_all add: check_def bucket_of_def recent_def aget_def aput_def adel_def)

end
