(* ===== verification/Http.thy ===== *)
theory Http
  imports Config Auth_Types Rate_Limiter "HOL-Library.Word"
begin

unbundle bit_operations_syntax

text \<open>
  What the handlers see of a request, and the libraries they call: headers, cookies
  (\<^verbatim>\<open>middleware/cookies.rs\<close>), the record of third-party functions, and the cross-site request
  forgery check (\<^verbatim>\<open>middleware/csrf.rs\<close>), with the credentials a request carries
  (\<^verbatim>\<open>middleware/auth.rs\<close>).
\<close>

section \<open>Requests\<close>

text \<open>A header map by lower-case name; \<open>get\<close> returns the first value. \<open>to_str\<close> gives the text of a
  value when it is visible ASCII.\<close>

type_synonym headers = "(string \<times> string) list"

definition header_get :: "headers \<Rightarrow> string \<Rightarrow> string option" where
  "header_get hs name = map_of hs (to_ascii_lowercase name)"

definition visible :: "char \<Rightarrow> bool" where
  "visible c \<longleftrightarrow> (32 \<le> (of_char c :: nat) \<and> (of_char c :: nat) < 127) \<or> of_char c = (9::nat)"

definition header_str :: "headers \<Rightarrow> string \<Rightarrow> string option" where
  "header_str hs name =
     (case header_get hs name of Some v \<Rightarrow> if list_all visible v then Some v else None | None \<Rightarrow> None)"

datatype http_method = GET | HEAD | OPTIONS | POST | PUT | PATCH | DELETE

record request =
  meth :: http_method
  hdrs :: headers

section \<open>Libraries\<close>

text \<open>
  The third-party functions the authentication code calls, as parameters:
  \<open>cookie_split\<close> the well-formed cookies of a cookie header (\<open>Cookie::split_parse\<close>);
  \<open>jwt_encode secret claims\<close> and \<open>jwt_decode secret token now\<close> signing and verification of an HS256
  token over its JSON claims (\<open>jsonwebtoken\<close>; decoding fails on a bad signature or a claim \<open>exp\<close>
  that lies more than its leeway in the past);
  \<open>hmac_sha256\<close>, \<open>sha256\<close>, \<open>b64url\<close>; \<open>bcrypt_hash salt password\<close> and \<open>bcrypt_verify\<close>;
  \<open>cipher_encrypt nonce plaintext\<close> and \<open>cipher_decrypt\<close> the AES-GCM cipher under the deployment key;
  \<open>uuid_text\<close> and \<open>uuid_parse\<close> the hyphenated form of a UUID;
  \<open>percent_encode\<close> (all but alphanumerics); \<open>parse_rfc3339\<close>.
\<close>

record libs =
  cookie_split :: "string \<Rightarrow> (string \<times> string) list"
  jwt_encode :: "string \<Rightarrow> json \<Rightarrow> string option"
  jwt_decode :: "string \<Rightarrow> string \<Rightarrow> instant \<Rightarrow> json option"
  hmac_sha256 :: "string \<Rightarrow> string \<Rightarrow> string"
  sha256 :: "string \<Rightarrow> string"
  b64url :: "string \<Rightarrow> string"
  bcrypt_hash :: "nat \<Rightarrow> string \<Rightarrow> string option"
  bcrypt_verify :: "string \<Rightarrow> string \<Rightarrow> bool option"
  cipher_encrypt :: "nat \<Rightarrow> string \<Rightarrow> string option"
  cipher_decrypt :: "string \<Rightarrow> string option"
  uuid_text :: "uuid \<Rightarrow> string"
  uuid_bytes :: "uuid \<Rightarrow> string"
  uuid_parse :: "string \<Rightarrow> uuid option"
  percent_encode :: "string \<Rightarrow> string"
  parse_rfc3339 :: "string \<Rightarrow> instant option"

section \<open>Cookies\<close>

definition ACCESS_COOKIE :: string where "ACCESS_COOKIE = ''ppb_access''"
definition REFRESH_COOKIE :: string where "REFRESH_COOKIE = ''ppb_refresh''"

datatype same_site = Strict | Lax | SameSiteNone

primrec same_site_str :: "same_site \<Rightarrow> string" where
  "same_site_str Strict = ''Strict''"
| "same_site_str Lax = ''Lax''"
| "same_site_str SameSiteNone = ''None''"

record cookie_opts =
  domain :: "string option"
  path :: string
  secure :: bool
  http_only :: bool
  samesite :: same_site

definition cookie_opts_new :: "string \<Rightarrow> cookie_opts" where
  "cookie_opts_new dmn =
     \<lparr>domain = (if trim dmn \<noteq> [] then Some (trim dmn) else None), path = ''/'', secure = True,
      http_only = True, samesite = Lax\<rparr>"

definition cookie_opts_from_session :: "session_config \<Rightarrow> cookie_opts" where
  "cookie_opts_from_session c =
     (let s = to_ascii_lowercase (cookie_samesite c) in
      (cookie_opts_new (cookie_domain c))\<lparr>secure := cookie_secure c,
        samesite := (if s = ''strict'' then Strict else if s = ''none'' then SameSiteNone else Lax)\<rparr>)"

text \<open>Decimal text of an integer.\<close>

fun nat_digits :: "nat \<Rightarrow> string" where
  "nat_digits n = (if n < 10 then [char_of (48 + n)] else nat_digits (n div 10) @ [char_of (48 + n mod 10)])"

declare nat_digits.simps [simp del]

definition show_int :: "int \<Rightarrow> string" where
  "show_int i = (if i < 0 then CHR ''-'' # nat_digits (nat (- i)) else nat_digits (nat i))"

definition cookie_attributes :: "cookie_opts \<Rightarrow> string" where
  "cookie_attributes opts =
     ''; Path='' @ path opts @
     (case domain opts of Some d \<Rightarrow> ''; Domain='' @ d | None \<Rightarrow> []) @
     (if secure opts \<or> samesite opts = SameSiteNone then ''; Secure'' else []) @
     (if http_only opts then ''; HttpOnly'' else []) @
     ''; SameSite='' @ same_site_str (samesite opts)"

definition set_cookie :: "string \<Rightarrow> string \<Rightarrow> cookie_opts \<Rightarrow> int \<Rightarrow> string" where
  "set_cookie name value opts max_age_secs =
     name @ ''='' @ value @ cookie_attributes opts @
     (if 0 < max_age_secs then ''; Max-Age='' @ show_int max_age_secs else [])"

definition clear_cookie :: "string \<Rightarrow> cookie_opts \<Rightarrow> string" where
  "clear_cookie name opts = name @ ''='' @ cookie_attributes opts @ ''; Max-Age=0''"

definition get_cookie :: "libs \<Rightarrow> headers \<Rightarrow> string \<Rightarrow> string option" where
  "get_cookie L hs name =
     (case header_str hs ''cookie'' of
        Some v \<Rightarrow> map_option snd (find (\<lambda>c. fst c = name) (cookie_split L v))
      | None \<Rightarrow> None)"

section \<open>Credentials of a request\<close>

definition strip_prefix :: "string \<Rightarrow> string \<Rightarrow> string option" where
  "strip_prefix p s = (if starts_with s p then Some (drop (length p) s) else None)"

definition extract_bearer_or_cookie :: "libs \<Rightarrow> headers \<Rightarrow> string \<Rightarrow> string option" where
  "extract_bearer_or_cookie L hs cookie_name =
     (case Option.bind (header_str hs ''authorization'') (strip_prefix ''Bearer '') of
        Some t \<Rightarrow> Some t
      | None \<Rightarrow> get_cookie L hs cookie_name)"

text \<open>The first address of \<open>X-Forwarded-For\<close>.\<close>

definition ip_from_headers :: "headers \<Rightarrow> string" where
  "ip_from_headers hs =
     (case header_str hs ''x-forwarded-for'' of
        Some v \<Rightarrow> trim (hd (split_on (CHR '','') v)) | None \<Rightarrow> [])"

end
