(* ===== verification/Tokens.thy ===== *)
theory Tokens
  imports Http
begin

unbundle bit_operations_syntax

text \<open>
  The two kinds of signed tokens, access tokens (\<^verbatim>\<open>auth/jwt.rs\<close>) and reauth contexts
  (\<^verbatim>\<open>auth/reauth.rs\<close>, \<open>check_reauth_header\<close> of \<^verbatim>\<open>auth/routes.rs\<close>), and the cross-site request
  forgery check (\<^verbatim>\<open>middleware/csrf.rs\<close>). Both kinds are signed with the same secret; what tells
  them apart is the shape of their claims.
\<close>

section \<open>Access tokens\<close>

definition ROOT_SUB :: uuid where
  "ROOT_SUB = 0"

record access_claims =
  ac_sub :: uuid
  ac_sid :: uuid
  ac_principal :: principal_type
  ac_client :: client_type
  ac_iat :: int
  ac_exp :: int

definition access_claims_new ::
  "instant \<Rightarrow> uuid \<Rightarrow> uuid \<Rightarrow> principal_type \<Rightarrow> client_type \<Rightarrow> int \<Rightarrow> access_claims" where
  "access_claims_new now user session p c ttl_secs =
     \<lparr>ac_sub = user, ac_sid = session, ac_principal = p, ac_client = c,
      ac_iat = timestamp now, ac_exp = wrap64 (timestamp now + ttl_secs)\<rparr>"

definition expired :: "instant \<Rightarrow> access_claims \<Rightarrow> bool" where
  "expired now c \<longleftrightarrow> ac_exp c \<le> timestamp now"

text \<open>The JSON form of the claims, and reading them back: unknown fields are ignored, a missing field
  or one of the wrong type is an error.\<close>

definition access_json :: "libs \<Rightarrow> access_claims \<Rightarrow> json" where
  "access_json L c =
     JObj [(''sub'', JStr (uuid_text L (ac_sub c))), (''sid'', JStr (uuid_text L (ac_sid c))),
           (''principal_type'', JStr (show_principal (ac_principal c))),
           (''client_type'', JStr (show_client (ac_client c))),
           (''iat'', JInt (ac_iat c)), (''exp'', JInt (ac_exp c))]"

definition parse_principal :: "string \<Rightarrow> principal_type option" where
  "parse_principal s = (if s = ''user'' then Some PUser else if s = ''root'' then Some PRoot else None)"

definition string_field :: "json \<Rightarrow> string \<Rightarrow> string option" where
  "string_field j k = Option.bind (get_field j k) as_string"

definition int_field :: "json \<Rightarrow> string \<Rightarrow> int option" where
  "int_field j k = Option.bind (get_field j k) as_i64"

definition uuid_field :: "libs \<Rightarrow> json \<Rightarrow> string \<Rightarrow> uuid option" where
  "uuid_field L j k = Option.bind (string_field j k) (uuid_parse L)"

definition access_of_json :: "libs \<Rightarrow> json \<Rightarrow> access_claims option" where
  "access_of_json L j =
     Option.bind (uuid_field L j ''sub'') (\<lambda>u.
     Option.bind (uuid_field L j ''sid'') (\<lambda>s.
     Option.bind (Option.bind (string_field j ''principal_type'') parse_principal) (\<lambda>p.
     Option.bind (Option.bind (string_field j ''client_type'') parse_client) (\<lambda>c.
     Option.bind (int_field j ''iat'') (\<lambda>i.
     Option.bind (int_field j ''exp'') (\<lambda>e.
       Some \<lparr>ac_sub = u, ac_sid = s, ac_principal = p, ac_client = c, ac_iat = i, ac_exp = e\<rparr>))))))"

definition encode_access :: "libs \<Rightarrow> string \<Rightarrow> access_claims \<Rightarrow> api_error + string" where
  "encode_access L secret c =
     (case jwt_encode L secret (access_json L c) of Some t \<Rightarrow> Inr t | None \<Rightarrow> Inl internal)"

definition decode_access :: "libs \<Rightarrow> string \<Rightarrow> instant \<Rightarrow> string \<Rightarrow> api_error + access_claims" where
  "decode_access L secret now token =
     (case Option.bind (jwt_decode L secret token now) (access_of_json L) of
        Some c \<Rightarrow> Inr c
      | None \<Rightarrow> Inl (api_error_new SessionExpired ''invalid or expired access token''))"

section \<open>Reauth contexts\<close>

datatype reauth_risk = RHigh | RCritical

primrec reauth_risk_str :: "reauth_risk \<Rightarrow> string" where
  "reauth_risk_str RHigh = ''high''"
| "reauth_risk_str RCritical = ''critical''"

record reauth_claims =
  purpose :: string
  rc_sub :: uuid
  rc_sid :: uuid
  rc_principal :: principal_type
  rc_client :: client_type
  rc_risk :: string
  rc_iat :: int
  rc_exp :: int

definition reauth_claims_new ::
  "instant \<Rightarrow> uuid \<Rightarrow> uuid \<Rightarrow> principal_type \<Rightarrow> client_type \<Rightarrow> reauth_risk \<Rightarrow> int \<Rightarrow> reauth_claims" where
  "reauth_claims_new now user session p c r ttl_secs =
     \<lparr>purpose = ''reauth'', rc_sub = user, rc_sid = session, rc_principal = p, rc_client = c,
      rc_risk = reauth_risk_str r, rc_iat = timestamp now, rc_exp = wrap64 (timestamp now + ttl_secs)\<rparr>"

definition reauth_json :: "libs \<Rightarrow> reauth_claims \<Rightarrow> json" where
  "reauth_json L c =
     JObj [(''purpose'', JStr (purpose c)), (''sub'', JStr (uuid_text L (rc_sub c))),
           (''sid'', JStr (uuid_text L (rc_sid c))),
           (''principal_type'', JStr (show_principal (rc_principal c))),
           (''client_type'', JStr (show_client (rc_client c))),
           (''risk'', JStr (rc_risk c)), (''iat'', JInt (rc_iat c)), (''exp'', JInt (rc_exp c))]"

definition reauth_of_json :: "libs \<Rightarrow> json \<Rightarrow> reauth_claims option" where
  "reauth_of_json L j =
     Option.bind (string_field j ''purpose'') (\<lambda>w.
     Option.bind (string_field j ''risk'') (\<lambda>r.
     Option.bind (access_of_json L j) (\<lambda>a.
       Some \<lparr>purpose = w, rc_sub = ac_sub a, rc_sid = ac_sid a, rc_principal = ac_principal a,
             rc_client = ac_client a, rc_risk = r, rc_iat = ac_iat a, rc_exp = ac_exp a\<rparr>)))"

definition encode_reauth :: "libs \<Rightarrow> string \<Rightarrow> reauth_claims \<Rightarrow> api_error + string" where
  "encode_reauth L secret c =
     (case jwt_encode L secret (reauth_json L c) of Some t \<Rightarrow> Inr t | None \<Rightarrow> Inl internal)"

definition decode_reauth ::
  "libs \<Rightarrow> string \<Rightarrow> instant \<Rightarrow> string \<Rightarrow> uuid \<Rightarrow> api_error + reauth_claims" where
  "decode_reauth L secret now token expected_sid =
     (case Option.bind (jwt_decode L secret token now) (reauth_of_json L) of
        None \<Rightarrow> Inl (api_error_new SessionExpired ''invalid reauth context'')
      | Some c \<Rightarrow>
          if purpose c \<noteq> ''reauth'' then Inl (api_error_new SessionExpired ''not a reauth context'')
          else if rc_sid c \<noteq> expected_sid
          then Inl (api_error_new SessionExpired ''reauth context bound to another session'')
          else if rc_exp c \<le> timestamp now
          then Inl (api_error_new SessionExpired ''reauth context expired'')
          else Inr c)"

definition check_reauth_header ::
  "libs \<Rightarrow> string \<Rightarrow> instant \<Rightarrow> auth_principal \<Rightarrow> headers \<Rightarrow> reauth_risk \<Rightarrow> api_error + unit" where
  "check_reauth_header L secret now a hs r =
     (case header_str hs ''x-reauth-token'' of
        None \<Rightarrow> Inl (api_error_new SessionExpired ''reauth context required'')
      | Some token \<Rightarrow>
          (case decode_reauth L secret now token (sid a) of
             Inl e \<Rightarrow> Inl e
           | Inr c \<Rightarrow>
               if (case r of RCritical \<Rightarrow> rc_risk c = ''critical''
                           | RHigh \<Rightarrow> rc_risk c = ''high'' \<or> rc_risk c = ''critical'')
               then Inr ()
               else Inl (api_error_new SessionExpired ''reauth risk insufficient'')))"

section \<open>Cross-site request forgery\<close>

definition is_state_changing :: "http_method \<Rightarrow> bool" where
  "is_state_changing m \<longleftrightarrow> m \<in> {POST, PUT, PATCH, DELETE}"

definition csrf_key :: "libs \<Rightarrow> string \<Rightarrow> string" where
  "csrf_key L secret = hmac_sha256 L secret '':ppb-csrf''"

definition csrf_token_for :: "libs \<Rightarrow> uuid \<Rightarrow> string \<Rightarrow> string" where
  "csrf_token_for L s key = b64url L (hmac_sha256 L key (uuid_bytes L s))"

text \<open>The comparison that does not stop at the first difference.\<close>

definition byte_of :: "char \<Rightarrow> 8 word" where
  "byte_of c = word_of_nat (of_char c)"

fun ct_diff :: "8 word \<Rightarrow> (char \<times> char) list \<Rightarrow> 8 word" where
  "ct_diff diff [] = diff"
| "ct_diff diff ((x, y) # ps) = ct_diff (diff OR (byte_of x XOR byte_of y)) ps"

definition ct_eq :: "string \<Rightarrow> string \<Rightarrow> bool" where
  "ct_eq a b \<longleftrightarrow> length a = length b \<and> ct_diff 0 (zip a b) = 0"

definition uses_cookie_auth :: "libs \<Rightarrow> headers \<Rightarrow> bool" where
  "uses_cookie_auth L hs \<longleftrightarrow>
     header_get hs ''authorization'' = None \<and>
     (get_cookie L hs ACCESS_COOKIE \<noteq> None \<or> get_cookie L hs REFRESH_COOKIE \<noteq> None)"

definition origin_allowed :: "string option \<Rightarrow> string list \<Rightarrow> bool" where
  "origin_allowed origin allowed \<longleftrightarrow>
     (case origin of Some o1 \<Rightarrow> o1 = [] \<or> o1 \<in> set allowed | None \<Rightarrow> True)"

definition csrf_middleware ::
  "libs \<Rightarrow> runtime_config \<Rightarrow> string \<Rightarrow> instant \<Rightarrow> request \<Rightarrow> api_error + unit" where
  "csrf_middleware L cfg secret now r =
     (if is_state_changing (meth r) \<and> uses_cookie_auth L (hdrs r) then
        if \<not> origin_allowed (header_str (hdrs r) ''origin'')
              (allowed_origins (cors cfg) @ dev_origins (cors cfg))
        then Inl (api_error_new CsrfInvalid ''CSRF origin rejected'')
        else
          (case get_cookie L (hdrs r) ACCESS_COOKIE of
             None \<Rightarrow> Inr ()
           | Some tok \<Rightarrow>
               (case decode_access L secret now tok of
                  Inl _ \<Rightarrow> Inr ()
                | Inr c \<Rightarrow>
                    if ct_eq (csrf_token_for L (ac_sid c) (csrf_key L secret))
                         (unwrap_or (header_str (hdrs r) (csrf_header_name (session_cfg cfg))) [])
                    then Inr ()
                    else Inl (api_error_new CsrfInvalid ''CSRF token mismatch or missing X-CSRF-Token header'')))
      else Inr ())"

section \<open>What the libraries promise\<close>

text \<open>The hyphenated form of a UUID reads back; a token verifies under its own secret until it expires,
  and what it then yields are the claims it was made from.\<close>

definition uuid_laws :: "libs \<Rightarrow> bool" where
  "uuid_laws L \<longleftrightarrow> (\<forall>u. uuid_parse L (uuid_text L u) = Some u)"

definition jwt_laws :: "libs \<Rightarrow> bool" where
  "jwt_laws L \<longleftrightarrow>
     (\<forall>secret j t now. jwt_encode L secret j = Some t \<longrightarrow>
        (\<forall>e. int_field j ''exp'' = Some e \<longrightarrow> timestamp now \<le> e \<longrightarrow> jwt_decode L secret t now = Some j) \<and>
        (\<forall>j'. jwt_decode L secret t now = Some j' \<longrightarrow> j' = j))"

lemma parse_show_principal [simp]: "parse_principal (show_principal p) = Some p"
  by (cases p) (simp_all add: parse_principal_def)

lemmas field_defs = string_field_def int_field_def uuid_field_def get_field_def as_i64_def

lemma access_json_back:
  "uuid_laws L \<Longrightarrow> i64_range (ac_iat c) \<Longrightarrow> i64_range (ac_exp c) \<Longrightarrow>
   access_of_json L (access_json L c) = Some c"
  by (simp add: access_of_json_def access_json_def field_defs uuid_laws_def i64_range_def)

lemma access_json_exp: "i64_range (ac_exp c) \<Longrightarrow> int_field (access_json L c) ''exp'' = Some (ac_exp c)"
  by (simp add: access_json_def field_defs i64_range_def)

lemma access_json_no_purpose: "reauth_of_json L (access_json L c) = None"
  by (simp add: reauth_of_json_def access_json_def field_defs)

lemma reauth_json_as_access:
  "uuid_laws L \<Longrightarrow> i64_range (rc_iat c) \<Longrightarrow> i64_range (rc_exp c) \<Longrightarrow>
   access_of_json L (reauth_json L c) =
     Some \<lparr>ac_sub = rc_sub c, ac_sid = rc_sid c, ac_principal = rc_principal c, ac_client = rc_client c,
           ac_iat = rc_iat c, ac_exp = rc_exp c\<rparr>"
  by (simp add: access_of_json_def reauth_json_def field_defs uuid_laws_def i64_range_def)

lemma xor_zero_iff: "x XOR y = 0 \<longleftrightarrow> x = y" for x y :: "8 word"
proof
  assume z: "x XOR y = 0"
  have "x = (x XOR y) XOR y" by (simp add: xor.assoc)
  with z show "x = y" by simp
qed simp

lemma unat_byte_of: "unat (byte_of c) = of_char c"
  by (simp add: byte_of_def unat_of_nat)

lemma byte_of_inject [simp]: "byte_of x = byte_of y \<longleftrightarrow> x = y"
  by (metis unat_byte_of of_char_eq_iff)

lemma ct_diff_zero: "ct_diff d ps = 0 \<longleftrightarrow> d = 0 \<and> (\<forall>p \<in> set ps. fst p = snd p)"
  by (induction d ps rule: ct_diff.induct) (auto simp: or_eq_0_iff xor_zero_iff)

lemma ct_eq_iff: "ct_eq a b \<longleftrightarrow> a = b"
proof -
  have "(\<forall>p \<in> set (zip a b). fst p = snd p) \<longleftrightarrow> a = b" if "length a = length b"
    using that by (induction a b rule: list_induct2) auto
  then show ?thesis by (auto simp: ct_eq_def ct_diff_zero)
qed

section \<open>Properties of tokens\<close>

text \<open>An access token decodes, until it expires, to the very claims it was issued with: the same
  principal, session, client and times.\<close>

theorem access_round_trip:
  assumes "uuid_laws L" and "jwt_laws L" and "i64_range (ac_iat c)" and "i64_range (ac_exp c)"
    and "encode_access L secret c = Inr token" and "timestamp now \<le> ac_exp c"
  shows "decode_access L secret now token = Inr c"
proof -
  have "jwt_encode L secret (access_json L c) = Some token"
    using assms(5) by (simp add: encode_access_def split: option.splits)
  then have "jwt_decode L secret token now = Some (access_json L c)"
    using assms access_json_exp [of c L] unfolding jwt_laws_def by blast
  with assms show ?thesis by (simp add: decode_access_def access_json_back)
qed

text \<open>A library whose only token is \<open>t\<close>, made from \<open>j\<close>.\<close>

definition demo_libs :: "json \<Rightarrow> libs" where
  "demo_libs j =
     \<lparr>cookie_split = (\<lambda>s. [(''ppb_access'', s)]),
      jwt_encode = (\<lambda>secret k. if k = j then Some ''t'' else None),
      jwt_decode = (\<lambda>secret t now. if t = ''t'' then Some j else None),
      hmac_sha256 = (\<lambda>k m. k @ m), sha256 = (\<lambda>s. s), b64url = (\<lambda>s. s),
      bcrypt_hash = (\<lambda>salt p. Some p), bcrypt_verify = (\<lambda>p h. Some (p = h)),
      cipher_encrypt = (\<lambda>n p. Some p), cipher_decrypt = Some,
      uuid_text = (\<lambda>u. replicate (unat u) CHR ''a''), uuid_bytes = (\<lambda>u. replicate (unat u) CHR ''a''),
      uuid_parse = (\<lambda>s. Some (word_of_nat (length s))),
      percent_encode = (\<lambda>s. s), parse_rfc3339 = (\<lambda>s. None)\<rparr>"

lemma demo_uuid_laws: "uuid_laws (demo_libs j)"
  by (simp add: uuid_laws_def demo_libs_def)

lemma demo_jwt_laws: "jwt_laws (demo_libs j)"
  by (simp add: jwt_laws_def demo_libs_def)

text \<open>The claims do not depend on the token part of the library.\<close>

lemma demo_uuid_text [simp]: "uuid_text (demo_libs j) u = replicate (unat u) CHR ''a''"
  by (simp add: demo_libs_def)

lemma demo_access_json: "access_json (demo_libs j) c = access_json (demo_libs k) c"
  by (simp add: access_json_def)

definition alice_claims :: access_claims where
  "alice_claims = \<lparr>ac_sub = 7, ac_sid = 70, ac_principal = PUser, ac_client = Ppf, ac_iat = 0, ac_exp = 3600\<rparr>"

definition alice_libs :: libs where
  "alice_libs = demo_libs (access_json (demo_libs JNull) alice_claims)"

theorem access_round_trip_witness:
  "decode_access alice_libs ''k'' (secs 10) ''t'' = Inr alice_claims"
proof (rule access_round_trip)
  have "access_json alice_libs alice_claims = access_json (demo_libs JNull) alice_claims"
    by (simp add: alice_libs_def demo_access_json)
  then show "encode_access alice_libs ''k'' alice_claims = Inr ''t''"
    by (simp add: encode_access_def alice_libs_def demo_libs_def)
qed (simp_all add: alice_libs_def demo_uuid_laws demo_jwt_laws alice_claims_def i64_range_def timestamp_def secs_def)

text \<open>C7: a request passes the reauth check of a sensitive operation only with a token that the
  secret verifies, that was issued for reauthentication, for this very session, for at least the
  required risk, and that has not expired (with no leeway).\<close>

theorem check_reauth_sound:
  assumes "check_reauth_header L secret now a hs r = Inr ()"
  shows "\<exists>token j c. header_str hs ''x-reauth-token'' = Some token \<and>
    jwt_decode L secret token now = Some j \<and> reauth_of_json L j = Some c \<and>
    purpose c = ''reauth'' \<and> rc_sid c = sid a \<and> timestamp now < rc_exp c \<and>
    (rc_risk c = ''critical'' \<or> r = RHigh \<and> rc_risk c = ''high'')"
  using assms unfolding check_reauth_header_def decode_reauth_def
  by (auto simp: bind_eq_Some_conv not_le split: option.splits sum.splits if_splits reauth_risk.splits)

definition sudo_claims :: reauth_claims where
  "sudo_claims = \<lparr>purpose = ''reauth'', rc_sub = 7, rc_sid = 70, rc_principal = PUser, rc_client = Ppf,
     rc_risk = ''high'', rc_iat = 0, rc_exp = 300\<rparr>"

definition sudo_libs :: libs where
  "sudo_libs = demo_libs (reauth_json (demo_libs JNull) sudo_claims)"

lemma sudo_decode: "reauth_of_json sudo_libs (reauth_json (demo_libs JNull) sudo_claims) = Some sudo_claims"
  by (simp add: reauth_of_json_def access_of_json_def reauth_json_def field_defs sudo_libs_def sudo_claims_def
      demo_libs_def parse_principal_def parse_client_def i64_range_def)

lemma sudo_header:
  "header_str [(''x-reauth-token'', ''t'')] ''x-reauth-token'' = Some ''t''"
  by (simp add: header_str_def header_get_def visible_def to_ascii_lowercase_def to_ascii_lower_def)

definition demo_principal :: auth_principal where
  "demo_principal = \<lparr>sub = 7, sid = 70, principal = PUser, client = Ppf, request_id = []\<rparr>"

lemma sudo_check:
  "check_reauth_header sudo_libs ''k'' 0 demo_principal [(''x-reauth-token'', ''t'')] RHigh = Inr ()"
proof -
  have "jwt_decode sudo_libs ''k'' ''t'' 0 = Some (reauth_json (demo_libs JNull) sudo_claims)"
    by (simp add: sudo_libs_def demo_libs_def)
  then show ?thesis
    by (simp add: check_reauth_header_def decode_reauth_def sudo_header sudo_decode)
      (simp add: sudo_claims_def demo_principal_def timestamp_def)
qed

theorem check_reauth_sound_witness:
  "\<exists>token j c. header_str [(''x-reauth-token'', ''t'')] ''x-reauth-token'' = Some token \<and>
    jwt_decode sudo_libs ''k'' token 0 = Some j \<and> reauth_of_json sudo_libs j = Some c \<and>
    purpose c = ''reauth'' \<and> rc_sid c = 70 \<and> timestamp 0 < rc_exp c \<and>
    (rc_risk c = ''critical'' \<or> RHigh = RHigh \<and> rc_risk c = ''high'')"
  using check_reauth_sound [OF sudo_check] by (simp add: demo_principal_def)

text \<open>An access token, stolen or not, never counts as a reauth context.\<close>

theorem access_token_is_no_reauth:
  assumes "jwt_laws L" and "encode_access L secret c = Inr token"
    and "header_str hs ''x-reauth-token'' = Some token"
  shows "check_reauth_header L secret now a hs r = Inl (api_error_new SessionExpired ''invalid reauth context'')"
proof -
  have "jwt_encode L secret (access_json L c) = Some token"
    using assms(2) by (simp add: encode_access_def split: option.splits)
  then have "jwt_decode L secret token now \<in> {None, Some (access_json L c)}"
    using assms(1) by (cases "jwt_decode L secret token now") (auto simp: jwt_laws_def)
  then show ?thesis
    using assms(3) by (auto simp: check_reauth_header_def decode_reauth_def access_json_no_purpose)
qed

theorem access_token_is_no_reauth_witness:
  "check_reauth_header alice_libs ''k'' 0 demo_principal [(''x-reauth-token'', ''t'')] RCritical
     = Inl (api_error_new SessionExpired ''invalid reauth context'')"
proof (rule access_token_is_no_reauth [of _ _ alice_claims])
  have "access_json alice_libs alice_claims = access_json (demo_libs JNull) alice_claims"
    by (simp add: alice_libs_def demo_access_json)
  then show "encode_access alice_libs ''k'' alice_claims = Inr ''t''"
    by (simp add: encode_access_def alice_libs_def demo_libs_def)
qed (simp_all add: alice_libs_def demo_jwt_laws sudo_header)

text \<open>The converse fails: a reauth context carries every claim an access token has, so it is accepted
  wherever an access token is.\<close>

theorem reauth_token_is_access_token:
  assumes "uuid_laws L" and "jwt_laws L" and "i64_range (rc_iat c)" and "i64_range (rc_exp c)"
    and "encode_reauth L secret c = Inr token" and "timestamp now \<le> rc_exp c"
  shows "decode_access L secret now token =
    Inr \<lparr>ac_sub = rc_sub c, ac_sid = rc_sid c, ac_principal = rc_principal c, ac_client = rc_client c,
         ac_iat = rc_iat c, ac_exp = rc_exp c\<rparr>"
proof -
  have "jwt_encode L secret (reauth_json L c) = Some token"
    using assms(5) by (simp add: encode_reauth_def split: option.splits)
  moreover have "int_field (reauth_json L c) ''exp'' = Some (rc_exp c)"
    using assms(4) by (simp add: reauth_json_def field_defs)
  ultimately have "jwt_decode L secret token now = Some (reauth_json L c)"
    using assms(2,6) unfolding jwt_laws_def by blast
  with assms show ?thesis by (simp add: decode_access_def reauth_json_as_access)
qed

section \<open>Properties of the forgery check\<close>



text \<open>An \<open>Authorization\<close> header of any scheme turns the check off, while the extractor falls back to the
  access cookie unless the scheme is \<open>Bearer\<close>: such a request acts with the cookie's authority and
  is not checked.\<close>

theorem csrf_skipped_for_other_schemes:
  assumes "header_str (hdrs r) ''authorization'' = Some v" and "\<not> starts_with v ''Bearer ''"
    and "get_cookie L (hdrs r) ACCESS_COOKIE = Some tok"
  shows "csrf_middleware L cfg secret now r = Inr () \<and>
    extract_bearer_or_cookie L (hdrs r) ACCESS_COOKIE = Some tok"
proof -
  have "header_get (hdrs r) ''authorization'' \<noteq> None"
    using assms(1) by (auto simp: header_str_def split: option.splits)
  with assms show ?thesis
    by (auto simp: csrf_middleware_def uses_cookie_auth_def extract_bearer_or_cookie_def strip_prefix_def)
qed

end
