(* ===== verification/Permissions.thy ===== *)
theory Permissions
  imports Auth_Types "HOL-Library.Char_ord" "HOL-Library.List_Lexorder"
begin

text \<open>
  The permission system (\<^verbatim>\<open>permissions/manifest.rs\<close>, \<open>resolver.rs\<close>, \<open>groups.rs\<close>, \<open>repo.rs\<close>): the
  static permission manifest, the resolution of a user's permissions through the user's
  groups, the seed groups and the default group, and the administration of groups, members
  and permissions, statement by statement against a database whose connection may fail.
  Display labels and descriptions of the manifest and the created/updated timestamps of a
  group are left out; lists ordered by a text column are ordered by bytes.
\<close>

section \<open>The permission manifest\<close>

record permission_def =
  perm_id :: string
  perm_group :: string
  root_only :: bool
  perm_risk :: risk

definition perm :: "string \<Rightarrow> string \<Rightarrow> bool \<Rightarrow> risk \<Rightarrow> permission_def" where
  "perm i g r k = \<lparr>perm_id = i, perm_group = g, root_only = r, perm_risk = k\<rparr>"

definition permission_manifest :: "permission_def list" where
  "permission_manifest =
    [perm ''room:view'' ''room'' False Low,
     perm ''room:kick'' ''room'' False Medium,
     perm ''room:move'' ''room'' False Medium,
     perm ''room:start'' ''room'' False Medium,
     perm ''room:config'' ''room'' False Medium,
     perm ''room:whitelist'' ''room'' False Medium,
     perm ''room:blacklist'' ''room'' False Medium,
     perm ''room:manage'' ''room'' False High,
     perm ''user:view'' ''user'' False Low,
     perm ''user:kick'' ''user'' False Medium,
     perm ''user:ban'' ''user'' False High,
     perm ''user:ban_ip'' ''user'' False High,
     perm ''user:view_ip_history'' ''user'' False High,
     perm ''server:view'' ''server'' False Low,
     perm ''server:manage'' ''server'' False High,
     perm ''server:update'' ''server'' True Critical,
     perm ''server:shutdown'' ''server'' True Critical,
     perm ''server:start'' ''server'' True Critical,
     perm ''config:view'' ''config'' False Low,
     perm ''config:reload'' ''config'' False High,
     perm ''config:rollback'' ''config'' True Critical,
     perm ''plugin:view'' ''plugin'' False Low,
     perm ''plugin:manage'' ''plugin'' True High,
     perm ''plugin:call'' ''plugin'' False High,
     perm ''audit:view'' ''audit'' False Medium,
     perm ''audit:export'' ''audit'' False Medium,
     perm ''broadcast:all'' ''broadcast'' False High,
     perm ''broadcast:room'' ''broadcast'' False Medium,
     perm ''broadcast:user'' ''broadcast'' False Medium,
     perm ''pmp:cli'' ''pmp'' False High,
     perm ''logs:view'' ''logs'' False Low,
     perm ''notification:send_system'' ''notification'' False Medium,
     perm ''coupon:view'' ''coupon'' False Low,
     perm ''coupon:create'' ''coupon'' False Medium,
     perm ''coupon:manage'' ''coupon'' True High,
     perm ''coupon:revoke'' ''coupon'' True High,
     perm ''group:view'' ''group'' False Low,
     perm ''group:create'' ''group'' False Medium,
     perm ''group:edit'' ''group'' False Medium,
     perm ''group:delete'' ''group'' False High,
     perm ''group:assign_user'' ''group'' False Medium,
     perm ''automation:view'' ''automation'' False Low,
     perm ''automation:edit'' ''automation'' False Medium,
     perm ''automation:execute'' ''automation'' False High,
     perm ''dashboard:view'' ''dashboard'' False Low,
     perm ''preference:manage'' ''preference'' False Low]"

definition ROOT_WILDCARD :: string where
  "ROOT_WILDCARD = ''*:*''"

definition root_only_ids :: "string list" where
  "root_only_ids = map perm_id (filter root_only permission_manifest)"

definition non_root_only_ids :: "string list" where
  "non_root_only_ids = map perm_id (filter (\<lambda>p. \<not> root_only p) permission_manifest)"

definition permission_by_id :: "string \<Rightarrow> permission_def option" where
  "permission_by_id i = find (\<lambda>p. perm_id p = i) permission_manifest"

definition ADMIN_SCOPE :: string where
  "ADMIN_SCOPE = ''admin_scope''"

section \<open>The resolver\<close>

text \<open>The rows of \<open>group_members JOIN groups LEFT JOIN group_permissions\<close> for one user.\<close>

definition group_rows :: "db \<Rightarrow> group \<Rightarrow> (string option \<times> string option) list" where
  "group_rows d g =
     (case filter (\<lambda>gp. fst gp = g_id g) (group_permissions d) of
        [] \<Rightarrow> [(system_kind g, None)]
      | ps \<Rightarrow> map (\<lambda>gp. (system_kind g, Some (snd gp))) ps)"

definition user_group_rows :: "db \<Rightarrow> uuid \<Rightarrow> (string option \<times> string option) list" where
  "user_group_rows d u =
     concat (map (\<lambda>m. concat (map (group_rows d) (filter (\<lambda>g. g_id g = fst m) (groups d))))
       (filter (\<lambda>m. snd m = u) (group_members d)))"

fun scan_rows ::
  "(string option \<times> string option) list \<Rightarrow> string set \<times> bool \<Rightarrow> string set \<times> bool" where
  "scan_rows [] acc = acc"
| "scan_rows ((kind, p) # rows) (perms, admin_scope) =
     scan_rows rows
       ((case p of Some q \<Rightarrow> if q \<noteq> ROOT_WILDCARD then insert q perms else perms | None \<Rightarrow> perms),
        (if kind = Some ADMIN_SCOPE then True else admin_scope))"

definition rows_permissions :: "(string option \<times> string option) list \<Rightarrow> string set" where
  "rows_permissions rows =
     (let (perms, admin_scope) = scan_rows rows ({}, False)
      in if admin_scope then perms \<union> set non_root_only_ids else perms)"

definition permissions_for_user :: "uuid \<Rightarrow> (db, sqlx_error, string set) comp" where
  "permissions_for_user u =
     bnd (select (\<lambda>d. user_group_rows d u)) (\<lambda>rows. ret (rows_permissions rows))"

text \<open>\<open>require_db\<close>: the pool may not be configured; then a database operation is an
  internal error.\<close>

definition with_db :: "(db, api_error, 'a) comp \<Rightarrow> (db option, api_error, 'a) comp" where
  "with_db m s =
     (case s of
        None \<Rightarrow> (Inl (api_error_new InternalError ''database not configured''), s)
      | Some d \<Rightarrow> (case m d of (r, d') \<Rightarrow> (r, Some d')))"

definition permissions_for_principal ::
  "auth_principal \<Rightarrow> (db option, api_error, string set) comp" where
  "permissions_for_principal a =
     (if is_root a then ret {ROOT_WILDCARD}
      else with_db (map_err (\<lambda>_. internal) (permissions_for_user (sub a))))"

definition has_permission ::
  "auth_principal \<Rightarrow> string \<Rightarrow> (db option, api_error, bool) comp" where
  "has_permission a p =
     bnd (permissions_for_principal a) (\<lambda>perms. ret (ROOT_WILDCARD \<in> perms \<or> p \<in> perms))"

definition require :: "auth_principal \<Rightarrow> string \<Rightarrow> (db option, api_error, unit) comp" where
  "require a p =
     bnd (has_permission a p) (\<lambda>ok. if ok then ret () else throw permission_denied)"

definition validate_group_permission :: "string \<Rightarrow> api_error + unit" where
  "validate_group_permission p =
     (if p = ROOT_WILDCARD then Inl (api_error_new ValidationFailed (''*:* '' @
        bytes [228, 187, 133, 229, 133, 129, 232, 174, 184, 230, 142, 136, 228, 186, 136] @ '' Root'' @
        bytes [239, 188, 140, 230, 153, 174, 233, 128, 154, 231, 148, 168, 230, 136, 183, 231, 187, 132, 231, 166, 129, 230, 173, 162]))
      else if length (split_on (CHR '':'') p) \<noteq> 2
      then Inl (validation ''permission must be <resource>:<action>'')
      else Inr ())"

section \<open>Statements on groups, members and permissions\<close>

definition new_group :: "uuid \<Rightarrow> string \<Rightarrow> string \<Rightarrow> group" where
  "new_group i name desc =
     \<lparr>g_id = i, g_name = name, g_description = desc, system_kind = None,
      is_default = False, protected = False\<rparr>"

text \<open>\<open>INSERT INTO groups ... RETURNING\<close> and its \<open>ON CONFLICT (name) DO NOTHING\<close> form, which
  returns the number of rows inserted.\<close>

definition insert_group :: "group \<Rightarrow> group statement" where
  "insert_group g d =
     (if g_id g \<in> g_id ` set (groups d) \<or> g_name g \<in> g_name ` set (groups d)
      then Inl UniqueViolation else Inr (g, d\<lparr>groups := groups d @ [g]\<rparr>))"

definition insert_group_if_absent :: "group \<Rightarrow> nat statement" where
  "insert_group_if_absent g d =
     (if g_name g \<in> g_name ` set (groups d) then Inr (0, d)
      else if g_id g \<in> g_id ` set (groups d) then Inl UniqueViolation
      else Inr (1, d\<lparr>groups := groups d @ [g]\<rparr>))"

definition mark_default :: "(group \<Rightarrow> bool) \<Rightarrow> db \<Rightarrow> db" where
  "mark_default P d = d\<lparr>groups := map (\<lambda>g. g\<lparr>is_default := P g\<rparr>) (groups d)\<rparr>"

definition update_group :: "uuid \<Rightarrow> (group \<Rightarrow> group) \<Rightarrow> db \<Rightarrow> db" where
  "update_group i f d = d\<lparr>groups := map (\<lambda>g. if g_id g = i then f g else g) (groups d)\<rparr>"

definition update_group_name :: "uuid \<Rightarrow> string \<Rightarrow> unit statement" where
  "update_group_name i n d =
     (if i \<in> g_id ` set (groups d) \<and> (\<exists>g \<in> set (groups d). g_id g \<noteq> i \<and> g_name g = n)
      then Inl UniqueViolation else Inr ((), update_group i (\<lambda>g. g\<lparr>g_name := n\<rparr>) d))"

definition insert_member :: "uuid \<Rightarrow> uuid \<Rightarrow> unit statement" where
  "insert_member g u d =
     (if (g, u) \<in> set (group_members d) then Inr ((), d)
      else if g \<notin> g_id ` set (groups d) \<or> u \<notin> u_id ` set (users d) then Inl ForeignKeyViolation
      else Inr ((), d\<lparr>group_members := group_members d @ [(g, u)]\<rparr>))"

definition insert_permission :: "uuid \<Rightarrow> string \<Rightarrow> unit statement" where
  "insert_permission g p d =
     (if p = ROOT_WILDCARD then Inl CheckViolation
      else if (g, p) \<in> set (group_permissions d) then Inr ((), d)
      else if g \<notin> g_id ` set (groups d) then Inl ForeignKeyViolation
      else Inr ((), d\<lparr>group_permissions := group_permissions d @ [(g, p)]\<rparr>))"

text \<open>\<open>DELETE FROM groups\<close> cascades to members and permissions.\<close>

definition delete_group_row :: "uuid \<Rightarrow> db \<Rightarrow> db" where
  "delete_group_row i d =
     d\<lparr>groups := filter (\<lambda>g. g_id g \<noteq> i) (groups d),
       group_members := filter (\<lambda>m. fst m \<noteq> i) (group_members d),
       group_permissions := filter (\<lambda>p. fst p \<noteq> i) (group_permissions d)\<rparr>"

definition group_db_err :: "sqlx_error \<Rightarrow> api_error" where
  "group_db_err = db_err (api_error_new ResourceNotFound ''group not found'')"

definition repo_db_err :: "sqlx_error \<Rightarrow> api_error" where
  "repo_db_err = db_err (api_error_new ResourceNotFound ''not found'')"

section \<open>Seed groups and the default group\<close>

definition GROUP_ADMINISTRATORS :: string where "GROUP_ADMINISTRATORS = ''Administrators''"
definition GROUP_MODERATORS :: string where "GROUP_MODERATORS = ''Moderators''"
definition GROUP_DEVELOPERS :: string where "GROUP_DEVELOPERS = ''Developers''"
definition GROUP_MEMBERS :: string where "GROUP_MEMBERS = ''Members''"

definition ensure_group ::
  "uuid \<Rightarrow> string \<Rightarrow> string \<Rightarrow> string option \<Rightarrow> bool \<Rightarrow> bool \<Rightarrow> (db, sqlx_error, unit) comp" where
  "ensure_group new_id name desc kind dflt prot =
     bnd (query (insert_group_if_absent
            ((new_group new_id name desc)\<lparr>system_kind := kind, is_default := dflt, protected := prot\<rparr>)))
       (\<lambda>n. if 0 < n \<and> dflt then execute (mark_default (\<lambda>g. g_name g = name)) else ret ())"

text \<open>The ids are the values of \<open>gen_random_uuid()\<close>, one per row that is inserted.\<close>

definition bootstrap_groups :: "(nat \<Rightarrow> uuid) \<Rightarrow> (db, sqlx_error, unit) comp" where
  "bootstrap_groups ids =
     andthen (ensure_group (ids 0) GROUP_ADMINISTRATORS
        (bytes [231, 179, 187, 231, 187, 159, 231, 174, 161, 231, 144, 134, 229, 145, 152, 239, 188, 136, 97, 100, 109, 105, 110, 95, 115, 99, 111, 112, 101, 239, 188, 137]) (Some ADMIN_SCOPE) False True)
    (andthen (ensure_group (ids 1) GROUP_MODERATORS
        (bytes [231, 137, 136, 228, 184, 187, 230, 168, 161, 230, 157, 191, 231, 187, 132]) None False False)
    (andthen (ensure_group (ids 2) GROUP_DEVELOPERS
        (bytes [229, 188, 128, 229, 143, 145, 232, 128, 133, 230, 168, 161, 230, 157, 191, 231, 187, 132]) None False False)
             (ensure_group (ids 3) GROUP_MEMBERS
        (bytes [233, 187, 152, 232, 174, 164, 230, 136, 144, 229, 145, 152, 231, 187, 132]) None True True)))"

definition default_group_id :: "(nat \<Rightarrow> uuid) \<Rightarrow> (db, api_error, uuid) comp" where
  "default_group_id ids =
     bnd (map_err group_db_err (select (\<lambda>d. find is_default (groups d)))) (\<lambda>row.
       case row of
         Some g \<Rightarrow> ret (g_id g)
       | None \<Rightarrow>
           andthen (map_err group_db_err (bootstrap_groups ids))
             (map_err group_db_err (query (\<lambda>d.
                case find (\<lambda>g. g_name g = GROUP_MEMBERS) (groups d) of
                  Some g \<Rightarrow> Inr (g_id g, d) | None \<Rightarrow> Inl RowNotFound))))"

definition has_membership :: "db \<Rightarrow> uuid \<Rightarrow> bool" where
  "has_membership d u \<longleftrightarrow> (\<exists>m \<in> set (group_members d). snd m = u)"

definition join_default_group :: "(sqlx_error \<Rightarrow> api_error) \<Rightarrow> (nat \<Rightarrow> uuid) \<Rightarrow> uuid \<Rightarrow>
    (db, api_error, unit) comp" where
  "join_default_group h ids u =
     bnd (default_group_id ids) (\<lambda>gid. map_err h (query (insert_member gid u)))"

definition ensure_user_in_default_group :: "(nat \<Rightarrow> uuid) \<Rightarrow> uuid \<Rightarrow> (db, api_error, unit) comp" where
  "ensure_user_in_default_group ids u =
     bnd (map_err group_db_err (select (\<lambda>d. has_membership d u))) (\<lambda>member.
       if member then ret () else join_default_group group_db_err ids u)"

section \<open>Group administration\<close>

definition get_group :: "uuid \<Rightarrow> (db, api_error, group) comp" where
  "get_group i =
     bnd (map_err repo_db_err (select (\<lambda>d. find (\<lambda>g. g_id g = i) (groups d))))
       (\<lambda>g. some_or g (not_found ''group''))"

definition create_err :: "sqlx_error \<Rightarrow> api_error" where
  "create_err e =
     (if e = UniqueViolation then api_error_new ResourceConflict ''group name already exists''
      else repo_db_err e)"

definition create_group ::
  "uuid \<Rightarrow> string \<Rightarrow> string \<Rightarrow> bool option \<Rightarrow> (db, api_error, group) comp" where
  "create_group new_id name desc dflt =
     (if trim name = [] then throw (validation ''group name required'')
      else bnd (map_err create_err (query (insert_group (new_group new_id (trim name) desc)))) (\<lambda>g.
        if dflt = Some True
        then andthen (map_err repo_db_err (execute (mark_default (\<lambda>h. g_id h = g_id g))))
               (get_group (g_id g))
        else ret g))"

definition rename_group :: "uuid \<Rightarrow> string \<Rightarrow> (db, api_error, unit) comp" where
  "rename_group i name =
     (if trim name = [] then throw (validation ''group name required'')
      else map_err repo_db_err (query (update_group_name i (trim name))))"

definition check_permission_id :: "string \<Rightarrow> string \<Rightarrow> (db, api_error, unit) comp" where
  "check_permission_id complaint p =
     andthen (from_result (validate_group_permission p))
       (ensure (permission_by_id p \<noteq> None) (validation complaint))"

definition add_permission :: "uuid \<Rightarrow> string \<Rightarrow> (db, api_error, unit) comp" where
  "add_permission g p =
     andthen (check_permission_id ''unknown permission id'' p) (map_err repo_db_err (query (insert_permission g p)))"

definition remove_permission :: "uuid \<Rightarrow> string \<Rightarrow> (db, api_error, unit) comp" where
  "remove_permission g p =
     map_err repo_db_err (execute (\<lambda>d.
       d\<lparr>group_permissions := filter (\<lambda>gp. gp \<noteq> (g, p)) (group_permissions d)\<rparr>))"

definition add_member :: "uuid \<Rightarrow> uuid \<Rightarrow> (db, api_error, unit) comp" where
  "add_member g u = map_err repo_db_err (query (insert_member g u))"

definition ensure_user_not_orphaned :: "(nat \<Rightarrow> uuid) \<Rightarrow> uuid \<Rightarrow> (db, api_error, unit) comp" where
  "ensure_user_not_orphaned ids u =
     bnd (map_err repo_db_err (select (\<lambda>d. length (filter (\<lambda>m. snd m = u) (group_members d)))))
       (\<lambda>n. if n = 0 then join_default_group repo_db_err ids u else ret ())"

definition list_group_members :: "uuid \<Rightarrow> (db, api_error, user list) comp" where
  "list_group_members g =
     map_err repo_db_err (select (\<lambda>d. sort_key username_cache
       (concat (map (\<lambda>m. filter (\<lambda>u. u_id u = snd m) (users d))
         (filter (\<lambda>m. fst m = g) (group_members d))))))"

definition replace_group_members ::
  "(nat \<Rightarrow> uuid) \<Rightarrow> uuid \<Rightarrow> uuid list \<Rightarrow> (db, api_error, unit) comp" where
  "replace_group_members ids g us =
     bnd (list_group_members g) (\<lambda>existing.
       andthen (map_err repo_db_err (execute (\<lambda>d.
           d\<lparr>group_members := filter (\<lambda>m. fst m \<noteq> g) (group_members d)\<rparr>)))
      (andthen (for_each us (\<lambda>u. map_err repo_db_err (query (insert_member g u))))
         (for_each existing (\<lambda>m.
            if u_id m \<notin> set us then ensure_user_not_orphaned ids (u_id m) else ret ()))))"

definition replace_group_permissions :: "uuid \<Rightarrow> string list \<Rightarrow> (db, api_error, unit) comp" where
  "replace_group_permissions g ps =
     andthen (for_each ps (\<lambda>p. check_permission_id (''unknown permission id: '' @ p) p))
    (andthen (map_err repo_db_err (execute (\<lambda>d.
         d\<lparr>group_permissions := filter (\<lambda>gp. fst gp \<noteq> g) (group_permissions d)\<rparr>)))
       (for_each ps (\<lambda>p. map_err repo_db_err (query (insert_permission g p)))))"

definition remove_member :: "(nat \<Rightarrow> uuid) \<Rightarrow> uuid \<Rightarrow> uuid \<Rightarrow> (db, api_error, unit) comp" where
  "remove_member ids g u =
     andthen (map_err repo_db_err (execute (\<lambda>d.
         d\<lparr>group_members := filter (\<lambda>m. m \<noteq> (g, u)) (group_members d)\<rparr>)))
       (ensure_user_not_orphaned ids u)"

definition admin_default_error :: api_error where
  "admin_default_error = validation ''admin_scope group cannot be the default group''"

definition set_default_group :: "uuid \<Rightarrow> (db, api_error, unit) comp" where
  "set_default_group i =
     bnd (get_group i) (\<lambda>g.
       if system_kind g = Some ADMIN_SCOPE then throw admin_default_error
       else map_err repo_db_err (execute (mark_default (\<lambda>h. g_id h = i))))"

definition patch_edits :: "uuid \<Rightarrow> string option \<Rightarrow> string option \<Rightarrow> (db, api_error, unit) comp" where
  "patch_edits i name desc =
     andthen (case map_option trim name of
                Some n \<Rightarrow> if n \<noteq> [] then map_err repo_db_err (query (update_group_name i n)) else ret ()
              | None \<Rightarrow> ret ())
             (case desc of
                Some t \<Rightarrow> map_err repo_db_err (execute (update_group i (\<lambda>g. g\<lparr>g_description := t\<rparr>)))
              | None \<Rightarrow> ret ())"

definition patch_body ::
  "group \<Rightarrow> uuid \<Rightarrow> string option \<Rightarrow> string option \<Rightarrow> bool option \<Rightarrow> (db, api_error, unit) comp" where
  "patch_body g i name desc dflt =
     andthen (patch_edits i name desc)
             (if dflt = Some True
              then if system_kind g = Some ADMIN_SCOPE then throw admin_default_error
                   else map_err repo_db_err (execute (mark_default (\<lambda>h. g_id h = i)))
              else ret ())"

definition patch_group ::
  "uuid \<Rightarrow> string option \<Rightarrow> string option \<Rightarrow> bool option \<Rightarrow> (db, api_error, group) comp" where
  "patch_group i name desc dflt =
     bnd (get_group i) (\<lambda>g.
       andthen (transaction repo_db_err (patch_body g i name desc dflt)) (get_group i))"

definition list_group_permissions :: "uuid \<Rightarrow> (db, api_error, string list) comp" where
  "list_group_permissions g =
     map_err repo_db_err (select (\<lambda>d.
       sort (map snd (filter (\<lambda>gp. fst gp = g) (group_permissions d)))))"

definition effective_group_permissions :: "uuid \<Rightarrow> (db, api_error, string list) comp" where
  "effective_group_permissions i =
     bnd (get_group i) (\<lambda>g.
       if system_kind g = Some ADMIN_SCOPE then ret (sort non_root_only_ids)
       else list_group_permissions i)"

text \<open>The list of groups with their member counts, one count query per group.\<close>

record group_with_count =
  gc_group :: group
  member_count :: int

definition fold_each :: "'x list \<Rightarrow> ('x \<Rightarrow> ('s, 'e, 'a) comp) \<Rightarrow> ('s, 'e, 'a list) comp" where
  "fold_each xs f = foldr (\<lambda>x k. bnd (f x) (\<lambda>a. bnd k (\<lambda>as. ret (a # as)))) xs (ret [])"

definition list_groups :: "(db, api_error, group_with_count list) comp" where
  "list_groups =
     bnd (map_err group_db_err (select (\<lambda>d. sort_key g_name (groups d)))) (\<lambda>gs.
       fold_each gs (\<lambda>g.
         bnd (map_err group_db_err (select (\<lambda>d. length (filter (\<lambda>m. fst m = g_id g) (group_members d)))))
           (\<lambda>n. ret \<lparr>gc_group = g, member_count = int n\<rparr>)))"

definition delete_group :: "uuid \<Rightarrow> (db, api_error, unit) comp" where
  "delete_group i =
     bnd (get_group i) (\<lambda>g.
       if protected g
       then throw (api_error_new ResourceConflict (''protected group '' @ [CHR 0x27] @ g_name g @ [CHR 0x27] @ '' cannot be deleted''))
       else if is_default g
       then throw (api_error_new ResourceConflict ''current default group cannot be deleted; switch default first'')
       else map_err repo_db_err (execute (delete_group_row i)))"

lemma with_db_runs [runs]:
  "with_db m s = (Inr a, t) \<longleftrightarrow> (\<exists>d d'. s = Some d \<and> t = Some d' \<and> m d = (Inr a, d'))"
  by (auto simp: with_db_def split: option.splits prod.splits)

end
