(* ===== verification/Sessions.thy ===== *)
theory Sessions
  imports Tokens Permissions
begin

text \<open>
  Server-side sessions (\<^verbatim>\<open>auth/session.rs\<close>), the extractor that turns a request into a principal
  (\<^verbatim>\<open>middleware/auth.rs\<close>), and the handlers that rotate and end sessions (\<open>refresh\<close> and \<open>logout\<close> of
  \<^verbatim>\<open>auth/routes.rs\<close>), with the credential rows they consult (\<^verbatim>\<open>identities/repo.rs\<close>).
\<close>

section \<open>The environment of a handler\<close>

text \<open>What a handler reads besides its request and the database: the libraries, the configuration, the
  secrets and the server's clock.\<close>

record env =
  libs_of :: libs
  cfg :: runtime_config
  sec :: secrets
  now_of :: instant

section \<open>Sessions\<close>

definition is_active :: "instant \<Rightarrow> session \<Rightarrow> bool" where
  "is_active now s \<longleftrightarrow> revoked_at s = None \<and> now < s_expires_at s"

definition hex_digit :: "nat \<Rightarrow> char" where
  "hex_digit n = (if n < 10 then char_of (48 + n) else char_of (87 + n))"

definition hex :: "string \<Rightarrow> string" where
  "hex bs = concat (map (\<lambda>c. [hex_digit (of_char c div 16), hex_digit (of_char c mod 16)]) bs)"

text \<open>The 32 random bytes of a new refresh token are an argument.\<close>

definition generate_refresh_token :: "string \<Rightarrow> string" where
  "generate_refresh_token random = hex random"

definition hash_refresh_token :: "libs \<Rightarrow> string \<Rightarrow> string" where
  "hash_refresh_token L token = hex (sha256 L token)"

definition session_db_err :: "sqlx_error \<Rightarrow> api_error" where
  "session_db_err = db_err (api_error_new ResourceNotFound ''session not found'')"

definition insert_session :: "session \<Rightarrow> session statement" where
  "insert_session s d =
     (if s_id s \<in> s_id ` set (sessions d) then Inl UniqueViolation
      else if (\<exists>u. s_user_id s = Some u \<and> u \<notin> u_id ` set (users d)) then Inl ForeignKeyViolation
      else Inr (s, d\<lparr>sessions := sessions d @ [s]\<rparr>))"

definition create_session ::
  "uuid \<Rightarrow> instant \<Rightarrow> principal_type \<Rightarrow> uuid option \<Rightarrow> client_type \<Rightarrow> string \<Rightarrow> int \<Rightarrow> string \<Rightarrow> string \<Rightarrow>
    (db, api_error, session) comp" where
  "create_session new_id now p user c hash ttl_secs device ip =
     map_err session_db_err (query (\<lambda>d. insert_session
       \<lparr>s_id = new_id, s_principal_type = show_principal p, s_user_id = user, s_client_type = show_client c,
        refresh_hash = hash, device_name = device, s_ip = ip, s_created_at = clock d,
        s_expires_at = now + secs ttl_secs, revoked_at = None, last_seen_at = None\<rparr> d))"

definition find_active_by_refresh_hash :: "string \<Rightarrow> (db, api_error, session option) comp" where
  "find_active_by_refresh_hash h =
     map_err session_db_err (select (\<lambda>d.
       find (\<lambda>s. refresh_hash s = h \<and> revoked_at s = None \<and> clock d < s_expires_at s) (sessions d)))"

definition session_find_by_id :: "uuid \<Rightarrow> (db, api_error, session option) comp" where
  "session_find_by_id i = map_err session_db_err (select (\<lambda>d. find (\<lambda>s. s_id s = i) (sessions d)))"

definition update_sessions :: "(session \<Rightarrow> bool) \<Rightarrow> (session \<Rightarrow> session) \<Rightarrow> db \<Rightarrow> db" where
  "update_sessions P f d = d\<lparr>sessions := map (\<lambda>s. if P s then f s else s) (sessions d)\<rparr>"

definition revoke :: "uuid \<Rightarrow> (db, api_error, unit) comp" where
  "revoke i =
     map_err session_db_err (execute (\<lambda>d.
       update_sessions (\<lambda>s. s_id s = i) (\<lambda>s. s\<lparr>revoked_at := Some (clock d)\<rparr>) d))"

definition revoke_all_for_user :: "uuid \<Rightarrow> (db, api_error, unit) comp" where
  "revoke_all_for_user u =
     map_err session_db_err (execute (\<lambda>d.
       update_sessions (\<lambda>s. s_user_id s = Some u \<and> revoked_at s = None)
         (\<lambda>s. s\<lparr>revoked_at := Some (clock d)\<rparr>) d))"

definition touch :: "uuid \<Rightarrow> (db, api_error, unit) comp" where
  "touch i =
     map_err session_db_err (execute (\<lambda>d.
       update_sessions (\<lambda>s. s_id s = i) (\<lambda>s. s\<lparr>last_seen_at := Some (clock d)\<rparr>) d))"

section \<open>The extractor\<close>

text \<open>A session that is live in the database's eyes.\<close>

definition live :: "db \<Rightarrow> uuid \<Rightarrow> bool" where
  "live d i \<longleftrightarrow> (\<exists>s \<in> set (sessions d). s_id s = i \<and> revoked_at s = None \<and> clock d < s_expires_at s)"

definition principal_of :: "access_claims \<Rightarrow> string \<Rightarrow> auth_principal" where
  "principal_of c rid =
     \<lparr>sub = ac_sub c, sid = ac_sid c, principal = ac_principal c, client = ac_client c, request_id = rid\<rparr>"

definition from_request_parts ::
  "env \<Rightarrow> string \<Rightarrow> headers \<Rightarrow> (db option, api_error, auth_principal) comp" where
  "from_request_parts E fresh_id hs =
     bnd (some_or (extract_bearer_or_cookie (libs_of E) hs ACCESS_COOKIE)
            (api_error_new SessionExpired ''missing credentials'')) (\<lambda>token.
     bnd (from_result (decode_access (libs_of E) (jwt_secret (sec E)) (now_of E) token)) (\<lambda>c.
     bnd (\<lambda>s. case s of
            None \<Rightarrow> (Inr True, s)
          | Some d \<Rightarrow>
              (case map_err (\<lambda>_. internal) (select (\<lambda>d. live d (ac_sid c))) d of
                 (Inl e, d') \<Rightarrow> (Inl e, Some d') | (Inr b, d') \<Rightarrow> (Inr b, Some d'))) (\<lambda>active.
     if \<not> active then throw (api_error_new SessionExpired ''session inactive'')
     else ret (principal_of c (read_request_id (header_str hs ''x-request-id'') fresh_id)))))"

text \<open>The optional principal of public endpoints; it does not ask the database.\<close>

definition optional_principal :: "env \<Rightarrow> string \<Rightarrow> headers \<Rightarrow> auth_principal option" where
  "optional_principal E fresh_id hs =
     (case extract_bearer_or_cookie (libs_of E) hs ACCESS_COOKIE of
        None \<Rightarrow> None
      | Some token \<Rightarrow>
          (case decode_access (libs_of E) (jwt_secret (sec E)) (now_of E) token of
             Inl _ \<Rightarrow> None
           | Inr c \<Rightarrow> Some (principal_of c (read_request_id (header_str hs ''x-request-id'') fresh_id))))"

section \<open>Phira credentials\<close>

definition identity_db_err :: "sqlx_error \<Rightarrow> api_error" where
  "identity_db_err = db_err (api_error_new ResourceNotFound ''not found'')"

definition store_phira_credential :: "uuid \<Rightarrow> string \<Rightarrow> instant \<Rightarrow> (db, api_error, unit) comp" where
  "store_phira_credential u ct exp =
     map_err identity_db_err (query (\<lambda>d.
       if u \<notin> u_id ` set (users d) then Inl ForeignKeyViolation
       else Inr ((), d\<lparr>phira_credentials :=
         filter (\<lambda>c. pc_user_id c \<noteq> u) (phira_credentials d) @
         [\<lparr>pc_user_id = u, refresh_token_ciphertext = ct, refresh_expires_at = exp, pc_state = ''active'', pc_updated_at = clock d\<rparr>]\<rparr>)))"

definition load_phira_credential :: "uuid \<Rightarrow> (db, api_error, phira_credential option) comp" where
  "load_phira_credential u =
     map_err identity_db_err (select (\<lambda>d. find (\<lambda>c. pc_user_id c = u) (phira_credentials d)))"

definition set_credential_state :: "string \<Rightarrow> uuid \<Rightarrow> (db, api_error, unit) comp" where
  "set_credential_state st u =
     map_err identity_db_err (execute (\<lambda>d. d\<lparr>phira_credentials :=
       map (\<lambda>c. if pc_user_id c = u then c\<lparr>pc_state := st, pc_updated_at := clock d\<rparr> else c) (phira_credentials d)\<rparr>))"

definition mark_reauth_required :: "uuid \<Rightarrow> (db, api_error, unit) comp" where
  "mark_reauth_required u = set_credential_state ''reauth_required'' u"

definition revoke_phira_credential :: "uuid \<Rightarrow> (db, api_error, unit) comp" where
  "revoke_phira_credential u = set_credential_state ''revoked'' u"

definition refresh_token_expired :: "instant \<Rightarrow> instant \<Rightarrow> bool" where
  "refresh_token_expired exp now \<longleftrightarrow> exp \<le> now"

section \<open>Issuing, refreshing and ending sessions\<close>

text \<open>The two \<open>Set-Cookie\<close> values of an authenticated response.\<close>

definition issue_cookies :: "session_config \<Rightarrow> string \<Rightarrow> string \<Rightarrow> string \<times> string" where
  "issue_cookies c access_token refresh_token =
     (set_cookie ACCESS_COOKIE access_token (cookie_opts_from_session c) (access_ttl_secs c),
      set_cookie REFRESH_COOKIE refresh_token (cookie_opts_from_session c) (refresh_ttl_secs c))"

record auth_reply =
  reply_body :: json
  reply_cookies :: "string list"

definition auth_response :: "json \<Rightarrow> session_config \<Rightarrow> string \<Rightarrow> string \<Rightarrow> auth_reply" where
  "auth_response b c access_token refresh_token =
     (let (a, r) = issue_cookies c access_token refresh_token
      in \<lparr>reply_body = b, reply_cookies = [a, r]\<rparr>)"

definition issue_session_and_jwt ::
  "env \<Rightarrow> uuid \<Rightarrow> string \<Rightarrow> principal_type \<Rightarrow> uuid option \<Rightarrow> client_type \<Rightarrow> string \<Rightarrow> string \<Rightarrow>
    (db, api_error, session \<times> string \<times> string) comp" where
  "issue_session_and_jwt E new_id random p user c device ip =
     (let refresh_token = generate_refresh_token random in
      bnd (create_session new_id (now_of E) p user c (hash_refresh_token (libs_of E) refresh_token)
             (refresh_ttl_secs (session_cfg (cfg E))) device ip) (\<lambda>sess.
      bnd (from_result (encode_access (libs_of E) (jwt_secret (sec E))
             (access_claims_new (now_of E) (unwrap_or user ROOT_SUB) (s_id sess) p c
                (access_ttl_secs (session_cfg (cfg E)))))) (\<lambda>access_token.
      ret (sess, access_token, refresh_token))))"

definition parse_principal_type :: "session \<Rightarrow> principal_type" where
  "parse_principal_type s = (if s_principal_type s = ''root'' then PRoot else PUser)"

definition reauth_message :: string where
  "reauth_message = bytes [233, 156, 128, 232, 166, 129, 233, 135, 141, 230, 150, 176, 233, 170, 140, 232, 175, 129] @ '' Phira '' @ bytes [232, 186, 171, 228, 187, 189]"

definition credential_gate :: "env \<Rightarrow> session \<Rightarrow> (db, api_error, unit) comp" where
  "credential_gate E sess =
     (case (parse_principal_type sess, s_user_id sess) of
        (PUser, Some u) \<Rightarrow>
          bnd (load_phira_credential u) (\<lambda>cred.
            case cred of
              Some c \<Rightarrow>
                if refresh_token_expired (refresh_expires_at c) (now_of E) \<or> pc_state c \<noteq> ''active''
                then andthen (mark_reauth_required u) (throw (api_error_new PhiraReauthRequired reauth_message))
                else ret ()
            | None \<Rightarrow> ret ())
      | _ \<Rightarrow> ret ())"

definition rotate_refresh_hash :: "string \<Rightarrow> uuid \<Rightarrow> (db, api_error, unit) comp" where
  "rotate_refresh_hash h i =
     map_err (\<lambda>_. internal) (execute (\<lambda>d.
       update_sessions (\<lambda>s. s_id s = i) (\<lambda>s. s\<lparr>refresh_hash := h, last_seen_at := Some (clock d)\<rparr>) d))"

definition refresh :: "env \<Rightarrow> string \<Rightarrow> headers \<Rightarrow> (db option, api_error, auth_reply) comp" where
  "refresh E random hs = with_db (
     bnd (some_or (get_cookie (libs_of E) hs REFRESH_COOKIE)
            (api_error_new SessionExpired ''missing refresh cookie'')) (\<lambda>refresh_token.
     bnd (find_active_by_refresh_hash (hash_refresh_token (libs_of E) refresh_token)) (\<lambda>found.
     bnd (some_or found (api_error_new SessionExpired ''refresh token invalid or expired'')) (\<lambda>sess.
     let p = parse_principal_type sess;
         c = unwrap_or (parse_client (s_client_type sess)) Ppf;
         new_refresh = generate_refresh_token random in
     andthen (credential_gate E sess)
    (andthen (rotate_refresh_hash (hash_refresh_token (libs_of E) new_refresh) (s_id sess))
    (bnd (from_result (encode_access (libs_of E) (jwt_secret (sec E))
            (access_claims_new (now_of E) (unwrap_or (s_user_id sess) ROOT_SUB) (s_id sess) p c
               (access_ttl_secs (session_cfg (cfg E)))))) (\<lambda>access_token.
     ret (auth_response (JObj [(''ok'', JBool True)]) (session_cfg (cfg E)) access_token new_refresh))))))))"

definition logout :: "env \<Rightarrow> headers \<Rightarrow> (db option, api_error, string list) comp" where
  "logout E hs = with_db (
     andthen
       (case get_cookie (libs_of E) hs REFRESH_COOKIE of
          Some rt \<Rightarrow>
            bnd (find_active_by_refresh_hash (hash_refresh_token (libs_of E) rt)) (\<lambda>found.
              case found of Some s \<Rightarrow> revoke (s_id s) | None \<Rightarrow> ret ())
        | None \<Rightarrow>
            (case get_cookie (libs_of E) hs ACCESS_COOKIE of
               Some at \<Rightarrow>
                 (case decode_access (libs_of E) (jwt_secret (sec E)) (now_of E) at of
                    Inr c \<Rightarrow> revoke (ac_sid c) | Inl _ \<Rightarrow> ret ())
             | None \<Rightarrow> ret ()))
       (ret [clear_cookie ACCESS_COOKIE (cookie_opts_from_session (session_cfg (cfg E))),
             clear_cookie REFRESH_COOKIE (cookie_opts_from_session (session_cfg (cfg E)))]))"

section \<open>Who gets through the extractor\<close>

lemma live_outcomes [simp]: "live (d\<lparr>outcomes := xs\<rparr>) i = live d i"
  by (simp add: live_def)

lemma extractor_runs:
  assumes "from_request_parts E f hs (Some d) = (Inr a, t)"
  shows "\<exists>token c xs. extract_bearer_or_cookie (libs_of E) hs ACCESS_COOKIE = Some token \<and>
    decode_access (libs_of E) (jwt_secret (sec E)) (now_of E) token = Inr c \<and>
    sub a = ac_sub c \<and> sid a = ac_sid c \<and> principal a = ac_principal c \<and> client a = ac_client c \<and>
    live d (sid a) \<and> t = Some (d\<lparr>outcomes := xs\<rparr>)"
  using assms unfolding from_request_parts_def
  by (auto simp: runs principal_of_def dest!: select_InrD
      split: if_splits prod.splits sum.splits)


definition demo_session :: session where
  "demo_session = \<lparr>s_id = 70, s_principal_type = ''user'', s_user_id = Some 7, s_client_type = ''ppf'',
     refresh_hash = hash_refresh_token alice_libs ''r'', device_name = [], s_ip = [], s_created_at = 0,
     s_expires_at = 1000, revoked_at = None, last_seen_at = None\<rparr>"

definition demo_db :: db where
  "demo_db = empty_db 0\<lparr>users := [\<lparr>u_id = 7, phira_id = 700, username_cache = ''alice'', avatar_cache = [],
       u_status = ''active'', u_created_at = 0, u_updated_at = 0, u_last_seen_at = None\<rparr>],
     sessions := [demo_session]\<rparr>"

definition demo_env :: env where
  "demo_env = \<lparr>libs_of = alice_libs, cfg = default_config,
     sec = \<lparr>database_url = None, jwt_secret = ''k'', phira_credential_key = [], github_client_id = None,
            github_client_secret = None, pmp_openuds_token = None\<rparr>, now_of = 0\<rparr>"

lemma demo_live: "live demo_db 70"
  by (simp add: live_def demo_db_def empty_db_def demo_session_def)

lemma demo_decode: "decode_access alice_libs ''k'' 0 ''t'' = Inr alice_claims"
  by (simp add: decode_access_def alice_libs_def access_of_json_def access_json_def field_defs alice_claims_def
      demo_libs_def parse_principal_def parse_client_def i64_range_def)

lemma demo_bearer: "extract_bearer_or_cookie alice_libs [(''authorization'', ''Bearer t'')] ACCESS_COOKIE = Some ''t''"
  by (simp add: extract_bearer_or_cookie_def header_str_def header_get_def visible_def strip_prefix_def
      to_ascii_lowercase_def to_ascii_lower_def)

lemma demo_extract:
  "from_request_parts demo_env ''q'' [(''authorization'', ''Bearer t'')] (Some demo_db)
     = (Inr (principal_of alice_claims ''q''), Some demo_db)"
proof -
  have rid: "read_request_id (header_str [(''authorization'', ''Bearer t'')] ''x-request-id'') ''q'' = ''q''"
    by (simp add: read_request_id_def header_str_def header_get_def to_ascii_lowercase_def to_ascii_lower_def)
  have o: "outcomes demo_db = []" by (simp add: demo_db_def empty_db_def)
  have "ac_sid alice_claims = 70" by (simp add: alice_claims_def)
  then show ?thesis
    using demo_live o
    by (simp add: from_request_parts_def demo_env_def comp_defs demo_bearer demo_decode rid)
qed


section \<open>Revocation is final\<close>

text \<open>A session id all of whose rows are revoked.\<close>

definition dead :: "db \<Rightarrow> uuid \<Rightarrow> bool" where
  "dead d i \<longleftrightarrow> i \<in> s_id ` set (sessions d) \<and> (\<forall>s \<in> set (sessions d). s_id s = i \<longrightarrow> revoked_at s \<noteq> None)"

definition stay_dead :: "db \<Rightarrow> db \<Rightarrow> bool" where
  "stay_dead d d' \<longleftrightarrow> (\<forall>i. dead d i \<longrightarrow> dead d' i)"

lemma dead_not_live: "dead d i \<Longrightarrow> \<not> live d i"
  by (auto simp: dead_def live_def)

interpretation graveyard: table_frame stay_dead
proof
  show "stay_dead d (d\<lparr>outcomes := xs\<rparr>)" for d xs by (simp add: stay_dead_def dead_def)
qed (simp_all add: stay_dead_def)

lemma update_sessions_ids:
  assumes "\<And>s. s_id (f s) = s_id s"
  shows "s_id ` set (sessions (update_sessions P f d)) = s_id ` set (sessions d)"
proof -
  have "map s_id (sessions (update_sessions P f d)) = map s_id (sessions d)"
    using assms by (simp add: update_sessions_def)
  then show ?thesis by (metis list.set_map)
qed

lemma update_sessions_stay_dead:
  assumes "\<And>s. s_id (f s) = s_id s" and "\<And>s. revoked_at s \<noteq> None \<Longrightarrow> revoked_at (f s) \<noteq> None"
  shows "stay_dead d (update_sessions P f d)"
  unfolding stay_dead_def dead_def update_sessions_ids [of f, OF assms(1)]
proof (intro allI impI conjI ballI)
  fix i s assume d: "i \<in> s_id ` set (sessions d) \<and> (\<forall>s \<in> set (sessions d). s_id s = i \<longrightarrow> revoked_at s \<noteq> None)"
    and s: "s \<in> set (sessions (update_sessions P f d))" "s_id s = i"
  from s(1) obtain x where "x \<in> set (sessions d)" "s = (if P x then f x else x)"
    by (auto simp: update_sessions_def)
  with d s(2) assms show "revoked_at s \<noteq> None" by (metis (full_types))
qed simp

lemma revoke_dead: "obeys stay_dead (revoke i)"
  unfolding revoke_def
  by (intro graveyard.table_intros graveyard.obeys_execute update_sessions_stay_dead) simp_all

lemma revoke_all_dead: "obeys stay_dead (revoke_all_for_user u)"
  unfolding revoke_all_for_user_def
  by (intro graveyard.table_intros graveyard.obeys_execute update_sessions_stay_dead) simp_all

lemma touch_dead: "obeys stay_dead (touch i)"
  unfolding touch_def
  by (intro graveyard.table_intros graveyard.obeys_execute update_sessions_stay_dead) simp_all

lemma rotate_dead: "obeys stay_dead (rotate_refresh_hash h i)"
  unfolding rotate_refresh_hash_def
  by (intro graveyard.table_intros graveyard.obeys_execute update_sessions_stay_dead) simp_all

lemma insert_session_dead: "insert_session s d = Inr (a, d') \<Longrightarrow> stay_dead d d'"
  by (auto simp: insert_session_def stay_dead_def dead_def split: if_splits)

lemma create_session_dead: "obeys stay_dead (create_session i now p u c h ttl dv ip)"
  unfolding create_session_def
  by (intro graveyard.table_intros graveyard.obeys_query) (auto intro: insert_session_dead)

lemma issue_dead: "obeys stay_dead (issue_session_and_jwt E i rnd p u c dv ip)"
  unfolding issue_session_and_jwt_def Let_def
  by (intro graveyard.table_intros create_session_dead)

lemma credential_gate_dead: "obeys stay_dead (credential_gate E s)"
proof -
  have st: "obeys stay_dead (set_credential_state w u)" for w u
    unfolding set_credential_state_def
    by (intro graveyard.table_intros graveyard.obeys_execute) (simp add: stay_dead_def dead_def)
  show ?thesis
    unfolding credential_gate_def load_phira_credential_def mark_reauth_required_def
    by (auto split: principal_type.splits option.splits intro!: graveyard.table_intros st)
qed

text \<open>A handler runs on a configured database, and leaves it configured.\<close>

lemma with_db_obeys: "obeys R m \<Longrightarrow> \<exists>d'. snd (with_db m (Some d)) = Some d' \<and> R d d'"
  by (auto simp: with_db_def split: prod.splits dest: obeys_run)

lemma refresh_dead: "\<exists>d'. snd (refresh E rnd hs (Some d)) = Some d' \<and> stay_dead d d'"
  unfolding refresh_def find_active_by_refresh_hash_def Let_def
  by (intro with_db_obeys graveyard.table_intros credential_gate_dead rotate_dead)

lemma logout_dead: "\<exists>d'. snd (logout E hs (Some d)) = Some d' \<and> stay_dead d d'"
  unfolding logout_def find_active_by_refresh_hash_def
  by (rule with_db_obeys)
    (auto split: option.splits sum.splits intro!: graveyard.table_intros revoke_dead)

text \<open>One step of the life of the sessions: time passes, a user row appears, or one of the operations
  runs, whatever it returns and whatever the connection does.\<close>

inductive session_step :: "db \<Rightarrow> db \<Rightarrow> bool" where
  pass: "clock d \<le> now \<Longrightarrow> session_step d (d\<lparr>clock := now, outcomes := xs\<rparr>)"
| signup: "session_step d (d\<lparr>users := users d @ [u]\<rparr>)"
| login: "session_step d (snd (issue_session_and_jwt E i rnd p u c dv ip d))"
| touched: "session_step d (snd (touch i d))"
| revoked: "session_step d (snd (revoke i d))"
| revoked_all: "session_step d (snd (revoke_all_for_user u d))"
| refreshed: "snd (refresh E rnd hs (Some d)) = Some d' \<Longrightarrow> session_step d d'"
| left: "snd (logout E hs (Some d)) = Some d' \<Longrightarrow> session_step d d'"

lemma session_step_dead: "session_step d d' \<Longrightarrow> stay_dead d d'"
proof (induction rule: session_step.induct)
  case (refreshed E rnd hs d d')
  then show ?case using refresh_dead [of E rnd hs d] by auto
next
  case (left E hs d d')
  then show ?case using logout_dead [of E hs d] by auto
next
  case (pass d now xs)
  show ?case by (simp add: stay_dead_def dead_def)
next
  case (signup d u)
  show ?case by (simp add: stay_dead_def dead_def)
qed (simp_all add: obeysD [OF issue_dead] obeysD [OF touch_dead] obeysD [OF revoke_dead] obeysD [OF revoke_all_dead])

interpretation sealed: invariant_system "\<lambda>d. dead d i" session_step "\<lambda>d. dead d i" for i
  by unfold_locales (auto dest: session_step_dead simp: stay_dead_def)

lemma logout_runs:
  assumes "logout E hs (Some d) = (Inr r, Some d1)"
    and "get_cookie (libs_of E) hs REFRESH_COOKIE = Some rt"
    and "find (\<lambda>s. refresh_hash s = hash_refresh_token (libs_of E) rt \<and> revoked_at s = None \<and> clock d < s_expires_at s)
           (sessions d) = Some s"
  shows "dead d1 (s_id s)"
proof -
  have mem: "s \<in> set (sessions d)" using assms(3) by (auto simp: find_Some_iff)
  obtain ys where r: "revoke (s_id s) (d\<lparr>outcomes := ys\<rparr>) = (Inr (), d1)"
    using assms unfolding logout_def find_active_by_refresh_hash_def
    by (auto simp: runs with_db_def dest!: select_InrD split: prod.splits)
  have "\<exists>xs v. d1 = update_sessions (\<lambda>x. s_id x = s_id s) (\<lambda>x. x\<lparr>revoked_at := Some v\<rparr>) (d\<lparr>outcomes := xs\<rparr>)"
    using r unfolding revoke_def by (auto dest!: execute_InrD intro!: exI [of _ "clock d"])
  then obtain xs v where d1: "d1 = update_sessions (\<lambda>x. s_id x = s_id s) (\<lambda>x. x\<lparr>revoked_at := Some v\<rparr>) (d\<lparr>outcomes := xs\<rparr>)"
    by blast
  have "s_id ` set (sessions d1) = s_id ` set (sessions d)"
    unfolding d1 by (subst update_sessions_ids) simp_all
  moreover have "\<forall>x \<in> set (sessions d1). s_id x = s_id s \<longrightarrow> revoked_at x \<noteq> None"
    by (auto simp: d1 update_sessions_def)
  ultimately show ?thesis using mem by (simp add: dead_def)
qed


lemma refresh_runs:
  assumes "refresh E rnd hs (Some d) = (Inr r, Some t)"
  shows "\<exists>rt s xs v. get_cookie (libs_of E) hs REFRESH_COOKIE = Some rt \<and>
    find (\<lambda>s. refresh_hash s = hash_refresh_token (libs_of E) rt \<and> revoked_at s = None \<and> clock d < s_expires_at s)
      (sessions d) = Some s \<and>
    sessions t = map (\<lambda>x. if s_id x = s_id s
      then x\<lparr>refresh_hash := hash_refresh_token (libs_of E) (generate_refresh_token rnd), last_seen_at := v\<rparr> else x) (sessions d) \<and>
    clock t = clock d"
proof -
  let ?keep = "\<lambda>d d'. sessions d' = sessions d \<and> clock d' = clock d"
  have gate: "credential_gate E s u = (Inr x, w) \<Longrightarrow> ?keep u w" for s u x w
    unfolding credential_gate_def load_phira_credential_def
    by (auto simp: runs dest!: select_InrD split: principal_type.splits option.splits if_splits)
  obtain rt s u w1 w2 x y where c: "get_cookie (libs_of E) hs REFRESH_COOKIE = Some rt"
    and f: "find_active_by_refresh_hash (hash_refresh_token (libs_of E) rt) d = (Inr (Some s), u)"
    and g: "credential_gate E s u = (Inr x, w1)"
    and q: "rotate_refresh_hash (hash_refresh_token (libs_of E) (generate_refresh_token rnd)) (s_id s) w1 = (Inr y, w2)"
    and e: "t = w2"
    using assms unfolding refresh_def Let_def
    by (auto simp: runs with_db_def split: prod.splits)
  have u: "?keep d u" and s: "find (\<lambda>s. refresh_hash s = hash_refresh_token (libs_of E) rt \<and> revoked_at s = None \<and> clock d < s_expires_at s)
      (sessions d) = Some s"
    using f unfolding find_active_by_refresh_hash_def by (auto dest!: select_InrD)
  have w1: "?keep d w1" using gate [OF g] u by simp
  have "\<exists>v. sessions w2 = map (\<lambda>x. if s_id x = s_id s
      then x\<lparr>refresh_hash := hash_refresh_token (libs_of E) (generate_refresh_token rnd), last_seen_at := v\<rparr> else x) (sessions w1) \<and>
    clock w2 = clock w1"
    using q unfolding rotate_refresh_hash_def by (auto simp: update_sessions_def dest!: execute_InrD)
  with w1 c s e show ?thesis by auto
qed

text \<open>A successful refresh replaces the session's refresh token. If the presented token named
  one session only and the new token hashes differently, afterwards no session answers to the old
  token, and the same session, still neither revoked nor past its end, answers to the new one.\<close>

theorem refresh_rotates:
  assumes "refresh E rnd hs (Some d) = (Inr r, Some t)"
    and "get_cookie (libs_of E) hs REFRESH_COOKIE = Some rt"
    and "\<forall>s \<in> set (sessions d). refresh_hash s = hash_refresh_token (libs_of E) rt \<longrightarrow> s_id s = i"
    and "hash_refresh_token (libs_of E) rt \<noteq> hash_refresh_token (libs_of E) (generate_refresh_token rnd)"
  shows "(\<forall>s \<in> set (sessions t). refresh_hash s \<noteq> hash_refresh_token (libs_of E) rt) \<and>
    (\<exists>s \<in> set (sessions t). s_id s = i \<and> revoked_at s = None \<and> clock t < s_expires_at s \<and>
       refresh_hash s = hash_refresh_token (libs_of E) (generate_refresh_token rnd))"
proof -
  let ?new = "hash_refresh_token (libs_of E) (generate_refresh_token rnd)"
  obtain s v where s: "find (\<lambda>s. refresh_hash s = hash_refresh_token (libs_of E) rt \<and> revoked_at s = None \<and>
        clock d < s_expires_at s) (sessions d) = Some s"
    and t: "sessions t = map (\<lambda>x. if s_id x = s_id s then x\<lparr>refresh_hash := ?new, last_seen_at := v\<rparr> else x) (sessions d)"
    and c: "clock t = clock d"
    using refresh_runs [OF assms(1)] assms(2) by auto
  from s have m: "s \<in> set (sessions d)" "refresh_hash s = hash_refresh_token (libs_of E) rt"
      "revoked_at s = None" "clock d < s_expires_at s"
    by (auto simp: find_Some_iff)
  with assms(3) have i: "s_id s = i" by blast
  have "refresh_hash x \<noteq> hash_refresh_token (libs_of E) rt" if "x \<in> set (sessions t)" for x
    using that assms(3,4) i unfolding t by auto
  moreover have "s\<lparr>refresh_hash := ?new, last_seen_at := v\<rparr> \<in> set (sessions t)"
    unfolding t using m(1) by (auto intro!: rev_image_eqI [of s])
  ultimately show ?thesis using m i c by (auto intro!: bexI [of _ "s\<lparr>refresh_hash := ?new, last_seen_at := v\<rparr>"])
qed

definition cookie_env :: env where
  "cookie_env = demo_env\<lparr>libs_of := alice_libs\<lparr>cookie_split := (\<lambda>s. [(''ppb_refresh'', s)]),
     jwt_encode := (\<lambda>secret j. Some ''t'')\<rparr>\<rparr>"

lemma cookie_env_cookie: "get_cookie (libs_of cookie_env) [(''cookie'', ''r'')] REFRESH_COOKIE = Some ''r''"
  by (simp add: get_cookie_def header_str_def header_get_def visible_def to_ascii_lowercase_def to_ascii_lower_def
      cookie_env_def REFRESH_COOKIE_def)

lemma cookie_env_hash: "hash_refresh_token (libs_of cookie_env) s = hash_refresh_token alice_libs s"
  by (simp add: cookie_env_def hash_refresh_token_def)

lemma demo_find: "find (\<lambda>s. refresh_hash s = hash_refresh_token (libs_of cookie_env) ''r'' \<and> revoked_at s = None \<and>
    clock demo_db < s_expires_at s) (sessions demo_db) = Some demo_session"
  by (simp add: demo_db_def empty_db_def demo_session_def cookie_env_hash)

theorem refresh_rotates_witness:
  "\<exists>t. snd (refresh cookie_env ''n'' [(''cookie'', ''r'')] (Some demo_db)) = Some t \<and>
    (\<forall>s \<in> set (sessions t). refresh_hash s \<noteq> hash_refresh_token (libs_of cookie_env) ''r'')"
proof -
  have o: "outcomes demo_db = []" by (simp add: demo_db_def empty_db_def)
  have pc: "find (\<lambda>c. pc_user_id c = 7) (phira_credentials demo_db) = None"
    by (simp add: demo_db_def empty_db_def)
  obtain r t where run: "refresh cookie_env ''n'' [(''cookie'', ''r'')] (Some demo_db) = (Inr r, Some t)"
    using o pc demo_find
    by (simp add: refresh_def with_db_def bnd_def some_or_def cookie_env_cookie find_active_by_refresh_hash_def map_err_def
        ret_def andthen_def credential_gate_def parse_principal_type_def demo_session_def load_phira_credential_def
        rotate_refresh_hash_def from_result_def encode_access_def Let_def)
      (simp add: cookie_env_def)
  have ne: "hash_refresh_token (libs_of cookie_env) ''r'' \<noteq> hash_refresh_token (libs_of cookie_env) (generate_refresh_token ''n'')"
    by (simp add: hash_refresh_token_def generate_refresh_token_def hex_def cookie_env_def alice_libs_def demo_libs_def)
  have "\<forall>s \<in> set (sessions demo_db). refresh_hash s = hash_refresh_token (libs_of cookie_env) ''r'' \<longrightarrow> s_id s = 70"
    by (simp add: demo_db_def empty_db_def demo_session_def)
  from refresh_rotates [OF run cookie_env_cookie this ne] run show ?thesis by auto
qed


end
