(* ===== verification/Redirects.thy ===== *)
theory Redirects
  imports Http
begin

text \<open>
  Where a sign-in may send the browser (\<^verbatim>\<open>auth/gateway.rs\<close>, \<open>validate_return_to\<close> of
  \<^verbatim>\<open>auth/routes.rs\<close>), the links and the locale of the login page, and the escaping of what is
  reflected into it. The page's markup itself is not modelled.
\<close>

section \<open>Targets\<close>

definition BACKSLASH :: string where "BACKSLASH = [CHR 0x5C]"

definition is_relative :: "string \<Rightarrow> bool" where
  "is_relative v \<longleftrightarrow>
     starts_with v ''/'' \<and> \<not> starts_with v ''//'' \<and> \<not> contains v BACKSLASH \<and>
     \<not> contains v ''@'' \<and> \<not> contains v ''://''"

definition validate_return_to :: "string list \<Rightarrow> string \<Rightarrow> api_error + unit" where
  "validate_return_to allowlist v =
     (if v = [] then Inr ()
      else if v \<in> set allowlist then Inr ()
      else if is_relative v then Inr ()
      else Inl (validation (''return_to '' @ bytes [228, 184, 141, 229, 156, 168, 231, 153, 189, 229, 144, 141, 229, 141, 149, 229, 134, 133])))"

definition trusted_origin :: "site_config \<Rightarrow> string \<Rightarrow> string" where
  "trusted_origin s client_type = (if client_type = ''panel'' then panel_url s else ppf_url s)"

definition safe_return_to :: "string option \<Rightarrow> string" where
  "safe_return_to v =
     (case v of Some x \<Rightarrow> if is_relative x \<and> length x \<le> 2048 then x else ''/'' | None \<Rightarrow> ''/'')"

definition resolve_redirect_target :: "site_config \<Rightarrow> string list \<Rightarrow> string \<Rightarrow> string option \<Rightarrow> string" where
  "resolve_redirect_target s allowlist client_type return_to =
     (let origin = trim_end_slashes (trusted_origin s client_type) in
      case return_to of
        Some v \<Rightarrow>
          if v \<in> set allowlist then v
          else if v = safe_return_to (Some v) then origin @ v
          else origin
      | None \<Rightarrow> origin)"

definition legal_ready :: "legal_config \<Rightarrow> bool" where
  "legal_ready l \<longleftrightarrow>
     public_auth_enabled l \<and> trim (terms_version l) \<noteq> [] \<and> trim (privacy_version l) \<noteq> [] \<and>
     trim (terms_url l) \<noteq> [] \<and> trim (privacy_url l) \<noteq> []"

definition resolve_legal_link :: "site_config \<Rightarrow> string \<Rightarrow> string \<Rightarrow> string" where
  "resolve_legal_link s client_type v =
     (if starts_with v ''https://'' \<or> starts_with v ''http://localhost'' \<or> starts_with v ''http://127.0.0.1''
      then v
      else if v = safe_return_to (Some v) then trim_end_slashes (trusted_origin s client_type) @ v
      else ''#'')"

definition locale_from :: "headers \<Rightarrow> string option \<Rightarrow> string" where
  "locale_from hs requested =
     (if requested \<in> {Some ''en'', Some ''en-US'', Some ''en-GB''} then ''en''
      else if requested \<in> {Some ''zh'', Some ''zh-CN'', Some ''zh-TW''} then ''zh''
      else if starts_with (to_ascii_lowercase (unwrap_or (header_str hs ''accept-language'') [])) ''en''
      then ''en'' else ''zh'')"

section \<open>Escaping\<close>

definition html_escape :: "string \<Rightarrow> string" where
  "html_escape s =
     replace_all [CHR 0x27] ''&#39;''
    (replace_all [CHR 0x22] ''&quot;''
    (replace_all ''>'' ''&gt;''
    (replace_all ''<'' ''&lt;''
    (replace_all ''&'' ''&amp;'' s))))"

text \<open>The reference: every character on its own.\<close>

definition escape_char :: "char \<Rightarrow> string" where
  "escape_char c =
     (if c = CHR ''&'' then ''&amp;''
      else if c = CHR ''<'' then ''&lt;''
      else if c = CHR ''>'' then ''&gt;''
      else if c = CHR 0x22 then ''&quot;''
      else if c = CHR 0x27 then ''&#39;''
      else [c])"

lemma replace_single: "replace_all [p] w s = concat (map (\<lambda>c. if c = p then w else [c]) s)"
  by (induction s) auto

lemma html_escape_chars: "html_escape s = concat (map escape_char s)"
proof (induction s)
  case Nil
  then show ?case by (simp add: html_escape_def)
next
  case (Cons c s)
  then show ?case
    by (cases "c = CHR ''&''"; cases "c = CHR ''<''"; cases "c = CHR ''>''"; cases "c = CHR 0x22"; cases "c = CHR 0x27")
      (simp_all add: html_escape_def escape_char_def replace_single)
qed

text \<open>Escaping works character by character, so the escaped text holds no angle bracket, no
  quote and no apostrophe: it cannot leave the attribute or the element it is put into.\<close>

theorem html_escape_safe:
  "html_escape s = concat (map escape_char s) \<and>
   set (html_escape s) \<inter> {CHR ''<'', CHR ''>'', CHR 0x22, CHR 0x27} = {}"
proof -
  have "set (escape_char c) \<inter> {CHR ''<'', CHR ''>'', CHR 0x22, CHR 0x27} = {}" for c
    by (auto simp: escape_char_def split: if_splits)
  then show ?thesis by (auto simp: html_escape_chars)
qed

section \<open>No open redirect\<close>

lemma is_relative_shape:
  assumes "is_relative v"
  shows "\<exists>r. v = CHR ''/'' # r \<and> \<not> starts_with r ''/''"
proof -
  have a: "starts_with v ''/''" and b: "\<not> starts_with v ''//''" using assms by (auto simp: is_relative_def)
  obtain r where v: "v = CHR ''/'' # r" using a by (auto simp: starts_with_iff)
  show ?thesis using b by (cases r) (auto simp: v)
qed

text \<open>Wherever a sign-in sends the browser, it is an entry of the configured allow list, or
  the trusted origin of the client itself, or that origin followed by a path that starts with a
  single slash and has no at sign, backslash or scheme in it; the requested text decides nothing
  else.\<close>

theorem no_open_redirect:
  "resolve_redirect_target s allow client_type return_to \<in> set allow \<or>
   (\<exists>path. resolve_redirect_target s allow client_type return_to =
        trim_end_slashes (trusted_origin s client_type) @ path \<and>
      (path = [] \<or> is_relative path \<and> length path \<le> 2048 \<and>
        (\<exists>r. path = CHR ''/'' # r \<and> \<not> starts_with r ''/'')))"
proof (cases "\<exists>v. return_to = Some v \<and> v \<notin> set allow \<and> v = safe_return_to (Some v)")
  case True
  then obtain v where v: "return_to = Some v" "v \<notin> set allow" "v = safe_return_to (Some v)" by blast
  have one: "is_relative ''/''" by (simp add: is_relative_def BACKSLASH_def)
  have rel: "is_relative v" "length v \<le> 2048"
    using v(3) one by (auto simp: safe_return_to_def split: if_splits)
  show ?thesis
    using v rel is_relative_shape [OF rel(1)]
    by (intro disjI2 exI [of _ v]) (simp add: resolve_redirect_target_def Let_def)
next
  case False
  then show ?thesis
    by (cases return_to) (auto simp: resolve_redirect_target_def Let_def)
qed

end
