(* ===== verification/Login.thy ===== *)
theory Login
  imports Sessions Redirects Rate_Limiter
begin

text \<open>
  Signing in: the versioned legal acceptance (\<^verbatim>\<open>auth/consent.rs\<close>), the user and identity rows
  (\<^verbatim>\<open>users/repo.rs\<close>, \<^verbatim>\<open>identities/repo.rs\<close>), the Phira password login and reauthentication
  (\<^verbatim>\<open>auth/phira.rs\<close>, handlers of \<^verbatim>\<open>auth/routes.rs\<close>), and the Root principal (\<^verbatim>\<open>auth/root.rs\<close>).
  The Phira service answers through two functions given as parameters; the user's status,
  timestamps and the rows' generated ids that nothing reads are left out.
\<close>

section \<open>Application state\<close>

record oauth_state =
  oa_user_id :: "uuid option"
  oa_client_type :: string
  oa_mode :: string
  oa_return_to :: string
  oa_accepted_legal :: bool
  oa_terms_version :: string
  oa_privacy_version :: string
  oa_created_at :: instant

record app_state =
  limiter :: buckets
  pool :: "db option"
  oauth_states :: "(string \<times> oauth_state) list"

definition on_limiter :: "(buckets, 'e, 'a) comp \<Rightarrow> (app_state, 'e, 'a) comp" where
  "on_limiter m s = (case m (limiter s) of (r, b) \<Rightarrow> (r, s\<lparr>limiter := b\<rparr>))"

definition on_pool :: "(db option, 'e, 'a) comp \<Rightarrow> (app_state, 'e, 'a) comp" where
  "on_pool m s = (case m (pool s) of (r, p) \<Rightarrow> (r, s\<lparr>pool := p\<rparr>))"

definition rate_check :: "env \<Rightarrow> string \<Rightarrow> nat \<Rightarrow> (app_state, api_error, unit) comp" where
  "rate_check E key lim = on_limiter (check (now_secs (now_of E)) key lim)"

section \<open>Legal acceptance\<close>

record legal_acceptance =
  la_terms :: string
  la_privacy :: string

definition current_versions :: "legal_config \<Rightarrow> api_error + legal_acceptance" where
  "current_versions l =
     (if \<not> public_auth_enabled l \<or> trim (terms_version l) = [] \<or> trim (privacy_version l) = [] \<or>
         trim (terms_url l) = [] \<or> trim (privacy_url l) = []
      then Inl (api_error_new AuthLegalDocumentsUnavailable ''approved legal documents are not configured'')
      else Inr \<lparr>la_terms = terms_version l, la_privacy = privacy_version l\<rparr>)"

definition validate_acceptance ::
  "legal_config \<Rightarrow> bool \<Rightarrow> string option \<Rightarrow> string option \<Rightarrow> api_error + legal_acceptance" where
  "validate_acceptance l accepted terms privacy =
     (case current_versions l of
        Inl e \<Rightarrow> Inl e
      | Inr current \<Rightarrow>
          if \<not> accepted \<or> unwrap_or terms [] \<noteq> la_terms current \<or> unwrap_or privacy [] \<noteq> la_privacy current
          then Inl (with_param ''privacy_version'' (la_privacy current)
                   (with_param ''terms_version'' (la_terms current)
                     (api_error_new AuthLegalConsentRequired
                        ''current legal document versions must be explicitly accepted'')))
          else Inr current)"

definition accepted_row :: "db \<Rightarrow> uuid \<Rightarrow> legal_acceptance \<Rightarrow> bool" where
  "accepted_row d u la \<longleftrightarrow>
     (\<exists>r \<in> set (legal_acceptances d).
        l_user_id r = u \<and> l_terms_version r = la_terms la \<and> l_privacy_version r = la_privacy la)"

definition has_current_acceptance :: "uuid \<Rightarrow> legal_config \<Rightarrow> (db, api_error, bool) comp" where
  "has_current_acceptance u l =
     bnd (from_result (current_versions l)) (\<lambda>current.
       map_err (\<lambda>_. internal) (select (\<lambda>d. accepted_row d u current)))"

definition acceptance_for_login ::
  "uuid option \<Rightarrow> legal_config \<Rightarrow> bool \<Rightarrow> string option \<Rightarrow> string option \<Rightarrow>
    (db, api_error, legal_acceptance option) comp" where
  "acceptance_for_login existing l accepted terms privacy =
     andthen (from_result (current_versions l))
    (bnd (case existing of Some u \<Rightarrow> has_current_acceptance u l | None \<Rightarrow> ret False) (\<lambda>already.
     if already then ret None
     else bnd (from_result (validate_acceptance l accepted terms privacy)) (\<lambda>la. ret (Some la))))"

definition insert_acceptance :: "legal_row \<Rightarrow> unit statement" where
  "insert_acceptance r d =
     (if \<exists>x \<in> set (legal_acceptances d). l_user_id x = l_user_id r \<and>
           l_terms_version x = l_terms_version r \<and> l_privacy_version x = l_privacy_version r
      then Inr ((), d)
      else if l_user_id r \<notin> u_id ` set (users d) then Inl ForeignKeyViolation
      else Inr ((), d\<lparr>legal_acceptances := legal_acceptances d @ [r]\<rparr>))"

definition record_acceptance ::
  "uuid \<Rightarrow> client_type \<Rightarrow> legal_acceptance \<Rightarrow> string \<Rightarrow> (db, api_error, unit) comp" where
  "record_acceptance u c la src =
     map_err (\<lambda>_. internal) (query (insert_acceptance
       \<lparr>l_user_id = u, l_terms_version = la_terms la, l_privacy_version = la_privacy la,
        l_client_type = show_client c, l_source = src\<rparr>))"

section \<open>Users and identities\<close>

definition user_db_err :: "sqlx_error \<Rightarrow> api_error" where
  "user_db_err = db_err (api_error_new UserNotFound ''user not found'')"

definition find_by_phira_id :: "int \<Rightarrow> (db, api_error, user option) comp" where
  "find_by_phira_id p = map_err user_db_err (select (\<lambda>d. find (\<lambda>u. phira_id u = p) (users d)))"

definition find_by_id :: "uuid \<Rightarrow> (db, api_error, user option) comp" where
  "find_by_id i = map_err user_db_err (select (\<lambda>d. find (\<lambda>u. u_id u = i) (users d)))"

text \<open>\<open>INSERT ... ON CONFLICT (phira_id) DO UPDATE ... RETURNING\<close>.\<close>

definition refreshed_user :: "string \<Rightarrow> string \<Rightarrow> instant \<Rightarrow> user \<Rightarrow> user" where
  "refreshed_user name avatar now u =
     u\<lparr>username_cache := name, avatar_cache := avatar, u_last_seen_at := Some now, u_updated_at := now\<rparr>"

definition upsert_user :: "uuid \<Rightarrow> int \<Rightarrow> string \<Rightarrow> string \<Rightarrow> user statement" where
  "upsert_user new_id p name avatar d =
     (case find (\<lambda>u. phira_id u = p) (users d) of
        Some u \<Rightarrow>
          (let f = refreshed_user name avatar (clock d)
           in Inr (f u, d\<lparr>users := map (\<lambda>x. if phira_id x = p then f x else x) (users d)\<rparr>))
      | None \<Rightarrow>
          if new_id \<in> u_id ` set (users d) then Inl UniqueViolation
          else (let u' = \<lparr>u_id = new_id, phira_id = p, username_cache = name, avatar_cache = avatar,
                    u_status = ''active'', u_created_at = clock d, u_updated_at = clock d, u_last_seen_at = Some (clock d)\<rparr>
                in Inr (u', d\<lparr>users := users d @ [u']\<rparr>)))"

definition upsert_by_phira_id :: "uuid \<Rightarrow> int \<Rightarrow> string \<Rightarrow> string \<Rightarrow> (db, api_error, user) comp" where
  "upsert_by_phira_id new_id p name avatar = map_err user_db_err (query (upsert_user new_id p name avatar))"

definition find_by_provider :: "string \<Rightarrow> string \<Rightarrow> (db, api_error, identity option) comp" where
  "find_by_provider prov pid =
     map_err identity_db_err (select (\<lambda>d.
       find (\<lambda>i. provider i = prov \<and> provider_id i = pid) (user_identities d)))"

definition list_for_user :: "uuid \<Rightarrow> (db, api_error, identity list) comp" where
  "list_for_user u =
     map_err identity_db_err (select (\<lambda>d. filter (\<lambda>i. i_user_id i = u) (user_identities d)))"

definition upsert_identity :: "(identity \<Rightarrow> identity) \<Rightarrow> identity \<Rightarrow> unit statement" where
  "upsert_identity f i d =
     (if \<exists>x \<in> set (user_identities d). provider x = provider i \<and> provider_id x = provider_id i
      then Inr ((), d\<lparr>user_identities := map (\<lambda>x.
             if provider x = provider i \<and> provider_id x = provider_id i then f x else x) (user_identities d)\<rparr>)
      else if i_user_id i \<notin> u_id ` set (users d) then Inl ForeignKeyViolation
      else Inr ((), d\<lparr>user_identities := user_identities d @ [i]\<rparr>))"

definition upsert_phira_identity :: "uuid \<Rightarrow> int \<Rightarrow> string \<Rightarrow> (db, api_error, unit) comp" where
  "upsert_phira_identity u p name =
     map_err identity_db_err (query (upsert_identity (\<lambda>x. x\<lparr>provider_name := name\<rparr>)
       \<lparr>i_user_id = u, provider = ''phira'', provider_id = show_int p, provider_name = name\<rparr>))"

definition bind_github :: "uuid \<Rightarrow> string \<Rightarrow> string \<Rightarrow> (db, api_error, unit) comp" where
  "bind_github u gid name =
     map_err identity_db_err (query (upsert_identity (\<lambda>x. x)
       \<lparr>i_user_id = u, provider = ''github'', provider_id = gid, provider_name = name\<rparr>))"

definition unbind_github :: "uuid \<Rightarrow> string \<Rightarrow> (db, api_error, unit) comp" where
  "unbind_github u gid =
     map_err identity_db_err (execute (\<lambda>d. d\<lparr>user_identities := filter (\<lambda>i.
       \<not> (i_user_id i = u \<and> provider i = ''github'' \<and> provider_id i = gid)) (user_identities d)\<rparr>))"

section \<open>The Phira service\<close>

datatype phira_error =
    PhiraApi string
  | PhiraUnavailable string
  | InvalidCredentials
  | ReauthRequired string
  | PhiraOther string
  | PhiraRateLimited

record phira_login_response =
  pl_id :: int
  pl_token :: string
  pl_refresh_token :: string
  pl_expire_at :: string

record phira_me =
  me_id :: int
  me_username :: string
  me_avatar :: string

record phira_api =
  login_email :: "string \<Rightarrow> string \<Rightarrow> phira_error + phira_login_response"
  me_of :: "string \<Rightarrow> phira_error + phira_me"

primrec phira_error_to_api :: "phira_error \<Rightarrow> api_error" where
  "phira_error_to_api InvalidCredentials = api_error_new PhiraAuthFailed ''invalid credentials''"
| "phira_error_to_api (ReauthRequired m) =
     with_details PhiraReauthRequired reauth_message (JObj [(''reason'', JStr m)])"
| "phira_error_to_api (PhiraApi m) = api_error_new PhiraApiUnavailable m"
| "phira_error_to_api (PhiraOther m) = api_error_new PhiraApiUnavailable m"
| "phira_error_to_api (PhiraUnavailable m) = api_error_new PhiraApiUnavailable m"
| "phira_error_to_api PhiraRateLimited = api_error_new RateLimited ''phira api rate limited''"

definition authenticate_phira ::
  "phira_api \<Rightarrow> string \<Rightarrow> string \<Rightarrow> phira_error + phira_login_response \<times> phira_me" where
  "authenticate_phira api email password =
     (case login_email api email password of
        Inl e \<Rightarrow> Inl e
      | Inr login \<Rightarrow> (case me_of api (pl_token login) of Inl e \<Rightarrow> Inl e | Inr me \<Rightarrow> Inr (login, me)))"

definition phira_auth :: "phira_api \<Rightarrow> string \<Rightarrow> string \<Rightarrow> api_error + phira_login_response \<times> phira_me" where
  "phira_auth api email password =
     (case authenticate_phira api email password of Inl e \<Rightarrow> Inl (phira_error_to_api e) | Inr r \<Rightarrow> Inr r)"

definition parse_expire_at :: "libs \<Rightarrow> string \<Rightarrow> api_error + instant" where
  "parse_expire_at L v =
     (case parse_rfc3339 L v of Some t \<Rightarrow> Inr t | None \<Rightarrow> Inl (api_error_new ValidationFailed ''invalid expireAt''))"

text \<open>The random values of one login: the id of a new user, of new groups, of the new session, the
  cipher's nonce and the refresh token.\<close>

record fresh =
  new_user_id :: uuid
  new_group_ids :: "nat \<Rightarrow> uuid"
  new_session_id :: uuid
  new_nonce :: nat
  new_random :: string

definition commit_login ::
  "env \<Rightarrow> fresh \<Rightarrow> phira_login_response \<Rightarrow> phira_me \<Rightarrow> (db, api_error, user) comp" where
  "commit_login E F login me =
     bnd (upsert_by_phira_id (new_user_id F) (pl_id login) (me_username me) (me_avatar me)) (\<lambda>user.
     andthen (upsert_phira_identity (u_id user) (pl_id login) (me_username me))
    (bnd (some_or (cipher_encrypt (libs_of E) (new_nonce F) (pl_refresh_token login))
            (api_error_new InternalError ''credential encryption failed'')) (\<lambda>ct.
     andthen (store_phira_credential (u_id user) ct
        (case parse_expire_at (libs_of E) (pl_expire_at login) of
           Inr t \<Rightarrow> t | Inl _ \<Rightarrow> now_of E + secs (30 * 86400)))
    (andthen (ensure_user_in_default_group (new_group_ids F) (u_id user))
     (ret user)))))"

definition decrypt_refresh_token ::
  "env \<Rightarrow> (string \<Rightarrow> bool) \<Rightarrow> uuid \<Rightarrow> (db, api_error, string \<times> instant \<times> string) comp" where
  "decrypt_refresh_token E utf8 u =
     bnd (load_phira_credential u) (\<lambda>row.
     bnd (some_or row (api_error_new PhiraReauthRequired ''no phira credential'')) (\<lambda>c.
     if pc_state c \<noteq> ''active'' then throw (api_error_new PhiraReauthRequired ''phira credential not active'')
     else bnd (some_or (cipher_decrypt (libs_of E) (refresh_token_ciphertext c))
                 (api_error_new InternalError ''credential decryption failed'')) (\<lambda>plain.
          if utf8 plain then ret (plain, refresh_expires_at c, pc_state c)
          else throw (api_error_new InternalError ''credential decode failed''))))"

section \<open>Handlers: Phira login and reauthentication\<close>

record phira_login_request =
  lr_email :: string
  lr_password :: string
  lr_client_type :: "string option"
  lr_device_name :: "string option"
  lr_return_to :: "string option"
  lr_accepted :: "bool option"
  lr_terms_version :: "string option"
  lr_privacy_version :: "string option"

definition user_summary :: "libs \<Rightarrow> user \<Rightarrow> json" where
  "user_summary L u =
     JObj [(''id'', JStr (uuid_text L (u_id u))), (''phira_id'', JInt (phira_id u)),
           (''username'', JStr (username_cache u)), (''avatar'', JStr (avatar_cache u))]"

text \<open>What the login does with the database, once the service has vouched for the password.\<close>

definition login_body ::
  "env \<Rightarrow> fresh \<Rightarrow> phira_api \<Rightarrow> headers \<Rightarrow> phira_login_request \<Rightarrow> client_type \<Rightarrow> (db, api_error, auth_reply) comp" where
  "login_body E F api hs b c =
     bnd (from_result (phira_auth api (lr_email b) (lr_password b))) (\<lambda>lm.
     bnd (find_by_phira_id (pl_id (fst lm))) (\<lambda>existing.
     bnd (acceptance_for_login (map_option u_id existing) (legal (cfg E)) (lr_accepted b = Some True)
            (lr_terms_version b) (lr_privacy_version b)) (\<lambda>la.
     bnd (commit_login E F (fst lm) (snd lm)) (\<lambda>user.
     andthen (case la of Some x \<Rightarrow> record_acceptance (u_id user) c x ''phira_login'' | None \<Rightarrow> ret ())
    (bnd (issue_session_and_jwt E (new_session_id F) (new_random F) PUser (Some (u_id user)) c
            (unwrap_or (lr_device_name b) []) (ip_from_headers hs)) (\<lambda>issued.
     ret (auth_response (JObj [(''user'', user_summary (libs_of E) user)]) (session_cfg (cfg E))
            (fst (snd issued)) (snd (snd issued)))))))))"

definition phira_login ::
  "env \<Rightarrow> fresh \<Rightarrow> phira_api \<Rightarrow> headers \<Rightarrow> phira_login_request \<Rightarrow> (app_state, api_error, auth_reply) comp" where
  "phira_login E F api hs b =
     andthen (rate_check E (''login:'' @ ip_from_headers hs) (login_per_minute (rate_limit (cfg E))))
    (bnd (some_or (parse_client (unwrap_or (lr_client_type b) ''ppf'')) (validation ''invalid client_type'')) (\<lambda>c.
     andthen (from_result (case lr_return_to b of
                Some rt \<Rightarrow> validate_return_to (return_to_allowlist (cfg E)) rt | None \<Rightarrow> Inr ()))
    (andthen (from_result (current_versions (legal (cfg E))))
     (on_pool (with_db (login_body E F api hs b c))))))"

record reauth_request =
  rr_email :: "string option"
  rr_password :: string
  rr_risk :: "string option"

text \<open>Root: the local emergency principal.\<close>

definition root_db_err :: "sqlx_error \<Rightarrow> api_error" where
  "root_db_err = db_err (api_error_new ResourceNotFound ''root credentials not found'')"

definition CHARSET :: string where
  "CHARSET = ''ABCDEFGHJKLMNPQRSTUVWXYZabcdefghijkmnopqrstuvwxyz23456789!@#$%^&*''"

text \<open>Sixteen draws below the length of the alphabet are an argument.\<close>

definition generate_random_password :: "nat list \<Rightarrow> string" where
  "generate_random_password draws = map (\<lambda>i. CHARSET ! (i mod length CHARSET)) (take 16 draws)"

definition hash_or_internal :: "env \<Rightarrow> nat \<Rightarrow> string \<Rightarrow> (db, api_error, string) comp" where
  "hash_or_internal E salt p = some_or (bcrypt_hash (libs_of E) salt p) internal"

definition root_bootstrap :: "env \<Rightarrow> nat \<Rightarrow> nat list \<Rightarrow> (db, api_error, string option) comp" where
  "root_bootstrap E salt draws =
     bnd (map_err root_db_err (select (\<lambda>d. root_credentials d \<noteq> None))) (\<lambda>exists.
     if exists then ret None
     else bnd (hash_or_internal E salt (generate_random_password draws)) (\<lambda>h.
          andthen (map_err root_db_err (execute (\<lambda>d.
             d\<lparr>root_credentials := Some \<lparr>password_hash = h, must_change_password = True\<rparr>\<rparr>)))
            (ret (Some (generate_random_password draws)))))"

definition root_verify :: "env \<Rightarrow> string \<Rightarrow> (db, api_error, bool) comp" where
  "root_verify E password =
     bnd (map_err root_db_err (select root_credentials)) (\<lambda>row.
     bnd (some_or row (api_error_new AuthRequired ''root not initialized'')) (\<lambda>c.
     bnd (some_or (bcrypt_verify (libs_of E) password (password_hash c)) internal) (\<lambda>ok.
     if \<not> ok then throw (api_error_new RootPasswordInvalid ''invalid root password'')
     else ret (must_change_password c))))"

definition root_must_change :: "(db, api_error, bool) comp" where
  "root_must_change =
     map_err root_db_err (query (\<lambda>d.
       case root_credentials d of Some c \<Rightarrow> Inr (must_change_password c, d) | None \<Rightarrow> Inl RowNotFound))"

definition set_root_password :: "string \<Rightarrow> bool \<Rightarrow> db \<Rightarrow> db" where
  "set_root_password h must d =
     d\<lparr>root_credentials := map_option (\<lambda>c. c\<lparr>password_hash := h, must_change_password := must\<rparr>) (root_credentials d)\<rparr>"

definition root_reset_password :: "env \<Rightarrow> nat \<Rightarrow> nat list \<Rightarrow> (db, api_error, string) comp" where
  "root_reset_password E salt draws =
     bnd (hash_or_internal E salt (generate_random_password draws)) (\<lambda>h.
     andthen (map_err root_db_err (execute (set_root_password h True)))
       (ret (generate_random_password draws)))"

definition change_password :: "env \<Rightarrow> nat \<Rightarrow> string \<Rightarrow> (db, api_error, unit) comp" where
  "change_password E salt p =
     (if length p < 12 then throw (validation ''root password must be at least 12 chars'')
      else bnd (hash_or_internal E salt p) (\<lambda>h.
           map_err root_db_err (execute (set_root_password h False))))"

text \<open>Reauthentication: Root with the local password, a user with a Phira login whose account is the
  user's own.\<close>

definition confirm_identity ::
  "env \<Rightarrow> phira_api \<Rightarrow> auth_principal \<Rightarrow> reauth_request \<Rightarrow> (db, api_error, unit) comp" where
  "confirm_identity E api a b =
     (if is_root a then andthen (root_verify E (rr_password b)) (ret ())
      else
        bnd (some_or (rr_email b) (validation ''email required for phira reauth'')) (\<lambda>email.
        bnd (from_result (phira_auth api email (rr_password b))) (\<lambda>lm.
        bnd (find_by_id (sub a)) (\<lambda>row.
        bnd (some_or row (not_found ''user'')) (\<lambda>user.
        if pl_id (fst lm) \<noteq> phira_id user
        then throw (api_error_new AuthRequired ''reauth phira_id does not match the current user'')
        else ret ())))))"

definition phira_reauth ::
  "env \<Rightarrow> phira_api \<Rightarrow> auth_principal \<Rightarrow> headers \<Rightarrow> reauth_request \<Rightarrow> (app_state, api_error, json) comp" where
  "phira_reauth E api a hs b =
     andthen (rate_check E (''reauth:'' @ ip_from_headers hs) (reauth_per_minute (rate_limit (cfg E))))
    (let r = (if unwrap_or (rr_risk b) ''high'' = ''critical'' then RCritical else RHigh);
         ttl = reauth_ttl_secs (session_cfg (cfg E)) in
     andthen (on_pool (with_db (confirm_identity E api a b)))
    (bnd (from_result (encode_reauth (libs_of E) (jwt_secret (sec E))
            (reauth_claims_new (now_of E) (sub a) (sid a) (principal a) (client a) r ttl))) (\<lambda>token.
     ret (JObj [(''reauth_token'', JStr token), (''expires_in'', JInt ttl), (''risk'', JStr (reauth_risk_str r))]))))"

section \<open>Handlers: Root\<close>

definition root_login ::
  "env \<Rightarrow> fresh \<Rightarrow> headers \<Rightarrow> string \<Rightarrow> (db option, api_error, auth_reply) comp" where
  "root_login E F hs password = with_db (
     bnd (root_verify E password) (\<lambda>must.
     bnd (issue_session_and_jwt E (new_session_id F) (new_random F) PRoot None Panel ''panel-root'' (ip_from_headers hs)) (\<lambda>issued.
     ret (auth_response (JObj [(''principal_type'', JStr ''root''), (''must_change_password'', JBool must)])
            (session_cfg (cfg E)) (fst (snd issued)) (snd (snd issued))))))"

definition root_session :: "env \<Rightarrow> auth_principal \<Rightarrow> (db option, api_error, json) comp" where
  "root_session E a =
     (if \<not> is_root a then throw permission_denied
      else with_db (bnd root_must_change (\<lambda>must.
        ret (JObj [(''principal_type'', JStr ''root''), (''user_id'', JNull),
                   (''session_id'', JStr (uuid_text (libs_of E) (sid a))), (''must_change_password'', JBool must)]))))"

definition root_change_password ::
  "env \<Rightarrow> nat \<Rightarrow> auth_principal \<Rightarrow> string option \<Rightarrow> string \<Rightarrow> (db option, api_error, unit) comp" where
  "root_change_password E salt a current new_password =
     (if \<not> is_root a then throw permission_denied
      else with_db (
        bnd root_must_change (\<lambda>must.
        andthen (if must then ret ()
                 else bnd (some_or current (validation ''current_password required'')) (\<lambda>c.
                      andthen (root_verify E c) (ret ())))
          (change_password E salt new_password))))"

section \<open>Runs of the building blocks\<close>

lemma on_pool_runs [runs]:
  "on_pool m s = (Inr a, t) \<longleftrightarrow> (\<exists>p. m (pool s) = (Inr a, p) \<and> t = s\<lparr>pool := p\<rparr>)"
  by (auto simp: on_pool_def split: prod.splits)

lemma rate_check_pool: "rate_check E k n s = (r, t) \<Longrightarrow> pool t = pool s \<and> oauth_states t = oauth_states s"
  by (auto simp: rate_check_def on_limiter_def split: prod.splits)

text \<open>The acceptances and the memberships are each written by one step of a login only.\<close>

definition keeps_acceptances :: "db \<Rightarrow> db \<Rightarrow> bool" where
  "keeps_acceptances d d' \<longleftrightarrow> legal_acceptances d' = legal_acceptances d"

interpretation legal_frame: table_frame keeps_acceptances
  by unfold_locales (simp_all add: keeps_acceptances_def)

definition keeps_members :: "db \<Rightarrow> db \<Rightarrow> bool" where
  "keeps_members d d' \<longleftrightarrow> group_members d' = group_members d"

interpretation member_frame: table_frame keeps_members
  by unfold_locales (simp_all add: keeps_members_def)

lemma accepted_row_keep: "keeps_acceptances d d' \<Longrightarrow> accepted_row d' u la = accepted_row d u la"
  by (simp add: keeps_acceptances_def accepted_row_def)

lemma upsert_user_frames:
  "upsert_user i p n a d = Inr (u, d') \<Longrightarrow> keeps_acceptances d d'"
  by (auto simp: upsert_user_def refreshed_user_def Let_def keeps_acceptances_def split: option.splits if_splits)

lemma ensure_group_legal: "obeys keeps_acceptances (ensure_group i n ds k df pr)"
  unfolding ensure_group_def
  by (intro legal_frame.table_intros legal_frame.obeys_query legal_frame.obeys_execute)
    (auto simp: insert_group_if_absent_def mark_default_def keeps_acceptances_def split: if_splits)

lemma ensure_user_legal: "obeys keeps_acceptances (ensure_user_in_default_group ids u)"
  unfolding ensure_user_in_default_group_def join_default_group_def default_group_id_def bootstrap_groups_def
  by (intro legal_frame.table_intros legal_frame.obeys_query ensure_group_legal)
    (auto simp: insert_member_def keeps_acceptances_def split: option.splits if_splits)

lemma commit_login_legal: "obeys keeps_acceptances (commit_login E F login me)"
  unfolding commit_login_def upsert_by_phira_id_def upsert_phira_identity_def store_phira_credential_def
  by (intro legal_frame.table_intros legal_frame.obeys_query ensure_user_legal)
    (auto simp: upsert_identity_def keeps_acceptances_def dest: upsert_user_frames [unfolded keeps_acceptances_def]
      split: if_splits)

lemma issue_legal: "obeys keeps_acceptances (issue_session_and_jwt E i rnd p u c dv ip)"
  unfolding issue_session_and_jwt_def create_session_def Let_def
  by (intro legal_frame.table_intros legal_frame.obeys_query)
    (auto simp: insert_session_def keeps_acceptances_def split: if_splits)

lemma issue_members: "obeys keeps_members (issue_session_and_jwt E i rnd p u c dv ip)"
  unfolding issue_session_and_jwt_def create_session_def Let_def
  by (intro member_frame.table_intros member_frame.obeys_query)
    (auto simp: insert_session_def keeps_members_def split: if_splits)

lemma record_acceptance_runs:
  "record_acceptance u c la src d = (Inr x, t) \<Longrightarrow> accepted_row t u la \<and> keeps_members d t"
  unfolding record_acceptance_def insert_acceptance_def accepted_row_def keeps_members_def map_err_Inr
  by (drule query_InrD) (fastforce split: if_splits)

lemma upsert_user_runs:
  assumes "upsert_by_phira_id i p n a d = (Inr u, t)"
  shows "phira_id u = p \<and> (\<forall>x. find (\<lambda>u. phira_id u = p) (users d) = Some x \<longrightarrow> u_id u = u_id x)"
  using assms by (auto simp: upsert_by_phira_id_def upsert_user_def refreshed_user_def Let_def dest!: query_InrD
      split: option.splits if_splits) (metis (mono_tags, lifting) find_SomeD)

lemma commit_login_runs:
  assumes "commit_login E F login me d = (Inr u, t)"
  shows "phira_id u = pl_id login \<and> has_membership t (u_id u) \<and> keeps_acceptances d t \<and>
    (\<forall>x. find (\<lambda>u. phira_id u = pl_id login) (users d) = Some x \<longrightarrow> u_id u = u_id x)"
proof -
  obtain d1 w where up: "upsert_by_phira_id (new_user_id F) (pl_id login) (me_username me) (me_avatar me) d = (Inr u, d1)"
    and en: "ensure_user_in_default_group (new_group_ids F) (u_id u) w = (Inr (), t)"
    using assms unfolding commit_login_def by (auto simp: runs)
  have "has_membership t (u_id u)"
    using en by (auto simp: ensure_user_in_default_group_def has_membership_def runs join_default_group_def insert_member_def
        dest!: select_InrD query_InrD split: if_splits) force+
  then show ?thesis
    using upsert_user_runs [OF up] obeys_run [OF commit_login_legal assms] by blast
qed

lemma current_versions_accept: "validate_acceptance l ac tv pv = Inr la \<Longrightarrow> current_versions l = Inr la"
  by (auto simp: validate_acceptance_def split: sum.splits if_splits)

lemma acceptance_runs:
  assumes "acceptance_for_login ex l ac tv pv d = (Inr r, t)"
  shows "\<exists>la xs. current_versions l = Inr la \<and> t = d\<lparr>outcomes := xs\<rparr> \<and>
    (case r of None \<Rightarrow> \<exists>u. ex = Some u \<and> accepted_row d u la
             | Some x \<Rightarrow> x = la \<and> ac \<and> tv = Some (la_terms la) \<and> pv = Some (la_privacy la))"
proof -
  have "\<exists>la. current_versions l = Inr la"
    using assms by (auto simp: acceptance_for_login_def runs)
  then obtain la where la: "current_versions l = Inr la" by blast
  have nonempty: "la_terms la \<noteq> []" "la_privacy la \<noteq> []"
    using la by (auto simp: current_versions_def split: if_splits)
  show ?thesis
    using assms la nonempty unfolding acceptance_for_login_def has_current_acceptance_def
    by (cases ex; cases tv; cases pv)
      (auto simp: runs validate_acceptance_def accepted_row_def dest!: select_InrD split: if_splits)
qed

lemma find_by_phira_runs:
  "find_by_phira_id p d = (Inr r, t) \<Longrightarrow> \<exists>xs. t = d\<lparr>outcomes := xs\<rparr> \<and> r = find (\<lambda>u. phira_id u = p) (users d)"
  by (auto simp: find_by_phira_id_def dest!: select_InrD)

lemma login_body_runs:
  assumes "login_body E F api hs b c d = (Inr r, t)"
  shows "\<exists>login me (u :: user) la. authenticate_phira api (lr_email b) (lr_password b) = Inr (login, me) \<and>
    current_versions (legal (cfg E)) = Inr la \<and> phira_id u = pl_id login \<and>
    accepted_row t (u_id u) la \<and> has_membership t (u_id u)"
proof -
  obtain login me ex d1 ao d2 u d3 d4 x iss where
      auth: "phira_auth api (lr_email b) (lr_password b) = Inr (login, me)"
    and f: "find_by_phira_id (pl_id login) d = (Inr ex, d1)"
    and ac: "acceptance_for_login (map_option u_id ex) (legal (cfg E)) (lr_accepted b = Some True)
              (lr_terms_version b) (lr_privacy_version b) d1 = (Inr ao, d2)"
    and cm: "commit_login E F login me d2 = (Inr u, d3)"
    and rec: "(case ao of Some x \<Rightarrow> record_acceptance (u_id u) c x ''phira_login'' | None \<Rightarrow> ret ()) d3 = (Inr x, d4)"
    and sess: "issue_session_and_jwt E (new_session_id F) (new_random F) PUser (Some (u_id u)) c
              (unwrap_or (lr_device_name b) []) (ip_from_headers hs) d4 = (Inr iss, t)"
    using assms unfolding login_body_def by (auto simp: runs)
  have auth': "authenticate_phira api (lr_email b) (lr_password b) = Inr (login, me)"
    using auth by (auto simp: phira_auth_def split: sum.splits)
  obtain la where la: "current_versions (legal (cfg E)) = Inr la"
    and cse: "case ao of None \<Rightarrow> \<exists>w. map_option u_id ex = Some w \<and> accepted_row d1 w la | Some x \<Rightarrow> x = la"
    and d2: "\<exists>xs. d2 = d1\<lparr>outcomes := xs\<rparr>"
    using acceptance_runs [OF ac] by (cases ao) fastforce+
  have ex: "ex = find (\<lambda>u. phira_id u = pl_id login) (users d2)"
    using find_by_phira_runs [OF f] d2 by auto
  have u: "phira_id u = pl_id login" "has_membership d3 (u_id u)" "keeps_acceptances d2 d3"
      "\<And>w. ex = Some w \<Longrightarrow> u_id u = u_id w"
    using commit_login_runs [OF cm] ex by auto
  have row: "accepted_row d4 (u_id u) la \<and> keeps_members d3 d4"
  proof (cases ao)
    case None
    then obtain w where w: "ex = Some w" "accepted_row d1 (u_id w) la" using cse by auto
    moreover have "accepted_row d3 (u_id u) la"
      using w u(4) [OF w(1)] d2 accepted_row_keep [OF u(3)] by (auto simp: accepted_row_def)
    ultimately show ?thesis using None rec by (simp add: runs keeps_members_def)
  next
    case (Some y)
    then show ?thesis using rec cse record_acceptance_runs by simp
  qed
  have "accepted_row t (u_id u) la"
    using row accepted_row_keep [OF obeys_run [OF issue_legal sess]] by simp
  moreover have "has_membership t (u_id u)"
    using u(2) row obeys_run [OF issue_members sess] by (simp add: keeps_members_def has_membership_def)
  ultimately show ?thesis using auth' la u(1) by blast
qed

section \<open>Properties of signing in\<close>


definition bob_api :: phira_api where
  "bob_api = \<lparr>login_email = (\<lambda>e p. if p = ''pw'' then Inr \<lparr>pl_id = 700, pl_token = ''a'', pl_refresh_token = ''r'', pl_expire_at = []\<rparr>
       else Inl InvalidCredentials),
     me_of = (\<lambda>t. Inr \<lparr>me_id = 700, me_username = ''bob'', me_avatar = []\<rparr>)\<rparr>"

definition login_env :: env where
  "login_env = cookie_env\<lparr>cfg := default_config\<lparr>legal :=
     \<lparr>public_auth_enabled = True, terms_version = ''v'', privacy_version = ''v'', terms_url = ''v'', privacy_url = ''v''\<rparr>\<rparr>\<rparr>"

definition login_db :: db where
  "login_db = empty_db 0\<lparr>groups := [(new_group 2 ''Members'' [])\<lparr>is_default := True\<rparr>]\<rparr>"

definition login_state :: app_state where
  "login_state = \<lparr>limiter = [], pool = Some login_db, oauth_states = []\<rparr>"

definition bob_request :: "bool option \<Rightarrow> phira_login_request" where
  "bob_request ok = \<lparr>lr_email = ''e'', lr_password = ''pw'', lr_client_type = None, lr_device_name = None,
     lr_return_to = None, lr_accepted = ok, lr_terms_version = Some ''v'', lr_privacy_version = Some ''v''\<rparr>"

definition bob_fresh :: fresh where
  "bob_fresh = \<lparr>new_user_id = 9, new_group_ids = (\<lambda>n. word_of_nat n), new_session_id = 90, new_nonce = 0, new_random = ''n''\<rparr>"

lemma login_legal: "current_versions (legal (cfg login_env)) = Inr \<lparr>la_terms = ''v'', la_privacy = ''v''\<rparr>"
proof -
  have "trim ''v'' = ''v''" by code_simp
  then show ?thesis by (simp add: current_versions_def login_env_def)
qed

lemma login_rate: "rate_check login_env (''login:'' @ ip_from_headers []) (login_per_minute (rate_limit (cfg login_env))) login_state
    = (Inr (), login_state\<lparr>limiter := [(''login:'', [0])]\<rparr>)"
  by (simp add: rate_check_def on_limiter_def check_def login_env_def cookie_env_def demo_env_def default_config_def
      default_rate_limit_def login_state_def bucket_of_def recent_def aput_def adel_def now_secs_def timestamp_def
      ip_from_headers_def header_str_def header_get_def)

lemma bob_auth: "phira_auth bob_api ''e'' ''pw'' =
    Inr (\<lparr>pl_id = 700, pl_token = ''a'', pl_refresh_token = ''r'', pl_expire_at = []\<rparr>, \<lparr>me_id = 700, me_username = ''bob'', me_avatar = []\<rparr>)"
  by (simp add: phira_auth_def authenticate_phira_def bob_api_def)

lemma bob_encode: "encode_access (libs_of login_env) k c = Inr ''t''" "cipher_encrypt (libs_of login_env) n x = Some x"
  "parse_rfc3339 (libs_of login_env) x = None"
  by (simp_all add: encode_access_def login_env_def cookie_env_def alice_libs_def demo_libs_def)

lemma bob_logs_in:
  "\<exists>r t. login_body login_env bob_fresh bob_api [] (bob_request (Some True)) Ppf login_db = (Inr r, t)"
  by (simp add: login_body_def bob_request_def bob_auth bob_encode login_legal bob_fresh_def
      find_by_phira_id_def acceptance_for_login_def validate_acceptance_def commit_login_def upsert_by_phira_id_def
      upsert_user_def refreshed_user_def upsert_phira_identity_def upsert_identity_def store_phira_credential_def
      ensure_user_in_default_group_def join_default_group_def default_group_id_def has_membership_def insert_member_def
      record_acceptance_def insert_acceptance_def issue_session_and_jwt_def create_session_def insert_session_def
      parse_expire_at_def login_db_def empty_db_def new_group_def comp_defs query_calm Let_def)


text \<open>Without consent there is no account. If the caller does not explicitly accept exactly the
  current versions, and no account of the Phira user has accepted them before, the login is refused
  and not a single row is written.\<close>

theorem login_without_consent:
  assumes "s = \<lparr>limiter = bs, pool = Some d, oauth_states = os\<rparr>"
    and "authenticate_phira api (lr_email b) (lr_password b) = Inr (login, me)"
    and "current_versions (legal (cfg E)) = Inr la"
    and "lr_accepted b \<noteq> Some True \<or> lr_terms_version b \<noteq> Some (la_terms la) \<or> lr_privacy_version b \<noteq> Some (la_privacy la)"
    and "\<forall>u. find (\<lambda>u. phira_id u = pl_id login) (users d) = Some u \<longrightarrow> \<not> accepted_row d (u_id u) la"
  shows "\<exists>e t xs. phira_login E F api hs b s = (Inl e, t) \<and> pool t = Some (d\<lparr>outcomes := xs\<rparr>)"
proof -
  have auth: "phira_auth api (lr_email b) (lr_password b) = Inr (login, me)"
    using assms(2) by (simp add: phira_auth_def)
  have body: "\<exists>e xs. login_body E F api hs b c d = (Inl e, d\<lparr>outcomes := xs\<rparr>)" for c
  proof -
    obtain ex d1 where f: "find_by_phira_id (pl_id login) d = (ex, d1)" by (cases "find_by_phira_id (pl_id login) d")
    have d1: "untouched d d1"
      using f unfolding find_by_phira_id_def by (rule obeys_run [OF reader.obeys_map_err [OF reader.obeys_select]])
    show ?thesis
    proof (cases ex)
      case (Inl e)
      with f d1 auth show ?thesis by (auto simp: login_body_def bnd_def from_result_def untouched_def)
    next
      case (Inr row)
      have row: "row = find (\<lambda>u. phira_id u = pl_id login) (users d)"
        using f Inr find_by_phira_runs by blast
      let ?acc = "acceptance_for_login (map_option u_id row) (legal (cfg E)) (lr_accepted b = Some True)
              (lr_terms_version b) (lr_privacy_version b)"
      obtain ao d2 where a: "?acc d1 = (ao, d2)" by (cases "?acc d1")
      have reads: "obeys untouched ?acc"
        unfolding acceptance_for_login_def has_current_acceptance_def by (intro reader.table_intros)
      have d2: "untouched d d2" by (rule reader.trans_R [OF d1 obeys_run [OF reads a]])
      have "\<not> (\<exists>x. ao = Inr x)"
      proof
        assume "\<exists>x. ao = Inr x"
        then obtain x where "?acc d1 = (Inr x, d2)" using a by blast
        from acceptance_runs [OF this] assms(3-5) row d1 show False
          by (auto simp: accepted_row_def untouched_def split: option.splits)
      qed
      then obtain e where "ao = Inl e" by (cases ao) auto
      with f Inr a d2 auth show ?thesis by (auto simp: login_body_def bnd_def from_result_def untouched_def)
    qed
  qed
  obtain q s1 where q: "rate_check E (''login:'' @ ip_from_headers hs) (login_per_minute (rate_limit (cfg E))) s = (q, s1)"
    by (cases "rate_check E (''login:'' @ ip_from_headers hs) (login_per_minute (rate_limit (cfg E))) s")
  have s1: "pool s1 = Some d" using rate_check_pool [OF q] assms(1) by simp
  obtain r t where run: "phira_login E F api hs b s = (r, t)" by (cases "phira_login E F api hs b s")
  have "(\<exists>e. r = Inl e) \<and> (\<exists>xs. pool t = Some (d\<lparr>outcomes := xs\<rparr>))"
  proof (cases "\<exists>c. q = Inr () \<and> parse_client (unwrap_or (lr_client_type b) ''ppf'') = Some c \<and>
      (case lr_return_to b of Some rt \<Rightarrow> validate_return_to (return_to_allowlist (cfg E)) rt | None \<Rightarrow> Inr ()) = Inr ()")
    case True
    then obtain c where c: "q = Inr ()" "parse_client (unwrap_or (lr_client_type b) ''ppf'') = Some c"
      "(case lr_return_to b of Some rt \<Rightarrow> validate_return_to (return_to_allowlist (cfg E)) rt | None \<Rightarrow> Inr ()) = Inr ()"
      by blast
    from body [of c] obtain e xs where "login_body E F api hs b c d = (Inl e, d\<lparr>outcomes := xs\<rparr>)" by blast
    with run q c s1 assms(3) show ?thesis
      by (auto simp: phira_login_def andthen_def bnd_def some_or_def ret_def from_result_def on_pool_def with_db_def)
  next
    case False
    with run q s1 show ?thesis
      by (cases q; cases "parse_client (unwrap_or (lr_client_type b) ''ppf'')")
        (auto simp: phira_login_def andthen_def bnd_def some_or_def ret_def throw_def from_result_def
          intro: exI [of _ "outcomes d"] split: sum.splits)
  qed
  with run show ?thesis by auto
qed

theorem login_without_consent_witness:
  "\<exists>e t xs. phira_login login_env bob_fresh bob_api [] (bob_request None) login_state = (Inl e, t) \<and>
     pool t = Some (login_db\<lparr>outcomes := xs\<rparr>)"
proof (rule login_without_consent [OF _ _ login_legal])
  show "login_state = \<lparr>limiter = [], pool = Some login_db, oauth_states = []\<rparr>" by (simp add: login_state_def)
  show "authenticate_phira bob_api (lr_email (bob_request None)) (lr_password (bob_request None)) =
    Inr (\<lparr>pl_id = 700, pl_token = ''a'', pl_refresh_token = ''r'', pl_expire_at = []\<rparr>, \<lparr>me_id = 700, me_username = ''bob'', me_avatar = []\<rparr>)"
    by (simp add: bob_request_def authenticate_phira_def bob_api_def)
qed (simp_all add: bob_request_def login_db_def empty_db_def)

lemma root_verify_runs:
  "root_verify E p d = (Inr must, t) \<Longrightarrow> untouched d t \<and>
    (\<exists>c. root_credentials d = Some c \<and> bcrypt_verify (libs_of E) p (password_hash c) = Some True \<and> must = must_change_password c)"
  by (auto simp: root_verify_def runs untouched_def dest!: select_InrD split: if_splits) (metis)+

lemma find_by_id_runs: "find_by_id i d = (Inr r, t) \<Longrightarrow> untouched d t \<and> r = find (\<lambda>u. u_id u = i) (users d)"
  by (auto simp: find_by_id_def untouched_def dest!: select_InrD)

lemma confirm_runs:
  assumes "confirm_identity E api a b d = (Inr x, t)"
  shows "if is_root a
    then \<exists>c. root_credentials d = Some c \<and> bcrypt_verify (libs_of E) (rr_password b) (password_hash c) = Some True
    else \<exists>email login me u. rr_email b = Some email \<and>
      authenticate_phira api email (rr_password b) = Inr (login, me) \<and>
      u \<in> set (users d) \<and> u_id u = sub a \<and> phira_id u = pl_id login"
  using assms
  by (auto simp: confirm_identity_def runs phira_auth_def dest!: root_verify_runs find_by_id_runs
      split: if_splits sum.splits) (metis (mono_tags, lifting) find_SomeD)

text \<open>A reauth context is issued only to somebody who just proved to be the current principal:
  Root by the local password, a user by a Phira login whose account id is the one stored for that
  very user. The context is bound to the current session and expires after the configured time.\<close>

theorem reauth_same_identity:
  assumes "phira_reauth E api a hs b s = (Inr j, t)"
  shows "\<exists>d token r. pool s = Some d \<and>
    (if is_root a
     then \<exists>c. root_credentials d = Some c \<and> bcrypt_verify (libs_of E) (rr_password b) (password_hash c) = Some True
     else \<exists>email login me u. rr_email b = Some email \<and>
       authenticate_phira api email (rr_password b) = Inr (login, me) \<and>
       u \<in> set (users d) \<and> u_id u = sub a \<and> phira_id u = pl_id login) \<and>
    get_field j ''reauth_token'' = Some (JStr token) \<and>
    encode_reauth (libs_of E) (jwt_secret (sec E))
      (reauth_claims_new (now_of E) (sub a) (sid a) (principal a) (client a) r (reauth_ttl_secs (session_cfg (cfg E)))) = Inr token"
proof -
  obtain s1 d x d1 token r where q: "rate_check E (''reauth:'' @ ip_from_headers hs) (reauth_per_minute (rate_limit (cfg E))) s = (Inr (), s1)"
    and p: "pool s1 = Some d" and c: "confirm_identity E api a b d = (Inr x, d1)"
    and e: "encode_reauth (libs_of E) (jwt_secret (sec E))
      (reauth_claims_new (now_of E) (sub a) (sid a) (principal a) (client a) r (reauth_ttl_secs (session_cfg (cfg E)))) = Inr token"
    and j: "get_field j ''reauth_token'' = Some (JStr token)"
    using assms unfolding phira_reauth_def Let_def by (auto simp: runs get_field_def)
  have "pool s = Some d" using rate_check_pool [OF q] p by simp
  with confirm_runs [OF c] e j show ?thesis by blast
qed

text \<open>The Root password changes only at the request of Root, to one of at least twelve bytes, and
  either while a change is demanded or after the current password was verified; then the stored hash
  is that of the new password and the demand is lifted.\<close>

theorem root_password_change:
  assumes "root_change_password E salt a current new s = (Inr (), t)"
  shows "is_root a \<and> 12 \<le> length new \<and>
    (\<exists>d c d' h. s = Some d \<and> root_credentials d = Some c \<and> t = Some d' \<and>
       (must_change_password c \<or> (\<exists>p. current = Some p \<and> bcrypt_verify (libs_of E) p (password_hash c) = Some True)) \<and>
       bcrypt_hash (libs_of E) salt new = Some h \<and>
       root_credentials d' = Some \<lparr>password_hash = h, must_change_password = False\<rparr>)"
proof -
  have root: "is_root a" using assms by (auto simp: root_change_password_def runs split: if_splits)
  then obtain d d' must d1 x d2 where s: "s = Some d" "t = Some d'"
    and m: "root_must_change d = (Inr must, d1)"
    and v: "(if must then ret () else bnd (some_or current (validation ''current_password required'')) (\<lambda>c.
                      andthen (root_verify E c) (ret ()))) d1 = (Inr x, d2)"
    and ch: "change_password E salt new d2 = (Inr (), d')"
    using assms unfolding root_change_password_def by (auto simp: runs)
  obtain c where c: "root_credentials d = Some c" "must = must_change_password c" "untouched d d1"
    using m by (auto simp: root_must_change_def untouched_def dest!: query_InrD split: option.splits)
  have ver: "must \<or> (\<exists>p. current = Some p \<and> bcrypt_verify (libs_of E) p (password_hash c) = Some True)"
    and d2: "untouched d d2"
    using v c by (auto simp: runs untouched_def dest!: root_verify_runs split: if_splits)
  obtain h where h: "bcrypt_hash (libs_of E) salt new = Some h" "12 \<le> length new"
    and d': "\<exists>xs. d' = set_root_password h False (d2\<lparr>outcomes := xs\<rparr>)"
    using ch unfolding change_password_def hash_or_internal_def
    by (auto simp: runs dest!: execute_InrD split: if_splits)
  have "root_credentials d' = Some \<lparr>password_hash = h, must_change_password = False\<rparr>"
    using d' d2 c(1) by (auto simp: set_root_password_def untouched_def root_credential.equality)
  with root h s c ver show ?thesis by blast
qed

definition root_demo :: auth_principal where
  "root_demo = \<lparr>sub = 0, sid = 1, principal = PRoot, client = Panel, request_id = []\<rparr>"

definition root_db :: "bool \<Rightarrow> db" where
  "root_db must = empty_db 0\<lparr>root_credentials := Some \<lparr>password_hash = ''old'', must_change_password = must\<rparr>\<rparr>"

lemma demo_bcrypt: "bcrypt_hash (libs_of login_env) n x = Some x" "bcrypt_verify (libs_of login_env) p h = Some (p = h)"
  "jwt_encode (libs_of login_env) k j = Some ''t''"
  by (simp_all add: login_env_def cookie_env_def alice_libs_def demo_libs_def)

theorem root_password_change_witness:
  "is_root root_demo \<and> 12 \<le> length ''correct horse'' \<and>
    (\<exists>d c d' h. Some (root_db False) = Some d \<and> root_credentials d = Some c \<and>
       snd (root_change_password login_env 0 root_demo (Some ''old'') ''correct horse'' (Some (root_db False))) = Some d' \<and>
       (must_change_password c \<or> (\<exists>p. Some ''old'' = Some p \<and> bcrypt_verify (libs_of login_env) p (password_hash c) = Some True)) \<and>
       bcrypt_hash (libs_of login_env) 0 ''correct horse'' = Some h \<and>
       root_credentials d' = Some \<lparr>password_hash = h, must_change_password = False\<rparr>)"
proof -
  have "\<exists>t. root_change_password login_env 0 root_demo (Some ''old'') ''correct horse'' (Some (root_db False)) = (Inr (), t)"
    by (simp add: root_change_password_def root_demo_def is_root_def with_db_def root_must_change_def root_verify_def
        change_password_def hash_or_internal_def set_root_password_def comp_defs query_calm root_db_def empty_db_def demo_bcrypt)
  then obtain t where run: "root_change_password login_env 0 root_demo (Some ''old'') ''correct horse'' (Some (root_db False)) = (Inr (), t)"
    by blast
  from root_password_change [OF run] run show ?thesis by simp
qed

theorem reauth_same_identity_witness:
  "\<exists>j t. phira_reauth login_env bob_api root_demo [] \<lparr>rr_email = None, rr_password = ''old'', rr_risk = None\<rparr>
        \<lparr>limiter = [], pool = Some (root_db False), oauth_states = []\<rparr> = (Inr j, t) \<and>
     (\<exists>d token r. Some (root_db False) = Some d \<and> get_field j ''reauth_token'' = Some (JStr token) \<and>
       encode_reauth (libs_of login_env) (jwt_secret (sec login_env))
         (reauth_claims_new (now_of login_env) 0 1 PRoot Panel r (reauth_ttl_secs (session_cfg (cfg login_env)))) = Inr token)"
proof -
  let ?s = "\<lparr>limiter = [], pool = Some (root_db False), oauth_states = []\<rparr>"
  let ?b = "\<lparr>rr_email = None, rr_password = ''old'', rr_risk = None\<rparr>"
  have "\<exists>s1. rate_check login_env (''reauth:'' @ ip_from_headers []) (reauth_per_minute (rate_limit (cfg login_env))) ?s = (Inr (), s1)
      \<and> pool s1 = Some (root_db False)"
    by (simp add: rate_check_def on_limiter_def check_def login_env_def cookie_env_def demo_env_def default_config_def
        default_rate_limit_def bucket_of_def recent_def)
  then obtain s1 where q: "rate_check login_env (''reauth:'' @ ip_from_headers []) (reauth_per_minute (rate_limit (cfg login_env))) ?s = (Inr (), s1)"
    and p: "pool s1 = Some (root_db False)" by blast
  have c: "confirm_identity login_env bob_api root_demo ?b (root_db False) = (Inr (), root_db False)"
    by (simp add: confirm_identity_def root_demo_def is_root_def root_verify_def comp_defs root_db_def empty_db_def demo_bcrypt)
  obtain j t where run: "phira_reauth login_env bob_api root_demo [] ?b ?s = (Inr j, t)"
    using q p c by (simp add: phira_reauth_def andthen_def bnd_def on_pool_def with_db_def from_result_def ret_def
        encode_reauth_def demo_bcrypt Let_def)
  from reauth_same_identity [OF run] run show ?thesis by (auto simp: root_demo_def)
qed

end
