(* ===== verification/Github.thy ===== *)
theory Github
  imports Login
begin

text \<open>
  GitHub OAuth (\<^verbatim>\<open>auth/github.rs\<close> and its handlers in \<^verbatim>\<open>auth/routes.rs\<close>): the short-lived state
  records, the exchange of a code for a GitHub user, binding an identity to the signed-in user, and
  signing in with a bound identity. GitHub's two endpoints and the JSON parser are parameters.
\<close>

section \<open>State records\<close>

definition STATE_TTL_SECS :: int where "STATE_TTL_SECS = 600"
definition MAX_PENDING_STATES :: nat where "MAX_PENDING_STATES = 2048"

definition GITHUB_AUTHORIZE_URL :: string where
  "GITHUB_AUTHORIZE_URL = ''https://github.com/login/oauth/authorize''"

type_synonym states = "(string \<times> oauth_state) list"

text \<open>A record is kept for ten minutes; one from the future is dropped.\<close>

definition prune_states :: "instant \<Rightarrow> states \<Rightarrow> states" where
  "prune_states now st =
     aretain (\<lambda>s. oa_created_at s \<le> now \<and> now - oa_created_at s < secs STATE_TTL_SECS) st"

definition pending_state :: "instant \<Rightarrow> oauth_state" where
  "pending_state now =
     \<lparr>oa_user_id = None, oa_client_type = [], oa_mode = ''pending'', oa_return_to = ''/'',
      oa_accepted_legal = False, oa_terms_version = [], oa_privacy_version = [], oa_created_at = now\<rparr>"

text \<open>The random state token is an argument.\<close>

definition authorize_url :: "env \<Rightarrow> string \<Rightarrow> (states, api_error, string \<times> string) comp" where
  "authorize_url E token st =
     (case github_client_id (sec E) of
        None \<Rightarrow> (Inl (api_error_new GithubOauthNotConfigured ''GitHub OAuth not configured''), st)
      | Some client_id \<Rightarrow>
          (let st1 = prune_states (now_of E) st in
           if MAX_PENDING_STATES \<le> length st1
           then (Inl (api_error_new RateLimited ''too many pending OAuth states''), st1)
           else (Inr (GITHUB_AUTHORIZE_URL @ ''?client_id='' @ client_id @ ''&redirect_uri='' @
                        percent_encode (libs_of E) (github_callback_url (cfg E)) @
                        ''&scope=read:user&state='' @ token, token),
                 aput token (pending_state (now_of E)) st1)))"

definition rebind_state :: "string \<Rightarrow> (oauth_state \<Rightarrow> oauth_state) \<Rightarrow> states \<Rightarrow> states" where
  "rebind_state tok f st = map (\<lambda>e. if fst e = tok then (fst e, f (snd e)) else e) st"

definition bind_state_to_user :: "string \<Rightarrow> uuid \<Rightarrow> string \<Rightarrow> states \<Rightarrow> states" where
  "bind_state_to_user tok u client_type =
     rebind_state tok (\<lambda>s. s\<lparr>oa_user_id := Some u, oa_client_type := client_type, oa_mode := ''bind'',
       oa_return_to := ''/profile''\<rparr>)"

definition mark_login_state ::
  "string \<Rightarrow> string \<Rightarrow> string \<Rightarrow> bool \<Rightarrow> string \<Rightarrow> string \<Rightarrow> states \<Rightarrow> states" where
  "mark_login_state tok return_to client_type accepted terms privacy =
     rebind_state tok (\<lambda>s. s\<lparr>oa_user_id := None, oa_client_type := client_type, oa_mode := ''login'',
       oa_return_to := return_to, oa_accepted_legal := accepted, oa_terms_version := terms,
       oa_privacy_version := privacy\<rparr>)"

definition consume_state :: "instant \<Rightarrow> string \<Rightarrow> (states, api_error, oauth_state) comp" where
  "consume_state now tok st =
     (let st1 = prune_states now st in
      case aget st1 tok of
        None \<Rightarrow> (Inl (api_error_new GithubOauthStateInvalid ''GitHub OAuth state is invalid or expired''), st1)
      | Some s \<Rightarrow> (Inr s, adel tok st1))"

section \<open>GitHub\<close>

record github_user =
  gh_id :: int
  gh_login :: string

text \<open>The token endpoint's reply to a form (\<open>None\<close>: not reachable), the JSON parser, and the user
  endpoint's reply to a bearer token (\<open>None\<close>: not reachable, \<open>Some None\<close>: not JSON).\<close>

record github_http =
  token_post :: "(string \<times> string) list \<Rightarrow> string option"
  parse_json :: "string \<Rightarrow> json option"
  user_get :: "string \<Rightarrow> json option option"

definition optional_string :: "json \<Rightarrow> string \<Rightarrow> unit + string option" where
  "optional_string j k =
     (case get_field j k of
        None \<Rightarrow> Inr None
      | Some v \<Rightarrow> (case v of JNull \<Rightarrow> Inr None | JStr s \<Rightarrow> Inr (Some s) | _ \<Rightarrow> Inl ()))"

definition token_response :: "json \<Rightarrow> (string option \<times> string option) option" where
  "token_response j =
     (case (as_object j, optional_string j ''access_token'', optional_string j ''error'') of
        (Some _, Inr a, Inr e) \<Rightarrow> Some (a, e) | _ \<Rightarrow> None)"

definition github_user_of_json :: "json \<Rightarrow> github_user option" where
  "github_user_of_json j =
     (case (int_field j ''id'', string_field j ''login'') of
        (Some i, Some l) \<Rightarrow> Some \<lparr>gh_id = i, gh_login = l\<rparr> | _ \<Rightarrow> None)"

definition not_configured :: api_error where
  "not_configured = api_error_new GithubOauthNotConfigured ''GitHub OAuth not configured''"

definition gh_unavailable :: api_error where
  "gh_unavailable = api_error_new GithubApiUnavailable ''GitHub is temporarily unavailable''"

definition gh_failed :: api_error where
  "gh_failed = api_error_new GithubOauthFailed ''GitHub OAuth exchange failed''"

definition exchange_code :: "github_http \<Rightarrow> secrets \<Rightarrow> string \<Rightarrow> string \<Rightarrow> api_error + github_user" where
  "exchange_code H s grant callback_url =
     (case (github_client_id s, github_client_secret s) of
        (Some cid, Some cs) \<Rightarrow>
          (case token_post H [(''client_id'', cid), (''client_secret'', cs), (''code'', grant), (''redirect_uri'', callback_url)] of
             None \<Rightarrow> Inl gh_unavailable
           | Some reply \<Rightarrow>
               (case Option.bind (parse_json H reply) token_response of
                  None \<Rightarrow> Inl gh_failed
                | Some (_, Some err) \<Rightarrow> Inl gh_failed
                | Some (None, None) \<Rightarrow> Inl gh_failed
                | Some (Some access_token, None) \<Rightarrow>
                    (case user_get H access_token of
                       None \<Rightarrow> Inl gh_unavailable
                     | Some reply2 \<Rightarrow>
                         (case Option.bind reply2 github_user_of_json of
                            None \<Rightarrow> Inl (api_error_new GithubOauthFailed ''GitHub returned an invalid OAuth response'')
                          | Some u \<Rightarrow> Inr u))))
      | _ \<Rightarrow> Inl not_configured)"

section \<open>Handlers\<close>

definition on_states :: "(states, 'e, 'a) comp \<Rightarrow> (app_state, 'e, 'a) comp" where
  "on_states m s = (case m (oauth_states s) of (r, st) \<Rightarrow> (r, s\<lparr>oauth_states := st\<rparr>))"

definition edit_states :: "(states \<Rightarrow> states) \<Rightarrow> (app_state, 'e, unit) comp" where
  "edit_states f s = (Inr (), s\<lparr>oauth_states := f (oauth_states s)\<rparr>)"

record redirect =
  location :: string
  cookies :: "string list"

definition header_value :: "string \<Rightarrow> string option" where
  "header_value v = (if list_all visible v then Some v else None)"

definition github_start ::
  "env \<Rightarrow> string \<Rightarrow> auth_principal \<Rightarrow> headers \<Rightarrow> (app_state, api_error, json) comp" where
  "github_start E token a hs =
     (if is_root a then throw permission_denied
      else if \<not> github_configured (sec E) then throw not_configured
      else
        andthen (rate_check E (''github-bind-start:'' @ uuid_text (libs_of E) (sub a) @ '':'' @ ip_from_headers hs)
                   (github_start_per_minute (rate_limit (cfg E))))
       (andthen (rate_check E ''github-provider:start'' (github_provider_per_minute (rate_limit (cfg E))))
       (bnd (on_states (authorize_url E token)) (\<lambda>us.
        andthen (edit_states (bind_state_to_user (snd us) (sub a) (show_client (client a))))
          (ret (JObj [(''authorize_url'', JStr (fst us)), (''state'', JStr (snd us))]))))))"

record github_login_params =
  gl_return_to :: "string option"
  gl_client_type :: "string option"
  gl_accepted :: "bool option"
  gl_terms_version :: "string option"
  gl_privacy_version :: "string option"

definition github_login_start ::
  "env \<Rightarrow> string \<Rightarrow> headers \<Rightarrow> github_login_params \<Rightarrow> (app_state, api_error, redirect) comp" where
  "github_login_start E token hs p =
     (if \<not> github_configured (sec E) then throw not_configured
      else
        bnd (some_or (parse_client (unwrap_or (gl_client_type p) ''ppf'')) (validation ''invalid client_type'')) (\<lambda>c.
        if c \<noteq> Ppf \<and> c \<noteq> Panel then throw (validation ''GitHub web login supports ppf/panel clients only'')
        else
          andthen (rate_check E (''github-login-start:'' @ show_client c @ '':'' @ ip_from_headers hs)
                     (github_start_per_minute (rate_limit (cfg E))))
         (andthen (rate_check E ''github-provider:start'' (github_provider_per_minute (rate_limit (cfg E))))
         (let return_to = unwrap_or (gl_return_to p) (if c = Panel then ''/'' else ''/profile'');
              accepted = (gl_accepted p = Some True) in
          andthen (from_result (validate_return_to (return_to_allowlist (cfg E)) return_to))
         (bnd (from_result (current_versions (legal (cfg E)))) (\<lambda>current.
          bnd (from_result (if accepted
                 then validate_acceptance (legal (cfg E)) True (gl_terms_version p) (gl_privacy_version p)
                 else Inr current)) (\<lambda>versions.
          bnd (on_states (authorize_url E token)) (\<lambda>us.
          andthen (edit_states (mark_login_state (snd us) return_to (show_client c) accepted
                     (la_terms versions) (la_privacy versions)))
            (bnd (some_or (header_value (fst us)) (validation ''invalid GitHub authorize URL'')) (\<lambda>l.
             ret \<lparr>location = l, cookies = []\<rparr>))))))))))"

definition github_gateway_error_redirect ::
  "env \<Rightarrow> string \<Rightarrow> string \<times> string \<times> error_code \<Rightarrow> api_error + redirect" where
  "github_gateway_error_redirect E rid w =
     (case w of (client_type, return_to, c) \<Rightarrow>
       (case header_value (''/auth/phira/login?client_type='' @
               (if client_type = ''panel'' then ''panel'' else ''ppf'') @
               ''&return_to='' @ percent_encode (libs_of E) return_to @ ''&intent=github&error='' @ as_str c @
               ''&request_id='' @ percent_encode (libs_of E) rid) of
          Some l \<Rightarrow> Inr \<lparr>location = l, cookies = []\<rparr>
        | None \<Rightarrow> Inl internal))"

record github_callback_params =
  gc_code :: "string option"
  gc_state :: "string option"
  gc_error :: "string option"

definition nonblank :: "string option \<Rightarrow> string option" where
  "nonblank v = (case v of Some x \<Rightarrow> if trim x \<noteq> [] then Some x else None | None \<Rightarrow> None)"

text \<open>Once the state record is known, every failure goes back to the page it names; the error of the
  computation is the arguments of that redirect.\<close>

definition callback_login ::
  "env \<Rightarrow> fresh \<Rightarrow> oauth_state \<Rightarrow> identity option \<Rightarrow> (db, string \<times> string \<times> error_code, redirect) comp" where
  "callback_login E F o1 existing =
     (let fail = (\<lambda>e. (oa_client_type o1, oa_return_to o1, code e)) in
      bnd (some_or existing (oa_client_type o1, oa_return_to o1, GithubIdentityNotBound)) (\<lambda>i.
      bnd (case parse_client (oa_client_type o1) of
             Some Ppf \<Rightarrow> ret Ppf | Some Panel \<Rightarrow> ret Panel
           | _ \<Rightarrow> throw (''ppf'', ''/profile'', GithubOauthStateInvalid)) (\<lambda>c.
      bnd (map_err fail (acceptance_for_login (Some (i_user_id i)) (legal (cfg E)) (oa_accepted_legal o1)
             (Some (oa_terms_version o1)) (Some (oa_privacy_version o1)))) (\<lambda>la.
      andthen (case la of Some x \<Rightarrow> map_err fail (record_acceptance (i_user_id i) c x ''github_login'') | None \<Rightarrow> ret ())
     (bnd (map_err fail (issue_session_and_jwt E (new_session_id F) (new_random F) PUser (Some (i_user_id i)) c ''github-web'' [])) (\<lambda>issued.
      let (ac, rc) = issue_cookies (session_cfg (cfg E)) (fst (snd issued)) (snd (snd issued)) in
      bnd (some_or (header_value (resolve_redirect_target (site (cfg E)) (return_to_allowlist (cfg E))
             (oa_client_type o1) (Some (oa_return_to o1))))
             (oa_client_type o1, oa_return_to o1, InternalError)) (\<lambda>l.
      ret \<lparr>location = l, cookies = [ac, rc]\<rparr>)))))))"

definition callback_bind ::
  "env \<Rightarrow> github_user \<Rightarrow> oauth_state \<Rightarrow> identity option \<Rightarrow> (db, string \<times> string \<times> error_code, redirect) comp" where
  "callback_bind E g o1 existing =
     bnd (some_or (oa_user_id o1) (oa_client_type o1, oa_return_to o1, GithubOauthStateInvalid)) (\<lambda>u.
     andthen (case existing of
                Some i \<Rightarrow> ensure (i_user_id i = u) (oa_client_type o1, oa_return_to o1, ResourceConflict)
              | None \<Rightarrow> ret ())
    (andthen (map_err (\<lambda>e. (oa_client_type o1, oa_return_to o1, code e)) (bind_github u (show_int (gh_id g)) (gh_login g)))
    (bnd (some_or (header_value (trim_end_slashes (ppf_url (site (cfg E))) @ ''/profile?github=bound''))
            (''ppf'', ''/profile'', InternalError)) (\<lambda>l.
     ret \<lparr>location = l, cookies = []\<rparr>))))"

definition callback_db ::
  "env \<Rightarrow> fresh \<Rightarrow> github_user \<Rightarrow> oauth_state \<Rightarrow> (db, string \<times> string \<times> error_code, redirect) comp" where
  "callback_db E F g o1 =
     bnd (map_err (\<lambda>e. (oa_client_type o1, oa_return_to o1, code e)) (find_by_provider ''github'' (show_int (gh_id g)))) (\<lambda>existing.
     if oa_mode o1 = ''login'' then callback_login E F o1 existing else callback_bind E g o1 existing)"

definition on_configured_pool ::
  "'e \<Rightarrow> (db, 'e, 'a) comp \<Rightarrow> (app_state, 'e, 'a) comp" where
  "on_configured_pool e m s =
     (case pool s of
        None \<Rightarrow> (Inl e, s)
      | Some d \<Rightarrow> (case m d of (r, d') \<Rightarrow> (r, s\<lparr>pool := Some d'\<rparr>)))"

text \<open>What happens once the state token has been consumed.\<close>

definition callback_consumed ::
  "env \<Rightarrow> fresh \<Rightarrow> github_http \<Rightarrow> github_callback_params \<Rightarrow> oauth_state \<Rightarrow>
    (app_state, string \<times> string \<times> error_code, redirect) comp" where
  "callback_consumed E F H p o1 =
     andthen (ensure (gc_error p = None) (oa_client_type o1, oa_return_to o1, GithubOauthFailed))
    (bnd (some_or (nonblank (gc_code p)) (oa_client_type o1, oa_return_to o1, GithubOauthFailed)) (\<lambda>grant.
     bnd (map_err (\<lambda>e. (oa_client_type o1, oa_return_to o1, code e))
            (from_result (exchange_code H (sec E) grant (github_callback_url (cfg E))))) (\<lambda>g.
     on_configured_pool (oa_client_type o1, oa_return_to o1, InternalError) (callback_db E F g o1))))"

definition callback_body ::
  "env \<Rightarrow> fresh \<Rightarrow> github_http \<Rightarrow> headers \<Rightarrow> github_callback_params \<Rightarrow>
    (app_state, string \<times> string \<times> error_code, redirect) comp" where
  "callback_body E F H hs p =
     (let fail = (\<lambda>e. (''ppf'', ''/profile'', code e)) in
      andthen (map_err fail (rate_check E (''github-callback:'' @ ip_from_headers hs) (github_callback_per_minute (rate_limit (cfg E)))))
     (andthen (map_err fail (rate_check E ''github-provider:callback'' (github_provider_per_minute (rate_limit (cfg E)))))
     (bnd (some_or (nonblank (gc_state p)) (''ppf'', ''/profile'', GithubOauthStateInvalid)) (\<lambda>tok.
      bnd (map_err fail (on_states (consume_state (now_of E) tok))) (callback_consumed E F H p)))))"

definition github_callback ::
  "env \<Rightarrow> fresh \<Rightarrow> github_http \<Rightarrow> string \<Rightarrow> headers \<Rightarrow> github_callback_params \<Rightarrow> (app_state, api_error, redirect) comp" where
  "github_callback E F H rid hs p s =
     (case callback_body E F H hs p s of
        (Inr r, t) \<Rightarrow> (Inr r, t)
      | (Inl w, t) \<Rightarrow> (github_gateway_error_redirect E rid w, t))"

definition github_unbind :: "auth_principal \<Rightarrow> (db option, api_error, unit) comp" where
  "github_unbind a =
     (if is_root a then throw permission_denied
      else with_db (
        bnd (list_for_user (sub a)) (\<lambda>ids.
          for_each ids (\<lambda>i. if provider i = ''github'' then unbind_github (sub a) (provider_id i) else ret ()))))"


section \<open>State records live once and briefly\<close>

text \<open>The operations on the table of pending states, with the tokens that are not issued again.\<close>

inductive oauth_step :: "string set \<Rightarrow> states \<Rightarrow> states \<Rightarrow> bool" for spent where
  issue: "tok \<notin> spent \<Longrightarrow> authorize_url E tok st = (r, st') \<Longrightarrow> oauth_step spent st st'"
| bind_user: "oauth_step spent st (bind_state_to_user tok u c st)"
| mark_login: "oauth_step spent st (mark_login_state tok rt c acc tv pv st)"
| consume: "consume_state now tok st = (r, st') \<Longrightarrow> oauth_step spent st st'"

inductive_cases oauth_stepE: "oauth_step spent st st'"

definition pending_ok :: "states \<Rightarrow> bool" where
  "pending_ok st \<longleftrightarrow> akeys st \<and> length st \<le> MAX_PENDING_STATES"

lemma prune_ok: "pending_ok st \<Longrightarrow> pending_ok (prune_states now st)"
  unfolding pending_ok_def prune_states_def
proof
  assume ok: "akeys st \<and> length st \<le> MAX_PENDING_STATES"
  then show "akeys (aretain P st)" for P by (simp add: akeys_retain)
  have "length (aretain P st) \<le> length st" for P by (simp add: aretain_def)
  with ok show "length (aretain P st) \<le> MAX_PENDING_STATES" for P using le_trans by blast
qed

lemma update_state_keys [simp]: "map fst (rebind_state tok f st) = map fst st"
  by (induction st) (auto simp: rebind_state_def)

lemma update_state_key_set [simp]: "fst ` set (rebind_state tok f st) = fst ` set st"
  using update_state_keys by (metis list.set_map)

lemma update_state_ok [simp]: "pending_ok (rebind_state tok f st) = pending_ok st"
proof -
  have "length (rebind_state tok f st) = length st" by (simp add: rebind_state_def)
  then show ?thesis by (simp add: pending_ok_def akeys_def)
qed

lemma authorize_state:
  assumes "authorize_url E tok st = (r, st')"
  shows "st' = st \<or> st' = prune_states (now_of E) st \<or>
    length (prune_states (now_of E) st) < MAX_PENDING_STATES \<and> st' = aput tok (pending_state (now_of E)) (prune_states (now_of E) st)"
  using assms by (auto simp: authorize_url_def Let_def split: option.splits if_splits)

lemma consume_prunes:
  assumes "consume_state now tok st = (r, st')"
  shows "st' = prune_states now st \<or> st' = adel tok (prune_states now st)"
  using assms by (auto simp: consume_state_def Let_def split: option.splits)

interpretation pending: invariant_system "\<lambda>st. st = []" "oauth_step spent" pending_ok for spent
proof
  show "pending_ok st" if "st = []" for st using that by (simp add: pending_ok_def akeys_def)
  fix st st' assume ok: "pending_ok st" and "oauth_step spent st st'"
  from this(2) show "pending_ok st'"
  proof (cases rule: oauth_step.cases)
    case (issue tok E r)
    have "pending_ok (aput tok v m)" if "pending_ok m" "length m < MAX_PENDING_STATES" for v m
      using that length_adel_le [of tok m] by (simp add: pending_ok_def) (simp add: aput_def)
    with authorize_state [OF issue(2)] ok show ?thesis using prune_ok by metis
  next
    case (consume now tok r)
    have "pending_ok (adel tok m)" if "pending_ok m" for m
      using that le_trans [OF length_adel_le] by (auto simp: pending_ok_def akeys_adel)
    with consume_prunes [OF consume] ok show ?thesis using prune_ok by metis
  qed (simp_all add: ok bind_state_to_user_def mark_login_state_def)
qed

lemma aget_keys: "aget st tok = None \<longleftrightarrow> tok \<notin> fst ` set st"
  by (simp add: aget_def map_of_eq_None_iff)

lemma prune_keys: "tok \<notin> fst ` set st \<Longrightarrow> tok \<notin> fst ` set (prune_states now st)"
  by (auto simp: prune_states_def aretain_def)

lemma spent_stays:
  assumes "(oauth_step {tok})\<^sup>*\<^sup>* st st'" and "tok \<notin> fst ` set st"
  shows "tok \<notin> fst ` set st'"
  using assms
proof (induction rule: rtranclp_induct)
  case (step y z)
  from step(2) step(3) [OF step(4)] show ?case
  proof (cases rule: oauth_step.cases)
    case (issue t E r)
    have "tok \<notin> fst ` set (prune_states (now_of E) y)" by (rule prune_keys [OF step(3) [OF step(4)]])
    moreover from this have "tok \<notin> fst ` set (aput t v (prune_states (now_of E) y))" for v
      using issue(1) by (auto simp: aput_def adel_def)
    ultimately show ?thesis using authorize_state [OF issue(2)] step(3) [OF step(4)] by metis
  next
    case (bind_user t u c)
    with step(3) [OF step(4)] show ?thesis by (simp add: bind_state_to_user_def)
  next
    case (mark_login t rt c acc tv pv)
    with step(3) [OF step(4)] show ?thesis by (simp add: mark_login_state_def)
  next
    case (consume now t r)
    have "tok \<notin> fst ` set (prune_states now y)" by (rule prune_keys [OF step(3) [OF step(4)]])
    with consume_prunes [OF consume] show ?thesis by (auto simp: adel_def)
  qed
qed

text \<open>C21: in every history of the table there are at most 2048 pending states; a state is accepted only
  if it is in the table and less than ten minutes old; and once accepted it is never accepted again,
  whatever happens to the table, unless the same random token is issued a second time.\<close>

theorem oauth_state_once:
  assumes "reachable (\<lambda>st. st = []) (oauth_step {}) st"
    and "consume_state now tok st = (Inr o1, st1)"
  shows "length st \<le> 2048 \<and> (tok, o1) \<in> set st \<and>
    0 \<le> now - oa_created_at o1 \<and> now - oa_created_at o1 < secs 600 \<and>
    (\<forall>st2 later. (oauth_step {tok})\<^sup>*\<^sup>* st1 st2 \<longrightarrow>
       fst (consume_state later tok st2) = Inl (api_error_new GithubOauthStateInvalid ''GitHub OAuth state is invalid or expired''))"
proof -
  have ok: "pending_ok st" by (rule pending.reachable_inv [OF assms(1)])
  have got: "aget (prune_states now st) tok = Some o1" and st1: "st1 = adel tok (prune_states now st)"
    using assms(2) by (auto simp: consume_state_def Let_def split: option.splits)
  have mem: "(tok, o1) \<in> set (prune_states now st)" using got by (simp add: aget_def map_of_SomeD)
  have gone: "fst (consume_state later tok st2) = Inl (api_error_new GithubOauthStateInvalid ''GitHub OAuth state is invalid or expired'')"
    if "(oauth_step {tok})\<^sup>*\<^sup>* st1 st2" for st2 later
  proof -
    have "tok \<notin> fst ` set st2" by (rule spent_stays [OF that]) (auto simp: st1 adel_def)
    then have "aget (prune_states later st2) tok = None" using prune_keys aget_keys by metis
    then show ?thesis by (simp add: consume_state_def)
  qed
  show ?thesis
    using ok mem gone by (auto simp: pending_ok_def MAX_PENDING_STATES_def prune_states_def aretain_def STATE_TTL_SECS_def)
qed

lemma demo_consume:
  "consume_state 5 ''t'' [(''t'', pending_state 0)] = (Inr (pending_state 0), [])"
  by (simp add: consume_state_def prune_states_def aretain_def aget_def adel_def pending_state_def secs_def STATE_TTL_SECS_def)

definition github_env :: env where
  "github_env = login_env\<lparr>sec := (sec login_env)\<lparr>github_client_id := Some ''id'', github_client_secret := Some ''s''\<rparr>\<rparr>"

lemma demo_pending: "reachable (\<lambda>st. st = []) (oauth_step {}) [(''t'', pending_state 0)]"
proof (rule reachable.move [OF reachable.start])
  have "now_of github_env = 0" by (simp add: github_env_def login_env_def cookie_env_def demo_env_def)
  then have "\<exists>r. authorize_url github_env ''t'' [] = (r, [(''t'', pending_state 0)])"
    by (simp add: authorize_url_def github_env_def prune_states_def aretain_def MAX_PENDING_STATES_def aput_def adel_def)
  then show "oauth_step {} [] [(''t'', pending_state 0)]" using oauth_step.issue by blast
qed simp

theorem oauth_state_once_witness:
  "(''t'', pending_state 0) \<in> set [(''t'', pending_state 0)] \<and>
   fst (consume_state 6 ''t'' []) = Inl (api_error_new GithubOauthStateInvalid ''GitHub OAuth state is invalid or expired'')"
  using oauth_state_once [OF demo_pending demo_consume] by blast


section \<open>Only the owner of an identity gets anything\<close>

text \<open>What a callback may do to the tables: no user row changes, no identity disappears or moves, new
  identities belong to \<open>binder\<close> and new sessions to \<open>entrant\<close>.\<close>

definition confined :: "uuid option \<Rightarrow> uuid option \<Rightarrow> db \<Rightarrow> db \<Rightarrow> bool" where
  "confined binder entrant d d' \<longleftrightarrow>
     users d' = users d \<and> set (user_identities d) \<subseteq> set (user_identities d') \<and>
     (\<forall>i \<in> set (user_identities d'). i \<in> set (user_identities d) \<or> binder = Some (i_user_id i)) \<and>
     (\<forall>s \<in> set (sessions d'). s \<in> set (sessions d) \<or> entrant \<noteq> None \<and> s_user_id s = entrant)"

interpretation confinement: table_frame "confined b e" for b e
proof
  show "confined b e d d''" if "confined b e d d'" "confined b e d' d''" for d d' d''
    using that unfolding confined_def by (metis subset_trans)
qed (auto simp: confined_def)

lemma confined_record_acceptance: "obeys (confined b e) (record_acceptance u c la src)"
  unfolding record_acceptance_def
  by (intro confinement.table_intros confinement.obeys_query) (auto simp: insert_acceptance_def confined_def split: if_splits)

lemma confined_bind_github: "obeys (confined (Some u) e) (bind_github u gid name)"
  unfolding bind_github_def
  by (intro confinement.table_intros confinement.obeys_query)
    (auto simp: upsert_identity_def confined_def split: if_splits)

lemma confined_issue: "obeys (confined b (Some u)) (issue_session_and_jwt E i r p (Some u) c dev ip)"
  unfolding issue_session_and_jwt_def create_session_def Let_def
  by (intro confinement.table_intros confinement.obeys_query)
    (auto simp: insert_session_def confined_def split: if_splits)

lemma confined_login: "obeys (confined b (Some (i_user_id i))) (callback_login E F o1 (Some i))"
  unfolding callback_login_def Let_def acceptance_for_login_def has_current_acceptance_def split_beta
  by (simp add: some_or_def [of "Some i"], intro confinement.table_intros confined_record_acceptance confined_issue)
    (auto split: option.splits client_type.splits intro: confinement.table_intros)

lemma confined_no_login: "obeys (confined b e) (callback_login E F o1 None)"
  unfolding callback_login_def Let_def by (simp add: some_or_def confinement.obeys_throw)

lemma confined_bind: "obeys (confined (oa_user_id o1) e) (callback_bind E g o1 existing)"
proof (cases "oa_user_id o1")
  case None
  then show ?thesis by (simp add: callback_bind_def some_or_def confinement.obeys_throw)
next
  case (Some u)
  then show ?thesis
    unfolding callback_bind_def
    by (simp add: some_or_def [of "Some u"]) (intro confinement.table_intros confined_bind_github)
qed

lemma callback_db_confined:
  assumes "callback_db E F g o1 d = (r, t)"
  shows "\<exists>e. confined (if oa_mode o1 = ''login'' then None else oa_user_id o1) e d t \<and>
    (\<forall>u. e = Some u \<longrightarrow> oa_mode o1 = ''login'' \<and>
       (\<exists>i \<in> set (user_identities d). provider i = ''github'' \<and> provider_id i = show_int (gh_id g) \<and> i_user_id i = u))"
proof -
  let ?find = "map_err (\<lambda>e. (oa_client_type o1, oa_return_to o1, code e)) (find_by_provider ''github'' (show_int (gh_id g)))"
  obtain q d1 where q: "?find d = (q, d1)" by (cases "?find d")
  have d1: "untouched d d1"
    using q unfolding find_by_provider_def by (rule obeys_run [rotated]) (intro reader.table_intros)
  then have same: "confined b e d d1" for b e by (auto simp: untouched_def confined_def)
  show ?thesis
  proof (cases q)
    case (Inl x)
    with q assms have "t = d1" by (simp add: callback_db_def bnd_def)
    with same [of _ None] show ?thesis by (intro exI [of _ None]) simp
  next
    case (Inr found)
    have row: "found = find (\<lambda>i. provider i = ''github'' \<and> provider_id i = show_int (gh_id g)) (user_identities d)"
      using q Inr by (auto simp: find_by_provider_def dest!: select_InrD)
    have rest: "(if oa_mode o1 = ''login'' then callback_login E F o1 found else callback_bind E g o1 found) d1 = (r, t)"
      using assms q Inr by (simp add: callback_db_def bnd_def)
    show ?thesis
    proof (cases "oa_mode o1 = ''login''")
      case login: True
      show ?thesis
      proof (cases found)
        case None
        with rest login have "confined None None d1 t" using obeys_run [OF confined_no_login] by simp
        with same have "confined None None d t" using confinement.trans_R by blast
        with login show ?thesis by (intro exI [of _ None]) simp
      next
        case (Some i)
        with rest login have "confined None (Some (i_user_id i)) d1 t" using obeys_run [OF confined_login] by simp
        moreover have "i \<in> set (user_identities d) \<and> provider i = ''github'' \<and> provider_id i = show_int (gh_id g)"
          using find_SomeD [OF row [symmetric, unfolded Some]] by blast
        moreover from calculation(1) same have "confined None (Some (i_user_id i)) d t" using confinement.trans_R by blast
        ultimately show ?thesis
          using login by (intro exI [of _ "Some (i_user_id i)"]) auto
      qed
    next
      case False
      with rest have "confined (oa_user_id o1) None d1 t" using obeys_run [OF confined_bind] by simp
      with same have "confined (oa_user_id o1) None d t" using confinement.trans_R by blast
      with False show ?thesis by (intro exI [of _ None]) simp
    qed
  qed
qed


lemma callback_consumed_moved:
  assumes "callback_consumed E F H p o1 s = (r, t)" and "pool s = Some d" and "pool t \<noteq> Some d"
  shows "\<exists>grant g r' d'. gc_error p = None \<and> gc_code p = Some grant \<and>
    exchange_code H (sec E) grant (github_callback_url (cfg E)) = Inr g \<and>
    callback_db E F g o1 d = (r', d') \<and> pool t = Some d'"
  using assms
  by (auto simp: callback_consumed_def comp_defs nonblank_def on_configured_pool_def
      split: if_splits option.splits sum.splits prod.splits)

text \<open>A run that changes a component of the state got past every step that leaves it alone.\<close>

lemma bnd_moved:
  assumes "bnd m f s = (r, t)" and "g t \<noteq> g s" and "\<And>x u. m s = (x, u) \<Longrightarrow> g u = g s"
  obtains a u where "m s = (Inr a, u)" and "g u = g s" and "f a u = (r, t)"
  using assms by (cases "m s"; cases "fst (m s)") (auto simp: bnd_def)

lemma map_err_state: "map_err h m s = (r, t) \<Longrightarrow> \<exists>q. m s = (q, t)"
  by (auto simp: map_err_def split: prod.splits sum.splits)

lemma rate_step:
  assumes "andthen (map_err h (rate_check E k n)) m s = (r, t)" and "pool t \<noteq> pool s"
  obtains u where "m u = (r, t)" and "pool u = pool s" and "oauth_states u = oauth_states s"
proof -
  obtain a u where a: "map_err h (rate_check E k n) s = (Inr a, u)" and m: "m u = (r, t)"
    using assms(1) unfolding andthen_def
    by (rule bnd_moved [where g = pool]) (use assms(2) in \<open>auto dest!: map_err_state rate_check_pool\<close>)
  have "pool u = pool s \<and> oauth_states u = oauth_states s"
    using map_err_state [OF a] rate_check_pool by auto
  with m show thesis using that by simp
qed

lemma callback_body_moved:
  assumes run: "callback_body E F H hs p s = (r, t)" and d: "pool s = Some d" and moved: "pool t \<noteq> Some d"
  shows "\<exists>tok o1 st1 s1. gc_state p = Some tok \<and> consume_state (now_of E) tok (oauth_states s) = (Inr o1, st1) \<and>
    pool s1 = Some d \<and> callback_consumed E F H p o1 s1 = (r, t)"
proof -
  let ?fail = "\<lambda>e. (''ppf'', ''/profile'', code e)"
  let ?rest = "bnd (some_or (nonblank (gc_state p)) (''ppf'', ''/profile'', GithubOauthStateInvalid)) (\<lambda>tok.
      bnd (map_err ?fail (on_states (consume_state (now_of E) tok))) (callback_consumed E F H p))"
  from run moved d obtain s1 where
    s1: "andthen (map_err ?fail (rate_check E ''github-provider:callback'' (github_provider_per_minute (rate_limit (cfg E))))) ?rest s1 = (r, t)"
    "pool s1 = Some d" "oauth_states s1 = oauth_states s"
    unfolding callback_body_def Let_def by (auto elim: rate_step)
  then obtain s2 where s2: "?rest s2 = (r, t)" "pool s2 = Some d" "oauth_states s2 = oauth_states s"
    using moved by (auto elim: rate_step)
  with moved show ?thesis
    by (auto simp: comp_defs nonblank_def on_states_def split: if_splits option.splits sum.splits prod.splits)
      (rule exI, rule conjI [rotated], assumption, simp)
qed

text \<open>C15: the GitHub callback creates no account and moves no identity. User rows and existing identities
  stay as they are; an identity is added only for the user who started the binding with the state token
  presented; a session is added only in login mode, for the user to whom the GitHub account that the
  exchange returned was already bound.\<close>

theorem github_callback_confined:
  assumes "github_callback E F H rid hs p s = (r, t)" and "pool s = Some d"
  shows "\<exists>d'. pool t = Some d' \<and> users d' = users d \<and> set (user_identities d) \<subseteq> set (user_identities d') \<and>
    (\<forall>i \<in> set (user_identities d'). i \<in> set (user_identities d) \<or>
       (\<exists>tok o1 st1. gc_state p = Some tok \<and> consume_state (now_of E) tok (oauth_states s) = (Inr o1, st1) \<and>
          oa_mode o1 \<noteq> ''login'' \<and> oa_user_id o1 = Some (i_user_id i))) \<and>
    (\<forall>n \<in> set (sessions d'). n \<in> set (sessions d) \<or>
       (\<exists>tok o1 st1 grant g i. gc_state p = Some tok \<and> consume_state (now_of E) tok (oauth_states s) = (Inr o1, st1) \<and>
          oa_mode o1 = ''login'' \<and> gc_code p = Some grant \<and>
          exchange_code H (sec E) grant (github_callback_url (cfg E)) = Inr g \<and>
          i \<in> set (user_identities d) \<and> provider i = ''github'' \<and> provider_id i = show_int (gh_id g) \<and>
          s_user_id n = Some (i_user_id i)))"
proof (cases "pool t = Some d")
  case True
  then show ?thesis by (intro exI [of _ d]) auto
next
  case False
  obtain q where "callback_body E F H hs p s = (q, t)"
    using assms(1) by (auto simp: github_callback_def split: prod.splits sum.splits)
  then obtain tok o1 st1 s1 where st: "gc_state p = Some tok" "consume_state (now_of E) tok (oauth_states s) = (Inr o1, st1)"
    and s1: "pool s1 = Some d" "callback_consumed E F H p o1 s1 = (q, t)"
    using callback_body_moved assms(2) False by metis
  then obtain grant g r' d' where g: "gc_code p = Some grant" "exchange_code H (sec E) grant (github_callback_url (cfg E)) = Inr g"
    and db: "callback_db E F g o1 d = (r', d')" and t: "pool t = Some d'"
    using callback_consumed_moved [OF s1(2,1) False] by blast
  from callback_db_confined [OF db] obtain e where
    c: "confined (if oa_mode o1 = ''login'' then None else oa_user_id o1) e d d'"
    and e: "\<And>u. e = Some u \<Longrightarrow> oa_mode o1 = ''login'' \<and>
       (\<exists>i \<in> set (user_identities d). provider i = ''github'' \<and> provider_id i = show_int (gh_id g) \<and> i_user_id i = u)"
    by blast
  have ids: "\<exists>tok o1 st1. gc_state p = Some tok \<and> consume_state (now_of E) tok (oauth_states s) = (Inr o1, st1) \<and>
          oa_mode o1 \<noteq> ''login'' \<and> oa_user_id o1 = Some (i_user_id i)"
    if "i \<in> set (user_identities d')" "i \<notin> set (user_identities d)" for i
    using that c st by (auto simp: confined_def split: if_splits)
  have ses: "\<exists>tok o1 st1 grant g i. gc_state p = Some tok \<and> consume_state (now_of E) tok (oauth_states s) = (Inr o1, st1) \<and>
          oa_mode o1 = ''login'' \<and> gc_code p = Some grant \<and>
          exchange_code H (sec E) grant (github_callback_url (cfg E)) = Inr g \<and>
          i \<in> set (user_identities d) \<and> provider i = ''github'' \<and> provider_id i = show_int (gh_id g) \<and>
          s_user_id n = Some (i_user_id i)"
    if n: "n \<in> set (sessions d')" "n \<notin> set (sessions d)" for n
  proof -
    from n c have "e \<noteq> None \<and> s_user_id n = e" by (auto simp: confined_def)
    then obtain u where u: "e = Some u" "s_user_id n = Some u" by auto
    with e [OF u(1)] st g show ?thesis by metis
  qed
  show ?thesis
    using t c ids ses by (intro exI [of _ d']) (auto simp: confined_def)
qed


definition demo_http :: github_http where
  "demo_http = \<lparr>token_post = (\<lambda>_. Some ''reply''), parse_json = (\<lambda>_. Some (JObj [(''access_token'', JStr ''a'')])),
     user_get = (\<lambda>_. Some (Some (JObj [(''id'', JInt 5), (''login'', JStr ''octo'')])))\<rparr>"

definition binding_state :: app_state where
  "binding_state = \<lparr>limiter = [], pool = Some demo_db,
     oauth_states = bind_state_to_user ''t'' 7 ''ppf'' [(''t'', pending_state 0)]\<rparr>"

definition binding_params :: github_callback_params where
  "binding_params = \<lparr>gc_code = Some ''c'', gc_state = Some ''t'', gc_error = None\<rparr>"

lemma demo_exchange: "exchange_code demo_http (sec github_env) grant url = Inr \<lparr>gh_id = 5, gh_login = ''octo''\<rparr>"
  by (simp add: exchange_code_def demo_http_def github_env_def token_response_def optional_string_def field_defs
      github_user_of_json_def i64_range_def)

definition bound_db :: db where
  "bound_db = demo_db\<lparr>user_identities :=
     [\<lparr>i_user_id = 7, provider = ''github'', provider_id = show_int 5, provider_name = ''octo''\<rparr>]\<rparr>"

definition binding_oauth :: oauth_state where
  "binding_oauth = (pending_state 0)\<lparr>oa_user_id := Some 7, oa_client_type := ''ppf'', oa_mode := ''bind'', oa_return_to := ''/profile''\<rparr>"

lemma demo_binds:
  "\<exists>r. callback_db github_env bob_fresh \<lparr>gh_id = 5, gh_login = ''octo''\<rparr> binding_oauth demo_db = (r, bound_db)"
  by (simp add: callback_db_def callback_bind_def binding_oauth_def pending_state_def bound_db_def
      find_by_provider_def bind_github_def upsert_identity_def comp_defs query_calm demo_db_def empty_db_def
      split: option.splits)

lemma rate_first:
  assumes "aget (limiter s) k = None" and "0 < n"
  shows "rate_check E k n s = (Inr (), s\<lparr>limiter := aput k [now_secs (now_of E)] (limiter s)\<rparr>)"
  using assms by (simp add: rate_check_def on_limiter_def check_def bucket_of_def recent_def)

lemma demo_trims: "trim ''c'' = ''c''" "trim ''t'' = ''t''"
  by code_simp+

lemma demo_consumed:
  assumes "pool s = Some demo_db"
  shows "\<exists>r. callback_consumed github_env bob_fresh demo_http binding_params binding_oauth s = (r, s\<lparr>pool := Some bound_db\<rparr>)"
  using assms demo_binds
  by (auto simp: callback_consumed_def binding_params_def nonblank_def comp_defs demo_exchange on_configured_pool_def demo_trims)

lemma demo_callback:
  "\<exists>r t. github_callback github_env bob_fresh demo_http [] [] binding_params binding_state = (r, t) \<and> pool t = Some bound_db"
proof -
  have "now_of github_env = 0" by (simp add: github_env_def login_env_def cookie_env_def demo_env_def)
  then have con: "\<exists>st1. consume_state (now_of github_env) ''t'' (oauth_states binding_state) = (Inr binding_oauth, st1)"
    by (simp add: consume_state_def prune_states_def aretain_def aget_def adel_def pending_state_def secs_def STATE_TTL_SECS_def
        binding_state_def bind_state_to_user_def rebind_state_def binding_oauth_def)
  have "rate_limit (cfg github_env) = default_rate_limit" by (simp add: github_env_def login_env_def default_config_def)
  then obtain st1 s1 where "callback_body github_env bob_fresh demo_http [] binding_params binding_state =
      callback_consumed github_env bob_fresh demo_http binding_params binding_oauth s1" and "pool s1 = Some demo_db"
    using con
    by (auto simp: callback_body_def andthen_def bnd_def map_err_def rate_first binding_state_def default_rate_limit_def
        some_or_def ret_def binding_params_def nonblank_def on_states_def demo_trims)
  with demo_consumed [of s1] show ?thesis
    by (auto simp: github_callback_def split: sum.splits)
qed

theorem github_callback_confined_witness:
  "pool binding_state = Some demo_db \<and> users bound_db = users demo_db \<and>
   (\<exists>i \<in> set (user_identities bound_db). i \<notin> set (user_identities demo_db) \<and>
     (\<exists>tok o1 st1. gc_state binding_params = Some tok \<and>
       consume_state (now_of github_env) tok (oauth_states binding_state) = (Inr o1, st1) \<and> oa_user_id o1 = Some (i_user_id i)))"
proof -
  obtain r t where run: "github_callback github_env bob_fresh demo_http [] [] binding_params binding_state = (r, t)"
    and t: "pool t = Some bound_db" using demo_callback by blast
  have s: "pool binding_state = Some demo_db" by (simp add: binding_state_def)
  let ?i = "\<lparr>i_user_id = 7, provider = ''github'', provider_id = show_int 5, provider_name = ''octo''\<rparr>"
  have i: "?i \<in> set (user_identities bound_db)" "?i \<notin> set (user_identities demo_db)"
    by (simp_all add: bound_db_def demo_db_def empty_db_def)
  obtain d' where "pool t = Some d'" and u: "users d' = users demo_db" and
    all: "\<forall>i \<in> set (user_identities d'). i \<in> set (user_identities demo_db) \<or>
       (\<exists>tok o1 st1. gc_state binding_params = Some tok \<and>
          consume_state (now_of github_env) tok (oauth_states binding_state) = (Inr o1, st1) \<and>
          oa_mode o1 \<noteq> ''login'' \<and> oa_user_id o1 = Some (i_user_id i))"
    using github_callback_confined [OF run s] by blast
  with t have "d' = bound_db" by simp
  with u all i s show ?thesis by blast
qed

end
