(* ===== verification/Group_Policy.thy ===== *)
theory Group_Policy
  imports Permissions
begin

text \<open>
  Correctness of the permission system: the resolver computes the union of the group
  permissions of a user, group administration keeps the policy of the group graph whatever
  the database connection does, every user keeps a group, and a patch of a group is atomic.
\<close>

section \<open>The resolver against its specification\<close>

text \<open>The specification: what the memberships of a user grant.\<close>

definition member_groups :: "db \<Rightarrow> uuid \<Rightarrow> group set" where
  "member_groups d u = set (filter (\<lambda>g. (g_id g, u) \<in> set (group_members d)) (groups d))"

definition granted :: "db \<Rightarrow> uuid \<Rightarrow> string set" where
  "granted d u =
     {p. p \<noteq> ROOT_WILDCARD \<and> (\<exists>g \<in> member_groups d u. (g_id g, p) \<in> set (group_permissions d))}
     \<union> (if \<exists>g \<in> member_groups d u. system_kind g = Some ADMIN_SCOPE
        then set non_root_only_ids else {})"

lemma scan_rows_spec:
  "scan_rows rows (S, b) =
     (S \<union> {p. p \<noteq> ROOT_WILDCARD \<and> Some p \<in> snd ` set rows}, b \<or> Some ADMIN_SCOPE \<in> fst ` set rows)"
  by (induction rows arbitrary: S b) (auto split: option.splits)

lemma group_rows_perm:
  "(k, Some p) \<in> set (group_rows d g) \<longleftrightarrow>
   k = system_kind g \<and> (g_id g, p) \<in> set (group_permissions d)"
proof (cases "filter (\<lambda>gp. fst gp = g_id g) (group_permissions d)")
  case Nil
  then show ?thesis by (auto simp: group_rows_def filter_empty_conv)
next
  case (Cons x xs)
  then have "group_rows d g = map (\<lambda>gp. (system_kind g, Some (snd gp)))
      (filter (\<lambda>gp. fst gp = g_id g) (group_permissions d))"
    by (simp add: group_rows_def)
  then show ?thesis by force
qed

lemma group_rows_kind: "(\<exists>q. (k, q) \<in> set (group_rows d g)) \<longleftrightarrow> k = system_kind g"
  unfolding group_rows_def
  by (cases "filter (\<lambda>gp. fst gp = g_id g) (group_permissions d)") auto

lemma user_group_rows_mem:
  "r \<in> set (user_group_rows d u) \<longleftrightarrow> (\<exists>g \<in> member_groups d u. r \<in> set (group_rows d g))"
  unfolding user_group_rows_def member_groups_def by fastforce

lemma user_group_rows_perms:
  "Some p \<in> snd ` set (user_group_rows d u) \<longleftrightarrow>
   (\<exists>g \<in> member_groups d u. (g_id g, p) \<in> set (group_permissions d))"
proof -
  have "Some p \<in> snd ` set (user_group_rows d u) \<longleftrightarrow> (\<exists>k. (k, Some p) \<in> set (user_group_rows d u))"
    by force
  then show ?thesis by (auto simp: user_group_rows_mem group_rows_perm)
qed

lemma user_group_rows_kinds:
  "Some k \<in> fst ` set (user_group_rows d u) \<longleftrightarrow> (\<exists>g \<in> member_groups d u. system_kind g = Some k)"
proof -
  have "Some k \<in> fst ` set (user_group_rows d u) \<longleftrightarrow> (\<exists>q. (Some k, q) \<in> set (user_group_rows d u))"
    by force
  also have "\<dots> \<longleftrightarrow> (\<exists>g \<in> member_groups d u. \<exists>q. (Some k, q) \<in> set (group_rows d g))"
    by (auto simp: user_group_rows_mem)
  finally show ?thesis unfolding group_rows_kind by metis
qed

lemma resolve_rows: "rows_permissions (user_group_rows d u) = granted d u"
  unfolding rows_permissions_def scan_rows_spec Let_def prod.case granted_def
  by (simp add: user_group_rows_perms user_group_rows_kinds)

lemma granted_outcomes [simp]: "granted (d\<lparr>outcomes := xs\<rparr>) u = granted d u"
  by (simp add: granted_def member_groups_def)

lemma permissions_for_user_Inr:
  "permissions_for_user u d = (Inr S, t) \<Longrightarrow> S = granted d u \<and> (\<exists>xs. t = d\<lparr>outcomes := xs\<rparr>)"
  by (auto simp: permissions_for_user_def runs resolve_rows dest!: select_InrD)

lemma non_root_only_no_wildcard: "ROOT_WILDCARD \<notin> set non_root_only_ids"
  by (simp add: non_root_only_ids_def permission_manifest_def perm_def ROOT_WILDCARD_def)

lemma granted_no_wildcard: "ROOT_WILDCARD \<notin> granted d u"
  using non_root_only_no_wildcard by (auto simp: granted_def)

lemma require_runs:
  "require a p s = (Inr u, t) \<Longrightarrow>
   is_root a \<and> t = s \<or> (\<exists>d xs. s = Some d \<and> t = Some (d\<lparr>outcomes := xs\<rparr>) \<and> p \<in> granted d (sub a))"
  using granted_no_wildcard
  by (auto simp: require_def has_permission_def permissions_for_principal_def runs
      dest!: permissions_for_user_Inr split: if_splits)

text \<open>C4: on a database that answers, the permissions resolved for a user are exactly the
  explicit permissions of the user's groups, never the Root wildcard, and all permissions that
  are not Root-only as soon as one of the groups is an \<open>admin_scope\<close> group.\<close>

theorem permissions_for_user_spec:
  assumes "outcomes d = []"
  shows "permissions_for_user u d = (Inr (granted d u), d)"
  using assms by (simp add: permissions_for_user_def bnd_def ret_def resolve_rows)

theorem permissions_for_user_spec_witness:
  "permissions_for_user 7 (empty_db 0\<lparr>groups := [\<lparr>g_id = 1, g_name = ''A'', g_description = [],
     system_kind = None, is_default = True, protected = False\<rparr>],
     group_members := [(1, 7)], group_permissions := [(1, ''room:view''), (2, ''room:kick'')]\<rparr>)
   = (Inr {''room:view''}, empty_db 0\<lparr>groups := [\<lparr>g_id = 1, g_name = ''A'', g_description = [],
     system_kind = None, is_default = True, protected = False\<rparr>],
     group_members := [(1, 7)], group_permissions := [(1, ''room:view''), (2, ''room:kick'')]\<rparr>)"
proof -
  let ?d = "empty_db 0\<lparr>groups := [\<lparr>g_id = 1, g_name = ''A'', g_description = [],
     system_kind = None, is_default = True, protected = False\<rparr>],
     group_members := [(1, 7)], group_permissions := [(1, ''room:view''), (2, ''room:kick'')]\<rparr>"
  have "permissions_for_user 7 ?d = (Inr (granted ?d 7), ?d)"
    by (rule permissions_for_user_spec) (simp add: empty_db_def)
  moreover have "granted ?d 7 = {''room:view''}"
    by (auto simp: granted_def member_groups_def empty_db_def ROOT_WILDCARD_def)
  ultimately show ?thesis by simp
qed

text \<open>The permission guard of the handlers. It lets Root pass without a database; it
  lets any other principal pass only when the database answered and the user's groups grant the
  permission, and it never changes a table.\<close>

theorem require_sound:
  "(is_root a \<longrightarrow> require a p s = (Inr (), s)) \<and>
   (\<not> is_root a \<longrightarrow> require a p s = (Inr (), t) \<longrightarrow>
      (\<exists>d xs. s = Some d \<and> t = Some (d\<lparr>outcomes := xs\<rparr>) \<and> p \<in> granted d (sub a) \<and> p \<noteq> ROOT_WILDCARD))"
proof -
  have "is_root a \<Longrightarrow> require a p s = (Inr (), s)"
    by (simp add: require_def has_permission_def permissions_for_principal_def comp_defs)
  moreover have "\<not> is_root a \<Longrightarrow> require a p s = (Inr (), t) \<Longrightarrow>
      \<exists>d xs. s = Some d \<and> t = Some (d\<lparr>outcomes := xs\<rparr>) \<and> p \<in> granted d (sub a) \<and> p \<noteq> ROOT_WILDCARD"
    using require_runs [of a p s "()" t] granted_no_wildcard by blast
  ultimately show ?thesis by blast
qed

definition alice :: auth_principal where
  "alice = \<lparr>sub = 7, sid = 70, principal = PUser, client = Ppf, request_id = []\<rparr>"

definition sample_db :: db where
  "sample_db = empty_db 0\<lparr>
     users := [\<lparr>u_id = 7, phira_id = 700, username_cache = ''alice'', avatar_cache = [], u_status = ''active'', u_created_at = 0, u_updated_at = 0, u_last_seen_at = None\<rparr>],
     groups := [new_group 1 ''Staff'' [], (new_group 2 ''Members'' [])\<lparr>is_default := True\<rparr>],
     group_members := [(1, 7)], group_permissions := [(1, ''room:view'')]\<rparr>"

theorem require_sound_witness:
  "require alice ''room:view'' (Some sample_db) = (Inr (), Some sample_db) \<and>
   ''room:view'' \<in> granted sample_db 7 \<and> ''room:view'' \<noteq> ROOT_WILDCARD"
proof -
  have "member_groups sample_db 7 = {new_group 1 ''Staff'' []}"
    by (simp add: member_groups_def sample_db_def empty_db_def new_group_def)
  then have g: "granted sample_db 7 = {''room:view''}"
    by (auto simp: granted_def sample_db_def new_group_def empty_db_def ROOT_WILDCARD_def)
  have o: "outcomes sample_db = []" by (simp add: sample_db_def empty_db_def)
  have "permissions_for_user 7 sample_db = (Inr (granted sample_db 7), sample_db)"
    using o by (simp add: permissions_for_user_def bnd_def ret_def resolve_rows)
  then have r: "require alice ''room:view'' (Some sample_db) = (Inr (), Some sample_db)"
    by (simp add: require_def has_permission_def permissions_for_principal_def with_db_def comp_defs
        alice_def is_root_def g)
  have "\<not> is_root alice" by (simp add: is_root_def alice_def)
  then obtain d xs where "Some sample_db = Some d" "''room:view'' \<in> granted d (sub alice)"
      "''room:view'' \<noteq> ROOT_WILDCARD"
    using r require_sound [of alice "''room:view''" "Some sample_db" "Some sample_db"] by blast
  with r show ?thesis by (simp add: alice_def)
qed

section \<open>The policy of the group graph\<close>

text \<open>Names and ids are unique, memberships and permissions refer to rows, every stored
  permission is one of the manifest (so never the wildcard), and a default group is never an
  \<open>admin_scope\<close> group.\<close>

definition known_permission :: "string \<Rightarrow> bool" where
  "known_permission p \<longleftrightarrow> p \<in> perm_id ` set permission_manifest"

definition group_policy :: "db \<Rightarrow> bool" where
  "group_policy d \<longleftrightarrow>
     distinct (map g_id (groups d)) \<and> distinct (map g_name (groups d)) \<and>
     distinct (group_members d) \<and> distinct (group_permissions d) \<and>
     (\<forall>(g, u) \<in> set (group_members d). g \<in> g_id ` set (groups d) \<and> u \<in> u_id ` set (users d)) \<and>
     (\<forall>(g, p) \<in> set (group_permissions d). g \<in> g_id ` set (groups d) \<and> known_permission p) \<and>
     (\<forall>g \<in> set (groups d). is_default g \<longrightarrow> system_kind g \<noteq> Some ADMIN_SCOPE)"

text \<open>The policy, and that the group with the given id may become the default.\<close>

definition may_default :: "uuid \<Rightarrow> db \<Rightarrow> bool" where
  "may_default i d \<longleftrightarrow>
     group_policy d \<and> (\<forall>g \<in> set (groups d). g_id g = i \<longrightarrow> system_kind g \<noteq> Some ADMIN_SCOPE)"

lemma group_policy_outcomes [simp]: "group_policy (d\<lparr>outcomes := xs\<rparr>) = group_policy d"
  by (simp add: group_policy_def)

lemma may_default_outcomes [simp]: "may_default i (d\<lparr>outcomes := xs\<rparr>) = may_default i d"
  by (simp add: may_default_def)

interpretation policy: table_frame "keeping group_policy"
  by unfold_locales (simp add: keeping_def)

interpretation candidate: table_frame "keeping (may_default i)" for i
  by unfold_locales (simp add: keeping_def)

lemma permission_by_id_known: "permission_by_id p \<noteq> None \<longleftrightarrow> known_permission p"
  by (auto simp: permission_by_id_def known_permission_def find_None_iff)

lemma wildcard_unknown: "\<not> known_permission ROOT_WILDCARD"
  by (simp add: known_permission_def permission_manifest_def perm_def ROOT_WILDCARD_def)

paragraph \<open>Statements.\<close>

lemma insert_group_policy:
  "insert_group g d = Inr (a, d') \<Longrightarrow> \<not> is_default g \<Longrightarrow> group_policy d \<Longrightarrow> group_policy d'"
  by (auto simp: insert_group_def group_policy_def split: if_splits)

lemma insert_group_if_absent_policy:
  "insert_group_if_absent g d = Inr (n, d') \<Longrightarrow> (is_default g \<Longrightarrow> system_kind g \<noteq> Some ADMIN_SCOPE) \<Longrightarrow>
   group_policy d \<Longrightarrow> group_policy d'"
  by (auto simp: insert_group_if_absent_def group_policy_def split: if_splits)

lemma mark_default_policy:
  "group_policy d \<Longrightarrow> (\<And>g. g \<in> set (groups d) \<Longrightarrow> Q g \<Longrightarrow> system_kind g \<noteq> Some ADMIN_SCOPE) \<Longrightarrow>
   group_policy (mark_default Q d)"
  by (auto simp: group_policy_def mark_default_def comp_def image_image)

lemma map_groups_policy:
  assumes "group_policy d"
    and "\<And>g. g_id (h g) = g_id g" and "\<And>g. is_default (h g) = is_default g"
    and "\<And>g. system_kind (h g) = system_kind g"
    and "distinct (map (\<lambda>g. g_name (h g)) (groups d))"
  shows "group_policy (d\<lparr>groups := map h (groups d)\<rparr>)"
  using assms by (auto simp: group_policy_def comp_def image_image)

lemma update_group_policy:
  assumes "group_policy d"
    and "\<And>g. g_id (f g) = g_id g \<and> is_default (f g) = is_default g \<and> system_kind (f g) = system_kind g"
    and "distinct (map (\<lambda>g. g_name (if g_id g = i then f g else g)) (groups d))"
  shows "group_policy (update_group i f d)"
  unfolding update_group_def by (rule map_groups_policy) (use assms in simp_all)

lemma rename_distinct:
  assumes "distinct (map g_id gs)" and "distinct (map g_name gs)"
    and "\<forall>g \<in> set gs. g_id g \<noteq> i \<longrightarrow> g_name g \<noteq> n"
  shows "distinct (map (\<lambda>g. if g_id g = i then n else g_name g) gs)"
  using assms
proof (induction gs)
  case (Cons h gs)
  show ?case
  proof (cases "g_id h = i")
    case True
    with Cons.prems have others: "\<forall>g \<in> set gs. g_id g \<noteq> i" by (auto simp: image_iff)
    then have "map (\<lambda>g. if g_id g = i then n else g_name g) gs = map g_name gs"
      by simp
    moreover have "n \<notin> g_name ` set gs" using Cons.prems(3) others by auto
    ultimately show ?thesis using Cons.prems(2) True by (simp del: map_eq_conv)
  next
    case False
    with Cons show ?thesis by (auto split: if_splits)
  qed
qed simp

lemma update_group_name_policy:
  "update_group_name i n d = Inr (a, d') \<Longrightarrow> group_policy d \<Longrightarrow> group_policy d'"
proof -
  assume u: "update_group_name i n d = Inr (a, d')" and p: "group_policy d"
  have d': "d' = update_group i (\<lambda>g. g\<lparr>g_name := n\<rparr>) d"
    and free: "i \<in> g_id ` set (groups d) \<longrightarrow> (\<forall>g \<in> set (groups d). g_id g \<noteq> i \<longrightarrow> g_name g \<noteq> n)"
    using u by (auto simp: update_group_name_def split: if_splits)
  have "distinct (map (\<lambda>g. if g_id g = i then n else g_name g) (groups d))"
  proof (cases "i \<in> g_id ` set (groups d)")
    case True
    with free p show ?thesis by (intro rename_distinct) (auto simp: group_policy_def)
  next
    case False
    then have "map (\<lambda>g. if g_id g = i then n else g_name g) (groups d) = map g_name (groups d)"
      by (intro map_cong) auto
    moreover have "distinct (map g_name (groups d))" using p by (simp add: group_policy_def)
    ultimately show ?thesis by presburger
  qed
  moreover have "(\<lambda>g :: group. g_name (if g_id g = i then g\<lparr>g_name := n\<rparr> else g)) =
      (\<lambda>g. if g_id g = i then n else g_name g)" by auto
  ultimately have "distinct (map (\<lambda>g. g_name (if g_id g = i then g\<lparr>g_name := n\<rparr> else g)) (groups d))"
    by (simp only:)
  with p show "group_policy d'" unfolding d' by (intro update_group_policy) auto
qed

lemma update_group_may_default:
  assumes "may_default i d" and "group_policy (update_group j f d)"
    and "\<And>g. g_id (f g) = g_id g \<and> system_kind (f g) = system_kind g"
  shows "may_default i (update_group j f d)"
  using assms(1,2) unfolding may_default_def update_group_def
  by (auto simp: assms(3) simp del: set_map) (auto simp: assms(3) split: if_splits)

lemma insert_member_policy: "insert_member g u d = Inr (a, d') \<Longrightarrow> group_policy d \<Longrightarrow> group_policy d'"
  by (auto simp: insert_member_def group_policy_def split: if_splits)

lemma insert_permission_policy:
  "insert_permission g p d = Inr (a, d') \<Longrightarrow> known_permission p \<Longrightarrow> group_policy d \<Longrightarrow> group_policy d'"
  by (auto simp: insert_permission_def group_policy_def split: if_splits)

lemma delete_policy:
  "group_policy d \<Longrightarrow> group_policy (delete_group_row i d)"
  "group_policy d \<Longrightarrow> group_policy (d\<lparr>group_members := filter F (group_members d)\<rparr>)"
  "group_policy d \<Longrightarrow> group_policy (d\<lparr>group_permissions := filter G (group_permissions d)\<rparr>)"
  by (auto simp: delete_group_row_def group_policy_def distinct_map_filter image_iff; blast)+

paragraph \<open>Operations.\<close>

lemma mark_may_default: "may_default i d \<Longrightarrow> group_policy (mark_default (\<lambda>g. g_id g = i) d)"
  by (auto simp: may_default_def intro!: mark_default_policy)

lemma get_group_runs:
  "get_group i d = (Inr g, t) \<Longrightarrow>
   \<exists>xs. t = d\<lparr>outcomes := xs\<rparr> \<and> find (\<lambda>g. g_id g = i) (groups d) = Some g"
  by (auto simp: get_group_def runs dest!: select_InrD)

lemma get_group_policy: "obeys (keeping group_policy) (get_group i)"
  unfolding get_group_def by (intro policy.table_intros)

lemma found_row: "find (\<lambda>g. g_id g = i) gs = Some g \<Longrightarrow> g \<in> set gs \<and> g_id g = i"
  by (auto simp: find_Some_iff)

lemma get_group_may_default:
  assumes "group_policy d" and "get_group i d = (Inr g, t)" and "system_kind g \<noteq> Some ADMIN_SCOPE"
  shows "may_default i t"
proof -
  obtain xs where t: "t = d\<lparr>outcomes := xs\<rparr>" and f: "find (\<lambda>g. g_id g = i) (groups d) = Some g"
    using get_group_runs [OF assms(2)] by blast
  have "h = g" if "h \<in> set (groups d)" "g_id h = i" for h
    using that found_row [OF f] assms(1) unfolding group_policy_def
    by (metis distinct_map inj_onD)
  with t assms show ?thesis by (auto simp: may_default_def)
qed

lemma ensure_group_policy:
  assumes "kind \<noteq> Some ADMIN_SCOPE \<or> \<not> dflt"
  shows "obeys (keeping group_policy) (ensure_group new_id name desc kind dflt prot)"
proof -
  let ?g = "(new_group new_id name desc)\<lparr>system_kind := kind, is_default := dflt, protected := prot\<rparr>"
  let ?Q = "\<lambda>n t. group_policy t \<and>
      (0 < n \<and> dflt \<longrightarrow> (\<forall>h \<in> set (groups t). g_name h = name \<longrightarrow> system_kind h \<noteq> Some ADMIN_SCOPE))"
  have ins: "?Q n t" if i: "insert_group_if_absent ?g s = Inr (n, t)" and p: "group_policy s" for s n t
  proof -
    have shape: "n = 0 \<or> groups t = groups s @ [?g] \<and> (\<forall>h \<in> set (groups s). g_name h \<noteq> g_name ?g)"
      using i by (auto simp: insert_group_if_absent_def image_iff split: if_splits)
    have "group_policy t"
      using insert_group_if_absent_policy [OF i _ p] assms by (auto simp: new_group_def)
    moreover have "system_kind h \<noteq> Some ADMIN_SCOPE"
      if "0 < n" "dflt" "h \<in> set (groups t)" "g_name h = name" for h
    proof -
      from that shape have "h = ?g" by (auto simp: new_group_def)
      with assms \<open>dflt\<close> show ?thesis by simp
    qed
    ultimately show ?thesis by blast
  qed
  have fin: "group_policy (snd ((if 0 < n \<and> dflt then execute (mark_default (\<lambda>g. g_name g = name)) else ret ()) t))"
    if q: "?Q n t" for n t
  proof (cases "0 < n \<and> dflt")
    case True
    obtain x xs where nx: "next_outcome t = (x, t\<lparr>outcomes := xs\<rparr>)" by (rule next_outcome_cases)
    have "group_policy (mark_default (\<lambda>g. g_name g = name) (t\<lparr>outcomes := xs\<rparr>))"
      using q True by (intro mark_default_policy) auto
    with True nx q show ?thesis by (cases x) (auto simp: execute_def query_def)
  next
    case False
    with q show ?thesis by (auto simp: ret_def)
  qed
  show ?thesis
    unfolding ensure_group_def
  proof (rule keeping_bnd [where Q = ?Q])
    show "?Q a t" if "group_policy s" "query (insert_group_if_absent ?g) s = (Inr a, t)" for s t a
      using query_InrD [OF that(2)] that(1) ins by fastforce
    show "group_policy t" if "group_policy s" "query (insert_group_if_absent ?g) s = (Inl e, t)" for s t e
      using query_InlD [OF that(2)] that(1) ins by fastforce
  qed (rule fin)
qed

lemma bootstrap_policy: "obeys (keeping group_policy) (bootstrap_groups ids)"
  unfolding bootstrap_groups_def
  by (intro policy.table_intros ensure_group_policy) simp_all

lemma default_group_id_policy: "obeys (keeping group_policy) (default_group_id ids)"
  unfolding default_group_id_def
  by (intro policy.table_intros policy.obeys_query bootstrap_policy)
    (auto simp: keeping_def split: option.splits)

lemma insert_member_stmt_policy: "obeys (keeping group_policy) (query (insert_member g u))"
  by (rule policy.obeys_query) (auto simp: keeping_def intro: insert_member_policy)

lemma join_default_policy: "obeys (keeping group_policy) (join_default_group h ids u)"
  unfolding join_default_group_def
  by (intro policy.table_intros default_group_id_policy insert_member_stmt_policy)

lemma ensure_user_policy: "obeys (keeping group_policy) (ensure_user_in_default_group ids u)"
  unfolding ensure_user_in_default_group_def by (intro policy.table_intros join_default_policy)

lemma not_orphaned_policy: "obeys (keeping group_policy) (ensure_user_not_orphaned ids u)"
  unfolding ensure_user_not_orphaned_def by (intro policy.table_intros join_default_policy)

lemma replace_members_policy: "obeys (keeping group_policy) (replace_group_members ids g us)"
  unfolding replace_group_members_def list_group_members_def
  by (intro policy.table_intros policy.obeys_execute insert_member_stmt_policy not_orphaned_policy)
    (simp add: keeping_def delete_policy)

lemma remove_member_policy: "obeys (keeping group_policy) (remove_member ids g u)"
  unfolding remove_member_def
  by (intro policy.table_intros policy.obeys_execute not_orphaned_policy)
    (simp add: keeping_def delete_policy)

lemma add_member_policy: "obeys (keeping group_policy) (add_member g u)"
  unfolding add_member_def by (intro policy.table_intros insert_member_stmt_policy)

lemma remove_permission_policy: "obeys (keeping group_policy) (remove_permission g p)"
  unfolding remove_permission_def
  by (intro policy.table_intros policy.obeys_execute) (simp add: keeping_def delete_policy)

lemma delete_group_policy: "obeys (keeping group_policy) (delete_group i)"
  unfolding delete_group_def
  by (intro policy.table_intros policy.obeys_execute get_group_policy)
    (simp add: keeping_def delete_policy)

lemma rename_group_policy: "obeys (keeping group_policy) (rename_group i n)"
  unfolding rename_group_def
  by (intro policy.table_intros policy.obeys_query)
    (auto simp: keeping_def intro: update_group_name_policy)

text \<open>The check of a permission id needs no state: either it lets every caller pass, or none.\<close>

lemma check_permission_runs:
  "check_permission_id c p d = (Inr u, t) \<Longrightarrow> known_permission p \<and> t = d"
  by (auto simp: check_permission_id_def runs permission_by_id_known [symmetric])

lemma check_all_runs:
  "for_each ps (\<lambda>p. check_permission_id (c p) p) d = (Inr u, t) \<Longrightarrow>
   (\<forall>p \<in> set ps. known_permission p) \<and> t = d"
  by (induction ps arbitrary: d) (auto simp: runs dest!: check_permission_runs)

lemma check_permission_obeys: "obeys (keeping group_policy) (check_permission_id c p)"
  unfolding check_permission_id_def by (intro policy.table_intros)

lemma insert_permission_stmt:
  "known_permission p \<Longrightarrow> obeys (keeping group_policy) (query (insert_permission g p))"
  by (rule policy.obeys_query) (auto simp: keeping_def intro: insert_permission_policy)

lemma add_permission_policy: "obeys (keeping group_policy) (add_permission g p)"
  unfolding add_permission_def andthen_def
proof (rule keeping_bnd [where Q = "\<lambda>_ t. group_policy t \<and> known_permission p"])
  fix a :: unit and t assume "group_policy t \<and> known_permission p"
  then show "group_policy (snd (map_err repo_db_err (query (insert_permission g p)) t))"
    using obeysD [OF keeping_frame.obeys_map_err [OF insert_permission_stmt [of p g]]]
    by (auto simp: keeping_def)
qed (auto dest: check_permission_runs keepingD [OF check_permission_obeys])

lemma for_each_obeys:
  "(\<And>x. x \<in> set xs \<Longrightarrow> obeys (keeping group_policy) (body x)) \<Longrightarrow>
   obeys (keeping group_policy) (for_each xs body)"
  by (induction xs) (auto intro!: keeping_frame.obeys_ret keeping_frame.obeys_andthen)

lemma replace_permissions_policy: "obeys (keeping group_policy) (replace_group_permissions g ps)"
  unfolding replace_group_permissions_def
  unfolding andthen_def [of "for_each ps (\<lambda>p. check_permission_id (''unknown permission id: '' @ p) p)"]
proof (rule keeping_bnd [where Q = "\<lambda>_ t. group_policy t \<and> (\<forall>p \<in> set ps. known_permission p)"])
  fix a :: unit and t assume q: "group_policy t \<and> (\<forall>p \<in> set ps. known_permission p)"
  then have ins: "obeys (keeping group_policy)
      (for_each ps (\<lambda>p. map_err repo_db_err (query (insert_permission g p))))"
    by (intro for_each_obeys keeping_frame.obeys_map_err insert_permission_stmt) simp
  have "obeys (keeping group_policy)
      (andthen (map_err repo_db_err (execute (\<lambda>d.
          d\<lparr>group_permissions := filter (\<lambda>gp. fst gp \<noteq> g) (group_permissions d)\<rparr>)))
        (for_each ps (\<lambda>p. map_err repo_db_err (query (insert_permission g p)))))"
    by (intro keeping_frame.obeys_andthen ins keeping_frame.obeys_map_err policy.obeys_execute)
      (simp add: keeping_def delete_policy)
  with q show "group_policy (snd (andthen (map_err repo_db_err (execute (\<lambda>d.
          d\<lparr>group_permissions := filter (\<lambda>gp. fst gp \<noteq> g) (group_permissions d)\<rparr>)))
        (for_each ps (\<lambda>p. map_err repo_db_err (query (insert_permission g p)))) t))"
    by (auto simp: keeping_def dest: obeysD)
next
  have chk: "obeys (keeping group_policy) (for_each ps (\<lambda>p. check_permission_id (''unknown permission id: '' @ p) p))"
    by (intro keeping_frame.obeys_for_each check_permission_obeys)
  show "group_policy t"
    if "group_policy s" "for_each ps (\<lambda>p. check_permission_id (''unknown permission id: '' @ p) p) s = (Inl e, t)"
    for s t e by (rule keepingD [OF chk that(2,1)])
  show "group_policy t \<and> (\<forall>p \<in> set ps. known_permission p)"
    if "group_policy s" "for_each ps (\<lambda>p. check_permission_id (''unknown permission id: '' @ p) p) s = (Inr a, t)"
    for s t a using that(1) check_all_runs [OF that(2)] by blast
qed

text \<open>A candidate is kept by every statement of a patch, and marking it keeps the policy.\<close>

lemma mark_candidate:
  assumes "may_default i d"
  shows "group_policy (snd (map_err h (execute (mark_default (\<lambda>g. g_id g = i))) d))"
proof -
  obtain x xs where "next_outcome d = (x, d\<lparr>outcomes := xs\<rparr>)" by (rule next_outcome_cases)
  moreover have "group_policy (mark_default (\<lambda>g. g_id g = i) (d\<lparr>outcomes := xs\<rparr>))"
    using assms by (intro mark_may_default) simp
  ultimately show ?thesis
    using assms by (cases x) (auto simp: map_err_def execute_def query_def may_default_def)
qed

lemma set_default_group_policy: "obeys (keeping group_policy) (set_default_group i)"
  unfolding set_default_group_def
proof (rule keeping_bnd [where Q = "\<lambda>g t. group_policy t \<and>
    (system_kind g \<noteq> Some ADMIN_SCOPE \<longrightarrow> may_default i t)"])
  show "group_policy t \<and> (system_kind g \<noteq> Some ADMIN_SCOPE \<longrightarrow> may_default i t)"
    if "group_policy s" "get_group i s = (Inr g, t)" for s t g
    using that get_group_may_default keepingD [OF get_group_policy] by blast
  show "group_policy t" if "group_policy s" "get_group i s = (Inl e, t)" for s t e
    using that keepingD [OF get_group_policy] by blast
qed (auto simp: throw_def intro: mark_candidate)

lemma update_description_policy:
  assumes "group_policy d"
  shows "group_policy (update_group i (\<lambda>g. g\<lparr>g_description := t\<rparr>) d)"
  using assms by (rule update_group_policy)
    (use assms in \<open>simp_all add: group_policy_def if_distrib cong: if_cong\<close>)

lemma candidate_statements:
  "obeys (keeping (may_default i)) (query (update_group_name j n))"
  "obeys (keeping (may_default i)) (execute (update_group j (\<lambda>g. g\<lparr>g_description := t\<rparr>)))"
proof -
  have name: "may_default i d'" if "update_group_name j n d = Inr (a, d')" "may_default i d" for d a d'
  proof -
    have "group_policy d'" using that update_group_name_policy by (auto simp: may_default_def)
    moreover have "d' = update_group j (\<lambda>g. g\<lparr>g_name := n\<rparr>) d"
      using that(1) by (auto simp: update_group_name_def split: if_splits)
    ultimately show ?thesis using that(2) update_group_may_default by simp
  qed
  then show "obeys (keeping (may_default i)) (query (update_group_name j n))"
    by (intro candidate.obeys_query) (auto simp: keeping_def)
  have "may_default i (update_group j (\<lambda>g. g\<lparr>g_description := t\<rparr>) d)" if "may_default i d" for d
    using that by (intro update_group_may_default update_description_policy) (simp_all add: may_default_def)
  then show "obeys (keeping (may_default i)) (execute (update_group j (\<lambda>g. g\<lparr>g_description := t\<rparr>)))"
    by (intro candidate.obeys_execute) (simp add: keeping_def)
qed

lemma patch_edits_candidate: "obeys (keeping (may_default i)) (patch_edits i name desc)"
  unfolding patch_edits_def by (intro candidate.table_intros candidate_statements)

lemma patch_edits_policy: "obeys (keeping group_policy) (patch_edits i name desc)"
  unfolding patch_edits_def
  by (intro policy.table_intros policy.obeys_query policy.obeys_execute)
    (auto simp: keeping_def update_description_policy intro: update_group_name_policy)

lemma patch_body_policy:
  assumes "group_policy d" and "system_kind g \<noteq> Some ADMIN_SCOPE \<Longrightarrow> may_default i d"
  shows "group_policy (snd (patch_body g i name desc dflt d))"
proof -
  obtain r t where e: "patch_edits i name desc d = (r, t)" by (cases "patch_edits i name desc d")
  have p: "group_policy t" by (rule keepingD [OF patch_edits_policy e assms(1)])
  have c: "system_kind g \<noteq> Some ADMIN_SCOPE \<Longrightarrow> may_default i t"
    by (rule keepingD [OF patch_edits_candidate e assms(2)])
  show ?thesis
    using e p mark_candidate [OF c, of repo_db_err]
    by (cases r) (auto simp: patch_body_def andthen_def bnd_def ret_def throw_def)
qed

lemma patch_group_policy: "obeys (keeping group_policy) (patch_group i name desc dflt)"
  unfolding patch_group_def
proof (rule keeping_bnd [where Q = "\<lambda>g t. group_policy t \<and>
    (system_kind g \<noteq> Some ADMIN_SCOPE \<longrightarrow> may_default i t)"])
  show "group_policy t \<and> (system_kind g \<noteq> Some ADMIN_SCOPE \<longrightarrow> may_default i t)"
    if "group_policy s" "get_group i s = (Inr g, t)" for s t g
    using that get_group_may_default keepingD [OF get_group_policy] by blast
  show "group_policy t" if "group_policy s" "get_group i s = (Inl e, t)" for s t e
    using that keepingD [OF get_group_policy] by blast
  fix g :: group and t assume q: "group_policy t \<and> (system_kind g \<noteq> Some ADMIN_SCOPE \<longrightarrow> may_default i t)"
  obtain r u where tr: "transaction repo_db_err (patch_body g i name desc dflt) t = (r, u)"
    by (cases "transaction repo_db_err (patch_body g i name desc dflt) t")
  then have u: "group_policy u"
  proof (cases rule: transaction_cases)
    case (undone e xs)
    with q show ?thesis by simp
  next
    case (finished xs a d2 ys)
    have "group_policy (snd (patch_body g i name desc dflt (t\<lparr>outcomes := xs\<rparr>)))"
      using q by (intro patch_body_policy) simp_all
    with finished show ?thesis by simp
  qed
  show "group_policy (snd (andthen (transaction repo_db_err (patch_body g i name desc dflt)) (get_group i) t))"
    using tr u obeysD [OF get_group_policy, unfolded keeping_def]
    by (cases r) (auto simp: andthen_def bnd_def)
qed

lemma create_group_policy: "obeys (keeping group_policy) (create_group new_id name desc dflt)"
proof -
  have "obeys (keeping group_policy) (bnd (map_err create_err (query (insert_group (new_group new_id (trim name) desc)))) (\<lambda>g.
        if dflt = Some True
        then andthen (map_err repo_db_err (execute (mark_default (\<lambda>h. g_id h = g_id g))))
               (get_group (g_id g))
        else ret g))" (is "obeys _ (bnd ?ins ?rest)")
  proof (rule keeping_bnd [where Q = "\<lambda>g t. may_default (g_id g) t"])
    have ins: "obeys (keeping group_policy) ?ins"
      by (intro keeping_frame.obeys_map_err policy.obeys_query)
        (auto simp: keeping_def new_group_def intro: insert_group_policy)
    show "group_policy t" if "group_policy s" "?ins s = (Inl e, t)" for s t e
      by (rule keepingD [OF ins that(2,1)])
    show "may_default (g_id g) t" if p: "group_policy s" and r: "?ins s = (Inr g, t)" for s t g
    proof -
      have "group_policy t" by (rule keepingD [OF ins r p])
      moreover have "groups t = groups s @ [g] \<and> g_id g \<notin> g_id ` set (groups s) \<and> system_kind g = None"
        using r by (auto simp: insert_group_def new_group_def dest!: query_InrD split: if_splits)
      ultimately show ?thesis by (auto simp: may_default_def image_iff)
    qed
    fix g :: group and t assume m: "may_default (g_id g) t"
    obtain r u where e: "map_err repo_db_err (execute (mark_default (\<lambda>h. g_id h = g_id g))) t = (r, u)"
      by (cases "map_err repo_db_err (execute (mark_default (\<lambda>h. g_id h = g_id g))) t")
    with mark_candidate [OF m, of repo_db_err] have "group_policy u" by simp
    then show "group_policy (snd (?rest g t))"
      using e m obeysD [OF get_group_policy, unfolded keeping_def]
      by (cases r) (auto simp: andthen_def bnd_def ret_def may_default_def simp del: map_err_Inr)
  qed
  then show ?thesis
    unfolding create_group_def by (intro keeping_frame.obeys_if keeping_frame.obeys_throw)
qed

section \<open>Reachable group graphs\<close>

text \<open>One step: a new user row, any group operation with any arguments (whatever it returns),
  or a change of the connection's outcomes to come. Operations of concurrent requests
  interleave as whole operations.\<close>

inductive group_step :: "db \<Rightarrow> db \<Rightarrow> bool" where
  weather: "group_step d (d\<lparr>outcomes := xs\<rparr>)"
| register: "u_id u \<notin> u_id ` set (users d) \<Longrightarrow> group_step d (d\<lparr>users := users d @ [u]\<rparr>)"
| bootstrap: "group_step d (snd (bootstrap_groups ids d))"
| join_default: "group_step d (snd (ensure_user_in_default_group ids u d))"
| create: "group_step d (snd (create_group i name desc dflt d))"
| rename: "group_step d (snd (rename_group i name d))"
| patch: "group_step d (snd (patch_group i nm ds dflt d))"
| set_default: "group_step d (snd (set_default_group i d))"
| delete: "group_step d (snd (delete_group i d))"
| grant: "group_step d (snd (add_permission i p d))"
| revoke: "group_step d (snd (remove_permission i p d))"
| regrant: "group_step d (snd (replace_group_permissions i ps d))"
| enrol: "group_step d (snd (add_member i u d))"
| expel: "group_step d (snd (remove_member ids i u d))"
| reenrol: "group_step d (snd (replace_group_members ids i us d))"

lemmas policy_ops =
  bootstrap_policy ensure_user_policy create_group_policy rename_group_policy patch_group_policy
  set_default_group_policy delete_group_policy add_permission_policy remove_permission_policy
  replace_permissions_policy add_member_policy remove_member_policy replace_members_policy

lemma group_step_policy: "group_step d d' \<Longrightarrow> group_policy d \<Longrightarrow> group_policy d'"
proof (induction rule: group_step.induct)
  case (register u d)
  then show ?case by (auto simp: group_policy_def)
qed (simp_all add: policy_ops [THEN obeysD, unfolded keeping_def, rule_format])

interpretation group_graph: invariant_system "\<lambda>d. d = empty_db t" group_step group_policy for t
proof
  show "group_policy s" if "s = empty_db t" for s
    using that by (simp add: group_policy_def empty_db_def)
qed (rule group_step_policy)



section \<open>Every user keeps a group\<close>

lemma has_membership_outcomes [simp]: "has_membership (d\<lparr>outcomes := xs\<rparr>) u = has_membership d u"
  by (simp add: has_membership_def)

text \<open>Joining a group only adds memberships.\<close>

definition more_members :: "db \<Rightarrow> db \<Rightarrow> bool" where
  "more_members d d' \<longleftrightarrow> set (group_members d) \<subseteq> set (group_members d')"

interpretation joining: table_frame more_members
  by unfold_locales (auto simp: more_members_def)

lemma more_membersD: "more_members d d' \<Longrightarrow> has_membership d u \<Longrightarrow> has_membership d' u"
  by (auto simp: more_members_def has_membership_def)

lemma insert_member_more: "obeys more_members (query (insert_member g u))"
  by (rule joining.obeys_query) (auto simp: insert_member_def more_members_def split: if_splits)

lemma ensure_group_more: "obeys more_members (ensure_group i n ds k df pr)"
  unfolding ensure_group_def
  by (intro joining.table_intros joining.obeys_query joining.obeys_execute)
    (auto simp: insert_group_if_absent_def mark_default_def more_members_def split: if_splits)

lemma default_group_id_more: "obeys more_members (default_group_id ids)"
  unfolding default_group_id_def bootstrap_groups_def
  by (intro joining.table_intros joining.obeys_query ensure_group_more)
    (auto simp: more_members_def split: option.splits)

lemma join_default_more: "obeys more_members (join_default_group h ids u)"
  unfolding join_default_group_def
  by (intro joining.table_intros default_group_id_more insert_member_more)

lemma not_orphaned_more: "obeys more_members (ensure_user_not_orphaned ids u)"
  unfolding ensure_user_not_orphaned_def by (intro joining.table_intros join_default_more)

lemma insert_member_runs: "query (insert_member g u) d = (Inr x, t) \<Longrightarrow> has_membership t u"
  by (force simp: insert_member_def has_membership_def dest!: query_InrD split: if_splits)

lemma join_default_runs: "join_default_group h ids u d = (Inr x, t) \<Longrightarrow> has_membership t u"
  by (auto simp: join_default_group_def runs dest: insert_member_runs)

lemma not_orphaned_runs: "ensure_user_not_orphaned ids u d = (Inr x, t) \<Longrightarrow> has_membership t u"
  by (auto simp: ensure_user_not_orphaned_def runs filter_empty_conv has_membership_def
      dest!: select_InrD join_default_runs split: if_splits)

lemma not_orphaned_all_runs:
  assumes "for_each xs (\<lambda>m. if P m then ensure_user_not_orphaned ids (f m) else ret ()) d = (Inr x, t)"
  shows "more_members d t \<and> (\<forall>m \<in> set xs. P m \<longrightarrow> has_membership t (f m))"
  using assms
proof (induction xs arbitrary: d)
  case Nil
  then show ?case by (simp add: runs joining.refl_R)
next
  case (Cons m xs)
  then obtain y d1 where h: "(if P m then ensure_user_not_orphaned ids (f m) else ret ()) d = (Inr y, d1)"
    and r: "for_each xs (\<lambda>m. if P m then ensure_user_not_orphaned ids (f m) else ret ()) d1 = (Inr x, t)"
    by (auto simp: andthen_runs)
  have one: "more_members d d1 \<and> (P m \<longrightarrow> has_membership d1 (f m))"
    using h not_orphaned_runs obeys_run [OF not_orphaned_more]
    by (auto simp: runs joining.refl_R split: if_splits)
  with Cons.IH [OF r] show ?case by (auto intro: joining.trans_R dest: more_membersD)
qed

lemma insert_all_runs:
  assumes "for_each us (\<lambda>u. map_err h (query (insert_member g u))) d = (Inr x, t)"
  shows "more_members d t \<and> (\<forall>u \<in> set us. has_membership t u)"
  using assms
proof (induction us arbitrary: d)
  case Nil
  then show ?case by (simp add: runs joining.refl_R)
next
  case (Cons u us)
  then obtain y d1 where q: "query (insert_member g u) d = (Inr y, d1)"
    and r: "for_each us (\<lambda>u. map_err h (query (insert_member g u))) d1 = (Inr x, t)"
    by (auto simp: andthen_runs)
  then have "more_members d d1" "has_membership d1 u"
    using obeys_run [OF insert_member_more q] insert_member_runs [OF q] by auto
  with Cons.IH [OF r] show ?case by (auto intro: joining.trans_R dest: more_membersD)
qed

text \<open>Whenever signing a user in, or removing a member from a group, reports success,
  that user belongs to some group afterwards, whatever the connection did in between.\<close>

theorem success_means_membership:
  "(ensure_user_in_default_group ids u d = (Inr (), t) \<longrightarrow> has_membership t u) \<and>
   (remove_member ids g u d = (Inr (), t) \<longrightarrow> has_membership t u)"
  by (auto simp: ensure_user_in_default_group_def remove_member_def runs
      dest!: select_InrD dest: join_default_runs not_orphaned_runs split: if_splits)

lemma sample_remove_member:
  "remove_member ids 1 7 sample_db = (Inr (), sample_db\<lparr>group_members := [(2, 7)]\<rparr>)"
  by (simp add: remove_member_def ensure_user_not_orphaned_def join_default_group_def default_group_id_def
      comp_defs sample_db_def empty_db_def new_group_def query_calm insert_member_def)

theorem success_means_membership_witness:
  "has_membership (sample_db\<lparr>group_members := [(2, 7)]\<rparr>) 7"
  using success_means_membership [of "\<lambda>n. of_nat n" 7 sample_db _ 1] sample_remove_member by blast

lemma list_group_members_runs:
  "list_group_members g d = (Inr ms, t) \<Longrightarrow> \<exists>xs. t = d\<lparr>outcomes := xs\<rparr> \<and>
     u_id ` set ms = {u \<in> u_id ` set (users d). (g, u) \<in> set (group_members d)}"
  by (force simp: list_group_members_def dest!: select_InrD)

text \<open>After a successful replacement of the members of a group, every listed user and
  every user who was in some group before belongs to some group: the ones dropped from their
  last group were put into the default group.\<close>

theorem replace_members_keeps_everyone:
  assumes "group_policy d" and "replace_group_members ids g us d = (Inr (), t)"
    and "has_membership d u \<or> u \<in> set us"
  shows "has_membership t u"
proof -
  obtain ms d1 x d2 y d3 where l: "list_group_members g d = (Inr ms, d1)"
    and e: "execute (\<lambda>d. d\<lparr>group_members := filter (\<lambda>m. fst m \<noteq> g) (group_members d)\<rparr>) d1 = (Inr x, d2)"
    and i: "for_each us (\<lambda>u. map_err repo_db_err (query (insert_member g u))) d2 = (Inr y, d3)"
    and o: "for_each ms (\<lambda>m. if u_id m \<notin> set us then ensure_user_not_orphaned ids (u_id m) else ret ()) d3 = (Inr (), t)"
    using assms(2) unfolding replace_group_members_def bnd_runs andthen_runs map_err_Inr by blast
  have d2: "group_members d2 = filter (\<lambda>m. fst m \<noteq> g) (group_members d)"
    using list_group_members_runs [OF l] execute_InrD [OF e] by auto
  have step: "more_members d2 d3 \<and> (\<forall>u \<in> set us. has_membership d3 u)" by (rule insert_all_runs [OF i])
  have last: "more_members d3 t \<and> (\<forall>m \<in> set ms. u_id m \<notin> set us \<longrightarrow> has_membership t (u_id m))"
    by (rule not_orphaned_all_runs [OF o])
  consider "u \<in> set us" | "u \<notin> set us" "u \<in> u_id ` set ms" | h where "(h, u) \<in> set (group_members d)" "h \<noteq> g"
    using assms list_group_members_runs [OF l] unfolding has_membership_def group_policy_def by force
  then show ?thesis
  proof cases
    case 3
    then have "has_membership d2 u" by (force simp: d2 has_membership_def)
    with step last show ?thesis by (blast dest: more_membersD)
  qed (use step last in \<open>auto dest: more_membersD\<close>)
qed

lemma sample_policy: "group_policy sample_db"
  by (simp add: group_policy_def sample_db_def empty_db_def new_group_def known_permission_def
      permission_manifest_def perm_def ADMIN_SCOPE_def)

theorem replace_members_keeps_everyone_witness:
  "has_membership (snd (replace_group_members (\<lambda>n. of_nat n) 1 [] sample_db)) 7"
proof -
  have "replace_group_members (\<lambda>n. of_nat n) 1 [] sample_db = (Inr (), sample_db\<lparr>group_members := [(2, 7)]\<rparr>)"
    by (simp add: replace_group_members_def list_group_members_def ensure_user_not_orphaned_def
        join_default_group_def default_group_id_def
        comp_defs sample_db_def empty_db_def new_group_def query_calm insert_member_def)
  moreover have "has_membership sample_db 7"
    by (simp add: has_membership_def sample_db_def empty_db_def)
  ultimately show ?thesis
    using replace_members_keeps_everyone [of sample_db "\<lambda>n. of_nat n" 1 "[]" _ 7] sample_policy by simp
qed

text \<open>Deleting a group has no such care: its members may be left in no group at all, although
  the module promises that users belong to at least one.\<close>

theorem delete_group_orphans:
  "delete_group 1 sample_db = (Inr (), snd (delete_group 1 sample_db)) \<and>
   has_membership sample_db 7 \<and> \<not> has_membership (snd (delete_group 1 sample_db)) 7"
  by (simp add: delete_group_def get_group_def has_membership_def delete_group_row_def
      comp_defs sample_db_def empty_db_def new_group_def)

section \<open>Patches are atomic\<close>

text \<open>The specification of a patch: one function on the rows.\<close>

definition patched :: "uuid \<Rightarrow> string option \<Rightarrow> string option \<Rightarrow> bool option \<Rightarrow> group \<Rightarrow> group" where
  "patched i name desc dflt g =
     g\<lparr>g_name := (case name of Some n \<Rightarrow> if g_id g = i \<and> trim n \<noteq> [] then trim n else g_name g | None \<Rightarrow> g_name g),
       g_description := (case desc of Some t \<Rightarrow> if g_id g = i then t else g_description g | None \<Rightarrow> g_description g),
       is_default := (if dflt = Some True then g_id g = i else is_default g)\<rparr>"

definition groups_mapped :: "(group \<Rightarrow> group) \<Rightarrow> db \<Rightarrow> db \<Rightarrow> bool" where
  "groups_mapped f d t \<longleftrightarrow> t = d\<lparr>outcomes := outcomes t, groups := map f (groups d)\<rparr>"

lemma groups_mapped_id: "groups_mapped (\<lambda>g. g) d t \<longleftrightarrow> t = d\<lparr>outcomes := outcomes t\<rparr>"
  by (simp add: groups_mapped_def)

lemma groups_mapped_ex: "groups_mapped f d t \<longleftrightarrow> (\<exists>xs. t = d\<lparr>outcomes := xs, groups := map f (groups d)\<rparr>)"
  unfolding groups_mapped_def by auto

lemma groups_mapped_trans: "groups_mapped f d t \<Longrightarrow> groups_mapped h t u \<Longrightarrow> groups_mapped (\<lambda>g. h (f g)) d u"
  by (auto simp: groups_mapped_ex comp_def)

lemma patched_simps:
  "patched i None None None = (\<lambda>g. g)"
  "patched i (Some a) None None = (\<lambda>g. if g_id g = i \<and> trim a \<noteq> [] then g\<lparr>g_name := trim a\<rparr> else g)"
  "patched i None (Some t) None = (\<lambda>g. if g_id g = i then g\<lparr>g_description := t\<rparr> else g)"
  by (auto simp: patched_def fun_eq_iff)

lemma update_name_runs:
  "query (update_group_name i n) d = (Inr x, t) \<Longrightarrow>
   groups_mapped (\<lambda>g. if g_id g = i then g\<lparr>g_name := n\<rparr> else g) d t"
  by (auto simp: update_group_name_def update_group_def groups_mapped_def dest!: query_InrD split: if_splits)

lemma patch_edits_runs:
  assumes "patch_edits i name desc d = (Inr x, t)"
  shows "groups_mapped (patched i name desc None) d t"
proof -
  obtain u y where n: "(case map_option trim name of
        Some n \<Rightarrow> if n \<noteq> [] then map_err repo_db_err (query (update_group_name i n)) else ret ()
      | None \<Rightarrow> ret ()) d = (Inr y, u)"
    and ds: "(case desc of
        Some t \<Rightarrow> map_err repo_db_err (execute (update_group i (\<lambda>g. g\<lparr>g_description := t\<rparr>)))
      | None \<Rightarrow> ret ()) u = (Inr x, t)"
    using assms unfolding patch_edits_def andthen_runs by blast
  have "groups_mapped (patched i name None None) d u"
    using n by (cases name)
      (auto simp: runs patched_simps groups_mapped_id dest!: update_name_runs split: if_splits)
  moreover have "groups_mapped (patched i None desc None) u t"
    using ds by (cases desc)
      (auto simp: runs patched_simps groups_mapped_id update_group_def groups_mapped_def dest!: execute_InrD)
  moreover have "(\<lambda>g. patched i None desc None (patched i name None None g)) = patched i name desc None"
    by (simp add: patched_def fun_eq_iff split: option.splits)
  ultimately show ?thesis using groups_mapped_trans by fastforce
qed

lemma patch_body_runs:
  assumes "patch_body g i name desc dflt d = (Inr x, t)"
  shows "groups_mapped (patched i name desc dflt) d t"
proof -
  obtain u y where e: "patch_edits i name desc d = (Inr y, u)"
    and m: "(if dflt = Some True
              then if system_kind g = Some ADMIN_SCOPE then throw admin_default_error
                   else map_err repo_db_err (execute (mark_default (\<lambda>h. g_id h = i)))
              else ret ()) u = (Inr x, t)"
    using assms unfolding patch_body_def andthen_runs by blast
  have "dflt \<noteq> Some True \<Longrightarrow> patched i None None dflt = (\<lambda>g. g)"
    by (simp add: patched_def fun_eq_iff)
  then have "groups_mapped (patched i None None dflt) u t"
    using m by (auto simp: runs groups_mapped_def mark_default_def patched_def dest!: execute_InrD split: if_splits)
  moreover have "(\<lambda>g. patched i None None dflt (patched i name desc None g)) = patched i name desc dflt"
    by (simp add: patched_def fun_eq_iff split: option.splits)
  ultimately show ?thesis using patch_edits_runs [OF e] groups_mapped_trans by fastforce
qed

text \<open>A patch of a group happens entirely or not at all, whatever statement of it fails and
  wherever the connection breaks: either only the connection's outcomes moved on, or the group
  table is the old one with every requested change and every other table is unchanged. A reported
  success is the second case, and the returned group is its new row.\<close>

theorem patch_group_atomic:
  "patch_group i name desc dflt d = (r, t) \<Longrightarrow>
   (groups_mapped (\<lambda>g. g) d t \<and> (\<exists>e. r = Inl e)) \<or>
   (groups_mapped (patched i name desc dflt) d t \<and>
    (\<forall>g. r = Inr g \<longrightarrow> find (\<lambda>g. g_id g = i) (groups t) = Some g))"
proof -
  assume p: "patch_group i name desc dflt d = (r, t)"
  have got: "groups_mapped (\<lambda>g. g) s (snd (get_group i s))" for s
  proof -
    obtain xs where "snd (select (\<lambda>d. find (\<lambda>g. g_id g = i) (groups d)) s) = s\<lparr>outcomes := xs\<rparr>"
      using select_state by blast
    then show ?thesis
      by (auto simp: get_group_def groups_mapped_ex comp_defs split: prod.splits sum.splits option.splits)
  qed
  obtain q s where g: "get_group i d = (q, s)" by (cases "get_group i d")
  have s: "groups_mapped (\<lambda>g. g) d s" using got [of d] g by simp
  show ?thesis
  proof (cases q)
    case (Inl e)
    with p g s show ?thesis by (auto simp: patch_group_def bnd_def)
  next
    case (Inr g0)
    obtain r1 u where tr: "transaction repo_db_err (patch_body g0 i name desc dflt) s = (r1, u)"
      by (cases "transaction repo_db_err (patch_body g0 i name desc dflt) s")
    have t: "(\<exists>e. r1 = Inl e \<and> r = Inl e \<and> t = u) \<or> (\<exists>x. r1 = Inr x \<and> get_group i u = (r, t))"
      using p g Inr tr by (cases r1) (auto simp: patch_group_def andthen_def bnd_def)
    from tr show ?thesis
    proof (cases rule: transaction_cases)
      case (undone e xs)
      then have "groups_mapped (\<lambda>g. g) s u" by (auto simp: groups_mapped_ex)
      then have "groups_mapped (\<lambda>g. g) d u" by (rule groups_mapped_trans [OF s])
      with undone t show ?thesis by auto
    next
      case (finished xs a d2 ys)
      have "groups_mapped (patched i name desc dflt) s u"
        using patch_body_runs [OF finished(1)] finished(2)
        by (auto simp: groups_mapped_ex intro!: exI [of _ ys])
      then have u: "groups_mapped (patched i name desc dflt) d u" by (rule groups_mapped_trans [OF s])
      have "groups_mapped (\<lambda>g. g) u t \<and> (\<forall>g. r = Inr g \<longrightarrow> find (\<lambda>g. g_id g = i) (groups t) = Some g)"
        using t got [of u] get_group_runs [of i u] by (auto simp: groups_mapped_def)
      with groups_mapped_trans [OF u] show ?thesis by fastforce
    qed
  qed
qed

theorem patch_group_atomic_witness:
  "\<exists>t. patch_group 1 (Some ''Crew'') None (Some True) (sample_db\<lparr>outcomes := [Completes, Completes, Completes, FailsAfter]\<rparr>)
        = (Inl internal, t) \<and> groups_mapped (\<lambda>g. g) (sample_db\<lparr>outcomes := [Completes, Completes, Completes, FailsAfter]\<rparr>) t"
proof -
  let ?d = "sample_db\<lparr>outcomes := [Completes, Completes, Completes, FailsAfter]\<rparr>"
  have "trim ''Crew'' = ''Crew''" by code_simp
  then have run: "patch_group 1 (Some ''Crew'') None (Some True) ?d = (Inl internal, sample_db)"
    by (simp add: patch_group_def get_group_def patch_body_def patch_edits_def transaction_def rolled_back_def
        select_def execute_def query_def next_outcome_def comp_defs update_group_name_def update_group_def
        mark_default_def repo_db_err_def db_err_def sample_db_def empty_db_def new_group_def ADMIN_SCOPE_def)
  have "\<not> groups_mapped (patched 1 (Some ''Crew'') None (Some True)) ?d sample_db"
    by (simp add: groups_mapped_def patched_def sample_db_def empty_db_def new_group_def)
  with patch_group_atomic [OF run] run show ?thesis by blast
qed

end
