(* ===== verification/Group_Routes.thy ===== *)
theory Group_Routes
  imports Group_Policy Sessions
begin

text \<open>
  The handlers of \<^verbatim>\<open>permissions/routes.rs\<close>: who may read and change groups. Each handler asks for a
  permission, some for a fresh reauthentication, and then calls the repository of \<open>Permissions\<close>. A reply
  is the value the handler serialises; \<open>unit\<close> stands for \<open>204 No Content\<close>.
\<close>

section \<open>Guards\<close>

text \<open>The reauthentication check of a handler, with the libraries, the secret and the clock of its
  environment.\<close>

definition reauth :: "env \<Rightarrow> auth_principal \<Rightarrow> headers \<Rightarrow> reauth_risk \<Rightarrow> api_error + unit" where
  "reauth E a hs r = check_reauth_header (libs_of E) (jwt_secret (sec E)) (now_of E) a hs r"

text \<open>The shape shared by the administrative handlers: permission, optional reauthentication, database.\<close>

definition guarded ::
  "auth_principal \<Rightarrow> string \<Rightarrow> api_error + unit \<Rightarrow> (db, api_error, 'a) comp \<Rightarrow> (db option, api_error, 'a) comp" where
  "guarded a p q m = andthen (require a p) (andthen (from_result q) (with_db m))"

section \<open>Handlers\<close>

definition route_manifest :: "auth_principal \<Rightarrow> (db option, api_error, permission_def list) comp" where
  "route_manifest a = andthen (require a ''group:view'') (ret permission_manifest)"

record group_list_item =
  item_group :: group
  item_member_count :: int
  item_permissions :: "string list"

record group_list_response =
  gl_items :: "group_list_item list"
  gl_total :: int
  gl_page :: int
  gl_page_num :: int

definition route_list :: "auth_principal \<Rightarrow> (db option, api_error, group_list_response) comp" where
  "route_list a = guarded a ''group:view'' (Inr ())
     (bnd list_groups (\<lambda>gs.
      bnd (fold_each gs (\<lambda>g.
        bnd (list_group_permissions (g_id (gc_group g))) (\<lambda>ps.
          ret \<lparr>item_group = gc_group g, item_member_count = member_count g, item_permissions = ps\<rparr>))) (\<lambda>items.
      ret \<lparr>gl_items = items, gl_total = int (length items), gl_page = 1, gl_page_num = max (int (length items)) 1\<rparr>)))"

record create_group_body =
  cg_name :: string
  cg_description :: string
  cg_is_default :: "bool option"

definition route_create ::
  "env \<Rightarrow> uuid \<Rightarrow> auth_principal \<Rightarrow> headers \<Rightarrow> create_group_body \<Rightarrow> (db option, api_error, group) comp" where
  "route_create E new_id a hs b =
     guarded a ''group:create'' (if cg_is_default b = Some True then reauth E a hs RHigh else Inr ())
       (create_group new_id (cg_name b) (cg_description b) (cg_is_default b))"

record group_detail =
  gd_group :: group
  gd_permissions :: "string list"
  gd_effective :: "string list"
  gd_members :: "user list"

definition route_detail :: "auth_principal \<Rightarrow> uuid \<Rightarrow> (db option, api_error, group_detail) comp" where
  "route_detail a i = guarded a ''group:view'' (Inr ())
     (bnd (get_group i) (\<lambda>g.
      bnd (list_group_permissions i) (\<lambda>ps.
      bnd (effective_group_permissions i) (\<lambda>es.
      bnd (list_group_members i) (\<lambda>ms.
      ret \<lparr>gd_group = g, gd_permissions = ps, gd_effective = es, gd_members = ms\<rparr>)))))"

definition route_set_default ::
  "env \<Rightarrow> auth_principal \<Rightarrow> headers \<Rightarrow> uuid \<Rightarrow> (db option, api_error, unit) comp" where
  "route_set_default E a hs i = guarded a ''group:edit'' (reauth E a hs RHigh) (set_default_group i)"

record patch_group_body =
  pg_name :: "string option"
  pg_description :: "string option"
  pg_is_default :: "bool option"

definition route_patch_group ::
  "env \<Rightarrow> auth_principal \<Rightarrow> headers \<Rightarrow> uuid \<Rightarrow> patch_group_body \<Rightarrow> (db option, api_error, group) comp" where
  "route_patch_group E a hs i b =
     guarded a ''group:edit'' (if pg_is_default b = Some True then reauth E a hs RHigh else Inr ())
       (patch_group i (pg_name b) (pg_description b) (pg_is_default b))"

definition route_delete_group :: "auth_principal \<Rightarrow> uuid \<Rightarrow> (db option, api_error, unit) comp" where
  "route_delete_group a i = guarded a ''group:delete'' (Inr ()) (delete_group i)"

definition route_add_permission ::
  "env \<Rightarrow> auth_principal \<Rightarrow> headers \<Rightarrow> uuid \<Rightarrow> string \<Rightarrow> (db option, api_error, unit) comp" where
  "route_add_permission E a hs i p = guarded a ''group:edit'' (reauth E a hs RHigh) (add_permission i p)"

definition route_remove_permission ::
  "env \<Rightarrow> auth_principal \<Rightarrow> headers \<Rightarrow> uuid \<Rightarrow> string \<Rightarrow> (db option, api_error, unit) comp" where
  "route_remove_permission E a hs i p = guarded a ''group:edit'' (reauth E a hs RHigh) (remove_permission i p)"

definition route_replace_members ::
  "env \<Rightarrow> (nat \<Rightarrow> uuid) \<Rightarrow> auth_principal \<Rightarrow> headers \<Rightarrow> uuid \<Rightarrow> uuid list \<Rightarrow> (db option, api_error, unit) comp" where
  "route_replace_members E ids a hs i us =
     guarded a ''group:assign_user'' (reauth E a hs RHigh) (replace_group_members ids i us)"

definition route_replace_permissions ::
  "env \<Rightarrow> auth_principal \<Rightarrow> headers \<Rightarrow> uuid \<Rightarrow> string list \<Rightarrow> (db option, api_error, unit) comp" where
  "route_replace_permissions E a hs i ps =
     guarded a ''group:edit'' (reauth E a hs RHigh) (replace_group_permissions i ps)"

definition route_add_member ::
  "env \<Rightarrow> auth_principal \<Rightarrow> headers \<Rightarrow> uuid \<Rightarrow> uuid \<Rightarrow> (db option, api_error, unit) comp" where
  "route_add_member E a hs i u = guarded a ''group:assign_user'' (reauth E a hs RHigh) (add_member i u)"

definition route_remove_member ::
  "env \<Rightarrow> (nat \<Rightarrow> uuid) \<Rightarrow> auth_principal \<Rightarrow> headers \<Rightarrow> uuid \<Rightarrow> uuid \<Rightarrow> (db option, api_error, unit) comp" where
  "route_remove_member E ids a hs i u =
     guarded a ''group:assign_user'' (reauth E a hs RHigh) (remove_member ids i u)"

definition run_bootstrap :: "(nat \<Rightarrow> uuid) \<Rightarrow> (db, api_error, unit) comp" where
  "run_bootstrap ids = map_err (\<lambda>_. internal) (bootstrap_groups ids)"

section \<open>The whole interface\<close>

text \<open>A request to the group interface, and how it is served.\<close>

datatype group_request =
    GManifest
  | GList
  | GCreate create_group_body
  | GDetail uuid
  | GSetDefault uuid
  | GPatch uuid patch_group_body
  | GDelete uuid
  | GAddPermission uuid string
  | GRemovePermission uuid string
  | GReplaceMembers uuid "uuid list"
  | GReplacePermissions uuid "string list"
  | GAddMember uuid uuid
  | GRemoveMember uuid uuid

definition reply :: "('s, 'e, 'a) comp \<Rightarrow> ('s, 'e, unit) comp" where
  "reply m = bnd m (\<lambda>_. ret ())"

fun serve_group ::
  "env \<Rightarrow> (nat \<Rightarrow> uuid) \<Rightarrow> auth_principal \<Rightarrow> headers \<Rightarrow> group_request \<Rightarrow> (db option, api_error, unit) comp" where
  "serve_group E ids a hs GManifest = reply (route_manifest a)"
| "serve_group E ids a hs GList = reply (route_list a)"
| "serve_group E ids a hs (GCreate b) = reply (route_create E (ids 0) a hs b)"
| "serve_group E ids a hs (GDetail i) = reply (route_detail a i)"
| "serve_group E ids a hs (GSetDefault i) = route_set_default E a hs i"
| "serve_group E ids a hs (GPatch i b) = reply (route_patch_group E a hs i b)"
| "serve_group E ids a hs (GDelete i) = route_delete_group a i"
| "serve_group E ids a hs (GAddPermission i p) = route_add_permission E a hs i p"
| "serve_group E ids a hs (GRemovePermission i p) = route_remove_permission E a hs i p"
| "serve_group E ids a hs (GReplaceMembers i us) = route_replace_members E ids a hs i us"
| "serve_group E ids a hs (GReplacePermissions i ps) = route_replace_permissions E a hs i ps"
| "serve_group E ids a hs (GAddMember i u) = route_add_member E a hs i u"
| "serve_group E ids a hs (GRemoveMember i u) = route_remove_member E ids a hs i u"

text \<open>The policy the interface promises: a permission for every request, and a reauthentication for
  everything that touches members, permissions or the default group.\<close>

fun required_permission :: "group_request \<Rightarrow> string" where
  "required_permission GManifest = ''group:view''"
| "required_permission GList = ''group:view''"
| "required_permission (GCreate b) = ''group:create''"
| "required_permission (GDetail i) = ''group:view''"
| "required_permission (GDelete i) = ''group:delete''"
| "required_permission (GReplaceMembers i us) = ''group:assign_user''"
| "required_permission (GAddMember i u) = ''group:assign_user''"
| "required_permission (GRemoveMember i u) = ''group:assign_user''"
| "required_permission _ = ''group:edit''"

fun needs_reauth :: "group_request \<Rightarrow> bool" where
  "needs_reauth GManifest = False"
| "needs_reauth GList = False"
| "needs_reauth (GDetail i) = False"
| "needs_reauth (GDelete i) = False"
| "needs_reauth (GCreate b) = (cg_is_default b = Some True)"
| "needs_reauth (GPatch i b) = (pg_is_default b = Some True)"
| "needs_reauth _ = True"

section \<open>No request gets past its guards\<close>

text \<open>Two states of the pool with the same tables.\<close>

definition pool_untouched :: "db option \<Rightarrow> db option \<Rightarrow> bool" where
  "pool_untouched s t \<longleftrightarrow>
     (case (s, t) of (None, None) \<Rightarrow> True | (Some d, Some d') \<Rightarrow> untouched d d' | _ \<Rightarrow> False)"

interpretation pool_reader: frame pool_untouched
proof
  show "pool_untouched s s" for s by (simp add: pool_untouched_def reader.refl_R split: option.splits)
  show "pool_untouched s u" if "pool_untouched s t" "pool_untouched t u" for s t u
    using that by (auto simp: pool_untouched_def intro: reader.trans_R split: option.splits)
qed

lemma pool_untouched_with_db: "obeys untouched m \<Longrightarrow> obeys pool_untouched (with_db m)"
  unfolding obeys_def
  by (auto simp: pool_untouched_def with_db_def split: option.splits prod.splits) (metis snd_conv)

lemma require_reads: "obeys pool_untouched (require a p)"
  unfolding require_def has_permission_def permissions_for_principal_def permissions_for_user_def
  by (intro pool_reader.obeys_intros pool_untouched_with_db reader.table_intros)

text \<open>A principal may use a permission: Root always, a user by the groups it is in.\<close>

definition may :: "db option \<Rightarrow> auth_principal \<Rightarrow> string \<Rightarrow> bool" where
  "may s a p \<longleftrightarrow> is_root a \<or> (\<exists>d. s = Some d \<and> p \<in> granted d (sub a))"

lemma require_may: "require a p s = (Inr u, t) \<Longrightarrow> may s a p"
  using require_runs [of a p s u t] by (auto simp: may_def)

lemma granted_untouched: "untouched d d' \<Longrightarrow> granted d' u = granted d u"
  by (auto simp: untouched_def granted_def member_groups_def)

text \<open>The two ways a guarded handler can end: some guard refused and nothing was written, or every
  guard was passed and the rest ran on the same tables.\<close>

lemma guarded_cases:
  assumes "guarded a p q m s = (r, t)"
  obtains (refused) e where "r = Inl e" and "pool_untouched s t"
  | (passed) d d1 d' where "may s a p" and "q = Inr ()" and "s = Some d" and "untouched d d1"
      and "m d1 = (r, d')" and "t = Some d'"
proof -
  obtain x s1 where g: "require a p s = (x, s1)" by (cases "require a p s")
  have s1: "pool_untouched s s1" by (rule obeys_run [OF require_reads g])
  show thesis
  proof (cases "x = Inr () \<and> q = Inr () \<and> s1 \<noteq> None")
    case True
    then obtain d1 where "s1 = Some d1" by auto
    moreover from this s1 obtain d where "s = Some d" "untouched d d1"
      by (auto simp: pool_untouched_def split: option.splits)
    moreover obtain y d' where "m d1 = (y, d')" by (cases "m d1")
    ultimately show thesis
      using passed [of d d1 d'] assms g True require_may [of a p s "()" s1]
      by (auto simp: guarded_def andthen_def bnd_def from_result_def with_db_def)
  next
    case False
    then have "(\<exists>e. r = Inl e) \<and> t = s1"
      using assms g by (cases x; cases q; cases s1)
        (auto simp: guarded_def andthen_def bnd_def from_result_def with_db_def)
    with s1 show thesis using refused by blast
  qed
qed

text \<open>So a handler that succeeds, or that changes any table, has passed every guard.\<close>

lemma guarded_enforced:
  assumes "guarded a p q m s = (r, t)" and "(\<exists>x. r = Inr x) \<or> \<not> pool_untouched s t"
  shows "may s a p \<and> q = Inr ()"
  using assms by (cases rule: guarded_cases) auto

lemma reply_guarded: "reply (guarded a p q m) = guarded a p q (reply m)"
  by (rule ext) (auto simp: reply_def guarded_def andthen_def bnd_def ret_def from_result_def with_db_def
      split: prod.splits sum.splits option.splits)

lemmas route_defs =
  route_list_def route_create_def route_detail_def route_set_default_def route_patch_group_def route_delete_group_def
  route_add_permission_def route_remove_permission_def route_replace_members_def route_replace_permissions_def
  route_add_member_def route_remove_member_def

text \<open>Every request but one is guarded exactly as the policy says.\<close>

lemma serve_guarded:
  assumes "q \<noteq> GManifest"
  shows "\<exists>m. serve_group E ids a hs q =
    guarded a (required_permission q) (if needs_reauth q then reauth E a hs RHigh else Inr ()) m"
  using assms by (cases q) (auto simp: route_defs reply_guarded)

lemma manifest_enforced:
  assumes "reply (route_manifest a) s = (r, t)" and "(\<exists>x. r = Inr x) \<or> \<not> pool_untouched s t"
  shows "may s a ''group:view''"
proof -
  obtain x s1 where g: "require a ''group:view'' s = (x, s1)" by (cases "require a ''group:view'' s")
  have "pool_untouched s s1" by (rule obeys_run [OF require_reads g])
  then show ?thesis
    using assms g require_may [of a "''group:view''" s "()" s1]
    by (cases x) (auto simp: reply_def route_manifest_def andthen_def bnd_def ret_def)
qed


text \<open>On a database that answers, a granted permission is enough for the guard.\<close>

lemma require_granted:
  assumes "p \<in> granted d (sub a)" and "outcomes d = []" and "\<not> is_root a"
  shows "require a p (Some d) = (Inr (), Some d)"
  using assms
  by (simp add: require_def has_permission_def permissions_for_principal_def with_db_def comp_defs
      permissions_for_user_def resolve_rows)

definition staff_db :: db where
  "staff_db = sample_db\<lparr>group_permissions := [(1, ''group:assign_user'')]\<rparr>"

definition sudo_env :: env where
  "sudo_env = demo_env\<lparr>libs_of := sudo_libs\<rparr>"

lemma staff_granted: "granted staff_db 7 = {''group:assign_user''}"
  by (auto simp: granted_def member_groups_def staff_db_def sample_db_def new_group_def empty_db_def ROOT_WILDCARD_def)

lemma staff_adds:
  "\<exists>t. serve_group sudo_env (\<lambda>_. 9) demo_principal [(''x-reauth-token'', ''t'')] (GAddMember 2 7) (Some staff_db) = (Inr (), t)"
proof -
  have g: "require demo_principal ''group:assign_user'' (Some staff_db) = (Inr (), Some staff_db)"
    by (rule require_granted)
      (simp_all add: demo_principal_def is_root_def staff_granted, simp add: staff_db_def sample_db_def empty_db_def)
  have "reauth sudo_env demo_principal [(''x-reauth-token'', ''t'')] RHigh = Inr ()"
    using sudo_check by (simp add: reauth_def sudo_env_def demo_env_def)
  with g show ?thesis
    by (simp add: route_add_member_def guarded_def andthen_def bnd_def from_result_def with_db_def add_member_def map_err_def
        query_calm insert_member_def staff_db_def sample_db_def empty_db_def new_group_def)
qed


end
