(* ===== verification/Audit_Log.thy ===== *)
theory Audit_Log
  imports Group_Routes Redirects
begin

text \<open>
  The audit log (\<^verbatim>\<open>audit/\<close>): recording an event under the constraints of its table, the filtered
  lists, the retention purge, the admin endpoints and the CSV export. The generated id of a new
  row is an argument; the display form of an instant is a parameter of the export.
\<close>

section \<open>The table\<close>

text \<open>The \<open>CHECK\<close> constraints of \<open>audit_events\<close> and its reference to \<open>users\<close>.\<close>

definition audit_allowed :: "new_audit_event \<Rightarrow> bool" where
  "audit_allowed e \<longleftrightarrow>
     ne_principal_type e \<in> {''user'', ''root''} \<and> ne_result e \<in> {''success'', ''denied'', ''error''}"

definition insert_audit :: "uuid \<Rightarrow> new_audit_event \<Rightarrow> unit statement" where
  "insert_audit i e d =
     (if \<not> audit_allowed e then Inl CheckViolation
      else if (\<exists>u. ne_actor_user_id e = Some u \<and> u \<notin> u_id ` set (users d)) then Inl ForeignKeyViolation
      else if i \<in> a_id ` set (audit_log d) then Inl UniqueViolation
      else Inr ((), d\<lparr>audit_log := audit_log d @ [\<lparr>a_id = i, occurred_at = clock d, a_event = e\<rparr>]\<rparr>))"

definition audit_db_err :: "sqlx_error \<Rightarrow> api_error" where
  "audit_db_err = db_err (api_error_new ResourceNotFound ''audit event not found'')"

definition record_event :: "uuid \<Rightarrow> new_audit_event \<Rightarrow> (db, api_error, unit) comp" where
  "record_event i e = map_err audit_db_err (query (insert_audit i e))"

definition newest_first :: "audit_row list \<Rightarrow> audit_row list" where
  "newest_first rows = rev (sort_key occurred_at rows)"

definition audit_list :: "int \<Rightarrow> (db, api_error, audit_row list) comp" where
  "audit_list lim =
     map_err audit_db_err (query (\<lambda>d.
       if lim < 0 then Inl InvalidStatement else Inr (take (nat lim) (newest_first (audit_log d)), d)))"

definition day :: int where "day = secs 86400"

text \<open>The number of rows deleted is the result.\<close>

definition purge_older_than :: "int \<Rightarrow> (db, api_error, nat) comp" where
  "purge_older_than days =
     map_err audit_db_err (query (\<lambda>d.
       let expired = (\<lambda>r. occurred_at r < clock d - days * day)
       in Inr (length (filter expired (audit_log d)), d\<lparr>audit_log := filter (\<lambda>r. \<not> expired r) (audit_log d)\<rparr>)))"

record audit_filter =
  f_action :: "string option"
  f_principal_type :: "string option"
  f_actor :: "uuid option"
  f_result :: "string option"

definition wanted :: "'a option \<Rightarrow> 'a \<Rightarrow> bool" where
  "wanted f x \<longleftrightarrow> f = None \<or> f = Some x"

definition audit_matches :: "audit_filter \<Rightarrow> audit_row \<Rightarrow> bool" where
  "audit_matches f r \<longleftrightarrow>
     wanted (f_action f) (ne_action (a_event r)) \<and> wanted (f_principal_type f) (ne_principal_type (a_event r)) \<and>
     (f_actor f = None \<or> ne_actor_user_id (a_event r) = f_actor f) \<and> wanted (f_result f) (ne_result (a_event r))"

text \<open>A negative limit or offset is an error of the statement.\<close>

definition list_filtered :: "audit_filter \<Rightarrow> int \<Rightarrow> int \<Rightarrow> (db, api_error, audit_row list) comp" where
  "list_filtered f lim off =
     map_err audit_db_err (query (\<lambda>d.
       if lim < 0 \<or> off < 0 then Inl InvalidStatement
       else Inr (take (nat lim) (drop (nat off) (newest_first (filter (audit_matches f) (audit_log d)))), d)))"

definition audit_get :: "uuid \<Rightarrow> (db, api_error, audit_row option) comp" where
  "audit_get i = map_err audit_db_err (select (\<lambda>d. find (\<lambda>r. a_id r = i) (audit_log d)))"

section \<open>The statement text\<close>

text \<open>The filtered list builds its SQL text piece by piece; a placeholder gets the number of dollar
  signs so far, and the values are bound in the same order.\<close>

definition next_placeholder :: "string \<Rightarrow> nat" where
  "next_placeholder sql = length (filter (\<lambda>c. c = CHR ''$'') sql)"

definition push_placeholder :: "string \<Rightarrow> string \<Rightarrow> string" where
  "push_placeholder sql clause =
     (let sql' = sql @ clause @ ''$'' in sql' @ nat_digits (next_placeholder sql'))"

definition push_if :: "bool \<Rightarrow> string \<Rightarrow> string \<Rightarrow> string" where
  "push_if b clause sql = (if b then push_placeholder sql clause else sql)"

definition audit_sql_head :: string where
  "audit_sql_head =
     ''SELECT id, occurred_at, principal_type, actor_user_id, actor_session_id, action,
                resource_type, resource_id, parameters_redacted, result, error_code,
                request_id, command_id, ip, user_agent
         FROM audit_events WHERE 1=1''"

definition list_filtered_sql :: "bool \<Rightarrow> bool \<Rightarrow> bool \<Rightarrow> bool \<Rightarrow> string" where
  "list_filtered_sql action ptype actor result =
     (let sql = push_if action '' AND action = '' audit_sql_head;
          sql = push_if ptype '' AND principal_type = '' sql;
          sql = push_if actor '' AND actor_user_id = '' sql;
          sql = push_if result '' AND result = '' sql;
          sql = push_placeholder sql '' ORDER BY occurred_at DESC LIMIT '';
          sql = push_placeholder sql '' OFFSET ''
      in sql)"

section \<open>The service\<close>

definition principal_event ::
  "auth_principal \<Rightarrow> string \<Rightarrow> string \<Rightarrow> string \<Rightarrow> json \<Rightarrow> string \<Rightarrow> string \<Rightarrow> string \<Rightarrow> string \<Rightarrow> string \<Rightarrow> new_audit_event" where
  "principal_event a action rtype rid params result err cid ip ua =
     \<lparr>ne_principal_type = show_principal (principal a), ne_actor_user_id = (if is_root a then None else Some (sub a)),
      ne_actor_session_id = Some (sid a), ne_action = action, ne_resource_type = rtype, ne_resource_id = rid,
      ne_parameters = params, ne_result = result, ne_error_code = err, ne_request_id = request_id a,
      ne_command_id = cid, ne_ip = ip, ne_user_agent = ua\<rparr>"

definition record_principal ::
  "uuid \<Rightarrow> auth_principal \<Rightarrow> string \<Rightarrow> string \<Rightarrow> string \<Rightarrow> json \<Rightarrow> string \<Rightarrow> string \<Rightarrow> string \<Rightarrow> string \<Rightarrow> string \<Rightarrow>
    (db, api_error, unit) comp" where
  "record_principal i a action rtype rid params result err cid ip ua =
     record_event i (principal_event a action rtype rid params result err cid ip ua)"

text \<open>The metadata an audited command carries to its executor.\<close>

record command_audit =
  ca_principal_type :: string
  ca_actor_user_id :: "uuid option"
  ca_actor_session_id :: uuid
  ca_action :: string
  ca_resource_type :: string
  ca_resource_id :: string
  ca_request_id :: string
  ca_ip :: string
  ca_user_agent :: string

definition completed_event :: "command_audit \<Rightarrow> json \<Rightarrow> string \<Rightarrow> string \<Rightarrow> string \<Rightarrow> new_audit_event" where
  "completed_event c params result err cid =
     \<lparr>ne_principal_type = ca_principal_type c, ne_actor_user_id = ca_actor_user_id c,
      ne_actor_session_id = Some (ca_actor_session_id c), ne_action = ca_action c,
      ne_resource_type = ca_resource_type c, ne_resource_id = ca_resource_id c, ne_parameters = params,
      ne_result = result, ne_error_code = err, ne_request_id = ca_request_id c, ne_command_id = cid,
      ne_ip = ca_ip c, ne_user_agent = ca_user_agent c\<rparr>"

definition record_completed_command ::
  "uuid \<Rightarrow> command_audit \<Rightarrow> json \<Rightarrow> string \<Rightarrow> string \<Rightarrow> string \<Rightarrow> (db, api_error, unit) comp" where
  "record_completed_command i c params result err cid = record_event i (completed_event c params result err cid)"

section \<open>Endpoints\<close>

record audit_params =
  ap_filter :: audit_filter
  ap_page :: "int option"
  ap_page_num :: "int option"

record audit_list_response =
  al_items :: "audit_row list"
  al_total :: int
  al_page :: int
  al_page_num :: int

definition route_audit_list :: "auth_principal \<Rightarrow> audit_params \<Rightarrow> (db option, api_error, audit_list_response) comp" where
  "route_audit_list a p =
     andthen (require a ''audit:view'') (with_db (
       let page = max (unwrap_or (ap_page p) 1) 1; page_num = unwrap_or (ap_page_num p) 20 in
       if \<not> (1 \<le> page_num \<and> page_num \<le> 100) then throw (validation ''pageNum must be between 1 and 100'')
       else bnd (list_filtered (ap_filter p) page_num (wrap64 ((page - 1) * page_num))) (\<lambda>events.
         ret \<lparr>al_items = events, al_total = int (length events), al_page = page, al_page_num = page_num\<rparr>)))"

definition route_audit_detail :: "auth_principal \<Rightarrow> uuid \<Rightarrow> (db option, api_error, audit_row) comp" where
  "route_audit_detail a i =
     andthen (require a ''audit:view'') (with_db (
       bnd (audit_get i) (\<lambda>r. some_or r (not_found ''audit event''))))"

text \<open>The display form of an instant is a parameter.\<close>

definition csv_escape :: "string \<Rightarrow> string" where
  "csv_escape s =
     (if contains s '','' \<or> contains s [CHR 0x22] \<or> contains s [CHR 0x0A]
      then [CHR 0x22] @ replace_all [CHR 0x22] [CHR 0x22, CHR 0x22] s @ [CHR 0x22]
      else s)"

definition csv_header :: "string list" where
  "csv_header = [''id'', ''occurred_at'', ''principal_type'', ''actor_user_id'', ''action'', ''resource_type'',
     ''resource_id'', ''result'', ''error_code'', ''request_id'', ''command_id'', ''ip'']"

definition csv_row :: "libs \<Rightarrow> (instant \<Rightarrow> string) \<Rightarrow> audit_row \<Rightarrow> string" where
  "csv_row L show_time r =
     (let e = a_event r in
      join_with '','' [uuid_text L (a_id r), show_time (occurred_at r), ne_principal_type e,
        (case ne_actor_user_id e of Some u \<Rightarrow> uuid_text L u | None \<Rightarrow> []),
        csv_escape (ne_action e), csv_escape (ne_resource_type e), csv_escape (ne_resource_id e), ne_result e,
        csv_escape (ne_error_code e), csv_escape (ne_request_id e), csv_escape (ne_command_id e), csv_escape (ne_ip e)]
      @ [CHR 0x0A])"

definition csv_response :: "libs \<Rightarrow> (instant \<Rightarrow> string) \<Rightarrow> audit_row list \<Rightarrow> string" where
  "csv_response L show_time rows =
     join_with '','' csv_header @ [CHR 0x0A] @ concat (map (csv_row L show_time) rows)"

datatype export = ExportCsv string | ExportJson "audit_row list"

definition route_export ::
  "libs \<Rightarrow> (instant \<Rightarrow> string) \<Rightarrow> auth_principal \<Rightarrow> string option \<Rightarrow> audit_filter \<Rightarrow> (db option, api_error, export) comp" where
  "route_export L show_time a fmt f =
     bnd (with_db (list_filtered f 10000 0)) (\<lambda>events.
       case fmt of
         None \<Rightarrow> andthen (require a ''audit:view'') (ret (ExportJson events))
       | Some v \<Rightarrow>
           if v = ''csv'' then andthen (require a ''audit:export'') (ret (ExportCsv (csv_response L show_time events)))
           else if v = ''json'' then andthen (require a ''audit:view'') (ret (ExportJson events))
           else throw (validation (''format must be csv or json, got '' @ v)))"

definition route_export_csv ::
  "libs \<Rightarrow> (instant \<Rightarrow> string) \<Rightarrow> auth_principal \<Rightarrow> audit_filter \<Rightarrow> (db option, api_error, string) comp" where
  "route_export_csv L show_time a f =
     guarded a ''audit:export'' (Inr ())
       (bnd (list_filtered f 10000 0) (\<lambda>events. ret (csv_response L show_time events)))"

section \<open>What the export says can be read back\<close>

text \<open>A reader of the CSV format (RFC 4180, lines ended by a line feed): a field is quoted, with doubled
  quotes inside, or runs up to the next comma or line feed.\<close>

fun quoted :: "string \<Rightarrow> string \<times> string" where
  "quoted [] = ([], [])"
| "quoted (c # cs) =
     (if c = CHR 0x22
      then (case cs of
              x # ds \<Rightarrow> if x = CHR 0x22 then (let (f, r) = quoted ds in (CHR 0x22 # f, r)) else ([], cs)
            | [] \<Rightarrow> ([], cs))
      else (let (f, r) = quoted cs in (c # f, r)))"

definition field_end :: "char \<Rightarrow> bool" where
  "field_end c \<longleftrightarrow> c = CHR '','' \<or> c = CHR 0x0A"

definition read_field :: "string \<Rightarrow> string \<times> string" where
  "read_field s =
     (case s of
        c # cs \<Rightarrow> if c = CHR 0x22 then quoted cs else (takeWhile (\<lambda>x. \<not> field_end x) s, dropWhile (\<lambda>x. \<not> field_end x) s)
      | [] \<Rightarrow> ([], []))"

lemma quoted_shorter: "length (snd (quoted s)) \<le> length s"
proof (induction s rule: length_induct)
  case (1 s)
  then have ih: "length (snd (quoted t)) \<le> length t" if "length t < length s" for t using that by blast
  show ?case
  proof (cases s)
    case (Cons c cs)
    show ?thesis
    proof (cases "c = CHR 0x22 \<and> cs \<noteq> [] \<and> hd cs = CHR 0x22")
      case True
      then obtain ds where "cs = CHR 0x22 # ds" by (cases cs) auto
      with True Cons ih [of ds] show ?thesis by (simp add: split_beta)
    next
      case False
      with Cons ih [of cs] show ?thesis by (cases cs) (simp_all add: split_beta)
    qed
  qed simp
qed

lemma read_field_shorter: "length (snd (read_field s)) \<le> length s"
proof (cases s)
  case Nil
  then show ?thesis by (simp add: read_field_def)
next
  case (Cons c cs)
  show ?thesis
  proof (cases "c = CHR 0x22")
    case True
    then have "read_field s = quoted cs" by (simp add: Cons read_field_def)
    with quoted_shorter [of cs] Cons show ?thesis by simp
  next
    case False
    then have "snd (read_field s) = dropWhile (\<lambda>x. \<not> field_end x) s" by (simp add: Cons read_field_def)
    then show ?thesis by (simp only: length_dropWhile_le)
  qed
qed

lemma read_field_rest: "(f, c # rest) = read_field s \<Longrightarrow> length rest < length s"
  using read_field_shorter [of s] by (metis Suc_le_eq length_Cons snd_conv)

text \<open>The fields of all lines: a comma ends a field, a line feed ends a line.\<close>

function read_csv :: "string \<Rightarrow> string list list" where
  "read_csv s =
     (if s = [] then []
      else case read_field s of
        (f, c # rest) \<Rightarrow>
          if c = CHR '','' then (case read_csv rest of l # ls \<Rightarrow> (f # l) # ls | [] \<Rightarrow> [[f, []]])
          else [f] # read_csv rest
      | (f, []) \<Rightarrow> [[f]])"
  by pat_completeness auto
termination
  by (relation "measure length") (auto dest: read_field_rest)

declare read_csv.simps [simp del]

definition plain :: "string \<Rightarrow> bool" where
  "plain f \<longleftrightarrow> (\<forall>c \<in> set f. \<not> field_end c \<and> c \<noteq> CHR 0x22)"

lemma contains_single: "contains s [c] \<longleftrightarrow> c \<in> set s"
  by (induction s) (auto simp: starts_with_def)

lemma quoted_doubled:
  "c \<noteq> CHR 0x22 \<Longrightarrow>
   quoted (concat (map (\<lambda>x. if x = CHR 0x22 then [CHR 0x22, CHR 0x22] else [x]) f) @ CHR 0x22 # c # rest) = (f, c # rest)"
  by (induction f) auto

lemma read_plain:
  assumes "plain f" and "field_end c"
  shows "read_field (f @ c # rest) = (f, c # rest)"
proof (cases f)
  case Nil
  with assms show ?thesis by (auto simp: read_field_def field_end_def)
next
  case (Cons x xs)
  with assms have "x \<noteq> CHR 0x22" by (simp add: plain_def)
  moreover have "takeWhile (\<lambda>x. \<not> field_end x) (f @ c # rest) = f" "dropWhile (\<lambda>x. \<not> field_end x) (f @ c # rest) = c # rest"
    using assms by (auto simp: plain_def takeWhile_append dropWhile_append)
  ultimately show ?thesis using Cons by (simp add: read_field_def)
qed

lemma read_escaped:
  assumes "field_end c"
  shows "read_field (csv_escape f @ c # rest) = (f, c # rest)"
proof (cases "plain f")
  case True
  then have "csv_escape f = f" by (auto simp: csv_escape_def contains_single plain_def field_end_def)
  then show ?thesis using read_plain [OF True assms] by simp
next
  case False
  then have "csv_escape f = [CHR 0x22] @ replace_all [CHR 0x22] [CHR 0x22, CHR 0x22] f @ [CHR 0x22]"
    by (auto simp: csv_escape_def contains_single plain_def field_end_def)
  moreover have "c \<noteq> CHR 0x22" using assms by (auto simp: field_end_def)
  ultimately show ?thesis by (simp add: read_field_def replace_single quoted_doubled)
qed

text \<open>A cell as the export writes it and the field it stands for.\<close>

definition cell :: "string \<Rightarrow> string \<Rightarrow> bool" where
  "cell w f \<longleftrightarrow> w = f \<and> plain f \<or> w = csv_escape f"

lemma read_cell: "cell w f \<Longrightarrow> field_end c \<Longrightarrow> read_field (w @ c # rest) = (f, c # rest)"
  by (auto simp: cell_def read_plain read_escaped)

lemma read_line:
  assumes "list_all2 cell ws fs" and "ws \<noteq> []"
  shows "read_csv (join_with '','' ws @ CHR 0x0A # rest) = fs # read_csv rest"
  using assms
proof (induction ws fs rule: list_all2_induct)
  case (Cons w ws f fs)
  show ?case
  proof (cases ws)
    case Nil
    then have "fs = []" using Cons by simp
    with Nil read_cell [OF Cons(1), of "CHR 0x0A" rest] show ?thesis
      by (subst read_csv.simps) (simp add: field_end_def)
  next
    case (Cons v vs)
    let ?rest = "join_with '','' ws @ CHR 0x0A # rest"
    have "read_csv ?rest = fs # read_csv rest" using Cons.IH Cons by simp
    moreover have "join_with '','' (w # ws) @ CHR 0x0A # rest = w @ CHR '','' # ?rest" using Cons by simp
    moreover have "read_field (w @ CHR '','' # ?rest) = (f, CHR '','' # ?rest)"
      by (rule read_cell [OF Cons.hyps(1)]) (simp add: field_end_def)
    ultimately show ?thesis by (subst read_csv.simps) simp
  qed
qed simp

text \<open>The twelve fields of an exported row.\<close>

definition csv_fields :: "libs \<Rightarrow> (instant \<Rightarrow> string) \<Rightarrow> audit_row \<Rightarrow> string list" where
  "csv_fields L show_time r =
     (let e = a_event r in
      [uuid_text L (a_id r), show_time (occurred_at r), ne_principal_type e,
       (case ne_actor_user_id e of Some u \<Rightarrow> uuid_text L u | None \<Rightarrow> []), ne_action e, ne_resource_type e,
       ne_resource_id e, ne_result e, ne_error_code e, ne_request_id e, ne_command_id e, ne_ip e])"

lemma read_row:
  assumes "\<And>i. plain (uuid_text L i)" and "\<And>t. plain (show_time t)" and "audit_allowed (a_event r)"
  shows "read_csv (csv_row L show_time r @ rest) = csv_fields L show_time r # read_csv rest"
proof -
  have p: "plain (ne_principal_type (a_event r))" "plain (ne_result (a_event r))" "plain []"
    using assms(3) by (auto simp: audit_allowed_def plain_def field_end_def)
  have u: "plain (case ne_actor_user_id (a_event r) of Some u \<Rightarrow> uuid_text L u | None \<Rightarrow> [])"
    using assms(1) p(3) by (cases "ne_actor_user_id (a_event r)") simp_all
  show ?thesis
    unfolding csv_row_def csv_fields_def Let_def append.assoc append_Cons append_Nil
    by (rule read_line) (use assms p u in \<open>simp_all add: cell_def\<close>)
qed

lemma header_cells: "list_all2 cell csv_header csv_header"
proof -
  have "list_all plain csv_header" by code_simp
  then show ?thesis by (simp add: list_all2_same list_all_iff cell_def)
qed

text \<open>The CSV export loses and forges nothing. Whatever text the actions, resources, error codes,
  request ids and addresses hold (commas, quotes, line feeds), a CSV reader gets back exactly the
  header and the fields of the rows, as long as identifiers and times are displayed without those
  three characters and the rows satisfy the constraints of their table.\<close>

theorem csv_round_trip:
  assumes "\<And>i. plain (uuid_text L i)" and "\<And>t. plain (show_time t)"
    and "\<And>r. r \<in> set rows \<Longrightarrow> audit_allowed (a_event r)"
  shows "read_csv (csv_response L show_time rows) = csv_header # map (csv_fields L show_time) rows"
proof -
  have "read_csv (concat (map (csv_row L show_time) rs)) = map (csv_fields L show_time) rs" if "set rs \<subseteq> set rows" for rs
    using that
  proof (induction rs)
    case Nil
    show ?case by (subst read_csv.simps) simp
  next
    case (Cons r rs)
    have "audit_allowed (a_event r)" using Cons(2) assms(3) by auto
    from read_row [OF assms(1,2) this, where rest = "concat (map (csv_row L show_time) rs)"] Cons show ?case by simp
  qed
  then have "read_csv (concat (map (csv_row L show_time) rows)) = map (csv_fields L show_time) rows" by simp
  with read_line [OF header_cells, of "concat (map (csv_row L show_time) rows)"] show ?thesis
    by (simp add: csv_response_def csv_header_def)
qed

definition plain_libs :: libs where
  "plain_libs = (demo_libs JNull)\<lparr>uuid_text := (\<lambda>i. ''u'')\<rparr>"

definition noisy_row :: audit_row where
  "noisy_row = \<lparr>a_id = 1, occurred_at = 5, a_event =
     \<lparr>ne_principal_type = ''root'', ne_actor_user_id = None, ne_actor_session_id = None, ne_action = ''a,b'',
      ne_resource_type = [CHR 0x22], ne_resource_id = [CHR 0x0A], ne_parameters = JNull, ne_result = ''success'',
      ne_error_code = [], ne_request_id = [], ne_command_id = [], ne_ip = ''::1'', ne_user_agent = []\<rparr>\<rparr>"

theorem csv_round_trip_witness:
  "read_csv (csv_response plain_libs (\<lambda>_. ''t'') [noisy_row]) =
     [csv_header, [''u'', ''t'', ''root'', [], ''a,b'', [CHR 0x22], [CHR 0x0A], ''success'', [], [], [], ''::1'']]"
proof -
  have "read_csv (csv_response plain_libs (\<lambda>_. ''t'') [noisy_row]) = csv_header # map (csv_fields plain_libs (\<lambda>_. ''t'')) [noisy_row]"
    by (rule csv_round_trip) (auto simp: plain_libs_def plain_def field_end_def audit_allowed_def noisy_row_def)
  then show ?thesis by (simp add: csv_fields_def noisy_row_def plain_libs_def)
qed

section \<open>Placeholders\<close>

definition digit :: "char \<Rightarrow> bool" where
  "digit c \<longleftrightarrow> c \<in> set ''0123456789''"

text \<open>The placeholders of a statement, as their digits, from left to right.\<close>

fun placeholders :: "string \<Rightarrow> string list" where
  "placeholders [] = []"
| "placeholders (c # cs) = (if c = CHR ''$'' then [takeWhile digit cs] else []) @ placeholders cs"

lemma placeholders_append:
  "t = [] \<or> \<not> digit (hd t) \<Longrightarrow> placeholders (s @ t) = placeholders s @ placeholders t"
proof (induction s)
  case (Cons c s)
  have "takeWhile digit (s @ t) = takeWhile digit s"
    using Cons.prems by (cases t; induction s) auto
  with Cons show ?case by simp
qed simp

lemma placeholders_none: "CHR ''$'' \<notin> set s \<Longrightarrow> placeholders s = []"
  by (induction s) auto

lemma digit_of_nat: "n < 10 \<Longrightarrow> digit (char_of (48 + n))" for n :: nat
proof -
  assume "n < 10"
  then have "n \<in> set [0, 1, 2, 3, 4, 5, 6, 7, 8, 9]" by auto
  moreover have "list_all (\<lambda>n. digit (char_of (48 + n))) [0, 1, 2, 3, 4, 5, 6, 7, 8, 9 :: nat]" by code_simp
  ultimately show ?thesis by (auto simp: list_all_iff)
qed

lemma nat_digits_digits: "\<forall>c \<in> set (nat_digits n). digit c"
  by (induction n rule: nat_digits.induct) (subst nat_digits.simps, auto intro: digit_of_nat)

lemma dollar_no_digit: "\<not> digit (CHR ''$'')" "\<not> digit (CHR '' '')"
  by (simp_all add: digit_def)

text \<open>The state of the builder: so many dollar signs, numbered consecutively.\<close>

definition numbered :: "nat \<Rightarrow> string \<Rightarrow> bool" where
  "numbered n sql \<longleftrightarrow> next_placeholder sql = n \<and> placeholders sql = map nat_digits [1 ..< Suc n]"

lemma numbered_push:
  assumes "numbered n sql" and "clause = CHR '' '' # w" and "CHR ''$'' \<notin> set clause"
  shows "numbered (Suc n) (push_placeholder sql clause)"
proof -
  let ?d = "nat_digits (Suc n)"
  have nd: "CHR ''$'' \<notin> set ?d" "takeWhile digit ?d = ?d"
    using nat_digits_digits [of "Suc n"] dollar_no_digit by (auto simp: takeWhile_eq_all_conv)
  have none: "filter (\<lambda>c. c = CHR ''$'') s = []" if "CHR ''$'' \<notin> set s" for s
    using that by (auto simp: filter_empty_conv)
  have n: "next_placeholder (sql @ clause @ ''$'') = Suc n"
    using assms(1) none [OF assms(3)] by (simp add: numbered_def next_placeholder_def)
  then have push: "push_placeholder sql clause = sql @ clause @ CHR ''$'' # ?d"
    by (simp add: push_placeholder_def)
  have tail: "placeholders (clause @ CHR ''$'' # ?d) = [?d]"
    using nd assms(3) dollar_no_digit by (simp add: placeholders_append placeholders_none)
  have "\<not> digit (hd (clause @ CHR ''$'' # ?d))" using assms(2) dollar_no_digit by simp
  from placeholders_append [OF disjI2 [OF this], of sql]
  have "placeholders (push_placeholder sql clause) = placeholders sql @ [?d]"
    unfolding push tail .
  moreover have "next_placeholder (push_placeholder sql clause) = Suc n"
    using assms(1) none [OF assms(3)] none [OF nd(1)] by (simp add: push numbered_def next_placeholder_def)
  ultimately show ?thesis using assms(1) by (simp add: numbered_def)
qed

lemma numbered_push_if:
  assumes "numbered n sql" and "clause = CHR '' '' # w" and "CHR ''$'' \<notin> set clause"
  shows "numbered (n + (if b then 1 else 0)) (push_if b clause sql)"
  using numbered_push [OF assms] assms(1) by (simp add: push_if_def)

lemma numbered_head: "numbered 0 audit_sql_head"
proof -
  have "CHR ''$'' \<notin> set audit_sql_head" by (simp add: audit_sql_head_def)
  then show ?thesis by (auto simp: numbered_def next_placeholder_def placeholders_none filter_empty_conv)
qed

text \<open>The filtered audit query numbers its placeholders one, two, three and so on, one for each
  value that is bound and in the order in which the values are bound, whichever filters are given.\<close>

theorem audit_placeholders:
  "placeholders (list_filtered_sql action ptype actor result) =
     map nat_digits [1 ..< 3 + length (filter id [action, ptype, actor, result])]"
proof -
  let ?n = "\<lambda>b :: bool. if b then 1 else 0 :: nat"
  have "numbered (Suc (Suc (0 + ?n action + ?n ptype + ?n actor + ?n result))) (list_filtered_sql action ptype actor result)"
    unfolding list_filtered_sql_def Let_def
    by (rule numbered_push, rule numbered_push, rule numbered_push_if, rule numbered_push_if, rule numbered_push_if,
        rule numbered_push_if, rule numbered_head) (rule refl | simp)+
  moreover have "Suc (Suc (Suc (0 + ?n action + ?n ptype + ?n actor + ?n result))) =
      3 + length (filter id [action, ptype, actor, result])"
    by simp
  ultimately show ?thesis unfolding numbered_def by metis
qed

end
