(* ===== verification/Commands.thy ===== *)
theory Commands
  imports Audit_Log
begin

text \<open>
  The command broker (\<^verbatim>\<open>commands/\<close>): the \<open>command_runs\<close> table, the redaction of arguments, and the queues
  that run the commands of one resource one after the other. A worker owns the receiving end of a
  bounded channel; a worker whose executor panics is gone, and with it what was still queued.
\<close>

section \<open>The \<open>command_runs\<close> table\<close>

definition command_db_err :: "sqlx_error \<Rightarrow> api_error" where
  "command_db_err = db_err (api_error_new ResourceNotFound ''command run not found'')"

definition command_statuses :: "string list" where
  "command_statuses = [''queued'', ''running'', ''succeeded'', ''failed'', ''cancelled'']"

definition insert_run :: "command_run \<Rightarrow> unit statement" where
  "insert_run c d =
     (if c_status c \<notin> set command_statuses \<or> c_scope c \<notin> {''personal'', ''server''} then Inl CheckViolation
      else if c_id c \<in> c_id ` set (command_runs d) then Inl UniqueViolation
      else Inr ((), d\<lparr>command_runs := command_runs d @ [c]\<rparr>))"

text \<open>A row with the defaults of the schema.\<close>

definition new_run :: "uuid \<Rightarrow> string \<Rightarrow> string \<Rightarrow> string \<Rightarrow> command_run" where
  "new_run i action actor key =
     \<lparr>c_id = i, c_action = action, c_actor = actor, c_command = [], c_scope = ''personal'', c_resource_key = key,
      arguments_redacted = JObj [], c_status = ''queued'', c_started_at = None, result_summary = [],
      c_error_code = [], c_finished_at = None\<rparr>"

definition insert_queued :: "uuid \<Rightarrow> string \<Rightarrow> string \<Rightarrow> string \<Rightarrow> json \<Rightarrow> (db, api_error, unit) comp" where
  "insert_queued i action actor key args =
     map_err command_db_err (query (insert_run ((new_run i action actor key)\<lparr>arguments_redacted := args\<rparr>)))"

definition update_run :: "uuid \<Rightarrow> (command_run \<Rightarrow> command_run) \<Rightarrow> db \<Rightarrow> db" where
  "update_run i f d = d\<lparr>command_runs := map (\<lambda>c. if c_id c = i then f c else c) (command_runs d)\<rparr>"

definition mark_running :: "uuid \<Rightarrow> (db, api_error, unit) comp" where
  "mark_running i =
     map_err command_db_err (execute (\<lambda>d.
       update_run i (\<lambda>c. c\<lparr>c_status := ''running'', c_started_at := Some (clock d)\<rparr>) d))"

definition mark_finished :: "uuid \<Rightarrow> string \<Rightarrow> string \<Rightarrow> string \<Rightarrow> (db, api_error, unit) comp" where
  "mark_finished i st summary err =
     map_err command_db_err (query (\<lambda>d.
       if i \<in> c_id ` set (command_runs d) \<and> st \<notin> set command_statuses then Inl CheckViolation
       else Inr ((), update_run i (\<lambda>c. c\<lparr>c_status := st, c_finished_at := Some (clock d),
              result_summary := summary, c_error_code := err\<rparr>) d)))"

definition insert_console_run :: "uuid \<Rightarrow> string \<Rightarrow> string \<Rightarrow> string \<Rightarrow> (db, api_error, unit) comp" where
  "insert_console_run i actor command scope =
     map_err command_db_err (query (insert_run
       ((new_run i ''pmp.cli.execute'' actor ''server'')\<lparr>c_command := command, c_scope := scope\<rparr>)))"

record command_view =
  cv_command_id :: uuid
  cv_command :: string
  cv_action :: string
  cv_status :: string
  cv_output :: "string option"
  cv_error :: "string option"
  cv_executed_at :: "instant option"
  cv_principal :: string
  cv_scope :: string

definition nullif_empty :: "string \<Rightarrow> string option" where
  "nullif_empty s = (if s = [] then None else Some s)"

definition view_run :: "command_run \<Rightarrow> command_view" where
  "view_run c =
     \<lparr>cv_command_id = c_id c, cv_command = c_command c, cv_action = c_action c, cv_status = c_status c,
      cv_output = nullif_empty (result_summary c), cv_error = nullif_empty (c_error_code c),
      cv_executed_at = c_finished_at c, cv_principal = c_actor c, cv_scope = c_scope c\<rparr>"

text \<open>\<open>ORDER BY finished_at DESC NULLS LAST\<close>.\<close>

definition recent_first :: "command_run list \<Rightarrow> command_run list" where
  "recent_first cs =
     rev (sort_key (\<lambda>c. case c_finished_at c of Some t \<Rightarrow> t | None \<Rightarrow> 0) (filter (\<lambda>c. c_finished_at c \<noteq> None) cs))
     @ filter (\<lambda>c. c_finished_at c = None) cs"

definition list_recent ::
  "string option \<Rightarrow> int \<Rightarrow> int \<Rightarrow> (db, api_error, command_view list \<times> int) comp" where
  "list_recent scope page page_num =
     (let offset = wrap64 ((page - 1) * page_num);
          matches = (\<lambda>c. case scope of Some s \<Rightarrow> s \<in> {''personal'', ''server''} \<longrightarrow> c_scope c = s | None \<Rightarrow> True) in
      bnd (map_err command_db_err (select (\<lambda>d. int (length (filter matches (command_runs d)))))) (\<lambda>total.
      bnd (map_err command_db_err (query (\<lambda>d.
             if page_num < 0 \<or> offset < 0 then Inl InvalidStatement
             else Inr (map view_run (take (nat page_num) (drop (nat offset) (recent_first (filter matches (command_runs d))))), d)))) (\<lambda>rows.
      ret (rows, total))))"

section \<open>Redaction\<close>

definition sensitive :: "string \<Rightarrow> bool" where
  "sensitive k \<longleftrightarrow>
     (let key = to_ascii_lowercase k in contains key ''password'' \<or> contains key ''token'' \<or> contains key ''secret'')"

definition redact_args :: "json \<Rightarrow> json" where
  "redact_args args =
     JObj (case as_object args of
             Some kvs \<Rightarrow> map (\<lambda>(k, v). (k, if sensitive k then JStr ''[REDACTED]'' else v)) kvs
           | None \<Rightarrow> [])"

section \<open>The broker\<close>

record task =
  t_command_id :: uuid
  t_action :: string
  t_actor :: string
  t_resource_key :: string
  t_args :: json
  t_args_redacted :: json
  t_completion :: bool
  t_audit :: "command_audit option"

record worker =
  queued :: "task list"
  running :: "task option"
  alive :: bool

type_synonym broker = "(string \<times> worker) list"

definition QUEUE_CAPACITY :: nat where "QUEUE_CAPACITY = 64"

definition idle_worker :: worker where
  "idle_worker = \<lparr>queued = [], running = None, alive = True\<rparr>"

definition worker_for :: "broker \<Rightarrow> string \<Rightarrow> worker" where
  "worker_for b k = (case aget b k of Some w \<Rightarrow> w | None \<Rightarrow> idle_worker)"

text \<open>\<open>try_send\<close> fails when the channel is full and when its receiver is gone.\<close>

definition submit :: "task \<Rightarrow> (broker, api_error, unit) comp" where
  "submit t b =
     (let k = t_resource_key t; w = worker_for b k in
      if alive w \<and> length (queued w) < QUEUE_CAPACITY
      then (Inr (), aput k (w\<lparr>queued := queued w @ [t]\<rparr>) b)
      else (Inl (api_error_new LongJobAccepted ''command queue full''), aput k w b))"

text \<open>The moves of a worker: it receives the next task, finishes it, or dies with it.\<close>

definition receive :: "string \<Rightarrow> broker \<Rightarrow> broker option" where
  "receive k b =
     (case aget b k of
        Some w \<Rightarrow>
          (case (alive w, running w, queued w) of
             (True, None, t # q) \<Rightarrow> Some (aput k (w\<lparr>queued := q, running := Some t\<rparr>) b)
           | _ \<Rightarrow> None)
      | None \<Rightarrow> None)"

definition complete :: "string \<Rightarrow> broker \<Rightarrow> (task \<times> broker) option" where
  "complete k b =
     (case aget b k of
        Some w \<Rightarrow> (case running w of Some t \<Rightarrow> Some (t, aput k (w\<lparr>running := None\<rparr>) b) | None \<Rightarrow> None)
      | None \<Rightarrow> None)"

definition die :: "string \<Rightarrow> broker \<Rightarrow> (task \<times> broker) option" where
  "die k b =
     (case aget b k of
        Some w \<Rightarrow>
          (case running w of
             Some t \<Rightarrow> Some (t, aput k \<lparr>queued = [], running = None, alive = False\<rparr> b)
           | None \<Rightarrow> None)
      | None \<Rightarrow> None)"

text \<open>A history: the tasks accepted and the tasks finished, in their order.\<close>

record broker_run =
  workers :: broker
  accepted :: "task list"
  finished :: "task list"

inductive broker_step :: "broker_run \<Rightarrow> broker_run \<Rightarrow> bool" where
  accept: "submit t (workers s) = (Inr (), b) \<Longrightarrow> broker_step s (s\<lparr>workers := b, accepted := accepted s @ [t]\<rparr>)"
| refuse: "submit t (workers s) = (Inl e, b) \<Longrightarrow> broker_step s (s\<lparr>workers := b\<rparr>)"
| start_task: "receive k (workers s) = Some b \<Longrightarrow> broker_step s (s\<lparr>workers := b\<rparr>)"
| end_task: "complete k (workers s) = Some (t, b) \<Longrightarrow> broker_step s (s\<lparr>workers := b, finished := finished s @ [t]\<rparr>)"
| panic: "die k (workers s) = Some (t, b) \<Longrightarrow> broker_step s (s\<lparr>workers := b\<rparr>)"

inductive_cases broker_stepE: "broker_step s s'"

section \<open>Serial and in order\<close>

text \<open>The tasks a worker still has, the running one first.\<close>

definition backlog :: "worker \<Rightarrow> task list" where
  "backlog w = (case running w of Some t \<Rightarrow> [t] | None \<Rightarrow> []) @ queued w"

definition for_key :: "string \<Rightarrow> task list \<Rightarrow> task list" where
  "for_key k ts = filter (\<lambda>t. t_resource_key t = k) ts"

definition key_ok :: "broker_run \<Rightarrow> string \<Rightarrow> bool" where
  "key_ok s k \<longleftrightarrow>
     (let w = worker_for (workers s) k in
      length (queued w) \<le> QUEUE_CAPACITY \<and>
      (alive w \<longrightarrow> for_key k (accepted s) = for_key k (finished s) @ backlog w) \<and>
      (\<not> alive w \<longrightarrow> backlog w = [] \<and> (\<exists>ls. for_key k (accepted s) = for_key k (finished s) @ ls)))"

definition broker_ok :: "broker_run \<Rightarrow> bool" where
  "broker_ok s \<longleftrightarrow> (\<forall>k. key_ok s k)"

definition broker_start :: broker_run where
  "broker_start = \<lparr>workers = [], accepted = [], finished = []\<rparr>"

lemma worker_for_aput [simp]: "worker_for (aput k w b) j = (if j = k then w else worker_for b j)"
  by (simp add: worker_for_def)

lemma for_key_snoc [simp]: "for_key k (ts @ [t]) = for_key k ts @ (if t_resource_key t = k then [t] else [])"
  by (simp add: for_key_def)

lemma backlog_key:
  assumes "key_ok s k" and "t \<in> set (backlog (worker_for (workers s) k))"
  shows "t_resource_key t = k" and "alive (worker_for (workers s) k)"
proof -
  show a: "alive (worker_for (workers s) k)" using assms by (auto simp: key_ok_def Let_def)
  then have "t \<in> set (for_key k (accepted s))" using assms by (auto simp: key_ok_def Let_def)
  then show "t_resource_key t = k" by (simp add: for_key_def)
qed

lemma receiveD:
  assumes "receive k b = Some b'"
  obtains t q where "queued (worker_for b k) = t # q" and "running (worker_for b k) = None" and "alive (worker_for b k)"
    and "b' = aput k ((worker_for b k)\<lparr>queued := q, running := Some t\<rparr>) b"
  using assms by (auto simp: receive_def worker_for_def split: option.splits bool.splits list.splits)

lemma completeD:
  assumes "complete k b = Some (t, b')"
  shows "running (worker_for b k) = Some t \<and> b' = aput k ((worker_for b k)\<lparr>running := None\<rparr>) b"
  using assms by (auto simp: complete_def worker_for_def split: option.splits)

lemma dieD:
  assumes "die k b = Some (t, b')"
  shows "running (worker_for b k) = Some t \<and> b' = aput k \<lparr>queued = [], running = None, alive = False\<rparr> b"
  using assms by (auto simp: die_def worker_for_def split: option.splits)

lemma key_ok_other:
  assumes "key_ok s j" and "worker_for (workers s') j = worker_for (workers s) j"
    and "for_key j (accepted s') = for_key j (accepted s)" and "for_key j (finished s') = for_key j (finished s)"
  shows "key_ok s' j"
  using assms by (simp add: key_ok_def)

lemma broker_ok_step:
  assumes ok: "broker_ok s" and "broker_step s s'"
  shows "broker_ok s'"
  unfolding broker_ok_def
proof
  fix j
  have okj: "key_ok s j" using ok by (simp add: broker_ok_def)
  from assms(2) show "key_ok s' j"
  proof (cases rule: broker_step.cases)
    case (accept t b)
    let ?k = "t_resource_key t"
    have "alive (worker_for (workers s) ?k)" "length (queued (worker_for (workers s) ?k)) < QUEUE_CAPACITY"
      "b = aput ?k ((worker_for (workers s) ?k)\<lparr>queued := queued (worker_for (workers s) ?k) @ [t]\<rparr>) (workers s)"
      using accept(2) by (auto simp: submit_def Let_def split: if_splits)
    with accept(1) okj show ?thesis by (auto simp: key_ok_def Let_def backlog_def)
  next
    case (refuse t e b)
    then have "b = aput (t_resource_key t) (worker_for (workers s) (t_resource_key t)) (workers s)"
      by (auto simp: submit_def Let_def split: if_splits)
    with refuse(1) show ?thesis by (intro key_ok_other [OF okj]) auto
  next
    case (start_task k b)
    from start_task(2) show ?thesis
    proof (rule receiveD)
      fix t q
      assume "queued (worker_for (workers s) k) = t # q" "running (worker_for (workers s) k) = None"
        "alive (worker_for (workers s) k)" "b = aput k ((worker_for (workers s) k)\<lparr>queued := q, running := Some t\<rparr>) (workers s)"
      with start_task(1) okj show ?thesis by (auto simp: key_ok_def Let_def backlog_def)
    qed
  next
    case (end_task k t b)
    from completeD [OF end_task(2)] have r: "running (worker_for (workers s) k) = Some t"
      "b = aput k ((worker_for (workers s) k)\<lparr>running := None\<rparr>) (workers s)" by simp_all
    have okk: "key_ok s k" using ok by (simp add: broker_ok_def)
    have "t \<in> set (backlog (worker_for (workers s) k))" using r(1) by (simp add: backlog_def)
    from backlog_key [OF okk this] r end_task(1) okj okk show ?thesis
      by (auto simp: key_ok_def Let_def backlog_def)
  next
    case (panic k t b)
    from dieD [OF panic(2)] have r: "running (worker_for (workers s) k) = Some t"
      "b = aput k \<lparr>queued = [], running = None, alive = False\<rparr> (workers s)" by simp_all
    with panic(1) okj show ?thesis by (auto simp: key_ok_def Let_def backlog_def)
  qed
qed

interpretation broker_system: invariant_system "\<lambda>s. s = broker_start" broker_step broker_ok
proof
  show "broker_ok s" if "s = broker_start" for s
    using that by (simp add: broker_ok_def key_ok_def broker_start_def worker_for_def idle_worker_def backlog_def for_key_def)
qed (rule broker_ok_step)

text \<open>C10: the commands of one resource run one at a time and in the order in which they were accepted. In
  every history of the broker, as long as the worker of a key lives, the accepted tasks of that key
  are exactly the finished ones, then the one that runs, then the at most 64 that wait, in this
  order: nothing is lost, repeated or overtaken. After a worker has died the finished tasks are
  still a prefix of the accepted ones.\<close>

theorem broker_serial:
  assumes "reachable (\<lambda>s. s = broker_start) broker_step s"
  shows "length (queued (worker_for (workers s) k)) \<le> 64 \<and>
    (alive (worker_for (workers s) k) \<longrightarrow>
       filter (\<lambda>t. t_resource_key t = k) (accepted s) =
         filter (\<lambda>t. t_resource_key t = k) (finished s) @
         (case running (worker_for (workers s) k) of Some t \<Rightarrow> [t] | None \<Rightarrow> []) @ queued (worker_for (workers s) k)) \<and>
    (\<not> alive (worker_for (workers s) k) \<longrightarrow>
       (\<exists>ls. filter (\<lambda>t. t_resource_key t = k) (accepted s) = filter (\<lambda>t. t_resource_key t = k) (finished s) @ ls))"
  using broker_system.reachable_inv [OF assms]
  by (simp add: broker_ok_def key_ok_def Let_def backlog_def for_key_def QUEUE_CAPACITY_def)

definition kick_task :: task where
  "kick_task = \<lparr>t_command_id = 1, t_action = ''room.kick'', t_actor = ''a'', t_resource_key = ''room:A'', t_args = JObj [],
     t_args_redacted = JObj [], t_completion = True, t_audit = None\<rparr>"

definition busy_broker :: broker_run where
  "busy_broker = \<lparr>workers = [(''room:A'', \<lparr>queued = [kick_task], running = Some kick_task, alive = True\<rparr>)],
     accepted = [kick_task, kick_task], finished = []\<rparr>"

definition one_worker :: "task list \<Rightarrow> task option \<Rightarrow> task list \<Rightarrow> broker_run" where
  "one_worker q r acc =
     \<lparr>workers = [(''room:A'', \<lparr>queued = q, running = r, alive = True\<rparr>)], accepted = acc, finished = []\<rparr>"

lemma one_worker_accepts:
  assumes "length q < 64"
  shows "broker_step (one_worker q r acc) (one_worker (q @ [kick_task]) r (acc @ [kick_task]))"
proof -
  have "submit kick_task (workers (one_worker q r acc)) = (Inr (), workers (one_worker (q @ [kick_task]) r acc))"
    using assms by (simp add: submit_def Let_def kick_task_def worker_for_def aget_def one_worker_def QUEUE_CAPACITY_def aput_def adel_def)
  from broker_step.accept [OF this] show ?thesis by (simp add: one_worker_def)
qed

lemma one_worker_starts: "broker_step (one_worker (t # q) None acc) (one_worker q (Some t) acc)"
proof -
  have "receive ''room:A'' (workers (one_worker (t # q) None acc)) = Some (workers (one_worker q (Some t) acc))"
    by (simp add: receive_def one_worker_def aget_def aput_def adel_def)
  from broker_step.start_task [OF this] show ?thesis by (simp add: one_worker_def)
qed

lemma first_accepted: "broker_step broker_start (one_worker [kick_task] None [kick_task])"
proof -
  have "submit kick_task (workers broker_start) = (Inr (), workers (one_worker [kick_task] None []))"
    by (simp add: submit_def Let_def kick_task_def worker_for_def broker_start_def idle_worker_def QUEUE_CAPACITY_def aput_def adel_def one_worker_def)
  from broker_step.accept [OF this] show ?thesis by (simp add: one_worker_def broker_start_def)
qed

lemma busy_reachable: "reachable (\<lambda>s. s = broker_start) broker_step busy_broker"
proof -
  let ?R = "reachable (\<lambda>s. s = broker_start) broker_step"
  have "?R broker_start" by (rule reachable.start) simp
  then have "?R (one_worker [kick_task] None [kick_task])" by (rule reachable.move) (rule first_accepted)
  then have "?R (one_worker [] (Some kick_task) [kick_task])" by (rule reachable.move) (rule one_worker_starts)
  then have "?R (one_worker ([] @ [kick_task]) (Some kick_task) ([kick_task] @ [kick_task]))"
    by (rule reachable.move) (rule one_worker_accepts, simp)
  then show ?thesis by (simp add: busy_broker_def one_worker_def)
qed

theorem broker_serial_witness:
  "alive (worker_for (workers busy_broker) ''room:A'') \<and>
   filter (\<lambda>t. t_resource_key t = ''room:A'') (accepted busy_broker) = [] @ [kick_task] @ [kick_task]"
  using broker_serial [OF busy_reachable, of "''room:A''"]
  by (simp add: busy_broker_def worker_for_def aget_def)

section \<open>What redaction hides\<close>

lemma map_of_redacted:
  "map_of (map (\<lambda>(k, v). (k, if sensitive k then JStr ''[REDACTED]'' else v)) kvs) k =
     map_option (\<lambda>v. if sensitive k then JStr ''[REDACTED]'' else v) (map_of kvs k)"
  by (induction kvs) auto

text \<open>The arguments that are stored and audited have exactly the fields of the original ones; a
  field whose name speaks of a password, a token or a secret, in any case, has its value replaced,
  and every other field is kept as it is, down to whatever is nested in it.\<close>

theorem redact_args_spec:
  "get_field (redact_args args) k =
     map_option (\<lambda>v. if sensitive k then JStr ''[REDACTED]'' else v) (get_field args k)"
  by (cases args) (simp_all add: redact_args_def get_field_def map_of_redacted)

end
