(* ===== verification/Open_Uds.thy ===== *)
theory Open_Uds
  imports Http
begin

text \<open>
  The link to the PMP game server (\<^verbatim>\<open>pmp/openuds/\<close>, \<^verbatim>\<open>pmp/capabilities.rs\<close>): length-prefixed frames on a Unix
  socket, the client that matches responses to the commands that wait for them, its reconnect
  backoff, and the errors other components see. Serialising and parsing JSON text is a parameter.
\<close>

unbundle bit_operations_syntax

section \<open>Frames\<close>

record json_codec =
  to_vec :: "json \<Rightarrow> string option"
  from_str :: "string \<Rightarrow> json option"
  valid_utf8 :: "string \<Rightarrow> bool"

datatype protocol_error =
    PayloadTooLarge "32 word"
  | InvalidLengthPrefix
  | InvalidUtf8
  | InvalidJsonText
  | ProtocolIo

definition MAX_PAYLOAD_SIZE :: "32 word" where
  "MAX_PAYLOAD_SIZE = 16 * 1024 * 1024"

definition byte_at :: "nat \<Rightarrow> 32 word \<Rightarrow> char" where
  "byte_at i w = char_of (unat (drop_bit (8 * i) w) mod 256)"

definition to_le_bytes :: "32 word \<Rightarrow> string" where
  "to_le_bytes w = [byte_at 0 w, byte_at 1 w, byte_at 2 w, byte_at 3 w]"

fun from_le_bytes :: "string \<Rightarrow> nat" where
  "from_le_bytes [] = 0"
| "from_le_bytes (c # cs) = of_char c + 256 * from_le_bytes cs"

text \<open>\<open>payload.len() as u32\<close> keeps the low 32 bits.\<close>

definition encode :: "json_codec \<Rightarrow> json \<Rightarrow> protocol_error + string" where
  "encode J v =
     (case to_vec J v of
        None \<Rightarrow> Inl InvalidJsonText
      | Some payload \<Rightarrow>
          (let len = (word_of_nat (length payload) :: 32 word) in
           if MAX_PAYLOAD_SIZE < len then Inl (PayloadTooLarge len)
           else Inr (to_le_bytes len @ payload)))"

definition read_exact :: "nat \<Rightarrow> string \<Rightarrow> protocol_error + string \<times> string" where
  "read_exact n s = (if n \<le> length s then Inr (take n s, drop n s) else Inl ProtocolIo)"

text \<open>The bytes after the frame stay in the stream.\<close>

definition read_frame :: "json_codec \<Rightarrow> string \<Rightarrow> protocol_error + json \<times> string" where
  "read_frame J s =
     (case read_exact 4 s of
        Inl e \<Rightarrow> Inl e
      | Inr (len_buf, s1) \<Rightarrow>
          (let n = from_le_bytes len_buf in
           if n = 0 then Inl InvalidLengthPrefix
           else if unat MAX_PAYLOAD_SIZE < n then Inl (PayloadTooLarge (word_of_nat n))
           else (case read_exact n s1 of
                   Inl e \<Rightarrow> Inl e
                 | Inr (payload, s2) \<Rightarrow>
                     if \<not> valid_utf8 J payload then Inl InvalidUtf8
                     else (case from_str J payload of None \<Rightarrow> Inl InvalidJsonText | Some v \<Rightarrow> Inr (v, s2)))))"

text \<open>The reader loop decodes frame after frame until the first error; \<open>fuel\<close> bounds the number of
  frames, and every frame takes at least five bytes.\<close>

fun read_frames :: "nat \<Rightarrow> json_codec \<Rightarrow> string \<Rightarrow> json list" where
  "read_frames 0 J s = []"
| "read_frames (Suc k) J s =
     (case read_frame J s of Inl e \<Rightarrow> [] | Inr (v, rest) \<Rightarrow> v # read_frames k J rest)"

section \<open>Capabilities\<close>

definition PMP_1_0_38_CAPABILITIES :: "string list" where
  "PMP_1_0_38_CAPABILITIES = [''persist.touches'', ''persist.judges'', ''persist.rounds'', ''room.chat_send'',
     ''stream.touches'', ''stream.judges'']"

definition capabilities_for_version :: "string \<Rightarrow> string list" where
  "capabilities_for_version v =
     (if starts_with v ''1.0.38'' \<or> v = ''1.0.38'' then PMP_1_0_38_CAPABILITIES else [])"

definition active_capabilities :: "string list \<Rightarrow> string option \<Rightarrow> string set" where
  "active_capabilities configured server_version =
     (case server_version of
        Some v \<Rightarrow>
          (let known = set (capabilities_for_version v)
           in if known = {} then set configured else set configured \<inter> known)
      | None \<Rightarrow> set configured)"

section \<open>Errors\<close>

datatype uds_error =
    Unavailable string
  | CommandFailed string string string
  | CapabilityMissing string
  | Timeout nat
  | UdsAuthRequired string
  | Protocol string
  | Io string

primrec uds_error_text :: "uds_error \<Rightarrow> string" where
  "uds_error_text (Unavailable m) = ''openuds unavailable: '' @ m"
| "uds_error_text (CommandFailed c k m) = ''command '' @ c @ '' failed: '' @ k @ '' '' @ m"
| "uds_error_text (CapabilityMissing c) = ''capability not supported: '' @ c"
| "uds_error_text (Timeout ms) = ''openuds request timed out after '' @ nat_digits ms @ ''ms''"
| "uds_error_text (UdsAuthRequired m) = ''openuds authentication required: '' @ m"
| "uds_error_text (Protocol m) = ''openuds protocol error: '' @ m"
| "uds_error_text (Io m) = ''openuds io error: '' @ m"

primrec uds_to_api :: "uds_error \<Rightarrow> api_error" where
  "uds_to_api (CapabilityMissing c) =
     with_details PmpCapabilityMissing (''capability not supported: '' @ c) (JObj [(''capability'', JStr c)])"
| "uds_to_api (CommandFailed c k m) = api_error_new PmpCommandFailed ''PMP command failed''"
| "uds_to_api (Unavailable m) = api_error_new PmpUnavailable m"
| "uds_to_api (Protocol m) = api_error_new PmpUnavailable m"
| "uds_to_api (Io m) = api_error_new PmpUnavailable m"
| "uds_to_api (Timeout ms) =
     api_error_new PmpUnavailable (''openuds request timed out after '' @ nat_digits ms @ ''ms'')"
| "uds_to_api (UdsAuthRequired m) = api_error_new PmpUnavailable m"

section \<open>Reconnecting\<close>

text \<open>\<open>u64\<close> arithmetic that saturates; the jitter is drawn from 80 to 120.\<close>

definition saturate :: "nat \<Rightarrow> nat" where
  "saturate n = min n (2 ^ 64 - 1)"

definition next_backoff :: "nat \<Rightarrow> nat \<Rightarrow> nat \<Rightarrow> nat \<Rightarrow> nat" where
  "next_backoff jitter tries base_ms max_ms =
     (if tries = 0 then min base_ms max_ms
      else let exponent = min (tries - 1) 10;
               delay = saturate (base_ms * saturate (2 ^ exponent));
               delay2 = saturate (delay * jitter) div 100
           in min delay2 max_ms)"

section \<open>The client\<close>

record response_frame =
  rf_id :: "string option"
  rf_ok :: bool
  rf_data :: "json option"
  rf_error :: "(string \<times> string) option"

text \<open>How a command ends: by a response frame, or without one.\<close>

datatype answer = Answered response_frame | Failed uds_error

definition command_result :: "string \<Rightarrow> answer \<Rightarrow> uds_error + json" where
  "command_result command a =
     (case a of
        Failed e \<Rightarrow> Inl e
      | Answered f \<Rightarrow>
          if rf_ok f then Inr (case rf_data f of Some v \<Rightarrow> v | None \<Rightarrow> JNull)
          else (case rf_error f of
                  Some (k, m) \<Rightarrow> Inl (CommandFailed command k m)
                | None \<Rightarrow> Inl (CommandFailed command ''COMMAND_ERROR'' ''command failed'')))"

text \<open>
  The shared state of the client: the request counter, whether a writer is installed, the active
  capabilities, and the table of pending requests. A caller is named by the number of commands that
  were sent before it; \<open>sent\<close> and \<open>answers\<close> record the history.
\<close>

record uds =
  next_id :: "64 word"
  writer :: bool
  caps :: "string set"
  pending :: "(string \<times> nat) list"
  sent :: nat
  answers :: "(nat \<times> answer) list"

definition uds_new :: uds where
  "uds_new = \<lparr>next_id = 1, writer = False, caps = {}, pending = [], sent = 0, answers = []\<rparr>"

definition finish :: "nat \<Rightarrow> answer \<Rightarrow> uds \<Rightarrow> uds" where
  "finish k a u = u\<lparr>answers := answers u @ [(k, a)]\<rparr>"

definition request_id_of :: "64 word \<Rightarrow> string" where
  "request_id_of w = nat_digits (unat w)"

text \<open>Sending: the request is registered before the frame is written and removed again when there is
  no writer or the write fails (\<open>failure\<close>).\<close>

definition send_command :: "string option \<Rightarrow> uds \<Rightarrow> uds" where
  "send_command failure u =
     (let i = request_id_of (next_id u);
          k = sent u;
          u1 = u\<lparr>next_id := next_id u + 1, sent := Suc k, pending := aput i k (pending u)\<rparr>
      in if writer u
         then (case failure of
                 Some e \<Rightarrow> finish k (Failed (Io e)) (u1\<lparr>pending := adel i (pending u1)\<rparr>)
               | None \<Rightarrow> u1)
         else finish k (Failed (Unavailable ''openuds not connected'')) (u1\<lparr>pending := adel i (pending u1)\<rparr>))"

definition handle_response :: "response_frame \<Rightarrow> uds \<Rightarrow> uds" where
  "handle_response f u =
     (case rf_id f of
        None \<Rightarrow> u
      | Some i \<Rightarrow>
          (case aget (pending u) i of
             None \<Rightarrow> u
           | Some k \<Rightarrow> finish k (Answered f) (u\<lparr>pending := adel i (pending u)\<rparr>)))"

definition time_out :: "string \<Rightarrow> nat \<Rightarrow> uds \<Rightarrow> uds" where
  "time_out i ms u =
     (case aget (pending u) i of
        None \<Rightarrow> u
      | Some k \<Rightarrow> finish k (Failed (Timeout ms)) (u\<lparr>pending := adel i (pending u)\<rparr>))"

text \<open>Clearing the table drops the senders, which every waiting caller sees as a closed connection.\<close>

definition set_disconnected :: "uds \<Rightarrow> uds" where
  "set_disconnected u =
     u\<lparr>writer := False, pending := [],
       answers := answers u @ map (\<lambda>e. (snd e, Failed (Unavailable ''openuds connection closed''))) (pending u)\<rparr>"

definition set_authenticated :: "string list \<Rightarrow> string \<Rightarrow> uds \<Rightarrow> uds" where
  "set_authenticated configured version u = u\<lparr>caps := active_capabilities configured (Some version)\<rparr>"

definition install_writer :: "uds \<Rightarrow> uds" where
  "install_writer u = u\<lparr>writer := True\<rparr>"

definition ensure_capability :: "string \<Rightarrow> uds \<Rightarrow> uds_error + unit" where
  "ensure_capability c u = (if c \<in> caps u then Inr () else Inl (CapabilityMissing c))"

inductive uds_step :: "uds \<Rightarrow> uds \<Rightarrow> bool" where
  sends: "uds_step u (send_command failure u)"
| responds: "uds_step u (handle_response f u)"
| expires: "uds_step u (time_out i ms u)"
| drops: "uds_step u (set_disconnected u)"
| authenticates: "uds_step u (set_authenticated configured version u)"
| connects: "uds_step u (install_writer u)"

inductive_cases uds_stepE: "uds_step u u'"

section \<open>Framing\<close>

lemma byte_value: "of_char (byte_at i w) = unat w div 2 ^ (8 * i) mod 256"
  by (simp add: byte_at_def unat_drop_bit_eq flip: drop_bit_eq_div)

lemma four_bytes:
  fixes n :: nat
  assumes "n < 2 ^ 32"
  shows "n mod 256 + 256 * (n div 256 mod 256 + 256 * (n div 65536 mod 256 + 256 * (n div 16777216 mod 256))) = n"
proof -
  have a: "n div 65536 = n div 256 div 256" "n div 16777216 = n div 256 div 256 div 256"
    by (simp_all add: div_mult2_eq [symmetric])
  have "n div 256 div 256 div 256 < 256" using assms by (simp add: div_mult2_eq [symmetric] less_mult_imp_div_less)
  then show ?thesis
    using div_mult_mod_eq [of n 256] div_mult_mod_eq [of "n div 256" 256] div_mult_mod_eq [of "n div 256 div 256" 256]
    unfolding a by simp
qed

lemma le_bytes_round_trip: "from_le_bytes (to_le_bytes w) = unat w"
proof -
  have "unat w < 2 ^ 32" using unsigned_less [of w] by simp
  note n = four_bytes [OF this]
  have p: "(2::nat) ^ (8 * 0) = 1" "(2::nat) ^ (8 * 1) = 256" "(2::nat) ^ (8 * 2) = 65536" "(2::nat) ^ (8 * 3) = 16777216"
    by simp_all
  show ?thesis
    unfolding to_le_bytes_def from_le_bytes.simps byte_value p mult_0_right power_0 div_by_1 add_0_right by (rule n)
qed

text \<open>What the JSON library guarantees: text it wrote is valid, not empty and is read back.\<close>

definition codec_laws :: "json_codec \<Rightarrow> bool" where
  "codec_laws J \<longleftrightarrow> (\<forall>v t. to_vec J v = Some t \<longrightarrow> t \<noteq> [] \<and> valid_utf8 J t \<and> from_str J t = Some v)"

lemma frame_round_trip:
  assumes "codec_laws J" and "to_vec J v = Some t" and "length t \<le> 16777216"
  shows "\<exists>buf. encode J v = Inr buf \<and> length buf = 4 + length t \<and> (\<forall>rest. read_frame J (buf @ rest) = Inr (v, rest))"
proof -
  let ?w = "word_of_nat (length t) :: 32 word"
  have w: "unat ?w = length t" using assms(3) by (simp add: unat_of_nat take_bit_nat_eq_self)
  have "\<not> MAX_PAYLOAD_SIZE < ?w" using assms(3) w by (simp add: word_less_nat_alt MAX_PAYLOAD_SIZE_def)
  then have e: "encode J v = Inr (to_le_bytes ?w @ t)" using assms(2) by (simp add: encode_def Let_def)
  have "read_frame J ((to_le_bytes ?w @ t) @ rest) = Inr (v, rest)" for rest
  proof -
    have four: "length (to_le_bytes ?w) = 4" by (simp add: to_le_bytes_def)
    then have r4: "read_exact 4 ((to_le_bytes ?w @ t) @ rest) = Inr (to_le_bytes ?w, t @ rest)"
      by (simp add: read_exact_def)
    have "t \<noteq> []" "valid_utf8 J t" "from_str J t = Some v" using assms(1,2) by (auto simp: codec_laws_def)
    then show ?thesis
      using assms(3) unfolding read_frame_def r4
      by (simp add: le_bytes_round_trip w read_exact_def MAX_PAYLOAD_SIZE_def)
  qed
  moreover have "length (to_le_bytes ?w @ t) = 4 + length t" by (simp add: to_le_bytes_def)
  ultimately show ?thesis using e by blast
qed


text \<open>The pause before a reconnect never exceeds the configured maximum, however often it failed
  and however large the numbers are, and from the second failure on it is at least eight tenths of
  the doubled base, as far as the maximum allows.\<close>

theorem backoff_bounds:
  assumes "80 \<le> jitter" and "base_ms * 1024 * 120 < 2 ^ 64" and "jitter \<le> 120"
  shows "next_backoff jitter tries base_ms max_ms \<le> max_ms \<and>
    min max_ms (if tries = 0 then base_ms else base_ms * 2 ^ min (tries - 1) 10 * 80 div 100)
      \<le> next_backoff jitter tries base_ms max_ms"
proof (cases "tries = 0")
  case False
  let ?e = "min (tries - 1) 10" and ?d = "base_ms * 2 ^ min (tries - 1) 10"
  have p: "(2::nat) ^ ?e \<le> 1024" using power_increasing [of ?e 10 "2 :: nat"] by simp
  then have s: "saturate (2 ^ ?e) = 2 ^ ?e" by (simp add: saturate_def)
  have d: "?d \<le> base_ms * 1024" using p by simp
  then have "?d * jitter \<le> base_ms * 1024 * 120" using assms(3) by (rule mult_le_mono)
  then have "?d * jitter < 2 ^ 64" using assms(2) by (rule le_less_trans)
  moreover have "?d \<le> base_ms * 1024 * 120" using d by (rule le_trans) simp
  then have "?d < 2 ^ 64" using assms(2) by (rule le_less_trans)
  moreover have sat: "saturate n = n" if "n < 2 ^ 64" for n using that by (simp add: saturate_def)
  ultimately have s2: "saturate ?d = ?d" "saturate (?d * jitter) = ?d * jitter" by blast+
  have "?d * 80 div 100 \<le> ?d * jitter div 100" using assms(1) by (intro div_le_mono) simp
  then have "min max_ms (?d * 80 div 100) \<le> min (?d * jitter div 100) max_ms" by linarith
  with False s s2 show ?thesis by (simp only: next_backoff_def Let_def if_False min.cobounded2)
qed (simp add: next_backoff_def)

section \<open>Every command is answered once, by its own response\<close>

text \<open>The decimal text of a number determines it.\<close>

fun digits_value :: "string \<Rightarrow> nat" where
  "digits_value [] = 0"
| "digits_value (c # cs) = (of_char c - 48) * 10 ^ length cs + digits_value cs"

lemma digits_value_snoc: "digits_value (s @ [c]) = digits_value s * 10 + (of_char c - 48)"
  by (induction s) (simp_all add: algebra_simps)

lemma digits_value_nat_digits: "digits_value (nat_digits n) = n"
proof (induction n rule: nat_digits.induct)
  case (1 n)
  then show ?case
    by (subst nat_digits.simps) (auto simp: digits_value_snoc)
qed

lemma nat_digits_inject [simp]: "nat_digits m = nat_digits n \<longleftrightarrow> m = n"
  by (metis digits_value_nat_digits)

text \<open>The identifier of the \<open>k\<close>-th command, as long as the counter has not wrapped around.\<close>

definition id_of :: "nat \<Rightarrow> string" where
  "id_of k = nat_digits (Suc k)"

definition in_flight :: "uds \<Rightarrow> nat set" where
  "in_flight u = snd ` set (pending u)"

definition uds_ok :: "uds \<Rightarrow> bool" where
  "uds_ok u \<longleftrightarrow> sent u < 2 ^ 64 - 1 \<longrightarrow>
     next_id u = word_of_nat (Suc (sent u)) \<and>
     distinct (map snd (pending u)) \<and> (\<forall>e \<in> set (pending u). fst e = id_of (snd e)) \<and>
     distinct (map fst (answers u)) \<and>
     in_flight u \<inter> fst ` set (answers u) = {} \<and>
     in_flight u \<union> fst ` set (answers u) = {..< sent u} \<and>
     (\<forall>k f. (k, Answered f) \<in> set (answers u) \<longrightarrow> rf_id f = Some (id_of k))"

lemma next_request_id:
  assumes "n < 2 ^ 64 - 1"
  shows "request_id_of (word_of_nat (Suc n)) = id_of n"
proof -
  have "unat (word_of_nat (Suc n) :: 64 word) = Suc n"
    using assms by (simp add: unat_of_nat take_bit_nat_eq_self del: of_nat_Suc)
  then show ?thesis by (simp add: request_id_of_def id_of_def)
qed

lemma id_of_inject [simp]: "id_of j = id_of k \<longleftrightarrow> j = k"
  by (simp add: id_of_def)

lemma adel_pending:
  assumes "\<forall>e \<in> set p. fst e = id_of (snd e)" and "(id_of k, k) \<in> set p" and "distinct (map snd p)"
  shows "snd ` set (adel (id_of k) p) = snd ` set p - {k}" "distinct (map snd (adel (id_of k) p))"
    "\<forall>e \<in> set (adel (id_of k) p). fst e = id_of (snd e)"
  using assms by (force simp: adel_def, auto simp: adel_def distinct_map_filter)

lemma uds_ok_finish:
  assumes "uds_ok u" and "(id_of k, k) \<in> set (pending u)" and "\<And>f. a = Answered f \<Longrightarrow> rf_id f = Some (id_of k)"
  shows "uds_ok (finish k a (u\<lparr>pending := adel (id_of k) (pending u)\<rparr>))"
proof (cases "sent u < 2 ^ 64 - 1")
  case True
  with assms(1) have ok: "next_id u = word_of_nat (Suc (sent u))" "distinct (map snd (pending u))"
    "\<forall>e \<in> set (pending u). fst e = id_of (snd e)" "distinct (map fst (answers u))"
    "in_flight u \<inter> fst ` set (answers u) = {}" "in_flight u \<union> fst ` set (answers u) = {..< sent u}"
    "\<forall>k f. (k, Answered f) \<in> set (answers u) \<longrightarrow> rf_id f = Some (id_of k)"
    unfolding uds_ok_def by blast+
  note del = adel_pending [OF ok(3) assms(2) ok(2)]
  have k: "k \<in> in_flight u" using assms(2) by (force simp: in_flight_def)
  then have "k \<notin> fst ` set (answers u)" using ok(5) by blast
  moreover have "in_flight u - {k} \<union> insert k (fst ` set (answers u)) = {..< sent u}" using ok(6) k by blast
  moreover have "(in_flight u - {k}) \<inter> insert k (fst ` set (answers u)) = {}" using ok(5) by blast
  moreover have "\<forall>j f. (j, Answered f) \<in> set (answers u @ [(k, a)]) \<longrightarrow> rf_id f = Some (id_of j)"
    using ok(7) assms(3) by auto
  ultimately show ?thesis
    using ok del unfolding uds_ok_def finish_def in_flight_def by simp
qed (simp add: uds_ok_def finish_def)

lemma pending_id: "uds_ok u \<Longrightarrow> sent u < 2 ^ 64 - 1 \<Longrightarrow> aget (pending u) i = Some k \<Longrightarrow> i = id_of k \<and> (id_of k, k) \<in> set (pending u)"
  unfolding uds_ok_def aget_def by (auto dest!: map_of_SomeD)

lemma uds_ok_late: "\<not> sent u < 2 ^ 64 - 1 \<Longrightarrow> uds_ok u"
  by (simp add: uds_ok_def)

lemma uds_ok_response: "uds_ok u \<Longrightarrow> uds_ok (handle_response f u)"
proof (cases "sent u < 2 ^ 64 - 1")
  case True
  assume ok: "uds_ok u"
  show ?thesis
  proof (cases "rf_id f")
    case None
    with ok show ?thesis by (simp add: handle_response_def)
  next
    case (Some i)
    show ?thesis
    proof (cases "aget (pending u) i")
      case None
      with ok Some show ?thesis by (simp add: handle_response_def)
    next
      case got: (Some k)
      then have "i = id_of k" "(id_of k, k) \<in> set (pending u)" using pending_id [OF ok True] by blast+
      with ok Some got show ?thesis using uds_ok_finish [OF ok, of k "Answered f"] by (simp add: handle_response_def)
    qed
  qed
next
  case False
  then show ?thesis
    by (intro uds_ok_late) (auto simp: handle_response_def finish_def split: option.splits)
qed

lemma uds_ok_time_out: "uds_ok u \<Longrightarrow> uds_ok (time_out i ms u)"
proof (cases "aget (pending u) i")
  case (Some k)
  assume ok: "uds_ok u"
  show ?thesis
  proof (cases "sent u < 2 ^ 64 - 1")
    case True
    then have "i = id_of k" "(id_of k, k) \<in> set (pending u)" using pending_id [OF ok] Some by blast+
    then show ?thesis using uds_ok_finish [OF ok, of k "Failed (Timeout ms)"] Some by (simp add: time_out_def)
  qed (intro uds_ok_late, auto simp: time_out_def finish_def split: option.splits)
qed (simp add: time_out_def)

lemma uds_ok_disconnect:
  assumes "uds_ok u"
  shows "uds_ok (set_disconnected u)"
proof (cases "sent u < 2 ^ 64 - 1")
  case True
  with assms have ok: "next_id u = word_of_nat (Suc (sent u))" "distinct (map snd (pending u))"
    "distinct (map fst (answers u))" "in_flight u \<inter> fst ` set (answers u) = {}"
    "in_flight u \<union> fst ` set (answers u) = {..< sent u}"
    "\<forall>k f. (k, Answered f) \<in> set (answers u) \<longrightarrow> rf_id f = Some (id_of k)"
    unfolding uds_ok_def by blast+
  let ?new = "map (\<lambda>e. (snd e, Failed (Unavailable ''openuds connection closed''))) (pending u)"
  have new: "map fst ?new = map snd (pending u)" "fst ` set ?new = in_flight u" by (simp_all add: image_image in_flight_def)
  have "set (map fst (answers u)) \<inter> set (map snd (pending u)) = {}" using ok(4) by (simp add: in_flight_def Int_commute)
  then have "distinct (map fst (answers u @ ?new))" using ok(2,3) unfolding map_append new(1) distinct_append by blast
  moreover have "fst ` set (answers u @ ?new) = {..< sent u}"
    using ok(5) unfolding set_append image_Un new(2) by (simp only: Un_commute)
  moreover have "\<forall>k f. (k, Answered f) \<in> set (answers u @ ?new) \<longrightarrow> rf_id f = Some (id_of k)" using ok(6) by auto
  ultimately show ?thesis
    using ok(1) unfolding uds_ok_def set_disconnected_def in_flight_def by simp
qed (simp add: uds_ok_def set_disconnected_def)

lemma uds_ok_send:
  assumes "uds_ok u"
  shows "uds_ok (send_command failure u)"
proof (cases "Suc (sent u) < 2 ^ 64 - 1")
  case True
  then have t: "sent u < 2 ^ 64 - 1" by simp
  with assms have ok: "next_id u = word_of_nat (Suc (sent u))" "distinct (map snd (pending u))"
    "\<forall>e \<in> set (pending u). fst e = id_of (snd e)" "distinct (map fst (answers u))"
    "in_flight u \<inter> fst ` set (answers u) = {}" "in_flight u \<union> fst ` set (answers u) = {..< sent u}"
    "\<forall>k f. (k, Answered f) \<in> set (answers u) \<longrightarrow> rf_id f = Some (id_of k)"
    unfolding uds_ok_def by blast+
  let ?k = "sent u"
  have i: "request_id_of (next_id u) = id_of ?k" using ok(1) next_request_id [OF t] by simp
  have below: "\<forall>e \<in> set (pending u). snd e < ?k" using ok(6) by (auto simp: in_flight_def)
  then have same: "adel (id_of ?k) (pending u) = pending u" using ok(3) by (fastforce simp: adel_def filter_id_conv)
  let ?u1 = "u\<lparr>next_id := next_id u + 1, sent := Suc ?k, pending := (id_of ?k, ?k) # pending u\<rparr>"
  have k: "?k \<notin> in_flight u" "?k \<notin> fst ` set (answers u)" using ok(6) by auto
  have u1: "uds_ok ?u1"
    using ok k unfolding uds_ok_def in_flight_def by (auto simp: lessThan_Suc)
  have "uds_ok (finish ?k (Failed e) (?u1\<lparr>pending := adel (id_of ?k) (pending ?u1)\<rparr>))" for e
    by (rule uds_ok_finish [OF u1]) simp_all
  then show ?thesis
    using u1 unfolding send_command_def Let_def i aput_def same
    by (cases failure) (simp_all add: same aput_def)
next
  case False
  then show ?thesis
    by (intro uds_ok_late) (auto simp: send_command_def finish_def Let_def split: option.splits)
qed

interpretation openuds: invariant_system "\<lambda>u. u = uds_new" uds_step uds_ok
proof
  show "uds_ok u" if "u = uds_new" for u using that by (simp add: uds_ok_def uds_new_def in_flight_def)
  show "uds_ok u'" if "uds_ok u" "uds_step u u'" for u u'
    using that(2,1)
  proof cases
    case (authenticates configured version)
    with that(1) show ?thesis by (simp add: uds_ok_def set_authenticated_def in_flight_def)
  next
    case connects
    with that(1) show ?thesis by (simp add: uds_ok_def install_writer_def in_flight_def)
  qed (simp_all add: that(1) uds_ok_send uds_ok_response uds_ok_time_out uds_ok_disconnect)
qed

text \<open>C22: in every history of sends, responses, timeouts and lost connections, every command sent is either
  still waiting or has been answered, never both and never twice, so no caller is forgotten; and a
  caller that got a response frame got the one that carries the identifier of its own command. The
  request counter would have to wrap around its 64 bits for this to fail.\<close>

theorem commands_answered_once:
  assumes "reachable (\<lambda>u. u = uds_new) uds_step u" and "sent u < 2 ^ 64 - 1"
  shows "distinct (map fst (answers u)) \<and> in_flight u \<inter> fst ` set (answers u) = {} \<and>
    in_flight u \<union> fst ` set (answers u) = {..< sent u} \<and>
    (\<forall>k f. (k, Answered f) \<in> set (answers u) \<longrightarrow> rf_id f = Some (nat_digits (Suc k)))"
  using openuds.reachable_inv [OF assms(1)] assms(2) unfolding uds_ok_def id_of_def by blast

definition pong :: response_frame where
  "pong = \<lparr>rf_id = Some ''1'', rf_ok = True, rf_data = None, rf_error = None\<rparr>"

theorem commands_answered_once_witness:
  "answers (handle_response pong (send_command None (install_writer uds_new))) = [(0, Answered pong)] \<and>
   rf_id pong = Some (nat_digits (Suc 0))"
proof -
  have one: "nat_digits (Suc 0) = ''1''" by code_simp
  have "reachable (\<lambda>u. u = uds_new) uds_step uds_new" by (rule reachable.start) simp
  from reachable.move [OF this uds_step.connects]
  have "reachable (\<lambda>u. u = uds_new) uds_step (install_writer uds_new)" .
  from reachable.move [OF this uds_step.sends]
  have "reachable (\<lambda>u. u = uds_new) uds_step (send_command None (install_writer uds_new))" .
  from reachable.move [OF this uds_step.responds]
  have r: "reachable (\<lambda>u. u = uds_new) uds_step (handle_response pong (send_command None (install_writer uds_new)))" .
  have u: "answers (handle_response pong (send_command None (install_writer uds_new))) = [(0, Answered pong)]"
    "sent (handle_response pong (send_command None (install_writer uds_new))) = 1"
    by (simp_all add: handle_response_def send_command_def install_writer_def uds_new_def request_id_of_def one pong_def finish_def)
  with commands_answered_once [OF r] show ?thesis by simp
qed

definition unary_codec :: json_codec where
  "unary_codec = \<lparr>to_vec = (\<lambda>v. case v of JBool b \<Rightarrow> Some (if b then ''true'' else ''false'') | _ \<Rightarrow> None),
     from_str = (\<lambda>t. if t = ''true'' then Some (JBool True) else if t = ''false'' then Some (JBool False) else None),
     valid_utf8 = (\<lambda>_. True)\<rparr>"


theorem backoff_bounds_witness:
  "next_backoff 120 50 500 30000 \<le> 30000 \<and> min 30000 (500 * 2 ^ 10 * 80 div 100) \<le> next_backoff 120 50 500 30000"
  using backoff_bounds [of 120 500 50 30000] by simp

end
