(* ===== verification/Room_Service.thy ===== *)
theory Room_Service
  imports Open_Uds
begin

text \<open>
  The typed wrapper over the room commands of the game server (\<^verbatim>\<open>rooms/service.rs\<close>, \<^verbatim>\<open>pmp/cli/mod.rs\<close>): which
  command each operation sends with which parameters, and how its reply is read. The game server is
  a function from a command and its parameters to a reply; PPB keeps no copy of the rooms.
\<close>

type_synonym pmp = "string \<Rightarrow> json \<Rightarrow> uds_error + json"

definition jopt :: "('a \<Rightarrow> json) \<Rightarrow> 'a option \<Rightarrow> json" where
  "jopt f x = (case x of Some v \<Rightarrow> f v | None \<Rightarrow> JNull)"

text \<open>Assigning a field of an object.\<close>

definition set_param :: "json \<Rightarrow> string \<Rightarrow> json \<Rightarrow> json" where
  "set_param v k x = (case v of JObj kvs \<Rightarrow> JObj (filter (\<lambda>e. fst e \<noteq> k) kvs @ [(k, x)]) | _ \<Rightarrow> v)"

definition in_room :: "string \<Rightarrow> (string \<times> json) list \<Rightarrow> json" where
  "in_room room kvs = JObj ((''room_id'', JStr room) # kvs)"

section \<open>Room commands\<close>

definition room_create :: "pmp \<Rightarrow> string \<Rightarrow> string option \<Rightarrow> bool \<Rightarrow> uds_error + json" where
  "room_create P room endpoint persistent_empty =
     (let params = in_room room [(''persistent_empty'', JBool persistent_empty)]
      in P ''room.create'' (case endpoint of Some ep \<Rightarrow> set_param params ''endpoint'' (JStr ep) | None \<Rightarrow> params))"

definition room_close :: "pmp \<Rightarrow> string \<Rightarrow> uds_error + json" where
  "room_close P room = P ''room.close'' (in_room room [])"

definition room_start :: "pmp \<Rightarrow> string \<Rightarrow> uds_error + json" where
  "room_start P room = P ''room.start'' (in_room room [])"

definition room_cancel_start :: "pmp \<Rightarrow> string \<Rightarrow> uds_error + json" where
  "room_cancel_start P room = P ''room.cancel_start'' (in_room room [])"

definition room_ready :: "pmp \<Rightarrow> string \<Rightarrow> int \<Rightarrow> uds_error + json" where
  "room_ready P room user = P ''room.ready'' (in_room room [(''user_id'', JInt user)])"

definition room_lock :: "pmp \<Rightarrow> string \<Rightarrow> bool \<Rightarrow> uds_error + json" where
  "room_lock P room locked = P ''room.lock'' (in_room room [(''locked'', JBool locked)])"

definition room_cycle :: "pmp \<Rightarrow> string \<Rightarrow> bool \<Rightarrow> uds_error + json" where
  "room_cycle P room cycle = P ''room.cycle'' (in_room room [(''cycle'', JBool cycle)])"

definition room_set_host :: "pmp \<Rightarrow> string \<Rightarrow> int option \<Rightarrow> uds_error + json" where
  "room_set_host P room host = P ''room.set_host'' (in_room room [(''host_id'', jopt JInt host)])"

definition room_set_live :: "pmp \<Rightarrow> string \<Rightarrow> bool \<Rightarrow> uds_error + json" where
  "room_set_live P room b = P ''room.set_live'' (in_room room [(''live'', JBool b)])"

definition room_set_chart :: "pmp \<Rightarrow> string \<Rightarrow> int \<Rightarrow> uds_error + json" where
  "room_set_chart P room chart = P ''room.set_chart'' (in_room room [(''chart_id'', JInt chart)])"

definition room_set_hidden :: "pmp \<Rightarrow> string \<Rightarrow> bool \<Rightarrow> uds_error + json" where
  "room_set_hidden P room b = P ''room.set_hidden'' (in_room room [(''hidden'', JBool b)])"

definition room_set_persistent :: "pmp \<Rightarrow> string \<Rightarrow> bool \<Rightarrow> uds_error + json" where
  "room_set_persistent P room b = P ''room.set_persistent'' (in_room room [(''persistent'', JBool b)])"

definition room_set_degraded :: "pmp \<Rightarrow> string \<Rightarrow> bool \<Rightarrow> uds_error + json" where
  "room_set_degraded P room b = P ''room.set_degraded'' (in_room room [(''degraded'', JBool b)])"

definition room_set_api_endpoint :: "pmp \<Rightarrow> string \<Rightarrow> string \<Rightarrow> uds_error + json" where
  "room_set_api_endpoint P room ep = P ''room.set_api_endpoint'' (in_room room [(''endpoint'', JStr ep)])"

definition room_kick :: "pmp \<Rightarrow> string \<Rightarrow> int \<Rightarrow> uds_error + json" where
  "room_kick P room user = P ''room.kick'' (in_room room [(''user_id'', JInt user)])"

definition room_force_move :: "pmp \<Rightarrow> string \<Rightarrow> int \<Rightarrow> bool \<Rightarrow> uds_error + json" where
  "room_force_move P room user monitor =
     P ''room.force_move'' (in_room room [(''user_id'', JInt user), (''monitor'', JBool monitor)])"

definition room_info :: "pmp \<Rightarrow> string \<Rightarrow> uds_error + json" where
  "room_info P room = P ''room.info'' (in_room room [])"

text \<open>The host in a room's info: the field \<open>host_id\<close>, else \<open>host\<close>, each narrowed to 32 bits.\<close>

definition host_of_info :: "json \<Rightarrow> int option" where
  "host_of_info info =
     (case Option.bind (get_field info ''host_id'') as_i64 of
        Some v \<Rightarrow> Some (wrap32 v)
      | None \<Rightarrow> map_option wrap32 (Option.bind (get_field info ''host'') as_i64))"

definition host_id :: "pmp \<Rightarrow> string \<Rightarrow> uds_error + int option" where
  "host_id P room = (case room_info P room of Inl e \<Rightarrow> Inl e | Inr info \<Rightarrow> Inr (host_of_info info))"

definition as_array :: "json \<Rightarrow> json list option" where
  "as_array v = (case v of JArr xs \<Rightarrow> Some xs | _ \<Rightarrow> None)"

definition room_array :: "json \<Rightarrow> json list" where
  "room_array v =
     (case as_array v of
        Some xs \<Rightarrow> xs
      | None \<Rightarrow>
          (case Option.bind (get_field v ''rooms'') as_array of
             Some xs \<Rightarrow> xs
           | None \<Rightarrow>
               (case Option.bind (get_field v ''results'') as_array of Some xs \<Rightarrow> xs | None \<Rightarrow> [])))"

definition room_list :: "pmp \<Rightarrow> uds_error + json list \<times> int" where
  "room_list P =
     (case P ''room.list'' (JObj []) of
        Inl e \<Rightarrow> Inl e
      | Inr v \<Rightarrow>
          Inr (room_array v,
               unwrap_or (Option.bind (get_field v ''total'') as_i64) (int (length (room_array v)))))"

definition room_history :: "pmp \<Rightarrow> string \<Rightarrow> uds_error + json" where
  "room_history P room = P ''room.history'' (in_room room [])"

definition room_chat_history :: "pmp \<Rightarrow> string \<Rightarrow> nat option \<Rightarrow> uds_error + json" where
  "room_chat_history P room lim =
     P ''room.chat_history'' (case lim of
       Some l \<Rightarrow> set_param (in_room room []) ''limit'' (JInt (int l)) | None \<Rightarrow> in_room room [])"

text \<open>Chat needs a capability of the connected server.\<close>

definition room_chat_send :: "pmp \<Rightarrow> uds \<Rightarrow> string \<Rightarrow> int \<Rightarrow> string \<Rightarrow> uds_error + json" where
  "room_chat_send P u room resolved_phira_id content =
     (case ensure_capability ''room.chat_send'' u of
        Inl e \<Rightarrow> Inl e
      | Inr _ \<Rightarrow> P ''room.chat_send'' (in_room room [(''user_id'', JInt resolved_phira_id), (''content'', JStr content)]))"

definition room_uuid :: "pmp \<Rightarrow> string \<Rightarrow> uds_error + json" where
  "room_uuid P room = P ''room.uuid'' (in_room room [])"

definition room_rounds :: "pmp \<Rightarrow> string \<Rightarrow> uds_error + json" where
  "room_rounds P room = P ''room.rounds'' (in_room room [])"

definition room_round :: "pmp \<Rightarrow> string \<Rightarrow> string option \<Rightarrow> uds_error + json" where
  "room_round P room round =
     P ''room.round'' (case round of
       Some r \<Rightarrow> set_param (in_room room []) ''round_uuid'' (JStr r) | None \<Rightarrow> in_room room [])"

definition room_ban :: "pmp \<Rightarrow> string \<Rightarrow> int \<Rightarrow> uds_error + json" where
  "room_ban P room user = P ''room.ban'' (in_room room [(''user_id'', JInt user)])"

definition room_unban :: "pmp \<Rightarrow> string \<Rightarrow> int \<Rightarrow> uds_error + json" where
  "room_unban P room user = P ''room.unban'' (in_room room [(''user_id'', JInt user)])"

definition room_banlist :: "pmp \<Rightarrow> string \<Rightarrow> uds_error + json" where
  "room_banlist P room = P ''room.banlist'' (in_room room [])"

definition room_whitelist :: "pmp \<Rightarrow> string \<Rightarrow> uds_error + json" where
  "room_whitelist P room = P ''room.whitelist'' (in_room room [])"

definition room_whitelist_add :: "pmp \<Rightarrow> string \<Rightarrow> int \<Rightarrow> uds_error + json" where
  "room_whitelist_add P room user = P ''room.whitelist_add'' (in_room room [(''user_id'', JInt user)])"

definition room_whitelist_remove :: "pmp \<Rightarrow> string \<Rightarrow> int \<Rightarrow> uds_error + json" where
  "room_whitelist_remove P room user = P ''room.whitelist_remove'' (in_room room [(''user_id'', JInt user)])"

section \<open>The console\<close>

definition cli_execute :: "pmp \<Rightarrow> string \<Rightarrow> uds_error + json" where
  "cli_execute P command = P ''cli.execute'' (JObj [(''command'', JStr command)])"

end
