(* ===== verification/Deployment.thy ===== *)
theory Deployment
  imports Room_Service Http
begin

text \<open>
  The controlled deployment adapter (\<^verbatim>\<open>deployment.rs\<close>): fixed argument vectors configured by the operator,
  the allow-listed startup arguments a client may add, the environment of a child process, and the
  commands that use them. The environment of the process, the JSON parser and the operating system
  that runs a child are parameters.
\<close>

section \<open>Text of a child process\<close>

text \<open>\<open>String::from_utf8_lossy\<close>: every maximal prefix of a sequence that cannot be completed becomes one
  replacement character.\<close>

definition byte :: "char \<Rightarrow> nat" where
  "byte c = of_char c"

definition cont_byte :: "char \<Rightarrow> bool" where
  "cont_byte c \<longleftrightarrow> 128 \<le> byte c \<and> byte c < 192"

definition second_byte :: "char \<Rightarrow> char \<Rightarrow> bool" where
  "second_byte l c \<longleftrightarrow>
     (let b = byte l; n = byte c in
      if b < 194 then False
      else if b < 224 then 128 \<le> n \<and> n < 192
      else if b = 224 then 160 \<le> n \<and> n < 192
      else if b = 237 then 128 \<le> n \<and> n < 160
      else if b < 240 then 128 \<le> n \<and> n < 192
      else if b = 240 then 144 \<le> n \<and> n < 192
      else if b < 244 then 128 \<le> n \<and> n < 192
      else if b = 244 then 128 \<le> n \<and> n < 144
      else False)"

text \<open>The length of the sequence a lead byte announces.\<close>

definition seq_length :: "char \<Rightarrow> nat" where
  "seq_length l =
     (let b = byte l in
      if b < 128 then 1 else if b < 194 then 0 else if b < 224 then 2 else if b < 240 then 3
      else if b < 245 then 4 else 0)"

definition replacement :: string where
  "replacement = bytes [239, 191, 189]"

text \<open>How many of the bytes after a lead byte belong to its sequence.\<close>

definition tail_length :: "char \<Rightarrow> string \<Rightarrow> nat" where
  "tail_length l s =
     (case s of
        c # s' \<Rightarrow> if second_byte l c then 1 + length (takeWhile cont_byte (take (seq_length l - 2) s')) else 0
      | [] \<Rightarrow> 0)"

function from_utf8_lossy :: "string \<Rightarrow> string" where
  "from_utf8_lossy [] = []"
| "from_utf8_lossy (l # s) =
     (let n = tail_length l s in
      (if byte l < 128 \<or> 2 \<le> seq_length l \<and> n = seq_length l - 1 then take (n + 1) (l # s) else replacement)
      @ from_utf8_lossy (drop n s))"
  by pat_completeness auto
termination
  by (relation "measure length") (auto simp: tail_length_def split: list.splits)

text \<open>An index between two characters of a text, or at its end.\<close>

definition is_char_boundary :: "string \<Rightarrow> nat \<Rightarrow> bool" where
  "is_char_boundary s n \<longleftrightarrow>
     n = length s \<or> n < length s \<and> \<not> (128 \<le> (of_char (s ! n) :: nat) \<and> (of_char (s ! n) :: nat) < 192)"

fun boundary_below :: "string \<Rightarrow> nat \<Rightarrow> nat" where
  "boundary_below s 0 = 0"
| "boundary_below s (Suc n) = (if is_char_boundary s (Suc n) then Suc n else boundary_below s n)"

definition truncate_utf8 :: "string \<Rightarrow> nat \<Rightarrow> string" where
  "truncate_utf8 bs max_len =
     (let text = from_utf8_lossy bs in
      if length text \<le> max_len then text
      else take (boundary_below text max_len) text @ bytes [226, 128, 166])"

section \<open>Configuration\<close>

text \<open>\<open>?\<close> on a result that is computed without state.\<close>

definition sbind :: "'e + 'a \<Rightarrow> ('a \<Rightarrow> 'e + 'b) \<Rightarrow> 'e + 'b" where
  "sbind r f = (case r of Inl e \<Rightarrow> Inl e | Inr a \<Rightarrow> f a)"

lemma sbind_Inr: "sbind r f = Inr b \<longleftrightarrow> (\<exists>a. r = Inr a \<and> f a = Inr b)"
  by (cases r) (simp_all add: sbind_def)

record fixed_command =
  fc_argv :: "string list"
  fc_cwd :: "string option"

record startup_arg_spec =
  sp_key :: string
  sp_flag :: string
  sp_kind :: string
  sp_required :: bool
  sp_min :: "int option"
  sp_max :: "int option"
  sp_max_len :: "nat option"
  allowed_values :: "string list"

record deployment_capabilities =
  dc_supervisor_start :: bool
  dc_supervisor_stop :: bool
  dc_startup_args :: "startup_arg_spec list"
  dc_ppf_build :: bool
  dc_backup :: bool

record deployment_adapter =
  supervisor_start :: "fixed_command option"
  supervisor_stop :: "fixed_command option"
  startup_args :: "startup_arg_spec list"
  ppf_build :: "fixed_command option"
  backup :: "fixed_command option"
  env_allowlist :: "string list"
  timeout_secs :: nat

definition non_empty_env :: "(string \<Rightarrow> string option) \<Rightarrow> string \<Rightarrow> string option" where
  "non_empty_env env name =
     (case env name of Some v \<Rightarrow> if trim v = [] then None else Some (trim v) | None \<Rightarrow> None)"

definition ascii_alphanumeric :: "char \<Rightarrow> bool" where
  "ascii_alphanumeric c \<longleftrightarrow>
     48 \<le> byte c \<and> byte c \<le> 57 \<or> 65 \<le> byte c \<and> byte c \<le> 90 \<or> 97 \<le> byte c \<and> byte c \<le> 122"

definition is_safe_env_name :: "string \<Rightarrow> bool" where
  "is_safe_env_name name \<longleftrightarrow>
     \<not> starts_with name ''PPB_'' \<and> list_all (\<lambda>c. ascii_alphanumeric c \<or> c = CHR ''_'') name"

definition NUL :: char where "NUL = CHR 0x00"

text \<open>The JSON parser gives a text of its error or the parsed value.\<close>

definition command_from_env ::
  "(string \<Rightarrow> string + string list) \<Rightarrow> (string \<Rightarrow> string option) \<Rightarrow> string \<Rightarrow> string \<Rightarrow> string + fixed_command option" where
  "command_from_env parse env command_name cwd_name =
     (case non_empty_env env command_name of
        None \<Rightarrow> Inr None
      | Some raw \<Rightarrow>
          (case parse raw of
             Inl e \<Rightarrow> Inl (command_name @ '' must be a JSON string array: '' @ e)
           | Inr argv \<Rightarrow>
               if argv = [] \<or> trim (hd argv) = [] \<or> (\<exists>a \<in> set argv. NUL \<in> set a)
               then Inl (command_name @ '' must contain a valid executable and NUL-free argv'')
               else Inr (Some \<lparr>fc_argv = argv, fc_cwd = non_empty_env env cwd_name\<rparr>)))"

definition min_above_max :: "startup_arg_spec \<Rightarrow> bool" where
  "min_above_max sp = (case (sp_min sp, sp_max sp) of (Some lo, Some hi) \<Rightarrow> hi < lo | _ \<Rightarrow> False)"

fun validate_arg_specs :: "startup_arg_spec list \<Rightarrow> string set \<Rightarrow> string + unit" where
  "validate_arg_specs [] keys = Inr ()"
| "validate_arg_specs (sp # sps) keys =
     (if sp_key sp = [] \<or> sp_flag sp = [] \<or> NUL \<in> set (sp_flag sp)
      then Inl ''startup arg schema key/flag must be non-empty and NUL-free''
      else if sp_key sp \<in> keys then Inl (''duplicate startup arg schema key: '' @ sp_key sp)
      else if sp_kind sp \<notin> {''string'', ''integer'', ''boolean''} then Inl (''unsupported startup arg kind: '' @ sp_kind sp)
      else if min_above_max sp then Inl (''startup arg '' @ sp_key sp @ '' has min > max'')
      else validate_arg_specs sps (insert (sp_key sp) keys))"

text \<open>\<open>str::parse::<u64>\<close>: an optional plus sign and at least one digit, within range.\<close>

definition decimal_value :: "string \<Rightarrow> nat" where
  "decimal_value s = foldl (\<lambda>n c. 10 * n + (byte c - 48)) 0 s"

definition parse_u64 :: "string \<Rightarrow> nat option" where
  "parse_u64 s =
     (let ds = (case s of c # s' \<Rightarrow> if c = CHR ''+'' then s' else s | [] \<Rightarrow> []) in
      if ds = [] \<or> \<not> list_all (\<lambda>c. 48 \<le> byte c \<and> byte c \<le> 57) ds \<or> 2 ^ 64 \<le> decimal_value ds then None
      else Some (decimal_value ds))"

definition timeout_of_env :: "(string \<Rightarrow> string option) \<Rightarrow> nat" where
  "timeout_of_env env =
     min (max (unwrap_or (Option.bind (env ''PPB_DEPLOYMENT_COMMAND_TIMEOUT_SECS'') parse_u64) 120) 5) 3600"

definition specs_of_env ::
  "(string \<Rightarrow> string + startup_arg_spec list) \<Rightarrow> (string \<Rightarrow> string option) \<Rightarrow> string + startup_arg_spec list" where
  "specs_of_env parse_specs env =
     (case non_empty_env env ''PPB_PMP_SUPERVISOR_ARG_SCHEMA_JSON'' of
        Some raw \<Rightarrow>
          (case parse_specs raw of
             Inl e \<Rightarrow> Inl (''PPB_PMP_SUPERVISOR_ARG_SCHEMA_JSON invalid JSON: '' @ e)
           | Inr sps \<Rightarrow> (case validate_arg_specs sps {} of Inl e \<Rightarrow> Inl e | Inr _ \<Rightarrow> Inr sps))
      | None \<Rightarrow> Inr [])"

definition allowlist_of_env :: "(string \<Rightarrow> string option) \<Rightarrow> string list" where
  "allowlist_of_env env =
     (case non_empty_env env ''PPB_DEPLOYMENT_ENV_ALLOWLIST'' of
        Some raw \<Rightarrow> filter (\<lambda>n. n \<noteq> [] \<and> is_safe_env_name n) (map trim (split_on CHR '','' raw))
      | None \<Rightarrow> [])"

definition from_env ::
  "(string \<Rightarrow> string + string list) \<Rightarrow> (string \<Rightarrow> string + startup_arg_spec list) \<Rightarrow> (string \<Rightarrow> string option) \<Rightarrow>
   string + deployment_adapter" where
  "from_env parse parse_specs env =
     sbind (specs_of_env parse_specs env) (\<lambda>sps.
     sbind (command_from_env parse env ''PPB_PMP_SUPERVISOR_START_JSON'' ''PPB_PMP_SUPERVISOR_WORKDIR'') (\<lambda>start.
     sbind (command_from_env parse env ''PPB_PMP_SUPERVISOR_STOP_JSON'' ''PPB_PMP_SUPERVISOR_WORKDIR'') (\<lambda>stop.
     sbind (command_from_env parse env ''PPB_PPF_BUILD_COMMAND_JSON'' ''PPB_PPF_BUILD_WORKDIR'') (\<lambda>build.
     sbind (command_from_env parse env ''PPB_BACKUP_COMMAND_JSON'' ''PPB_BACKUP_WORKDIR'') (\<lambda>bak.
       Inr \<lparr>supervisor_start = start, supervisor_stop = stop, startup_args = sps, ppf_build = build, backup = bak,
            env_allowlist = allowlist_of_env env, timeout_secs = timeout_of_env env\<rparr>)))))"

definition capabilities :: "deployment_adapter \<Rightarrow> deployment_capabilities" where
  "capabilities D =
     \<lparr>dc_supervisor_start = supervisor_start D \<noteq> None, dc_supervisor_stop = supervisor_stop D \<noteq> None,
      dc_startup_args = startup_args D, dc_ppf_build = ppf_build D \<noteq> None, dc_backup = backup D \<noteq> None\<rparr>"

definition job_configured :: "deployment_adapter \<Rightarrow> string \<Rightarrow> bool" where
  "job_configured D job_type =
     (if job_type = ''ppf.build'' then ppf_build D \<noteq> None
      else if job_type = ''backup'' then backup D \<noteq> None else True)"

section \<open>Startup arguments\<close>

definition arg_text :: "startup_arg_spec \<Rightarrow> string \<Rightarrow> string" where
  "arg_text sp rest = ''startup arg `'' @ sp_key sp @ ''` '' @ rest"

text \<open>The words one allow-listed argument adds to the command line.\<close>

definition arg_words :: "startup_arg_spec \<Rightarrow> json \<Rightarrow> string + string list" where
  "arg_words sp v =
     (if sp_kind sp = ''boolean'' then
        (case as_bool v of
           None \<Rightarrow> Inl (arg_text sp ''must be boolean'')
         | Some b \<Rightarrow> Inr (if b then [sp_flag sp] else []))
      else if sp_kind sp = ''integer'' then
        (case as_i64 v of
           None \<Rightarrow> Inl (arg_text sp ''must be integer'')
         | Some n \<Rightarrow>
             if (\<exists>lo. sp_min sp = Some lo \<and> n < lo) \<or> (\<exists>hi. sp_max sp = Some hi \<and> hi < n)
             then Inl (arg_text sp ''is outside its allowed range'')
             else Inr [sp_flag sp, show_int n])
      else if sp_kind sp = ''string'' then
        (case as_string v of
           None \<Rightarrow> Inl (arg_text sp ''must be string'')
         | Some t \<Rightarrow>
             let max_len = min (max (unwrap_or (sp_max_len sp) 256) 1) 4096 in
             if t = [] \<or> max_len < length t \<or> NUL \<in> set t then Inl (arg_text sp ''has invalid length/content'')
             else if allowed_values sp \<noteq> [] \<and> t \<notin> set (allowed_values sp) then Inl (arg_text sp ''is not an allowed value'')
             else Inr [sp_flag sp, t])
      else Inl (''startup arg `'' @ sp_key sp @ ''` has unsupported kind `'' @ sp_kind sp @ ''`''))"

fun startup_argv :: "startup_arg_spec list \<Rightarrow> (string \<times> json) list \<Rightarrow> string + string list" where
  "startup_argv [] kvs = Inr []"
| "startup_argv (sp # sps) kvs =
     (case map_of kvs (sp_key sp) of
        None \<Rightarrow> if sp_required sp then Inl (arg_text sp ''is required'') else startup_argv sps kvs
      | Some v \<Rightarrow>
          (case arg_words sp v of
             Inl e \<Rightarrow> Inl e
           | Inr ws \<Rightarrow> (case startup_argv sps kvs of Inl e \<Rightarrow> Inl e | Inr rest \<Rightarrow> Inr (ws @ rest))))"

definition validate_startup_args :: "deployment_adapter \<Rightarrow> json \<Rightarrow> string + string list" where
  "validate_startup_args D args =
     (case as_object args of
        None \<Rightarrow> Inl ''server.start args must be an object''
      | Some kvs \<Rightarrow>
          (case find (\<lambda>e. fst e \<notin> sp_key ` set (startup_args D)) kvs of
             Some e \<Rightarrow> Inl (''startup arg `'' @ fst e @ ''` is not allowlisted'')
           | None \<Rightarrow> startup_argv (startup_args D) kvs))"

section \<open>Running a child\<close>

datatype child =
    ChildTimeout
  | ChildNotStarted string
  | ChildExited bool string "int option" string string

text \<open>A program with its arguments, working directory and environment; the operating system answers.\<close>

record invocation =
  iv_program :: string
  iv_args :: "string list"
  iv_cwd :: "string option"
  iv_env :: "(string \<times> string) list"
  iv_timeout :: nat

record host =
  host_env :: "string \<Rightarrow> string option"
  run_child :: "invocation \<Rightarrow> child"

definition BASE_ENV :: "string list" where
  "BASE_ENV = [''PATH'', ''HOME'', ''USERPROFILE'', ''SYSTEMROOT'', ''WINDIR'', ''TEMP'', ''TMP'', ''TMPDIR'', ''PNPM_HOME'',
     ''XDG_CACHE_HOME'']"

definition set_env :: "(string \<times> string) list \<Rightarrow> (string \<times> string) list \<Rightarrow> (string \<times> string) list" where
  "set_env vars env = foldl (\<lambda>e nv. aput (fst nv) (snd nv) e) env vars"

definition copy_safe_environment :: "host \<Rightarrow> string list \<Rightarrow> (string \<times> string) list" where
  "copy_safe_environment H extra =
     set_env (List.map_filter (\<lambda>n. map_option (\<lambda>v. (n, v)) (host_env H n)) (BASE_ENV @ extra)) []"

definition invocation_of ::
  "deployment_adapter \<Rightarrow> host \<Rightarrow> fixed_command \<Rightarrow> string list \<Rightarrow> (string \<times> string) list \<Rightarrow> invocation" where
  "invocation_of D H spec extra injected =
     \<lparr>iv_program = hd (fc_argv spec), iv_args = tl (fc_argv spec) @ extra, iv_cwd = fc_cwd spec,
      iv_env = set_env (filter (\<lambda>nv. starts_with (fst nv) ''NUXT_'' \<and> is_safe_env_name (fst nv)) injected)
                 (copy_safe_environment H (env_allowlist D)),
      iv_timeout = timeout_secs D\<rparr>"

definition run_with_env ::
  "deployment_adapter \<Rightarrow> host \<Rightarrow> fixed_command \<Rightarrow> string list \<Rightarrow> (string \<times> string) list \<Rightarrow> string + json" where
  "run_with_env D H spec extra injected =
     (if fc_argv spec = [] then Inl ''deployment command has no executable''
      else case run_child H (invocation_of D H spec extra injected) of
        ChildTimeout \<Rightarrow> Inl ''deployment command timed out''
      | ChildNotStarted e \<Rightarrow> Inl (''deployment command failed to start: '' @ e)
      | ChildExited ok st exit_code out err \<Rightarrow>
          let stdout = truncate_utf8 out 4096; stderr = truncate_utf8 err 4096 in
          if \<not> ok then Inl (''deployment command exited with '' @ st @ '': '' @ (if stderr = [] then stdout else stderr))
          else Inr (JObj [(''exit_code'', jopt JInt exit_code), (''stdout'', JStr stdout), (''stderr'', JStr stderr)]))"

definition wrap_result :: "string \<Rightarrow> string + json \<Rightarrow> string + json" where
  "wrap_result what r =
     (case r of Inl e \<Rightarrow> Inl e
      | Inr v \<Rightarrow> Inr (JObj [(what, JBool True), (''adapter'', JStr ''fixed-command''), (''result'', v)]))"

definition start_pmp :: "deployment_adapter \<Rightarrow> host \<Rightarrow> json \<Rightarrow> string + json" where
  "start_pmp D H args =
     (case supervisor_start D of
        None \<Rightarrow> Inl ''CAPABILITY_NOT_SUPPORTED: PMP supervisor start is not configured''
      | Some spec \<Rightarrow>
          (case validate_startup_args D args of
             Inl e \<Rightarrow> Inl e
           | Inr extra \<Rightarrow> wrap_result ''started'' (run_with_env D H spec extra [])))"

definition stop_pmp :: "deployment_adapter \<Rightarrow> host \<Rightarrow> string + json" where
  "stop_pmp D H =
     (case supervisor_stop D of
        None \<Rightarrow> Inl ''CAPABILITY_NOT_SUPPORTED: PMP supervisor stop is not configured''
      | Some spec \<Rightarrow> wrap_result ''stopped'' (run_with_env D H spec [] []))"

definition ppf_mappings :: "(string \<times> string) list" where
  "ppf_mappings =
     [(''site_name'', ''NUXT_PUBLIC_SITE_NAME''), (''site_description'', ''NUXT_PUBLIC_SITE_DESCRIPTION''),
      (''canonical_url'', ''NUXT_PUBLIC_SITE_URL''), (''analytics_provider'', ''NUXT_PUBLIC_ANALYTICS_PROVIDER''),
      (''plausible_domain'', ''NUXT_PUBLIC_PLAUSIBLE_DOMAIN''), (''ga_id'', ''NUXT_PUBLIC_GA_ID''),
      (''search_verification_google'', ''NUXT_PUBLIC_SEARCH_VERIFICATION_GOOGLE''),
      (''search_verification_bing'', ''NUXT_PUBLIC_SEARCH_VERIFICATION_BING'')]"

definition ppf_build_environment :: "json option \<Rightarrow> (string \<times> string) list" where
  "ppf_build_environment config =
     (case Option.bind config as_object of
        None \<Rightarrow> []
      | Some kvs \<Rightarrow>
          List.map_filter (\<lambda>(key, name).
            case Option.bind (map_of kvs key) as_string of
              Some v \<Rightarrow> if trim v = [] then None else Some (name, trim v)
            | None \<Rightarrow> None) ppf_mappings)"

definition run_job :: "deployment_adapter \<Rightarrow> host \<Rightarrow> string \<Rightarrow> json option \<Rightarrow> string + unit" where
  "run_job D H job_type config =
     (case (if job_type = ''ppf.build'' then ppf_build D else if job_type = ''backup'' then backup D else None) of
        None \<Rightarrow> Inl (''CAPABILITY_NOT_SUPPORTED: '' @ job_type @ '' deployment command is not configured'')
      | Some spec \<Rightarrow>
          (case run_with_env D H spec [] (if job_type = ''ppf.build'' then ppf_build_environment config else []) of
             Inl e \<Rightarrow> Inl e | Inr _ \<Rightarrow> Inr ()))"

section \<open>What a client can put on a command line\<close>

text \<open>What one allow-listed argument may contribute: nothing when it is absent or off; its flag; or its flag
  and one word that is an integer within the bounds or a bounded text without NUL from the allowed
  values.\<close>

definition allowed_words :: "startup_arg_spec \<Rightarrow> json option \<Rightarrow> string list \<Rightarrow> bool" where
  "allowed_words sp v ws \<longleftrightarrow>
     (case v of
        None \<Rightarrow> \<not> sp_required sp \<and> ws = []
      | Some x \<Rightarrow>
          sp_kind sp = ''boolean'' \<and> (x = JBool True \<and> ws = [sp_flag sp] \<or> x = JBool False \<and> ws = []) \<or>
          sp_kind sp = ''integer'' \<and>
            (\<exists>n. x = JInt n \<and> ws = [sp_flag sp, show_int n] \<and> (\<forall>lo. sp_min sp = Some lo \<longrightarrow> lo \<le> n) \<and>
               (\<forall>hi. sp_max sp = Some hi \<longrightarrow> n \<le> hi)) \<or>
          sp_kind sp = ''string'' \<and>
            (\<exists>t. x = JStr t \<and> ws = [sp_flag sp, t] \<and> t \<noteq> [] \<and> length t \<le> 4096 \<and> NUL \<notin> set t \<and>
               (allowed_values sp \<noteq> [] \<longrightarrow> t \<in> set (allowed_values sp))))"

lemma arg_words_allowed:
  assumes "arg_words sp v = Inr ws"
  shows "allowed_words sp (Some v) ws"
  using assms
  by (cases v)
    (auto simp: arg_words_def allowed_words_def as_bool_def as_i64_def Let_def not_less split: if_splits option.splits)

lemma startup_argv_allowed:
  assumes "startup_argv sps kvs = Inr argv"
  shows "\<exists>chunks. argv = concat chunks \<and> list_all2 (\<lambda>sp ws. allowed_words sp (map_of kvs (sp_key sp)) ws) sps chunks"
  using assms
proof (induction sps arbitrary: argv)
  case Nil
  then show ?case by simp
next
  case (Cons sp sps)
  obtain ws rest where "argv = ws @ rest" "allowed_words sp (map_of kvs (sp_key sp)) ws" "startup_argv sps kvs = Inr rest"
    using Cons.prems
    by (auto simp: allowed_words_def dest: arg_words_allowed split: option.splits sum.splits if_splits)
  moreover from Cons.IH [OF this(3)] obtain chunks where "rest = concat chunks"
      "list_all2 (\<lambda>sp ws. allowed_words sp (map_of kvs (sp_key sp)) ws) sps chunks" by blast
  ultimately show ?case by (intro exI [of _ "ws # chunks"]) simp
qed

text \<open>A client cannot put anything of its own on the command line of the supervisor. Arguments are
  accepted only as an object whose keys are all in the operator's schema, every required key is there,
  and the words added are, in the order of the schema, for each key nothing, its fixed flag, or its
  fixed flag followed by a single word: an integer within the configured bounds, or a text that is not
  empty, has at most 4096 bytes and no NUL and is one of the allowed values if there are any.\<close>

theorem startup_args_allowlisted:
  assumes "validate_startup_args D args = Inr argv"
  shows "\<exists>kvs chunks. args = JObj kvs \<and> fst ` set kvs \<subseteq> sp_key ` set (startup_args D) \<and> argv = concat chunks \<and>
    list_all2 (\<lambda>sp ws. allowed_words sp (map_of kvs (sp_key sp)) ws) (startup_args D) chunks"
proof -
  from assms obtain kvs where args: "args = JObj kvs" and f: "find (\<lambda>e. fst e \<notin> sp_key ` set (startup_args D)) kvs = None"
    and a: "startup_argv (startup_args D) kvs = Inr argv"
    by (cases args) (auto simp: validate_startup_args_def split: option.splits)
  from f have "fst ` set kvs \<subseteq> sp_key ` set (startup_args D)" by (auto simp: find_None_iff)
  with args startup_argv_allowed [OF a] show ?thesis by blast
qed

definition demo_deployment :: deployment_adapter where
  "demo_deployment = \<lparr>supervisor_start = Some \<lparr>fc_argv = [''pmp''], fc_cwd = None\<rparr>, supervisor_stop = None,
     startup_args = [\<lparr>sp_key = ''port'', sp_flag = ''--port'', sp_kind = ''integer'', sp_required = True, sp_min = Some 1024,
       sp_max = None, sp_max_len = None, allowed_values = []\<rparr>],
     ppf_build = None, backup = None, env_allowlist = [''LANG''], timeout_secs = 5\<rparr>"

theorem startup_args_allowlisted_witness:
  "\<exists>chunks. [''--port'', ''2000''] = concat chunks \<and>
     list_all2 (\<lambda>sp ws. allowed_words sp (map_of [(''port'', JInt 2000)] (sp_key sp)) ws) (startup_args demo_deployment) chunks"
proof -
  have "show_int 2000 = ''2000''" by code_simp
  then have "validate_startup_args demo_deployment (JObj [(''port'', JInt 2000)]) = Inr [''--port'', ''2000'']"
    by (simp add: validate_startup_args_def demo_deployment_def arg_words_def as_i64_def i64_range_def)
  from startup_args_allowlisted [OF this] show ?thesis by auto
qed

section \<open>What a child process inherits\<close>

lemma set_env_names: "fst ` set (set_env vars env) \<subseteq> fst ` set vars \<union> fst ` set env"
  unfolding set_env_def
proof (induction vars arbitrary: env)
  case (Cons v vars)
  have "fst ` set (aput (fst v) (snd v) env) \<subseteq> insert (fst v) (fst ` set env)"
    by (auto simp: aput_def adel_def)
  with Cons [of "aput (fst v) (snd v) env"] show ?case by auto
qed simp

lemma copied_names: "fst ` set (copy_safe_environment H extra) \<subseteq> set BASE_ENV \<union> set extra"
proof -
  have "fst ` set (List.map_filter (\<lambda>n. map_option (\<lambda>v. (n, v)) (host_env H n)) ns) \<subseteq> set ns" for ns
    by (auto simp: List.map_filter_def)
  from order_trans [OF set_env_names, of _ "[]", OF Un_mono [OF this [of "BASE_ENV @ extra"] order_refl]]
  show ?thesis by (simp add: copy_safe_environment_def)
qed

lemma from_env_allowlist:
  assumes "from_env parse ps env = Inr D" and "n \<in> set (env_allowlist D)"
  shows "is_safe_env_name n"
proof -
  have "env_allowlist D = allowlist_of_env env"
    using assms(1) by (auto simp: from_env_def sbind_Inr)
  with assms(2) show ?thesis by (auto simp: allowlist_of_env_def split: option.splits)
qed

text \<open>No secret of the backend reaches a child process. With an adapter read from the environment,
  whatever variables are allow-listed or injected, no variable of a child's environment has a name that
  begins with \<open>PPB_\<close>, the prefix of every secret.\<close>

theorem child_sees_no_secret:
  assumes "from_env parse ps env = Inr D" and "n \<in> fst ` set (iv_env (invocation_of D H spec extra injected))"
  shows "\<not> starts_with n ''PPB_''"
proof -
  have "n \<in> fst ` set (filter (\<lambda>nv. starts_with (fst nv) ''NUXT_'' \<and> is_safe_env_name (fst nv)) injected) \<union>
      fst ` set (copy_safe_environment H (env_allowlist D))"
    using assms(2) unfolding invocation_of_def by (intro subsetD [OF set_env_names]) simp
  then have "n \<in> set BASE_ENV \<union> set (env_allowlist D) \<union> {n. is_safe_env_name n}"
    using copied_names [of H "env_allowlist D"] by auto
  moreover have "\<forall>n \<in> set BASE_ENV. \<not> starts_with n ''PPB_''" by (simp add: BASE_ENV_def)
  ultimately show ?thesis using from_env_allowlist [OF assms(1)] by (auto simp: is_safe_env_name_def)
qed

theorem child_sees_no_secret_witness:
  "\<exists>D. from_env (\<lambda>_. Inr [''x'']) (\<lambda>_. Inr []) (\<lambda>n. if n = ''PPB_DEPLOYMENT_ENV_ALLOWLIST'' then Some ''LANG,PPB_JWT_SECRET'' else None) = Inr D \<and>
     \<not> (\<exists>n \<in> fst ` set (iv_env (invocation_of D \<lparr>host_env = (\<lambda>_. Some ''v''), run_child = (\<lambda>_. ChildTimeout)\<rparr>
           \<lparr>fc_argv = [''x''], fc_cwd = None\<rparr> [] [])). starts_with n ''PPB_'')"
proof -
  obtain D where D: "from_env (\<lambda>_. Inr [''x'']) (\<lambda>_. Inr [])
      (\<lambda>n. if n = ''PPB_DEPLOYMENT_ENV_ALLOWLIST'' then Some ''LANG,PPB_JWT_SECRET'' else None) = Inr D"
    by (simp add: from_env_def sbind_def specs_of_env_def non_empty_env_def command_from_env_def)
  with child_sees_no_secret [OF D] show ?thesis by blast
qed

section \<open>Texts are cut between characters\<close>

lemma boundary_below_le: "boundary_below s n \<le> n"
  by (induction s n rule: boundary_below.induct) auto

lemma boundary_below_boundary: "0 < boundary_below s n \<Longrightarrow> is_char_boundary s (boundary_below s n)"
  by (induction s n rule: boundary_below.induct) (auto split: if_splits)

text \<open>The output of a child is cut at most at the limit, and never inside a character.\<close>

lemma truncate_utf8_bounded: "length (truncate_utf8 bs n) \<le> n + 3"
  using boundary_below_le [of "from_utf8_lossy bs" n] by (simp add: truncate_utf8_def Let_def bytes_def)

end
