(* ===== verification/Actions.thy ===== *)
theory Actions
  imports Commands Deployment Rate_Limiter
begin

text \<open>
  Management actions (\<^verbatim>\<open>actions/\<close>): the registry of all composable actions, the executor that turns a
  queued task into a command to the game server, a CLI line or an internal operation, and the
  endpoints that authorise, reauthenticate, record and submit a task. The game server, the operating
  system, the text form of JSON values and of database errors are parameters.
\<close>

section \<open>The registry\<close>

datatype executor = ExOpenUds | ExCliExecute | ExCliRaw | ExInternal

record action_descriptor =
  ad_id :: string
  ad_permission :: string
  ad_executor :: executor
  ad_risk :: risk
  ad_audit :: bool
  ad_reauth :: bool
  host_allowed :: bool
  queue_key :: string
  long_running :: bool

definition action ::
  "string \<Rightarrow> string \<Rightarrow> executor \<Rightarrow> risk \<Rightarrow> bool \<Rightarrow> bool \<Rightarrow> bool \<Rightarrow> string \<Rightarrow> bool \<Rightarrow> action_descriptor" where
  "action i p x r au re host key long =
     \<lparr>ad_id = i, ad_permission = p, ad_executor = x, ad_risk = r, ad_audit = au, ad_reauth = re,
      host_allowed = host, queue_key = key, long_running = long\<rparr>"

definition seed_actions :: "action_descriptor list" where
  "seed_actions = [
     action ''room.kick'' ''room:kick'' ExOpenUds Medium True False True ''room:{room_id}'' False,
     action ''room.force_move'' ''room:move'' ExOpenUds Medium True False True ''room:{room_id}'' False,
     action ''room.start'' ''room:start'' ExOpenUds Medium True False True ''room:{room_id}'' False,
     action ''room.cancel_start'' ''room:start'' ExOpenUds Medium True False True ''room:{room_id}'' False,
     action ''room.ready'' ''room:start'' ExOpenUds Low True False False ''room:{room_id}'' False,
     action ''room.close'' ''room:manage'' ExOpenUds High True False False ''room:{room_id}'' False,
     action ''room.set_chart'' ''room:config'' ExOpenUds Medium True False True ''room:{room_id}'' False,
     action ''room.lock'' ''room:config'' ExOpenUds Medium True False True ''room:{room_id}'' False,
     action ''room.cycle'' ''room:config'' ExOpenUds Medium True False True ''room:{room_id}'' False,
     action ''room.set_live'' ''room:config'' ExOpenUds Medium True False True ''room:{room_id}'' False,
     action ''room.set_hidden'' ''room:config'' ExOpenUds Medium True False True ''room:{room_id}'' False,
     action ''room.set_persistent'' ''room:config'' ExOpenUds Medium True False True ''room:{room_id}'' False,
     action ''room.set_api_endpoint'' ''room:config'' ExOpenUds High True False False ''room:{room_id}'' False,
     action ''room.set_host'' ''room:config'' ExOpenUds High True False False ''room:{room_id}'' False,
     action ''room.set_degraded'' ''room:config'' ExOpenUds High True False False ''room:{room_id}'' False,
     action ''room.ban'' ''room:blacklist'' ExOpenUds Medium True False True ''room:{room_id}'' False,
     action ''room.unban'' ''room:blacklist'' ExOpenUds Medium True False True ''room:{room_id}'' False,
     action ''room.whitelist_add'' ''room:whitelist'' ExOpenUds Medium True False True ''room:{room_id}'' False,
     action ''room.whitelist_remove'' ''room:whitelist'' ExOpenUds Medium True False True ''room:{room_id}'' False,
     action ''player.kick'' ''user:kick'' ExOpenUds Medium True False False ''user:{user_id}'' False,
     action ''player.ban'' ''user:ban'' ExOpenUds High True True False ''user:{user_id}'' False,
     action ''player.unban'' ''user:ban'' ExOpenUds Medium True True False ''user:{user_id}'' False,
     action ''player.ban_ip'' ''user:ban_ip'' ExOpenUds High True True False ''server'' False,
     action ''player.unban_ip'' ''user:ban_ip'' ExOpenUds High True True False ''server'' False,
     action ''broadcast.all'' ''broadcast:all'' ExOpenUds High True False False ''server'' False,
     action ''broadcast.room'' ''broadcast:room'' ExOpenUds Medium True False False ''room:{room_id}'' False,
     action ''broadcast.user'' ''broadcast:user'' ExOpenUds Medium True False False ''server'' False,
     action ''server.config_reload'' ''config:reload'' ExOpenUds High True False False ''config:pmp'' False,
     action ''server.roomcreation'' ''server:manage'' ExOpenUds High True False False ''server'' False,
     action ''server.shutdown'' ''server:shutdown'' ExOpenUds Critical True True False ''server'' False,
     action ''server.start'' ''server:start'' ExInternal Critical True True False ''server'' False,
     action ''server.supervisor_stop'' ''server:shutdown'' ExInternal Critical True True False ''server'' False,
     action ''server.connections'' ''server:manage'' ExCliExecute High True False False ''server'' False,
     action ''pmp.cli.execute'' ''pmp:cli'' ExCliRaw High True True False ''server'' False,
     action ''pmp.update.apply'' ''server:update'' ExCliExecute Critical True True False ''server'' True,
     action ''pmp.update.check'' ''server:update'' ExCliExecute High True False False ''server'' False,
     action ''pmp.update.cancel'' ''server:update'' ExCliExecute High True False False ''server'' False,
     action ''pmp.update.force'' ''server:update'' ExCliExecute Critical True True False ''server'' True,
     action ''user.revoke_sessions'' ''user:kick'' ExInternal High True False False ''user:{user_id}'' False]"

definition is_job_only_action :: "string \<Rightarrow> bool" where
  "is_job_only_action i \<longleftrightarrow>
     i \<in> {''pmp.update.check'', ''pmp.update.apply'', ''pmp.update.cancel'', ''pmp.update.force''}"

definition get_action :: "string \<Rightarrow> action_descriptor option" where
  "get_action i = find (\<lambda>a. ad_id a = i) seed_actions"

definition all_actions :: "action_descriptor list" where
  "all_actions = seed_actions"

text \<open>The text form of a JSON value is a parameter.\<close>

definition resolve_queue_key :: "(json \<Rightarrow> string) \<Rightarrow> action_descriptor \<Rightarrow> json \<Rightarrow> string" where
  "resolve_queue_key json_text a args =
     (if \<not> contains (queue_key a) ''{'' then queue_key a
      else
        let key = (case Option.bind (get_field args ''room_id'') as_string of
                     Some room \<Rightarrow> replace_all ''{room_id}'' room (queue_key a) | None \<Rightarrow> queue_key a)
        in (case get_field args ''user_id'' of
              Some u \<Rightarrow> replace_all ''{user_id}'' (json_text u) key | None \<Rightarrow> key))"

section \<open>The executor\<close>

definition fixed_cli_command :: "string \<Rightarrow> json \<Rightarrow> string option" where
  "fixed_cli_command i args =
     (if i = ''server.connections''
      then (case Option.bind (get_field args ''enabled'') as_bool of
              Some True \<Rightarrow> Some ''connections on''
            | Some False \<Rightarrow> Some ''connections off''
            | None \<Rightarrow> Some ''connections'')
      else None)"

text \<open>Slicing inside a multi-byte character panics, which is \<open>None\<close>.\<close>

definition truncate_text :: "string \<Rightarrow> nat \<Rightarrow> string option" where
  "truncate_text s max_len =
     (if length s \<le> max_len then Some s
      else if is_char_boundary s max_len then Some (take max_len s @ bytes [226, 128, 166])
      else None)"

definition PLAYER_TARGET :: "string list" where
  "PLAYER_TARGET = [''room.kick'', ''room.force_move'', ''room.ban'', ''room.unban'', ''room.whitelist_add'',
     ''room.whitelist_remove'']"

definition normalize_openuds_args :: "string \<Rightarrow> json \<Rightarrow> json" where
  "normalize_openuds_args i args =
     (if i \<notin> set PLAYER_TARGET then args
      else case Option.bind (get_field args ''phira_id'') as_i64 of
        None \<Rightarrow> args
      | Some p \<Rightarrow>
          if get_field args ''user_id'' = None
          then (case args of
                  JObj kvs \<Rightarrow> JObj (filter (\<lambda>e. fst e \<noteq> ''phira_id'') kvs @ [(''user_id'', JInt p)])
                | _ \<Rightarrow> args)
          else args)"

record exec_env =
  pmp_of :: pmp
  json_text :: "json \<Rightarrow> string"
  sqlx_text :: "sqlx_error \<Rightarrow> string"
  adapter :: deployment_adapter
  host_of :: host

definition api_error_text :: "api_error \<Rightarrow> string" where
  "api_error_text e = as_str (code e) @ '': '' @ message e"

definition with_pool :: "'e \<Rightarrow> (db, 'e, 'a) comp \<Rightarrow> (db option, 'e, 'a) comp" where
  "with_pool e m s =
     (case s of None \<Rightarrow> (Inl e, s) | Some d \<Rightarrow> (case m d of (r, d') \<Rightarrow> (r, Some d')))"

definition run_internal :: "exec_env \<Rightarrow> task \<Rightarrow> (db option, string, json) comp" where
  "run_internal X t =
     (if t_action t = ''server.start'' then from_result (start_pmp (adapter X) (host_of X) (t_args t))
      else if t_action t = ''server.supervisor_stop'' then from_result (stop_pmp (adapter X) (host_of X))
      else if t_action t = ''user.revoke_sessions'' then
        bnd (some_or (Option.bind (get_field (t_args t) ''user_id'') as_i64) ''user.revoke_sessions requires args.user_id'') (\<lambda>p.
        with_pool ''database not configured'' (
          bnd (map_err (sqlx_text X) (select (\<lambda>d. find (\<lambda>u. phira_id u = p) (users d)))) (\<lambda>row.
          bnd (some_or row ''user not found'') (\<lambda>u.
          andthen (map_err api_error_text (revoke_all_for_user (u_id u)))
            (ret (JObj [(''revoked'', JBool True)]))))))
      else throw (''unsupported internal action: '' @ t_action t))"

definition uds_text :: "uds_error + 'a \<Rightarrow> string + 'a" where
  "uds_text r = (case r of Inl e \<Rightarrow> Inl (uds_error_text e) | Inr v \<Rightarrow> Inr v)"

definition run_task :: "exec_env \<Rightarrow> task \<Rightarrow> (db option, string, json) comp" where
  "run_task X t =
     bnd (some_or (get_action (t_action t)) (''unknown action: '' @ t_action t)) (\<lambda>a.
     case ad_executor a of
       ExOpenUds \<Rightarrow> from_result (uds_text (pmp_of X (t_action t) (normalize_openuds_args (t_action t) (t_args t))))
     | ExCliExecute \<Rightarrow>
         bnd (some_or (fixed_cli_command (t_action t) (t_args t)) (''no fixed CLI mapping for action '' @ t_action t)) (\<lambda>cmd.
           from_result (uds_text (cli_execute (pmp_of X) cmd)))
     | ExCliRaw \<Rightarrow>
         (let cmd = unwrap_or (Option.bind (get_field (t_args t) ''command'') as_string) [] in
          if cmd = [] then throw ''cli.execute requires args.command''
          else from_result (uds_text (cli_execute (pmp_of X) cmd)))
     | ExInternal \<Rightarrow> run_internal X t)"

definition outcome_of :: "exec_env \<Rightarrow> string + json \<Rightarrow> (string \<times> string \<times> string) option" where
  "outcome_of X r =
     (case r of
        Inr v \<Rightarrow> Some (''succeeded'', json_text X v, [])
      | Inl e \<Rightarrow> (case truncate_text e 120 of Some c \<Rightarrow> Some (''failed'', [], c) | None \<Rightarrow> None))"

text \<open>What is recorded once the result is known; the errors of both writes are dropped.\<close>

definition record_outcome ::
  "libs \<Rightarrow> uuid \<Rightarrow> task \<Rightarrow> string \<times> string \<times> string \<Rightarrow> (db option, unit, unit) comp" where
  "record_outcome L audit_id t w s =
     (case s of
        None \<Rightarrow> (Inr (), s)
      | Some d \<Rightarrow>
          (case w of (st, summary, err) \<Rightarrow>
             (case andthen (ignore (mark_finished (t_command_id t) st summary err))
                     (case t_audit t of
                        Some c \<Rightarrow> ignore (record_completed_command audit_id c (t_args_redacted t) st err (uuid_text L (t_command_id t)))
                      | None \<Rightarrow> ret ()) d of
                (_ :: unit + unit, d') \<Rightarrow> (Inr (), Some d'))))"

text \<open>The error is a panic of the worker; the value is what the waiting caller gets.\<close>

definition execute_task :: "libs \<Rightarrow> exec_env \<Rightarrow> uuid \<Rightarrow> task \<Rightarrow> (db option, unit, string + json) comp" where
  "execute_task L X audit_id t s =
     (case run_task X t s of (r, s1) \<Rightarrow>
        (case outcome_of X r of
           None \<Rightarrow> (Inl (), s1)
         | Some w \<Rightarrow> (case record_outcome L audit_id t w s1 of (_, s2) \<Rightarrow> (Inr r, s2))))"

section \<open>Endpoints\<close>

record control_state =
  cs_limiter :: buckets
  cs_pool :: "db option"
  cs_broker :: broker

definition on_cs_pool :: "(db option, 'e, 'a) comp \<Rightarrow> (control_state, 'e, 'a) comp" where
  "on_cs_pool m s = (case m (cs_pool s) of (r, p) \<Rightarrow> (r, s\<lparr>cs_pool := p\<rparr>))"

definition on_broker :: "(broker, 'e, 'a) comp \<Rightarrow> (control_state, 'e, 'a) comp" where
  "on_broker m s = (case m (cs_broker s) of (r, b) \<Rightarrow> (r, s\<lparr>cs_broker := b\<rparr>))"

definition on_cs_limiter :: "(buckets, 'e, 'a) comp \<Rightarrow> (control_state, 'e, 'a) comp" where
  "on_cs_limiter m s = (case m (cs_limiter s) of (r, b) \<Rightarrow> (r, s\<lparr>cs_limiter := b\<rparr>))"

definition list_actions :: "auth_principal \<Rightarrow> (db option, api_error, action_descriptor list) comp" where
  "list_actions a = andthen (require a ''dashboard:view'') (ret (sort_key ad_id all_actions))"

definition user_agent_from_headers :: "headers \<Rightarrow> string" where
  "user_agent_from_headers hs = unwrap_or (header_str hs ''user-agent'') []"

text \<open>The user row of the caller, or the caller is not found.\<close>

definition find_user_by_id :: "uuid \<Rightarrow> (db, api_error, user option) comp" where
  "find_user_by_id i =
     map_err (db_err (api_error_new UserNotFound ''user not found'')) (select (\<lambda>d. find (\<lambda>u. u_id u = i) (users d)))"

definition verify_real_host :: "exec_env \<Rightarrow> auth_principal \<Rightarrow> json \<Rightarrow> (db option, api_error, bool) comp" where
  "verify_real_host X a args =
     bnd (some_or (Option.bind (get_field args ''room_id'') as_string)
            (api_error_new RoomIdRequired ''room_id required for host action'')) (\<lambda>room.
     with_db (
       bnd (find_user_by_id (sub a)) (\<lambda>row.
       bnd (some_or row (not_found ''user'')) (\<lambda>u.
       bnd (from_result (case host_id (pmp_of X) room of Inl e \<Rightarrow> Inl (uds_to_api e) | Inr h \<Rightarrow> Inr h)) (\<lambda>host.
       ret (host = Some (wrap32 (phira_id u))))))))"

text \<open>How the wait for a result ended: with the executor's result, with a dropped executor, or by the
  thirty-second timeout.\<close>

datatype waited = Completed "string + json" | Dropped | TimedOut

datatype action_reply = Done json | Accepted uuid

definition action_risk :: "action_descriptor \<Rightarrow> reauth_risk" where
  "action_risk d = (if Critical \<le> ad_risk d then RCritical else RHigh)"

definition audit_of :: "auth_principal \<Rightarrow> headers \<Rightarrow> action_descriptor \<Rightarrow> string \<Rightarrow> command_audit option" where
  "audit_of a hs d key =
     (if ad_audit d
      then Some \<lparr>ca_principal_type = show_principal (principal a),
             ca_actor_user_id = (if is_root a then None else Some (sub a)), ca_actor_session_id = sid a,
             ca_action = ad_id d, ca_resource_type = ''action'', ca_resource_id = key, ca_request_id = request_id a,
             ca_ip = ip_from_headers hs, ca_user_agent = user_agent_from_headers hs\<rparr>
      else None)"

text \<open>Who may act: the permission, or for a host action the real host of the room.\<close>

definition authorize_action :: "exec_env \<Rightarrow> auth_principal \<Rightarrow> action_descriptor \<Rightarrow> json \<Rightarrow> (db option, api_error, unit) comp" where
  "authorize_action X a d args =
     bnd (has_permission a (ad_permission d)) (\<lambda>ok.
       if host_allowed d
       then bnd (verify_real_host X a args) (\<lambda>is_host.
              if \<not> ok \<and> \<not> is_host then throw permission_denied else ret ())
       else if \<not> ok then throw permission_denied else ret ())"

definition execute_action ::
  "env \<Rightarrow> exec_env \<Rightarrow> uuid \<Rightarrow> waited \<Rightarrow> auth_principal \<Rightarrow> headers \<Rightarrow> string \<Rightarrow> json \<Rightarrow> (control_state, api_error, action_reply) comp" where
  "execute_action E X command_id w a hs i args =
     bnd (some_or (get_action i) (not_found ''action'')) (\<lambda>d.
     if is_job_only_action (ad_id d)
     then throw (api_error_new LongRunningActionRequiresJob ''long-running action requires the Job API'')
     else if ad_id d = ''pmp.cli.execute''
     then throw (api_error_new ResourceConflict ''raw PMP CLI requires the dedicated CommandRun endpoint'')
     else
       andthen (on_cs_pool (authorize_action X a d args))
      (andthen (from_result (if ad_reauth d then reauth E a hs (action_risk d) else Inr ()))
      (let key = resolve_queue_key (json_text X) d args; red = redact_args args;
           actor = uuid_text (libs_of E) (sub a) in
       andthen (on_cs_pool (with_db (insert_queued command_id (ad_id d) actor key red)))
      (andthen (on_broker (submit
          \<lparr>t_command_id = command_id, t_action = ad_id d, t_actor = actor, t_resource_key = key, t_args = args,
           t_args_redacted = red, t_completion = \<not> long_running d, t_audit = audit_of a hs d key\<rparr>))
      (if long_running d then ret (Accepted command_id)
       else case w of
         Completed (Inr v) \<Rightarrow> ret (Done v)
       | Completed (Inl e) \<Rightarrow> throw (api_error_new PmpUnavailable e)
       | Dropped \<Rightarrow> throw (api_error_new PmpUnavailable ''executor dropped'')
       | TimedOut \<Rightarrow> throw (api_error_new PmpUnavailable ''command timed out''))))))"

record command_list_response =
  cl_items :: "command_view list"
  cl_total :: int
  cl_page :: int
  cl_page_num :: int

definition list_commands ::
  "auth_principal \<Rightarrow> int option \<Rightarrow> int option \<Rightarrow> string option \<Rightarrow> (db option, api_error, command_list_response) comp" where
  "list_commands a page page_num scope =
     guarded a ''dashboard:view'' (Inr ())
       (let p = max (unwrap_or page 1) 1; n = min (max (unwrap_or page_num 50) 1) 100 in
        bnd (list_recent scope p n) (\<lambda>rt.
        ret \<lparr>cl_items = fst rt, cl_total = snd rt, cl_page = p, cl_page_num = n\<rparr>))"

definition output_string :: "(json \<Rightarrow> string) \<Rightarrow> json \<Rightarrow> string" where
  "output_string text v = (case v of JStr s \<Rightarrow> s | _ \<Rightarrow> text v)"

text \<open>The raw console, on the database once the guards are passed.\<close>

definition console_body ::
  "env \<Rightarrow> exec_env \<Rightarrow> uuid \<Rightarrow> uuid \<Rightarrow> auth_principal \<Rightarrow> headers \<Rightarrow> string \<Rightarrow> (db, api_error, command_view) comp" where
  "console_body E X command_id audit_id a hs command =
     (let actor = uuid_text (libs_of E) (sub a) in
      andthen (insert_console_run command_id actor command ''server'')
     (let r = cli_execute (pmp_of X) command;
          st = (case r of Inr _ \<Rightarrow> ''succeeded'' | Inl _ \<Rightarrow> ''failed'');
          out = (case r of Inr v \<Rightarrow> Some (output_string (json_text X) v) | Inl _ \<Rightarrow> None);
          err = (case r of Inr _ \<Rightarrow> None | Inl e \<Rightarrow> Some (uds_error_text e)) in
      andthen (mark_finished command_id st (unwrap_or out []) (unwrap_or err []))
     (andthen (ignore (record_principal audit_id a ''pmp.cli.execute'' ''pmp'' ''console''
          (JObj [(''command'', JStr ''[REDACTED input]'')]) st (if err = None then [] else ''cli_execute_error'') []
          (ip_from_headers hs) (user_agent_from_headers hs)))
     (ret \<lparr>cv_command_id = command_id, cv_command = command, cv_action = ''pmp.cli.execute'', cv_status = st,
           cv_output = out, cv_error = err, cv_executed_at = Some (now_of E), cv_principal = actor, cv_scope = ''server''\<rparr>))))"

definition execute_command ::
  "env \<Rightarrow> exec_env \<Rightarrow> uuid \<Rightarrow> uuid \<Rightarrow> auth_principal \<Rightarrow> headers \<Rightarrow> string \<Rightarrow> (control_state, api_error, command_view) comp" where
  "execute_command E X command_id audit_id a hs command =
     andthen (on_cs_pool (require a ''pmp:cli''))
    (andthen (on_cs_limiter (check (now_secs (now_of E)) (''raw-cli:'' @ uuid_text (libs_of E) (sub a))
                (raw_cli_per_minute (rate_limit (cfg E)))))
    (andthen (from_result (reauth E a hs RHigh))
       (on_cs_pool (with_db (console_body E X command_id audit_id a hs command)))))"

section \<open>Who can run an action\<close>

text \<open>The room the arguments name has the caller as its host, by what the game server says.\<close>

definition real_host :: "exec_env \<Rightarrow> auth_principal \<Rightarrow> json \<Rightarrow> db option \<Rightarrow> bool" where
  "real_host X a args s \<longleftrightarrow>
     (\<exists>room d u. Option.bind (get_field args ''room_id'') as_string = Some room \<and> s = Some d \<and>
        u \<in> set (users d) \<and> u_id u = sub a \<and> host_id (pmp_of X) room = Inr (Some (wrap32 (phira_id u))))"

lemma has_permission_reads: "obeys pool_untouched (has_permission a p)"
  unfolding has_permission_def permissions_for_principal_def permissions_for_user_def
  by (intro pool_reader.obeys_intros pool_untouched_with_db reader.table_intros)

lemma has_permission_may: "has_permission a p s = (Inr True, t) \<Longrightarrow> may s a p"
  by (rule require_may [of _ _ _ "()" t]) (simp add: require_def bnd_def ret_def)

lemma verify_real_host_reads: "obeys pool_untouched (verify_real_host X a args)"
  unfolding verify_real_host_def find_user_by_id_def
  by (intro pool_reader.obeys_intros pool_untouched_with_db reader.table_intros)

lemma mapped_Inr: "(case x of Inl e \<Rightarrow> Inl (f e) | Inr h \<Rightarrow> Inr h) = Inr b \<longleftrightarrow> x = Inr b"
  by (cases x) auto

lemma verify_real_hostD:
  assumes "verify_real_host X a args s = (Inr True, t)"
  shows "real_host X a args s"
proof -
  from assms obtain room d d1 u where r: "Option.bind (get_field args ''room_id'') as_string = Some room"
    and s: "s = Some d" and q: "select (\<lambda>d. find (\<lambda>u. u_id u = sub a) (users d)) d = (Inr (Some u), d1)"
    and h: "host_id (pmp_of X) room = Inr (Some (wrap32 (phira_id u)))"
    by (auto simp: verify_real_host_def find_user_by_id_def runs mapped_Inr)
  from select_InrD [OF q] have "find (\<lambda>u. u_id u = sub a) (users d) = Some u" by auto
  then have "u \<in> set (users d)" "u_id u = sub a" by (auto simp: find_Some_iff)
  with r s h show ?thesis by (auto simp: real_host_def)
qed

lemma real_host_untouched: "pool_untouched s t \<Longrightarrow> real_host X a args t \<Longrightarrow> real_host X a args s"
  by (auto simp: real_host_def pool_untouched_def untouched_def split: option.splits)

lemma authorize_reads: "obeys pool_untouched (authorize_action X a d args)"
  unfolding authorize_action_def
  by (intro pool_reader.obeys_intros has_permission_reads verify_real_host_reads)

lemma authorize_actionD:
  assumes "authorize_action X a d args s = (Inr u, t)"
  shows "may s a (ad_permission d) \<or> host_allowed d \<and> real_host X a args s"
proof -
  from assms obtain ok s1 where p: "has_permission a (ad_permission d) s = (Inr ok, s1)"
    and rest: "(if host_allowed d
       then bnd (verify_real_host X a args) (\<lambda>h. if \<not> ok \<and> \<not> h then throw permission_denied else ret ())
       else if \<not> ok then throw permission_denied else ret ()) s1 = (Inr u, t)"
    by (auto simp: authorize_action_def bnd_runs)
  show ?thesis
  proof (cases ok)
    case True
    with p show ?thesis by (auto dest: has_permission_may)
  next
    case False
    with rest obtain t1 where "host_allowed d" "verify_real_host X a args s1 = (Inr True, t1)"
      by (auto simp: runs split: if_splits)
    then show ?thesis
      using verify_real_hostD real_host_untouched obeys_run [OF has_permission_reads p] by blast
  qed
qed

text \<open>Nothing was written and nothing was queued.\<close>

definition control_untouched :: "control_state \<Rightarrow> control_state \<Rightarrow> bool" where
  "control_untouched s t \<longleftrightarrow>
     pool_untouched (cs_pool s) (cs_pool t) \<and> cs_broker t = cs_broker s \<and> cs_limiter t = cs_limiter s"

interpretation control_reader: frame control_untouched
  by unfold_locales (auto simp: control_untouched_def intro: pool_reader.refl_R pool_reader.trans_R)

lemma control_untouched_pool: "obeys pool_untouched m \<Longrightarrow> obeys control_untouched (on_cs_pool m)"
  by (auto simp: obeys_def control_untouched_def on_cs_pool_def split: prod.splits) (metis snd_conv)

lemma on_cs_pool_runs [runs]:
  "on_cs_pool m s = (Inr b, t) \<longleftrightarrow> (\<exists>p. m (cs_pool s) = (Inr b, p) \<and> t = s\<lparr>cs_pool := p\<rparr>)"
  by (auto simp: on_cs_pool_def split: prod.splits)

text \<open>A guard that only reads, before a body: either it refused, or it was passed.\<close>

lemma gate_cases:
  assumes "andthen g m s = (r, t)" and "obeys control_untouched g"
    and "(\<exists>x. r = Inr x) \<or> \<not> control_untouched s t"
  obtains x u where "g s = (Inr x, u)" and "m u = (r, t)" and "control_untouched s u"
proof -
  obtain y u where g: "g s = (y, u)" by (cases "g s")
  with assms(2) have "control_untouched s u" by (rule obeys_run)
  with assms g that show thesis by (cases y) (auto simp: andthen_def bnd_def)
qed

lemma gated_twice:
  assumes "andthen (on_cs_pool g) (andthen (from_result q) m) s = (r, t)" and "obeys pool_untouched g"
    and "(\<exists>x. r = Inr x) \<or> \<not> control_untouched s t"
  shows "(\<exists>x p. g (cs_pool s) = (Inr x, p)) \<and> (\<exists>y. q = Inr y)"
proof -
  from assms(1,3) obtain x u where g: "on_cs_pool g s = (Inr x, u)" and rest: "andthen (from_result q) m u = (r, t)"
    and su: "control_untouched s u"
    by (rule gate_cases [OF _ control_untouched_pool [OF assms(2)]])
  have "(\<exists>x. r = Inr x) \<or> \<not> control_untouched u t" using assms(3) su control_reader.trans_R by blast
  with rest obtain y v where "from_result q u = (Inr y, v)"
    by (rule gate_cases [OF _ control_reader.obeys_from_result])
  with g show ?thesis by (auto simp: runs from_result_def)
qed


text \<open>A moderator whose group may kick, and a game server that accepts every command.\<close>

definition kicker_db :: db where
  "kicker_db = sample_db\<lparr>group_permissions := [(1, ''room:manage'')]\<rparr>"

definition calm_control :: "db \<Rightarrow> control_state" where
  "calm_control d = \<lparr>cs_limiter = [], cs_pool = Some d, cs_broker = []\<rparr>"

definition demo_exec :: exec_env where
  "demo_exec = \<lparr>pmp_of = (\<lambda>_ _. Inr (JObj [])), json_text = (\<lambda>_. ''x''), sqlx_text = (\<lambda>_. []),
     adapter = demo_deployment, host_of = \<lparr>host_env = (\<lambda>_. None), run_child = (\<lambda>_. ChildTimeout)\<rparr>\<rparr>"

lemma kicker_granted: "granted kicker_db 7 = {''room:manage''}"
  by (auto simp: granted_def member_groups_def kicker_db_def sample_db_def new_group_def empty_db_def ROOT_WILDCARD_def)

lemma has_permission_granted:
  assumes "p \<in> granted d (sub a)" and "outcomes d = []" and "\<not> is_root a"
  shows "has_permission a p (Some d) = (Inr True, Some d)"
  using assms by (simp add: has_permission_def permissions_for_principal_def with_db_def comp_defs permissions_for_user_def resolve_rows)

lemma get_close: "get_action ''room.close'' =
    Some (action ''room.close'' ''room:manage'' ExOpenUds High True False False ''room:{room_id}'' False)"
  by (simp add: get_action_def seed_actions_def action_def)

lemma kicker_closes:
  "\<exists>t. execute_action demo_env demo_exec 5 (Completed (Inr JNull)) demo_principal [] ''room.close''
     (JObj [(''room_id'', JStr ''A'')]) (calm_control kicker_db) = (Inr (Done JNull), t)"
proof -
  have "has_permission demo_principal ''room:manage'' (Some kicker_db) = (Inr True, Some kicker_db)"
    by (rule has_permission_granted)
      (simp_all add: demo_principal_def is_root_def kicker_granted, simp add: kicker_db_def sample_db_def empty_db_def)
  then show ?thesis
    by (simp add: execute_action_def get_close action_def some_or_def is_job_only_action_def authorize_action_def calm_control_def
        on_cs_pool_def andthen_def bnd_def ret_def from_result_def insert_queued_def insert_run_def new_run_def map_err_def query_calm
        kicker_db_def sample_db_def empty_db_def with_db_def command_statuses_def on_broker_def submit_def Let_def worker_for_def
        idle_worker_def QUEUE_CAPACITY_def)
qed


section \<open>What a finished command leaves behind\<close>

text \<open>The tables of the audit log are not written.\<close>

definition no_audit :: "db \<Rightarrow> db \<Rightarrow> bool" where
  "no_audit d d' \<longleftrightarrow> audit_log d' = audit_log d"

interpretation unaudited: table_frame no_audit
  by unfold_locales (auto simp: no_audit_def)

definition pool_no_audit :: "db option \<Rightarrow> db option \<Rightarrow> bool" where
  "pool_no_audit s t \<longleftrightarrow> map_option audit_log t = map_option audit_log s"

interpretation pool_unaudited: frame pool_no_audit
  by unfold_locales (auto simp: pool_no_audit_def)

lemma mark_finished_unaudited: "obeys no_audit (mark_finished i st su e)"
  unfolding mark_finished_def
  by (intro unaudited.table_intros unaudited.obeys_query) (auto simp: no_audit_def update_run_def split: if_splits)

lemma refused_audit:
  assumes "ne_result e \<notin> {''success'', ''denied'', ''error''}"
  shows "obeys no_audit (record_event i e)"
  unfolding record_event_def using assms
  by (intro unaudited.table_intros unaudited.obeys_query) (auto simp: insert_audit_def audit_allowed_def)

lemma revoke_all_unaudited: "obeys no_audit (revoke_all_for_user u)"
  unfolding revoke_all_for_user_def
  by (intro unaudited.table_intros unaudited.obeys_execute) (simp add: no_audit_def update_sessions_def)

lemma pool_no_audit_with: "obeys no_audit m \<Longrightarrow> obeys pool_no_audit (with_pool e m)"
  by (auto simp: obeys_def pool_no_audit_def no_audit_def with_pool_def split: option.splits prod.splits) (metis snd_conv)

lemma run_internal_unaudited: "obeys pool_no_audit (run_internal X t)"
  unfolding run_internal_def
  by (intro pool_unaudited.obeys_intros pool_no_audit_with unaudited.table_intros revoke_all_unaudited)

lemma run_task_unaudited: "obeys pool_no_audit (run_task X t)"
  unfolding run_task_def Let_def
  by (intro pool_unaudited.obeys_bnd pool_unaudited.obeys_some_or)
     (auto split: executor.splits intro!: pool_unaudited.obeys_intros run_internal_unaudited)

lemma outcome_status: "outcome_of X r = Some (st, su, e) \<Longrightarrow> st = (case r of Inr _ \<Rightarrow> ''succeeded'' | Inl _ \<Rightarrow> ''failed'')"
  by (auto simp: outcome_of_def split: sum.splits option.splits)

lemma record_outcome_unaudited:
  assumes "outcome_of X r = Some w"
  shows "obeys pool_no_audit (record_outcome L i t w)"
proof -
  obtain st su e where w: "w = (st, su, e)" by (cases w)
  with outcome_status [of X r st su e] assms have st: "st \<in> {''succeeded'', ''failed''}" by (auto split: sum.splits)
  have "obeys no_audit (record_completed_command i c p st e cid)" for c p cid
    unfolding record_completed_command_def
    by (rule refused_audit) (use st in \<open>auto simp: completed_event_def\<close>)
  then have "obeys no_audit (andthen (ignore (mark_finished (t_command_id t) st su e))
      (case t_audit t of
         Some c \<Rightarrow> ignore (record_completed_command i c (t_args_redacted t) st e (uuid_text L (t_command_id t)))
       | None \<Rightarrow> ret ()) :: (db, unit, unit) comp)"
    by (intro unaudited.table_intros mark_finished_unaudited)
  from obeysD [OF this] show ?thesis
    by (auto simp: obeys_def pool_no_audit_def no_audit_def record_outcome_def w split: option.splits prod.splits; metis snd_conv)
qed

text \<open>C40: no executed command leaves a row in the audit log. Whatever the task, its result and the
  state of the connection, the log after the executor is the log before it: the result the executor
  records is \<open>succeeded\<close> or \<open>failed\<close>, which the table's constraint rejects, and the error is dropped.\<close>

theorem executed_commands_unaudited:
  "map_option audit_log (snd (execute_task L X i t s)) = map_option audit_log s"
proof -
  obtain r s1 where r: "run_task X t s = (r, s1)" by (cases "run_task X t s")
  have 1: "pool_no_audit s s1" by (rule obeys_run [OF run_task_unaudited r])
  show ?thesis
  proof (cases "outcome_of X r")
    case None
    with r 1 show ?thesis by (simp add: execute_task_def pool_no_audit_def)
  next
    case (Some w)
    from obeysD [OF record_outcome_unaudited [OF this], of s1 L i t] r 1 Some show ?thesis
      by (auto simp: execute_task_def pool_no_audit_def split: prod.splits)
  qed
qed

definition runs_kept :: "db \<Rightarrow> db option \<Rightarrow> bool" where
  "runs_kept d s \<longleftrightarrow> (\<exists>d'. s = Some d' \<and> outcomes d' = [] \<and> clock d' = clock d \<and> command_runs d' = command_runs d)"

lemma run_internal_calm:
  assumes "outcomes d = []"
  shows "runs_kept d (snd (run_internal X t (Some d)))"
  using assms
  by (simp add: runs_kept_def run_internal_def from_result_def throw_def bnd_def some_or_def ret_def with_pool_def map_err_def
      andthen_def revoke_all_for_user_def update_sessions_def split: option.splits)

lemma run_task_calm:
  assumes "outcomes d = []"
  shows "runs_kept d (snd (run_task X t (Some d)))"
  using assms run_internal_calm [OF assms, of X t]
  by (simp add: run_task_def bnd_def some_or_def throw_def ret_def from_result_def runs_kept_def Let_def split: option.splits executor.splits)

lemma record_outcome_calm:
  assumes "outcomes d = []" and "st = ''succeeded'' \<or> st = ''failed''"
  shows "record_outcome L i t (st, su, e) (Some d) = (Inr (), Some (update_run (t_command_id t)
      (\<lambda>c. c\<lparr>c_status := st, c_finished_at := Some (clock d), result_summary := su, c_error_code := e\<rparr>) d))"
proof -
  have "snd (mark_finished (t_command_id t) st su e d) = update_run (t_command_id t)
      (\<lambda>c. c\<lparr>c_status := st, c_finished_at := Some (clock d), result_summary := su, c_error_code := e\<rparr>) d"
    using assms by (auto simp: mark_finished_def map_err_def query_calm command_statuses_def)
  moreover have "outcomes (update_run j f d) = []" for j f using assms by (simp add: update_run_def)
  ultimately show ?thesis
    using assms(2)
    by (auto simp: record_outcome_def andthen_def bnd_def ignore_def ret_def record_completed_command_def record_event_def
        completed_event_def map_err_def query_calm insert_audit_def audit_allowed_def split: option.splits)
qed

text \<open>On a database that answers, the executor settles exactly the run of its task. The run gets the
  status \<open>succeeded\<close> with the printed result, or \<open>failed\<close> with at most 120 bytes of the error (and an
  ellipsis), and the time of the database; every other run stays as it was, and the waiting caller is
  given the same result.\<close>

theorem executed_command_settled:
  assumes "outcomes d = []" and "execute_task L X i t (Some d) = (Inr r, s)"
  shows "\<exists>d' su e. s = Some d' \<and>
    command_runs d' = map (\<lambda>c. if c_id c = t_command_id t
        then c\<lparr>c_status := (case r of Inr _ \<Rightarrow> ''succeeded'' | Inl _ \<Rightarrow> ''failed''), c_finished_at := Some (clock d),
               result_summary := su, c_error_code := e\<rparr>
        else c) (command_runs d) \<and>
    (case r of Inr v \<Rightarrow> su = json_text X v \<and> e = [] | Inl x \<Rightarrow> su = [] \<and> length e \<le> 123)"
proof -
  obtain q s1 where q: "run_task X t (Some d) = (q, s1)" by (cases "run_task X t (Some d)")
  with run_task_calm [OF assms(1), of X t] obtain d1 where d1: "s1 = Some d1" "outcomes d1 = []" "clock d1 = clock d"
      "command_runs d1 = command_runs d" by (auto simp: runs_kept_def)
  obtain st su e where w: "outcome_of X q = Some (st, su, e)"
    using assms(2) q by (auto simp: execute_task_def split: option.splits)
  have st: "st = (case q of Inr _ \<Rightarrow> ''succeeded'' | Inl _ \<Rightarrow> ''failed'')" using w by (rule outcome_status)
  have rq: "r = q" using assms(2) q w by (auto simp: execute_task_def split: prod.splits)
  have "s = Some (update_run (t_command_id t)
      (\<lambda>c. c\<lparr>c_status := st, c_finished_at := Some (clock d1), result_summary := su, c_error_code := e\<rparr>) d1)"
    using assms(2) q w d1 st record_outcome_calm [of d1 st L i t su e]
    by (auto simp: execute_task_def split: sum.splits)
  moreover
  have "case q of Inr v \<Rightarrow> su = json_text X v \<and> e = [] | Inl x \<Rightarrow> su = [] \<and> length e \<le> 123"
    using w by (auto simp: outcome_of_def truncate_text_def bytes_def split: sum.splits option.splits if_splits)
  ultimately show ?thesis using d1 st rq by (auto simp: update_run_def)
qed

definition running_db :: db where
  "running_db = empty_db 3\<lparr>command_runs := [(new_run 1 ''room.kick'' ''a'' ''room:A'')\<lparr>c_status := ''running''\<rparr>]\<rparr>"

theorem executed_command_settled_witness:
  "\<exists>d'. snd (execute_task plain_libs demo_exec 2 kick_task (Some running_db)) = Some d' \<and>
     map c_status (command_runs d') = [''succeeded''] \<and> map c_finished_at (command_runs d') = [Some 3]"
proof -
  have "get_action ''room.kick'' =
      Some (action ''room.kick'' ''room:kick'' ExOpenUds Medium True False True ''room:{room_id}'' False)"
    by (simp add: get_action_def seed_actions_def action_def)
  then obtain s where s: "execute_task plain_libs demo_exec 2 kick_task (Some running_db) = (Inr (Inr (JObj [])), s)"
    by (cases "record_outcome plain_libs 2 kick_task (''succeeded'', ''x'', []) (Some running_db)")
      (simp add: execute_task_def run_task_def kick_task_def bnd_def some_or_def ret_def action_def from_result_def uds_text_def
        demo_exec_def outcome_of_def)
  have "outcomes running_db = []" by (simp add: running_db_def empty_db_def)
  from executed_command_settled [OF this s] s show ?thesis
    by (auto simp: running_db_def empty_db_def new_run_def kick_task_def)
qed

section \<open>The registry is coherent\<close>



text \<open>An action open to hosts is refused to every principal without a row in the table of users,
  whatever its permissions: the handler resolves the caller's user and asks the game server for the
  host even when the permission is there. Root, whose id is the nil id, is such a principal.\<close>

theorem root_refused_host_action:
  assumes "host_allowed d" and "sub a \<notin> u_id ` set (users db)"
  shows "\<exists>e. fst (authorize_action X a d args (Some db)) = Inl e"
proof (rule ccontr)
  assume "\<not> ?thesis"
  then obtain u t where "authorize_action X a d args (Some db) = (Inr u, t)"
    by (metis old.sum.exhaust prod.collapse)
  with assms(1) obtain ok s1 h t1 where p: "has_permission a (ad_permission d) (Some db) = (Inr ok, s1)"
    and v: "verify_real_host X a args s1 = (Inr h, t1)"
    by (auto simp: authorize_action_def bnd_runs)
  from obeys_run [OF has_permission_reads p] obtain d1 where d1: "s1 = Some d1" "untouched db d1"
    by (auto simp: pool_untouched_def split: option.splits)
  from v obtain u d2 where q: "select (\<lambda>d. find (\<lambda>u. u_id u = sub a) (users d)) d1 = (Inr (Some u), d2)"
    by (auto simp: verify_real_host_def find_user_by_id_def runs d1)
  from select_InrD [OF q] d1 have "find (\<lambda>u. u_id u = sub a) (users db) = Some u" by (auto simp: untouched_def)
  then have "u \<in> set (users db)" "u_id u = sub a" by (auto simp: find_Some_iff)
  with assms(2) show False by (metis imageI)
qed

theorem root_refused_host_action_witness:
  "\<exists>e. fst (authorize_action demo_exec (demo_principal\<lparr>sub := 0, principal := PRoot\<rparr>) (hd seed_actions)
     (JObj [(''room_id'', JStr ''A'')]) (Some sample_db)) = Inl e"
  by (rule root_refused_host_action)
     (simp_all add: seed_actions_def action_def sample_db_def demo_principal_def empty_db_def)

end
