(* ===== verification/Config_Repo.thy ===== *)
theory Config_Repo
  imports Schema
begin

text \<open>
  Persistence of configuration (\<^verbatim>\<open>config/repo.rs\<close>): the runtime overrides and the build configuration of the
  frontend, each a table with a single row, the public content by key, and the snapshots that are taken
  before a change. The generated id of a snapshot is an argument.
\<close>

definition config_db_err :: "sqlx_error \<Rightarrow> api_error" where
  "config_db_err = db_err (api_error_new ResourceNotFound ''not found'')"

text \<open>The author of a row refers to the table of users.\<close>

definition known_author :: "db \<Rightarrow> uuid option \<Rightarrow> bool" where
  "known_author d actor \<longleftrightarrow> (case actor of Some u \<Rightarrow> u \<in> u_id ` set (users d) | None \<Rightarrow> True)"

definition authored :: "uuid option \<Rightarrow> (db \<Rightarrow> 'a \<times> db) \<Rightarrow> 'a statement" where
  "authored actor f d = (if known_author d actor then Inr (f d) else Inl ForeignKeyViolation)"

definition get_overrides :: "(db, api_error, json option) comp" where
  "get_overrides = map_err config_db_err (select (\<lambda>d. map_option cr_content (runtime_overrides d)))"

definition put_overrides :: "json \<Rightarrow> uuid option \<Rightarrow> (db, api_error, unit) comp" where
  "put_overrides content actor =
     map_err config_db_err (query (authored actor (\<lambda>d.
       ((), d\<lparr>runtime_overrides :=
          Some \<lparr>cr_revision = 0, cr_content = content, cr_updated_by = actor, cr_updated_at = clock d\<rparr>\<rparr>))))"

definition get_public_content :: "string \<Rightarrow> (db, api_error, json option) comp" where
  "get_public_content key = map_err config_db_err (select (\<lambda>d. map_option cr_content (aget (public_content d) key)))"

definition put_public_content :: "string \<Rightarrow> json \<Rightarrow> uuid option \<Rightarrow> (db, api_error, unit) comp" where
  "put_public_content key content actor =
     map_err config_db_err (query (authored actor (\<lambda>d.
       ((), d\<lparr>public_content :=
          aput key \<lparr>cr_revision = 0, cr_content = content, cr_updated_by = actor, cr_updated_at = clock d\<rparr> (public_content d)\<rparr>))))"

definition get_ppf_config :: "(db, api_error, (int \<times> json) option) comp" where
  "get_ppf_config = map_err config_db_err (select (\<lambda>d. map_option (\<lambda>r. (cr_revision r, cr_content r)) (ppf_build_config d)))"

text \<open>The revision counts the writes; \<open>BIGINT\<close> overflow is an error of the statement.\<close>

definition put_ppf_config :: "json \<Rightarrow> uuid option \<Rightarrow> (db, api_error, int) comp" where
  "put_ppf_config content actor =
     map_err config_db_err (query (\<lambda>d.
       let n = (case ppf_build_config d of Some r \<Rightarrow> cr_revision r + 1 | None \<Rightarrow> 1) in
       if \<not> i64_range n then Inl InvalidStatement
       else authored actor (\<lambda>d. (n, d\<lparr>ppf_build_config :=
          Some \<lparr>cr_revision = n, cr_content = content, cr_updated_by = actor, cr_updated_at = clock d\<rparr>\<rparr>)) d))"

definition insert_snapshot :: "uuid \<Rightarrow> string \<Rightarrow> string \<Rightarrow> string \<Rightarrow> uuid option \<Rightarrow> (db, api_error, uuid) comp" where
  "insert_snapshot i scope content note actor =
     map_err config_db_err (query (\<lambda>d.
       if i \<in> cs_id ` set (config_snapshots d) then Inl UniqueViolation
       else authored actor (\<lambda>d. (i, d\<lparr>config_snapshots := config_snapshots d @
          [\<lparr>cs_id = i, cs_scope = scope, cs_content = content, cs_note = note, cs_created_by = actor,
            cs_created_at = clock d, cs_restored_at = None\<rparr>]\<rparr>)) d))"

definition list_snapshots :: "string \<Rightarrow> int \<Rightarrow> (db, api_error, config_snapshot list) comp" where
  "list_snapshots scope lim =
     map_err config_db_err (query (\<lambda>d.
       if lim < 0 then Inl InvalidStatement
       else Inr (take (nat lim) (rev (sort_key cs_created_at (filter (\<lambda>c. cs_scope c = scope) (config_snapshots d)))), d)))"

definition get_snapshot :: "uuid \<Rightarrow> (db, api_error, config_snapshot option) comp" where
  "get_snapshot i = map_err config_db_err (select (\<lambda>d. find (\<lambda>c. cs_id c = i) (config_snapshots d)))"

definition mark_restored :: "uuid \<Rightarrow> (db, api_error, unit) comp" where
  "mark_restored i =
     map_err config_db_err (execute (\<lambda>d.
       d\<lparr>config_snapshots := map (\<lambda>c. if cs_id c = i then c\<lparr>cs_restored_at := Some (clock d)\<rparr> else c) (config_snapshots d)\<rparr>))"

section \<open>What was written is read back\<close>

text \<open>On a database that answers, a document that was stored is what the next reader gets, and nothing
  else has changed.\<close>

lemma put_get_ppf_config:
  assumes "outcomes d = []" and "put_ppf_config content actor d = (Inr n, d')"
  shows "get_ppf_config d' = (Inr (Some (n, content)), d')"
    and "n = (case ppf_build_config d of Some r \<Rightarrow> cr_revision r + 1 | None \<Rightarrow> 1)"
  using assms
  by (auto simp: put_ppf_config_def get_ppf_config_def map_err_def query_calm authored_def Let_def
      split: if_splits)

lemma put_get_overrides:
  assumes "outcomes d = []" and "put_overrides content actor d = (Inr (), d')"
  shows "get_overrides d' = (Inr (Some content), d')"
  using assms by (auto simp: put_overrides_def get_overrides_def map_err_def query_calm authored_def split: if_splits)

lemma put_get_public_content:
  assumes "outcomes d = []" and "put_public_content key content actor d = (Inr (), d')"
  shows "get_public_content k d' = (if k = key then (Inr (Some content), d') else (fst (get_public_content k d), d'))"
  using assms
  by (auto simp: put_public_content_def get_public_content_def map_err_def query_calm authored_def split: if_splits)

end
