(* ===== verification/Jobs.thy ===== *)
theory Jobs
  imports Actions Config_Repo
begin

text \<open>
  Long-running jobs (\<^verbatim>\<open>jobs/\<close>): the policy registry, the table with its constraints, the runner with its
  background tasks, and the endpoints. A background task is a small machine that does one database
  statement per step; handlers and tasks interleave. The cancel flags are shared cells: the table of
  flags holds an address per job, and a task keeps the address it was started with.
\<close>

section \<open>The registry\<close>

datatype job_executor = FixedCli string | RunDeployment

datatype cancel_mode = BeforeDispatch

record job_descriptor =
  jd_id :: string
  jd_permission :: string
  jd_reauth :: "reauth_risk option"
  jd_resource_key :: "string option"
  retryable :: bool
  jd_cancel :: cancel_mode
  jd_executor :: job_executor
  jd_stage :: string
  terminal :: string

definition seed_jobs :: "job_descriptor list" where
  "seed_jobs =
     [\<lparr>jd_id = ''pmp.update.check'', jd_permission = ''server:update'', jd_reauth = None, jd_resource_key = Some ''server'',
       retryable = True, jd_cancel = BeforeDispatch, jd_executor = FixedCli ''update check'', jd_stage = ''checking'', terminal = ''checked''\<rparr>,
      \<lparr>jd_id = ''pmp.update.apply'', jd_permission = ''server:update'', jd_reauth = Some RCritical, jd_resource_key = Some ''server'',
       retryable = True, jd_cancel = BeforeDispatch, jd_executor = FixedCli ''update apply'', jd_stage = ''executing_pmp_update'',
       terminal = ''completed''\<rparr>,
      \<lparr>jd_id = ''pmp.update.cancel'', jd_permission = ''server:update'', jd_reauth = None, jd_resource_key = Some ''server'',
       retryable = False, jd_cancel = BeforeDispatch, jd_executor = FixedCli ''update cancel'', jd_stage = ''cancelling_update'',
       terminal = ''completed''\<rparr>,
      \<lparr>jd_id = ''pmp.update.force'', jd_permission = ''server:update'', jd_reauth = Some RCritical, jd_resource_key = Some ''server'',
       retryable = False, jd_cancel = BeforeDispatch, jd_executor = FixedCli ''update force'', jd_stage = ''forcing_update'',
       terminal = ''completed''\<rparr>,
      \<lparr>jd_id = ''ppf.build'', jd_permission = ''server:manage'', jd_reauth = Some RHigh, jd_resource_key = Some ''ppf'',
       retryable = False, jd_cancel = BeforeDispatch, jd_executor = RunDeployment, jd_stage = ''building'', terminal = ''completed''\<rparr>,
      \<lparr>jd_id = ''backup'', jd_permission = ''server:manage'', jd_reauth = Some RHigh, jd_resource_key = Some ''server'',
       retryable = False, jd_cancel = BeforeDispatch, jd_executor = RunDeployment, jd_stage = ''backing-up'', terminal = ''completed''\<rparr>]"

definition get_job_descriptor :: "string \<Rightarrow> job_descriptor option" where
  "get_job_descriptor i = find (\<lambda>j. jd_id j = i) seed_jobs"

definition key_of :: "job_descriptor \<Rightarrow> string" where
  "key_of j = unwrap_or (jd_resource_key j) []"

section \<open>The table\<close>

definition job_states :: "string list" where
  "job_states = [''queued'', ''running'', ''succeeded'', ''failed'', ''cancelled'', ''not_implemented'']"

definition active_state :: "string \<Rightarrow> bool" where
  "active_state st \<longleftrightarrow> st = ''queued'' \<or> st = ''running''"

text \<open>The partial unique index: another active row holds the key.\<close>

definition key_taken :: "db \<Rightarrow> uuid \<Rightarrow> string \<Rightarrow> bool" where
  "key_taken d i k \<longleftrightarrow> k \<noteq> [] \<and> (\<exists>j \<in> set (jobs d). j_id j \<noteq> i \<and> j_resource_key j = k \<and> active_state (j_state j))"

definition insert_job :: "job \<Rightarrow> unit statement" where
  "insert_job j d =
     (if j_id j \<in> j_id ` set (jobs d) then Inl UniqueViolation
      else if active_state (j_state j) \<and> key_taken d (j_id j) (j_resource_key j) then Inl UniqueViolation
      else Inr ((), d\<lparr>jobs := jobs d @ [j]\<rparr>))"

text \<open>An update of one row under the constraints of the table.\<close>

definition update_job :: "uuid \<Rightarrow> (db \<Rightarrow> job \<Rightarrow> job) \<Rightarrow> unit statement" where
  "update_job i f d =
     (let new = map (f d) (filter (\<lambda>j. j_id j = i) (jobs d)) in
      if \<exists>j \<in> set new. j_state j \<notin> set job_states then Inl CheckViolation
      else if \<exists>j \<in> set new. active_state (j_state j) \<and> key_taken d i (j_resource_key j) then Inl UniqueViolation
      else Inr ((), d\<lparr>jobs := map (\<lambda>j. if j_id j = i then f d j else j) (jobs d)\<rparr>))"

definition already_running :: api_error where
  "already_running = api_error_new JobAlreadyRunning ''job already running for this resource''"

definition job_conflict_err :: "sqlx_error \<Rightarrow> api_error" where
  "job_conflict_err e = (if e = UniqueViolation then already_running else internal)"

definition new_job :: "uuid \<Rightarrow> string \<Rightarrow> string \<Rightarrow> instant \<Rightarrow> job" where
  "new_job i job_type key now =
     \<lparr>j_id = i, j_type = job_type, j_resource_key = key, j_state = ''queued'', j_progress = None, j_stage = [],
      j_created_at = now, j_started_at = None, j_finished_at = None, j_error = []\<rparr>"

definition create_job :: "uuid \<Rightarrow> string \<Rightarrow> string \<Rightarrow> (db, api_error, job) comp" where
  "create_job i job_type key =
     map_err job_conflict_err (query (\<lambda>d.
       let j = new_job i job_type key (clock d) in
       case insert_job j d of Inl e \<Rightarrow> Inl e | Inr (_, d') \<Rightarrow> Inr (j, d')))"

definition final_states :: "string list" where
  "final_states = [''succeeded'', ''failed'', ''cancelled'', ''not_implemented'']"

definition with_state :: "string \<Rightarrow> string \<Rightarrow> 32 word option \<Rightarrow> string \<Rightarrow> db \<Rightarrow> job \<Rightarrow> job" where
  "with_state st stage progress err d j =
     j\<lparr>j_state := st, j_stage := stage, j_progress := (case progress of Some p \<Rightarrow> Some p | None \<Rightarrow> j_progress j), j_error := err,
       j_started_at := (if st = ''running'' \<and> j_started_at j = None then Some (clock d) else j_started_at j),
       j_finished_at := (if st \<in> set final_states then Some (clock d) else j_finished_at j)\<rparr>"

definition update_state :: "uuid \<Rightarrow> string \<Rightarrow> string \<Rightarrow> 32 word option \<Rightarrow> string \<Rightarrow> (db, api_error, unit) comp" where
  "update_state i st stage progress err =
     map_err (\<lambda>_. internal) (query (update_job i (with_state st stage progress err)))"

section \<open>The runner\<close>

text \<open>Where a background task is: about to mark the job running, about to look at its flag, executing, or
  about to record its result (the final stage or the error).\<close>

datatype phase = AtStart | AtCheck | Dispatched | AtReport "string + string"

record job_task =
  jt_job :: uuid
  jt_type :: string
  jt_flag :: nat
  jt_phase :: phase

record job_event =
  je_job :: uuid
  je_state :: string
  je_stage :: string
  je_progress :: "32 word option"

record runner =
  jr_pool :: "db option"
  cancels :: "(uuid \<times> nat) list"
  flags :: "bool list"
  job_tasks :: "job_task list"
  published :: "job_event list"

definition on_jpool :: "(db option, 'e, 'a) comp \<Rightarrow> (runner, 'e, 'a) comp" where
  "on_jpool m s = (case m (jr_pool s) of (r, p) \<Rightarrow> (r, s\<lparr>jr_pool := p\<rparr>))"

definition job_lookup :: "uuid \<Rightarrow> (db, api_error, job) comp" where
  "job_lookup i =
     bnd (map_err (\<lambda>_. internal) (select (\<lambda>d. find (\<lambda>j. j_id j = i) (jobs d)))) (\<lambda>row.
       some_or row (api_error_new JobNotFound ''job not found''))"

definition descriptor :: "uuid \<Rightarrow> (runner, api_error, job_descriptor) comp" where
  "descriptor i =
     bnd (on_jpool (with_db (job_lookup i))) (\<lambda>j.
       some_or (get_job_descriptor (j_type j)) (api_error_new InternalError ''job type missing from registry''))"

text \<open>A fresh cell, its address in the table, and a task that holds the address.\<close>

definition spawn :: "uuid \<Rightarrow> string \<Rightarrow> runner \<Rightarrow> runner" where
  "spawn i job_type s =
     (let a = length (flags s) in
      s\<lparr>cancels := aput i a (cancels s), flags := flags s @ [False],
        job_tasks := job_tasks s @ [\<lparr>jt_job = i, jt_type = job_type, jt_flag = a, jt_phase = AtStart\<rparr>]\<rparr>)"

definition spawned :: "uuid \<Rightarrow> string \<Rightarrow> (runner, api_error, unit) comp" where
  "spawned i job_type s = (Inr (), spawn i job_type s)"

definition unknown_type :: api_error where
  "unknown_type = api_error_new JobTypeUnknown ''unknown job type''"

definition start_job :: "exec_env \<Rightarrow> uuid \<Rightarrow> string \<Rightarrow> (runner, api_error, job) comp" where
  "start_job X i job_type =
     bnd (some_or (get_job_descriptor job_type) unknown_type) (\<lambda>d.
     if jd_executor d = RunDeployment \<and> \<not> job_configured (adapter X) job_type
     then throw (api_error_new CapabilityNotSupported ''deployment capability is not configured'')
     else
       bnd (on_jpool (with_db (create_job i job_type (key_of d)))) (\<lambda>j.
       andthen (spawned (j_id j) job_type) (ret j)))"

definition raise_flag :: "uuid \<Rightarrow> (runner, api_error, unit) comp" where
  "raise_flag i s =
     (Inr (), case aget (cancels s) i of Some a \<Rightarrow> s\<lparr>flags := (flags s)[a := True]\<rparr> | None \<Rightarrow> s)"

definition not_cancellable :: "string \<Rightarrow> api_error" where
  "not_cancellable m = api_error_new JobNotCancellable m"

definition cancel_job :: "uuid \<Rightarrow> (runner, api_error, unit) comp" where
  "cancel_job i =
     bnd (on_jpool (with_db (job_lookup i))) (\<lambda>j.
     bnd (some_or (get_job_descriptor (j_type j)) unknown_type) (\<lambda>d.
     case jd_cancel d of BeforeDispatch \<Rightarrow>
       if j_state j = ''queued'' then raise_flag i
       else if j_state j = ''running'' then throw (not_cancellable ''job already dispatched; cannot cancel'')
       else if j_state j \<in> set final_states then throw (not_cancellable ''job already finished'')
       else throw (not_cancellable ''job cannot be cancelled'')))"

definition ensure_resource_free :: "string option \<Rightarrow> (db, api_error, unit) comp" where
  "ensure_resource_free key =
     (case key of
        None \<Rightarrow> ret ()
      | Some k \<Rightarrow>
          bnd (map_err (\<lambda>_. internal) (select (\<lambda>d.
                 length (filter (\<lambda>j. j_resource_key j = k \<and> active_state (j_state j)) (jobs d))))) (\<lambda>n.
            if 0 < n then throw already_running else ret ()))"

definition requeued :: "db \<Rightarrow> job \<Rightarrow> job" where
  "requeued d j = j\<lparr>j_state := ''queued'', j_stage := [], j_progress := None, j_error := [], j_started_at := None,
     j_finished_at := None\<rparr>"

definition requeue :: "uuid \<Rightarrow> (db, api_error, string) comp" where
  "requeue i =
     bnd (job_lookup i) (\<lambda>j.
     if j_state j \<noteq> ''failed'' \<and> j_state j \<noteq> ''cancelled''
     then throw (api_error_new JobNotRetryable ''only failed or cancelled jobs can be retried'')
     else
       bnd (some_or (get_job_descriptor (j_type j)) unknown_type) (\<lambda>d.
       andthen (ensure_resource_free (jd_resource_key d))
      (andthen (map_err job_conflict_err (query (update_job i requeued)))
        (ret (j_type j)))))"

definition retry_job :: "uuid \<Rightarrow> (runner, api_error, unit) comp" where
  "retry_job i = bnd (on_jpool (with_db (requeue i))) (\<lambda>ty. spawned i ty)"

section \<open>A background task\<close>

definition publish :: "uuid \<Rightarrow> string \<Rightarrow> string \<Rightarrow> runner \<Rightarrow> runner" where
  "publish i st stage s =
     s\<lparr>published := published s @ [\<lparr>je_job = i, je_state = st, je_stage = stage, je_progress = None\<rparr>]\<rparr>"

text \<open>\<open>let _ = update_state(...)\<close> when there is a database.\<close>

definition persist :: "uuid \<Rightarrow> string \<Rightarrow> string \<Rightarrow> string \<Rightarrow> runner \<Rightarrow> runner" where
  "persist i st stage err s =
     s\<lparr>jr_pool := map_option (\<lambda>d. snd (update_state i st stage None err d)) (jr_pool s)\<rparr>"

definition execute_job :: "exec_env \<Rightarrow> string \<Rightarrow> job_descriptor \<Rightarrow> (db option, string, string) comp" where
  "execute_job X job_type d =
     (case jd_executor d of
        FixedCli cmd \<Rightarrow>
          from_result (case cli_execute (pmp_of X) cmd of Inl e \<Rightarrow> Inl (''failed: '' @ uds_error_text e) | Inr _ \<Rightarrow> Inr (terminal d))
      | RunDeployment \<Rightarrow>
          bnd (\<lambda>s. if job_type = ''ppf.build''
                   then (case s of
                           Some db \<Rightarrow>
                             (case map_err (\<lambda>e. ''failed to load PPF build config: '' @ api_error_text e) get_ppf_config db of
                                (r, db') \<Rightarrow> (map_sum id (map_option snd) r, Some db'))
                         | None \<Rightarrow> (Inr None, None))
                   else (Inr None, s)) (\<lambda>config.
            from_result (case run_job (adapter X) (host_of X) job_type config of Inl e \<Rightarrow> Inl e | Inr _ \<Rightarrow> Inr (terminal d))))"

definition report :: "uuid \<Rightarrow> string + string \<Rightarrow> runner \<Rightarrow> runner" where
  "report i r s =
     (let s' = (if jr_pool s = None then s else
        case r of
          Inr stage \<Rightarrow> publish i ''succeeded'' stage (persist i ''succeeded'' stage [] s)
        | Inl e \<Rightarrow>
            if e = ''not_implemented'' then publish i ''not_implemented'' ''not_implemented'' (persist i ''not_implemented'' ''not_implemented'' e s)
            else let stage = (if e = ''timeout'' then ''timeout'' else ''failed'')
                 in publish i ''failed'' stage (persist i ''failed'' stage e s))
      in s'\<lparr>cancels := adel i (cancels s')\<rparr>)"

text \<open>One step of a task: the next state, and the task with its next phase or its end.\<close>

definition task_step :: "exec_env \<Rightarrow> job_task \<Rightarrow> runner \<Rightarrow> job_task option \<times> runner" where
  "task_step X t s =
     (case jt_phase t of
        AtStart \<Rightarrow>
          (Some (t\<lparr>jt_phase := AtCheck\<rparr>),
           if jr_pool s = None then s else publish (jt_job t) ''running'' ''starting'' (persist (jt_job t) ''running'' ''starting'' [] s))
      | AtCheck \<Rightarrow>
          (case get_job_descriptor (jt_type t) of
             None \<Rightarrow> (Some (t\<lparr>jt_phase := AtReport (Inl (''unknown job type: '' @ jt_type t))\<rparr>), s)
           | Some d \<Rightarrow>
               if flags s ! jt_flag t
               then (Some (t\<lparr>jt_phase := AtReport (Inl ''cancelled'')\<rparr>),
                     publish (jt_job t) ''cancelled'' ''cancelled'' (persist (jt_job t) ''cancelled'' ''cancelled'' ''cancelled'' s))
               else (Some (t\<lparr>jt_phase := Dispatched\<rparr>),
                     publish (jt_job t) ''running'' (jd_stage d) (persist (jt_job t) ''running'' (jd_stage d) [] s)))
      | Dispatched \<Rightarrow>
          (case get_job_descriptor (jt_type t) of
             None \<Rightarrow> (Some (t\<lparr>jt_phase := AtReport (Inl (''unknown job type: '' @ jt_type t))\<rparr>), s)
           | Some d \<Rightarrow> (case execute_job X (jt_type t) d (jr_pool s) of (r, p) \<Rightarrow>
               (Some (t\<lparr>jt_phase := AtReport r\<rparr>), s\<lparr>jr_pool := p\<rparr>)))
      | AtReport r \<Rightarrow> (None, report (jt_job t) r s))"

text \<open>The task at a position of the list takes a step.\<close>

definition step_task :: "exec_env \<Rightarrow> nat \<Rightarrow> runner \<Rightarrow> runner" where
  "step_task X k s =
     (if k < length (job_tasks s) then
        (case task_step X (job_tasks s ! k) s of
           (Some t, s') \<Rightarrow> s'\<lparr>job_tasks := (job_tasks s)[k := t]\<rparr>
         | (None, s') \<Rightarrow> s'\<lparr>job_tasks := take k (job_tasks s) @ drop (Suc k) (job_tasks s)\<rparr>)
      else s)"

section \<open>Endpoints\<close>

definition job_reauth :: "env \<Rightarrow> auth_principal \<Rightarrow> headers \<Rightarrow> job_descriptor \<Rightarrow> api_error + unit" where
  "job_reauth E a hs d = (case jd_reauth d of Some risk \<Rightarrow> reauth E a hs risk | None \<Rightarrow> Inr ())"

definition route_create_job ::
  "env \<Rightarrow> exec_env \<Rightarrow> uuid \<Rightarrow> auth_principal \<Rightarrow> headers \<Rightarrow> string \<Rightarrow> (runner, api_error, job) comp" where
  "route_create_job E X i a hs job_type =
     bnd (some_or (get_job_descriptor job_type) unknown_type) (\<lambda>d.
     andthen (on_jpool (require a (jd_permission d)))
    (andthen (from_result (job_reauth E a hs d)) (start_job X i job_type)))"

definition route_retry_job :: "env \<Rightarrow> auth_principal \<Rightarrow> headers \<Rightarrow> uuid \<Rightarrow> (runner, api_error, uuid) comp" where
  "route_retry_job E a hs i =
     bnd (descriptor i) (\<lambda>d.
     andthen (on_jpool (require a (jd_permission d)))
    (andthen (from_result (job_reauth E a hs d))
    (andthen (ensure (retryable d) (api_error_new JobNotRetryable ''job type is not retryable''))
    (andthen (retry_job i) (ret i)))))"

definition route_cancel_job :: "auth_principal \<Rightarrow> uuid \<Rightarrow> (runner, api_error, uuid) comp" where
  "route_cancel_job a i =
     bnd (descriptor i) (\<lambda>d.
     andthen (on_jpool (require a (jd_permission d)))
    (andthen (cancel_job i) (ret i)))"

definition route_get_job :: "auth_principal \<Rightarrow> uuid \<Rightarrow> (db option, api_error, job) comp" where
  "route_get_job a i = andthen (require a ''dashboard:view'') (with_db (job_lookup i))"

record job_list_response =
  jl_items :: "job list"
  jl_total :: int
  jl_page :: int
  jl_page_num :: int

text \<open>The statement of a page: a negative window is an error.\<close>

definition page_of :: "int \<Rightarrow> int \<Rightarrow> (db \<Rightarrow> 'a list) \<Rightarrow> 'a list statement" where
  "page_of off lim rows d =
     (if lim < 0 \<or> off < 0 then Inl InvalidStatement else Inr (take (nat lim) (drop (nat off) (rows d)), d))"

definition route_list_jobs :: "auth_principal \<Rightarrow> int option \<Rightarrow> int option \<Rightarrow> (db option, api_error, job_list_response) comp" where
  "route_list_jobs a page page_num =
     guarded a ''dashboard:view'' (Inr ())
       (case clamp_page 50 100 page page_num of (p, n) \<Rightarrow>
          bnd (map_err (\<lambda>_. internal) (select (\<lambda>d. int (length (jobs d))))) (\<lambda>total.
          bnd (map_err (\<lambda>_. internal) (query (page_of (wrap64 ((p - 1) * n)) n (\<lambda>d. rev (sort_key j_created_at (jobs d)))))) (\<lambda>rows.
          ret \<lparr>jl_items = rows, jl_total = total, jl_page = p, jl_page_num = n\<rparr>)))"

record admin_task_list_response =
  tl_items :: "admin_task list"
  tl_total :: int
  tl_page :: int
  tl_page_num :: int

definition task_db_err :: "sqlx_error \<Rightarrow> api_error" where
  "task_db_err = db_err (api_error_new JobNotFound ''job not found'')"

definition list_tasks ::
  "auth_principal \<Rightarrow> int option \<Rightarrow> int option \<Rightarrow> string option \<Rightarrow> (db option, api_error, admin_task_list_response) comp" where
  "list_tasks a page page_num st =
     andthen (require a ''coupon:view'') (with_db
       (case clamp_page 50 200 page page_num of (p, n) \<Rightarrow>
          let matches = (\<lambda>t. wanted st (at_status t)) in
          andthen (ensure (st = None \<or> st = Some ''pending'' \<or> st = Some ''completed'')
                     (api_error_new ValidationFailed ''status must be pending or completed''))
         (bnd (map_err task_db_err (select (\<lambda>d. int (length (filter matches (admin_tasks d)))))) (\<lambda>total.
          bnd (map_err task_db_err (query (page_of (wrap64 ((p - 1) * n)) n
                 (\<lambda>d. rev (sort_key at_created_at (filter matches (admin_tasks d))))))) (\<lambda>rows.
          ret \<lparr>tl_items = rows, tl_total = total, tl_page = p, tl_page_num = n\<rparr>)))))"

definition complete_task :: "auth_principal \<Rightarrow> uuid \<Rightarrow> (db option, api_error, uuid) comp" where
  "complete_task a i =
     guarded a ''coupon:manage'' (Inr ())
       (andthen (map_err task_db_err (execute (\<lambda>d. d\<lparr>admin_tasks := map (\<lambda>t.
            if at_id t = i \<and> at_status t \<noteq> ''completed''
            then t\<lparr>at_status := ''completed'', at_completed_at := Some (clock d)\<rparr> else t) (admin_tasks d)\<rparr>)))
         (ret i))"

section \<open>Histories\<close>

text \<open>What can happen to the runner: the operations of the handlers, and a step of some task.\<close>

datatype job_op = OpStart uuid string | OpCancel uuid | OpRetry uuid | OpStep nat

fun apply_op :: "exec_env \<Rightarrow> job_op \<Rightarrow> runner \<Rightarrow> runner" where
  "apply_op X (OpStart i ty) s = snd (start_job X i ty s)"
| "apply_op X (OpCancel i) s = snd (cancel_job i s)"
| "apply_op X (OpRetry i) s = snd (retry_job i s)"
| "apply_op X (OpStep k) s = step_task X k s"

text \<open>With \<open>overlap\<close>, a job may be retried while its previous task has not yet ended.\<close>

definition allowed_op :: "bool \<Rightarrow> job_op \<Rightarrow> runner \<Rightarrow> bool" where
  "allowed_op overlap op s =
     (case op of OpRetry i \<Rightarrow> overlap \<or> i \<notin> jt_job ` set (job_tasks s) | _ \<Rightarrow> True)"

inductive job_step :: "bool \<Rightarrow> exec_env \<Rightarrow> runner \<Rightarrow> runner \<Rightarrow> bool" for overlap X where
  operation: "allowed_op overlap op s \<Longrightarrow> job_step overlap X s (apply_op X op s)"

text \<open>The table obeys its constraints, and a row carries the key its type has in the registry.\<close>

definition jobs_ok :: "db \<Rightarrow> bool" where
  "jobs_ok d \<longleftrightarrow>
     distinct (map j_id (jobs d)) \<and>
     (\<forall>i \<in> set (jobs d). \<forall>j \<in> set (jobs d).
        active_state (j_state i) \<and> active_state (j_state j) \<and> j_resource_key i = j_resource_key j \<and> j_resource_key i \<noteq> [] \<longrightarrow>
        j_id i = j_id j) \<and>
     (\<forall>j \<in> set (jobs d). \<forall>e. get_job_descriptor (j_type j) = Some e \<longrightarrow> j_resource_key j = key_of e)"

definition runner_start :: "runner \<Rightarrow> bool" where
  "runner_start s \<longleftrightarrow>
     job_tasks s = [] \<and> cancels s = [] \<and> flags s = [] \<and> (\<forall>d. jr_pool s = Some d \<longrightarrow> jobs_ok d)"

text \<open>A task that has not yet come to its report has an active row of its type.\<close>

definition task_ok :: "db \<Rightarrow> job_task \<Rightarrow> bool" where
  "task_ok d t \<longleftrightarrow>
     (\<forall>r. jt_phase t \<noteq> AtReport r) \<longrightarrow>
     (\<exists>j \<in> set (jobs d). j_id j = jt_job t \<and> j_type j = jt_type t \<and> active_state (j_state j))"

definition runner_ok :: "runner \<Rightarrow> bool" where
  "runner_ok s \<longleftrightarrow>
     distinct (map jt_job (job_tasks s)) \<and>
     (case jr_pool s of
        None \<Rightarrow> job_tasks s = []
      | Some d \<Rightarrow> jobs_ok d \<and> list_all (task_ok d) (job_tasks s) \<and>
                  jt_job ` set (job_tasks s) \<subseteq> j_id ` set (jobs d))"

section \<open>One resource, one running job\<close>

lemma jobs_ok_unique:
  assumes "jobs_ok d" and "x \<in> set (jobs d)" and "y \<in> set (jobs d)" and "active_state (j_state x)"
    and "active_state (j_state y)" and "j_resource_key x = j_resource_key y" and "j_resource_key x \<noteq> []"
  shows "j_id x = j_id y"
  using assms unfolding jobs_ok_def by blast

lemma jobs_ok_keyed:
  assumes "jobs_ok d" and "j \<in> set (jobs d)" and "get_job_descriptor (j_type j) = Some e"
  shows "j_resource_key j = key_of e"
  using assms unfolding jobs_ok_def by blast

lemma jobs_ok_cong: "jobs d' = jobs d \<Longrightarrow> jobs_ok d' = jobs_ok d"
  unfolding jobs_ok_def by (simp only:)

text \<open>The row of a job was rewritten, within the constraints.\<close>

definition rewrote :: "uuid \<Rightarrow> (job \<Rightarrow> bool) \<Rightarrow> db \<Rightarrow> db \<Rightarrow> bool" where
  "rewrote i Q d d' \<longleftrightarrow>
     (\<exists>g. jobs d' = map (\<lambda>j. if j_id j = i then g j else j) (jobs d) \<and>
        (\<forall>j. j_id (g j) = j_id j \<and> j_type (g j) = j_type j \<and> j_resource_key (g j) = j_resource_key j \<and> Q (g j)) \<and>
        (\<forall>j \<in> set (jobs d). j_id j = i \<and> active_state (j_state (g j)) \<longrightarrow> \<not> key_taken d i (j_resource_key j)))"

lemma rewrote_ids:
  assumes "rewrote i Q d d'"
  shows "map j_id (jobs d') = map j_id (jobs d)"
  using assms by (auto simp: rewrote_def)

lemma rewrote_jobs_ok:
  assumes "rewrote i Q d d'" and "jobs_ok d"
  shows "jobs_ok d'"
proof -
  from assms(1) obtain g where g: "jobs d' = map (\<lambda>j. if j_id j = i then g j else j) (jobs d)"
    and keep: "\<And>j. j_id (g j) = j_id j \<and> j_type (g j) = j_type j \<and> j_resource_key (g j) = j_resource_key j"
    and free: "\<And>j. j \<in> set (jobs d) \<Longrightarrow> j_id j = i \<Longrightarrow> active_state (j_state (g j)) \<Longrightarrow> \<not> key_taken d i (j_resource_key j)"
    by (auto simp: rewrote_def)
  have "distinct (map j_id (jobs d'))" using assms by (simp add: rewrote_ids jobs_ok_def)
  moreover have "\<forall>j \<in> set (jobs d'). \<forall>e. get_job_descriptor (j_type j) = Some e \<longrightarrow> j_resource_key j = key_of e"
    using assms(2) keep by (auto simp: g jobs_ok_def)
  moreover have "j_id x = j_id y" if "x \<in> set (jobs d')" "y \<in> set (jobs d')" "active_state (j_state x)" "active_state (j_state y)"
      "j_resource_key x = j_resource_key y" "j_resource_key x \<noteq> []" for x y
  proof -
    from that(1,2) obtain a b where a: "a \<in> set (jobs d)" "x = (if j_id a = i then g a else a)"
      and b: "b \<in> set (jobs d)" "y = (if j_id b = i then g b else b)" by (auto simp: g)
    have id: "j_id x = j_id a" "j_id y = j_id b" "j_resource_key x = j_resource_key a" "j_resource_key y = j_resource_key b"
      using a b keep by auto
    have clash: False if "u \<in> set (jobs d)" "j_id u = i" "active_state (j_state (g u))" "v \<in> set (jobs d)" "j_id v \<noteq> i"
        "active_state (j_state v)" "j_resource_key v = j_resource_key u" "j_resource_key u \<noteq> []" for u v
      using free [OF that(1-3)] that unfolding key_taken_def by blast
    consider "j_id a = i" "j_id b = i" | "j_id a = i" "j_id b \<noteq> i" | "j_id a \<noteq> i" "j_id b = i" | "j_id a \<noteq> i" "j_id b \<noteq> i"
      by blast
    then show ?thesis
    proof cases
      case 2
      with clash [OF a(1) _ _ b(1)] that a b id show ?thesis by simp
    next
      case 3
      with clash [OF b(1) _ _ a(1)] that a b id show ?thesis by simp
    next
      case 4
      with jobs_ok_unique [OF assms(2) a(1) b(1)] a b that show ?thesis by simp
    qed (use id in simp)
  qed
  ultimately show ?thesis unfolding jobs_ok_def by blast
qed

lemma rewrote_task_ok:
  assumes "rewrote i Q d d'" and "task_ok d t" and "jt_job t \<noteq> i \<or> (\<forall>j. Q j \<longrightarrow> active_state (j_state j))"
  shows "task_ok d' t"
  unfolding task_ok_def
proof
  assume "\<forall>r. jt_phase t \<noteq> AtReport r"
  with assms(2) obtain j where j: "j \<in> set (jobs d)" "j_id j = jt_job t" "j_type j = jt_type t" "active_state (j_state j)"
    by (auto simp: task_ok_def)
  from assms(1) obtain g where g: "jobs d' = map (\<lambda>j. if j_id j = i then g j else j) (jobs d)"
    and keep: "\<And>j. j_id (g j) = j_id j \<and> j_type (g j) = j_type j \<and> Q (g j)"
    by (auto simp: rewrote_def)
  have "(if j_id j = i then g j else j) \<in> set (jobs d')" using g j by simp
  then show "\<exists>j \<in> set (jobs d'). j_id j = jt_job t \<and> j_type j = jt_type t \<and> active_state (j_state j)"
    using assms(3) j keep by (intro bexI [of _ "if j_id j = i then g j else j"]) auto
qed

lemma task_ok_cong: "jobs d' = jobs d \<Longrightarrow> task_ok d' t = task_ok d t"
  by (simp add: task_ok_def)

text \<open>What a statement on one row can do, whatever the connection does.\<close>

lemma update_job_rewrote:
  assumes "update_job i f (d\<lparr>outcomes := xs\<rparr>) = Inr ((), d')"
    and "\<And>d j. j_id (f d j) = j_id j \<and> j_type (f d j) = j_type j \<and> j_resource_key (f d j) = j_resource_key j \<and> Q (f d j)"
  shows "rewrote i Q d d'"
  unfolding rewrote_def
  using assms
  by (intro exI [of _ "f (d\<lparr>outcomes := xs\<rparr>)"]) (auto simp: update_job_def key_taken_def Let_def split: if_splits)

lemma update_query_cases:
  assumes "query (update_job i f) d = (r, d')"
    and "\<And>d j. j_id (f d j) = j_id j \<and> j_type (f d j) = j_type j \<and> j_resource_key (f d j) = j_resource_key j \<and> Q (f d j)"
  shows "jobs d' = jobs d \<and> r \<noteq> Inr () \<or> rewrote i Q d d'"
proof (cases r)
  case (Inl e)
  with assms(1) obtain xs where "d' = d\<lparr>outcomes := xs\<rparr> \<or> (\<exists>a. update_job i f (d\<lparr>outcomes := xs\<rparr>) = Inr (a, d'))"
    using query_InlD by metis
  then show ?thesis using update_job_rewrote [where Q = Q, OF _ assms(2)] Inl by auto
next
  case (Inr u)
  with assms(1) obtain xs where "update_job i f (d\<lparr>outcomes := xs\<rparr>) = Inr (u, d')"
    using query_InrD by metis
  then show ?thesis using update_job_rewrote [where Q = Q, OF _ assms(2)] by auto
qed

lemma persist_cases:
  assumes "jr_pool s = Some d"
  obtains d' where "jr_pool (persist i st stage e s) = Some d'"
    and "jobs d' = jobs d \<or> rewrote i (\<lambda>j. j_state j = st) d d'"
proof -
  obtain r d' where q: "query (update_job i (with_state st stage None e)) d = (r, d')"
    by (cases "query (update_job i (with_state st stage None e)) d")
  from update_query_cases [OF q, of "\<lambda>j. j_state j = st"] have "jobs d' = jobs d \<or> rewrote i (\<lambda>j. j_state j = st) d d'"
    by (auto simp: with_state_def)
  moreover from q have "jr_pool (persist i st stage e s) = Some d'"
    using assms by (auto simp: persist_def update_state_def map_err_def split: sum.splits)
  ultimately show thesis using that by blast
qed

lemma persist_simps [simp]:
  "job_tasks (persist i st stage e s) = job_tasks s" "cancels (persist i st stage e s) = cancels s"
  "flags (persist i st stage e s) = flags s"
  by (simp_all add: persist_def)

lemma publish_simps [simp]:
  "job_tasks (publish i st stage s) = job_tasks s" "cancels (publish i st stage s) = cancels s"
  "flags (publish i st stage s) = flags s" "jr_pool (publish i st stage s) = jr_pool s"
  by (simp_all add: publish_def)

text \<open>A step of the task at a position keeps the invariant if it rewrites at most its own row, and leaves
  that row active unless it goes on to its report or ends.\<close>

lemma other_task:
  assumes "distinct (map jt_job ts)" and "k < length ts" and "m < length ts" and "m \<noteq> k"
  shows "jt_job (ts ! m) \<noteq> jt_job (ts ! k)"
  using assms by (metis distinct_conv_nth length_map nth_map)

lemma task_moves:
  assumes ok: "runner_ok s" and d: "jr_pool s = Some d" and k: "k < length (job_tasks s)"
    and d': "jobs d' = jobs d \<or> rewrote (jt_job (job_tasks s ! k)) Q d d'"
    and t': "jt_job t' = jt_job (job_tasks s ! k)" "jt_type t' = jt_type (job_tasks s ! k)"
    and p: "(\<exists>r. jt_phase t' = AtReport r) \<or> (\<forall>r. jt_phase (job_tasks s ! k) \<noteq> AtReport r) \<and> (\<forall>j. Q j \<longrightarrow> active_state (j_state j))"
    and s': "jr_pool s' = Some d'"
  shows "runner_ok (s'\<lparr>job_tasks := (job_tasks s)[k := t']\<rparr>)"
proof -
  let ?ts = "job_tasks s"
  have ids: "map jt_job (?ts[k := t']) = map jt_job ?ts"
    using k t'(1) by (simp add: map_update list_update_same_conv)
  have "jobs_ok d" using ok d by (simp add: runner_ok_def)
  then have "jobs_ok d'" using d' jobs_ok_cong rewrote_jobs_ok by blast
  moreover have "jt_job ` set (?ts[k := t']) \<subseteq> j_id ` set (jobs d')"
  proof -
    have "j_id ` set (jobs d') = j_id ` set (jobs d)" using d' rewrote_ids by (metis list.set_map)
    moreover have "jt_job ` set (?ts[k := t']) = jt_job ` set ?ts" using ids by (metis list.set_map)
    moreover have "jt_job ` set ?ts \<subseteq> j_id ` set (jobs d)" using ok d by (simp add: runner_ok_def)
    ultimately show ?thesis by simp
  qed
  moreover have "task_ok d' t" if "t \<in> set (?ts[k := t'])" for t
  proof -
    from that obtain m where m: "m < length ?ts" "t = ?ts[k := t'] ! m" by (metis in_set_conv_nth length_list_update)
    show ?thesis
    proof (cases "m = k")
      case True
      with m k have t: "t = t'" by simp
      have tk: "task_ok d (?ts ! k)" using ok d k by (simp add: runner_ok_def list_all_length)
      show ?thesis
      proof (cases "\<exists>r. jt_phase t' = AtReport r")
        case False
        with p have "\<forall>r. jt_phase (?ts ! k) \<noteq> AtReport r" and q: "\<forall>j. Q j \<longrightarrow> active_state (j_state j)" by auto
        with tk t' have "task_ok d t'" by (auto simp: task_ok_def)
        with d' q t show ?thesis using rewrote_task_ok task_ok_cong by blast
      qed (auto simp: t task_ok_def)
    next
      case False
      with m have t: "t = ?ts ! m" by simp
      have "task_ok d t" using ok d m(1) t by (simp add: runner_ok_def list_all_length)
      moreover have "jt_job t \<noteq> jt_job (?ts ! k)" using other_task [OF _ k m(1) False] ok t by (simp add: runner_ok_def)
      ultimately show ?thesis using d' rewrote_task_ok task_ok_cong by blast
    qed
  qed
  ultimately show ?thesis using ok ids s' by (simp add: runner_ok_def list_all_iff)
qed

lemma task_ends:
  assumes ok: "runner_ok s" and d: "jr_pool s = Some d" and k: "k < length (job_tasks s)"
    and d': "jobs d' = jobs d \<or> rewrote (jt_job (job_tasks s ! k)) Q d d'" and s': "jr_pool s' = Some d'"
  shows "runner_ok (s'\<lparr>job_tasks := take k (job_tasks s) @ drop (Suc k) (job_tasks s)\<rparr>)"
proof -
  let ?ts = "job_tasks s"
  let ?t = "(?ts ! k)\<lparr>jt_phase := AtReport (Inl [])\<rparr>"
  have "runner_ok (s'\<lparr>job_tasks := ?ts[k := ?t]\<rparr>)"
    by (rule task_moves [OF ok d k d']) (simp_all add: s')
  moreover have "?ts[k := ?t] = take k ?ts @ ?t # drop (Suc k) ?ts" using k by (rule upd_conv_take_nth_drop)
  ultimately show ?thesis using s' by (simp add: runner_ok_def)
qed

text \<open>Executing a job reads the configuration at most.\<close>

lemma execute_job_reads: "obeys pool_untouched (execute_job X ty d)"
proof -
  have cfg: "obeys untouched (map_err (\<lambda>e. ''failed to load PPF build config: '' @ api_error_text e) get_ppf_config)"
    unfolding get_ppf_config_def by (intro reader.table_intros)
  have "obeys pool_untouched (\<lambda>s. if ty = ''ppf.build''
      then (case s of
              Some db \<Rightarrow>
                (case map_err (\<lambda>e. ''failed to load PPF build config: '' @ api_error_text e) get_ppf_config db of
                   (r, db') \<Rightarrow> (map_sum id (map_option snd) r, Some db'))
            | None \<Rightarrow> (Inr None, None))
      else (Inr None, s))"
    unfolding obeys_def
    by (auto simp: pool_untouched_def reader.refl_R split: option.splits prod.splits intro: obeys_run [OF cfg])
  then show ?thesis
    unfolding execute_job_def
    by (cases "jd_executor d") (auto intro!: pool_reader.obeys_intros)
qed

text \<open>What the report of a task writes: state, stage and error.\<close>

definition outcome_row :: "string + string \<Rightarrow> string \<times> string \<times> string" where
  "outcome_row r =
     (case r of
        Inr stage \<Rightarrow> (''succeeded'', stage, [])
      | Inl e \<Rightarrow>
          if e = ''not_implemented'' then (''not_implemented'', ''not_implemented'', e)
          else (''failed'', if e = ''timeout'' then ''timeout'' else ''failed'', e))"

lemma report_pool:
  assumes "jr_pool s \<noteq> None"
  shows "jr_pool (report i r s) = (case outcome_row r of (st, stage, e) \<Rightarrow> jr_pool (persist i st stage e s))"
  using assms by (cases r; cases "jr_pool s") (simp_all add: report_def outcome_row_def Let_def)

lemma step_task_ok:
  assumes ok: "runner_ok s"
  shows "runner_ok (step_task X k s)"
proof (cases "k < length (job_tasks s)")
  case k: True
  then obtain d where d: "jr_pool s = Some d" using ok by (cases "jr_pool s") (auto simp: runner_ok_def)
  let ?t = "job_tasks s ! k"
  note moves = task_moves [OF ok d k]
  have running: "active_state ''running''" by (simp add: active_state_def)
  show ?thesis
  proof (cases "jt_phase ?t")
    case AtStart
    obtain d' where "jr_pool (persist (jt_job ?t) ''running'' ''starting'' [] s) = Some d'"
      "jobs d' = jobs d \<or> rewrote (jt_job ?t) (\<lambda>j. j_state j = ''running'') d d'" using d by (rule persist_cases)
    with AtStart k d running show ?thesis
      by (auto simp: step_task_def task_step_def intro!: moves [where Q = "\<lambda>j. j_state j = ''running''" and d' = d'])
  next
    case AtCheck
    obtain c where c: "jr_pool (persist (jt_job ?t) ''cancelled'' ''cancelled'' ''cancelled'' s) = Some c"
      "jobs c = jobs d \<or> rewrote (jt_job ?t) (\<lambda>j. j_state j = ''cancelled'') d c" using d by (rule persist_cases)
    show ?thesis
    proof (cases "get_job_descriptor (jt_type ?t)")
      case None
      with AtCheck k d show ?thesis by (auto simp: step_task_def task_step_def intro!: moves [where Q = "\<lambda>_. True" and d' = d])
    next
      case (Some e)
      obtain d' where d': "jr_pool (persist (jt_job ?t) ''running'' (jd_stage e) [] s) = Some d'"
        "jobs d' = jobs d \<or> rewrote (jt_job ?t) (\<lambda>j. j_state j = ''running'') d d'" using d by (rule persist_cases)
      show ?thesis
      proof (cases "flags s ! jt_flag ?t")
        case True
        with AtCheck Some k c show ?thesis
          by (auto simp: step_task_def task_step_def intro!: moves [where Q = "\<lambda>j. j_state j = ''cancelled''" and d' = c])
      next
        case False
        with AtCheck Some k d' running show ?thesis
          by (auto simp: step_task_def task_step_def intro!: moves [where Q = "\<lambda>j. j_state j = ''running''" and d' = d'])
      qed
    qed
  next
    case Dispatched
    show ?thesis
    proof (cases "get_job_descriptor (jt_type ?t)")
      case None
      with Dispatched k d show ?thesis by (auto simp: step_task_def task_step_def intro!: moves [where Q = "\<lambda>_. True" and d' = d])
    next
      case (Some e)
      obtain r p where x: "execute_job X (jt_type ?t) e (jr_pool s) = (r, p)" by (cases "execute_job X (jt_type ?t) e (jr_pool s)")
      from obeys_run [OF execute_job_reads x] d obtain d' where "p = Some d'" "jobs d' = jobs d"
        by (auto simp: pool_untouched_def untouched_def split: option.splits)
      with Dispatched Some k x show ?thesis
        by (auto simp: step_task_def task_step_def intro!: moves [where Q = "\<lambda>_. True" and d' = d'])
    qed
  next
    case (AtReport r)
    obtain st stage e where row: "outcome_row r = (st, stage, e)" by (cases "outcome_row r")
    obtain d' where "jr_pool (persist (jt_job ?t) st stage e s) = Some d'"
      "jobs d' = jobs d \<or> rewrote (jt_job ?t) (\<lambda>j. j_state j = st) d d'" using d by (rule persist_cases)
    moreover have "jr_pool (report (jt_job ?t) r s) = jr_pool (persist (jt_job ?t) st stage e s)"
      using report_pool [of s "jt_job ?t" r] d row by simp
    ultimately have "jr_pool (report (jt_job ?t) r s) = Some d'"
      "jobs d' = jobs d \<or> rewrote (jt_job ?t) (\<lambda>j. j_state j = st) d d'" by simp_all
    with AtReport k show ?thesis
      by (auto simp: step_task_def task_step_def intro!: task_ends [OF ok d k, where d' = d'])
  qed
qed (simp add: step_task_def ok)

text \<open>A handler that only reads, fails, or spawns a task for a row it has just made active.\<close>

lemma runner_ok_cong:
  assumes "runner_ok s" and "pool_untouched (jr_pool s) (jr_pool t)" and "job_tasks t = job_tasks s"
  shows "runner_ok t"
proof (cases "jr_pool s")
  case None
  with assms show ?thesis by (auto simp: runner_ok_def pool_untouched_def split: option.splits)
next
  case (Some d)
  with assms(2) obtain d' where d': "jr_pool t = Some d'" "jobs d' = jobs d"
    by (auto simp: pool_untouched_def untouched_def split: option.splits)
  with assms Some show ?thesis
    using jobs_ok_cong [of d' d] task_ok_cong [of d' d] by (simp add: runner_ok_def list_all_iff)
qed

lemma spawn_ok:
  assumes ok: "runner_ok s" and d: "jr_pool s = Some d" and d': "jr_pool s' = Some d'" "jobs_ok d'"
    and rows: "\<And>t. t \<in> set (job_tasks s) \<Longrightarrow> task_ok d' t" and ids: "j_id ` set (jobs d) \<subseteq> j_id ` set (jobs d')"
    and fresh: "i \<notin> jt_job ` set (job_tasks s)" and ts: "job_tasks s' = job_tasks s"
    and row: "j \<in> set (jobs d')" "j_id j = i" "j_type j = ty" "active_state (j_state j)"
  shows "runner_ok (spawn i ty s')"
proof -
  have "jt_job ` set (job_tasks s) \<subseteq> j_id ` set (jobs d')" using ok d order_trans [OF _ ids] by (simp add: runner_ok_def)
  moreover have "task_ok d' \<lparr>jt_job = i, jt_type = ty, jt_flag = a, jt_phase = AtStart\<rparr>" for a
    using row by (auto simp: task_ok_def)
  ultimately show ?thesis
    using ok d d' rows fresh ts row(1,2) by (auto simp: runner_ok_def spawn_def Let_def list_all_iff)
qed

lemma on_jpool_simps [simp]:
  "job_tasks (snd (on_jpool m s)) = job_tasks s" "cancels (snd (on_jpool m s)) = cancels s"
  "flags (snd (on_jpool m s)) = flags s" "jr_pool (snd (on_jpool m s)) = snd (m (jr_pool s))"
  by (simp_all add: on_jpool_def split: prod.splits)

lemma job_lookup_reads: "obeys untouched (job_lookup i)"
  unfolding job_lookup_def by (intro reader.table_intros)

lemma cancel_job_ok:
  assumes "runner_ok s"
  shows "runner_ok (snd (cancel_job i s))"
proof (rule runner_ok_cong [OF assms])
  obtain r p where q: "with_db (job_lookup i) (jr_pool s) = (r, p)" by (cases "with_db (job_lookup i) (jr_pool s)")
  have p: "pool_untouched (jr_pool s) p"
    by (rule obeys_run [OF pool_untouched_with_db [OF job_lookup_reads] q])
  have "jr_pool (snd (cancel_job i s)) = p \<and> job_tasks (snd (cancel_job i s)) = job_tasks s"
    using q by (cases r)
      (auto simp: cancel_job_def bnd_def on_jpool_def some_or_def ret_def throw_def raise_flag_def
        split: option.splits cancel_mode.splits)
  with p show "pool_untouched (jr_pool s) (jr_pool (snd (cancel_job i s)))"
    and "job_tasks (snd (cancel_job i s)) = job_tasks s" by simp_all
qed

lemma create_job_cases:
  assumes "create_job i ty key d = (r, d')"
  shows "jobs d' = jobs d \<and> (\<exists>e. r = Inl e) \<or>
    (\<exists>now. jobs d' = jobs d @ [new_job i ty key now] \<and> i \<notin> j_id ` set (jobs d) \<and> \<not> key_taken d i key \<and>
       (\<forall>j. r = Inr j \<longrightarrow> j = new_job i ty key now))"
proof -
  let ?q = "\<lambda>d. let j = new_job i ty key (clock d) in case insert_job j d of Inl e \<Rightarrow> Inl e | Inr (_, d') \<Rightarrow> Inr (j, d')"
  obtain x where x: "query ?q d = (x, d')" using assms
    by (auto simp: create_job_def map_err_def split: prod.splits sum.splits)
  have ins: "\<exists>now. jobs d' = jobs d @ [new_job i ty key now] \<and> i \<notin> j_id ` set (jobs d) \<and> \<not> key_taken d i key \<and> a = new_job i ty key now"
    if "?q (d\<lparr>outcomes := xs\<rparr>) = Inr (a, d')" for xs a
    using that by (auto simp: Let_def insert_job_def new_job_def active_state_def key_taken_def split: if_splits)
  show ?thesis
  proof (cases x)
    case (Inl e)
    from query_InlD [OF x [unfolded Inl]] show ?thesis
      using ins assms x Inl by (auto simp: create_job_def map_err_def)
  next
    case (Inr a)
    from query_InrD [OF x [unfolded Inr]] show ?thesis
      using ins assms x Inr by (auto simp: create_job_def map_err_def)
  qed
qed

lemma appended_jobs_ok:
  assumes ok: "jobs_ok d" and d': "jobs d' = jobs d @ [new_job i ty (key_of e) now]" and i: "i \<notin> j_id ` set (jobs d)"
    and free: "\<not> key_taken d i (key_of e)" and e: "get_job_descriptor ty = Some e"
  shows "jobs_ok d'"
proof -
  let ?j = "new_job i ty (key_of e) now"
  have j: "j_id ?j = i" "j_type ?j = ty" "j_resource_key ?j = key_of e" by (simp_all add: new_job_def)
  have "distinct (map j_id (jobs d'))" using ok d' i j by (auto simp: jobs_ok_def)
  moreover have "\<forall>k \<in> set (jobs d'). \<forall>x. get_job_descriptor (j_type k) = Some x \<longrightarrow> j_resource_key k = key_of x"
    using ok d' j e by (auto simp: jobs_ok_def)
  moreover have "j_id x = j_id y" if "x \<in> set (jobs d')" "y \<in> set (jobs d')" "active_state (j_state x)" "active_state (j_state y)"
      "j_resource_key x = j_resource_key y" "j_resource_key x \<noteq> []" for x y
  proof -
    note xy = that
    have clash: False if "u \<in> set (jobs d)" "active_state (j_state u)" "j_resource_key u = key_of e" "key_of e \<noteq> []" for u
      using that free i unfolding key_taken_def by auto
    consider "x \<in> set (jobs d)" "y \<in> set (jobs d)" | "x = ?j" "y = ?j" | "x = ?j" "y \<in> set (jobs d)" | "x \<in> set (jobs d)" "y = ?j"
      using xy(1,2) d' by auto
    then show ?thesis
    proof cases
      case 1
      with jobs_ok_unique [OF ok] xy show ?thesis by blast
    next
      case 3
      with clash [of y] xy j show ?thesis by simp
    next
      case 4
      with clash [of x] xy j show ?thesis by simp
    qed simp
  qed
  ultimately show ?thesis unfolding jobs_ok_def by blast
qed

lemma start_job_ok:
  assumes ok: "runner_ok s"
  shows "runner_ok (snd (start_job X i ty s))"
proof (cases "\<exists>e d. get_job_descriptor ty = Some e \<and> jr_pool s = Some d \<and>
    \<not> (jd_executor e = RunDeployment \<and> \<not> job_configured (adapter X) ty)")
  case False
  then have "snd (start_job X i ty s) = s"
    by (auto simp: start_job_def some_or_def throw_def ret_def bnd_def on_jpool_def with_db_def split: option.splits)
  with ok show ?thesis by simp
next
  case True
  then obtain e d where e: "get_job_descriptor ty = Some e" and d: "jr_pool s = Some d"
    and run: "start_job X i ty s = bnd (on_jpool (with_db (create_job i ty (key_of e)))) (\<lambda>j. andthen (spawned (j_id j) ty) (ret j)) s"
    by (auto simp: start_job_def some_or_def)
  obtain r d' where c: "create_job i ty (key_of e) d = (r, d')" by (cases "create_job i ty (key_of e) d")
  let ?s = "s\<lparr>jr_pool := Some d'\<rparr>"
  have res: "snd (start_job X i ty s) = (case r of Inl x \<Rightarrow> ?s | Inr j \<Rightarrow> spawn (j_id j) ty ?s)"
    using run c d by (auto simp: bnd_def on_jpool_def with_db_def andthen_def spawned_def ret_def split: sum.splits)
  have okd: "jobs_ok d" and tasks: "\<And>t. t \<in> set (job_tasks s) \<Longrightarrow> task_ok d t" and
    known: "jt_job ` set (job_tasks s) \<subseteq> j_id ` set (jobs d)"
    using ok d by (simp_all add: runner_ok_def list_all_iff)
  from create_job_cases [OF c] consider (same) x where "jobs d' = jobs d" "r = Inl x"
    | (made) now where "jobs d' = jobs d @ [new_job i ty (key_of e) now]" "i \<notin> j_id ` set (jobs d)" "\<not> key_taken d i (key_of e)"
      "\<And>j. r = Inr j \<Longrightarrow> j = new_job i ty (key_of e) now" by blast
  then show ?thesis
  proof cases
    case same
    then show ?thesis
      using ok d res jobs_ok_cong [of d' d] task_ok_cong [of d' d] by (simp add: runner_ok_def list_all_iff)
  next
    case made
    have okd': "jobs_ok d'" by (rule appended_jobs_ok [OF okd made(1-3) e])
    have tasks': "task_ok d' t" if "t \<in> set (job_tasks s)" for t
      using tasks [OF that] made(1) by (auto simp: task_ok_def)
    show ?thesis
    proof (cases r)
      case (Inl x)
      with res ok d okd' tasks' known made(1) show ?thesis by (auto simp: runner_ok_def list_all_iff)
    next
      case (Inr j)
      with made(4) have j: "j = new_job i ty (key_of e) now" by simp
      have "runner_ok (spawn (j_id j) ty ?s)"
        by (rule spawn_ok [OF ok d, where d' = d' and j = j])
          (use okd' tasks' known made j in \<open>auto simp: new_job_def active_state_def\<close>)
      with res Inr show ?thesis by simp
    qed
  qed
qed

lemma rewrote_cong: "jobs e = jobs d \<Longrightarrow> rewrote i Q e d' = rewrote i Q d d'"
  by (simp add: rewrote_def key_taken_def)

lemma ensure_resource_free_reads: "obeys untouched (ensure_resource_free k)"
  unfolding ensure_resource_free_def by (cases k) (auto intro!: reader.table_intros)

lemma requeue_cases:
  assumes "requeue i d = (r, d')"
  shows "jobs d' = jobs d \<and> (\<exists>e. r = Inl e) \<or>
    rewrote i (\<lambda>j. j_state j = ''queued'') d d' \<and> (\<forall>ty. r = Inr ty \<longrightarrow> (\<exists>j \<in> set (jobs d). j_id j = i \<and> j_type j = ty))"
proof -
  let ?f = "\<lambda>k ty. andthen (ensure_resource_free k) (andthen (map_err job_conflict_err (query (update_job i requeued))) (ret ty))"
  obtain x d1 where l: "job_lookup i d = (x, d1)" by (cases "job_lookup i d")
  from obeys_run [OF job_lookup_reads l] have d1: "jobs d1 = jobs d" by (auto simp: untouched_def)
  consider (failed) e where "r = Inl e" "d' = d1" | (went) j k where "x = Inr j" "?f k (j_type j) d1 = (r, d')"
    using assms l by (auto simp: requeue_def bnd_def throw_def ret_def some_or_def split: sum.splits option.splits if_splits)
  then show ?thesis
  proof cases
    case failed
    with d1 show ?thesis by simp
  next
    case went
    obtain z d2 where e: "ensure_resource_free k d1 = (z, d2)" by (cases "ensure_resource_free k d1")
    from obeys_run [OF ensure_resource_free_reads e] d1 have d2: "jobs d2 = jobs d" by (auto simp: untouched_def)
    show ?thesis
    proof (cases z)
      case (Inl v)
      with went e d2 show ?thesis by (auto simp: andthen_def bnd_def)
    next
      case (Inr v)
      obtain w d3 where q: "query (update_job i requeued) d2 = (w, d3)" by (cases "query (update_job i requeued) d2")
      have r: "d3 = d'" "r = (case w of Inl y \<Rightarrow> Inl (job_conflict_err y) | Inr _ \<Rightarrow> Inr (j_type j))"
        using went e Inr q by (auto simp: andthen_def bnd_def map_err_def ret_def split: sum.splits)
      have "jobs d' = jobs d2 \<and> w \<noteq> Inr () \<or> rewrote i (\<lambda>j. j_state j = ''queued'') d2 d'"
        by (rule update_query_cases [OF q [unfolded r(1)]]) (simp add: requeued_def)
      moreover have "j \<in> set (jobs d) \<and> j_id j = i"
        using l went(1) d1 by (auto simp: job_lookup_def runs dest!: select_InrD find_SomeD [OF sym])
      ultimately show ?thesis using rewrote_cong [OF d2] d2 r(2) by (cases w) auto
    qed
  qed
qed

lemma retry_job_ok:
  assumes ok: "runner_ok s" and fresh: "i \<notin> jt_job ` set (job_tasks s)"
  shows "runner_ok (snd (retry_job i s))"
proof (cases "jr_pool s")
  case None
  then have "snd (retry_job i s) = s" by (simp add: retry_job_def bnd_def on_jpool_def with_db_def)
  with ok show ?thesis by simp
next
  case (Some d)
  obtain r d' where q: "requeue i d = (r, d')" by (cases "requeue i d")
  let ?s = "s\<lparr>jr_pool := Some d'\<rparr>"
  have res: "snd (retry_job i s) = (case r of Inl x \<Rightarrow> ?s | Inr ty \<Rightarrow> spawn i ty ?s)"
    using q Some by (auto simp: retry_job_def bnd_def on_jpool_def with_db_def spawned_def split: sum.splits)
  have okd: "jobs_ok d" and tasks: "\<And>t. t \<in> set (job_tasks s) \<Longrightarrow> task_ok d t" and
    known: "jt_job ` set (job_tasks s) \<subseteq> j_id ` set (jobs d)"
    using ok Some by (simp_all add: runner_ok_def list_all_iff)
  from requeue_cases [OF q] consider (same) x where "jobs d' = jobs d" "r = Inl x"
    | (queued) "rewrote i (\<lambda>j. j_state j = ''queued'') d d'"
      "\<And>ty. r = Inr ty \<Longrightarrow> \<exists>j \<in> set (jobs d). j_id j = i \<and> j_type j = ty" by blast
  then show ?thesis
  proof cases
    case same
    then show ?thesis
      using ok Some res jobs_ok_cong [of d' d] task_ok_cong [of d' d] by (simp add: runner_ok_def list_all_iff)
  next
    case queued
    have okd': "jobs_ok d'" by (rule rewrote_jobs_ok [OF queued(1) okd])
    have tasks': "task_ok d' t" if "t \<in> set (job_tasks s)" for t
      by (rule rewrote_task_ok [OF queued(1) tasks [OF that]]) (simp add: active_state_def)
    have ids: "j_id ` set (jobs d') = j_id ` set (jobs d)" using rewrote_ids [OF queued(1)] by (metis list.set_map)
    show ?thesis
    proof (cases r)
      case (Inl x)
      with res ok Some okd' tasks' known ids show ?thesis by (auto simp: runner_ok_def list_all_iff)
    next
      case (Inr ty)
      with queued(2) obtain j where "j \<in> set (jobs d)" "j_id j = i" "j_type j = ty" by blast
      then obtain j' where "j' \<in> set (jobs d')" "j_id j' = i" "j_type j' = ty" "j_state j' = ''queued''"
        using queued(1) by (fastforce simp: rewrote_def)
      then have "runner_ok (spawn i ty ?s)"
        by (intro spawn_ok [OF ok Some, where d' = d' and j = j']) (simp_all add: okd' tasks' ids fresh active_state_def)
      with res Inr show ?thesis by simp
    qed
  qed
qed

interpretation job_system: invariant_system runner_start "job_step False X" runner_ok for X
proof
  show "runner_ok s" if "runner_start s" for s
    using that by (auto simp: runner_start_def runner_ok_def split: option.splits)
  show "runner_ok t" if ok: "runner_ok s" and "job_step False X s t" for s t
    using that(2)
  proof cases
    case (operation op)
    with ok show ?thesis
      by (cases op) (simp_all add: allowed_op_def start_job_ok cancel_job_ok retry_job_ok step_task_ok)
  qed
qed


text \<open>A concrete history: the operations in their order, each allowed where it is done.\<close>

fun run_ops :: "bool \<Rightarrow> exec_env \<Rightarrow> job_op list \<Rightarrow> runner \<Rightarrow> runner option" where
  "run_ops overlap X [] s = Some s"
| "run_ops overlap X (op # ops) s = (if allowed_op overlap op s then run_ops overlap X ops (apply_op X op s) else None)"

lemma run_ops_reachable:
  assumes "reachable I (job_step overlap X) s" and "run_ops overlap X ops s = Some t"
  shows "reachable I (job_step overlap X) t"
  using assms
proof (induction ops arbitrary: s)
  case (Cons op ops)
  then have "allowed_op overlap op s" "run_ops overlap X ops (apply_op X op s) = Some t" by (auto split: if_splits)
  moreover from this have "reachable I (job_step overlap X) (apply_op X op s)"
    using Cons.prems(1) by (blast intro: reachable.move job_step.operation)
  ultimately show ?case using Cons.IH by blast
qed simp

definition job_exec :: exec_env where
  "job_exec = demo_exec\<lparr>adapter := demo_deployment\<lparr>ppf_build := Some \<lparr>fc_argv = [''build''], fc_cwd = None\<rparr>\<rparr>\<rparr>"

definition idle_runner :: runner where
  "idle_runner = \<lparr>jr_pool = Some (empty_db 0), cancels = [], flags = [], job_tasks = [], published = []\<rparr>"

lemma idle_runner_start: "runner_start idle_runner"
  by (simp add: runner_start_def idle_runner_def empty_db_def jobs_ok_def)

lemmas job_eval =
  allowed_op_def start_job_def cancel_job_def retry_job_def requeue_def step_task_def task_step_def report_def raise_flag_def
  job_lookup_def create_job_def insert_job_def new_job_def update_job_def update_state_def with_state_def requeued_def
  ensure_resource_free_def spawned_def spawn_def publish_def persist_def key_taken_def active_state_def job_states_def
  final_states_def key_of_def on_jpool_def with_db_def get_job_descriptor_def seed_jobs_def job_configured_def
  bnd_def andthen_def some_or_def ret_def throw_def map_err_def query_calm Let_def

lemma two_resources:
  "map_option (\<lambda>s. map (\<lambda>t. (jt_type t, jt_phase t)) (job_tasks s))
     (run_ops False job_exec [OpStart 1 ''pmp.update.check'', OpStart 2 ''ppf.build'', OpStep 0, OpStep 1, OpStep 0, OpStep 1] idle_runner)
   = Some [(''pmp.update.check'', Dispatched), (''ppf.build'', Dispatched)]"
  by (simp add: job_eval idle_runner_def empty_db_def job_exec_def)


text \<open>The proviso is needed. A job that was cancelled while it was queued can be retried as soon as its
  row says so, and the old task then overwrites the new state with \<open>failed\<close>, which frees the resource;
  a second job takes it, the update of the retried one is rejected by the index and ignored, and two
  updates of the game server are executed at the same time.\<close>

theorem retry_breaks_exclusion:
  "\<exists>s. reachable runner_start (job_step True job_exec) s \<and>
     map (\<lambda>t. (jt_type t, jt_phase t)) (job_tasks s) = [(''pmp.update.check'', Dispatched), (''pmp.update.apply'', Dispatched)] \<and>
     key_of (the (get_job_descriptor ''pmp.update.check'')) = key_of (the (get_job_descriptor ''pmp.update.apply''))"
proof -
  let ?ops = "[OpStart 1 ''pmp.update.check'', OpCancel 1, OpStep 0, OpStep 0, OpRetry 1, OpStep 0, OpStart 2 ''pmp.update.apply'',
      OpStep 0, OpStep 0, OpStep 1, OpStep 1]"
  have "map_option (\<lambda>s. map (\<lambda>t. (jt_type t, jt_phase t)) (job_tasks s)) (run_ops True job_exec ?ops idle_runner)
      = Some [(''pmp.update.check'', Dispatched), (''pmp.update.apply'', Dispatched)]"
    by (simp add: job_eval idle_runner_def empty_db_def job_exec_def)
  then obtain s where "run_ops True job_exec ?ops idle_runner = Some s"
    and ts: "map (\<lambda>t. (jt_type t, jt_phase t)) (job_tasks s) = [(''pmp.update.check'', Dispatched), (''pmp.update.apply'', Dispatched)]"
    unfolding map_option_eq_Some by (elim exE conjE)
  from run_ops_reachable [OF reachable.start [of runner_start, OF idle_runner_start] this(1)] ts show ?thesis
    by (intro exI [of _ s]) (simp add: get_job_descriptor_def seed_jobs_def key_of_def)
qed

section \<open>How a run ends\<close>

text \<open>A task that takes its steps with nothing in between.\<close>

fun run_alone :: "exec_env \<Rightarrow> nat \<Rightarrow> job_task \<Rightarrow> runner \<Rightarrow> job_task option \<times> runner" where
  "run_alone X 0 t s = (Some t, s)"
| "run_alone X (Suc n) t s = (case task_step X t s of (Some t', s') \<Rightarrow> run_alone X n t' s' | (None, s') \<Rightarrow> (None, s'))"

definition live_row :: "uuid \<Rightarrow> db \<Rightarrow> bool" where
  "live_row i d \<longleftrightarrow> outcomes d = [] \<and> jobs_ok d \<and> (\<exists>j \<in> set (jobs d). j_id j = i \<and> active_state (j_state j))"

lemma live_row_free:
  assumes "live_row i d" and "k \<in> set (jobs d)" and "j_id k = i"
  shows "\<not> key_taken d i (j_resource_key k)"
proof
  assume "key_taken d i (j_resource_key k)"
  then obtain x where x: "x \<in> set (jobs d)" "j_id x \<noteq> i" "j_resource_key x = j_resource_key k" "active_state (j_state x)" "j_resource_key k \<noteq> []"
    by (auto simp: key_taken_def)
  from assms obtain j where j: "j \<in> set (jobs d)" "j_id j = i" "active_state (j_state j)" by (auto simp: live_row_def)
  have ok: "jobs_ok d" using assms by (simp add: live_row_def)
  then have "inj_on j_id (set (jobs d))" by (simp add: jobs_ok_def distinct_map)
  with j assms(2,3) have "k = j" by (metis inj_onD)
  with jobs_ok_unique [OF ok x(1) j(1) x(4) j(3)] x j show False by simp
qed

definition rewritten :: "uuid \<Rightarrow> string \<Rightarrow> string \<Rightarrow> string \<Rightarrow> db \<Rightarrow> db" where
  "rewritten i st stage e d = d\<lparr>jobs := map (\<lambda>j. if j_id j = i then with_state st stage None e d j else j) (jobs d)\<rparr>"

lemma persist_live:
  assumes "live_row i d \<or> \<not> active_state st" and "outcomes d = []" and "jr_pool s = Some d" and "st \<in> set job_states"
  shows "persist i st stage e s = s\<lparr>jr_pool := Some (rewritten i st stage e d)\<rparr>"
proof -
  have "update_job i (with_state st stage None e) d = Inr ((), rewritten i st stage e d)"
    using assms(1,4) live_row_free [of i d]
    by (auto simp: update_job_def Let_def rewritten_def with_state_def)
  then show ?thesis using assms(2,3) by (simp add: persist_def update_state_def map_err_def query_calm)
qed

lemma rewritten_live:
  assumes "live_row i d"
  shows "live_row i (rewritten i ''running'' stage e d)"
proof -
  have r: "rewrote i (\<lambda>j. j_state j = ''running'') d (rewritten i ''running'' stage e d)"
    unfolding rewrote_def
    by (intro exI [of _ "with_state ''running'' stage None e d"]) (auto simp: rewritten_def with_state_def live_row_free [OF assms])
  have "jobs_ok (rewritten i ''running'' stage e d)" by (rule rewrote_jobs_ok [OF r]) (use assms in \<open>simp add: live_row_def\<close>)
  moreover obtain j where "j \<in> set (jobs d)" "j_id j = i" using assms by (auto simp: live_row_def)
  then have "with_state ''running'' stage None e d j \<in> set (jobs (rewritten i ''running'' stage e d))"
    by (force simp: rewritten_def)
  then have "\<exists>j \<in> set (jobs (rewritten i ''running'' stage e d)). j_id j = i \<and> active_state (j_state j)"
    using \<open>j_id j = i\<close> by (intro bexI) (simp_all add: with_state_def active_state_def)
  ultimately show ?thesis using assms by (simp add: live_row_def rewritten_def)
qed

lemma rewritten_simps [simp]:
  "clock (rewritten i st stage e d) = clock d" "ppf_build_config (rewritten i st stage e d) = ppf_build_config d"
  "outcomes (rewritten i st stage e d) = outcomes d"
  by (simp_all add: rewritten_def)

lemma execute_job_calm:
  assumes "outcomes d = []"
  shows "execute_job X ty e (Some d) = (fst (execute_job X ty e (Some d)), Some d)"
    and "outcomes d' = [] \<Longrightarrow> ppf_build_config d' = ppf_build_config d \<Longrightarrow>
      fst (execute_job X ty e (Some d')) = fst (execute_job X ty e (Some d))"
  using assms
  by (simp_all add: execute_job_def from_result_def bnd_def get_ppf_config_def map_err_def split: job_executor.splits)

lemma rewritten_row:
  assumes "j \<in> set (jobs d)" and "j_id j = i"
  shows "with_state st stage None e d j \<in> set (jobs (rewritten i st stage e d))"
  using assms by (force simp: rewritten_def)

lemma report_settles:
  assumes "jr_pool s = Some d" and "outcomes d = []" and "j \<in> set (jobs d)" and "j_id j = i"
  shows "\<exists>d' k. jr_pool (report i r s) = Some d' \<and> k \<in> set (jobs d') \<and> j_id k = i \<and> j_finished_at k = Some (clock d) \<and>
    (j_state k, j_stage k, j_error k) = outcome_row r"
proof -
  obtain st stage e where row: "outcome_row r = (st, stage, e)" by (cases "outcome_row r")
  then have st: "\<not> active_state st" "st \<in> set job_states" "st \<in> set final_states"
    by (auto simp: outcome_row_def active_state_def job_states_def final_states_def split: sum.splits if_splits)
  have "jr_pool (report i r s) = Some (rewritten i st stage e d)"
    using assms row st by (simp add: report_pool persist_live)
  moreover note rewritten_row [OF assms(3,4), of st stage e]
  ultimately show ?thesis
    using assms(4) row st(3)
    by (intro exI [of _ "rewritten i st stage e d"] exI [of _ "with_state st stage None e d j"]) (simp add: with_state_def)
qed

lemma report_cancels: "cancels (report i r s) = adel i (cancels s)"
  by (cases r) (simp_all add: report_def Let_def)



end
