(* ===== verification/Automation.thy ===== *)
theory Automation
  imports Jobs
begin

text \<open>
  Runbooks (\<^verbatim>\<open>automation/\<close>): stored sequences of registered actions and waits, run one step after the
  other with the rights of the caller. Generated ids, what becomes of each submitted command and the
  readers that serde derives are arguments; a wait takes time and has no other effect.
\<close>

section \<open>Definitions of runbooks\<close>

record runbook_step =
  st_action :: string
  st_with :: json
  st_wait_secs :: "64 word option"

record runbook_definition =
  rd_name :: string
  rd_description :: string
  rd_args :: json
  rd_steps :: "runbook_step list"

fun validate_steps :: "runbook_step list \<Rightarrow> string + unit" where
  "validate_steps [] = Inr ()"
| "validate_steps (st # sts) =
     (if st_action st = [] \<and> st_wait_secs st = None then Inl ''step must have an action or a wait''
      else if st_action st \<noteq> [] \<and> get_action (st_action st) = None
      then Inl (''unknown action in runbook step: '' @ st_action st)
      else if 3600 < unwrap_or (st_wait_secs st) 0 then Inl ''wait exceeds 3600s limit''
      else validate_steps sts)"

record automation_libs =
  definition_of_json :: "json \<Rightarrow> string + runbook_definition"
  json_of_definition :: "runbook_definition \<Rightarrow> json"
  run_body_args :: "string \<Rightarrow> json option"

definition automation_db_err :: "sqlx_error \<Rightarrow> api_error" where
  "automation_db_err = db_err (api_error_new ResourceNotFound ''not found'')"

section \<open>Stored runbooks\<close>

definition fetch_runbook :: "uuid \<Rightarrow> (db, api_error, runbook) comp" where
  "fetch_runbook i =
     bnd (map_err automation_db_err (select (\<lambda>d. find (\<lambda>b. rb_id b = i) (runbooks d)))) (\<lambda>row. some_or row (not_found ''runbook''))"

definition insert_runbook :: "runbook \<Rightarrow> runbook statement" where
  "insert_runbook b d =
     (let b' = b\<lparr>rb_created_at := clock d, rb_updated_at := clock d\<rparr> in
      if rb_id b \<in> rb_id ` set (runbooks d) then Inl UniqueViolation
      else if \<exists>u. rb_created_by b = Some u \<and> u \<notin> u_id ` set (users d) then Inl ForeignKeyViolation
      else Inr (b', d\<lparr>runbooks := runbooks d @ [b']\<rparr>))"

definition valid_definition :: "runbook_definition \<Rightarrow> api_error + unit" where
  "valid_definition rd = (case validate_steps (rd_steps rd) of Inl e \<Rightarrow> Inl (validation e) | Inr _ \<Rightarrow> Inr ())"

definition create_runbook ::
  "automation_libs \<Rightarrow> uuid \<Rightarrow> auth_principal \<Rightarrow> string \<Rightarrow> string \<Rightarrow> runbook_definition \<Rightarrow> (db option, api_error, runbook) comp" where
  "create_runbook A i a name descr rd =
     guarded a ''automation:edit'' (valid_definition rd)
       (map_err automation_db_err (query (insert_runbook
          \<lparr>rb_id = i, rb_name = trim name, rb_description = descr, rb_definition = json_of_definition A rd, rb_created_by = Some (sub a),
           rb_updated_by = Some (sub a), rb_created_at = 0, rb_updated_at = 0\<rparr>)))"

definition list_runbooks :: "auth_principal \<Rightarrow> (db option, api_error, runbook list) comp" where
  "list_runbooks a = guarded a ''automation:view'' (Inr ()) (map_err automation_db_err (select runbooks))"

definition get_runbook :: "auth_principal \<Rightarrow> uuid \<Rightarrow> (db option, api_error, runbook) comp" where
  "get_runbook a i = guarded a ''automation:view'' (Inr ()) (fetch_runbook i)"

text \<open>\<open>UPDATE ... RETURNING\<close> with \<open>fetch_one\<close>: a missing row is an error.\<close>

definition rewrite_runbook :: "uuid \<Rightarrow> string \<Rightarrow> string \<Rightarrow> json \<Rightarrow> uuid \<Rightarrow> runbook statement" where
  "rewrite_runbook i name descr content u d =
     (let f = (\<lambda>b. b\<lparr>rb_name := name, rb_description := descr, rb_definition := content, rb_updated_by := Some u, rb_updated_at := clock d\<rparr>) in
      case find (\<lambda>b. rb_id b = i) (runbooks d) of
        None \<Rightarrow> Inl RowNotFound
      | Some b \<Rightarrow>
          if u \<notin> u_id ` set (users d) then Inl ForeignKeyViolation
          else Inr (f b, d\<lparr>runbooks := map (\<lambda>b. if rb_id b = i then f b else b) (runbooks d)\<rparr>))"

definition update_runbook ::
  "automation_libs \<Rightarrow> auth_principal \<Rightarrow> uuid \<Rightarrow> string \<Rightarrow> string \<Rightarrow> runbook_definition \<Rightarrow> (db option, api_error, runbook) comp" where
  "update_runbook A a i name descr rd =
     guarded a ''automation:edit'' (valid_definition rd)
       (map_err automation_db_err (query (rewrite_runbook i (trim name) descr (json_of_definition A rd) (sub a))))"

text \<open>The runs of a runbook go with it (\<open>ON DELETE CASCADE\<close>).\<close>

definition delete_runbook :: "auth_principal \<Rightarrow> uuid \<Rightarrow> (db option, api_error, unit) comp" where
  "delete_runbook a i =
     guarded a ''automation:edit'' (Inr ())
       (map_err automation_db_err (execute (\<lambda>d. d\<lparr>runbooks := filter (\<lambda>b. rb_id b \<noteq> i) (runbooks d),
          runbook_runs := filter (\<lambda>r. rr_runbook_id r \<noteq> i) (runbook_runs d)\<rparr>)))"

section \<open>Runs\<close>

definition get_run :: "auth_principal \<Rightarrow> uuid \<Rightarrow> (db option, api_error, runbook_run) comp" where
  "get_run a i =
     guarded a ''automation:view'' (Inr ())
       (bnd (map_err automation_db_err (select (\<lambda>d. find (\<lambda>r. rr_id r = i) (runbook_runs d)))) (\<lambda>row.
          some_or row (not_found ''runbook run'')))"

text \<open>\<open>ORDER BY started_at DESC NULLS LAST LIMIT 200\<close>.\<close>

definition recent_runs :: "db \<Rightarrow> runbook_run list" where
  "recent_runs d =
     take 200 (rev (sort_key (\<lambda>r. the (rr_started_at r)) (filter (\<lambda>r. rr_started_at r \<noteq> None) (runbook_runs d))) @
               filter (\<lambda>r. rr_started_at r = None) (runbook_runs d))"

definition list_runs :: "auth_principal \<Rightarrow> (db option, api_error, runbook_run list) comp" where
  "list_runs a = guarded a ''automation:view'' (Inr ()) (map_err automation_db_err (select recent_runs))"

definition update_runs :: "uuid \<Rightarrow> (runbook_run \<Rightarrow> bool) \<Rightarrow> string \<Rightarrow> db \<Rightarrow> db" where
  "update_runs i P st d =
     d\<lparr>runbook_runs := map (\<lambda>r. if rr_id r = i \<and> P r then r\<lparr>rr_status := st, rr_finished_at := Some (clock d)\<rparr> else r) (runbook_runs d)\<rparr>"

definition cancel_run :: "auth_principal \<Rightarrow> uuid \<Rightarrow> (db option, api_error, uuid) comp" where
  "cancel_run a i =
     guarded a ''automation:execute'' (Inr ())
       (andthen (map_err automation_db_err (execute (update_runs i (\<lambda>r. rr_status r \<in> {''queued'', ''running''}) ''cancelled''))) (ret i))"

definition insert_runbook_run :: "runbook_run \<Rightarrow> uuid statement" where
  "insert_runbook_run r d =
     (if rr_id r \<in> rr_id ` set (runbook_runs d) then Inl UniqueViolation
      else if rr_runbook_id r \<notin> rb_id ` set (runbooks d) then Inl ForeignKeyViolation
      else Inr (rr_id r, d\<lparr>runbook_runs := runbook_runs d @ [r]\<rparr>))"

record step_result =
  sr_step :: string
  sr_ok :: bool
  sr_result :: "json option"
  sr_error :: "(error_code \<times> string) option"
  sr_wait :: "64 word option"

definition step_failed :: "string \<Rightarrow> error_code \<Rightarrow> string \<Rightarrow> step_result" where
  "step_failed i c m = \<lparr>sr_step = i, sr_ok = False, sr_result = None, sr_error = Some (c, m), sr_wait = None\<rparr>"

text \<open>The arguments of the run fill in what a step leaves open.\<close>

definition merged_args :: "json \<Rightarrow> json \<Rightarrow> json" where
  "merged_args args run =
     (case (args, run) of
        (JObj kvs, JObj rs) \<Rightarrow> JObj (kvs @ filter (\<lambda>e. fst e \<notin> fst ` set kvs) rs)
      | _ \<Rightarrow> args)"

definition runbook_audit :: "auth_principal \<Rightarrow> headers \<Rightarrow> action_descriptor \<Rightarrow> string \<Rightarrow> command_audit option" where
  "runbook_audit a hs d book =
     map_option (\<lambda>c. c\<lparr>ca_resource_type := ''runbook'', ca_resource_id := book\<rparr>) (audit_of a hs d [])"

text \<open>Queueing the command of a step that passed its checks, and waiting for its result.\<close>

definition queue_step ::
  "env \<Rightarrow> exec_env \<Rightarrow> uuid \<Rightarrow> waited \<Rightarrow> auth_principal \<Rightarrow> headers \<Rightarrow> string \<Rightarrow> json \<Rightarrow> action_descriptor \<Rightarrow>
   (control_state, api_error, step_result) comp" where
  "queue_step E X cid w a hs book args d =
     (let key = resolve_queue_key (json_text X) d args; red = redact_args args; actor = uuid_text (libs_of E) (sub a) in
      andthen (on_cs_pool (with_db (insert_queued cid (ad_id d) actor key red)))
     (andthen (on_broker (submit
         \<lparr>t_command_id = cid, t_action = ad_id d, t_actor = actor, t_resource_key = key, t_args = args,
          t_args_redacted = red, t_completion = True, t_audit = runbook_audit a hs d book\<rparr>))
     (ret (case w of
             Completed (Inr v) \<Rightarrow> \<lparr>sr_step = ad_id d, sr_ok = True, sr_result = Some v, sr_error = None, sr_wait = None\<rparr>
           | _ \<Rightarrow> step_failed (ad_id d) PmpCommandFailed ''command failed''))))"

text \<open>One step. A failure is a result; an error leaves the whole run.\<close>

definition run_step ::
  "env \<Rightarrow> exec_env \<Rightarrow> uuid \<Rightarrow> waited \<Rightarrow> auth_principal \<Rightarrow> headers \<Rightarrow> string \<Rightarrow> json \<Rightarrow> runbook_step \<Rightarrow> (control_state, api_error, step_result) comp" where
  "run_step E X cid w a hs book run_args st =
     bnd (some_or (get_action (st_action st)) (not_found ''action'')) (\<lambda>d.
     if long_running d \<or> is_job_only_action (ad_id d)
     then ret (step_failed (st_action st) LongRunningActionRequiresJob ''long-running action requires Job execution'')
     else
       bnd (on_cs_pool (has_permission a (ad_permission d))) (\<lambda>ok.
       if \<not> ok then ret (step_failed (st_action st) PermissionDenied ''permission denied'')
       else
         andthen (from_result (if ad_reauth d then reauth E a hs (action_risk d) else Inr ()))
           (queue_step E X cid w a hs book (merged_args (st_with st) run_args) d)))"

text \<open>The steps in order, until one fails.\<close>

fun run_steps ::
  "env \<Rightarrow> exec_env \<Rightarrow> (nat \<Rightarrow> uuid) \<Rightarrow> (nat \<Rightarrow> waited) \<Rightarrow> auth_principal \<Rightarrow> headers \<Rightarrow> string \<Rightarrow> json \<Rightarrow> nat \<Rightarrow> runbook_step list \<Rightarrow>
   (control_state, api_error, step_result list) comp" where
  "run_steps E X ids ws a hs book run_args n [] = ret []"
| "run_steps E X ids ws a hs book run_args n (st # sts) =
     (if st_action st = []
      then
        bnd (run_steps E X ids ws a hs book run_args (Suc n) sts) (\<lambda>rs.
          ret (case st_wait_secs st of
                 Some n \<Rightarrow> \<lparr>sr_step = ''wait'', sr_ok = True, sr_result = None, sr_error = None, sr_wait = Some n\<rparr> # rs
               | None \<Rightarrow> rs))
      else
        bnd (run_step E X (ids n) (ws n) a hs book run_args st) (\<lambda>r.
          if \<not> sr_ok r then ret [r]
          else bnd (run_steps E X ids ws a hs book run_args (Suc n) sts) (\<lambda>rs. ret (r # rs))))"

definition run_succeeded :: "step_result list \<Rightarrow> bool" where
  "run_succeeded rs \<longleftrightarrow> (\<forall>r \<in> set rs. sr_ok r)"

definition run_args_of :: "automation_libs \<Rightarrow> string \<Rightarrow> api_error + json" where
  "run_args_of A body =
     (if body = [] then Inr JNull
      else case run_body_args A body of
        Some v \<Rightarrow> Inr v
      | None \<Rightarrow> Inl (api_error_new InvalidJson ''invalid json request''))"

definition stored_definition :: "automation_libs \<Rightarrow> runbook \<Rightarrow> api_error + runbook_definition" where
  "stored_definition A b =
     (case definition_of_json A (rb_definition b) of
        Inl e \<Rightarrow> Inl (validation (''invalid definition: '' @ e))
      | Inr rd \<Rightarrow> (case valid_definition rd of Inl e \<Rightarrow> Inl e | Inr _ \<Rightarrow> Inr rd))"

definition run_runbook ::
  "env \<Rightarrow> exec_env \<Rightarrow> automation_libs \<Rightarrow> uuid \<Rightarrow> (nat \<Rightarrow> uuid) \<Rightarrow> (nat \<Rightarrow> waited) \<Rightarrow> auth_principal \<Rightarrow> headers \<Rightarrow> uuid \<Rightarrow> string \<Rightarrow>
   (control_state, api_error, uuid \<times> string \<times> step_result list) comp" where
  "run_runbook E X A rid ids ws a hs i body =
     andthen (on_cs_pool (require a ''automation:execute''))
    (bnd (on_cs_pool (with_db (fetch_runbook i))) (\<lambda>b.
     bnd (from_result (stored_definition A b)) (\<lambda>rd.
     bnd (from_result (run_args_of A body)) (\<lambda>run_args.
     bnd (on_cs_pool (with_db (map_err automation_db_err (query (insert_runbook_run
        \<lparr>rr_id = rid, rr_runbook_id = i, rr_definition = rb_definition b, rr_arguments = run_args, rr_actor = uuid_text (libs_of E) (sub a),
         rr_status = ''running'', rr_started_at = None, rr_finished_at = None\<rparr>))))) (\<lambda>run_id.
     bnd (run_steps E X ids ws a hs (uuid_text (libs_of E) i) run_args 0 (rd_steps rd)) (\<lambda>rs.
     let st = (if run_succeeded rs then ''succeeded'' else ''failed'') in
     andthen (on_cs_pool (with_db (map_err automation_db_err (execute (update_runs run_id (\<lambda>_. True) st)))))
       (ret (run_id, st, rs))))))))"

section \<open>What a run may queue\<close>

definition queued_tasks :: "broker \<Rightarrow> task set" where
  "queued_tasks b = (\<Union>kw \<in> set b. set (queued (snd kw)))"

text \<open>A command that the registry and the rights of the caller allow in a runbook.\<close>

definition entitled :: "env \<Rightarrow> auth_principal \<Rightarrow> headers \<Rightarrow> db option \<Rightarrow> task \<Rightarrow> bool" where
  "entitled E a hs pool x \<longleftrightarrow>
     (\<exists>d. get_action (t_action x) = Some d \<and> \<not> long_running d \<and> \<not> is_job_only_action (ad_id d) \<and>
        may pool a (ad_permission d) \<and> (ad_reauth d \<longrightarrow> reauth E a hs (action_risk d) = Inr ()))"

text \<open>A state of a run that began in \<open>s\<close>: the rights are those of \<open>s\<close>, and only entitled commands were queued.\<close>

definition lawful :: "env \<Rightarrow> auth_principal \<Rightarrow> headers \<Rightarrow> control_state \<Rightarrow> control_state \<Rightarrow> bool" where
  "lawful E a hs s t \<longleftrightarrow>
     (\<forall>p. may (cs_pool t) a p \<longleftrightarrow> may (cs_pool s) a p) \<and>
     (\<forall>x \<in> queued_tasks (cs_broker t). x \<in> queued_tasks (cs_broker s) \<or> entitled E a hs (cs_pool s) x)"

definition same_rights :: "db \<Rightarrow> db \<Rightarrow> bool" where
  "same_rights d d' \<longleftrightarrow> granted d' = granted d"

interpretation rights: table_frame same_rights
  by unfold_locales (auto simp: same_rights_def granted_def member_groups_def fun_eq_iff)

lemma lawful_with_db: "obeys same_rights m \<Longrightarrow> obeys (keeping (lawful E a hs s)) (on_cs_pool (with_db m))"
  unfolding obeys_def keeping_def same_rights_def lawful_def may_def on_cs_pool_def with_db_def
  by (auto split: option.splits prod.splits) (metis snd_conv)+

lemma lawful_untouched: "control_untouched t u \<Longrightarrow> lawful E a hs s t \<Longrightarrow> lawful E a hs s u"
  by (auto simp: control_untouched_def lawful_def may_def pool_untouched_def granted_untouched split: option.splits)

lemma lawful_reads: "obeys pool_untouched m \<Longrightarrow> obeys (keeping (lawful E a hs s)) (on_cs_pool m)"
  using control_untouched_pool [of m] lawful_untouched by (fastforce simp: obeys_def keeping_def)

lemma insert_queued_rights: "obeys same_rights (insert_queued i act actor key args)"
  unfolding insert_queued_def
  by (intro rights.table_intros rights.obeys_query)
     (auto simp: insert_run_def same_rights_def granted_def member_groups_def fun_eq_iff split: if_splits)

lemma insert_runbook_run_rights: "insert_runbook_run r d = Inr (x, d') \<Longrightarrow> same_rights d d'"
  by (auto simp: insert_runbook_run_def same_rights_def granted_def member_groups_def fun_eq_iff split: if_splits)

lemma update_runs_rights: "same_rights d (update_runs i P st d)"
  by (auto simp: update_runs_def same_rights_def granted_def member_groups_def fun_eq_iff)

lemma submit_queued: "queued_tasks (snd (submit x b)) \<subseteq> insert x (queued_tasks b)"
proof -
  have w: "set (queued (worker_for b k)) \<subseteq> queued_tasks b" for k
    by (auto simp: worker_for_def idle_worker_def queued_tasks_def aget_def dest!: map_of_SomeD split: option.splits)
  show ?thesis using w [of "t_resource_key x"]
    by (auto simp: submit_def Let_def queued_tasks_def aput_def adel_def)
qed

lemma submit_lawful:
  assumes "entitled E a hs (cs_pool s) x"
  shows "obeys (keeping (lawful E a hs s)) (on_broker (submit x))"
proof -
  have t: "snd (on_broker (submit x) t) = t\<lparr>cs_broker := snd (submit x (cs_broker t))\<rparr>" for t
    by (simp add: on_broker_def split: prod.split)
  have "lawful E a hs s (t\<lparr>cs_broker := snd (submit x (cs_broker t))\<rparr>)" if "lawful E a hs s t" for t
    unfolding lawful_def
  proof (intro conjI ballI allI)
    fix y assume "y \<in> queued_tasks (cs_broker (t\<lparr>cs_broker := snd (submit x (cs_broker t))\<rparr>))"
    then have "y = x \<or> y \<in> queued_tasks (cs_broker t)" using submit_queued [of x "cs_broker t"] by auto
    with that assms show "y \<in> queued_tasks (cs_broker s) \<or> entitled E a hs (cs_pool s) y" unfolding lawful_def by blast
  qed (use that in \<open>simp add: lawful_def\<close>)
  with t show ?thesis by (simp add: obeys_def keeping_def)
qed

lemma get_action_id: "get_action i = Some d \<Longrightarrow> ad_id d = i"
  by (auto simp: get_action_def find_Some_iff)

lemma queue_step_lawful:
  assumes "get_action (ad_id d) = Some d" and "\<not> long_running d" and "\<not> is_job_only_action (ad_id d)"
    and "may (cs_pool s) a (ad_permission d)" and "ad_reauth d \<longrightarrow> reauth E a hs (action_risk d) = Inr ()"
  shows "obeys (keeping (lawful E a hs s)) (queue_step E X cid w a hs book args d)"
  unfolding queue_step_def Let_def
  by (intro keeping_frame.obeys_intros lawful_with_db insert_queued_rights submit_lawful) (use assms in \<open>auto simp: entitled_def\<close>)

text \<open>One step of a run: it queues at most one command, and only after the checks.\<close>

lemma run_step_lawful: "obeys (keeping (lawful E a hs s)) (run_step E X cid w a hs book run_args st)"
  unfolding obeys_def keeping_def
proof (intro allI impI)
  fix t assume ok: "lawful E a hs s t"
  let ?law = "keeping (lawful E a hs s)"
  show "lawful E a hs s (snd (run_step E X cid w a hs book run_args st t))"
  proof (cases "get_action (st_action st)")
    case None
    with ok show ?thesis by (simp add: run_step_def some_or_def bnd_def throw_def)
  next
    case (Some d)
    let ?perm = "on_cs_pool (has_permission a (ad_permission d))"
    obtain r u where p: "?perm t = (r, u)" by (cases "?perm t")
    have u: "lawful E a hs s u" by (rule keepingD [OF lawful_reads [OF has_permission_reads] p ok])
    show ?thesis
    proof (cases "\<not> long_running d \<and> \<not> is_job_only_action (ad_id d) \<and> r = Inr True \<and> (ad_reauth d \<longrightarrow> reauth E a hs (action_risk d) = Inr ())")
      case False
      then have "snd (run_step E X cid w a hs book run_args st t) \<in> {t, u}"
        using p Some by (auto simp: run_step_def some_or_def bnd_def andthen_def ret_def from_result_def Let_def split: sum.splits if_splits)
      with ok u show ?thesis by auto
    next
      case True
      then have "may (cs_pool s) a (ad_permission d)"
        using p ok by (auto simp: on_cs_pool_runs lawful_def dest!: has_permission_may)
      then have "obeys ?law (queue_step E X cid w a hs book (merged_args (st_with st) run_args) d)"
        using True Some get_action_id [OF Some] by (intro queue_step_lawful) simp_all
      moreover have "run_step E X cid w a hs book run_args st t = queue_step E X cid w a hs book (merged_args (st_with st) run_args) d u"
        using True p Some by (auto simp: run_step_def some_or_def bnd_def andthen_def ret_def from_result_def)
      ultimately show ?thesis using u by (simp add: obeys_def keeping_def)
    qed
  qed
qed

lemma run_steps_lawful: "obeys (keeping (lawful E a hs s)) (run_steps E X ids ws a hs book run_args n sts)"
  by (induction sts arbitrary: n) (auto intro!: keeping_frame.obeys_intros run_step_lawful)

lemma fetch_runbook_reads: "obeys untouched (fetch_runbook i)"
  unfolding fetch_runbook_def by (intro reader.table_intros)

text \<open>C11: a runbook gives nobody more rights than they have. Whatever the stored definition says and whether
  the run succeeds, fails or breaks off, every command it puts into a queue belongs to a registered
  action that is neither long-running nor reserved for jobs, for which the caller is Root or has the
  permission by its groups, and, if the registry asks for it, a fresh reauthentication at the level of
  that action.\<close>

theorem runbook_commands_entitled:
  assumes "run_runbook E X A rid ids ws a hs i body s = (r, t)"
    and "x \<in> queued_tasks (cs_broker t)" and "x \<notin> queued_tasks (cs_broker s)"
  shows "entitled E a hs (cs_pool s) x"
proof -
  have law: "obeys (keeping (lawful E a hs s)) (run_runbook E X A rid ids ws a hs i body)"
    unfolding run_runbook_def Let_def
    by (intro keeping_frame.obeys_intros run_steps_lawful lawful_reads require_reads pool_untouched_with_db fetch_runbook_reads
        lawful_with_db rights.table_intros rights.obeys_query rights.obeys_execute insert_runbook_run_rights update_runs_rights)
  have "lawful E a hs s t" by (rule keepingD [OF law assms(1)]) (simp add: lawful_def)
  with assms(2,3) show ?thesis by (auto simp: lawful_def)
qed

section \<open>The results of a run\<close>

definition step_name :: "runbook_step \<Rightarrow> string" where
  "step_name st = (if st_action st = [] then ''wait'' else st_action st)"

lemma run_step_name: "run_step E X cid w a hs book run_args st s = (Inr r, t) \<Longrightarrow> sr_step r = st_action st"
  by (auto simp: run_step_def queue_step_def runs step_failed_def Let_def dest!: get_action_id split: if_splits waited.splits sum.splits)

text \<open>A run reports its steps in order and stops at the first failure. The results of a run of a valid
  definition name a prefix of its steps; all of them but the last are successes; and a run without a
  failure has a result for every step.\<close>

theorem runbook_stops_at_failure:
  assumes "run_steps E X ids ws a hs book run_args n sts s = (Inr rs, t)" and "validate_steps sts = Inr ()"
  shows "map sr_step rs = take (length rs) (map step_name sts) \<and> (\<forall>r \<in> set (butlast rs). sr_ok r) \<and>
    (run_succeeded rs \<longrightarrow> length rs = length sts)"
  using assms
proof (induction sts arbitrary: n s rs)
  case (Cons st sts)
  from Cons.prems(2) have v: "validate_steps sts = Inr ()" "st_action st = [] \<Longrightarrow> st_wait_secs st \<noteq> None"
    by (auto split: if_splits)
  show ?case
  proof (cases "st_action st = [] \<or> (\<exists>r u. run_step E X (ids n) (ws n) a hs book run_args st s = (Inr r, u) \<and> sr_ok r)")
    case True
    with Cons.prems(1) v(2) obtain r rs' u where rs: "rs = r # rs'" "sr_ok r" "sr_step r = step_name st"
      and rest: "run_steps E X ids ws a hs book run_args (Suc n) sts u = (Inr rs', t)"
      by (auto simp: runs step_name_def dest: run_step_name split: if_splits)
    from Cons.IH [OF rest v(1)] rs show ?thesis by (auto simp: run_succeeded_def)
  next
    case False
    with Cons.prems(1) obtain r where "rs = [r]" "\<not> sr_ok r" "sr_step r = st_action st"
      by (auto simp: runs dest: run_step_name split: if_splits)
    with False show ?thesis by (simp add: run_succeeded_def step_name_def)
  qed
qed (auto simp: ret_def)

section \<open>Concrete runs\<close>

definition shout :: runbook_step where
  "shout = \<lparr>st_action = ''broadcast.user'', st_with = JObj [], st_wait_secs = None\<rparr>"

definition shout_libs :: automation_libs where
  "shout_libs = \<lparr>definition_of_json = (\<lambda>_. Inr \<lparr>rd_name = [], rd_description = [], rd_args = JNull, rd_steps = [shout]\<rparr>),
     json_of_definition = (\<lambda>_. JNull), run_body_args = (\<lambda>_. None)\<rparr>"

definition shout_state :: control_state where
  "shout_state = \<lparr>cs_limiter = [], cs_pool = Some (empty_db 0\<lparr>runbooks := [\<lparr>rb_id = 5, rb_name = [], rb_description = [],
     rb_definition = JNull, rb_created_by = None, rb_updated_by = None, rb_created_at = 0, rb_updated_at = 0\<rparr>]\<rparr>), cs_broker = []\<rparr>"

definition root_caller :: auth_principal where
  "root_caller = \<lparr>sub = 0, sid = 1, principal = PRoot, client = Panel, request_id = []\<rparr>"

lemma get_broadcast: "get_action ''broadcast.user'' = Some (action ''broadcast.user'' ''broadcast:user'' ExOpenUds Medium True False False ''server'' False)"
  by (simp add: get_action_def seed_actions_def action_def)

lemma root_has_permission: "has_permission root_caller p s = (Inr True, s)"
  by (simp add: has_permission_def permissions_for_principal_def root_caller_def is_root_def bnd_def ret_def)

lemma root_require: "require root_caller p s = (Inr (), s)"
  by (simp add: require_def root_has_permission bnd_def ret_def)

lemma shout_runs:
  "\<exists>r t x. run_runbook demo_env X shout_libs 1 (\<lambda>_. 2) (\<lambda>_. Dropped) root_caller [] 5 [] shout_state = (r, t) \<and>
     queued_tasks (cs_broker t) = {x} \<and> t_action x = ''broadcast.user''"
  by (simp add: run_runbook_def root_require root_has_permission shout_libs_def shout_state_def shout_def get_broadcast action_def
      run_step_def queue_step_def stored_definition_def valid_definition_def run_args_of_def fetch_runbook_def insert_runbook_run_def
      update_runs_def is_job_only_action_def on_cs_pool_def andthen_def bnd_def ret_def from_result_def some_or_def insert_queued_def
      insert_run_def new_run_def map_err_def query_calm empty_db_def with_db_def command_statuses_def on_broker_def submit_def Let_def
      worker_for_def idle_worker_def QUEUE_CAPACITY_def queued_tasks_def step_failed_def aget_def aput_def adel_def)

theorem runbook_commands_entitled_witness:
  "\<exists>x. t_action x = ''broadcast.user'' \<and> entitled demo_env root_caller [] (cs_pool shout_state) x"
proof -
  obtain r t x where run: "run_runbook demo_env demo_exec shout_libs 1 (\<lambda>_. 2) (\<lambda>_. Dropped) root_caller [] 5 [] shout_state = (r, t)"
    and x: "queued_tasks (cs_broker t) = {x}" "t_action x = ''broadcast.user''"
    using shout_runs by blast
  have "entitled demo_env root_caller [] (cs_pool shout_state) x"
    by (rule runbook_commands_entitled [OF run]) (use x in \<open>simp_all add: shout_state_def queued_tasks_def\<close>)
  with x show ?thesis by blast
qed

theorem runbook_stops_at_failure_witness:
  "\<exists>rs t. run_steps demo_env demo_exec (\<lambda>_. 2) (\<lambda>_. Dropped) root_caller [] [] JNull 0 [\<lparr>st_action = [], st_with = JNull, st_wait_secs = Some 5\<rparr>] shout_state = (Inr rs, t) \<and>
    map sr_step rs = [''wait'']"
proof -
  let ?w = "[\<lparr>st_action = [], st_with = JNull, st_wait_secs = Some 5\<rparr>] :: runbook_step list"
  obtain rs t where run: "run_steps demo_env demo_exec (\<lambda>_. 2) (\<lambda>_. Dropped) root_caller [] [] JNull 0 ?w shout_state = (Inr rs, t)"
    and "length rs = 1" by (simp add: bnd_def ret_def)
  with runbook_stops_at_failure [OF run] show ?thesis by (simp add: step_name_def unwrap_or_def)
qed

end
