(* ===== verification/Notifications.thy ===== *)
theory Notifications
  imports Actions Login
begin

text \<open>
  The notification hub (\<^verbatim>\<open>notifications/mod.rs\<close>, \<^verbatim>\<open>notifications/push.rs\<close>): typed buttons and their targets, the
  events and the inbox rows, the push endpoints, and the fan-out of a push message. Generated ids are
  arguments; the deserialisers that serde derives, the ciphers, the curve and the HTTP client are
  parameters.
\<close>

section \<open>Buttons\<close>

datatype action_kind =
  JoinRoom | FriendAccept | FriendReject | OpenChart | OpenReplay | OpenRoom | OpenUser | OpenProfile

primrec kind_str :: "action_kind \<Rightarrow> string" where
  "kind_str JoinRoom = ''join_room''"
| "kind_str FriendAccept = ''friend_accept''"
| "kind_str FriendReject = ''friend_reject''"
| "kind_str OpenChart = ''open_chart''"
| "kind_str OpenReplay = ''open_replay''"
| "kind_str OpenRoom = ''open_room''"
| "kind_str OpenUser = ''open_user''"
| "kind_str OpenProfile = ''open_profile''"

record action_target =
  tg_room_id :: "string option"
  tg_chart_id :: "int option"
  tg_phira_id :: "int option"
  tg_round_uuid :: "string option"
  tg_friend_request_id :: "uuid option"

definition no_target :: action_target where
  "no_target = \<lparr>tg_room_id = None, tg_chart_id = None, tg_phira_id = None, tg_round_uuid = None, tg_friend_request_id = None\<rparr>"

record action_draft =
  dr_label :: string
  dr_label_key :: "string option"
  dr_action :: action_kind
  dr_data :: action_target
  dr_danger :: bool

record action_wire =
  wi_id :: string
  wi_label :: string
  wi_label_key :: "string option"
  wi_action :: action_kind
  wi_data :: action_target
  wi_danger :: bool

definition filled :: "string option \<Rightarrow> bool" where
  "filled x = (case x of Some v \<Rightarrow> trim v \<noteq> [] | None \<Rightarrow> False)"

definition target_invalid :: "string \<Rightarrow> api_error" where
  "target_invalid m = api_error_new NotificationActionTargetInvalid m"

definition valid_target :: "action_kind \<Rightarrow> action_target \<Rightarrow> bool" where
  "valid_target k t =
     (case k of
        JoinRoom \<Rightarrow> filled (tg_room_id t)
      | OpenRoom \<Rightarrow> filled (tg_room_id t)
      | FriendAccept \<Rightarrow> tg_friend_request_id t \<noteq> None
      | FriendReject \<Rightarrow> tg_friend_request_id t \<noteq> None
      | OpenChart \<Rightarrow> tg_chart_id t \<noteq> None
      | OpenReplay \<Rightarrow> filled (tg_round_uuid t)
      | OpenUser \<Rightarrow> tg_phira_id t \<noteq> None
      | OpenProfile \<Rightarrow> tg_phira_id t \<noteq> None)"

definition validate_action_target :: "action_kind \<Rightarrow> action_target \<Rightarrow> api_error + unit" where
  "validate_action_target k t =
     (if valid_target k t then Inr () else Inl (target_invalid ''notification action target is invalid''))"

text \<open>The ids of the buttons are drawn one after the other.\<close>

fun normalize_action_drafts :: "(nat \<Rightarrow> string) \<Rightarrow> nat \<Rightarrow> action_draft list \<Rightarrow> api_error + action_wire list" where
  "normalize_action_drafts fresh n [] = Inr []"
| "normalize_action_drafts fresh n (dr # drs) =
     (if trim (dr_label dr) = [] \<and> trim (unwrap_or (dr_label_key dr) []) = []
      then Inl (target_invalid ''notification action label or label_key is required'')
      else case validate_action_target (dr_action dr) (dr_data dr) of
        Inl e \<Rightarrow> Inl e
      | Inr _ \<Rightarrow>
          (case normalize_action_drafts fresh (Suc n) drs of
             Inl e \<Rightarrow> Inl e
           | Inr ws \<Rightarrow> Inr (\<lparr>wi_id = fresh n, wi_label = trim (dr_label dr),
               wi_label_key = (if filled (dr_label_key dr) then dr_label_key dr else None),
               wi_action = dr_action dr, wi_data = dr_data dr, wi_danger = dr_danger dr\<rparr> # ws)))"

text \<open>The derived deserialisers of a stored button, with and without an id.\<close>

record action_serde =
  wire_of_json :: "json \<Rightarrow> action_wire option"
  draft_of_json :: "json \<Rightarrow> action_draft option"

definition stored_action :: "libs \<Rightarrow> action_serde \<Rightarrow> uuid \<Rightarrow> nat \<times> json \<Rightarrow> action_wire option" where
  "stored_action L S event_id ir =
     (case ir of (index, raw) \<Rightarrow>
        (case wire_of_json S raw of
           Some w \<Rightarrow> if valid_target (wi_action w) (wi_data w) then Some w else None
         | None \<Rightarrow>
             (case draft_of_json S raw of
                None \<Rightarrow> None
              | Some dr \<Rightarrow>
                  if valid_target (dr_action dr) (dr_data dr)
                  then Some \<lparr>wi_id = ''legacy-'' @ uuid_text L event_id @ ''-'' @ nat_digits index, wi_label = trim (dr_label dr),
                         wi_label_key = dr_label_key dr, wi_action = dr_action dr, wi_data = dr_data dr, wi_danger = dr_danger dr\<rparr>
                  else None)))"

definition normalize_stored_actions :: "libs \<Rightarrow> action_serde \<Rightarrow> json option \<Rightarrow> uuid \<Rightarrow> action_wire list" where
  "normalize_stored_actions L S v event_id =
     (case Option.bind v as_array of
        None \<Rightarrow> []
      | Some items \<Rightarrow> List.map_filter (stored_action L S event_id) (enumerate 0 items))"

text \<open>Serialisation leaves out the fields that are \<open>None\<close>.\<close>

definition some_field :: "string \<Rightarrow> ('a \<Rightarrow> json) \<Rightarrow> 'a option \<Rightarrow> (string \<times> json) list" where
  "some_field k f x = (case x of Some v \<Rightarrow> [(k, f v)] | None \<Rightarrow> [])"

definition target_json :: "libs \<Rightarrow> action_target \<Rightarrow> json" where
  "target_json L t =
     JObj (some_field ''room_id'' JStr (tg_room_id t) @ some_field ''chart_id'' JInt (tg_chart_id t) @
           some_field ''phira_id'' JInt (tg_phira_id t) @ some_field ''round_uuid'' JStr (tg_round_uuid t) @
           some_field ''friend_request_id'' (\<lambda>i. JStr (uuid_text L i)) (tg_friend_request_id t))"

definition wire_json :: "libs \<Rightarrow> action_wire \<Rightarrow> json" where
  "wire_json L w =
     JObj ([(''id'', JStr (wi_id w)), (''label'', JStr (wi_label w))] @ some_field ''label_key'' JStr (wi_label_key w) @
           [(''action'', JStr (kind_str (wi_action w))), (''data'', target_json L (wi_data w)), (''danger'', JBool (wi_danger w))])"

section \<open>Events and inboxes\<close>

definition notification_db_err :: "sqlx_error \<Rightarrow> api_error" where
  "notification_db_err = db_err (api_error_new ResourceNotFound ''notification not found'')"

definition known_user :: "db \<Rightarrow> uuid \<Rightarrow> bool" where
  "known_user d u \<longleftrightarrow> u \<in> u_id ` set (users d)"

definition insert_event :: "uuid \<Rightarrow> string \<Rightarrow> uuid option \<Rightarrow> json \<Rightarrow> notification_event statement" where
  "insert_event i ty actor payload d =
     (let e = \<lparr>ev_id = i, ev_type = ty, ev_actor = actor, ev_payload = payload, ev_created_at = clock d\<rparr> in
      if i \<in> ev_id ` set (notification_events d) then Inl UniqueViolation
      else if \<exists>u. actor = Some u \<and> \<not> known_user d u then Inl ForeignKeyViolation
      else Inr (e, d\<lparr>notification_events := notification_events d @ [e]\<rparr>))"

definition create_event :: "uuid \<Rightarrow> string \<Rightarrow> uuid option \<Rightarrow> json \<Rightarrow> (db, api_error, notification_event) comp" where
  "create_event i ty actor payload = map_err notification_db_err (query (insert_event i ty actor payload))"

text \<open>\<open>ON CONFLICT DO NOTHING\<close>: a second row for the same event and user is dropped.\<close>

definition insert_inbox :: "uuid \<Rightarrow> uuid \<Rightarrow> uuid \<Rightarrow> unit statement" where
  "insert_inbox i event u d =
     (if (\<exists>n \<in> set (user_notifications d). un_event_id n = event \<and> un_user_id n = u \<or> un_id n = i) then Inr ((), d)
      else if event \<notin> ev_id ` set (notification_events d) \<or> \<not> known_user d u then Inl ForeignKeyViolation
      else Inr ((), d\<lparr>user_notifications := user_notifications d @
        [\<lparr>un_id = i, un_event_id = event, un_user_id = u, un_read_at = None, un_dismissed_at = None, un_created_at = clock d\<rparr>]\<rparr>))"

definition deliver :: "(uuid \<Rightarrow> uuid) \<Rightarrow> uuid \<Rightarrow> uuid \<Rightarrow> (db, api_error, unit) comp" where
  "deliver fresh event u = map_err notification_db_err (query (insert_inbox (fresh u) event u))"

definition publish_to_users ::
  "uuid \<Rightarrow> (uuid \<Rightarrow> uuid) \<Rightarrow> string \<Rightarrow> uuid option \<Rightarrow> json \<Rightarrow> uuid list \<Rightarrow> (db, api_error, notification_event) comp" where
  "publish_to_users i fresh ty actor payload recipients =
     transaction notification_db_err (
       bnd (create_event i ty actor payload) (\<lambda>e.
       andthen (for_each recipients (deliver fresh (ev_id e))) (ret e)))"

text \<open>An inbox row with its event.\<close>

type_synonym inbox_row = "user_notification \<times> notification_event"

definition joined :: "db \<Rightarrow> inbox_row list" where
  "joined d = [(n, e). n \<leftarrow> user_notifications d, e \<leftarrow> notification_events d, ev_id e = un_event_id n]"

definition inbox_of :: "uuid \<Rightarrow> db \<Rightarrow> inbox_row list" where
  "inbox_of u d = rev (sort_key (\<lambda>r. un_created_at (fst r)) (filter (\<lambda>r. un_user_id (fst r) = u) (joined d)))"

definition notifications_for_user :: "uuid \<Rightarrow> int \<Rightarrow> (db, api_error, inbox_row list) comp" where
  "notifications_for_user u lim =
     map_err notification_db_err (query (\<lambda>d. if lim < 0 then Inl InvalidStatement else Inr (take (nat lim) (inbox_of u d), d)))"

definition update_inbox :: "uuid \<Rightarrow> uuid \<Rightarrow> (db \<Rightarrow> user_notification \<Rightarrow> user_notification) \<Rightarrow> db \<Rightarrow> db" where
  "update_inbox i u f d =
     d\<lparr>user_notifications := map (\<lambda>n. if un_id n = i \<and> un_user_id n = u then f d n else n) (user_notifications d)\<rparr>"

definition mark_read :: "uuid \<Rightarrow> uuid \<Rightarrow> (db, api_error, unit) comp" where
  "mark_read i u =
     map_err notification_db_err (execute (update_inbox i u (\<lambda>d n. n\<lparr>un_read_at := Some (clock d)\<rparr>)))"

definition mark_dismissed :: "uuid \<Rightarrow> uuid \<Rightarrow> (db, api_error, unit) comp" where
  "mark_dismissed i u =
     map_err notification_db_err (execute (update_inbox i u (\<lambda>d n. n\<lparr>un_dismissed_at := Some (clock d)\<rparr>)))"

definition notification_for_user :: "uuid \<Rightarrow> uuid \<Rightarrow> (db, api_error, inbox_row option) comp" where
  "notification_for_user u i =
     map_err notification_db_err (select (\<lambda>d. find (\<lambda>r. un_user_id (fst r) = u \<and> un_id (fst r) = i) (joined d)))"

definition list_inbox :: "uuid \<Rightarrow> int \<Rightarrow> int \<Rightarrow> (db, api_error, inbox_row list \<times> int \<times> int) comp" where
  "list_inbox u lim off =
     (let visible = (\<lambda>d. filter (\<lambda>r. un_dismissed_at (fst r) = None) (inbox_of u d)) in
      bnd (map_err notification_db_err (select (\<lambda>d. int (length (visible d))))) (\<lambda>total.
      bnd (map_err notification_db_err (select (\<lambda>d. int (length (filter (\<lambda>n. un_user_id n = u \<and> un_read_at n = None \<and>
             un_dismissed_at n = None) (user_notifications d)))))) (\<lambda>unread.
      bnd (map_err notification_db_err (query (\<lambda>d.
             if lim < 0 \<or> off < 0 then Inl InvalidStatement else Inr (take (nat lim) (drop (nat off) (visible d)), d)))) (\<lambda>rows.
      ret (rows, total, unread)))))"

section \<open>Push endpoints\<close>

definition list_push_endpoints :: "uuid \<Rightarrow> (db, api_error, push_endpoint list) comp" where
  "list_push_endpoints u =
     map_err notification_db_err (select (\<lambda>d. rev (sort_key pe_created_at (filter (\<lambda>e. pe_user_id e = u) (push_endpoints d)))))"

definition delete_push_endpoint :: "uuid \<Rightarrow> uuid \<Rightarrow> (db, api_error, unit) comp" where
  "delete_push_endpoint u i =
     map_err notification_db_err (execute (\<lambda>d.
       d\<lparr>push_endpoints := filter (\<lambda>e. \<not> (pe_id e = i \<and> pe_user_id e = u)) (push_endpoints d)\<rparr>))"

definition push_channels :: "string list" where
  "push_channels = [''web_push'', ''fcm'', ''wns'']"

text \<open>A second registration of a device keeps its channel and re-enables it.\<close>

definition upsert_endpoint :: "push_endpoint \<Rightarrow> unit statement" where
  "upsert_endpoint e d =
     (if pe_channel e \<notin> set push_channels then Inl CheckViolation
      else if \<exists>x \<in> set (push_endpoints d). pe_user_id x = pe_user_id e \<and> pe_device_id x = pe_device_id e
      then Inr ((), d\<lparr>push_endpoints := map (\<lambda>x.
          if pe_user_id x = pe_user_id e \<and> pe_device_id x = pe_device_id e
          then x\<lparr>pe_ciphertext := pe_ciphertext e, pe_platform := pe_platform e, pe_last_seen_at := Some (clock d), pe_disabled_at := None\<rparr>
          else x) (push_endpoints d)\<rparr>)
      else if pe_id e \<in> pe_id ` set (push_endpoints d) then Inl UniqueViolation
      else if \<not> known_user d (pe_user_id e) then Inl ForeignKeyViolation
      else Inr ((), d\<lparr>push_endpoints := push_endpoints d @ [e\<lparr>pe_created_at := clock d\<rparr>]\<rparr>))"

definition register_push_endpoint :: "uuid \<Rightarrow> uuid \<Rightarrow> string \<Rightarrow> string \<Rightarrow> string \<Rightarrow> string \<Rightarrow> (db, api_error, unit) comp" where
  "register_push_endpoint i u device channel ciphertext platform =
     map_err notification_db_err (query (upsert_endpoint
       \<lparr>pe_id = i, pe_user_id = u, pe_device_id = device, pe_channel = channel, pe_ciphertext = ciphertext, pe_platform = platform,
        pe_created_at = 0, pe_last_seen_at = None, pe_disabled_at = None\<rparr>))"

section \<open>Push messages\<close>

record push_subscription =
  ps_endpoint :: string
  ps_p256dh :: string
  ps_auth :: string

datatype push_error = NotConfigured string | Delivery string

text \<open>The curve, the key derivation, the cipher, the signature and the HTTP client. A private key is
  ephemeral; the text of an error is the library's.\<close>

record push_libs =
  ephemeral_public :: "string \<Rightarrow> string"
  diffie_hellman :: "string \<Rightarrow> string \<Rightarrow> string + string"
  hkdf_sha256 :: "string \<Rightarrow> string \<Rightarrow> string \<Rightarrow> nat \<Rightarrow> string + string"
  aes128_gcm :: "string \<Rightarrow> string \<Rightarrow> string \<Rightarrow> string + string"
  public_of_pem :: "string \<Rightarrow> string + string"
  url_origin :: "string \<Rightarrow> string + string \<times> string option"
  sign_es256 :: "string \<Rightarrow> json \<Rightarrow> string + string"
  json_bytes :: "json \<Rightarrow> string"
  subscription_of_json :: "string \<Rightarrow> (string \<times> string \<times> string) option"
  b64_decode :: "string \<Rightarrow> string option"
  http_post :: "string \<Rightarrow> (string \<times> string) list \<Rightarrow> string \<Rightarrow> string + bool \<times> string"

definition be32_4096 :: string where
  "be32_4096 = bytes [0, 0, 16, 0]"

definition push_info :: "push_libs \<Rightarrow> string \<Rightarrow> push_subscription \<Rightarrow> string" where
  "push_info P eph su = ''WebPush: info'' @ bytes [0] @ ps_p256dh su @ ephemeral_public P eph"

definition encrypt_rfc8291 :: "push_libs \<Rightarrow> string \<Rightarrow> string \<Rightarrow> push_subscription \<Rightarrow> string \<Rightarrow> string + string" where
  "encrypt_rfc8291 P eph salt su payload =
     sbind (diffie_hellman P eph (ps_p256dh su)) (\<lambda>secret.
     sbind (hkdf_sha256 P (ps_auth su) secret (push_info P eph su) 16) (\<lambda>cek.
     sbind (hkdf_sha256 P (ps_auth su) secret (push_info P eph su) 12) (\<lambda>nonce.
     sbind (aes128_gcm P cek nonce (payload @ bytes [2])) (\<lambda>ct.
       Inr (salt @ be32_4096 @ bytes [65] @ ephemeral_public P eph @ ct)))))"

definition vapid_authorization :: "push_libs \<Rightarrow> libs \<Rightarrow> instant \<Rightarrow> string \<Rightarrow> string \<Rightarrow> string \<Rightarrow> string + string" where
  "vapid_authorization P L now pem subject endpoint =
     sbind (public_of_pem P pem) (\<lambda>pk.
     sbind (url_origin P endpoint) (\<lambda>sh.
     sbind (sign_es256 P pem (JObj [(''aud'', JStr (fst sh @ ''://'' @ unwrap_or (snd sh) [])), (''exp'', JInt (timestamp now + 43200)),
              (''sub'', JStr subject)])) (\<lambda>jwt.
       Inr (''vapid t='' @ jwt @ '',k='' @ b64url L pk))))"

definition web_push_configured :: "notification_config \<Rightarrow> bool" where
  "web_push_configured c \<longleftrightarrow>
     (case vapid_private_key_pem c of Some p \<Rightarrow> p \<noteq> [] | None \<Rightarrow> False) \<and>
     (case vapid_subject c of Some s \<Rightarrow> s \<noteq> [] | None \<Rightarrow> False)"

definition delivery :: "string + 'a \<Rightarrow> push_error + 'a" where
  "delivery r = (case r of Inl e \<Rightarrow> Inl (Delivery e) | Inr v \<Rightarrow> Inr v)"

text \<open>The ephemeral key and the salt are drawn for each message.\<close>

definition web_push_send ::
  "push_libs \<Rightarrow> libs \<Rightarrow> notification_config \<Rightarrow> instant \<Rightarrow> string \<times> string \<Rightarrow> push_subscription \<Rightarrow> string \<Rightarrow> string \<Rightarrow> json option \<Rightarrow>
   push_error + unit" where
  "web_push_send P L c now rnd su title body data =
     (if \<not> web_push_configured c then Inl (NotConfigured ''web_push: VAPID keys not configured'')
      else
        sbind (delivery (encrypt_rfc8291 P (fst rnd) (snd rnd) su
          (json_bytes P (JObj [(''title'', JStr title), (''body'', JStr body), (''data'', jopt id data)])))) (\<lambda>encrypted.
        sbind (delivery (vapid_authorization P L now (unwrap_or (vapid_private_key_pem c) []) (unwrap_or (vapid_subject c) [])
          (ps_endpoint su))) (\<lambda>auth.
        case http_post P (ps_endpoint su) [(''Content-Encoding'', ''aes128gcm''), (''Content-Type'', ''application/octet-stream''),
            (''TTL'', ''60''), (''Authorization'', auth)] encrypted of
          Inl e \<Rightarrow> Inl (Delivery e)
        | Inr (ok, st) \<Rightarrow> if ok then Inr () else Inl (Delivery (''web_push HTTP '' @ st)))))"

definition fcm_send :: "push_error + unit" where
  "fcm_send = Inl (NotConfigured ''fcm: FCM credentials not configured'')"

definition wns_send :: "push_error + unit" where
  "wns_send = Inl (NotConfigured ''wns: Windows Push credentials not configured'')"

definition app_push_present :: "push_endpoint list \<Rightarrow> bool" where
  "app_push_present eps \<longleftrightarrow> (\<exists>e \<in> set eps. pe_channel e = ''fcm'' \<or> pe_channel e = ''wns'')"

record push_summary =
  delivered :: nat
  not_configured_count :: nat
  failed_count :: nat

definition decrypt_subscription :: "push_libs \<Rightarrow> libs \<Rightarrow> string \<Rightarrow> push_subscription option" where
  "decrypt_subscription P L blob =
     Option.bind (cipher_decrypt L blob) (\<lambda>plain.
     Option.bind (subscription_of_json P plain) (\<lambda>(ep, p, a).
     Option.bind (b64_decode P p) (\<lambda>p256dh.
     Option.bind (b64_decode P a) (\<lambda>auth.
       if length p256dh \<noteq> 65 \<or> length auth \<noteq> 16 then None
       else Some \<lparr>ps_endpoint = ep, ps_p256dh = p256dh, ps_auth = auth\<rparr>))))"

definition send_to ::
  "push_libs \<Rightarrow> env \<Rightarrow> (uuid \<Rightarrow> string \<times> string) \<Rightarrow> bool \<Rightarrow> string \<Rightarrow> string \<Rightarrow> json option \<Rightarrow> push_endpoint \<Rightarrow> push_summary \<Rightarrow> push_summary" where
  "send_to P E rnd prefer_app title body data ep s =
     (if prefer_app \<and> pe_channel ep = ''web_push'' then s
      else case decrypt_subscription P (libs_of E) (pe_ciphertext ep) of
        None \<Rightarrow> s\<lparr>failed_count := failed_count s + 1\<rparr>
      | Some su \<Rightarrow>
          if pe_channel ep \<notin> set push_channels then s\<lparr>failed_count := failed_count s + 1\<rparr>
          else
            case (if pe_channel ep = ''web_push''
                  then web_push_send P (libs_of E) (notification_cfg (cfg E)) (now_of E) (rnd (pe_id ep)) su title body data
                  else if pe_channel ep = ''fcm'' then fcm_send else wns_send) of
              Inr _ \<Rightarrow> s\<lparr>delivered := delivered s + 1\<rparr>
            | Inl (NotConfigured _) \<Rightarrow> s\<lparr>not_configured_count := not_configured_count s + 1\<rparr>
            | Inl (Delivery _) \<Rightarrow> s\<lparr>failed_count := failed_count s + 1\<rparr>)"

definition push_db_err :: "sqlx_error \<Rightarrow> api_error" where
  "push_db_err = db_err (api_error_new ResourceNotFound ''push endpoint not found'')"

definition notify ::
  "push_libs \<Rightarrow> env \<Rightarrow> (uuid \<Rightarrow> string \<times> string) \<Rightarrow> uuid \<Rightarrow> string \<Rightarrow> string \<Rightarrow> json option \<Rightarrow> (db, api_error, push_summary) comp" where
  "notify P E rnd u title body data =
     bnd (map_err push_db_err (select (\<lambda>d. filter (\<lambda>e. pe_user_id e = u \<and> pe_disabled_at e = None) (push_endpoints d)))) (\<lambda>eps.
       ret (fold (send_to P E rnd (app_push_present eps) title body data) eps
         \<lparr>delivered = 0, not_configured_count = 0, failed_count = 0\<rparr>))"

section \<open>Delivered to everybody or to nobody\<close>

text \<open>The inbox rows of one event, by recipient.\<close>

definition recipients_of :: "db \<Rightarrow> uuid \<Rightarrow> uuid list" where
  "recipients_of d event = map un_user_id (filter (\<lambda>n. un_event_id n = event) (user_notifications d))"

lemma insert_inbox_recipients:
  assumes ins: "insert_inbox j event u d = Inr (x, d')"
    and new: "u \<notin> set (recipients_of d event) \<Longrightarrow> j \<notin> un_id ` set (user_notifications d)"
  shows "set (recipients_of d' event) = insert u (set (recipients_of d event)) \<and>
    (distinct (recipients_of d event) \<longrightarrow> distinct (recipients_of d' event)) \<and>
    filter (\<lambda>n. un_event_id n \<noteq> event) (user_notifications d') = filter (\<lambda>n. un_event_id n \<noteq> event) (user_notifications d) \<and>
    un_id ` set (user_notifications d') \<subseteq> insert j (un_id ` set (user_notifications d)) \<and>
    notification_events d' = notification_events d"
proof (cases "\<exists>n \<in> set (user_notifications d). un_event_id n = event \<and> un_user_id n = u \<or> un_id n = j")
  case True
  then have "d' = d" using ins by (simp add: insert_inbox_def)
  moreover have "u \<in> set (recipients_of d event)" using True new by (auto simp: recipients_of_def)
  ultimately show ?thesis by auto
next
  case False
  then have "user_notifications d' = user_notifications d @ [\<lparr>un_id = j, un_event_id = event, un_user_id = u, un_read_at = None,
      un_dismissed_at = None, un_created_at = clock d\<rparr>]" "notification_events d' = notification_events d"
    using ins by (auto simp: insert_inbox_def split: if_splits)
  moreover have "u \<notin> set (recipients_of d event)" using False by (auto simp: recipients_of_def)
  ultimately show ?thesis by (auto simp: recipients_of_def)
qed

lemma recipients_outcomes [simp]: "recipients_of (d\<lparr>outcomes := xs\<rparr>) event = recipients_of d event"
  by (simp add: recipients_of_def)

lemma deliver_runs:
  "deliver fresh event u d = (Inr x, d') \<longleftrightarrow> query (insert_inbox (fresh u) event u) d = (Inr x, d')"
  by (simp add: deliver_def)

lemma deliver_all:
  assumes "for_each us (deliver fresh event) d = (Inr (), d')" and "inj fresh"
    and "\<And>u. u \<in> set us \<Longrightarrow> u \<notin> set (recipients_of d event) \<Longrightarrow> fresh u \<notin> un_id ` set (user_notifications d)"
  shows "set (recipients_of d' event) = set (recipients_of d event) \<union> set us \<and>
    (distinct (recipients_of d event) \<longrightarrow> distinct (recipients_of d' event)) \<and>
    filter (\<lambda>n. un_event_id n \<noteq> event) (user_notifications d') = filter (\<lambda>n. un_event_id n \<noteq> event) (user_notifications d) \<and>
    notification_events d' = notification_events d"
  using assms(1,3)
proof (induction us arbitrary: d)
  case Nil
  then show ?case by (simp add: ret_def)
next
  case (Cons u us)
  from Cons.prems(1) obtain x d1 where q: "query (insert_inbox (fresh u) event u) d = (Inr x, d1)"
    and rest: "for_each us (deliver fresh event) d1 = (Inr (), d')"
    by (auto simp: deliver_runs runs)
  from query_InrD [OF q] obtain xs where ins: "insert_inbox (fresh u) event u (d\<lparr>outcomes := xs\<rparr>) = Inr (x, d1)" by blast
  have step: "set (recipients_of d1 event) = insert u (set (recipients_of d event))"
      "distinct (recipients_of d event) \<longrightarrow> distinct (recipients_of d1 event)"
      "filter (\<lambda>n. un_event_id n \<noteq> event) (user_notifications d1) = filter (\<lambda>n. un_event_id n \<noteq> event) (user_notifications d)"
      "un_id ` set (user_notifications d1) \<subseteq> insert (fresh u) (un_id ` set (user_notifications d))"
      "notification_events d1 = notification_events d"
    using insert_inbox_recipients [of "fresh u" event u, OF ins] Cons.prems(2) [of u] by simp_all
  have "fresh v \<notin> un_id ` set (user_notifications d1)" if "v \<in> set us" "v \<notin> set (recipients_of d1 event)" for v
  proof -
    have "v \<noteq> u" "v \<notin> set (recipients_of d event)" using that step(1) by auto
    then have "fresh v \<noteq> fresh u" "fresh v \<notin> un_id ` set (user_notifications d)"
      using Cons.prems(2) [of v] that(1) \<open>inj fresh\<close> by (auto dest: injD)
    then show ?thesis using step(4) by auto
  qed
  from Cons.IH [OF rest this] step show ?case by auto
qed

lemma publish_effect:
  assumes run: "publish_to_users i fresh ty actor payload us d = (r, d')"
    and "inj fresh" and "\<And>u. u \<in> set us \<Longrightarrow> fresh u \<notin> un_id ` set (user_notifications d)"
    and refs: "un_event_id ` set (user_notifications d) \<subseteq> ev_id ` set (notification_events d)"
  shows "untouched d d' \<and> (\<exists>e. r = Inl e) \<or>
    (\<exists>e. notification_events d' = notification_events d @ [e] \<and> ev_id e = i \<and> ev_payload e = payload \<and> (\<forall>x. r = Inr x \<longrightarrow> x = e)) \<and>
    set (recipients_of d' i) = set us \<and> distinct (recipients_of d' i) \<and>
    filter (\<lambda>n. un_event_id n \<noteq> i) (user_notifications d') = user_notifications d"
proof -
  from run show ?thesis unfolding publish_to_users_def
  proof (cases rule: transaction_cases)
    case (undone e xs)
    then show ?thesis by (auto simp: untouched_def)
  next
    case (finished xs a d2 ys)
    from finished(1) obtain d1 where c: "create_event i ty actor payload (d\<lparr>outcomes := xs\<rparr>) = (Inr a, d1)"
      and all: "for_each us (deliver fresh (ev_id a)) d1 = (Inr (), d2)"
      by (auto simp: runs)
    from c obtain zs where ins: "insert_event i ty actor payload (d\<lparr>outcomes := zs\<rparr>) = Inr (a, d1)"
      by (auto simp: create_event_def dest!: query_InrD)
    have a: "notification_events d1 = notification_events d @ [a]" "ev_id a = i" "ev_payload a = payload"
      "user_notifications d1 = user_notifications d" "i \<notin> ev_id ` set (notification_events d)"
      using ins by (auto simp: insert_event_def Let_def split: if_splits)
    have "recipients_of d1 i = []" "filter (\<lambda>n. un_event_id n \<noteq> i) (user_notifications d) = user_notifications d"
      using refs a(4,5) by (force simp: recipients_of_def filter_empty_conv filter_id_conv)+
    with deliver_all [OF all [unfolded a(2)] assms(2)] assms(3) a finished(2,3) show ?thesis
      by auto
  qed
qed

text \<open>A notification reaches all of its recipients or none. Whatever the connection does, after a
  publication either every table is as before (and the caller got an error), or there is one new
  event, each recipient has exactly one inbox row for it and nobody else has one, and no other inbox
  row has changed. It is assumed that generated ids are new and that inbox rows refer to events.\<close>

theorem publish_all_or_nothing:
  assumes "publish_to_users i fresh ty actor payload us d = (r, d')"
    and "inj fresh" and "\<And>u. u \<in> set us \<Longrightarrow> fresh u \<notin> un_id ` set (user_notifications d)"
    and "un_event_id ` set (user_notifications d) \<subseteq> ev_id ` set (notification_events d)"
  shows "untouched d d' \<and> (\<exists>e. r = Inl e) \<or>
    (\<exists>e. notification_events d' = notification_events d @ [e] \<and> ev_id e = i \<and> ev_payload e = payload \<and> (\<forall>x. r = Inr x \<longrightarrow> x = e)) \<and>
    set (recipients_of d' i) = set us \<and> distinct (recipients_of d' i) \<and>
    filter (\<lambda>n. un_event_id n \<noteq> i) (user_notifications d') = user_notifications d"
  using assms by (rule publish_effect)

theorem publish_all_or_nothing_witness:
  "set (recipients_of (snd (publish_to_users 5 (\<lambda>u. u + 1) ''t'' None JNull [7] demo_db)) 5) = {7}"
proof -
  obtain r d' where run: "publish_to_users 5 (\<lambda>u. u + 1) ''t'' None JNull [7] demo_db = (r, d')"
    by (cases "publish_to_users 5 (\<lambda>u. u + 1) ''t'' None JNull [7] demo_db")
  then have ok: "\<exists>e. r = Inr e"
    by (auto simp: publish_to_users_def transaction_def create_event_def insert_event_def map_err_def query_calm Let_def bnd_def
        andthen_def ret_def deliver_def insert_inbox_def known_user_def demo_db_def empty_db_def)
  have "inj (\<lambda>u :: uuid. u + 1)" by (simp add: inj_def)
  moreover have "user_notifications demo_db = []" by (simp add: demo_db_def empty_db_def)
  ultimately show ?thesis using publish_all_or_nothing [OF run] ok by (auto simp: run)
qed

section \<open>Channels\<close>

lemma send_to_app:
  "delivered (send_to P E rnd True title body data ep s) = delivered s"
  by (auto simp: send_to_def fcm_send_def wns_send_def split: option.splits)

lemma fold_send_app:
  "delivered (fold (send_to P E rnd True title body data) eps s) = delivered s"
  by (induction eps arbitrary: s) (simp_all add: send_to_app)

text \<open>A user with an enabled app endpoint gets no push message at all. The web endpoints are skipped
  in favour of the app channels, and these are not implemented: whatever is registered, nothing is
  delivered.\<close>

theorem app_endpoint_silences_push:
  assumes "notify P E rnd u title body data d = (Inr s, d')"
    and "ep \<in> set (push_endpoints d)" and "pe_user_id ep = u" and "pe_disabled_at ep = None"
    and "pe_channel ep = ''fcm'' \<or> pe_channel ep = ''wns''"
  shows "delivered s = 0"
proof -
  let ?eps = "filter (\<lambda>e. pe_user_id e = u \<and> pe_disabled_at e = None) (push_endpoints d)"
  have "app_push_present ?eps" using assms by (auto simp: app_push_present_def)
  then have "s = fold (send_to P E rnd True title body data) ?eps \<lparr>delivered = 0, not_configured_count = 0, failed_count = 0\<rparr>"
    using assms(1) by (auto simp: notify_def runs dest!: select_InrD)
  then show ?thesis by (simp add: fold_send_app)
qed

text \<open>The salt that a message announces plays no part in its encryption.\<close>

lemma salt_unused:
  assumes "encrypt_rfc8291 P eph salt su payload = Inr m"
  shows "\<exists>rest. m = salt @ rest \<and> (\<forall>salt'. encrypt_rfc8291 P eph salt' su payload = Inr (salt' @ rest))"
proof -
  from assms obtain secret cek nonce ct where "diffie_hellman P eph (ps_p256dh su) = Inr secret"
      "hkdf_sha256 P (ps_auth su) secret (push_info P eph su) 16 = Inr cek"
      "hkdf_sha256 P (ps_auth su) secret (push_info P eph su) 12 = Inr nonce"
      "aes128_gcm P cek nonce (payload @ bytes [2]) = Inr ct" and m: "m = salt @ be32_4096 @ bytes [65] @ ephemeral_public P eph @ ct"
    by (auto simp: encrypt_rfc8291_def sbind_Inr)
  then show ?thesis
    by (intro exI [of _ "be32_4096 @ bytes [65] @ ephemeral_public P eph @ ct"]) (simp add: encrypt_rfc8291_def sbind_def)
qed

definition phone_db :: db where
  "phone_db = demo_db\<lparr>push_endpoints := [\<lparr>pe_id = 1, pe_user_id = 7, pe_device_id = ''phone'', pe_channel = ''fcm'', pe_ciphertext = [],
     pe_platform = [], pe_created_at = 0, pe_last_seen_at = None, pe_disabled_at = None\<rparr>]\<rparr>"

theorem app_endpoint_silences_push_witness:
  "\<forall>P. \<exists>s. fst (notify P demo_env (\<lambda>_. ([], [])) 7 ''t'' ''b'' None phone_db) = Inr s \<and> delivered s = 0"
proof
  fix P
  have "outcomes phone_db = []" by (simp add: phone_db_def demo_db_def empty_db_def)
  then obtain s where s: "notify P demo_env (\<lambda>_. ([], [])) 7 ''t'' ''b'' None phone_db = (Inr s, phone_db)"
    by (auto simp: notify_def bnd_def ret_def map_err_def)
  have "delivered s = 0"
    by (rule app_endpoint_silences_push [OF s, of "hd (push_endpoints phone_db)"]) (simp_all add: phone_db_def)
  with s show "\<exists>s. fst (notify P demo_env (\<lambda>_. ([], [])) 7 ''t'' ''b'' None phone_db) = Inr s \<and> delivered s = 0" by simp
qed

end
