(* ===== verification/Social.thy ===== *)
theory Social
  imports Notifications
begin

text \<open>
  Friends and blocks (\<^verbatim>\<open>social/\<close>): friend requests, friendships as normalised pairs, blocks, room
  invitations and their endpoints. Generated ids are arguments; the time format of a row and the push
  libraries are parameters.
\<close>

section \<open>The tables\<close>

definition social_db_err :: "sqlx_error \<Rightarrow> api_error" where
  "social_db_err = db_err (api_error_new ResourceNotFound ''not found'')"

definition friend_draft :: "string \<Rightarrow> string \<Rightarrow> action_kind \<Rightarrow> uuid \<Rightarrow> action_draft" where
  "friend_draft label key kind rid =
     \<lparr>dr_label = label, dr_label_key = Some key, dr_action = kind, dr_data = no_target\<lparr>tg_friend_request_id := Some rid\<rparr>,
      dr_danger = False\<rparr>"

definition friend_request_notification_payload :: "libs \<Rightarrow> (nat \<Rightarrow> string) \<Rightarrow> uuid \<Rightarrow> api_error + json" where
  "friend_request_notification_payload L fresh rid =
     sbind (normalize_action_drafts fresh 0
       [friend_draft ''Accept'' ''persistent.actions.accept'' FriendAccept rid,
        friend_draft ''Reject'' ''persistent.actions.reject'' FriendReject rid]) (\<lambda>actions.
     Inr (JObj [(''type'', JStr ''friend.request''), (''priority'', JStr ''normal''), (''title'', JStr ''New friend request''),
       (''title_key'', JStr ''persistent.friendRequest.title''), (''body'', JStr ''Someone sent you a friend request.''),
       (''body_key'', JStr ''persistent.friendRequest.body''), (''params'', JObj []),
       (''target'', JObj [(''friend_request_id'', JStr (uuid_text L rid))]), (''actions'', JArr (map (wire_json L) actions)),
       (''input'', JNull), (''deep_link'', JStr ''/notifications''),
       (''dedup_key'', JStr (''friend.request:'' @ uuid_text L rid))]))"

text \<open>\<open>ON CONFLICT (from_user_id, to_user_id) DO NOTHING RETURNING\<close>: no row when there is one already.\<close>

definition insert_request :: "uuid \<Rightarrow> uuid \<Rightarrow> uuid \<Rightarrow> friend_request option statement" where
  "insert_request i a b d =
     (if \<exists>q \<in> set (friend_requests d). from_user_id q = a \<and> to_user_id q = b then Inr (None, d)
      else if i \<in> fr_id ` set (friend_requests d) then Inl UniqueViolation
      else if \<not> known_user d a \<or> \<not> known_user d b then Inl ForeignKeyViolation
      else
        let q = \<lparr>fr_id = i, from_user_id = a, to_user_id = b, fr_status = ''pending'', fr_created_at = clock d, responded_at = None\<rparr>
        in Inr (Some q, d\<lparr>friend_requests := friend_requests d @ [q]\<rparr>))"

definition friends_rows :: "db \<Rightarrow> uuid \<Rightarrow> uuid \<Rightarrow> bool" where
  "friends_rows d a b \<longleftrightarrow> (a, b) \<in> set (friendships d) \<or> (b, a) \<in> set (friendships d)"

definition are_friends :: "uuid \<Rightarrow> uuid \<Rightarrow> (db, api_error, bool) comp" where
  "are_friends a b = map_err social_db_err (select (\<lambda>d. friends_rows d a b))"

text \<open>The ids a new request draws: its own, the event's, the inbox row's and those of the buttons.\<close>

record request_ids =
  rq_id :: uuid
  rq_event :: uuid
  rq_inbox :: uuid
  rq_buttons :: "nat \<Rightarrow> string"

definition send_request :: "libs \<Rightarrow> request_ids \<Rightarrow> uuid \<Rightarrow> uuid \<Rightarrow> (db, api_error, friend_request) comp" where
  "send_request L ids a b =
     andthen (ensure (a \<noteq> b) (api_error_new ValidationFailed ''cannot friend yourself''))
    (bnd (are_friends a b) (\<lambda>friend.
     andthen (ensure (\<not> friend) (api_error_new AlreadyFriends ''already friends''))
    (transaction social_db_err (
       bnd (map_err social_db_err (query (insert_request (rq_id ids) a b))) (\<lambda>row.
       bnd (some_or row (api_error_new FriendRequestAlreadySent ''friend request already sent'')) (\<lambda>q.
       bnd (from_result (friend_request_notification_payload L (rq_buttons ids) (fr_id q))) (\<lambda>payload.
       bnd (map_err social_db_err (query (insert_event (rq_event ids) ''friend.request'' (Some a) payload))) (\<lambda>e.
       andthen (map_err social_db_err (query (insert_inbox (rq_inbox ids) (ev_id e) b)))
        (ret q)))))))))"

definition normalize_pair :: "uuid \<Rightarrow> uuid \<Rightarrow> uuid \<times> uuid" where
  "normalize_pair a b = (if a < b then (a, b) else (b, a))"

definition insert_friendship :: "uuid \<times> uuid \<Rightarrow> unit statement" where
  "insert_friendship p d =
     (if \<not> fst p < snd p then Inl CheckViolation
      else if p \<in> set (friendships d) then Inr ((), d)
      else if \<not> known_user d (fst p) \<or> \<not> known_user d (snd p) then Inl ForeignKeyViolation
      else Inr ((), d\<lparr>friendships := friendships d @ [p]\<rparr>))"

definition get_request :: "uuid \<Rightarrow> (db, api_error, friend_request option) comp" where
  "get_request i = map_err social_db_err (select (\<lambda>d. find (\<lambda>q. fr_id q = i) (friend_requests d)))"

definition answered :: "uuid \<Rightarrow> string \<Rightarrow> db \<Rightarrow> db" where
  "answered i st d =
     d\<lparr>friend_requests := map (\<lambda>q. if fr_id q = i then q\<lparr>fr_status := st, responded_at := Some (clock d)\<rparr> else q) (friend_requests d)\<rparr>"

definition respond_request :: "uuid \<Rightarrow> uuid \<Rightarrow> bool \<Rightarrow> (db, api_error, unit) comp" where
  "respond_request i me accept =
     bnd (get_request i) (\<lambda>row.
     bnd (some_or row (api_error_new FriendRequestNotFound ''friend request not found'')) (\<lambda>q.
     andthen (ensure (to_user_id q = me) permission_denied)
    (andthen (ensure (fr_status q = ''pending'') (api_error_new ResourceConflict ''request already handled''))
    (transaction social_db_err (
       andthen (map_err social_db_err (execute (answered i (if accept then ''accepted'' else ''declined''))))
      (if accept then map_err social_db_err (query (insert_friendship (normalize_pair (from_user_id q) (to_user_id q)))) else ret ()))))))"

definition remove_friend :: "uuid \<Rightarrow> uuid \<Rightarrow> (db, api_error, unit) comp" where
  "remove_friend a b =
     map_err social_db_err (execute (\<lambda>d. d\<lparr>friendships := filter (\<lambda>p. p \<noteq> normalize_pair a b) (friendships d)\<rparr>))"

definition list_friends :: "uuid \<Rightarrow> (db, api_error, uuid list) comp" where
  "list_friends u =
     map_err social_db_err (select (\<lambda>d.
       map (\<lambda>p. if fst p = u then snd p else fst p) (filter (\<lambda>p. fst p = u \<or> snd p = u) (friendships d))))"

definition list_requests_for_user :: "uuid \<Rightarrow> (db, api_error, friend_request list) comp" where
  "list_requests_for_user u =
     map_err social_db_err (select (\<lambda>d.
       rev (sort_key fr_created_at (filter (\<lambda>q. from_user_id q = u \<or> to_user_id q = u) (friend_requests d)))))"

definition is_blocked :: "uuid \<Rightarrow> uuid \<Rightarrow> (db, api_error, bool) comp" where
  "is_blocked a b = map_err social_db_err (select (\<lambda>d. (a, b) \<in> set (user_blocks d) \<or> (b, a) \<in> set (user_blocks d)))"

definition insert_block :: "uuid \<times> uuid \<Rightarrow> unit statement" where
  "insert_block p d =
     (if p \<in> set (user_blocks d) then Inr ((), d)
      else if \<not> known_user d (fst p) \<or> \<not> known_user d (snd p) then Inl ForeignKeyViolation
      else Inr ((), d\<lparr>user_blocks := user_blocks d @ [p]\<rparr>))"

definition block :: "uuid \<Rightarrow> uuid \<Rightarrow> (db, api_error, unit) comp" where
  "block a b =
     andthen (ensure (a \<noteq> b) (validation ''cannot block yourself''))
    (andthen (map_err social_db_err (query (insert_block (a, b)))) (ignore (remove_friend a b)))"

definition unblock :: "uuid \<Rightarrow> uuid \<Rightarrow> (db, api_error, unit) comp" where
  "unblock a b =
     map_err social_db_err (execute (\<lambda>d. d\<lparr>user_blocks := filter (\<lambda>p. p \<noteq> (a, b)) (user_blocks d)\<rparr>))"

section \<open>Endpoints\<close>

text \<open>A page of a list: \<open>i64\<close> arithmetic wraps, \<open>as usize\<close> reinterprets, and a slice whose start lies after
  its end panics (\<open>None\<close>).\<close>

definition paginate :: "'a list \<Rightarrow> int \<Rightarrow> int \<Rightarrow> ('a list \<times> int) option" where
  "paginate items page page_num =
     (let total = int (length items);
          p = max page 1;
          n = max 1 (min 100 page_num);
          start = min (wrap64 ((p - 1) * n)) total mod 2 ^ 64;
          stop = min ((start + n) mod 2 ^ 64) total
      in if start \<le> stop then Some (take (nat (stop - start)) (drop (nat start) items), total) else None)"

definition friend_of :: "user \<Rightarrow> json" where
  "friend_of u = JObj [(''phira_id'', JInt (phira_id u)), (''username'', JStr (username_cache u)), (''avatar'', JStr (avatar_cache u)),
     (''online_status'', JNull)]"

definition list_reply :: "json list \<times> int \<Rightarrow> int option \<Rightarrow> int option \<Rightarrow> json" where
  "list_reply it page page_num =
     JObj [(''items'', JArr (fst it)), (''total'', JInt (snd it)), (''page'', JInt (max (unwrap_or page 1) 1)),
       (''pageNum'', JInt (unwrap_or page_num 50))]"

text \<open>Handlers of users: Root is refused. A handler that panics answers with no value.\<close>

definition as_user :: "auth_principal \<Rightarrow> (db, api_error, 'a) comp \<Rightarrow> (db option, api_error, 'a) comp" where
  "as_user a m = (if is_root a then throw permission_denied else with_db m)"

definition paged :: "int option \<Rightarrow> int option \<Rightarrow> json list \<Rightarrow> json option" where
  "paged page page_num items =
     map_option (\<lambda>it. list_reply it page page_num) (paginate items (unwrap_or page 1) (unwrap_or page_num 50))"

fun known_friends :: "uuid list \<Rightarrow> (db, api_error, json list) comp" where
  "known_friends [] = ret []"
| "known_friends (i # is) =
     bnd (find_user_by_id i) (\<lambda>u.
     bnd (known_friends is) (\<lambda>js.
     ret (case u of Some x \<Rightarrow> friend_of x # js | None \<Rightarrow> js)))"

definition route_friends :: "auth_principal \<Rightarrow> int option \<Rightarrow> int option \<Rightarrow> (db option, api_error, json option) comp" where
  "route_friends a page page_num =
     as_user a (bnd (list_friends (sub a)) (\<lambda>ids. bnd (known_friends ids) (\<lambda>js. ret (paged page page_num js))))"

definition user_or_null :: "uuid \<Rightarrow> (db, api_error, json) comp" where
  "user_or_null i = bnd (find_user_by_id i) (\<lambda>u. ret (jopt friend_of u))"

fun request_items :: "libs \<Rightarrow> (instant \<Rightarrow> string) \<Rightarrow> friend_request list \<Rightarrow> (db, api_error, json list) comp" where
  "request_items L time [] = ret []"
| "request_items L time (q # qs) =
     bnd (user_or_null (from_user_id q)) (\<lambda>f.
     bnd (user_or_null (to_user_id q)) (\<lambda>t.
     bnd (request_items L time qs) (\<lambda>js.
     ret (JObj [(''id'', JStr (uuid_text L (fr_id q))), (''from'', f), (''to'', t), (''status'', JStr (fr_status q)),
       (''created_at'', JStr (time (fr_created_at q)))] # js))))"

definition route_friend_requests ::
  "libs \<Rightarrow> (instant \<Rightarrow> string) \<Rightarrow> auth_principal \<Rightarrow> int option \<Rightarrow> int option \<Rightarrow> (db option, api_error, json option) comp" where
  "route_friend_requests L time a page page_num =
     as_user a (bnd (list_requests_for_user (sub a)) (\<lambda>qs. bnd (request_items L time qs) (\<lambda>js. ret (paged page page_num js))))"

text \<open>The push message of a payload; its outcome is dropped.\<close>

definition push_payload :: "push_libs \<Rightarrow> env \<Rightarrow> (uuid \<Rightarrow> string \<times> string) \<Rightarrow> uuid \<Rightarrow> json \<Rightarrow> (db, api_error, unit) comp" where
  "push_payload P E rnd u payload =
     ignore (notify P E rnd u (unwrap_or (Option.bind (get_field payload ''title'') as_string) [])
       (unwrap_or (Option.bind (get_field payload ''body'') as_string) []) (Some payload))"

definition route_send_request ::
  "env \<Rightarrow> push_libs \<Rightarrow> (uuid \<Rightarrow> string \<times> string) \<Rightarrow> request_ids \<Rightarrow> (nat \<Rightarrow> string) \<Rightarrow> auth_principal \<Rightarrow> int \<Rightarrow>
   (app_state, api_error, uuid \<times> string) comp" where
  "route_send_request E P rnd ids fresh a target_phira =
     (if is_root a then throw permission_denied
      else
        andthen (rate_check E (''social-request:'' @ uuid_text (libs_of E) (sub a)) (social_per_minute (rate_limit (cfg E))))
        (on_pool (with_db (
          bnd (find_by_phira_id target_phira) (\<lambda>row.
          bnd (some_or row (api_error_new UserNotFound ''user not found'')) (\<lambda>target.
          bnd (is_blocked (sub a) (u_id target)) (\<lambda>blocked.
          andthen (ensure (\<not> blocked) (api_error_new UserBlocked ''user is blocked''))
         (bnd (send_request (libs_of E) ids (sub a) (u_id target)) (\<lambda>q.
          andthen (case friend_request_notification_payload (libs_of E) fresh (fr_id q) of
                     Inr payload \<Rightarrow> push_payload P E rnd (u_id target) payload | Inl _ \<Rightarrow> ret ())
          (ret (fr_id q, fr_status q)))))))))))"

definition route_respond :: "auth_principal \<Rightarrow> uuid \<Rightarrow> bool \<Rightarrow> (db option, api_error, unit) comp" where
  "route_respond a i accept = as_user a (respond_request i (sub a) accept)"

definition invite_actions :: "(nat \<Rightarrow> string) \<Rightarrow> string \<Rightarrow> api_error + action_wire list" where
  "invite_actions fresh room =
     (let t = no_target\<lparr>tg_room_id := Some room\<rparr> in
      normalize_action_drafts fresh 0
       [\<lparr>dr_label = ''Join room'', dr_label_key = Some ''persistent.actions.joinRoom'', dr_action = JoinRoom, dr_data = t, dr_danger = False\<rparr>,
        \<lparr>dr_label = ''Open room'', dr_label_key = Some ''persistent.actions.openRoom'', dr_action = OpenRoom, dr_data = t, dr_danger = False\<rparr>])"

definition invite_payload :: "libs \<Rightarrow> uuid \<Rightarrow> uuid \<Rightarrow> string \<Rightarrow> action_wire list \<Rightarrow> json" where
  "invite_payload L me target room actions =
     JObj [(''type'', JStr ''friend.room_invite''), (''priority'', JStr ''normal''), (''title'', JStr ''Room invitation''),
       (''title_key'', JStr ''persistent.roomInvite.title''), (''body'', JStr (''A friend invited you to room '' @ room @ ''.'')),
       (''body_key'', JStr ''persistent.roomInvite.body''), (''params'', JObj [(''room_id'', JStr room)]),
       (''target'', JObj [(''room_id'', JStr room)]), (''actions'', JArr (map (wire_json L) actions)), (''input'', JNull),
       (''deep_link'', JStr (''/room/'' @ room)),
       (''dedup_key'', JStr (''friend.room_invite:'' @ uuid_text L me @ '':'' @ uuid_text L target @ '':'' @ room))]"

definition invite_to_room ::
  "env \<Rightarrow> push_libs \<Rightarrow> (uuid \<Rightarrow> string \<times> string) \<Rightarrow> pmp \<Rightarrow> request_ids \<Rightarrow> auth_principal \<Rightarrow> int \<Rightarrow> string \<Rightarrow>
   (app_state, api_error, uuid) comp" where
  "invite_to_room E P rnd G ids a target_phira room_param =
     (let room = trim room_param; L = libs_of E in
      if is_root a then throw permission_denied
      else if room = [] then throw (api_error_new RoomIdRequired ''room_id is required'')
      else
        andthen (rate_check E (''social-invite:'' @ uuid_text L (sub a)) (social_per_minute (rate_limit (cfg E))))
        (on_pool (with_db (
          bnd (find_by_phira_id target_phira) (\<lambda>row.
          bnd (some_or row (api_error_new UserNotFound ''user not found'')) (\<lambda>target.
          bnd (are_friends (sub a) (u_id target)) (\<lambda>friend.
          andthen (ensure friend (api_error_new FriendRelationRequired ''friend relation required''))
         (bnd (is_blocked (sub a) (u_id target)) (\<lambda>blocked.
          andthen (ensure (\<not> blocked) (api_error_new UserBlocked ''user is blocked''))
         (andthen (from_result (case room_info G room of Inl _ \<Rightarrow> Inl (api_error_new RoomNotFound ''room not found'') | Inr _ \<Rightarrow> Inr ()))
         (bnd (from_result (invite_actions (rq_buttons ids) room)) (\<lambda>actions.
          let payload = invite_payload L (sub a) (u_id target) room actions in
          bnd (publish_to_users (rq_event ids) (\<lambda>_. rq_inbox ids) ''friend.room_invite'' (Some (sub a)) payload [u_id target]) (\<lambda>e.
          andthen (push_payload P E rnd (u_id target) payload) (ret (ev_id e)))))))))))))))"

definition route_block :: "auth_principal \<Rightarrow> int \<Rightarrow> (db option, api_error, unit) comp" where
  "route_block a target_phira =
     as_user a (
       bnd (find_by_phira_id target_phira) (\<lambda>row.
       bnd (some_or row (not_found ''user'')) (\<lambda>target. block (sub a) (u_id target))))"

section \<open>Pages\<close>

text \<open>A page of a friend list is the window it names, and a page number that overflows crashes the
  handler. With the offset computed in 64 bits, a negative offset makes the handler panic; any other
  gives the elements of that window and the full count, for every list a machine can hold.\<close>

theorem paginate_window:
  assumes "int (length items) < 2 ^ 63"
  shows "paginate items page page_num =
    (let n = max 1 (min 100 page_num); off = wrap64 ((max page 1 - 1) * n) in
     if off < 0 then None else Some (take (nat n) (drop (nat off) items), int (length items)))"
proof -
  define n where "n = max 1 (min 100 page_num)"
  define off where "off = wrap64 ((max page 1 - 1) * n)"
  have n: "1 \<le> n" "n \<le> 100" by (auto simp: n_def)
  have off: "- (2 ^ 63) \<le> off" "off < 2 ^ 63" by (auto simp: off_def wrap64_def)
  have len: "0 \<le> int (length items)" by simp
  show ?thesis
  proof (cases "off < 0")
    case True
    have "(off + 2 ^ 64) mod 2 ^ 64 = off + 2 ^ 64" using True off by (intro mod_pos_pos_trivial) simp_all
    then have start: "min off (int (length items)) mod 2 ^ 64 = off + 2 ^ 64"
      using True by (simp add: min_def)
    moreover have "int (length items) < off + 2 ^ 64" using assms off by simp
    ultimately show ?thesis using True by (simp add: paginate_def Let_def flip: n_def off_def)
  next
    case False
    define k where "k = min off (int (length items))"
    have k: "0 \<le> k" "k \<le> int (length items)" using False by (auto simp: k_def)
    have "k mod 2 ^ 64 = k" "(k + n) mod 2 ^ 64 = k + n" using k n assms by (simp_all add: mod_pos_pos_trivial)
    then have p: "paginate items page page_num = Some (take (nat (min (k + n) (int (length items)) - k)) (drop (nat k) items), int (length items))"
      using k n by (simp add: paginate_def Let_def flip: n_def off_def k_def)
    have "take (nat (min (k + n) (int (length items)) - k)) (drop (nat k) items) = take (nat n) (drop (nat off) items)"
    proof (cases "off \<le> int (length items)")
      case True
      then have "k = off" by (simp add: k_def)
      then show ?thesis using k n by (cases "k + n \<le> int (length items)") (simp_all add: min_def)
    next
      case False
      then show ?thesis by (simp add: k_def)
    qed
    with p False show ?thesis by (simp add: Let_def flip: n_def off_def)
  qed
qed

theorem paginate_window_witness:
  "paginate [1, 2, 3 :: nat] 2 2 = Some ([3], 3) \<and> paginate [1, 2, 3 :: nat] 2305843009213693953 100 = None"
  using paginate_window [of "[1, 2, 3 :: nat]" 2 2] paginate_window [of "[1, 2, 3 :: nat]" 2305843009213693953 100]
  by (simp add: wrap64_def Let_def numeral_2_eq_2)

section \<open>The graph of friends\<close>

definition accepted_between :: "db \<Rightarrow> uuid \<Rightarrow> uuid \<Rightarrow> bool" where
  "accepted_between d a b \<longleftrightarrow>
     (\<exists>q \<in> set (friend_requests d). fr_status q = ''accepted'' \<and>
        (from_user_id q = a \<and> to_user_id q = b \<or> from_user_id q = b \<and> to_user_id q = a))"

definition social_ok :: "db \<Rightarrow> bool" where
  "social_ok d \<longleftrightarrow>
     distinct (friendships d) \<and> distinct (map fr_id (friend_requests d)) \<and>
     (\<forall>p \<in> set (friendships d). fst p < snd p \<and> accepted_between d (fst p) (snd p))"

lemma social_ok_cong:
  assumes "friendships d' = friendships d" and "friend_requests d' = friend_requests d"
  shows "keeping social_ok d d'"
  using assms unfolding keeping_def social_ok_def accepted_between_def by (simp only:) simp

interpretation social_frame: table_frame "keeping social_ok"
proof
  show "keeping social_ok d (d\<lparr>outcomes := xs\<rparr>)" for d xs by (rule social_ok_cong) simp_all
qed

lemma insert_event_social: "insert_event i ty a p d = Inr (e, d') \<Longrightarrow> keeping social_ok d d'"
  by (rule social_ok_cong) (auto simp: insert_event_def Let_def split: if_splits)

lemma insert_inbox_social: "insert_inbox i e u d = Inr (x, d') \<Longrightarrow> keeping social_ok d d'"
  by (rule social_ok_cong) (auto simp: insert_inbox_def split: if_splits)

lemma insert_block_social: "insert_block p d = Inr (x, d') \<Longrightarrow> keeping social_ok d d'"
  by (rule social_ok_cong) (auto simp: insert_block_def split: if_splits)

lemma insert_request_social:
  assumes "insert_request i a b d = Inr (x, d')"
  shows "keeping social_ok d d'"
proof (cases "friend_requests d' = friend_requests d")
  case True
  with assms show ?thesis by (intro social_ok_cong) (auto simp: insert_request_def Let_def split: if_splits)
next
  case False
  then obtain q where q: "friend_requests d' = friend_requests d @ [q]" "fr_id q \<notin> fr_id ` set (friend_requests d)" "friendships d' = friendships d"
    using assms by (auto simp: insert_request_def Let_def split: if_splits)
  then have "accepted_between d a b \<Longrightarrow> accepted_between d' a b" for a b by (auto simp: accepted_between_def)
  with q show ?thesis by (auto simp: keeping_def social_ok_def)
qed

lemma send_request_social: "obeys (keeping social_ok) (send_request L ids a b)"
  unfolding send_request_def are_friends_def
  by (intro social_frame.table_intros social_frame.obeys_transaction social_frame.obeys_query)
     (auto dest: insert_request_social insert_event_social insert_inbox_social)

lemma fewer_friends: "social_ok d \<Longrightarrow> social_ok (d\<lparr>friendships := filter P (friendships d)\<rparr>)"
  unfolding social_ok_def accepted_between_def by simp

lemma remove_friend_social: "obeys (keeping social_ok) (remove_friend a b)"
  unfolding remove_friend_def
  by (intro social_frame.table_intros social_frame.obeys_execute) (simp add: keeping_def fewer_friends)

lemma block_social: "obeys (keeping social_ok) (block a b)"
  unfolding block_def
  by (intro social_frame.table_intros social_frame.obeys_query remove_friend_social insert_block_social)

lemma unblock_social: "obeys (keeping social_ok) (unblock a b)"
  unfolding unblock_def
  by (intro social_frame.table_intros social_frame.obeys_execute) (rule social_ok_cong, simp_all)

lemma answered_ok:
  assumes ok: "social_ok d" and q: "q \<in> set (friend_requests d)" "fr_id q = i" "fr_status q = ''pending''"
  shows "social_ok (answered i st d)"
proof -
  have "accepted_between (answered i st d) a b" if "accepted_between d a b" for a b
  proof -
    from that obtain r where r: "r \<in> set (friend_requests d)" "fr_status r = ''accepted''"
        "from_user_id r = a \<and> to_user_id r = b \<or> from_user_id r = b \<and> to_user_id r = a" by (auto simp: accepted_between_def)
    have "inj_on fr_id (set (friend_requests d))" using ok by (simp add: social_ok_def distinct_map)
    then have "r = q" if "fr_id r = i" by (rule inj_onD) (use that r q in simp_all)
    with r(2) q(3) have "fr_id r \<noteq> i" by fastforce
    with r(1) have "r \<in> set (friend_requests (answered i st d))" unfolding answered_def
      by (auto intro!: rev_image_eqI [of r])
    with r show ?thesis by (auto simp: accepted_between_def)
  qed
  moreover have "map fr_id (friend_requests (answered i st d)) = map fr_id (friend_requests d)" by (auto simp: answered_def)
  moreover have "friendships (answered i st d) = friendships d" by (simp add: answered_def)
  ultimately show ?thesis using ok unfolding social_ok_def by simp
qed

lemma answered_accepts:
  assumes "q \<in> set (friend_requests d)" and "fr_id q = i"
  shows "accepted_between (answered i ''accepted'' d) (from_user_id q) (to_user_id q)"
proof -
  have "q\<lparr>fr_status := ''accepted'', responded_at := Some (clock d)\<rparr> \<in> set (friend_requests (answered i ''accepted'' d))"
    using assms unfolding answered_def by (auto intro!: rev_image_eqI [of q])
  then show ?thesis unfolding accepted_between_def by (rule rev_bexI) simp
qed

lemma accepted_pair: "accepted_between d (fst (normalize_pair a b)) (snd (normalize_pair a b)) \<longleftrightarrow> accepted_between d a b"
  by (auto simp: accepted_between_def normalize_pair_def)

lemma insert_friendship_ok:
  assumes ok: "social_ok d" and p: "accepted_between d (fst p) (snd p)" and ins: "insert_friendship p d = Inr (x, d')"
  shows "social_ok d'"
proof (cases "p \<in> set (friendships d)")
  case True
  with ok ins show ?thesis by (auto simp: insert_friendship_def split: if_splits)
next
  case False
  with ins have d': "d' = d\<lparr>friendships := friendships d @ [p]\<rparr>" "fst p < snd p"
    by (auto simp: insert_friendship_def split: if_splits)
  then have "accepted_between d' a b = accepted_between d a b" for a b by (simp add: accepted_between_def)
  with ok p False d' show ?thesis by (simp add: social_ok_def)
qed

lemma accepted_outcomes [simp]: "accepted_between (d\<lparr>outcomes := xs\<rparr>) a b = accepted_between d a b"
  by (simp add: accepted_between_def)

lemma social_outcomes [simp]: "social_ok (d\<lparr>outcomes := xs\<rparr>) = social_ok d"
  by (simp add: social_ok_def accepted_between_def)

definition answer_body :: "friend_request \<Rightarrow> bool \<Rightarrow> (db, api_error, unit) comp" where
  "answer_body q accept =
     andthen (map_err social_db_err (execute (answered (fr_id q) (if accept then ''accepted'' else ''declined''))))
    (if accept then map_err social_db_err (query (insert_friendship (normalize_pair (from_user_id q) (to_user_id q)))) else ret ())"

lemma answer_body_ok:
  assumes ok: "social_ok d" and q: "q \<in> set (friend_requests d)" "fr_status q = ''pending''"
    and run: "answer_body q accept d = (Inr (), d')"
  shows "social_ok d'"
proof -
  let ?st = "if accept then ''accepted'' else ''declined''"
  from run obtain d1 where e: "execute (answered (fr_id q) ?st) d = (Inr (), d1)"
    and r: "(if accept then query (insert_friendship (normalize_pair (from_user_id q) (to_user_id q))) d1 = (Inr (), d') else d' = d1)"
    by (auto simp: answer_body_def runs split: if_splits)
  from execute_InrD [OF e] obtain xs where d1: "d1 = answered (fr_id q) ?st (d\<lparr>outcomes := xs\<rparr>)" by blast
  have ok1: "social_ok d1" unfolding d1 by (rule answered_ok [of _ q]) (use ok q in simp_all)
  show ?thesis
  proof (cases accept)
    case True
    have a: "accepted_between d1 (from_user_id q) (to_user_id q)"
      unfolding d1 using answered_accepts [of q "d\<lparr>outcomes := xs\<rparr>" "fr_id q"] q True by simp
    from True r obtain ys where "insert_friendship (normalize_pair (from_user_id q) (to_user_id q)) (d1\<lparr>outcomes := ys\<rparr>) = Inr ((), d')"
      using query_InrD by fastforce
    then show ?thesis
      by (rule insert_friendship_ok [rotated 2]) (use ok1 a in \<open>simp_all add: accepted_pair\<close>)
  next
    case False
    with r ok1 show ?thesis by simp
  qed
qed

lemma respond_request_social: "obeys (keeping social_ok) (respond_request i me accept)"
  unfolding obeys_def keeping_def
proof (intro allI impI)
  fix d assume ok: "social_ok d"
  obtain x d1 where g: "get_request i d = (x, d1)" by (cases "get_request i d")
  have read: "\<exists>xs. d1 = d\<lparr>outcomes := xs\<rparr>"
    using g select_state [of "\<lambda>d. find (\<lambda>q. fr_id q = i) (friend_requests d)" d]
    by (auto simp: get_request_def map_err_def split: prod.splits sum.splits)
  show "social_ok (snd (respond_request i me accept d))"
  proof (cases "\<exists>q. x = Inr (Some q) \<and> to_user_id q = me \<and> fr_status q = ''pending''")
    case False
    with g have "snd (respond_request i me accept d) = d1"
      by (auto simp: respond_request_def bnd_def some_or_def throw_def ret_def andthen_def ensure_def split: sum.splits option.splits)
    with read ok show ?thesis by auto
  next
    case True
    then obtain q where q: "x = Inr (Some q)" "to_user_id q = me" "fr_status q = ''pending''" by blast
    from g q(1) have "find (\<lambda>q. fr_id q = i) (friend_requests d) = Some q"
      by (auto simp: get_request_def dest!: select_InrD)
    then have qd: "q \<in> set (friend_requests d)" "fr_id q = i" using find_SomeD by fastforce+
    have "respond_request i me accept d = transaction social_db_err (answer_body q accept) d1"
      using g q qd(2) by (simp add: respond_request_def bnd_def some_or_def ret_def andthen_def ensure_def answer_body_def)
    then obtain r t where t: "transaction social_db_err (answer_body q accept) d1 = (r, t)" "snd (respond_request i me accept d) = t"
      by (cases "transaction social_db_err (answer_body q accept) d1") simp
    from t(1) have "social_ok t"
    proof (cases rule: transaction_cases)
      case (undone e xs)
      with read ok show ?thesis by auto
    next
      case (finished xs a d2 ys)
      have "social_ok d2" by (rule answer_body_ok [of "d1\<lparr>outcomes := xs\<rparr>" q accept]) (use read ok qd q finished in auto)
      with finished show ?thesis by simp
    qed
    with t show ?thesis by simp
  qed
qed

section \<open>Histories\<close>

inductive social_step :: "db \<Rightarrow> db \<Rightarrow> bool" where
  asked: "social_step d (snd (send_request L ids a b d))"
| responded: "social_step d (snd (respond_request i me accept d))"
| unfriended: "social_step d (snd (remove_friend a b d))"
| blocked: "social_step d (snd (block a b d))"
| unblocked: "social_step d (snd (unblock a b d))"

interpretation social_system: invariant_system social_ok social_step social_ok
proof
  show "social_ok d'" if "social_ok d" "social_step d d'" for d d'
    using that(2,1)
    by cases (use obeysD [OF send_request_social] obeysD [OF respond_request_social] obeysD [OF remove_friend_social]
        obeysD [OF block_social] obeysD [OF unblock_social] in \<open>auto simp: keeping_def\<close>)
qed simp

lemma calm_list_friends:
  "outcomes d = [] \<Longrightarrow> list_friends u d =
     (Inr (map (\<lambda>p. if fst p = u then snd p else fst p) (filter (\<lambda>p. fst p = u \<or> snd p = u) (friendships d))), d)"
  by (simp add: list_friends_def map_err_def)

lemma friend_listed:
  assumes "social_ok d"
  shows "v \<in> (\<lambda>p. if fst p = u then snd p else fst p) ` {p \<in> set (friendships d). fst p = u \<or> snd p = u} \<longleftrightarrow> friends_rows d u v"
  using assms by (force simp: social_ok_def friends_rows_def image_iff)


definition pals_db :: db where
  "pals_db = demo_db\<lparr>friend_requests := [\<lparr>fr_id = 1, from_user_id = 7, to_user_id = 8, fr_status = ''accepted'',
     fr_created_at = 0, responded_at = Some 1\<rparr>], friendships := [(7, 8)]\<rparr>"


section \<open>Blocks\<close>

lemma calm_block:
  assumes "outcomes d = []" and "a \<noteq> b" and "known_user d a" and "known_user d b"
  obtains bs where "(a, b) \<in> set bs"
    and "block a b d = (Inr (), d\<lparr>user_blocks := bs, friendships := filter (\<lambda>p. p \<noteq> normalize_pair a b) (friendships d)\<rparr>)"
proof
  let ?bs = "if (a, b) \<in> set (user_blocks d) then user_blocks d else user_blocks d @ [(a, b)]"
  show "(a, b) \<in> set ?bs" by simp
  show "block a b d = (Inr (), d\<lparr>user_blocks := ?bs, friendships := filter (\<lambda>p. p \<noteq> normalize_pair a b) (friendships d)\<rparr>)"
    using assms
    by (auto simp: block_def remove_friend_def insert_block_def query_calm map_err_def andthen_def bnd_def ensure_def ret_def ignore_def)
qed

lemma calm_accept:
  assumes calm: "outcomes d = []" and q: "find (\<lambda>r. fr_id r = i) (friend_requests d) = Some q" "to_user_id q = me" "fr_status q = ''pending''"
    and u: "from_user_id q \<noteq> me" "known_user d (from_user_id q)" "known_user d me"
    and new: "normalize_pair (from_user_id q) me \<notin> set (friendships d)"
  shows "respond_request i me True d =
    (Inr (), answered i ''accepted'' d\<lparr>friendships := friendships d @ [normalize_pair (from_user_id q) me]\<rparr>)"
proof -
  have p: "fst (normalize_pair (from_user_id q) me) < snd (normalize_pair (from_user_id q) me)"
      "known_user d' (fst (normalize_pair (from_user_id q) me)) \<and> known_user d' (snd (normalize_pair (from_user_id q) me)) \<longleftrightarrow>
         known_user d' (from_user_id q) \<and> known_user d' me" for d'
    using u by (auto simp: normalize_pair_def)
  then have "insert_friendship (normalize_pair (from_user_id q) me) (answered i ''accepted'' d) =
      Inr ((), answered i ''accepted'' d\<lparr>friendships := friendships d @ [normalize_pair (from_user_id q) me]\<rparr>)"
    using u new by (simp add: insert_friendship_def answered_def known_user_def)
  moreover have "outcomes (answered i ''accepted'' d) = []" using calm by (simp add: answered_def)
  ultimately show ?thesis using calm q
    by (simp add: respond_request_def get_request_def transaction_def map_err_def bnd_def some_or_def ret_def andthen_def ensure_def query_calm)
qed

text \<open>A block does not stop a request that is still open. A user who asked for a friendship and then
  blocks the other becomes that user's friend all the same when the other accepts: the answer looks
  at the request alone, and the block stays in place beside the friendship.\<close>

theorem block_bypassed:
  assumes "outcomes d = []" and "social_ok d"
    and "find (\<lambda>r. fr_id r = i) (friend_requests d) = Some q" and "fr_status q = ''pending''"
    and "from_user_id q \<noteq> to_user_id q" and "known_user d (from_user_id q)" and "known_user d (to_user_id q)"
  shows "\<exists>d1 d2. block (from_user_id q) (to_user_id q) d = (Inr (), d1) \<and> \<not> friends_rows d1 (from_user_id q) (to_user_id q) \<and>
    respond_request i (to_user_id q) True d1 = (Inr (), d2) \<and> is_blocked (from_user_id q) (to_user_id q) d2 = (Inr True, d2) \<and>
    are_friends (from_user_id q) (to_user_id q) d2 = (Inr True, d2)"
proof -
  let ?a = "from_user_id q" and ?b = "to_user_id q"
  from assms obtain bs where bs: "(?a, ?b) \<in> set bs"
    and run: "block ?a ?b d = (Inr (), d\<lparr>user_blocks := bs, friendships := filter (\<lambda>p. p \<noteq> normalize_pair ?a ?b) (friendships d)\<rparr>)"
      (is "_ = (Inr (), ?d1)")
    using calm_block by blast
  let ?d2 = "answered i ''accepted'' ?d1\<lparr>friendships := friendships ?d1 @ [normalize_pair ?a ?b]\<rparr>"
  have "respond_request i ?b True ?d1 = (Inr (), ?d2)"
    by (rule calm_accept) (use assms in \<open>simp_all add: known_user_def\<close>)
  moreover have "\<not> friends_rows ?d1 ?a ?b"
  proof -
    have "x < y" if "(x, y) \<in> set (friendships d)" for x y using assms(2) that by (auto simp: social_ok_def)
    then show ?thesis by (auto simp: friends_rows_def normalize_pair_def dest: order.strict_implies_not_eq order.strict_trans)
  qed
  moreover have "is_blocked ?a ?b ?d2 = (Inr True, ?d2)" using bs assms(1) by (simp add: is_blocked_def map_err_def answered_def)
  moreover have "are_friends ?a ?b ?d2 = (Inr True, ?d2)"
    using assms(1) by (simp add: are_friends_def map_err_def answered_def friends_rows_def normalize_pair_def)
  ultimately show ?thesis using run by blast
qed

definition asked_db :: db where
  "asked_db = demo_db\<lparr>users := users demo_db @ [\<lparr>u_id = 8, phira_id = 800, username_cache = ''bob'', avatar_cache = [],
       u_status = ''active'', u_created_at = 0, u_updated_at = 0, u_last_seen_at = None\<rparr>],
     friend_requests := [\<lparr>fr_id = 1, from_user_id = 7, to_user_id = 8, fr_status = ''pending'', fr_created_at = 0, responded_at = None\<rparr>]\<rparr>"

theorem block_bypassed_witness:
  "\<exists>d1 d2. block 7 8 asked_db = (Inr (), d1) \<and> respond_request 1 8 True d1 = (Inr (), d2) \<and> is_blocked 7 8 d2 = (Inr True, d2) \<and>
    are_friends 7 8 d2 = (Inr True, d2)"
  using block_bypassed [of asked_db 1 "hd (friend_requests asked_db)"]
  by (auto simp: asked_db_def demo_db_def empty_db_def social_ok_def known_user_def)

end
