(* ===== verification/Coupons.thy ===== *)
theory Coupons
  imports Social Group_Routes
begin

text \<open>
  Redemption codes (\<^verbatim>\<open>admin/coupons.rs\<close>): creating and revoking them, and redeeming one, which runs its
  action in the same transaction that counts the use. Generated ids and the random draws of a new
  code are arguments.
\<close>

section \<open>Codes and actions\<close>

definition to_ascii_upper :: "char \<Rightarrow> char" where
  "to_ascii_upper c = (let n = of_char c :: nat in if 97 \<le> n \<and> n \<le> 122 then char_of (n - 32) else c)"

definition normalize_code :: "string \<Rightarrow> string" where
  "normalize_code v = map to_ascii_upper (trim v)"

definition CODE_LETTERS :: string where
  "CODE_LETTERS = ''ABCDEFGHJKLMNPQRSTUVWXYZ23456789''"

text \<open>Each of the twelve draws is an index into the letters.\<close>

definition generate_code :: "nat list \<Rightarrow> string" where
  "generate_code draws = map (\<lambda>i. CODE_LETTERS ! i) draws"

definition coupon_db_err :: "sqlx_error \<Rightarrow> api_error" where
  "coupon_db_err e = internal"

definition is_object :: "json \<Rightarrow> bool" where
  "is_object v \<longleftrightarrow> as_object v \<noteq> None"

definition validate_action :: "string \<Rightarrow> json \<Rightarrow> api_error + unit" where
  "validate_action kind args =
     (if \<not> is_object args then Inl (validation ''redemption args must be object'')
      else if kind = ''account_unlock'' \<or> kind = ''admin_alert'' then Inr ()
      else if kind = ''account_role'' then
        (if string_field args ''group_id'' \<noteq> None \<or> string_field args ''group_name'' \<noteq> None then Inr ()
         else Inl (validation ''group target required''))
      else if kind = ''custom_hook'' then
        (if string_field args ''hook_id'' = Some ''notification.self'' then Inr ()
         else Inl (api_error_new RedemptionActionUnsupported ''unsupported redemption hook''))
      else Inl (api_error_new RedemptionActionUnsupported ''unsupported redemption action''))"

section \<open>Administration\<close>

record create_coupon_body =
  cc_code :: string
  cc_action_type :: string
  cc_args :: json
  cc_holder_mode :: string
  cc_holder_phira_id :: "int option"
  cc_note :: string
  cc_max_uses :: "int option"
  cc_expires_at :: "instant option"

text \<open>The columns have a unique code, a holder mode of two values, and references to users.\<close>

definition insert_coupon :: "coupon \<Rightarrow> coupon statement" where
  "insert_coupon c d =
     (if cp_code c \<in> cp_code ` set (coupons d) \<or> cp_id c \<in> cp_id ` set (coupons d) then Inl UniqueViolation
      else if cp_holder_mode c \<noteq> ''creator'' \<and> cp_holder_mode c \<noteq> ''manual'' then Inl CheckViolation
      else if (\<exists>u. cp_created_by c = Some u \<and> \<not> known_user d u) \<or> (\<exists>u. cp_holder_user_id c = Some u \<and> \<not> known_user d u)
      then Inl ForeignKeyViolation
      else let row = c\<lparr>cp_created_at := clock d\<rparr> in Inr (row, d\<lparr>coupons := coupons d @ [row]\<rparr>))"

definition coupon_conflict :: "sqlx_error \<Rightarrow> api_error" where
  "coupon_conflict e =
     (if e = UniqueViolation then api_error_new ResourceConflict ''redemption code already exists'' else coupon_db_err e)"

definition holder_of :: "auth_principal \<Rightarrow> create_coupon_body \<Rightarrow> (db, api_error, uuid option) comp" where
  "holder_of a b =
     (if cc_holder_mode b = ''creator'' then
        (if is_root a then throw (validation ''root cannot be redemption holder'') else ret (Some (sub a)))
      else case cc_holder_phira_id b of
          Some p \<Rightarrow>
            bnd (find_by_phira_id p) (\<lambda>u.
            bnd (some_or u (api_error_new UserNotFound ''user not found'')) (\<lambda>u. ret (Some (u_id u))))
        | None \<Rightarrow> ret None)"

definition new_coupon :: "uuid \<Rightarrow> nat list \<Rightarrow> auth_principal \<Rightarrow> create_coupon_body \<Rightarrow> int \<Rightarrow> uuid option \<Rightarrow> coupon" where
  "new_coupon i draws a b uses holder =
     \<lparr>cp_id = i, cp_code = normalize_code (if trim (cc_code b) = [] then generate_code draws else cc_code b),
      cp_action_type = cc_action_type b, cp_payload = (if cc_args b = JNull then JObj [] else cc_args b), cp_max_uses = uses,
      cp_used_count = 0, cp_created_by = (if is_root a then None else Some (sub a)), cp_created_at = 0, cp_revoked_at = None,
      cp_holder_mode = cc_holder_mode b, cp_holder_user_id = holder, cp_note = trim (cc_note b), cp_expires_at = cc_expires_at b\<rparr>"

definition create_coupon ::
  "instant \<Rightarrow> uuid \<Rightarrow> nat list \<Rightarrow> auth_principal \<Rightarrow> create_coupon_body \<Rightarrow> (db option, api_error, coupon) comp" where
  "create_coupon now i draws a b =
     guarded a ''coupon:create'' (Inr ())
       (andthen (from_result (validate_action (cc_action_type b) (cc_args b)))
       (if cc_holder_mode b \<noteq> ''creator'' \<and> cc_holder_mode b \<noteq> ''manual'' then throw (validation ''invalid holder mode'')
        else let uses = unwrap_or (cc_max_uses b) 1 in
          if uses \<le> 0 then throw (validation ''max uses must be positive'')
          else if \<exists>t. cc_expires_at b = Some t \<and> t \<le> now then throw (validation ''expiry must be in future'')
          else
            bnd (holder_of a b) (\<lambda>holder.
            map_err coupon_conflict (query (insert_coupon (new_coupon i draws a b uses holder))))))"

text \<open>The number of rows that were revoked.\<close>

definition revoke_row :: "uuid \<Rightarrow> nat statement" where
  "revoke_row i d =
     (let hit = (\<lambda>c. cp_id c = i \<and> cp_revoked_at c = None) in
      Inr (length (filter hit (coupons d)),
           d\<lparr>coupons := map (\<lambda>c. if hit c then c\<lparr>cp_revoked_at := Some (clock d)\<rparr> else c) (coupons d)\<rparr>))"

definition revoke_coupon :: "auth_principal \<Rightarrow> uuid \<Rightarrow> (db option, api_error, unit) comp" where
  "revoke_coupon a i =
     guarded a ''coupon:revoke'' (Inr ())
       (bnd (map_err coupon_db_err (query (revoke_row i))) (\<lambda>n.
        if n = 0 then throw (api_error_new RedemptionCodeNotFound ''redemption code not found'') else ret ()))"

definition coupon_status :: "instant \<Rightarrow> coupon \<Rightarrow> string" where
  "coupon_status now c =
     (if cp_revoked_at c \<noteq> None then ''revoked''
      else if \<exists>t. cp_expires_at c = Some t \<and> t \<le> now then ''expired''
      else if cp_max_uses c \<le> cp_used_count c then ''redeemed''
      else ''active'')"

record coupon_list =
  col_items :: "(coupon \<times> string) list"
  col_total :: int
  col_page :: int
  col_page_num :: int

definition newest_coupons :: "int \<Rightarrow> int \<Rightarrow> coupon list statement" where
  "newest_coupons n off d =
     (if off < 0 then Inl InvalidStatement
      else Inr (take (nat n) (drop (nat off) (rev (sort_key cp_created_at (coupons d)))), d))"

definition list_coupons :: "instant \<Rightarrow> auth_principal \<Rightarrow> int option \<Rightarrow> int option \<Rightarrow> (db option, api_error, coupon_list) comp" where
  "list_coupons now a page page_num =
     guarded a ''coupon:view'' (Inr ())
       (let p = max (unwrap_or page 1) 1; n = max 1 (min 100 (unwrap_or page_num 50)) in
        bnd (map_err coupon_db_err (select (\<lambda>d. int (length (coupons d))))) (\<lambda>total.
        bnd (map_err coupon_db_err (query (newest_coupons n (wrap64 ((p - 1) * n))))) (\<lambda>rows.
        ret \<lparr>col_items = map (\<lambda>c. (c, coupon_status now c)) rows, col_total = total, col_page = p, col_page_num = n\<rparr>)))"

section \<open>Redeeming\<close>

definition redeemed_title :: string where
  "redeemed_title = bytes [229, 133, 145, 230, 141, 162, 230, 136, 144, 229, 138, 159]"

definition redeemed_body :: string where
  "redeemed_body =
     bytes [229, 133, 145, 230, 141, 162, 231, 160, 129, 229, 165, 150, 229, 138, 177, 229, 183, 178, 229, 143, 145, 230, 148, 190, 227, 128, 130]"

definition unlock_user :: "uuid \<Rightarrow> db \<Rightarrow> db" where
  "unlock_user u d = d\<lparr>users := map (\<lambda>x. if u_id x = u then x\<lparr>u_status := ''active'', u_updated_at := clock d\<rparr> else x) (users d)\<rparr>"

text \<open>\<open>ON CONFLICT DO NOTHING\<close>.\<close>

definition join_group :: "uuid \<Rightarrow> uuid \<Rightarrow> unit statement" where
  "join_group g u d =
     (if (g, u) \<in> set (group_members d) then Inr ((), d)
      else if g \<notin> g_id ` set (groups d) \<or> \<not> known_user d u then Inl ForeignKeyViolation
      else Inr ((), d\<lparr>group_members := group_members d @ [(g, u)]\<rparr>))"

definition insert_task :: "uuid \<Rightarrow> uuid \<Rightarrow> string \<Rightarrow> json \<Rightarrow> uuid statement" where
  "insert_task i source ty payload d =
     (if i \<in> at_id ` set (admin_tasks d) then Inl UniqueViolation
      else Inr (i, d\<lparr>admin_tasks := admin_tasks d @
        [\<lparr>at_id = i, at_source = ''coupon'', at_source_id = Some source, at_type = ty, at_status = ''pending'', at_payload = payload,
          at_created_by = None, at_created_at = clock d, at_completed_at = None\<rparr>]\<rparr>))"

definition group_target :: "libs \<Rightarrow> json \<Rightarrow> (db, api_error, group) comp" where
  "group_target L args =
     bnd (case string_field args ''group_id'' of
            Some raw \<Rightarrow>
              (case uuid_parse L raw of
                 None \<Rightarrow> throw (validation ''invalid group id'')
               | Some i \<Rightarrow> map_err coupon_db_err (select (\<lambda>d. find (\<lambda>g. g_id g = i) (groups d))))
          | None \<Rightarrow> map_err coupon_db_err (select (\<lambda>d. find (\<lambda>g. g_name g = unwrap_or (string_field args ''group_name'') []) (groups d)))) (\<lambda>g.
     some_or g (api_error_new GroupNotFound ''group not found''))"

definition administrators :: "group \<Rightarrow> bool" where
  "administrators g \<longleftrightarrow> system_kind g = Some ''admin_scope'' \<or> to_ascii_lowercase (g_name g) = to_ascii_lowercase ''Administrators''"

text \<open>The ids drawn by one redemption: of an admin task, of an event and of an inbox row.\<close>

record redeem_ids =
  ri_task :: uuid
  ri_event :: uuid
  ri_inbox :: uuid

definition redeem_action :: "libs \<Rightarrow> redeem_ids \<Rightarrow> uuid \<Rightarrow> uuid \<Rightarrow> string \<Rightarrow> json \<Rightarrow> (db, api_error, json) comp" where
  "redeem_action L ids u coupon kind args =
     (if kind = ''account_unlock'' then
        andthen (map_err coupon_db_err (execute (unlock_user u))) (ret (JObj [(''status'', JStr ''active'')]))
      else if kind = ''account_role'' then
        bnd (group_target L args) (\<lambda>g.
        if administrators g then throw permission_denied
        else andthen (map_err coupon_db_err (query (join_group (g_id g) u)))
               (ret (JObj [(''group_id'', JStr (uuid_text L (g_id g))), (''group_name'', JStr (g_name g))])))
      else if kind = ''admin_alert'' then
        (let ty = unwrap_or (string_field args ''task_type'') ''redemption_review'' in
         bnd (map_err coupon_db_err (query (insert_task (ri_task ids) coupon ty
           (JObj [(''coupon_id'', JStr (uuid_text L coupon)), (''redeemed_by'', JStr (uuid_text L u)), (''args'', args)])))) (\<lambda>i.
         ret (JObj [(''admin_task_id'', JStr (uuid_text L i)), (''task_type'', JStr ty)])))
      else if kind = ''custom_hook'' then
        bnd (map_err coupon_db_err (query (insert_event (ri_event ids) ''redemption.completed'' None
          (JObj [(''type'', JStr ''redemption.completed''), (''priority'', JStr ''normal''),
             (''title'', JStr (unwrap_or (string_field args ''title'') redeemed_title)),
             (''body'', JStr (unwrap_or (string_field args ''body'') redeemed_body)), (''actions'', JArr [])])))) (\<lambda>e.
        andthen (map_err coupon_db_err (query (insert_inbox (ri_inbox ids) (ev_id e) u)))
          (ret (JObj [(''notification_event_id'', JStr (uuid_text L (ev_id e)))])))
      else throw (api_error_new RedemptionActionUnsupported ''unsupported redemption action''))"

definition count_use :: "uuid \<Rightarrow> db \<Rightarrow> db" where
  "count_use i d = d\<lparr>coupons := map (\<lambda>c. if cp_id c = i then c\<lparr>cp_used_count := cp_used_count c + 1\<rparr> else c) (coupons d)\<rparr>"

definition insert_redemption :: "redemption \<Rightarrow> unit statement" where
  "insert_redemption r d =
     (if \<exists>q \<in> set (coupon_redemptions d). rd_coupon_id q = rd_coupon_id r \<and> rd_user_id q = rd_user_id r then Inl UniqueViolation
      else if rd_coupon_id r \<notin> cp_id ` set (coupons d) \<or> \<not> known_user d (rd_user_id r) then Inl ForeignKeyViolation
      else Inr ((), d\<lparr>coupon_redemptions := coupon_redemptions d @ [r]\<rparr>))"

definition redeemable :: "instant \<Rightarrow> uuid \<Rightarrow> coupon \<Rightarrow> api_error + unit" where
  "redeemable now u c =
     (if cp_revoked_at c \<noteq> None then Inl (api_error_new RedemptionCodeRevoked ''redemption code revoked'')
      else if \<exists>t. cp_expires_at c = Some t \<and> t \<le> now then Inl (api_error_new RedemptionCodeExpired ''redemption code expired'')
      else if cp_max_uses c \<le> cp_used_count c then Inl (api_error_new RedemptionCodeLimitReached ''redemption code limit reached'')
      else if cp_holder_user_id c \<noteq> None \<and> cp_holder_user_id c \<noteq> Some u then Inl permission_denied
      else if cp_holder_mode c = ''creator'' \<and> cp_holder_user_id c \<noteq> Some u then Inl permission_denied
      else Inr ())"

definition used_before :: "uuid \<Rightarrow> uuid \<Rightarrow> db \<Rightarrow> bool" where
  "used_before i u d \<longleftrightarrow> (\<exists>r \<in> set (coupon_redemptions d). rd_coupon_id r = i \<and> rd_user_id r = u)"

definition redeem_tx :: "libs \<Rightarrow> redeem_ids \<Rightarrow> instant \<Rightarrow> uuid \<Rightarrow> string \<Rightarrow> (db, api_error, string \<times> json) comp" where
  "redeem_tx L ids now u cd =
     bnd (map_err coupon_db_err (select (\<lambda>d. find (\<lambda>c. cp_code c = cd) (coupons d)))) (\<lambda>row.
     bnd (some_or row (api_error_new RedemptionCodeNotFound ''redemption code not found'')) (\<lambda>c.
     andthen (from_result (redeemable now u c))
    (bnd (map_err coupon_db_err (select (used_before (cp_id c) u))) (\<lambda>prior.
     if prior then throw (api_error_new RedemptionCodeAlreadyUsed ''redemption code already used'')
     else
       andthen (from_result (validate_action (cp_action_type c) (cp_payload c)))
      (bnd (redeem_action L ids u (cp_id c) (cp_action_type c) (cp_payload c)) (\<lambda>res.
       andthen (map_err coupon_db_err (execute (count_use (cp_id c))))
      (andthen (map_err coupon_db_err (query (insert_redemption
         \<lparr>rd_coupon_id = cp_id c, rd_user_id = u, rd_action_type = cp_action_type c, rd_result = res, rd_redeemed_at = now\<rparr>)))
       (ret (cp_action_type c, res)))))))))"

definition redeem ::
  "libs \<Rightarrow> redeem_ids \<Rightarrow> instant \<Rightarrow> auth_principal \<Rightarrow> string \<Rightarrow> (db option, api_error, string \<times> json) comp" where
  "redeem L ids now a raw =
     (if is_root a then throw permission_denied
      else let cd = normalize_code raw in
        if cd = [] then throw (validation ''code required'')
        else with_db (transaction coupon_db_err (redeem_tx L ids now (sub a) cd)))"

section \<open>Uses are counted and bounded\<close>

definition coupon_uses :: "db \<Rightarrow> uuid \<Rightarrow> nat" where
  "coupon_uses d i = length (filter (\<lambda>r. rd_coupon_id r = i) (coupon_redemptions d))"

definition coupons_sound :: "db \<Rightarrow> bool" where
  "coupons_sound d \<longleftrightarrow>
     distinct (map cp_id (coupons d)) \<and> distinct (map cp_code (coupons d)) \<and>
     distinct (map (\<lambda>r. (rd_coupon_id r, rd_user_id r)) (coupon_redemptions d)) \<and>
     (\<forall>r \<in> set (coupon_redemptions d). rd_coupon_id r \<in> cp_id ` set (coupons d)) \<and>
     (\<forall>c \<in> set (coupons d). cp_used_count c = int (coupon_uses d (cp_id c)) \<and> cp_used_count c \<le> cp_max_uses c)"

definition coupon_tables :: "db \<Rightarrow> coupon list \<times> redemption list" where
  "coupon_tables d = (coupons d, coupon_redemptions d)"

lemma coupons_sound_tables: "coupon_tables d' = coupon_tables d \<Longrightarrow> coupons_sound d' = coupons_sound d"
  by (simp add: coupons_sound_def coupon_tables_def coupon_uses_def)

lemma coupon_tables_outcomes [simp]: "coupon_tables (d\<lparr>outcomes := xs\<rparr>) = coupon_tables d"
  by (simp add: coupon_tables_def)

interpretation coupon_reader: table_frame "same coupon_tables"
  by unfold_locales (auto simp: same_def)

lemma coupons_sound_outcomes [simp]: "coupons_sound (d\<lparr>outcomes := xs\<rparr>) = coupons_sound d"
  by (rule coupons_sound_tables) simp

interpretation coupon_keeper: table_frame "keeping coupons_sound"
  by unfold_locales (auto simp: keeping_def)

lemma redeem_action_tables: "obeys (same coupon_tables) (redeem_action L ids u i kind args)"
proof -
  have "\<And>g d x d'. join_group g u d = Inr (x, d') \<Longrightarrow> same coupon_tables d d'"
    "\<And>j ty p d x d'. insert_task j i ty p d = Inr (x, d') \<Longrightarrow> same coupon_tables d d'"
    "\<And>j ty p d x d'. insert_event j ty None p d = Inr (x, d') \<Longrightarrow> same coupon_tables d d'"
    "\<And>j e d x d'. insert_inbox j e u d = Inr (x, d') \<Longrightarrow> same coupon_tables d d'"
    "\<And>d. same coupon_tables d (unlock_user u d)"
    by (auto simp: join_group_def insert_task_def insert_event_def insert_inbox_def unlock_user_def same_def coupon_tables_def Let_def
        split: if_splits)
  then show ?thesis
    unfolding redeem_action_def group_target_def Let_def
    by (intro same_frame.obeys_if same_frame.obeys_intros coupon_reader.obeys_query coupon_reader.obeys_execute coupon_reader.obeys_select
        same_frame.obeys_case_option) auto
qed

text \<open>The statements of a successful redemption.\<close>

lemma redeem_tx_split:
  assumes "redeem_tx L ids now u cd d = (Inr x, t)"
  obtains c d0 d1 res d2 k d3 m where
    "select (\<lambda>d. find (\<lambda>c. cp_code c = cd) (coupons d)) d = (Inr (Some c), d0)"
    "redeemable now u c = Inr ()"
    "select (used_before (cp_id c) u) d0 = (Inr False, d1)"
    "redeem_action L ids u (cp_id c) (cp_action_type c) (cp_payload c) d1 = (Inr res, d2)"
    "execute (count_use (cp_id c)) d2 = (Inr k, d3)"
    "query (insert_redemption \<lparr>rd_coupon_id = cp_id c, rd_user_id = u, rd_action_type = cp_action_type c, rd_result = res,
        rd_redeemed_at = now\<rparr>) d3 = (Inr m, t)"
  using assms unfolding redeem_tx_def by (auto simp: runs split: if_splits)

text \<open>What it found, and what it did to the two tables.\<close>

lemma redeem_tx_runs:
  assumes "redeem_tx L ids now u cd d = (Inr x, t)"
  shows "\<exists>c xs d1 res. find (\<lambda>c. cp_code c = cd) (coupons d) = Some c \<and> redeemable now u c = Inr () \<and> \<not> used_before (cp_id c) u d \<and>
    redeem_action L ids u (cp_id c) (cp_action_type c) (cp_payload c) (d\<lparr>outcomes := xs\<rparr>) = (Inr res, d1) \<and>
    coupons t = coupons (count_use (cp_id c) d) \<and>
    coupon_redemptions t = coupon_redemptions d @
      [\<lparr>rd_coupon_id = cp_id c, rd_user_id = u, rd_action_type = cp_action_type c, rd_result = res, rd_redeemed_at = now\<rparr>]"
  using assms
proof (rule redeem_tx_split)
  fix c d0 d1 res d2 k d3 m
  assume row: "select (\<lambda>d. find (\<lambda>c. cp_code c = cd) (coupons d)) d = (Inr (Some c), d0)" and ok: "redeemable now u c = Inr ()"
    and prior: "select (used_before (cp_id c) u) d0 = (Inr False, d1)"
    and act: "redeem_action L ids u (cp_id c) (cp_action_type c) (cp_payload c) d1 = (Inr res, d2)"
    and count: "execute (count_use (cp_id c)) d2 = (Inr k, d3)"
    and ins: "query (insert_redemption \<lparr>rd_coupon_id = cp_id c, rd_user_id = u, rd_action_type = cp_action_type c, rd_result = res,
        rd_redeemed_at = now\<rparr>) d3 = (Inr m, t)"
  from select_InrD [OF row] obtain xs where d0: "d0 = d\<lparr>outcomes := xs\<rparr>" and c: "find (\<lambda>c. cp_code c = cd) (coupons d) = Some c" by auto
  from select_InrD [OF prior] d0 obtain ys where d1: "d1 = d\<lparr>outcomes := ys\<rparr>" and "\<not> used_before (cp_id c) u d"
    by (auto simp: used_before_def)
  moreover have "coupon_tables d2 = coupon_tables d"
    using obeys_run [OF redeem_action_tables act] d1 by (simp add: same_def)
  moreover from execute_InrD [OF count] obtain zs where "d3 = count_use (cp_id c) (d2\<lparr>outcomes := zs\<rparr>)" by blast
  moreover from query_InrD [OF ins] obtain ws where
    "coupons t = coupons (d3\<lparr>outcomes := ws\<rparr>)" "coupon_redemptions t = coupon_redemptions d3 @
      [\<lparr>rd_coupon_id = cp_id c, rd_user_id = u, rd_action_type = cp_action_type c, rd_result = res, rd_redeemed_at = now\<rparr>]"
    by (auto simp: insert_redemption_def split: if_splits)
  ultimately show ?thesis
    using c ok act by (intro exI [of _ c] exI [of _ ys] exI [of _ d2] exI [of _ res]) (auto simp: coupon_tables_def count_use_def)
qed

lemma redeem_tx_sound:
  assumes sound: "coupons_sound d" and run: "redeem_tx L ids now u cd d = (Inr x, t)"
  shows "coupons_sound t"
proof -
  from redeem_tx_runs [OF run] obtain c res where
    c: "find (\<lambda>c. cp_code c = cd) (coupons d) = Some c" and ok: "redeemable now u c = Inr ()" and new: "\<not> used_before (cp_id c) u d" and
    cs: "coupons t = coupons (count_use (cp_id c) d)" and
    rs: "coupon_redemptions t = coupon_redemptions d @
      [\<lparr>rd_coupon_id = cp_id c, rd_user_id = u, rd_action_type = cp_action_type c, rd_result = res, rd_redeemed_at = now\<rparr>]"
    by blast
  let ?put = "\<lambda>x :: coupon. if cp_id x = cp_id c then x\<lparr>cp_used_count := cp_used_count x + 1\<rparr> else x"
  have put: "coupons t = map ?put (coupons d)" using cs by (simp add: count_use_def)
  have cols: "map cp_id (map ?put rs) = map cp_id rs" "map cp_code (map ?put rs) = map cp_code rs" for rs by simp_all
  have mem: "c \<in> set (coupons d)" using c by (auto dest: find_SomeD)
  have room: "cp_used_count c < cp_max_uses c" using ok by (auto simp: redeemable_def split: if_splits)
  have one: "x = c" if "x \<in> set (coupons d)" "cp_id x = cp_id c" for x
    using sound that mem by (auto simp: coupons_sound_def distinct_map inj_on_def)
  have uses: "coupon_uses t i = coupon_uses d i + (if i = cp_id c then 1 else 0)" for i by (simp add: coupon_uses_def rs)
  have "cp_used_count y = int (coupon_uses t (cp_id y)) \<and> cp_used_count y \<le> cp_max_uses y" if "y \<in> set (coupons t)" for y
  proof -
    from that put obtain x where x: "x \<in> set (coupons d)" "y = ?put x" by auto
    with sound have "cp_used_count x = int (coupon_uses d (cp_id x))" "cp_used_count x \<le> cp_max_uses x" by (auto simp: coupons_sound_def)
    with x uses room one [OF x(1)] show ?thesis by auto
  qed
  moreover have "distinct (map cp_id (coupons t)) \<and> distinct (map cp_code (coupons t))"
    unfolding put cols using sound by (simp add: coupons_sound_def)
  moreover have "distinct (map (\<lambda>r. (rd_coupon_id r, rd_user_id r)) (coupon_redemptions t))"
    using sound new by (auto simp: rs coupons_sound_def used_before_def)
  moreover have "cp_id ` set (coupons t) = cp_id ` set (coupons d)"
    using arg_cong [OF cols(1) [of "coupons d"], of set] unfolding put set_map by (simp only:)
  then have "\<forall>r \<in> set (coupon_redemptions t). rd_coupon_id r \<in> cp_id ` set (coupons t)"
    using sound mem by (auto simp: rs coupons_sound_def)
  ultimately show ?thesis unfolding coupons_sound_def by blast
qed

lemma insert_coupon_sound:
  assumes "coupons_sound d" and "insert_coupon c d = Inr (row, d')" and "cp_used_count c = 0" and "0 < cp_max_uses c"
  shows "coupons_sound d'"
proof -
  from assms(2) have d': "d' = d\<lparr>coupons := coupons d @ [c\<lparr>cp_created_at := clock d\<rparr>]\<rparr>"
    and fresh: "cp_code c \<notin> cp_code ` set (coupons d)" "cp_id c \<notin> cp_id ` set (coupons d)"
    by (auto simp: insert_coupon_def Let_def split: if_splits)
  have "\<forall>r \<in> set (coupon_redemptions d). rd_coupon_id r \<noteq> cp_id c"
    using assms(1) fresh(2) unfolding coupons_sound_def by metis
  then have "coupon_uses d (cp_id c) = 0" by (simp add: coupon_uses_def filter_empty_conv)
  moreover have "coupon_uses d' i = coupon_uses d i" for i by (simp add: d' coupon_uses_def)
  ultimately show ?thesis using assms(1,3,4) fresh by (auto simp: d' coupons_sound_def)
qed

lemma revoke_row_sound:
  assumes "coupons_sound d" and "revoke_row i d = Inr (n, d')"
  shows "coupons_sound d'"
proof -
  let ?put = "\<lambda>c :: coupon. if cp_id c = i \<and> cp_revoked_at c = None then c\<lparr>cp_revoked_at := Some (clock d)\<rparr> else c"
  from assms(2) have d': "d' = d\<lparr>coupons := map ?put (coupons d)\<rparr>" by (simp add: revoke_row_def Let_def)
  have cols: "map cp_id (map ?put cs) = map cp_id cs" "map cp_code (map ?put cs) = map cp_code cs" for cs by simp_all
  have "cp_id ` set (coupons d') = cp_id ` set (coupons d)"
    using arg_cong [OF cols(1) [of "coupons d"], of set] unfolding d' by (simp del: map_map)
  moreover have "map cp_id (coupons d') = map cp_id (coupons d)" "map cp_code (coupons d') = map cp_code (coupons d)"
    unfolding d' using cols by simp_all
  moreover have "cp_used_count y = int (coupon_uses d' (cp_id y)) \<and> cp_used_count y \<le> cp_max_uses y" if "y \<in> set (coupons d')" for y
    using that assms(1) by (auto simp: d' coupons_sound_def coupon_uses_def split: if_splits)
  moreover have "coupon_redemptions d' = coupon_redemptions d" by (simp add: d')
  ultimately show ?thesis using assms(1) unfolding coupons_sound_def by (metis (no_types, lifting))
qed

lemma revoke_coupon_sound:
  "obeys (keeping coupons_sound) (bnd (map_err coupon_db_err (query (revoke_row i))) (\<lambda>n.
        if n = 0 then throw (api_error_new RedemptionCodeNotFound ''redemption code not found'') else ret ()))"
  by (intro keeping_frame.obeys_intros coupon_keeper.obeys_query) (auto simp: keeping_def dest: revoke_row_sound)

lemma create_coupon_sound:
  "obeys (keeping coupons_sound)
     (andthen (from_result (validate_action (cc_action_type b) (cc_args b)))
       (if cc_holder_mode b \<noteq> ''creator'' \<and> cc_holder_mode b \<noteq> ''manual'' then throw (validation ''invalid holder mode'')
        else let uses = unwrap_or (cc_max_uses b) 1 in
          if uses \<le> 0 then throw (validation ''max uses must be positive'')
          else if \<exists>t. cc_expires_at b = Some t \<and> t \<le> now then throw (validation ''expiry must be in future'')
          else
            bnd (holder_of a b) (\<lambda>holder.
            map_err coupon_conflict (query (insert_coupon (new_coupon i draws a b uses holder))))))"
proof -
  have ins: "obeys (keeping coupons_sound) (query (insert_coupon (new_coupon i draws a b uses holder)))" if "\<not> uses \<le> 0" for uses holder
    using that by (intro coupon_keeper.obeys_query) (auto simp: keeping_def new_coupon_def dest: insert_coupon_sound)
  have holder: "obeys (keeping coupons_sound) (holder_of a b)"
    unfolding holder_of_def find_by_phira_id_def
    by (intro keeping_frame.obeys_intros keeping_frame.obeys_case_option coupon_keeper.obeys_select)
  show ?thesis
    unfolding Let_def
    by (intro keeping_frame.obeys_andthen keeping_frame.obeys_from_result) (auto intro!: keeping_frame.obeys_intros ins holder)
qed

text \<open>Requests of any callers in any order, with a connection that may fail at any statement; between
  them the rest of the application changes other tables.\<close>

inductive coupon_step :: "db \<Rightarrow> db \<Rightarrow> bool" where
  created: "create_coupon now i draws a b (Some d) = (r, Some d') \<Longrightarrow> coupon_step d d'"
| revoked: "revoke_coupon a i (Some d) = (r, Some d') \<Longrightarrow> coupon_step d d'"
| redeemed: "redeem L ids now a raw (Some d) = (r, Some d') \<Longrightarrow> coupon_step d d'"
| elsewhere: "coupon_tables d' = coupon_tables d \<Longrightarrow> coupon_step d d'"

lemma guarded_keeps:
  assumes "obeys (keeping coupons_sound) m" and "guarded a p q m (Some d) = (r, Some d')" and "coupons_sound d"
  shows "coupons_sound d'"
proof -
  obtain x s1 where g: "require a p (Some d) = (x, s1)" by fastforce
  then have "pool_untouched (Some d) s1" using obeys_run [OF require_reads] by blast
  then obtain xs where s1: "s1 = Some (d\<lparr>outcomes := xs\<rparr>)" by (auto simp: pool_untouched_def untouched_def split: option.splits)
  show ?thesis
  proof (cases "\<exists>u v. x = Inr u \<and> q = Inr v")
    case True
    then have "m (d\<lparr>outcomes := xs\<rparr>) = (r, d')"
      using assms(2) g s1 by (auto simp: guarded_def andthen_def bnd_def from_result_def with_db_def split: prod.splits)
    from keepingD [OF assms(1) this] assms(3) show ?thesis by simp
  next
    case False
    then have "d' = d\<lparr>outcomes := xs\<rparr>"
      using assms(2) g s1 by (cases x; cases q) (auto simp: guarded_def andthen_def bnd_def from_result_def)
    with assms(3) show ?thesis by simp
  qed
qed

lemma redeem_keeps:
  assumes "redeem L ids now a raw (Some d) = (r, Some d')" and "coupons_sound d"
  shows "coupons_sound d'"
proof (cases "is_root a \<or> normalize_code raw = []")
  case True
  with assms show ?thesis by (auto simp: redeem_def throw_def Let_def split: if_splits)
next
  case False
  then have "transaction coupon_db_err (redeem_tx L ids now (sub a) (normalize_code raw)) d = (r, d')"
    using assms(1) by (auto simp: redeem_def Let_def with_db_def split: prod.splits)
  then show ?thesis
    by (cases rule: transaction_cases) (use assms(2) redeem_tx_sound in \<open>auto dest!: redeem_tx_sound [rotated]\<close>)
qed

lemma coupon_step_sound:
  assumes "coupons_sound d" and "coupon_step d d'"
  shows "coupons_sound d'"
  using assms(2)
proof cases
  case (created now i draws a b r)
  then show ?thesis using guarded_keeps [OF create_coupon_sound _ assms(1)] by (simp add: create_coupon_def)
next
  case (revoked a i r)
  then show ?thesis using guarded_keeps [OF revoke_coupon_sound _ assms(1)] by (simp add: revoke_coupon_def)
next
  case (redeemed L ids now a raw r)
  then show ?thesis using redeem_keeps assms(1) by blast
next
  case elsewhere
  with assms(1) show ?thesis using coupons_sound_tables by blast
qed

definition no_coupons :: "db \<Rightarrow> bool" where
  "no_coupons d \<longleftrightarrow> coupons d = [] \<and> coupon_redemptions d = []"

lemma no_coupons_sound: "no_coupons d \<Longrightarrow> coupons_sound d"
  by (simp add: no_coupons_def coupons_sound_def)

interpretation coupon_system: invariant_system no_coupons coupon_step coupons_sound
  by unfold_locales (fact no_coupons_sound, fact coupon_step_sound)

text \<open>C32: After any history of requests, a code has been redeemed at most as often as it allows, and at most
  once by each user.\<close>

theorem coupon_uses_bounded:
  assumes "reachable no_coupons coupon_step d" and "c \<in> set (coupons d)"
  shows "int (coupon_uses d (cp_id c)) \<le> cp_max_uses c \<and>
    (\<forall>u. length (filter (\<lambda>r. rd_coupon_id r = cp_id c \<and> rd_user_id r = u) (coupon_redemptions d)) \<le> 1)"
proof -
  have sound: "coupons_sound d" by (rule coupon_system.reachable_inv [OF assms(1)])
  have "length (filter (\<lambda>r. f r = k) rs) \<le> 1" if "distinct (map f rs)" for f :: "redemption \<Rightarrow> uuid \<times> uuid" and k rs
    using that by (induction rs) (auto simp: filter_empty_conv image_iff)
  from this [of "\<lambda>r. (rd_coupon_id r, rd_user_id r)" "coupon_redemptions d" "(cp_id c, u)" for u] sound
  have "\<forall>u. length (filter (\<lambda>r. rd_coupon_id r = cp_id c \<and> rd_user_id r = u) (coupon_redemptions d)) \<le> 1"
    by (simp add: coupons_sound_def)
  with sound assms(2) show ?thesis by (auto simp: coupons_sound_def)
qed

section \<open>What a redemption can do\<close>

lemma group_target_runs:
  assumes "group_target L args d = (Inr g, d')"
  shows "g \<in> set (groups d) \<and> (\<exists>xs. d' = d\<lparr>outcomes := xs\<rparr>)"
  using assms
  by (auto simp: group_target_def bnd_runs throw_def split: option.splits dest!: select_InrD dest: find_SomeD [OF sym])

text \<open>Memberships that were there before, and those of the redeeming user in groups that are not the
  administrators'.\<close>

definition joins_plain_groups :: "uuid \<Rightarrow> db \<Rightarrow> db \<Rightarrow> bool" where
  "joins_plain_groups u d d' \<longleftrightarrow>
     (\<forall>m \<in> set (group_members d'). m \<in> set (group_members d) \<or> (\<exists>g \<in> set (groups d). m = (g_id g, u) \<and> \<not> administrators g))"

interpretation member_reader: table_frame "same group_members"
  by unfold_locales (auto simp: same_def)

lemma other_actions_members:
  assumes "kind \<noteq> ''account_role''"
  shows "obeys (same group_members) (redeem_action L ids u i kind args)"
proof -
  have "\<And>j ty p d x d'. insert_task j i ty p d = Inr (x, d') \<Longrightarrow> same group_members d d'"
    "\<And>j ty p d x d'. insert_event j ty None p d = Inr (x, d') \<Longrightarrow> same group_members d d'"
    "\<And>j e d x d'. insert_inbox j e u d = Inr (x, d') \<Longrightarrow> same group_members d d'"
    "\<And>d. same group_members d (unlock_user u d)"
    by (auto simp: insert_task_def insert_event_def insert_inbox_def unlock_user_def same_def Let_def split: if_splits)
  then show ?thesis
    unfolding redeem_action_def Let_def if_not_P [OF assms]
    by (intro same_frame.obeys_if same_frame.obeys_intros member_reader.obeys_query member_reader.obeys_execute) auto
qed

lemma redeem_action_members:
  assumes "redeem_action L ids u i kind args d = (Inr res, d')"
  shows "joins_plain_groups u d d'"
proof (cases "kind = ''account_role''")
  case True
  then obtain g d1 v where g: "group_target L args d = (Inr g, d1)" "\<not> administrators g"
      and q: "query (join_group (g_id g) u) d1 = (Inr v, d')"
    using assms by (auto simp: redeem_action_def runs split: if_splits)
  from query_InrD [OF q] group_target_runs [OF g(1)] g(2) show ?thesis
    by (auto simp: joins_plain_groups_def join_group_def split: if_splits)
next
  case False
  then have "group_members d' = group_members d"
    using obeys_run [OF other_actions_members assms] by (simp add: same_def)
  then show ?thesis by (simp add: joins_plain_groups_def)
qed

lemma redeem_tx_members:
  assumes "redeem_tx L ids now u cd d = (Inr x, t)"
  shows "joins_plain_groups u d t"
  using assms
proof (rule redeem_tx_split)
  fix c d0 d1 res d2 k d3 m
  assume row: "select (\<lambda>d. find (\<lambda>c. cp_code c = cd) (coupons d)) d = (Inr (Some c), d0)"
    and prior: "select (used_before (cp_id c) u) d0 = (Inr False, d1)"
    and act: "redeem_action L ids u (cp_id c) (cp_action_type c) (cp_payload c) d1 = (Inr res, d2)"
    and count: "execute (count_use (cp_id c)) d2 = (Inr k, d3)"
    and ins: "query (insert_redemption \<lparr>rd_coupon_id = cp_id c, rd_user_id = u, rd_action_type = cp_action_type c, rd_result = res,
        rd_redeemed_at = now\<rparr>) d3 = (Inr m, t)"
  from select_InrD [OF row] select_InrD [OF prior] obtain ys where "d1 = d\<lparr>outcomes := ys\<rparr>" by auto
  moreover from execute_InrD [OF count] obtain zs where "d3 = count_use (cp_id c) (d2\<lparr>outcomes := zs\<rparr>)" by blast
  moreover from query_InrD [OF ins] have "group_members t = group_members d3" by (auto simp: insert_redemption_def split: if_splits)
  ultimately show ?thesis using redeem_action_members [OF act] by (simp add: joins_plain_groups_def count_use_def)
qed

text \<open>A redemption that succeeds used a code that was live, below its limit, meant for its user and new to
  them; it counted the use; and it put nobody into a group except its user, and that not into the
  administrators.\<close>

theorem redeem_sound:
  assumes "redeem L ids now a raw (Some d) = (Inr x, Some t)"
  shows "\<not> is_root a \<and> joins_plain_groups (sub a) d t \<and>
    (\<exists>c \<in> set (coupons d). cp_code c = normalize_code raw \<and> cp_revoked_at c = None \<and> (\<forall>e. cp_expires_at c = Some e \<longrightarrow> now < e) \<and>
       cp_used_count c < cp_max_uses c \<and> (cp_holder_user_id c = None \<or> cp_holder_user_id c = Some (sub a)) \<and>
       \<not> used_before (cp_id c) (sub a) d \<and> used_before (cp_id c) (sub a) t \<and> coupons t = coupons (count_use (cp_id c) d))"
proof -
  from assms have "\<not> is_root a" and tx: "transaction coupon_db_err (redeem_tx L ids now (sub a) (normalize_code raw)) d = (Inr x, t)"
    by (auto simp: redeem_def throw_def Let_def with_db_def split: if_splits prod.splits)
  from tx show ?thesis
  proof (cases rule: transaction_cases)
    case (finished xs y d2 ys)
    from redeem_tx_runs [OF finished(1)] obtain c res where
      c: "find (\<lambda>c. cp_code c = normalize_code raw) (coupons d) = Some c" "redeemable now (sub a) c = Inr ()" "\<not> used_before (cp_id c) (sub a) d"
      and t: "coupons d2 = coupons (count_use (cp_id c) d)" "coupon_redemptions d2 = coupon_redemptions d @
        [\<lparr>rd_coupon_id = cp_id c, rd_user_id = sub a, rd_action_type = cp_action_type c, rd_result = res, rd_redeemed_at = now\<rparr>]"
      by (auto simp: count_use_def used_before_def)
    have "joins_plain_groups (sub a) d t"
      using redeem_tx_members [OF finished(1)] finished(2) by (simp add: joins_plain_groups_def)
    moreover have "used_before (cp_id c) (sub a) t" "coupons t = coupons (count_use (cp_id c) d)"
      using t finished(2) by (simp_all add: used_before_def count_use_def)
    ultimately show ?thesis
      using c \<open>\<not> is_root a\<close> by (intro conjI bexI [of _ c]) (auto simp: redeemable_def not_le dest: find_SomeD split: if_splits)
  qed simp
qed

section \<open>An example\<close>

text \<open>A user whose only permission is to create codes, and a group whose members may assign groups.\<close>

definition promo_db :: db where
  "promo_db = sample_db\<lparr>groups := [new_group 1 ''Promo'' [], new_group 2 ''Staff'' []], group_members := [(1, 7)],
     group_permissions := [(1, ''coupon:create''), (2, ''group:assign_user'')]\<rparr>"

definition role_body :: create_coupon_body where
  "role_body = \<lparr>cc_code = ''C'', cc_action_type = ''account_role'', cc_args = JObj [(''group_name'', JStr ''Staff'')], cc_holder_mode = ''manual'',
     cc_holder_phira_id = None, cc_note = [], cc_max_uses = None, cc_expires_at = None\<rparr>"

definition role_coupon :: coupon where
  "role_coupon = \<lparr>cp_id = 50, cp_code = ''C'', cp_action_type = ''account_role'', cp_payload = JObj [(''group_name'', JStr ''Staff'')],
     cp_max_uses = 1, cp_used_count = 0, cp_created_by = Some 7, cp_created_at = 0, cp_revoked_at = None, cp_holder_mode = ''manual'',
     cp_holder_user_id = None, cp_note = [], cp_expires_at = None\<rparr>"

definition some_ids :: redeem_ids where
  "some_ids = \<lparr>ri_task = 51, ri_event = 52, ri_inbox = 53\<rparr>"

lemma promo_granted: "granted promo_db 7 = {''coupon:create''}"
proof -
  have "member_groups promo_db 7 = {new_group 1 ''Promo'' []}"
    by (auto simp: member_groups_def promo_db_def sample_db_def empty_db_def new_group_def)
  then show ?thesis by (auto simp: granted_def promo_db_def ROOT_WILDCARD_def new_group_def)
qed

lemma promo_creates:
  "create_coupon 0 50 [] demo_principal role_body (Some promo_db) = (Inr role_coupon, Some (promo_db\<lparr>coupons := [role_coupon]\<rparr>))"
proof -
  have "normalize_code ''C'' = ''C''" "trim ''C'' = ''C''" by code_simp+
  moreover have "has_permission demo_principal ''coupon:create'' (Some promo_db) = (Inr True, Some promo_db)"
    by (rule has_permission_granted)
      (simp_all add: demo_principal_def is_root_def promo_granted, simp add: promo_db_def sample_db_def empty_db_def)
  then have "require demo_principal ''coupon:create'' (Some promo_db) = (Inr (), Some promo_db)"
    by (simp add: require_def bnd_def ret_def)
  ultimately show ?thesis
    by (simp add: create_coupon_def guarded_def comp_defs with_db_def role_body_def validate_action_def is_object_def string_field_def get_field_def
        Let_def holder_of_def query_calm insert_coupon_def new_coupon_def demo_principal_def is_root_def known_user_def promo_db_def sample_db_def
        empty_db_def role_coupon_def)
qed

definition staffed_db :: db where
  "staffed_db = promo_db\<lparr>coupons := [role_coupon\<lparr>cp_used_count := 1\<rparr>], group_members := [(1, 7), (2, 7)],
     coupon_redemptions := [\<lparr>rd_coupon_id = 50, rd_user_id = 7, rd_action_type = ''account_role'',
       rd_result = JObj [(''group_id'', JStr (uuid_text alice_libs 2)), (''group_name'', JStr ''Staff'')], rd_redeemed_at = 0\<rparr>]\<rparr>"

lemma promo_redeems:
  "redeem alice_libs some_ids 0 demo_principal ''c'' (Some (promo_db\<lparr>coupons := [role_coupon]\<rparr>)) =
     (Inr (''account_role'', JObj [(''group_id'', JStr (uuid_text alice_libs 2)), (''group_name'', JStr ''Staff'')]), Some staffed_db)"
proof -
  have "normalize_code ''c'' = ''C''" "to_ascii_lowercase ''Staff'' = ''staff''" "to_ascii_lowercase ''Administrators'' = ''administrators''"
    by code_simp+
  then show ?thesis
    by (simp add: redeem_def demo_principal_def is_root_def Let_def with_db_def transaction_def redeem_tx_def comp_defs redeemable_def
        role_coupon_def used_before_def validate_action_def is_object_def string_field_def get_field_def redeem_action_def group_target_def
        administrators_def query_calm join_group_def count_use_def insert_redemption_def known_user_def promo_db_def sample_db_def
        empty_db_def new_group_def staffed_db_def)
qed

lemma staffed_granted: "''group:assign_user'' \<in> granted staffed_db 7"
  by (auto simp: granted_def member_groups_def staffed_db_def promo_db_def sample_db_def empty_db_def new_group_def ROOT_WILDCARD_def)

theorem coupon_uses_bounded_witness:
  "int (coupon_uses staffed_db 50) \<le> 1 \<and>
   (\<forall>u. length (filter (\<lambda>r. rd_coupon_id r = 50 \<and> rd_user_id r = u) (coupon_redemptions staffed_db)) \<le> 1)"
proof -
  have "no_coupons promo_db" by (simp add: no_coupons_def promo_db_def sample_db_def empty_db_def)
  then have "reachable no_coupons coupon_step promo_db" by (rule reachable.start)
  from this coupon_step.created [OF promo_creates] have "reachable no_coupons coupon_step (promo_db\<lparr>coupons := [role_coupon]\<rparr>)"
    by (rule reachable.move)
  from this coupon_step.redeemed [OF promo_redeems] have "reachable no_coupons coupon_step staffed_db" by (rule reachable.move)
  moreover have "role_coupon\<lparr>cp_used_count := 1\<rparr> \<in> set (coupons staffed_db)" by (simp add: staffed_db_def)
  ultimately show ?thesis using coupon_uses_bounded [of staffed_db "role_coupon\<lparr>cp_used_count := 1\<rparr>"] by (simp add: role_coupon_def)
qed

theorem redeem_sound_witness: "joins_plain_groups 7 (promo_db\<lparr>coupons := [role_coupon]\<rparr>) staffed_db"
  using redeem_sound [OF promo_redeems] by (simp add: demo_principal_def)

text \<open>A code is a way around the group interface: a caller whose only permission is to create codes makes
  one for a group, redeems it without reauthenticating, and has the permissions of that group, here
  the one to assign groups.\<close>

theorem coupon_grants_group:
  "\<exists>c d1 x d2. create_coupon 0 50 [] demo_principal role_body (Some promo_db) = (Inr c, Some d1) \<and>
    redeem alice_libs some_ids 0 demo_principal ''c'' (Some d1) = (Inr x, Some d2) \<and>
    \<not> may (Some promo_db) demo_principal ''group:assign_user'' \<and> may (Some d2) demo_principal ''group:assign_user''"
proof -
  have "\<not> may (Some promo_db) demo_principal ''group:assign_user''"
    by (simp add: may_def promo_granted demo_principal_def is_root_def)
  moreover have "may (Some staffed_db) demo_principal ''group:assign_user''"
    using staffed_granted by (simp add: may_def demo_principal_def)
  ultimately show ?thesis using promo_creates promo_redeems by blast
qed

end
