(* ===== verification/Config_Routes.thy ===== *)
theory Config_Routes
  imports Actions Config_Repo "HOL-Library.Sublist"
begin

text \<open>
  Editing the configuration of the game server (\<^verbatim>\<open>config/pmp.rs\<close>, \<^verbatim>\<open>config/routes.rs\<close>): the descriptor of its
  fields, the patch of its YAML file, validation, differences, saving with a snapshot, rolling back, and
  the build configuration of the frontend. The YAML library is a parameter: parsing and printing, and
  the conversion to JSON. The texts for display are left out of the descriptor.
\<close>

section \<open>The descriptor\<close>

record config_field =
  cf_path :: string
  cf_type :: string
  cf_widget :: string
  cf_risk :: string
  cf_permission :: string
  cf_reload :: string
  cf_sensitive :: bool
  cf_order :: nat

definition describe_field :: "string \<Rightarrow> string \<Rightarrow> string \<Rightarrow> string \<Rightarrow> bool \<Rightarrow> nat \<Rightarrow> config_field" where
  "describe_field p w r reload sens n =
     \<lparr>cf_path = p, cf_type = (if w = ''switch'' then ''boolean'' else if w = ''number'' then ''number'' else ''string''), cf_widget = w, cf_risk = r,
      cf_permission = (if reload = ''hot'' then ''config:reload'' else ''config:rollback''), cf_reload = reload, cf_sensitive = sens, cf_order = n\<rparr>"

definition pmp_config_descriptor :: "config_field list" where
  "pmp_config_descriptor = [
     describe_field ''server_name'' ''text'' ''low'' ''hot'' False 1,
     describe_field ''welcome'' ''text'' ''low'' ''hot'' False 2,
     describe_field ''chat_enabled'' ''switch'' ''low'' ''hot'' False 10,
     describe_field ''chat_history_limit'' ''number'' ''low'' ''hot'' False 11,
     describe_field ''port'' ''number'' ''high'' ''restart'' False 20,
     describe_field ''http_port'' ''number'' ''high'' ''restart'' False 21,
     describe_field ''max_rooms'' ''number'' ''medium'' ''restart'' False 30,
     describe_field ''max_users_per_room'' ''number'' ''medium'' ''restart'' False 31,
     describe_field ''room_creation_enabled'' ''switch'' ''medium'' ''hot'' False 32,
     describe_field ''ready_countdown_secs'' ''number'' ''low'' ''hot'' False 33,
     describe_field ''max_sessions'' ''number'' ''high'' ''restart'' False 40,
     describe_field ''graceful_shutdown_timeout_secs'' ''number'' ''low'' ''restart'' False 41,
     describe_field ''log_retention_days'' ''number'' ''low'' ''restart'' False 50,
     describe_field ''phira_api_endpoint'' ''text'' ''high'' ''restart'' False 60,
     describe_field ''database_url'' ''text'' ''critical'' ''restart'' True 70,
     describe_field ''admin_phira_ids'' ''text'' ''high'' ''hot'' False 80,
     describe_field ''filtered_player_ids'' ''text'' ''medium'' ''hot'' False 90,
     describe_field ''openuds.enabled'' ''switch'' ''high'' ''restart'' False 100,
     describe_field ''openuds.socket_path'' ''text'' ''high'' ''restart'' False 101,
     describe_field ''openuds.auth_token'' ''text'' ''critical'' ''restart'' True 102]"

definition group_key_of :: "config_field \<Rightarrow> string" where
  "group_key_of f =
     (let p = cf_path f in
      if p \<in> {''server_name'', ''welcome'', ''graceful_shutdown_timeout_secs''} then ''server''
      else if p \<in> {''chat_enabled'', ''chat_history_limit''} then ''chat''
      else if p \<in> {''port'', ''http_port''} then ''network''
      else if p \<in> {''max_rooms'', ''max_users_per_room'', ''room_creation_enabled'', ''ready_countdown_secs''} then ''room''
      else if p = ''max_sessions'' then ''limit''
      else if p = ''log_retention_days'' then ''log''
      else if p = ''phira_api_endpoint'' then ''phira''
      else if p = ''database_url'' then ''database''
      else if p = ''admin_phira_ids'' then ''admin''
      else if p = ''filtered_player_ids'' then ''moderation''
      else ''openuds'')"

fun add_to_group :: "config_field \<Rightarrow> (string \<times> config_field list) list \<Rightarrow> (string \<times> config_field list) list" where
  "add_to_group f [] = [(group_key_of f, [f])]"
| "add_to_group f ((k, fs) # gs) = (if k = group_key_of f then (k, fs @ [f]) # gs else (k, fs) # add_to_group f gs)"

definition pmp_config_groups :: "(string \<times> config_field list) list" where
  "pmp_config_groups = map (\<lambda>g. (fst g, sort_key cf_order (snd g))) (fold add_to_group pmp_config_descriptor [])"

section \<open>YAML\<close>

datatype yaml = YNull | YBool bool | YInt int | YFloat string | YStr string | YSeq "yaml list" | YMap "(yaml \<times> yaml) list"

record yaml_libs =
  y_parse :: "string \<Rightarrow> string + yaml"
  y_print :: "yaml \<Rightarrow> string + string"
  y_json :: "yaml \<Rightarrow> json option"
  y_float :: "json \<Rightarrow> string option"

definition yget :: "yaml \<Rightarrow> string \<Rightarrow> yaml option" where
  "yget v k = (case v of YMap m \<Rightarrow> map_of m (YStr k) | _ \<Rightarrow> None)"

text \<open>Insertion keeps the place of a key that is there.\<close>

fun yput :: "yaml \<Rightarrow> yaml \<Rightarrow> (yaml \<times> yaml) list \<Rightarrow> (yaml \<times> yaml) list" where
  "yput k v [] = [(k, v)]"
| "yput k v (e # m) = (if fst e = k then (k, v) # m else e # yput k v m)"

fun ypath :: "yaml \<Rightarrow> string list \<Rightarrow> yaml option" where
  "ypath v [] = Some v"
| "ypath v (k # ks) = (case yget v k of Some c \<Rightarrow> ypath c ks | None \<Rightarrow> None)"

definition path_parts :: "config_field \<Rightarrow> string list" where
  "path_parts f = split_on (CHR ''.'') (cf_path f)"

definition field_value :: "yaml_libs \<Rightarrow> string \<Rightarrow> config_field \<Rightarrow> yaml option" where
  "field_value L yaml f = (case y_parse L yaml of Inr v \<Rightarrow> ypath v (path_parts f) | Inl _ \<Rightarrow> None)"

fun json_to_yaml :: "yaml_libs \<Rightarrow> json \<Rightarrow> yaml" where
  "json_to_yaml L JNull = YNull"
| "json_to_yaml L (JBool b) = YBool b"
| "json_to_yaml L (JInt n) =
     (if i64_range n then YInt n else case y_float L (JInt n) of Some s \<Rightarrow> YFloat s | None \<Rightarrow> YNull)"
| "json_to_yaml L (JNum s) = (case y_float L (JNum s) of Some t \<Rightarrow> YFloat t | None \<Rightarrow> YNull)"
| "json_to_yaml L (JStr s) = YStr s"
| "json_to_yaml L (JArr xs) = YSeq (map (json_to_yaml L) xs)"
| "json_to_yaml L (JObj kvs) = YMap (map (\<lambda>e. (YStr (fst e), json_to_yaml L (snd e))) kvs)"

definition config_invalid :: "string \<Rightarrow> api_error" where
  "config_invalid m = api_error_new ConfigValidationFailed m"

fun set_yaml_path :: "yaml \<Rightarrow> string list \<Rightarrow> yaml \<Rightarrow> api_error + yaml" where
  "set_yaml_path root [] w = Inr root"
| "set_yaml_path (YMap m) [k] w = Inr (YMap (yput (YStr k) w m))"
| "set_yaml_path (YMap m) (k # k' # ks) w =
     (let m1 = (if map_of m (YStr k) = None then yput (YStr k) (YMap []) m else m) in
      case map_of m1 (YStr k) of
        None \<Rightarrow> Inl (config_invalid (''nested path conflict at '' @ k))
      | Some child \<Rightarrow>
          (case set_yaml_path child (k' # ks) w of Inl e \<Rightarrow> Inl e | Inr c \<Rightarrow> Inr (YMap (yput (YStr k) c m1))))"
| "set_yaml_path root (k # ks) w = Inl (config_invalid ''existing config segment is not a mapping'')"

definition redacted_sentinel :: "json \<Rightarrow> bool" where
  "redacted_sentinel v \<longleftrightarrow> (case as_string v of Some s \<Rightarrow> to_ascii_lowercase s = ''[redacted]'' | None \<Rightarrow> False)"

text \<open>The value that the user gave for a field, unless it is the placeholder of a sensitive one.\<close>

definition given_value :: "json \<Rightarrow> config_field \<Rightarrow> json option" where
  "given_value values f =
     (case get_field values (cf_path f) of
        Some v \<Rightarrow> if cf_sensitive f \<and> redacted_sentinel v then None else Some v
      | None \<Rightarrow> None)"

fun patch_fields :: "yaml_libs \<Rightarrow> json \<Rightarrow> config_field list \<Rightarrow> yaml \<Rightarrow> api_error + yaml" where
  "patch_fields L values [] root = Inr root"
| "patch_fields L values (f # fs) root =
     (case given_value values f of
        None \<Rightarrow> patch_fields L values fs root
      | Some v \<Rightarrow>
          (case set_yaml_path root (path_parts f) (json_to_yaml L v) of
             Inl e \<Rightarrow> Inl e
           | Inr root1 \<Rightarrow> patch_fields L values fs root1))"

definition merge_yaml_patch :: "yaml_libs \<Rightarrow> string \<Rightarrow> json \<Rightarrow> api_error + string" where
  "merge_yaml_patch L current values =
     (case y_parse L current of
        Inl e \<Rightarrow> Inl (config_invalid (''existing config is not valid YAML: '' @ e))
      | Inr root \<Rightarrow>
          if as_object values = None then Inl (config_invalid ''values must be an object'')
          else
            (case patch_fields L values pmp_config_descriptor root of
               Inl e \<Rightarrow> Inl e
             | Inr v \<Rightarrow>
                 (case y_print L v of Inl e \<Rightarrow> Inl (config_invalid (''yaml serialize failed: '' @ e)) | Inr s \<Rightarrow> Inr s)))"

section \<open>Validation and views\<close>

datatype issue_code = ValuesMustBeObject | ExpectedType

record validation_issue =
  vi_path :: string
  vi_code :: issue_code
  vi_params :: json
  vi_message :: "string option"

definition type_ok :: "config_field \<Rightarrow> json \<Rightarrow> bool" where
  "type_ok f v =
     (if cf_type f = ''boolean'' then as_bool v \<noteq> None
      else if cf_type f = ''number'' then (case v of JInt _ \<Rightarrow> True | JNum _ \<Rightarrow> True | _ \<Rightarrow> False)
      else True)"

definition field_issue :: "json \<Rightarrow> config_field \<Rightarrow> validation_issue option" where
  "field_issue values f =
     (case given_value values f of
        None \<Rightarrow> None
      | Some v \<Rightarrow>
          if type_ok f v then None
          else Some \<lparr>vi_path = cf_path f, vi_code = ExpectedType, vi_params = JObj [(''expected'', JStr (cf_type f))],
                 vi_message = Some (''expected '' @ cf_type f)\<rparr>)"

definition validate_values :: "json \<Rightarrow> bool \<times> validation_issue list" where
  "validate_values values =
     (if as_object values = None
      then (False, [\<lparr>vi_path = [], vi_code = ValuesMustBeObject, vi_params = JObj [], vi_message = Some ''values must be an object''\<rparr>])
      else let es = List.map_filter (field_issue values) pmp_config_descriptor in (es = [], es))"

text \<open>The file of the configuration: its content, if it can be read; and whether the writes of the temporary
  file and the renaming succeed.\<close>

record config_state =
  cf_pool :: "db option"
  cf_file :: "string option"

record disk =
  disk_write :: bool
  disk_rename :: bool

definition on_cf_pool :: "(db option, 'e, 'a) comp \<Rightarrow> (config_state, 'e, 'a) comp" where
  "on_cf_pool m s = (case m (cf_pool s) of (r, p) \<Rightarrow> (r, s\<lparr>cf_pool := p\<rparr>))"

definition not_configured_path :: api_error where
  "not_configured_path = api_error_new PmpUnavailable ''pmp.config_path not configured''"

definition read_yaml :: "env \<Rightarrow> (config_state, api_error, string) comp" where
  "read_yaml E =
     (if config_path (pmp (cfg E)) = None then throw not_configured_path
      else bnd (asks cf_file) (\<lambda>c. some_or c internal))"

definition write_yaml_atomic :: "env \<Rightarrow> disk \<Rightarrow> string \<Rightarrow> (config_state, api_error, unit) comp" where
  "write_yaml_atomic E D content s =
     (if config_path (pmp (cfg E)) = None then (Inl not_configured_path, s)
      else if \<not> disk_write D \<or> \<not> disk_rename D then (Inl internal, s)
      else (Inr (), s\<lparr>cf_file := Some content\<rparr>))"

definition configured :: "env \<Rightarrow> (config_state, api_error, unit) comp" where
  "configured E = ensure (config_path (pmp (cfg E)) \<noteq> None) not_configured_path"

definition route_descriptors :: "auth_principal \<Rightarrow> (db option, api_error, (string \<times> config_field list) list) comp" where
  "route_descriptors a = andthen (require a ''config:view'') (ret pmp_config_groups)"

definition shown_json :: "yaml_libs \<Rightarrow> yaml option \<Rightarrow> json" where
  "shown_json L v = (case v of Some y \<Rightarrow> unwrap_or (y_json L y) JNull | None \<Rightarrow> JNull)"

definition shown_value :: "yaml_libs \<Rightarrow> string \<Rightarrow> config_field \<Rightarrow> json" where
  "shown_value L yaml f =
     (let v = field_value L yaml f in
      if cf_sensitive f then (if v \<noteq> None then JStr ''[REDACTED]'' else JNull) else shown_json L v)"

definition route_values :: "env \<Rightarrow> yaml_libs \<Rightarrow> auth_principal \<Rightarrow> (config_state, api_error, (string \<times> json) list) comp" where
  "route_values E L a =
     andthen (on_cf_pool (require a ''config:view''))
    (andthen (configured E)
    (bnd (read_yaml E) (\<lambda>yaml. ret (map (\<lambda>f. (cf_path f, shown_value L yaml f)) pmp_config_descriptor))))"

definition route_validate :: "auth_principal \<Rightarrow> json \<Rightarrow> (db option, api_error, bool \<times> validation_issue list) comp" where
  "route_validate a values = andthen (require a ''config:reload'') (ret (validate_values values))"

definition change_of :: "yaml_libs \<Rightarrow> string \<Rightarrow> string \<Rightarrow> config_field \<Rightarrow> (string \<times> json \<times> json) option" where
  "change_of L current proposed f =
     (let a = map_option (\<lambda>y. unwrap_or (y_json L y) JNull) (field_value L current f);
          b = map_option (\<lambda>y. unwrap_or (y_json L y) JNull) (field_value L proposed f)
      in if a = b then None
         else Some (cf_path f, if cf_sensitive f then JStr ''[REDACTED]'' else unwrap_or a JNull,
                    if cf_sensitive f then JStr ''[REDACTED]'' else unwrap_or b JNull))"

definition route_diff :: "env \<Rightarrow> yaml_libs \<Rightarrow> auth_principal \<Rightarrow> json \<Rightarrow> (config_state, api_error, (string \<times> json \<times> json) list) comp" where
  "route_diff E L a values =
     andthen (on_cf_pool (require a ''config:view''))
    (bnd (read_yaml E) (\<lambda>current.
     bnd (from_result (merge_yaml_patch L current values)) (\<lambda>proposed.
     ret (List.map_filter (change_of L current proposed) pmp_config_descriptor))))"

text \<open>The projection that is shown as the raw file.\<close>

fun project_fields :: "yaml_libs \<Rightarrow> string \<Rightarrow> config_field list \<Rightarrow> yaml \<Rightarrow> api_error + yaml" where
  "project_fields L source [] v = Inr v"
| "project_fields L source (f # fs) v =
     (case field_value L source f of
        None \<Rightarrow> project_fields L source fs v
      | Some y \<Rightarrow>
          (case set_yaml_path v (path_parts f)
                  (json_to_yaml L (if cf_sensitive f then JStr ''[REDACTED]'' else unwrap_or (y_json L y) JNull)) of
             Inl e \<Rightarrow> Inl e
           | Inr v1 \<Rightarrow> project_fields L source fs v1))"

definition raw_header :: string where
  "raw_header = ''# Redacted canonical configuration projection; unknown fields are omitted.'' @ bytes [10]"

definition route_raw :: "env \<Rightarrow> yaml_libs \<Rightarrow> auth_principal \<Rightarrow> (config_state, api_error, string) comp" where
  "route_raw E L a =
     andthen (on_cf_pool (require a ''config:view''))
    (andthen (configured E)
    (bnd (read_yaml E) (\<lambda>source.
     bnd (from_result (project_fields L source pmp_config_descriptor (YMap []))) (\<lambda>v.
     from_result (case y_print L v of
        Inl e \<Rightarrow> Inl (config_invalid (''yaml projection failed: '' @ e)) | Inr s \<Rightarrow> Inr (raw_header @ s))))))"

definition route_snapshots :: "auth_principal \<Rightarrow> (db option, api_error, config_snapshot list) comp" where
  "route_snapshots a = andthen (require a ''config:view'') (with_db (list_snapshots ''pmp'' 200))"

section \<open>Saving and rolling back\<close>

definition ip_or_unknown :: "headers \<Rightarrow> string" where
  "ip_or_unknown hs = (if ip_from_headers hs = [] then ''unknown'' else ip_from_headers hs)"

definition agent_or_unknown :: "headers \<Rightarrow> string" where
  "agent_or_unknown hs = unwrap_or (header_str hs ''user-agent'') ''unknown''"

definition issue_text :: "validation_issue list \<Rightarrow> string" where
  "issue_text es =
     (let detail = join_with ''; '' (List.map_filter vi_message es) in
      if detail = [] then ''invalid config values'' else ''invalid config values: '' @ detail)"

definition reload_pmp :: "pmp \<Rightarrow> (config_state, api_error, unit) comp" where
  "reload_pmp G = from_result (case G ''server.config_reload'' (JObj []) of Inl e \<Rightarrow> Inl (uds_to_api e) | Inr _ \<Rightarrow> Inr ())"

text \<open>The guards of a save, which end with the old and the merged document; and the change itself.\<close>

definition prepare_save :: "env \<Rightarrow> yaml_libs \<Rightarrow> auth_principal \<Rightarrow> headers \<Rightarrow> json \<Rightarrow> (config_state, api_error, string \<times> string) comp" where
  "prepare_save E L a hs values =
     andthen (on_cf_pool (require a ''config:reload''))
    (andthen (from_result (reauth E a hs RCritical))
    (andthen (ensure (fst (validate_values values)) (config_invalid (issue_text (snd (validate_values values)))))
    (andthen (configured E)
    (bnd (read_yaml E) (\<lambda>prev.
     bnd (from_result (merge_yaml_patch L prev values)) (\<lambda>yaml.
     andthen (from_result (case y_parse L yaml of Inl e \<Rightarrow> Inl (config_invalid (''merged YAML invalid: '' @ e)) | Inr _ \<Rightarrow> Inr ()))
     (ret (prev, yaml))))))))"

definition commit_save ::
  "env \<Rightarrow> pmp \<Rightarrow> disk \<Rightarrow> uuid \<Rightarrow> auth_principal \<Rightarrow> headers \<Rightarrow> json \<Rightarrow> string \<Rightarrow> uuid \<Rightarrow> (config_state, api_error, uuid) comp" where
  "commit_save E G D audit_id a hs values yaml i =
     andthen (write_yaml_atomic E D yaml)
    (andthen (reload_pmp G)
    (andthen (ignore (on_cf_pool (with_db (record_principal audit_id a ''config.save'' ''config'' ''pmp''
         (JObj [(''changed_paths'', JArr (map (\<lambda>e. JStr (fst e)) (unwrap_or (as_object values) []))), (''snapshot_id'', JStr (uuid_text (libs_of E) i))])
         ''succeeded'' [] [] (ip_or_unknown hs) (agent_or_unknown hs)))))
     (ret i)))"

definition save ::
  "env \<Rightarrow> yaml_libs \<Rightarrow> pmp \<Rightarrow> disk \<Rightarrow> uuid \<Rightarrow> uuid \<Rightarrow> auth_principal \<Rightarrow> headers \<Rightarrow> json \<Rightarrow> string \<Rightarrow> (config_state, api_error, uuid) comp" where
  "save E L G D snap audit_id a hs values note =
     bnd (prepare_save E L a hs values) (\<lambda>py.
     bnd (on_cf_pool (with_db (insert_snapshot snap ''pmp'' (fst py) (''pre-save: '' @ note) (Some (sub a))))) (\<lambda>i.
     commit_save E G D audit_id a hs values (snd py) i))"

text \<open>The health after a reload is whether the ping could be written to the socket.\<close>

definition health_check :: "uds_error + unit \<Rightarrow> json" where
  "health_check ping =
     (case ping of
        Inr _ \<Rightarrow> JObj [(''status'', JStr ''ok'')]
      | Inl e \<Rightarrow> JObj [(''status'', JStr ''unreachable''), (''error'', JStr (uds_error_text e))])"

definition rollback ::
  "env \<Rightarrow> pmp \<Rightarrow> uds_error + unit \<Rightarrow> disk \<Rightarrow> uuid \<Rightarrow> auth_principal \<Rightarrow> headers \<Rightarrow> uuid \<Rightarrow> (config_state, api_error, uuid \<times> json) comp" where
  "rollback E G ping D audit_id a hs snap =
     andthen (on_cf_pool (require a ''config:rollback''))
    (andthen (from_result (reauth E a hs RCritical))
    (bnd (on_cf_pool (with_db (get_snapshot snap))) (\<lambda>row.
     bnd (some_or row (api_error_new ConfigSnapshotNotFound ''config snapshot not found'')) (\<lambda>c.
     andthen (ensure (cs_scope c = ''pmp'') (api_error_new ConfigScopeInvalid ''snapshot scope must be pmp''))
    (andthen (write_yaml_atomic E D (cs_content c))
    (andthen (reload_pmp G)
    (andthen (on_cf_pool (with_db (mark_restored snap)))
    (andthen (ignore (on_cf_pool (with_db (record_principal audit_id a ''config.rollback'' ''config'' ''pmp''
         (JObj [(''snapshot_id'', JStr (uuid_text (libs_of E) snap))]) ''succeeded'' [] [] (ip_or_unknown hs) (agent_or_unknown hs)))))
     (ret (snap, health_check ping))))))))))"

section \<open>The build configuration of the frontend\<close>

definition ppf_keys :: "string list" where
  "ppf_keys = [''site_name'', ''site_description'', ''canonical_url'', ''analytics_provider'', ''plausible_domain'', ''ga_id'',
     ''search_verification_google'', ''search_verification_bing'']"

text \<open>\<open>scheme\<close> is the scheme of a text that parses as a URL.\<close>

definition validate_ppf_build_config :: "(string \<Rightarrow> string option) \<Rightarrow> json \<Rightarrow> api_error + unit" where
  "validate_ppf_build_config scheme content =
     (case as_object content of
        None \<Rightarrow> Inl (config_invalid ''PPF build config must be an object'')
      | Some kvs \<Rightarrow>
          if \<not> set (map fst kvs) \<subseteq> set ppf_keys then Inl (config_invalid ''unsupported PPF build config key'')
          else
            let url = (case string_field content ''canonical_url'' of Some u \<Rightarrow> trim u | None \<Rightarrow> []) in
            if url \<noteq> [] \<and> scheme url = None then Inl (config_invalid ''canonical_url must be an absolute URL'')
            else if url \<noteq> [] \<and> scheme url \<notin> {Some ''http'', Some ''https''} then Inl (config_invalid ''canonical_url must use http or https'')
            else if (case string_field content ''analytics_provider'' of Some p \<Rightarrow> p \<notin> {[], ''plausible'', ''ga4''} | None \<Rightarrow> False)
            then Inl (config_invalid ''analytics_provider must be plausible or ga4'')
            else Inr ())"

definition ppf_config :: "auth_principal \<Rightarrow> (db option, api_error, int \<times> json) comp" where
  "ppf_config a =
     andthen (require a ''config:view'') (with_db (bnd get_ppf_config (\<lambda>r. ret (case r of Some x \<Rightarrow> x | None \<Rightarrow> (0, JObj [])))))"

definition ppf_config_update :: "(string \<Rightarrow> string option) \<Rightarrow> auth_principal \<Rightarrow> json \<Rightarrow> (db option, api_error, int) comp" where
  "ppf_config_update scheme a content =
     guarded a ''config:reload'' (validate_ppf_build_config scheme content) (put_ppf_config content (Some (sub a)))"

section \<open>The patch changes what was asked and nothing else\<close>

lemma map_of_yput [simp]: "map_of (yput k v m) j = (if j = k then Some v else map_of m j)"
  by (induction m) auto

lemma yget_YMap [simp]: "yget (YMap m) k = map_of m (YStr k)"
  by (simp add: yget_def)

lemma set_nested:
  assumes "set_yaml_path (YMap m) (k # k' # ks) w = Inr r"
  obtains child c m1 where "m1 = (if map_of m (YStr k) = None then yput (YStr k) (YMap []) m else m)" and "map_of m1 (YStr k) = Some child"
    and "set_yaml_path child (k' # ks) w = Inr c" and "r = YMap (yput (YStr k) c m1)"
  using assms by (auto simp: Let_def split: option.splits sum.splits)

lemma set_yaml_path_get: "set_yaml_path root ks w = Inr r \<Longrightarrow> ks \<noteq> [] \<Longrightarrow> ypath r ks = Some w"
proof (induction root ks w arbitrary: r rule: set_yaml_path.induct)
  case (3 m k k' ks w)
  from 3(2) obtain child c m1 where "m1 = (if map_of m (YStr k) = None then yput (YStr k) (YMap []) m else m)" "map_of m1 (YStr k) = Some child"
      "set_yaml_path child (k' # ks) w = Inr c" "r = YMap (yput (YStr k) c m1)" by (rule set_nested)
  with 3(1) [of m1 child c] show ?case by simp
qed auto

lemma ypath_empty [simp]: "ypath (YMap []) js = (if js = [] then Some (YMap []) else None)"
  by (cases js) auto

lemma set_yaml_path_other:
  assumes "set_yaml_path root ks w = Inr r" and "parallel ks js"
  shows "ypath r js = ypath root js"
  using assms
proof (induction root ks w arbitrary: r js rule: set_yaml_path.induct)
  case (2 m k w)
  then obtain j js' where "js = j # js'" "j \<noteq> k" by (cases js) (auto simp: parallel_def)
  with 2 show ?case by auto
next
  case (3 m k k' ks w)
  from 3(2) obtain child c m1 where m1: "m1 = (if map_of m (YStr k) = None then yput (YStr k) (YMap []) m else m)"
      and child: "map_of m1 (YStr k) = Some child" and c: "set_yaml_path child (k' # ks) w = Inr c" and r: "r = YMap (yput (YStr k) c m1)"
    by (rule set_nested)
  from 3(3) obtain j js' where js: "js = j # js'" by (cases js) (auto simp: parallel_def)
  show ?case
  proof (cases "j = k")
    case True
    with 3(3) js have par: "parallel (k' # ks) js'" by (auto simp: parallel_def)
    then have "js' \<noteq> []" by (auto simp: parallel_def)
    have "ypath c js' = ypath child js'" using 3(1) [OF m1 child c par] .
    with True js r child m1 \<open>js' \<noteq> []\<close> show ?thesis by (auto split: if_splits option.splits)
  next
    case False
    with js r m1 show ?thesis by auto
  qed
qed (auto simp: parallel_def)

text \<open>A list of fields none of whose paths leads into another's.\<close>

locale field_patching =
  fixes fields :: "config_field list"
  assumes parallel_paths: "i < length fields \<Longrightarrow> j < length fields \<Longrightarrow> i \<noteq> j \<Longrightarrow> parallel (path_parts (fields ! i)) (path_parts (fields ! j))"
begin

lemma patch_other:
  assumes "patch_fields L values fs root = Inr r" and "\<And>f. f \<in> set fs \<Longrightarrow> given_value values f \<noteq> None \<Longrightarrow> parallel (path_parts f) js"
  shows "ypath r js = ypath root js"
  using assms
proof (induction fs arbitrary: root)
  case Nil
  then show ?case by simp
next
  case (Cons f fs)
  show ?case
  proof (cases "given_value values f")
    case None
    with Cons show ?thesis by auto
  next
    case (Some v)
    with Cons.prems(1) obtain r1 where r1: "set_yaml_path root (path_parts f) (json_to_yaml L v) = Inr r1" "patch_fields L values fs r1 = Inr r"
      by (auto split: sum.splits)
    have "ypath r js = ypath r1 js" using Cons.prems(2) by (intro Cons.IH [OF r1(2)]) simp
    also have "\<dots> = ypath root js" using Cons.prems(2) [of f] Some by (intro set_yaml_path_other [OF r1(1)]) simp
    finally show ?thesis .
  qed
qed

lemma patch_given:
  assumes "patch_fields L values (drop n fields) root = Inr r" and "n \<le> i" and "i < length fields"
  shows "ypath r (path_parts (fields ! i)) =
    (case given_value values (fields ! i) of Some v \<Rightarrow> Some (json_to_yaml L v) | None \<Rightarrow> ypath root (path_parts (fields ! i)))"
  using assms
proof (induction "length fields - n" arbitrary: n root)
  case 0
  then show ?case by simp
next
  case (Suc k)
  then have n: "n < length fields" by simp
  let ?f = "fields ! n"
  have step: "drop n fields = ?f # drop (Suc n) fields" using n by (simp add: Cons_nth_drop_Suc)
  have rest: "parallel (path_parts f) (path_parts ?f)" if "f \<in> set (drop (Suc n) fields)" for f
  proof -
    from that obtain j where "j < length (drop (Suc n) fields)" "f = drop (Suc n) fields ! j" by (auto simp: in_set_conv_nth)
    then have "f = fields ! (Suc n + j)" "Suc n + j < length fields" by auto
    then show ?thesis using n by (auto intro: parallel_paths)
  qed
  show ?case
  proof (cases "given_value values ?f")
    case None
    with Suc.prems(1) step have r: "patch_fields L values (drop (Suc n) fields) root = Inr r" by simp
    show ?thesis
    proof (cases "i = n")
      case True
      with None patch_other [OF r rest] show ?thesis by simp
    next
      case False
      with Suc.prems(2,3) Suc.hyps(2) show ?thesis by (intro Suc.hyps(1) [OF _ r]) auto
    qed
  next
    case (Some v)
    with Suc.prems(1) step obtain r1 where r1: "set_yaml_path root (path_parts ?f) (json_to_yaml L v) = Inr r1"
        "patch_fields L values (drop (Suc n) fields) r1 = Inr r"
      by (auto split: sum.splits)
    show ?thesis
    proof (cases "i = n")
      case True
      have "ypath r1 (path_parts ?f) = Some (json_to_yaml L v)"
        by (rule set_yaml_path_get [OF r1(1)]) (simp add: path_parts_def)
      with True Some patch_other [OF r1(2) rest] show ?thesis by simp
    next
      case False
      have "ypath r1 (path_parts (fields ! i)) = ypath root (path_parts (fields ! i))"
        using False Suc.prems(3) n by (intro set_yaml_path_other [OF r1(1)] parallel_paths) auto
      moreover have "ypath r (path_parts (fields ! i)) =
          (case given_value values (fields ! i) of Some v \<Rightarrow> Some (json_to_yaml L v) | None \<Rightarrow> ypath r1 (path_parts (fields ! i)))"
        using False Suc.prems(2,3) Suc.hyps(2) by (intro Suc.hyps(1) [OF _ r1(2)]) auto
      ultimately show ?thesis by (simp split: option.splits)
    qed
  qed
qed

end

lemma descriptor_parts:
  "map path_parts pmp_config_descriptor =
     [[''server_name''], [''welcome''], [''chat_enabled''], [''chat_history_limit''], [''port''], [''http_port''], [''max_rooms''],
      [''max_users_per_room''], [''room_creation_enabled''], [''ready_countdown_secs''], [''max_sessions''], [''graceful_shutdown_timeout_secs''],
      [''log_retention_days''], [''phira_api_endpoint''], [''database_url''], [''admin_phira_ids''], [''filtered_player_ids''],
      [''openuds'', ''enabled''], [''openuds'', ''socket_path''], [''openuds'', ''auth_token'']]"
  by code_simp

lemma leaves_parallel:
  assumes "distinct ps" and "list_all (\<lambda>p. length p = 1 \<and> hd p \<noteq> k \<or> length p = 2 \<and> hd p = k) ps"
    and "i < length ps" and "j < length ps" and "i \<noteq> j"
  shows "parallel (ps ! i) (ps ! j)"
proof -
  have "\<not> prefix (ps ! m) (ps ! n)" if "m < length ps" "n < length ps" "m \<noteq> n" for m n
  proof
    assume pre: "prefix (ps ! m) (ps ! n)"
    have "ps ! m \<noteq> ps ! n" using that assms(1) by (simp add: nth_eq_iff_index_eq)
    with pre have "length (ps ! m) < length (ps ! n)" by (auto simp: prefix_def)
    moreover have shape: "length (ps ! x) = 1 \<and> hd (ps ! x) \<noteq> k \<or> length (ps ! x) = 2 \<and> hd (ps ! x) = k" if "x < length ps" for x
      using assms(2) that by (simp add: list_all_length)
    ultimately have "length (ps ! m) = 1 \<and> hd (ps ! m) \<noteq> k \<and> hd (ps ! n) = k"
      using shape [OF that(1)] shape [OF that(2)] by auto
    with pre show False by (cases "ps ! m") (auto simp: prefix_def)
  qed
  with assms(3-5) show ?thesis by (auto simp: parallel_def)
qed

interpretation pmp_fields: field_patching pmp_config_descriptor
proof
  fix i j
  assume "i < length pmp_config_descriptor" "j < length pmp_config_descriptor" "i \<noteq> j"
  moreover have "distinct (map path_parts pmp_config_descriptor)" unfolding descriptor_parts by simp
  moreover have "list_all (\<lambda>p. length p = 1 \<and> hd p \<noteq> ''openuds'' \<or> length p = 2 \<and> hd p = ''openuds'') (map path_parts pmp_config_descriptor)"
    unfolding descriptor_parts by simp
  ultimately show "parallel (path_parts (pmp_config_descriptor ! i)) (path_parts (pmp_config_descriptor ! j))"
    using leaves_parallel [of "map path_parts pmp_config_descriptor" "''openuds''" i j] by simp
qed

text \<open>What the YAML library is relied on for: a document that was printed parses to what it was.\<close>

definition yaml_round_trip :: "yaml_libs \<Rightarrow> bool" where
  "yaml_round_trip L \<longleftrightarrow> (\<forall>v s. y_print L v = Inr s \<longrightarrow> y_parse L s = Inr v)"

lemma merge_runs:
  assumes "merge_yaml_patch L current values = Inr out" and "yaml_round_trip L"
  shows "\<exists>root root'. y_parse L current = Inr root \<and> patch_fields L values pmp_config_descriptor root = Inr root' \<and> y_parse L out = Inr root'"
  using assms by (auto simp: merge_yaml_patch_def yaml_round_trip_def split: sum.splits if_splits)

text \<open>C20: The patch of the configuration file changes exactly what the user gave. In the merged document every
  field for which a value was given has that value, a field that was not given, or whose value is the
  placeholder of a secret, is as it was, and so is everything else in the document, known to the
  descriptor or not.\<close>

theorem config_patch_exact:
  assumes "merge_yaml_patch L current values = Inr out" and "yaml_round_trip L"
  shows "\<exists>root root'. y_parse L current = Inr root \<and> y_parse L out = Inr root' \<and>
    (\<forall>f \<in> set pmp_config_descriptor. ypath root' (path_parts f) =
       (case given_value values f of Some v \<Rightarrow> Some (json_to_yaml L v) | None \<Rightarrow> ypath root (path_parts f))) \<and>
    (\<forall>js. (\<forall>f \<in> set pmp_config_descriptor. given_value values f \<noteq> None \<longrightarrow> parallel (path_parts f) js) \<longrightarrow> ypath root' js = ypath root js)"
proof -
  from merge_runs [OF assms] obtain root root' where r: "y_parse L current = Inr root" "y_parse L out = Inr root'"
      and patch: "patch_fields L values (drop 0 pmp_config_descriptor) root = Inr root'" by auto
  have "ypath root' (path_parts f) = (case given_value values f of Some v \<Rightarrow> Some (json_to_yaml L v) | None \<Rightarrow> ypath root (path_parts f))"
    if "f \<in> set pmp_config_descriptor" for f
  proof -
    from that obtain i where i: "i < length pmp_config_descriptor" and f: "f = pmp_config_descriptor ! i" by (auto simp: in_set_conv_nth)
    show ?thesis unfolding f by (rule pmp_fields.patch_given [OF patch]) (simp_all add: i)
  qed
  moreover have "ypath root' js = ypath root js"
    if "\<forall>f \<in> set pmp_config_descriptor. given_value values f \<noteq> None \<longrightarrow> parallel (path_parts f) js" for js
    using that patch by (intro pmp_fields.patch_other) auto
  ultimately show ?thesis using r by blast
qed

section \<open>Secrets are not shown, but can be guessed\<close>

text \<open>Two configuration files that differ only in what their secrets are.\<close>

definition same_but_secrets :: "yaml_libs \<Rightarrow> string \<Rightarrow> string \<Rightarrow> bool" where
  "same_but_secrets L x y \<longleftrightarrow>
     (\<forall>f \<in> set pmp_config_descriptor. if cf_sensitive f then (field_value L x f = None) = (field_value L y f = None)
        else field_value L x f = field_value L y f)"

lemma project_same:
  assumes "\<And>f. f \<in> set fs \<Longrightarrow> if cf_sensitive f then (field_value L x f = None) = (field_value L y f = None) else field_value L x f = field_value L y f"
  shows "project_fields L x fs v = project_fields L y fs v"
  using assms
proof (induction fs arbitrary: v)
  case Nil
  then show ?case by simp
next
  case (Cons f fs)
  have IH: "project_fields L x fs u = project_fields L y fs u" for u using Cons by simp
  from Cons.prems [of f] show ?case
    by (cases "cf_sensitive f") (auto simp: IH split: option.splits sum.splits)
qed

text \<open>The views of the configuration do not depend on its secrets: of two files that differ only in what
  the secrets are, the values and the raw projection are answered alike.\<close>

theorem views_hide_secrets:
  assumes "same_but_secrets L x y"
  shows "fst (route_values E L a (s\<lparr>cf_file := Some x\<rparr>)) = fst (route_values E L a (s\<lparr>cf_file := Some y\<rparr>)) \<and>
    fst (route_raw E L a (s\<lparr>cf_file := Some x\<rparr>)) = fst (route_raw E L a (s\<lparr>cf_file := Some y\<rparr>))"
proof -
  have shown: "shown_value L x f = shown_value L y f" if "f \<in> set pmp_config_descriptor" for f
    using assms that by (auto simp: same_but_secrets_def shown_value_def Let_def split: if_splits)
  have v: "map (\<lambda>f. (cf_path f, shown_value L x f)) pmp_config_descriptor = map (\<lambda>f. (cf_path f, shown_value L y f)) pmp_config_descriptor"
    using shown by simp
  have p: "project_fields L x pmp_config_descriptor (YMap []) = project_fields L y pmp_config_descriptor (YMap [])"
    using assms by (intro project_same) (auto simp: same_but_secrets_def)
  obtain r q where "require a ''config:view'' (cf_pool s) = (r, q)" by (cases "require a ''config:view'' (cf_pool s)")
  then show ?thesis
    using v p by (cases r) (auto simp: route_values_def route_raw_def on_cf_pool_def andthen_def bnd_def configured_def ensure_def read_yaml_def
        asks_def some_or_def ret_def throw_def from_result_def split: sum.splits)
qed

text \<open>The difference view is an oracle for the secrets: with nothing but the right to view, a guess at a
  secret is reported as a change exactly when it is wrong.\<close>

theorem diff_confirms_guess:
  assumes "yaml_round_trip L" and "\<And>t. y_json L (YStr t) = Some (JStr t)" and "f \<in> set pmp_config_descriptor" and "cf_sensitive f"
    and "field_value L current f = Some (YStr secret)" and "get_field values (cf_path f) = Some (JStr guess)" and "\<not> redacted_sentinel (JStr guess)"
    and "merge_yaml_patch L current values = Inr proposed"
  shows "change_of L current proposed f = None \<longleftrightarrow> guess = secret"
proof -
  from merge_runs [OF assms(8,1)] obtain root root' where r: "y_parse L proposed = Inr root'"
      and patch: "patch_fields L values (drop 0 pmp_config_descriptor) root = Inr root'" by auto
  from assms(3) obtain i where "i < length pmp_config_descriptor" "f = pmp_config_descriptor ! i" by (auto simp: in_set_conv_nth)
  with pmp_fields.patch_given [OF patch, of i] assms(6,7) have "ypath root' (path_parts f) = Some (YStr guess)"
    by (simp add: given_value_def)
  then have "field_value L proposed f = Some (YStr guess)" using r by (simp add: field_value_def)
  with assms(2,5) show ?thesis by (auto simp: change_of_def Let_def unwrap_or_def)
qed

section \<open>A change can be undone\<close>

text \<open>Guards before the write: they leave the file alone.\<close>

lemma pool_keeps_file: "obeys (same cf_file) (on_cf_pool m)"
  by (simp add: obeys_def same_def on_cf_pool_def split: prod.splits)

lemma read_keeps_file: "obeys (same cf_file) (read_yaml E)"
  unfolding read_yaml_def by (intro same_frame.obeys_intros)

lemmas keeps_file = pool_keeps_file read_keeps_file same_frame.obeys_from_result same_frame.obeys_ensure same_frame.obeys_some_or

lemma file_gate:
  assumes "bnd g f s = (r, t)" and "obeys (same cf_file) g" and "(\<exists>x. r = Inr x) \<or> cf_file t \<noteq> cf_file s"
  obtains x u where "g s = (Inr x, u)" and "f x u = (r, t)" and "cf_file u = cf_file s" and "(\<exists>x. r = Inr x) \<or> cf_file t \<noteq> cf_file u"
proof -
  obtain y u where g: "g s = (y, u)" by (cases "g s")
  have "cf_file u = cf_file s" using obeys_run [OF assms(2) g] by (simp add: same_def)
  with assms g that show thesis by (cases y) (auto simp: bnd_def)
qed

lemma on_cf_pool_runs [runs]:
  "on_cf_pool m s = (Inr b, t) \<longleftrightarrow> (\<exists>p. m (cf_pool s) = (Inr b, p) \<and> t = s\<lparr>cf_pool := p\<rparr>)"
  by (auto simp: on_cf_pool_def split: prod.splits)

definition pool_snapshots :: "db option \<Rightarrow> config_snapshot list option" where
  "pool_snapshots s = map_option config_snapshots s"

interpretation snapshot_reader: table_frame "same config_snapshots"
  by unfold_locales (auto simp: same_def)

lemma record_keeps_snapshots: "obeys (same config_snapshots) (record_principal i a act rtype rid params result err cid ip ua)"
  unfolding record_principal_def record_event_def
  by (intro same_frame.obeys_map_err snapshot_reader.obeys_query) (auto simp: same_def insert_audit_def split: if_splits)

text \<open>The end of a save: the file is written, the server reloads it, the change is recorded.\<close>

lemma save_tail:
  assumes "commit_save E G D audit_id a hs values yaml i s = (r, t)"
  shows "pool_snapshots (cf_pool t) = pool_snapshots (cf_pool s) \<and> (cf_file t = cf_file s \<or> cf_file t = Some yaml) \<and>
    (\<forall>x. r = Inr x \<longrightarrow> x = i \<and> cf_file t = Some yaml)"
proof -
  let ?rec = "\<lambda>rid params ip ua. on_cf_pool (with_db (record_principal audit_id a ''config.save'' ''config'' rid params ''succeeded'' [] [] ip ua))"
  have rec: "cf_file (snd (?rec rid params ip ua u)) = cf_file u \<and> pool_snapshots (cf_pool (snd (?rec rid params ip ua u))) = pool_snapshots (cf_pool u)"
    for rid params ip ua u
  proof (cases "cf_pool u")
    case None
    then show ?thesis by (simp add: on_cf_pool_def with_db_def)
  next
    case (Some d)
    with obeysD [OF record_keeps_snapshots, of d audit_id a "''config.save''" "''config''" rid params "''succeeded''" "[]" "[]" ip ua] show ?thesis
      by (auto simp: on_cf_pool_def with_db_def same_def pool_snapshots_def split: prod.splits)
  qed
  show ?thesis
    using assms rec
    by (auto simp: commit_save_def andthen_def bnd_def write_yaml_atomic_def reload_pmp_def from_result_def ignore_def ret_def split: if_splits sum.splits prod.splits)
qed

lemma insert_snapshot_runs:
  assumes "insert_snapshot i scope content note (Some u) d = (Inr j, d')"
  shows "j = i \<and> u \<in> u_id ` set (users d) \<and>
    (\<exists>c. find (\<lambda>x. cs_id x = i) (config_snapshots d') = Some c \<and> cs_scope c = scope \<and> cs_content c = content)"
proof -
  from assms obtain xs where "i \<notin> cs_id ` set (config_snapshots d)" "u \<in> u_id ` set (users d)" "j = i"
      "d' = d\<lparr>outcomes := xs, config_snapshots := config_snapshots d @
          [\<lparr>cs_id = i, cs_scope = scope, cs_content = content, cs_note = note, cs_created_by = Some u,
            cs_created_at = clock d, cs_restored_at = None\<rparr>]\<rparr>"
    by (auto simp: insert_snapshot_def authored_def known_author_def split: if_splits dest!: query_InrD)
  moreover from this(1) have "find (\<lambda>x. cs_id x = i) (config_snapshots d) = None" by (auto simp: find_None_iff image_iff)
  ultimately show ?thesis by (auto simp: find_append)
qed

lemma prepare_saveD:
  assumes "prepare_save E L a hs values s = (Inr (prev, yaml), u)"
  shows "cf_file s = Some prev \<and> merge_yaml_patch L prev values = Inr yaml \<and> may (cf_pool s) a ''config:reload'' \<and>
    reauth E a hs RCritical = Inr () \<and> fst (validate_values values) \<and> cf_file u = cf_file s \<and> pool_untouched (cf_pool s) (cf_pool u)"
proof -
  from assms obtain p where req: "require a ''config:reload'' (cf_pool s) = (Inr (), p)" and u: "u = s\<lparr>cf_pool := p\<rparr>"
      and rest: "cf_file s = Some prev" "merge_yaml_patch L prev values = Inr yaml" "reauth E a hs RCritical = Inr ()" "fst (validate_values values)"
    by (auto simp: prepare_save_def read_yaml_def configured_def throw_def asks_def runs split: if_splits sum.splits)
  from obeys_run [OF require_reads req] require_may [OF req] u rest show ?thesis by simp
qed

text \<open>What a save that answered, or that changed the file, has done.\<close>

lemma save_effect:
  assumes "save E L G D snap audit_id a hs values note s = (r, t)" and "(\<exists>x. r = Inr x) \<or> cf_file t \<noteq> cf_file s"
  shows "\<exists>prev yaml d c. cf_file s = Some prev \<and> merge_yaml_patch L prev values = Inr yaml \<and> fst (validate_values values) \<and>
    (cf_file t = Some prev \<or> cf_file t = Some yaml) \<and> (\<forall>x. r = Inr x \<longrightarrow> x = snap \<and> cf_file t = Some yaml) \<and>
    cf_pool t = Some d \<and> find (\<lambda>x. cs_id x = snap) (config_snapshots d) = Some c \<and> cs_scope c = ''pmp'' \<and> cs_content c = prev \<and>
    may (cf_pool s) a ''config:reload'' \<and> reauth E a hs RCritical = Inr () \<and> (\<exists>d0. cf_pool s = Some d0 \<and> sub a \<in> u_id ` set (users d0))"
proof -
  have "obeys (same cf_file) (prepare_save E L a hs values)"
    unfolding prepare_save_def configured_def by (intro same_frame.obeys_intros keeps_file)
  from assms(1) [unfolded save_def] this assms(2) obtain py s1 where prep: "prepare_save E L a hs values s = (Inr py, s1)"
      and m1: "bnd (on_cf_pool (with_db (insert_snapshot snap ''pmp'' (fst py) (''pre-save: '' @ note) (Some (sub a))))) (\<lambda>i.
        commit_save E G D audit_id a hs values (snd py) i) s1 = (r, t)" and f1: "cf_file s1 = cf_file s" and c1: "(\<exists>x. r = Inr x) \<or> cf_file t \<noteq> cf_file s1"
    by (rule file_gate)
  obtain prev yaml where py: "py = (prev, yaml)" by (cases py)
  note checked = prepare_saveD [OF prep [unfolded py]]
  from m1 pool_keeps_file c1 obtain i s2 where ins: "on_cf_pool (with_db (insert_snapshot snap ''pmp'' (fst py) (''pre-save: '' @ note) (Some (sub a)))) s1 = (Inr i, s2)"
      and m2: "commit_save E G D audit_id a hs values (snd py) i s2 = (r, t)" and f2: "cf_file s2 = cf_file s1"
    by (rule file_gate)
  from ins obtain d1 d2 where d1: "cf_pool s1 = Some d1" "insert_snapshot snap ''pmp'' prev (''pre-save: '' @ note) (Some (sub a)) d1 = (Inr i, d2)"
      "cf_pool s2 = Some d2"
    by (auto simp: runs py with_db_def split: option.splits prod.splits)
  from insert_snapshot_runs [OF d1(2)] obtain c where i: "i = snap" "sub a \<in> u_id ` set (users d1)"
      and c: "find (\<lambda>x. cs_id x = snap) (config_snapshots d2) = Some c" "cs_scope c = ''pmp''" "cs_content c = prev" by blast
  from checked d1(1) obtain d0 where "cf_pool s = Some d0" "users d0 = users d1"
    by (auto simp: pool_untouched_def untouched_def split: option.splits)
  moreover from save_tail [OF m2] d1(3) obtain d where "cf_pool t = Some d" "config_snapshots d = config_snapshots d2"
    by (auto simp: pool_snapshots_def)
  ultimately show ?thesis using save_tail [OF m2] checked c i f1 f2 py by auto
qed

lemma rollbackD:
  assumes "rollback E G ping D audit_id a hs snap t = (Inr y, u)"
  shows "\<exists>d c. cf_pool t = Some d \<and> find (\<lambda>x. cs_id x = snap) (config_snapshots d) = Some c \<and> cf_file u = Some (cs_content c)"
proof -
  from assms obtain p row s2 s3 s4 where req: "require a ''config:rollback'' (cf_pool t) = (Inr (), p)"
      and get: "on_cf_pool (with_db (get_snapshot snap)) (t\<lparr>cf_pool := p\<rparr>) = (Inr (Some row), s2)"
      and w: "write_yaml_atomic E D (cs_content row) s2 = (Inr (), s3)" and re: "reload_pmp G s3 = (Inr (), s4)"
      and rest: "andthen (on_cf_pool (with_db (mark_restored snap)))
        (andthen (ignore (on_cf_pool (with_db (record_principal audit_id a ''config.rollback'' ''config'' ''pmp''
         (JObj [(''snapshot_id'', JStr (uuid_text (libs_of E) snap))]) ''succeeded'' [] [] (ip_or_unknown hs) (agent_or_unknown hs)))))
         (ret (snap, health_check ping))) s4 = (Inr y, u)"
    unfolding rollback_def by (auto simp: runs)
  from get obtain d1 d2 where d1: "p = Some d1" "get_snapshot snap d1 = (Inr (Some row), d2)"
    by (auto simp: runs with_db_def split: option.splits prod.splits)
  from d1(2) have found: "find (\<lambda>x. cs_id x = snap) (config_snapshots d1) = Some row"
    by (auto simp: get_snapshot_def dest!: select_InrD)
  from obeys_run [OF require_reads req] d1(1) obtain d where "cf_pool t = Some d" "config_snapshots d1 = config_snapshots d"
    by (auto simp: pool_untouched_def untouched_def split: option.splits)
  moreover have "cf_file s4 = Some (cs_content row)"
    using w re by (auto simp: write_yaml_atomic_def reload_pmp_def from_result_def split: if_splits sum.splits)
  moreover have "cf_file u = cf_file s4"
    using rest by (auto simp: runs ignore_def on_cf_pool_def split: prod.splits)
  ultimately show ?thesis using found by auto
qed

text \<open>C8: A change of the configuration file is authorised and can be undone. A save that changes the file, even
  one that answers with an error, was made by somebody who may reload the configuration, is a user of the
  table and has freshly reauthenticated at the critical level; the file then holds the merged document,
  and the old one is stored as a snapshot under the id that is answered. Rolling back to that snapshot
  gives back the old file, byte by byte.\<close>

theorem config_change_undoable:
  assumes "save E L G D snap audit_id a hs values note s = (r, t)" and "cf_file t \<noteq> cf_file s \<or> r = Inr snap"
  shows "may (cf_pool s) a ''config:reload'' \<and> reauth E a hs RCritical = Inr () \<and>
    (\<exists>d. cf_pool s = Some d \<and> sub a \<in> u_id ` set (users d)) \<and>
    (\<exists>prev. cf_file s = Some prev \<and> map_option Inr (cf_file t) = (if cf_file t = cf_file s then Some (Inr prev) else Some (merge_yaml_patch L prev values))) \<and>
    (rollback E' G' ping D' audit' b hs' snap t = (Inr y, u) \<longrightarrow> cf_file u = cf_file s)"
proof -
  from save_effect [OF assms(1)] assms(2) obtain prev yaml d c where
    eff: "cf_file s = Some prev" "merge_yaml_patch L prev values = Inr yaml" "cf_file t = Some prev \<or> cf_file t = Some yaml"
      "cf_pool t = Some d" "find (\<lambda>x. cs_id x = snap) (config_snapshots d) = Some c" "cs_content c = prev" and
    auth: "may (cf_pool s) a ''config:reload''" "reauth E a hs RCritical = Inr ()" "\<exists>d0. cf_pool s = Some d0 \<and> sub a \<in> u_id ` set (users d0)"
    by auto
  have "cf_file u = cf_file s" if "rollback E' G' ping D' audit' b hs' snap t = (Inr y, u)"
    using rollbackD [OF that] eff by auto
  with eff auth show ?thesis by auto
qed

section \<open>Examples\<close>

text \<open>A YAML library for two documents.\<close>

definition old_doc :: "string \<Rightarrow> yaml" where
  "old_doc name = YMap [(YStr ''server_name'', YStr name), (YStr ''openuds'', YMap [(YStr ''auth_token'', YStr ''S'')]), (YStr ''custom'', YInt 1)]"

definition two_docs :: yaml_libs where
  "two_docs =
     \<lparr>y_parse = (\<lambda>t. if t = ''old'' then Inr (old_doc ''Old'') else if t = ''new'' then Inr (old_doc ''New'') else Inl ''unknown''),
      y_print = (\<lambda>v. if v = old_doc ''Old'' then Inr ''old'' else if v = old_doc ''New'' then Inr ''new'' else Inl ''unknown''),
      y_json = (\<lambda>v. case v of YStr t \<Rightarrow> Some (JStr t) | _ \<Rightarrow> None), y_float = (\<lambda>_. None)\<rparr>"

definition new_name :: json where
  "new_name = JObj [(''server_name'', JStr ''New''), (''openuds.auth_token'', JStr ''[Redacted]'')]"

lemma two_docs_io:
  "y_parse two_docs ''old'' = Inr (old_doc ''Old'')" "y_parse two_docs ''new'' = Inr (old_doc ''New'')"
  "y_print two_docs (old_doc ''Old'') = Inr ''old''" "y_print two_docs (old_doc ''New'') = Inr ''new''"
  by (simp_all add: two_docs_def old_doc_def)

lemma two_docs_round_trip: "yaml_round_trip two_docs"
  by (auto simp: yaml_round_trip_def two_docs_def split: if_splits)

lemma two_docs_given: "List.map_filter (\<lambda>f. map_option (\<lambda>v. (path_parts f, v)) (given_value new_name f)) pmp_config_descriptor = [([''server_name''], JStr ''New'')]"
  by code_simp

fun set_all :: "yaml_libs \<Rightarrow> (string list \<times> json) list \<Rightarrow> yaml \<Rightarrow> api_error + yaml" where
  "set_all L [] root = Inr root"
| "set_all L ((ks, v) # ps) root = (case set_yaml_path root ks (json_to_yaml L v) of Inl e \<Rightarrow> Inl e | Inr r \<Rightarrow> set_all L ps r)"

lemma patch_as_list:
  "patch_fields L values fs root = set_all L (List.map_filter (\<lambda>f. map_option (\<lambda>v. (path_parts f, v)) (given_value values f)) fs) root"
  by (induction fs arbitrary: root) (auto simp: List.map_filter_def split: option.splits sum.splits)

lemma guess_given: "List.map_filter (\<lambda>f. map_option (\<lambda>v. (path_parts f, v)) (given_value (JObj [(''openuds.auth_token'', JStr ''S'')]) f)) pmp_config_descriptor =
    [([''openuds'', ''auth_token''], JStr ''S'')]"
  by code_simp

lemma two_docs_merge: "merge_yaml_patch two_docs ''old'' new_name = Inr ''new''"
proof -
  have "patch_fields two_docs new_name pmp_config_descriptor (old_doc ''Old'') = Inr (old_doc ''New'')"
    unfolding patch_as_list two_docs_given by (simp add: old_doc_def)
  then show ?thesis by (simp add: merge_yaml_patch_def two_docs_io new_name_def)
qed

theorem config_patch_exact_witness:
  "\<exists>root'. y_parse two_docs ''new'' = Inr root' \<and> ypath root' [''server_name''] = Some (YStr ''New'') \<and>
     ypath root' [''openuds'', ''auth_token''] = Some (YStr ''S'') \<and> ypath root' [''custom''] = Some (YInt 1)"
proof -
  let ?name = "describe_field ''server_name'' ''text'' ''low'' ''hot'' False 1"
  let ?token = "describe_field ''openuds.auth_token'' ''text'' ''critical'' ''restart'' True 102"
  have f: "?name \<in> set pmp_config_descriptor" "?token \<in> set pmp_config_descriptor" by (simp_all add: pmp_config_descriptor_def)
  have g: "given_value new_name ?name = Some (JStr ''New'')" "given_value new_name ?token = None"
    "path_parts ?name = [''server_name'']" "path_parts ?token = [''openuds'', ''auth_token'']" by code_simp+
  have other: "\<forall>f \<in> set pmp_config_descriptor. given_value new_name f \<noteq> None \<longrightarrow> parallel (path_parts f) [''custom'']"
  proof (intro ballI impI)
    fix f assume "f \<in> set pmp_config_descriptor" "given_value new_name f \<noteq> None"
    then obtain v where "given_value new_name f = Some v" by auto
    with \<open>f \<in> set pmp_config_descriptor\<close> have "(path_parts f, v) \<in> set (List.map_filter (\<lambda>f. map_option (\<lambda>v. (path_parts f, v)) (given_value new_name f)) pmp_config_descriptor)"
      by (force simp: List.map_filter_def)
    then show "parallel (path_parts f) [''custom'']" unfolding two_docs_given by (simp add: parallel_def)
  qed
  from config_patch_exact [OF two_docs_merge two_docs_round_trip] obtain root root' where
    r: "y_parse two_docs ''old'' = Inr root" "y_parse two_docs ''new'' = Inr root'" and
    fields: "\<forall>f \<in> set pmp_config_descriptor. ypath root' (path_parts f) =
       (case given_value new_name f of Some v \<Rightarrow> Some (json_to_yaml two_docs v) | None \<Rightarrow> ypath root (path_parts f))" and
    rest: "\<forall>js. (\<forall>f \<in> set pmp_config_descriptor. given_value new_name f \<noteq> None \<longrightarrow> parallel (path_parts f) js) \<longrightarrow> ypath root' js = ypath root js"
    by blast
  have "root = old_doc ''Old''" using r(1) by (simp add: two_docs_def)
  with bspec [OF fields f(1)] bspec [OF fields f(2)] rest [rule_format, OF other [rule_format]] g r(2) show ?thesis by (simp add: old_doc_def)
qed

theorem diff_confirms_guess_witness:
  "\<exists>proposed f. cf_sensitive f \<and> merge_yaml_patch two_docs ''old'' (JObj [(''openuds.auth_token'', JStr ''S'')]) = Inr proposed \<and>
     change_of two_docs ''old'' proposed f = None"
proof -
  let ?token = "describe_field ''openuds.auth_token'' ''text'' ''critical'' ''restart'' True 102"
  have f: "?token \<in> set pmp_config_descriptor" by (simp add: pmp_config_descriptor_def)
  have m: "merge_yaml_patch two_docs ''old'' (JObj [(''openuds.auth_token'', JStr ''S'')]) = Inr ''old''"
  proof -
    have "patch_fields two_docs (JObj [(''openuds.auth_token'', JStr ''S'')]) pmp_config_descriptor (old_doc ''Old'') = Inr (old_doc ''Old'')"
      unfolding patch_as_list guess_given by (simp add: old_doc_def)
    then show ?thesis by (simp add: merge_yaml_patch_def two_docs_io)
  qed
  have v: "field_value two_docs ''old'' ?token = Some (YStr ''S'')" "cf_sensitive ?token" "\<not> redacted_sentinel (JStr ''S'')"
    "get_field (JObj [(''openuds.auth_token'', JStr ''S'')]) (cf_path ?token) = Some (JStr ''S'')" by code_simp+
  have "change_of two_docs ''old'' ''old'' ?token = None \<longleftrightarrow> ''S'' = ''S''"
    by (rule diff_confirms_guess [OF two_docs_round_trip _ f v(2) v(1) v(4) v(3) m]) (simp add: two_docs_def)
  then have "change_of two_docs ''old'' ''old'' ?token = None" by simp
  with m v(2) show ?thesis by blast
qed

text \<open>Two documents whose secrets differ.\<close>

definition secret_docs :: yaml_libs where
  "secret_docs = two_docs\<lparr>y_parse := (\<lambda>t. Inr (YMap [(YStr ''database_url'', YStr t)]))\<rparr>"

theorem views_hide_secrets_witness:
  "fst (route_values demo_env secret_docs demo_principal \<lparr>cf_pool = None, cf_file = Some ''p1''\<rparr>) =
   fst (route_values demo_env secret_docs demo_principal \<lparr>cf_pool = None, cf_file = Some ''p2''\<rparr>)"
proof -
  have one: "ypath (YMap [(YStr k, v)]) (j # js) = (if j = k then ypath v js else None)" for k j :: string and v js
    by (simp add: yget_def)
  have "field_value secret_docs t f = (if path_parts f = [''database_url''] then Some (YStr t) else None)"
    if "f \<in> set pmp_config_descriptor" for f t
  proof -
    have "path_parts f \<in> set (map path_parts pmp_config_descriptor)" using that by simp
    then have "path_parts f = [''database_url''] \<or> hd (path_parts f) \<noteq> ''database_url'' \<and> path_parts f \<noteq> []"
      unfolding descriptor_parts by auto
    then show ?thesis by (cases "path_parts f") (auto simp: field_value_def secret_docs_def one)
  qed
  moreover have "list_all (\<lambda>f. path_parts f = [''database_url''] \<longrightarrow> cf_sensitive f) pmp_config_descriptor" by code_simp
  ultimately have "same_but_secrets secret_docs ''p1'' ''p2''" by (auto simp: same_but_secrets_def list_all_iff)
  from views_hide_secrets [OF this, of demo_env demo_principal "\<lparr>cf_pool = None, cf_file = None\<rparr>"] show ?thesis by simp
qed

text \<open>A save, followed by its rollback.\<close>

definition critical_claims :: reauth_claims where
  "critical_claims = sudo_claims\<lparr>rc_risk := ''critical''\<rparr>"

definition critical_env :: env where
  "critical_env = demo_env\<lparr>libs_of := demo_libs (reauth_json (demo_libs JNull) critical_claims),
     cfg := default_config\<lparr>pmp := default_pmp\<lparr>config_path := Some ''f''\<rparr>\<rparr>\<rparr>"

definition operator_db :: db where
  "operator_db = sample_db\<lparr>group_permissions := [(1, ''config:reload'')]\<rparr>"

definition free_disk :: disk where
  "free_disk = \<lparr>disk_write = True, disk_rename = True\<rparr>"

lemma critical_reauth: "reauth critical_env demo_principal [(''x-reauth-token'', ''t'')] RCritical = Inr ()"
proof -
  let ?L = "demo_libs (reauth_json (demo_libs JNull) critical_claims)"
  have "reauth_of_json ?L (reauth_json (demo_libs JNull) critical_claims) = Some critical_claims"
    by (simp add: reauth_of_json_def access_of_json_def reauth_json_def field_defs critical_claims_def sudo_claims_def
        demo_libs_def parse_principal_def parse_client_def i64_range_def)
  moreover have "jwt_decode ?L ''k'' ''t'' 0 = Some (reauth_json (demo_libs JNull) critical_claims)" by (simp add: demo_libs_def)
  ultimately have "check_reauth_header ?L ''k'' 0 demo_principal [(''x-reauth-token'', ''t'')] RCritical = Inr ()"
    by (simp add: check_reauth_header_def decode_reauth_def sudo_header)
      (simp add: critical_claims_def sudo_claims_def demo_principal_def timestamp_def)
  then show ?thesis by (simp add: reauth_def critical_env_def demo_env_def)
qed

lemma operator_saves:
  "\<exists>t. save critical_env two_docs (\<lambda>_ _. Inr JNull) free_disk 5 6 demo_principal [(''x-reauth-token'', ''t'')] new_name ''n''
     \<lparr>cf_pool = Some operator_db, cf_file = Some ''old''\<rparr> = (Inr 5, t)"
proof -
  have "granted operator_db 7 = {''config:reload''}"
    by (auto simp: granted_def member_groups_def operator_db_def sample_db_def new_group_def empty_db_def ROOT_WILDCARD_def)
  then have req: "require demo_principal ''config:reload'' (Some operator_db) = (Inr (), Some operator_db)"
    by (intro require_granted) (simp_all add: demo_principal_def is_root_def, simp add: operator_db_def sample_db_def empty_db_def)
  have v: "fst (validate_values new_name)" by code_simp
  have "prepare_save critical_env two_docs demo_principal [(''x-reauth-token'', ''t'')] new_name
      \<lparr>cf_pool = Some operator_db, cf_file = Some ''old''\<rparr> = (Inr (''old'', ''new''), \<lparr>cf_pool = Some operator_db, cf_file = Some ''old''\<rparr>)"
    by (simp add: prepare_save_def on_cf_pool_def req critical_reauth v two_docs_merge two_docs_io configured_def read_yaml_def asks_def some_or_def
        andthen_def bnd_def ret_def from_result_def ensure_def) (simp add: critical_env_def)
  moreover have "with_db (insert_snapshot 5 ''pmp'' ''old'' (''pre-save: '' @ ''n'') (Some (sub demo_principal))) (Some operator_db) =
      (Inr 5, Some (operator_db\<lparr>config_snapshots := [\<lparr>cs_id = 5, cs_scope = ''pmp'', cs_content = ''old'', cs_note = ''pre-save: n'',
        cs_created_by = Some 7, cs_created_at = 0, cs_restored_at = None\<rparr>]\<rparr>))"
    by (simp add: with_db_def insert_snapshot_def map_err_def query_calm authored_def known_author_def operator_db_def sample_db_def empty_db_def demo_principal_def)
  ultimately show ?thesis
    by (simp add: save_def bnd_def on_cf_pool_def commit_save_def write_yaml_atomic_def reload_pmp_def andthen_def from_result_def ignore_def ret_def
        free_disk_def split: prod.splits) (simp add: critical_env_def)
qed

theorem config_change_undoable_witness:
  "may (Some operator_db) demo_principal ''config:reload'' \<and> reauth critical_env demo_principal [(''x-reauth-token'', ''t'')] RCritical = Inr ()"
proof -
  obtain t where run: "save critical_env two_docs (\<lambda>_ _. Inr JNull) free_disk 5 6 demo_principal [(''x-reauth-token'', ''t'')] new_name ''n''
      \<lparr>cf_pool = Some operator_db, cf_file = Some ''old''\<rparr> = (Inr 5, t)"
    using operator_saves by (elim exE)
  from config_change_undoable [OF run disjI2 [OF refl], of critical_env "\<lambda>_ _. Inr JNull" "Inr ()" free_disk 6 demo_principal "[]" "(5, JNull)" t]
  show ?thesis by (elim conjE) (simp only: config_state.simps conj_absorb simp_thms)
qed

end
