(* ===== verification/Phira_Client.thy ===== *)
theory Phira_Client
  imports Login
begin

text \<open>
  The HTTP client of the Phira API (\<^verbatim>\<open>phira/client.rs\<close>) and the cipher for the refresh tokens it
  yields (\<^verbatim>\<open>phira/credential.rs\<close>). The network is a parameter: the answer to a call sent at an instant
  and the time until it is complete. A call is a computation whose state is the clock, so the
  bounds on the time a user waits are theorems about the loops as they are written.
\<close>

section \<open>The network\<close>

datatype http_call =
    HttpGet string "(string \<times> string) list"
  | HttpGetBearer string string
  | HttpPostJson string json

text \<open>Reading the body can fail on its own, with the text of the failure.\<close>

record http_reply =
  rp_status :: nat
  rp_location :: "string option"
  rp_content_type :: "string option"
  rp_body :: "string + string"

datatype sent =
    Reply http_reply
  | Broken string bool

text \<open>\<open>Broken m transient\<close>: no answer, with the text of the error and whether it was a timeout or a
  failed connect. The other fields are the JSON reader and the text of a status.\<close>

record net =
  exchange :: "instant \<Rightarrow> http_call \<Rightarrow> sent \<times> int"
  read_json :: "string \<Rightarrow> json option"
  status_text :: "nat \<Rightarrow> string"

definition is_success :: "nat \<Rightarrow> bool" where
  "is_success s \<longleftrightarrow> 200 \<le> s \<and> s < 300"

definition is_redirection :: "nat \<Rightarrow> bool" where
  "is_redirection s \<longleftrightarrow> 300 \<le> s \<and> s < 400"

definition is_server_error :: "nat \<Rightarrow> bool" where
  "is_server_error s \<longleftrightarrow> 500 \<le> s \<and> s < 600"

definition ms :: "int \<Rightarrow> int" where
  "ms n = n * 1000000"

section \<open>Retries\<close>

definition RETRY_MAX_ATTEMPTS :: nat where "RETRY_MAX_ATTEMPTS = 3"
definition RETRY_BASE_DELAY_MS :: int where "RETRY_BASE_DELAY_MS = 100"
definition RETRY_TOTAL_BUDGET_MS :: int where "RETRY_TOTAL_BUDGET_MS = 5000"
definition MAX_REDIRECTS :: nat where "MAX_REDIRECTS = 5"

definition is_transient_http_error :: "sent \<Rightarrow> bool" where
  "is_transient_http_error r \<longleftrightarrow> (case r of Broken _ b \<Rightarrow> b | Reply _ \<Rightarrow> False)"

definition backoff_delay :: "nat \<Rightarrow> int" where
  "backoff_delay tries = ms (push_bit (min tries 3) RETRY_BASE_DELAY_MS)"

definition sleep_backoff :: "nat \<Rightarrow> instant \<Rightarrow> (instant, phira_error, unit) comp" where
  "sleep_backoff tries deadline now =
     (if deadline < now + backoff_delay tries then (Inl (PhiraUnavailable ''Phira API retry budget exceeded''), now)
      else (Inr (), now + backoff_delay tries))"

definition redirect_location :: "string \<Rightarrow> http_reply \<Rightarrow> phira_error + string" where
  "redirect_location base rp =
     (case rp_location rp of
        None \<Rightarrow> Inl (PhiraApi ''redirect without Location'')
      | Some l \<Rightarrow>
          if starts_with l ''http://'' \<or> starts_with l ''https://'' then Inr l
          else Inr (trim_end_slashes base @ l))"

text \<open>The loop of \<open>login_post\<close> and \<open>me\<close>: redirects are followed by hand so that the method and the body
  are kept, and transient failures are retried. The two differ in the call, the label of their
  errors and the reading of the final answer.\<close>

function follow ::
  "net \<Rightarrow> (string \<Rightarrow> http_call) \<Rightarrow> string \<Rightarrow> (http_reply \<Rightarrow> phira_error + 'a) \<Rightarrow> string \<Rightarrow> instant \<Rightarrow> nat \<Rightarrow> nat \<Rightarrow> string \<Rightarrow>
   (instant, phira_error, 'a) comp" where
  "follow N call label finish base deadline tries redirects url now =
     (case exchange N now (call url) of (r, took) \<Rightarrow>
        case r of
          Reply rp \<Rightarrow>
            if is_redirection (rp_status rp) then
              if MAX_REDIRECTS \<le> redirects then (Inl (PhiraApi (label @ '': too many redirects'')), now + took)
              else (case redirect_location base rp of
                  Inl e \<Rightarrow> (Inl e, now + took)
                | Inr u \<Rightarrow> follow N call label finish base deadline tries (redirects + 1) u (now + took))
            else if is_server_error (rp_status rp) \<and> tries < RETRY_MAX_ATTEMPTS then
              (case sleep_backoff (tries + 1) deadline (now + took) of
                 (Inl e, t) \<Rightarrow> (Inl e, t)
               | (Inr _, t) \<Rightarrow> follow N call label finish base deadline (tries + 1) redirects url t)
            else (finish rp, now + took)
        | Broken m _ \<Rightarrow>
            if is_transient_http_error r \<and> tries < RETRY_MAX_ATTEMPTS then
              (case sleep_backoff (tries + 1) deadline (now + took) of
                 (Inl e, t) \<Rightarrow> (Inl e, t)
               | (Inr _, t) \<Rightarrow> follow N call label finish base deadline (tries + 1) redirects url t)
            else (Inl (PhiraUnavailable m), now + took))"
  by pat_completeness auto
termination
  by (relation "measure (\<lambda>(N, call, label, finish, base, deadline, tries, redirects, url, now).
        (RETRY_MAX_ATTEMPTS - tries) + (MAX_REDIRECTS - redirects))") auto

declare follow.simps [simp del]

section \<open>The calls\<close>

text \<open>A derived reader takes an object by its fields or an array in the order of the fields.\<close>

definition login_of_json :: "json \<Rightarrow> phira_login_response option" where
  "login_of_json v =
     (case v of
        JObj _ \<Rightarrow>
          Option.bind (int_field v ''id'') (\<lambda>i. Option.bind (string_field v ''token'') (\<lambda>t.
          Option.bind (string_field v ''refreshToken'') (\<lambda>r. Option.bind (string_field v ''expireAt'') (\<lambda>e.
            Some \<lparr>pl_id = i, pl_token = t, pl_refresh_token = r, pl_expire_at = e\<rparr>))))
      | JArr [i, t, r, e] \<Rightarrow>
          Option.bind (as_i64 i) (\<lambda>i. Option.bind (as_string t) (\<lambda>t. Option.bind (as_string r) (\<lambda>r. Option.bind (as_string e) (\<lambda>e.
            Some \<lparr>pl_id = i, pl_token = t, pl_refresh_token = r, pl_expire_at = e\<rparr>))))
      | _ \<Rightarrow> None)"

text \<open>\<open>avatar\<close> defaults to the empty text when it is absent, not when it is something else.\<close>

definition me_of_json :: "json \<Rightarrow> phira_me option" where
  "me_of_json v =
     (case v of
        JObj _ \<Rightarrow>
          Option.bind (int_field v ''id'') (\<lambda>i. Option.bind (string_field v ''name'') (\<lambda>n.
          Option.bind (case get_field v ''avatar'' of None \<Rightarrow> Some [] | Some w \<Rightarrow> as_string w) (\<lambda>av.
            Some \<lparr>me_id = i, me_username = n, me_avatar = av\<rparr>)))
      | JArr [i, n] \<Rightarrow>
          Option.bind (as_i64 i) (\<lambda>i. Option.bind (as_string n) (\<lambda>n. Some \<lparr>me_id = i, me_username = n, me_avatar = []\<rparr>))
      | JArr [i, n, w] \<Rightarrow>
          Option.bind (as_i64 i) (\<lambda>i. Option.bind (as_string n) (\<lambda>n. Option.bind (as_string w) (\<lambda>av.
            Some \<lparr>me_id = i, me_username = n, me_avatar = av\<rparr>)))
      | _ \<Rightarrow> None)"

definition parse_login_response :: "net \<Rightarrow> http_reply \<Rightarrow> phira_error + phira_login_response" where
  "parse_login_response N rp =
     (case rp_body rp of
        Inl m \<Rightarrow> Inl (PhiraUnavailable m)
      | Inr text \<Rightarrow>
          (case Option.bind (read_json N text) (\<lambda>v. string_field v ''error'') of
             Some err \<Rightarrow> Inl (if rp_status rp = 401 then InvalidCredentials else ReauthRequired err)
           | None \<Rightarrow>
               (case Option.bind (read_json N text) login_of_json of
                  Some l \<Rightarrow> Inr l
                | None \<Rightarrow> Inl (PhiraApi (''unexpected login payload (status '' @ status_text N (rp_status rp) @ '')'')))))"

definition parse_me_response :: "net \<Rightarrow> http_reply \<Rightarrow> phira_error + phira_me" where
  "parse_me_response N rp =
     (case rp_body rp of
        Inl m \<Rightarrow> Inl (PhiraUnavailable m)
      | Inr text \<Rightarrow>
          if \<not> is_success (rp_status rp) then Inl (PhiraApi (''/me failed: status '' @ status_text N (rp_status rp)))
          else (case Option.bind (read_json N text) me_of_json of
              Some m \<Rightarrow> Inr m | None \<Rightarrow> Inl (PhiraApi ''unexpected /me payload'')))"

record phira_client =
  pc_base_url :: string

definition phira_client_new :: "string \<Rightarrow> phira_client" where
  "phira_client_new base = \<lparr>pc_base_url = trim_end_slashes base\<rparr>"

definition login_post :: "net \<Rightarrow> phira_client \<Rightarrow> json \<Rightarrow> (instant, phira_error, phira_login_response) comp" where
  "login_post N c body now =
     follow N (\<lambda>u. HttpPostJson u body) ''login'' (parse_login_response N) (pc_base_url c) (now + ms RETRY_TOTAL_BUDGET_MS) 0 0
       (pc_base_url c @ ''/login'') now"

definition client_login_email :: "net \<Rightarrow> phira_client \<Rightarrow> string \<Rightarrow> string \<Rightarrow> (instant, phira_error, phira_login_response) comp" where
  "client_login_email N c email password = login_post N c (JObj [(''email'', JStr email), (''password'', JStr password)])"

definition client_login_refresh :: "net \<Rightarrow> phira_client \<Rightarrow> string \<Rightarrow> (instant, phira_error, phira_login_response) comp" where
  "client_login_refresh N c refresh_token = login_post N c (JObj [(''refreshToken'', JStr refresh_token)])"

definition client_me :: "net \<Rightarrow> phira_client \<Rightarrow> string \<Rightarrow> (instant, phira_error, phira_me) comp" where
  "client_me N c access_token now =
     follow N (\<lambda>u. HttpGetBearer u access_token) ''/me'' (parse_me_response N) (pc_base_url c) (now + ms RETRY_TOTAL_BUDGET_MS) 0 0
       (pc_base_url c @ ''/me'') now"

text \<open>The interface that the sign-in flows use: the instants are those at which the login and the
  question for the profile are sent.\<close>

definition client_api :: "net \<Rightarrow> phira_client \<Rightarrow> instant \<Rightarrow> instant \<Rightarrow> phira_api" where
  "client_api N c login_at me_at =
     \<lparr>login_email = (\<lambda>e p. fst (client_login_email N c e p login_at)),
      me_of = (\<lambda>t. fst (client_me N c t me_at))\<rparr>"

section \<open>Refresh tokens at rest\<close>

text \<open>The cipher is a parameter: sealing and opening under a nonce.\<close>

record aead =
  seal :: "string \<Rightarrow> string \<Rightarrow> string option"
  unseal :: "string \<Rightarrow> string \<Rightarrow> string option"

definition NONCE_LEN :: nat where "NONCE_LEN = 12"

definition credential_encrypt :: "aead \<Rightarrow> string \<Rightarrow> string \<Rightarrow> api_error + string" where
  "credential_encrypt C nonce plaintext =
     (case seal C nonce plaintext of
        None \<Rightarrow> Inl (api_error_new InternalError ''credential encryption failed'')
      | Some ct \<Rightarrow> Inr (nonce @ ct))"

definition credential_decrypt :: "aead \<Rightarrow> string \<Rightarrow> api_error + string" where
  "credential_decrypt C blob =
     (if length blob < NONCE_LEN then Inl (api_error_new InternalError ''credential blob too short'')
      else case unseal C (take NONCE_LEN blob) (drop NONCE_LEN blob) of
          None \<Rightarrow> Inl (api_error_new InternalError ''credential decryption failed'')
        | Some p \<Rightarrow> Inr p)"

section \<open>How long a call can take\<close>

lemma backoff_delays: "map backoff_delay [1, 2, 3] = [ms 200, ms 400, ms 800]"
  by (simp add: backoff_delay_def RETRY_BASE_DELAY_MS_def push_bit_eq_mult eval_nat_numeral)

lemma sleep_backoff_InrD: "sleep_backoff a deadline t = (Inr u, t') \<Longrightarrow> t' = t + backoff_delay a \<and> t' \<le> deadline"
  by (auto simp: sleep_backoff_def split: if_splits)

lemma sleep_backoff_InlD: "sleep_backoff a deadline t = (Inl e, t') \<Longrightarrow> t' = t"
  by (auto simp: sleep_backoff_def split: if_splits)

text \<open>A network of which no exchange takes longer than the configured timeout.\<close>

definition answers_within :: "int \<Rightarrow> net \<Rightarrow> bool" where
  "answers_within timeout N \<longleftrightarrow> (\<forall>t c. 0 \<le> snd (exchange N t c) \<and> snd (exchange N t c) \<le> timeout)"

lemma retry_time:
  assumes "\<And>u t. (Inr u, t) = sleep_backoff n deadline now \<Longrightarrow> t \<le> deadline \<Longrightarrow> snd (k t) \<le> bound" and "now \<le> bound"
  shows "snd (case sleep_backoff n deadline now of (Inl e, t) \<Rightarrow> (Inl e, t) | (Inr u, t) \<Rightarrow> k t) \<le> bound"
  using assms(2) assms(1) [OF sym]
  by (auto split: prod.splits sum.splits dest: sleep_backoff_InlD sleep_backoff_InrD)

lemma follow_time:
  assumes "answers_within timeout N" and "now \<le> deadline + int redirects * timeout" and "redirects \<le> MAX_REDIRECTS"
  shows "snd (follow N call label finish base deadline tries redirects url now) \<le> deadline + 6 * timeout"
  using assms
proof (induction N call label finish base deadline tries redirects url now rule: follow.induct)
  case (1 N call label finish base deadline tries redirects url now)
  obtain r took where x: "exchange N now (call url) = (r, took)" by fastforce
  with "1.prems"(1) have took: "0 \<le> took" "took \<le> timeout"
    unfolding answers_within_def by (metis snd_conv)+
  then have last: "now + took \<le> deadline + (int redirects + 1) * timeout" and pos: "0 \<le> timeout"
    using "1.prems"(2) by (auto simp: distrib_right)
  have "(int redirects + 1) * timeout \<le> 6 * timeout"
    using "1.prems"(3) pos by (intro mult_right_mono) (auto simp: MAX_REDIRECTS_def)
  with last have final: "now + took \<le> deadline + 6 * timeout" by linarith
  have "deadline \<le> deadline + int redirects * timeout" using pos by simp
  then have slept: "snd (case sleep_backoff (tries + 1) deadline (now + took) of (Inl e, t) \<Rightarrow> (Inl e, t)
      | (Inr u, t) \<Rightarrow> follow N call label finish base deadline (tries + 1) redirects url t) \<le> deadline + 6 * timeout"
    if "\<And>u t. (Inr u, t) = sleep_backoff (tries + 1) deadline (now + took) \<Longrightarrow> t \<le> deadline + int redirects * timeout \<Longrightarrow>
      snd (follow N call label finish base deadline (tries + 1) redirects url t) \<le> deadline + 6 * timeout"
    using that final by (intro retry_time) (auto intro: order_trans)
  have next_hop: "now + took \<le> deadline + int (redirects + 1) * timeout" using last by (simp add: add.commute)
  show ?case
  proof (cases r)
    case (Reply rp)
    consider (redirected) "is_redirection (rp_status rp)"
      | (failed) "\<not> is_redirection (rp_status rp)" "is_server_error (rp_status rp)" "tries < RETRY_MAX_ATTEMPTS"
      | (answered) "\<not> is_redirection (rp_status rp)" "\<not> (is_server_error (rp_status rp) \<and> tries < RETRY_MAX_ATTEMPTS)"
      by blast
    then show ?thesis
    proof cases
      case redirected
      then show ?thesis
        using x Reply final "1.IH"(1) [OF x [symmetric] Reply] "1.prems"(1) next_hop
        by (subst follow.simps) (auto split: sum.splits)
    next
      case failed
      then show ?thesis
        using x Reply slept "1.IH"(2) [OF x [symmetric] Reply] "1.prems"
        by (subst follow.simps) auto
    next
      case answered
      with x Reply final show ?thesis by (subst follow.simps) auto
    qed
  next
    case (Broken m b)
    show ?thesis
    proof (cases "is_transient_http_error r \<and> tries < RETRY_MAX_ATTEMPTS")
      case True
      then show ?thesis
        using x Broken slept "1.IH"(3) [OF x [symmetric] Broken] "1.prems"
        by (subst follow.simps) auto
    next
      case False
      with x Broken final show ?thesis by (subst follow.simps) auto
    qed
  qed
qed

text \<open>A call to the Phira API ends no later than five seconds plus six timeouts after it starts: the
  retries are bounded by the budget, and after the last sleep at most the redirects that are left and
  one further request follow. This holds for every network whose exchanges respect the timeout.\<close>

theorem sign_in_time:
  assumes "answers_within timeout N"
  shows "snd (client_login_email N c email password now) \<le> now + ms 5000 + 6 * timeout \<and>
    snd (client_me N c access now) \<le> now + ms 5000 + 6 * timeout"
  unfolding client_login_email_def login_post_def client_me_def RETRY_TOTAL_BUDGET_MS_def
  by (intro conjI follow_time [OF assms]) (simp_all add: ms_def)

definition quick_net :: net where
  "quick_net = \<lparr>exchange = (\<lambda>t c. (Broken ''refused'' True, ms 5)), read_json = (\<lambda>_. None), status_text = (\<lambda>_. [])\<rparr>"

theorem sign_in_time_witness: "snd (client_me quick_net \<lparr>pc_base_url = ''https://p''\<rparr> ''tok'' 0) \<le> ms 5030"
  using sign_in_time [of "ms 5" quick_net "\<lparr>pc_base_url = ''https://p''\<rparr>" _ _ 0 "''tok''"]
  by (simp add: answers_within_def quick_net_def ms_def)

text \<open>The budget of five seconds is no cap on the wait: with the default timeout a call can take ninety
  seconds, all of it spent following redirects, which are not charged to the budget.\<close>

definition wandering_net :: net where
  "wandering_net =
     \<lparr>exchange = (\<lambda>t c. (Reply \<lparr>rp_status = 302, rp_location = Some ''/x'', rp_content_type = None, rp_body = Inr []\<rparr>,
        ms (int (timeout_ms default_phira)))), read_json = (\<lambda>_. None), status_text = (\<lambda>_. [])\<rparr>"

lemma wandering_follow:
  "redirects + n = 5 \<Longrightarrow> snd (follow wandering_net call label finish base deadline tries redirects url now) =
     now + (int n + 1) * ms 15000"
proof (induction n arbitrary: redirects url now)
  case 0
  then show ?case
    by (subst follow.simps) (simp add: wandering_net_def is_redirection_def MAX_REDIRECTS_def default_phira_def)
next
  case (Suc n)
  then have "snd (follow wandering_net call label finish base deadline tries (redirects + 1) u t) = t + (int n + 1) * ms 15000" for u t
    by (intro Suc.IH) simp
  moreover have "exchange wandering_net now (call url) =
      (Reply \<lparr>rp_status = 302, rp_location = Some ''/x'', rp_content_type = None, rp_body = Inr []\<rparr>, ms 15000)"
    by (simp add: wandering_net_def default_phira_def)
  ultimately show ?case
    using Suc.prems
    by (subst follow.simps) (simp add: is_redirection_def MAX_REDIRECTS_def redirect_location_def algebra_simps)
qed

theorem retry_budget_is_no_cap:
  "answers_within (ms (int (timeout_ms default_phira))) wandering_net \<and>
   snd (client_login_email wandering_net c email password now) = now + ms 90000"
  by (simp add: client_login_email_def login_post_def wandering_follow [where n = 5])
    (simp add: answers_within_def wandering_net_def ms_def default_phira_def)

section \<open>Where a profile comes from\<close>

lemma retry_InrD:
  "(case sleep_backoff n deadline now of (Inl e, t) \<Rightarrow> (Inl e, t) | (Inr u, t) \<Rightarrow> k t) = (Inr x, t') \<Longrightarrow>
   \<exists>u t. (Inr u, t) = sleep_backoff n deadline now \<and> k t = (Inr x, t')"
  by (auto split: prod.splits sum.splits)

lemma follow_InrD:
  "follow N call label finish base deadline tries redirects url now = (Inr x, t') \<Longrightarrow>
   \<exists>t u rp. fst (exchange N t (call u)) = Reply rp \<and> finish rp = Inr x"
proof (induction N call label finish base deadline tries redirects url now rule: follow.induct)
  case (1 N call label finish base deadline tries redirects url now)
  obtain r took where x: "exchange N now (call url) = (r, took)" by fastforce
  note run = "1.prems" [unfolded follow.simps [of N call label finish base deadline tries redirects url now] x]
  show ?case
  proof (cases r)
    case (Reply rp)
    with run x show ?thesis
      using "1.IH"(1) [OF x [symmetric] Reply] "1.IH"(2) [OF x [symmetric] Reply]
      by (auto split: if_splits sum.splits dest!: retry_InrD) (metis fst_conv)+
  next
    case (Broken m b)
    with run show ?thesis
      using "1.IH"(3) [OF x [symmetric] Broken] by (auto split: if_splits dest!: retry_InrD)
  qed
qed

text \<open>A sign-in rests on what the upstream said: a profile is read from an answer of status 2xx to a
  request that carried the access token, and a login from an answer without an error.\<close>

theorem profile_from_answer:
  assumes "client_me N c access now = (Inr m, t')"
  shows "\<exists>t u rp text v. fst (exchange N t (HttpGetBearer u access)) = Reply rp \<and> is_success (rp_status rp) \<and>
    rp_body rp = Inr text \<and> read_json N text = Some v \<and> me_of_json v = Some m"
proof -
  from follow_InrD [OF assms [unfolded client_me_def]] obtain t u rp
    where "fst (exchange N t (HttpGetBearer u access)) = Reply rp"
      and "parse_me_response N rp = Inr m" by blast
  moreover from this(2) obtain w v where "is_success (rp_status rp)" "rp_body rp = Inr w" "read_json N w = Some v" "me_of_json v = Some m"
    by (auto simp: parse_me_response_def bind_eq_Some_conv split: sum.splits if_splits option.splits)
  ultimately show ?thesis by blast
qed

definition greeting_net :: net where
  "greeting_net =
     \<lparr>exchange = (\<lambda>t c. (Reply \<lparr>rp_status = 200, rp_location = None, rp_content_type = None, rp_body = Inr ''me''\<rparr>, 0)),
      read_json = (\<lambda>_. Some (JArr [JInt 7, JStr ''bob''])), status_text = (\<lambda>_. [])\<rparr>"

theorem profile_from_answer_witness:
  "\<exists>t u rp text v. fst (exchange greeting_net t (HttpGetBearer u ''tok'')) = Reply rp \<and> is_success (rp_status rp) \<and>
    rp_body rp = Inr text \<and> read_json greeting_net text = Some v \<and>
    me_of_json v = Some \<lparr>me_id = 7, me_username = ''bob'', me_avatar = []\<rparr>"
proof -
  have "client_me greeting_net \<lparr>pc_base_url = ''https://p''\<rparr> ''tok'' 0 = (Inr \<lparr>me_id = 7, me_username = ''bob'', me_avatar = []\<rparr>, 0)"
    unfolding client_me_def
    by (subst follow.simps)
      (simp add: greeting_net_def is_redirection_def is_server_error_def parse_me_response_def is_success_def me_of_json_def as_i64_def i64_range_def)
  then show ?thesis by (rule profile_from_answer)
qed

section \<open>Stored refresh tokens\<close>

text \<open>A stored token opens to what was sealed, whatever the nonce; and a blob that is shorter than a
  nonce is refused.\<close>

theorem credential_round_trip:
  assumes "\<And>n p ct. seal C n p = Some ct \<Longrightarrow> unseal C n ct = Some p" and "length nonce = NONCE_LEN"
    and "credential_encrypt C nonce p = Inr blob"
  shows "credential_decrypt C blob = Inr p"
  using assms by (auto simp: credential_encrypt_def credential_decrypt_def split: option.splits)

theorem credential_round_trip_witness:
  "credential_decrypt \<lparr>seal = (\<lambda>n p. Some (rev p)), unseal = (\<lambda>n c. Some (rev c))\<rparr> (''nonce-of-12b'' @ ''tok'') = Inr ''kot''"
  by (rule credential_round_trip [where nonce = "''nonce-of-12b''"])
    (auto simp: credential_encrypt_def NONCE_LEN_def)

end
