(* ===== verification/Phira_Gateway.thy ===== *)
theory Phira_Gateway
  imports Phira_Client "HOL-Library.Multiset"
begin

text \<open>
  The gateway to the public data of Phira (\<^verbatim>\<open>phira/gateway.rs\<close>): a cache with a time to live, one flight per
  key, a rate limit and retries. \<open>get_json\<close> is the operation as one request runs it; the machine
  \<open>gw_step\<close> interleaves the same steps of many requests, and a run of \<open>get_json\<close> is a run of the machine.
  The invariant of the machine says how often the upstream is asked and what an answer can be.
\<close>

section \<open>The gateway\<close>

record cached_value =
  cv_value :: json
  cv_expires :: instant

record cached_file =
  cf_bytes :: string
  cf_content_type :: string
  cf_expires :: instant

text \<open>\<open>gw_now\<close> is the clock; \<open>gw_locks\<close> the keys that have a lock.\<close>

record gateway =
  gw_now :: instant
  gw_base_url :: string
  gw_cache :: "(string \<times> cached_value) list"
  gw_file_cache :: "(string \<times> cached_file) list"
  gw_locks :: "string list"
  gw_rate :: buckets
  gw_ttl_secs :: int
  gw_rate_per_minute :: nat

definition gateway_new :: "instant \<Rightarrow> string \<Rightarrow> int \<Rightarrow> nat \<Rightarrow> gateway" where
  "gateway_new now url ttl_secs per_minute =
     \<lparr>gw_now = now, gw_base_url = trim_end_slashes url, gw_cache = [], gw_file_cache = [], gw_locks = [], gw_rate = [],
      gw_ttl_secs = ttl_secs, gw_rate_per_minute = per_minute\<rparr>"

type_synonym params = "(string \<times> string) list"

definition cache_key :: "string \<Rightarrow> params \<Rightarrow> string" where
  "cache_key p q = p @ ''?'' @ join_with ''&'' (sort (map (\<lambda>(k, v). k @ ''='' @ v) q))"

definition ttl_of :: "gateway \<Rightarrow> int" where
  "ttl_of g = secs (max (gw_ttl_secs g) 1)"

text \<open>The lookup of \<open>get_json\<close>: an entry that has not expired.\<close>

definition cached :: "string \<Rightarrow> gateway \<Rightarrow> json option" where
  "cached key g =
     (case aget (gw_cache g) key of
        Some cv \<Rightarrow> if gw_now g < cv_expires cv then Some (cv_value cv) else None
      | None \<Rightarrow> None)"

definition admit :: "string \<Rightarrow> (gateway, phira_error, unit) comp" where
  "admit p g =
     (case check (now_secs (gw_now g)) (''phira:'' @ p) (gw_rate_per_minute g) (gw_rate g) of
        (Inl _, bs) \<Rightarrow> (Inl PhiraRateLimited, g\<lparr>gw_rate := bs\<rparr>)
      | (Inr _, bs) \<Rightarrow> (Inr (), g\<lparr>gw_rate := bs\<rparr>))"

definition take_lock :: "string \<Rightarrow> gateway \<Rightarrow> gateway" where
  "take_lock key g = (if key \<in> set (gw_locks g) then g else g\<lparr>gw_locks := key # gw_locks g\<rparr>)"

definition store :: "string \<Rightarrow> json \<Rightarrow> gateway \<Rightarrow> gateway" where
  "store key v g = g\<lparr>gw_cache := aput key \<lparr>cv_value = v, cv_expires = gw_now g + ttl_of g\<rparr> (gw_cache g)\<rparr>"

function fetch_loop ::
  "net \<Rightarrow> string \<Rightarrow> params \<Rightarrow> string \<Rightarrow> instant \<Rightarrow> nat \<Rightarrow> (instant, phira_error, json) comp" where
  "fetch_loop N p q url deadline tries now =
     (case exchange N now (HttpGet url q) of (r, took) \<Rightarrow>
        case r of
          Reply rp \<Rightarrow>
            (case rp_body rp of
               Inl m \<Rightarrow> (Inl (PhiraUnavailable m), now + took)
             | Inr body \<Rightarrow>
                 if is_success (rp_status rp) then
                   (case read_json N body of
                      Some v \<Rightarrow> (Inr v, now + took)
                    | None \<Rightarrow> (Inl (PhiraApi (''unexpected payload for '' @ p)), now + took))
                 else if rp_status rp = 404 then (Inl (PhiraApi (p @ '' not found'')), now + took)
                 else if is_server_error (rp_status rp) \<and> tries < RETRY_MAX_ATTEMPTS then
                   (case sleep_backoff (tries + 1) deadline (now + took) of
                      (Inl e, t) \<Rightarrow> (Inl e, t)
                    | (Inr _, t) \<Rightarrow> fetch_loop N p q url deadline (tries + 1) t)
                 else (Inl (PhiraApi (p @ '' failed: status '' @ status_text N (rp_status rp))), now + took))
        | Broken m _ \<Rightarrow>
            if tries < RETRY_MAX_ATTEMPTS \<and> is_transient_http_error r then
              (case sleep_backoff (tries + 1) deadline (now + took) of
                 (Inl e, t) \<Rightarrow> (Inl e, t)
               | (Inr _, t) \<Rightarrow> fetch_loop N p q url deadline (tries + 1) t)
            else (Inl (PhiraUnavailable m), now + took))"
  by pat_completeness auto
termination
  by (relation "measure (\<lambda>(N, p, q, url, deadline, tries, now). RETRY_MAX_ATTEMPTS - tries)") auto

declare fetch_loop.simps [simp del]

definition fetch_with_retry :: "net \<Rightarrow> string \<Rightarrow> params \<Rightarrow> (gateway, phira_error, json) comp" where
  "fetch_with_retry N p q g =
     (case fetch_loop N p q (gw_base_url g @ ''/'' @ p) (gw_now g + ms RETRY_TOTAL_BUDGET_MS) 0 (gw_now g) of
        (r, t) \<Rightarrow> (r, g\<lparr>gw_now := t\<rparr>))"

definition get_json :: "net \<Rightarrow> string \<Rightarrow> params \<Rightarrow> (gateway, phira_error, json) comp" where
  "get_json N p q g =
     (let key = cache_key p q in
      case cached key g of
        Some v \<Rightarrow> (Inr v, g)
      | None \<Rightarrow>
          (case admit p g of
             (Inl e, g1) \<Rightarrow> (Inl e, g1)
           | (Inr _, g1) \<Rightarrow>
               let g2 = take_lock key g1 in
               (case cached key g2 of
                  Some v \<Rightarrow> (Inr v, g2)
                | None \<Rightarrow>
                    (case fetch_with_retry N p q g2 of
                       (Inl e, g3) \<Rightarrow> (Inl e, g3)
                     | (Inr v, g3) \<Rightarrow> (Inr v, store key v g3)))))"

section \<open>Typed methods\<close>

text \<open>The text of a floating-point number is a parameter.\<close>

definition chart_list ::
  "net \<Rightarrow> ('f \<Rightarrow> string) \<Rightarrow> int \<Rightarrow> int \<Rightarrow> string option \<Rightarrow> int option \<Rightarrow> 'f option \<Rightarrow> 'f option \<Rightarrow> string option \<Rightarrow> string option \<Rightarrow>
   (gateway, phira_error, json) comp" where
  "chart_list N f64_text page page_num search chart_type rating_min rating_max tags order =
     get_json N ''chart''
       ([(''page'', show_int page), (''pageNum'', show_int page_num)] @
        (case search of Some s \<Rightarrow> [(''search'', s)] | None \<Rightarrow> []) @
        (case chart_type of Some t \<Rightarrow> [(''type'', show_int t)] | None \<Rightarrow> []) @
        (if rating_min \<noteq> None \<or> rating_max \<noteq> None
         then [(''rating'', unwrap_or (map_option f64_text rating_min) [] @ '','' @ unwrap_or (map_option f64_text rating_max) [])]
         else []) @
        (case tags of Some t \<Rightarrow> if trim t \<noteq> [] then [(''tags'', t)] else [] | None \<Rightarrow> []) @
        (case order of Some t \<Rightarrow> if trim t \<noteq> [] then [(''order'', t)] else [] | None \<Rightarrow> []))"

definition chart :: "net \<Rightarrow> int \<Rightarrow> (gateway, phira_error, json) comp" where
  "chart N i = get_json N (''chart/'' @ show_int i) []"

definition chart_multi :: "net \<Rightarrow> int list \<Rightarrow> (gateway, phira_error, json) comp" where
  "chart_multi N ids = get_json N ''chart/multi-get'' [(''ids'', join_with '','' (map show_int ids))]"

definition chart_popular :: "net \<Rightarrow> int \<Rightarrow> (gateway, phira_error, json) comp" where
  "chart_popular N page_num = get_json N ''chart/popular'' [(''pageNum'', show_int page_num)]"

definition record_query :: "net \<Rightarrow> int \<Rightarrow> int \<Rightarrow> int \<Rightarrow> (gateway, phira_error, json) comp" where
  "record_query N chart_id page page_num =
     get_json N (''record/query/'' @ show_int chart_id) [(''page'', show_int page), (''pageNum'', show_int page_num)]"

definition record_query_player :: "net \<Rightarrow> int \<Rightarrow> int \<Rightarrow> int \<Rightarrow> (gateway, phira_error, json) comp" where
  "record_query_player N player page page_num =
     get_json N ''record'' [(''player'', show_int player), (''page'', show_int page), (''pageNum'', show_int page_num)]"

definition record_list15 :: "net \<Rightarrow> int \<Rightarrow> (gateway, phira_error, json) comp" where
  "record_list15 N chart_id = get_json N (''record/list15/'' @ show_int chart_id) []"

definition record_multi :: "net \<Rightarrow> int list \<Rightarrow> (gateway, phira_error, json) comp" where
  "record_multi N ids = get_json N ''record/multi-get'' [(''ids'', join_with '','' (map show_int ids))]"

definition record_get_pool :: "net \<Rightarrow> int \<Rightarrow> (gateway, phira_error, json) comp" where
  "record_get_pool N u = get_json N (''record/get-pool/'' @ show_int u) []"

definition record_one :: "net \<Rightarrow> int \<Rightarrow> (gateway, phira_error, json) comp" where
  "record_one N i = get_json N (''record/'' @ show_int i) []"

definition user_one :: "net \<Rightarrow> int \<Rightarrow> (gateway, phira_error, json) comp" where
  "user_one N i = get_json N (''user/'' @ show_int i) []"

definition user_stats :: "net \<Rightarrow> int \<Rightarrow> (gateway, phira_error, json) comp" where
  "user_stats N i = get_json N (''user/'' @ show_int i @ ''/stats'') []"

definition users_search :: "net \<Rightarrow> string \<Rightarrow> int \<Rightarrow> int \<Rightarrow> (gateway, phira_error, json) comp" where
  "users_search N search page page_num =
     get_json N ''user'' [(''search'', search), (''page'', show_int page), (''pageNum'', show_int page_num)]"

text \<open>The file of a chart is fetched from the address that the chart names.\<close>

definition chart_file_at :: "net \<Rightarrow> string \<Rightarrow> string \<Rightarrow> (gateway, phira_error, string \<times> string) comp" where
  "chart_file_at N key file_url g =
     (case exchange N (gw_now g) (HttpGet file_url []) of (r, took) \<Rightarrow>
        let g1 = g\<lparr>gw_now := gw_now g + took\<rparr> in
        case r of
          Broken m _ \<Rightarrow> (Inl (PhiraUnavailable m), g1)
        | Reply rp \<Rightarrow>
            (case rp_body rp of
               Inl m \<Rightarrow> (Inl (PhiraUnavailable m), g1)
             | Inr content \<Rightarrow>
                 if \<not> is_success (rp_status rp)
                 then (Inl (PhiraApi (''chart file download failed: '' @ status_text N (rp_status rp))), g1)
                 else
                   let ct = unwrap_or (rp_content_type rp) ''application/octet-stream'' in
                   (Inr (content, ct),
                    g1\<lparr>gw_file_cache := aput key \<lparr>cf_bytes = content, cf_content_type = ct, cf_expires = gw_now g1 + ttl_of g1\<rparr>
                         (gw_file_cache g1)\<rparr>)))"

definition fetch_chart_file :: "net \<Rightarrow> int \<Rightarrow> (gateway, phira_error, string \<times> string) comp" where
  "fetch_chart_file N chart_id g =
     (let key = ''chart-file:'' @ show_int chart_id in
      case aget (gw_file_cache g) key of
        Some cf \<Rightarrow>
          if gw_now g < cf_expires cf then (Inr (cf_bytes cf, cf_content_type cf), g)
          else bnd (chart N chart_id) (\<lambda>c.
               bnd (some_or (string_field c ''file'') (PhiraApi (''chart '' @ show_int chart_id @ '' has no file field''))) (chart_file_at N key)) g
      | None \<Rightarrow>
          bnd (chart N chart_id) (\<lambda>c.
          bnd (some_or (string_field c ''file'') (PhiraApi (''chart '' @ show_int chart_id @ '' has no file field''))) (chart_file_at N key)) g)"

definition clear_cache :: "gateway \<Rightarrow> gateway" where
  "clear_cache g = g\<lparr>gw_cache := [], gw_file_cache := []\<rparr>"

definition cache_stats :: "gateway \<Rightarrow> json" where
  "cache_stats g = JObj [(''entries'', JInt (int (length (gw_cache g)))), (''inflight'', JInt (int (length (gw_locks g))))]"

primrec phira_gateway_error :: "phira_error \<Rightarrow> api_error" where
  "phira_gateway_error PhiraRateLimited = api_error_new RateLimited ''Phira API rate limited''"
| "phira_gateway_error (PhiraUnavailable m) = api_error_new PhiraApiUnavailable m"
| "phira_gateway_error (PhiraApi m) = api_error_new PhiraApiUnavailable m"
| "phira_gateway_error (PhiraOther m) = api_error_new PhiraApiUnavailable m"
| "phira_gateway_error InvalidCredentials = api_error_new PhiraAuthFailed ''invalid credentials''"
| "phira_gateway_error (ReauthRequired m) = with_details PhiraReauthRequired reauth_message (JObj [(''reason'', JStr m)])"

section \<open>Many requests at once\<close>

text \<open>A request goes through the steps of \<open>get_json\<close>, each of which is atomic: the first lookup, the rate
  limit, waiting for the lock of its key, the second lookup, the flight. It ends with a result at an
  instant, or is dropped with the connection of its client. The ghost log holds the answers of the
  upstream, newest first.\<close>

datatype flight_phase = Arrived | Missed | Waiting | Checking | Fetching | Served instant "phira_error + json" | Abandoned

record flight =
  fl_path :: string
  fl_query :: params
  fl_phase :: flight_phase

record upstream_answer =
  an_path :: string
  an_query :: params
  an_value :: json
  an_at :: instant

record gw_world =
  w_gw :: gateway
  w_flights :: "flight list"
  w_log :: "upstream_answer list"

definition flight_key :: "flight \<Rightarrow> string" where
  "flight_key f = cache_key (fl_path f) (fl_query f)"

definition answer_key :: "upstream_answer \<Rightarrow> string" where
  "answer_key a = cache_key (an_path a) (an_query a)"

definition holds_lock :: "flight \<Rightarrow> bool" where
  "holds_lock f \<longleftrightarrow> fl_phase f = Checking \<or> fl_phase f = Fetching"

definition at_phase :: "gw_world \<Rightarrow> nat \<Rightarrow> flight_phase \<Rightarrow> bool" where
  "at_phase w i ph \<longleftrightarrow> i < length (w_flights w) \<and> fl_phase (w_flights w ! i) = ph"

definition set_phase :: "nat \<Rightarrow> flight_phase \<Rightarrow> gw_world \<Rightarrow> gw_world" where
  "set_phase i ph w = w\<lparr>w_flights := (w_flights w)[i := (w_flights w ! i)\<lparr>fl_phase := ph\<rparr>]\<rparr>"

abbreviation key_at :: "gw_world \<Rightarrow> nat \<Rightarrow> string" where
  "key_at w i \<equiv> flight_key (w_flights w ! i)"

definition serve :: "nat \<Rightarrow> phira_error + json \<Rightarrow> gw_world \<Rightarrow> gw_world" where
  "serve i r w = set_phase i (Served (gw_now (w_gw w)) r) w"

definition answered_by :: "nat \<Rightarrow> json \<Rightarrow> gw_world \<Rightarrow> gw_world" where
  "answered_by i v w =
     w\<lparr>w_gw := store (key_at w i) v (w_gw w),
       w_log := \<lparr>an_path = fl_path (w_flights w ! i), an_query = fl_query (w_flights w ! i), an_value = v, an_at = gw_now (w_gw w)\<rparr> # w_log w\<rparr>"

inductive gw_step :: "gw_world \<Rightarrow> gw_world \<Rightarrow> bool" where
  tick: "gw_now (w_gw w) \<le> t \<Longrightarrow> gw_step w (w\<lparr>w_gw := (w_gw w)\<lparr>gw_now := t\<rparr>\<rparr>)"
| arrive: "gw_step w (w\<lparr>w_flights := w_flights w @ [\<lparr>fl_path = p, fl_query = q, fl_phase = Arrived\<rparr>]\<rparr>)"
| hit: "at_phase w i Arrived \<Longrightarrow> cached (key_at w i) (w_gw w) = Some v \<Longrightarrow> gw_step w (serve i (Inr v) w)"
| miss: "at_phase w i Arrived \<Longrightarrow> cached (key_at w i) (w_gw w) = None \<Longrightarrow> gw_step w (set_phase i Missed w)"
| limited: "at_phase w i Missed \<Longrightarrow> admit (fl_path (w_flights w ! i)) (w_gw w) = (Inl e, g) \<Longrightarrow>
    gw_step w (serve i (Inl e) (w\<lparr>w_gw := g\<rparr>))"
| admitted: "at_phase w i Missed \<Longrightarrow> admit (fl_path (w_flights w ! i)) (w_gw w) = (Inr u, g) \<Longrightarrow>
    gw_step w (set_phase i Waiting (w\<lparr>w_gw := take_lock (key_at w i) g\<rparr>))"
| lock: "at_phase w i Waiting \<Longrightarrow> \<forall>f \<in> set (w_flights w). flight_key f = key_at w i \<longrightarrow> \<not> holds_lock f \<Longrightarrow>
    gw_step w (set_phase i Checking w)"
| late_hit: "at_phase w i Checking \<Longrightarrow> cached (key_at w i) (w_gw w) = Some v \<Longrightarrow> gw_step w (serve i (Inr v) w)"
| depart: "at_phase w i Checking \<Longrightarrow> cached (key_at w i) (w_gw w) = None \<Longrightarrow> gw_step w (set_phase i Fetching w)"
| land: "at_phase w i Fetching \<Longrightarrow> gw_step w (serve i (Inr v) (answered_by i v w))"
| fail: "at_phase w i Fetching \<Longrightarrow> gw_step w (serve i (Inl e) w)"
| abandon: "i < length (w_flights w) \<Longrightarrow> \<forall>t r. \<not> at_phase w i (Served t r) \<Longrightarrow> gw_step w (set_phase i Abandoned w)"

definition gw_init :: "int \<Rightarrow> gw_world \<Rightarrow> bool" where
  "gw_init ttl w \<longleftrightarrow> gw_cache (w_gw w) = [] \<and> w_flights w = [] \<and> w_log w = [] \<and> gw_ttl_secs (w_gw w) = ttl"

abbreviation gw_reachable :: "int \<Rightarrow> gw_world \<Rightarrow> bool" where
  "gw_reachable ttl \<equiv> reachable (gw_init ttl) gw_step"

section \<open>The invariant\<close>

text \<open>One flight per key holds the lock.\<close>

definition exclusive :: "gw_world \<Rightarrow> bool" where
  "exclusive w \<longleftrightarrow> (\<forall>i < length (w_flights w). \<forall>j < length (w_flights w).
     holds_lock (w_flights w ! i) \<longrightarrow> holds_lock (w_flights w ! j) \<longrightarrow> key_at w i = key_at w j \<longrightarrow> i = j)"

text \<open>The cache holds the latest answer for each key, with the time it arrived, and while a key is being
  fetched nothing fresh is cached for it.\<close>

definition cache_of_log :: "gw_world \<Rightarrow> bool" where
  "cache_of_log w \<longleftrightarrow>
     (\<forall>k. aget (gw_cache (w_gw w)) k =
        map_option (\<lambda>a. \<lparr>cv_value = an_value a, cv_expires = an_at a + ttl_of (w_gw w)\<rparr>) (find (\<lambda>a. answer_key a = k) (w_log w))) \<and>
     (\<forall>a \<in> set (w_log w). an_at a \<le> gw_now (w_gw w)) \<and>
     (\<forall>f \<in> set (w_flights w). fl_phase f = Fetching \<longrightarrow> cached (flight_key f) (w_gw w) = None)"

text \<open>Two answers for the same key lie at least one time to live apart.\<close>

definition spaced :: "int \<Rightarrow> upstream_answer list \<Rightarrow> bool" where
  "spaced ttl as \<longleftrightarrow> sorted_wrt (\<lambda>new old. answer_key new = answer_key old \<longrightarrow> an_at old + ttl \<le> an_at new) as"

text \<open>A result was, when it was given, no older than the time to live.\<close>

definition served_fresh :: "gw_world \<Rightarrow> bool" where
  "served_fresh w \<longleftrightarrow> (\<forall>f \<in> set (w_flights w). \<forall>t v. fl_phase f = Served t (Inr v) \<longrightarrow>
     (\<exists>a \<in> set (w_log w). answer_key a = flight_key f \<and> an_value a = v \<and> an_at a \<le> t \<and> t < an_at a + ttl_of (w_gw w)))"

definition gw_inv :: "int \<Rightarrow> gw_world \<Rightarrow> bool" where
  "gw_inv ttl w \<longleftrightarrow> gw_ttl_secs (w_gw w) = ttl \<and> exclusive w \<and> cache_of_log w \<and> spaced (ttl_of (w_gw w)) (w_log w) \<and> served_fresh w"

lemma flight_key_phase [simp]: "flight_key (f\<lparr>fl_phase := ph\<rparr>) = flight_key f"
  by (simp add: flight_key_def)

lemma set_phase_simps [simp]:
  "w_gw (set_phase i ph w) = w_gw w" "w_log (set_phase i ph w) = w_log w"
  "w_flights (set_phase i ph w) = (w_flights w)[i := (w_flights w ! i)\<lparr>fl_phase := ph\<rparr>]"
  by (simp_all add: set_phase_def)

lemma ttl_of_simps [simp]:
  "ttl_of (g\<lparr>gw_now := t\<rparr>) = ttl_of g" "ttl_of (g\<lparr>gw_rate := bs\<rparr>) = ttl_of g"
  "ttl_of (take_lock k g) = ttl_of g" "ttl_of (store k v g) = ttl_of g"
  by (simp_all add: ttl_of_def take_lock_def store_def)

lemma ttl_pos: "0 < ttl_of g"
  by (simp add: ttl_of_def secs_def)

lemma admit_state: "admit p g = (r, g') \<Longrightarrow> \<exists>bs. g' = g\<lparr>gw_rate := bs\<rparr>"
  by (auto simp: admit_def split: prod.splits sum.splits)

lemma cached_simps [simp]:
  "cached k (g\<lparr>gw_rate := bs\<rparr>) = cached k g" "cached k (take_lock j g) = cached k g"
  by (simp_all add: cached_def take_lock_def split: option.splits)

lemma cached_later: "cached k g = None \<Longrightarrow> gw_now g \<le> t \<Longrightarrow> cached k (g\<lparr>gw_now := t\<rparr>) = None"
  by (auto simp: cached_def split: option.splits if_splits)

lemma cached_store: "j \<noteq> k \<Longrightarrow> cached j (store k v g) = cached j g"
  by (simp add: cached_def store_def split: option.splits)

lemma exclusive_gw [simp]: "exclusive (w\<lparr>w_gw := g\<rparr>) = exclusive w" "exclusive (w\<lparr>w_gw := g, w_log := l\<rparr>) = exclusive w"
  by (simp_all add: exclusive_def)

lemma exclusive_set_phase:
  assumes "exclusive w" and "i < length (w_flights w)"
    and "ph = Checking \<or> ph = Fetching \<Longrightarrow>
      \<forall>j < length (w_flights w). j \<noteq> i \<longrightarrow> holds_lock (w_flights w ! j) \<longrightarrow> key_at w j \<noteq> key_at w i"
  shows "exclusive (set_phase i ph w)"
proof -
  have "j = k" if "j < length (w_flights w)" "k < length (w_flights w)" "holds_lock (w_flights (set_phase i ph w) ! j)"
      "holds_lock (w_flights (set_phase i ph w) ! k)" "key_at (set_phase i ph w) j = key_at (set_phase i ph w) k" for j k
  proof (cases "j = i \<or> k = i")
    case True
    with that assms(2) have "j \<noteq> k \<Longrightarrow> ph = Checking \<or> ph = Fetching"
      by (auto simp: holds_lock_def nth_list_update split: if_splits)
    with True that assms(2,3) show ?thesis by (metis flight_key_phase nth_list_update set_phase_simps(3))
  next
    case False
    with that assms(1,2) show ?thesis by (auto simp: exclusive_def nth_list_update)
  qed
  then show ?thesis by (simp add: exclusive_def)
qed

lemma in_set_phase:
  "f \<in> set ((w_flights w)[i := (w_flights w ! i)\<lparr>fl_phase := ph\<rparr>]) \<Longrightarrow>
   (f = (w_flights w ! i)\<lparr>fl_phase := ph\<rparr>) \<or> f \<in> set (w_flights w)"
  by (auto dest: set_update_subset_insert [THEN subsetD])

text \<open>Nothing but the phase of one request changes.\<close>

lemma inv_set_phase:
  assumes inv: "gw_inv ttl w" and i: "i < length (w_flights w)"
    and lock: "ph = Checking \<or> ph = Fetching \<Longrightarrow>
      \<forall>j < length (w_flights w). j \<noteq> i \<longrightarrow> holds_lock (w_flights w ! j) \<longrightarrow> key_at w j \<noteq> key_at w i"
    and stale: "ph = Fetching \<Longrightarrow> cached (key_at w i) (w_gw w) = None"
    and fresh: "\<And>t v. ph = Served t (Inr v) \<Longrightarrow>
      \<exists>a \<in> set (w_log w). answer_key a = key_at w i \<and> an_value a = v \<and> an_at a \<le> t \<and> t < an_at a + ttl_of (w_gw w)"
  shows "gw_inv ttl (set_phase i ph w)"
proof -
  have "exclusive (set_phase i ph w)"
    using inv i lock by (intro exclusive_set_phase) (auto simp: gw_inv_def)
  moreover have "cache_of_log (set_phase i ph w)"
    using inv stale by (auto simp: gw_inv_def cache_of_log_def dest: in_set_phase)
  moreover have "served_fresh (set_phase i ph w)"
    using inv fresh unfolding gw_inv_def served_fresh_def by (fastforce dest: in_set_phase)
  ultimately show ?thesis using inv by (simp add: gw_inv_def)
qed

lemma inv_rate: "gw_inv ttl w \<Longrightarrow> gw_inv ttl (w\<lparr>w_gw := (w_gw w)\<lparr>gw_rate := bs\<rparr>\<rparr>)"
  by (simp add: gw_inv_def cache_of_log_def served_fresh_def)

lemma inv_take_lock: "gw_inv ttl w \<Longrightarrow> gw_inv ttl (w\<lparr>w_gw := take_lock k (w_gw w)\<rparr>)"
  by (simp add: gw_inv_def cache_of_log_def served_fresh_def) (simp add: take_lock_def)

lemma cached_answer:
  assumes "gw_inv ttl w" and "cached k (w_gw w) = Some v"
  shows "\<exists>a \<in> set (w_log w). answer_key a = k \<and> an_value a = v \<and> an_at a \<le> gw_now (w_gw w) \<and> gw_now (w_gw w) < an_at a + ttl_of (w_gw w)"
proof -
  from assms obtain a where "find (\<lambda>a. answer_key a = k) (w_log w) = Some a" "an_value a = v" "gw_now (w_gw w) < an_at a + ttl_of (w_gw w)"
    by (auto simp: gw_inv_def cache_of_log_def cached_def split: option.splits if_splits)
  moreover from this(1) have "a \<in> set (w_log w)" "answer_key a = k" by (auto dest: find_SomeD)
  moreover have "an_at a \<le> gw_now (w_gw w)" using assms(1) \<open>a \<in> set (w_log w)\<close> by (simp add: gw_inv_def cache_of_log_def)
  ultimately show ?thesis by blast
qed

text \<open>When nothing fresh is cached for a key, every earlier answer for it has outlived the time to live.\<close>

lemma newest_answer:
  "spaced ttl as \<Longrightarrow> 0 \<le> ttl \<Longrightarrow> a \<in> set as \<Longrightarrow>
   \<exists>b. find (\<lambda>c. answer_key c = answer_key a) as = Some b \<and> an_at a \<le> an_at b"
  by (induction as) (fastforce simp: spaced_def)+

lemma stale_answers:
  assumes "gw_inv ttl w" and "cached k (w_gw w) = None" and "a \<in> set (w_log w)" and "answer_key a = k"
  shows "an_at a + ttl_of (w_gw w) \<le> gw_now (w_gw w)"
proof -
  obtain b where "find (\<lambda>c. answer_key c = k) (w_log w) = Some b" "an_at a \<le> an_at b"
    using newest_answer [of "ttl_of (w_gw w)" "w_log w" a] assms ttl_pos [of "w_gw w"] by (auto simp: gw_inv_def)
  with assms(1,2) show ?thesis
    by (auto simp: gw_inv_def cache_of_log_def cached_def split: if_splits)
qed

lemma answered_by_simps [simp]:
  "w_flights (answered_by i v w) = w_flights w" "w_gw (answered_by i v w) = store (key_at w i) v (w_gw w)"
  "exclusive (answered_by i v w) = exclusive w" "gw_now (store k x g) = gw_now g" "gw_ttl_secs (store k x g) = gw_ttl_secs g"
  by (simp_all add: answered_by_def exclusive_def store_def)

lemma other_fetches:
  assumes "exclusive w" and "at_phase w i Fetching" and "f \<in> set ((w_flights w)[i := (w_flights w ! i)\<lparr>fl_phase := Served t r\<rparr>])"
    and "fl_phase f = Fetching"
  shows "f \<in> set (w_flights w) \<and> flight_key f \<noteq> key_at w i"
proof -
  from assms(3) obtain j where j: "j < length (w_flights w)"
      "f = (w_flights w)[i := (w_flights w ! i)\<lparr>fl_phase := Served t r\<rparr>] ! j"
    by (auto simp: in_set_conv_nth)
  with assms(4) have "j \<noteq> i" by auto
  with j have "w_flights w ! j = f" by simp
  with j(1) \<open>j \<noteq> i\<close> assms(1,2,4) show ?thesis unfolding exclusive_def at_phase_def holds_lock_def by (metis nth_mem)
qed

lemma cache_land:
  assumes inv: "gw_inv ttl w" and f: "at_phase w i Fetching"
  shows "cache_of_log (serve i (Inr v) (answered_by i v w))"
proof -
  have law: "aget (gw_cache (w_gw w)) k =
      map_option (\<lambda>a. \<lparr>cv_value = an_value a, cv_expires = an_at a + ttl_of (w_gw w)\<rparr>) (find (\<lambda>a. answer_key a = k) (w_log w))" for k
    using inv by (simp add: gw_inv_def cache_of_log_def)
  have "cached (flight_key g) (store (key_at w i) v (w_gw w)) = None"
    if "g \<in> set ((w_flights w)[i := (w_flights w ! i)\<lparr>fl_phase := Served (gw_now (w_gw w)) (Inr v)\<rparr>])" "fl_phase g = Fetching" for g
    using other_fetches [OF _ f that] inv that(2) by (auto simp: gw_inv_def cache_of_log_def cached_store)
  with inv law show ?thesis
    by (auto simp: gw_inv_def cache_of_log_def serve_def answered_by_def) (simp_all add: store_def answer_key_def flight_key_def)
qed

lemma inv_land:
  assumes inv: "gw_inv ttl w" and f: "at_phase w i Fetching"
  shows "gw_inv ttl (serve i (Inr v) (answered_by i v w))"
proof -
  let ?w = "serve i (Inr v) (answered_by i v w)"
  have i: "i < length (w_flights w)" and none: "cached (key_at w i) (w_gw w) = None"
    using inv f by (auto simp: gw_inv_def cache_of_log_def at_phase_def)
  have "exclusive ?w"
    using inv i by (auto simp: serve_def gw_inv_def intro!: exclusive_set_phase)
  moreover have "spaced (ttl_of (w_gw w)) (w_log ?w)"
    using inv stale_answers [OF inv none] by (auto simp: serve_def answered_by_def spaced_def gw_inv_def answer_key_def flight_key_def)
  moreover have "served_fresh ?w"
    unfolding served_fresh_def
  proof (intro ballI allI impI)
    fix g t x assume "g \<in> set (w_flights ?w)" "fl_phase g = Served t (Inr x)"
    then consider "g = (w_flights w ! i)\<lparr>fl_phase := Served t (Inr x)\<rparr>" "t = gw_now (w_gw w)" "x = v"
      | "g \<in> set (w_flights w)"
      by (auto simp: serve_def dest!: in_set_phase)
    then show "\<exists>a \<in> set (w_log ?w). answer_key a = flight_key g \<and> an_value a = x \<and> an_at a \<le> t \<and> t < an_at a + ttl_of (w_gw ?w)"
    proof cases
      case 1
      then show ?thesis using ttl_pos [of "w_gw w"] by (simp add: serve_def answered_by_def answer_key_def flight_key_def)
    next
      case 2
      with inv \<open>fl_phase g = _\<close> show ?thesis by (auto simp: gw_inv_def served_fresh_def serve_def answered_by_def)
    qed
  qed
  ultimately show ?thesis using inv cache_land [OF inv f] by (simp add: gw_inv_def serve_def)
qed

lemma inv_tick: "gw_inv ttl w \<Longrightarrow> gw_now (w_gw w) \<le> t \<Longrightarrow> gw_inv ttl (w\<lparr>w_gw := (w_gw w)\<lparr>gw_now := t\<rparr>\<rparr>)"
  by (force simp: gw_inv_def cache_of_log_def served_fresh_def cached_later intro: order_trans)

lemma inv_arrive:
  "gw_inv ttl w \<Longrightarrow> gw_inv ttl (w\<lparr>w_flights := w_flights w @ [\<lparr>fl_path = p, fl_query = q, fl_phase = Arrived\<rparr>]\<rparr>)"
  by (auto simp: gw_inv_def cache_of_log_def served_fresh_def exclusive_def nth_append holds_lock_def less_Suc_eq)

lemma inv_serve_cached:
  assumes "gw_inv ttl w" and "i < length (w_flights w)" and "cached (key_at w i) (w_gw w) = Some v"
  shows "gw_inv ttl (serve i (Inr v) w)"
  unfolding serve_def using assms cached_answer [OF assms(1,3)] by (intro inv_set_phase) auto

lemma lock_free:
  assumes "\<forall>f \<in> set (w_flights w). flight_key f = key_at w i \<longrightarrow> \<not> holds_lock f" and "j < length (w_flights w)"
    and "holds_lock (w_flights w ! j)"
  shows "key_at w j \<noteq> key_at w i"
  using assms nth_mem by blast

lemma inv_gw_step:
  assumes "gw_inv ttl w" and "gw_step w w'"
  shows "gw_inv ttl w'"
  using assms(2,1)
proof cases
  case (limited i e g)
  then show ?thesis
    using assms(1) by (auto simp: serve_def at_phase_def dest!: admit_state intro!: inv_set_phase inv_rate)
next
  case (admitted i u g)
  then show ?thesis
    using assms(1) inv_take_lock [OF inv_rate [OF assms(1)]] by (auto simp: at_phase_def dest!: admit_state intro!: inv_set_phase)
next
  case (lock i)
  then show ?thesis using assms(1) lock_free by (auto simp: at_phase_def intro!: inv_set_phase)
next
  case (depart i)
  then have "j \<noteq> i \<longrightarrow> holds_lock (w_flights w ! j) \<longrightarrow> key_at w j \<noteq> key_at w i" if "j < length (w_flights w)" for j
    using assms(1) that unfolding gw_inv_def exclusive_def at_phase_def holds_lock_def by metis
  with depart assms(1) show ?thesis by (auto simp: at_phase_def intro!: inv_set_phase)
next
  case (land i v)
  then show ?thesis using inv_land [OF assms(1)] by simp
qed (use assms(1) in \<open>auto simp: at_phase_def serve_def intro!: inv_tick inv_arrive inv_set_phase inv_serve_cached [unfolded serve_def]\<close>)

lemma inv_gw_init: "gw_init ttl w \<Longrightarrow> gw_inv ttl w"
  by (simp add: gw_init_def gw_inv_def exclusive_def cache_of_log_def spaced_def served_fresh_def)

interpretation gateway: invariant_system "gw_init ttl" gw_step "gw_inv ttl" for ttl
  by unfold_locales (rule inv_gw_init, assumption, rule inv_gw_step)

section \<open>What the cache promises\<close>

text \<open>C23: For every interleaving of requests, including requests that are dropped half-way: at most one request
  per key is past the lock, so the upstream is never asked twice at the same time for one key; and
  two answers for the same key arrive at least one time to live apart.\<close>

theorem gateway_single_flight:
  assumes "gw_reachable ttl w"
  shows "exclusive w \<and> spaced (secs (max ttl 1)) (w_log w)"
  using gateway.reachable_inv [OF assms] by (auto simp: gw_inv_def ttl_of_def)

text \<open>Keys of plain requests tell the requests apart, up to the order of the parameters.\<close>

definition plain_request :: "string \<Rightarrow> params \<Rightarrow> bool" where
  "plain_request p q \<longleftrightarrow> CHR ''?'' \<notin> set p \<and>
     (\<forall>(k, v) \<in> set q. CHR ''&'' \<notin> set k \<and> CHR ''='' \<notin> set k \<and> CHR ''&'' \<notin> set v)"

lemma split_join:
  "ws \<noteq> [] \<Longrightarrow> \<forall>w \<in> set ws. d \<notin> set w \<Longrightarrow> split_on d (join_with [d] ws) = ws"
proof (induction "[d]" ws rule: join_with.induct)
  case (2 w)
  then have "d \<notin> set w" by simp
  then show ?case by (induction w) auto
next
  case (3 w v ws)
  then have "split_on d (join_with [d] (v # ws)) = v # ws" and "d \<notin> set w" by auto
  from this(2) show ?case
    by (induction w) (auto simp: \<open>split_on d (join_with [d] (v # ws)) = v # ws\<close>)
qed simp

lemma parts_inj:
  assumes "\<forall>w \<in> set xs. w \<noteq> [] \<and> d \<notin> set w" and "\<forall>w \<in> set ys. w \<noteq> [] \<and> d \<notin> set w"
    and "join_with [d] xs = join_with [d] ys"
  shows "xs = ys"
proof (cases "xs = [] \<or> ys = []")
  case True
  have "join_with [d] zs \<noteq> []" if "zs \<noteq> []" "\<forall>w \<in> set zs. w \<noteq> [] \<and> d \<notin> set w" for zs
    using that by (induction "[d]" zs rule: join_with.induct) auto
  with True assms show ?thesis by (metis join_with.simps(1))
next
  case False
  with assms split_join [of xs d] split_join [of ys d] show ?thesis by metis
qed

lemma take_to_inj: "d \<notin> set a \<Longrightarrow> d \<notin> set b \<Longrightarrow> a @ d # x = b @ d # y \<longleftrightarrow> a = b \<and> x = y"
  by (induction a arbitrary: b; case_tac b) auto

lemma cache_key_plain:
  assumes "plain_request p q" and "plain_request p' q'" and "cache_key p q = cache_key p' q'"
  shows "p = p' \<and> mset q = mset q'"
proof -
  let ?f = "\<lambda>(k, v). k @ ''='' @ v :: string"
  have split: "p = p'" "join_with ''&'' (sort (map ?f q)) = join_with ''&'' (sort (map ?f q'))"
    using assms take_to_inj [of "CHR ''?''" p p'] by (auto simp: cache_key_def plain_request_def)
  have plain: "\<forall>w \<in> set (sort (map ?f r)). w \<noteq> [] \<and> CHR ''&'' \<notin> set w" if "plain_request u r" for u r
    using that by (auto simp: plain_request_def)
  have "sort (map ?f q) = sort (map ?f q')"
    using parts_inj [OF plain [OF assms(1)] plain [OF assms(2)]] split(2) by blast
  then have "mset (sort (map ?f q)) = mset (sort (map ?f q'))" by (rule arg_cong)
  then have "image_mset ?f (mset q) = image_mset ?f (mset q')" by simp
  moreover have "inj_on ?f (set q \<union> set q')"
  proof (rule inj_onI)
    fix x y assume "x \<in> set q \<union> set q'" "y \<in> set q \<union> set q'" and eq: "?f x = ?f y"
    with assms(1,2) have "CHR ''='' \<notin> set (fst x)" "CHR ''='' \<notin> set (fst y)"
      unfolding plain_request_def by (auto split: prod.splits)
    with eq take_to_inj [of "CHR ''=''" "fst x" "fst y" "snd x" "snd y"] show "x = y" by (simp add: case_prod_beta prod_eq_iff)
  qed
  ultimately show ?thesis
    using split(1) image_mset_eq_image_mset_plusD [of ?f "mset q" "mset q'" "{#}"] by auto
qed

text \<open>An answer given to a plain request is what the upstream answered to the same request, and is no
  older than the time to live.\<close>

theorem gateway_answers_fresh:
  assumes "gw_reachable ttl w" and "f \<in> set (w_flights w)" and "fl_phase f = Served t (Inr v)"
    and "plain_request (fl_path f) (fl_query f)" and "\<forall>a \<in> set (w_log w). plain_request (an_path a) (an_query a)"
  shows "\<exists>a \<in> set (w_log w). an_path a = fl_path f \<and> mset (an_query a) = mset (fl_query f) \<and> an_value a = v \<and>
    an_at a \<le> t \<and> t < an_at a + secs (max ttl 1)"
proof -
  have "served_fresh w" "ttl_of (w_gw w) = secs (max ttl 1)"
    using gateway.reachable_inv [OF assms(1)] by (simp_all add: gw_inv_def ttl_of_def)
  with assms(2,3) obtain a
    where a: "a \<in> set (w_log w)" "answer_key a = flight_key f" "an_value a = v" "an_at a \<le> t" "t < an_at a + secs (max ttl 1)"
    unfolding served_fresh_def by fastforce
  with cache_key_plain [of "an_path a" "an_query a" "fl_path f" "fl_query f"] assms(4,5) have "an_path a = fl_path f \<and> mset (an_query a) = mset (fl_query f)"
    by (auto simp: answer_key_def flight_key_def)
  with a show ?thesis by blast
qed

section \<open>One request alone\<close>

lemma get_json_cached:
  assumes "get_json N p q g = (Inr v, g')"
  shows "cached (cache_key p q) g' = Some v"
proof -
  have "cached k (store k x h) = Some x" for k x h
    using ttl_pos [of h] by (simp add: cached_def store_def)
  with assms show ?thesis
    by (auto simp: get_json_def Let_def admit_def split: option.splits prod.splits sum.splits)
qed

lemma get_json_hit: "cached (cache_key p q) g = Some v \<Longrightarrow> get_json N p q g = (Inr v, g)"
  by (simp add: get_json_def)

text \<open>Free text can forge a key: after a search for \<open>x&type=3\<close>, the search for \<open>x\<close> among charts of type 3 is
  answered with the result of the former, without asking the upstream.\<close>

theorem cache_key_forged:
  assumes "chart_list N t 1 20 (Some ''x&type=3'') None None None None None g = (Inr v, g')"
  shows "chart_list M t 1 20 (Some ''x'') (Some 3) None None None None g' = (Inr v, g')"
proof -
  let ?a = "[(''page'', ''1''), (''pageNum'', ''20''), (''search'', ''x&type=3'')]"
  let ?b = "[(''page'', ''1''), (''pageNum'', ''20''), (''search'', ''x''), (''type'', ''3'')]"
  have digits: "show_int 1 = ''1''" "show_int 20 = ''20''" "show_int 3 = ''3''" by code_simp+
  have "sort (map (\<lambda>(k, v). k @ ''='' @ v) ?a) = map (\<lambda>(k, v). k @ ''='' @ v) ?a"
    "sort (map (\<lambda>(k, v). k @ ''='' @ v) ?b) = map (\<lambda>(k, v). k @ ''='' @ v) ?b"
    by (rule sorted_sort_id, simp)+
  then have key: "cache_key ''chart'' ?a = cache_key ''chart'' ?b" by (simp only: cache_key_def) simp
  from assms have "get_json N ''chart'' ?a g = (Inr v, g')" by (simp add: chart_list_def digits)
  then have "get_json M ''chart'' ?b g' = (Inr v, g')"
    by (intro get_json_hit) (subst key [symmetric], rule get_json_cached)
  then show ?thesis by (simp add: chart_list_def digits)
qed

text \<open>A world in which the last request is in a given phase, and the moves of that request.\<close>

definition world :: "flight list \<Rightarrow> string \<Rightarrow> params \<Rightarrow> gateway \<Rightarrow> flight_phase \<Rightarrow> upstream_answer list \<Rightarrow> gw_world" where
  "world fs p q g ph l = \<lparr>w_gw = g, w_flights = fs @ [\<lparr>fl_path = p, fl_query = q, fl_phase = ph\<rparr>], w_log = l\<rparr>"

lemma world_simps [simp]:
  "at_phase (world fs p q g ph l) (length fs) ph' \<longleftrightarrow> ph = ph'" "w_gw (world fs p q g ph l) = g"
  "flight_key \<lparr>fl_path = p, fl_query = q, fl_phase = ph\<rparr> = cache_key p q" "w_flights (world fs p q g ph l) ! length fs = \<lparr>fl_path = p, fl_query = q, fl_phase = ph\<rparr>"
  "set_phase (length fs) ph' (world fs p q g ph l) = world fs p q g ph' l"
  "(world fs p q g ph l)\<lparr>w_gw := g'\<rparr> = world fs p q g' ph l"
  "serve (length fs) r (world fs p q g ph l) = world fs p q g (Served (gw_now g) r) l"
  "answered_by (length fs) v (world fs p q g ph l) =
     world fs p q (store (cache_key p q) v g) ph (\<lparr>an_path = p, an_query = q, an_value = v, an_at = gw_now g\<rparr> # l)"
  by (simp_all add: world_def at_phase_def flight_key_def set_phase_def serve_def answered_by_def)

lemmas move_hit = gw_step.hit [of "world fs p q g Arrived l" "length fs" for fs p q g l, simplified]
lemmas move_miss = gw_step.miss [of "world fs p q g Arrived l" "length fs" for fs p q g l, simplified]
lemmas move_limited = gw_step.limited [of "world fs p q g Missed l" "length fs" for fs p q g l, simplified]
lemmas move_admitted = gw_step.admitted [of "world fs p q g Missed l" "length fs" for fs p q g l, simplified]
lemmas move_late_hit = gw_step.late_hit [of "world fs p q g Checking l" "length fs" for fs p q g l, simplified]
lemmas move_depart = gw_step.depart [of "world fs p q g Checking l" "length fs" for fs p q g l, simplified]
lemmas move_land = gw_step.land [of "world fs p q g Fetching l" "length fs" for fs p q g l, simplified]
lemmas move_fail = gw_step.fail [of "world fs p q g Fetching l" "length fs" for fs p q g l, simplified]
lemmas move_tick = gw_step.tick [of "world fs p q g ph l" for fs p q g ph l, simplified]

lemma move_lock:
  assumes "\<forall>f \<in> set fs. flight_key f = cache_key p q \<longrightarrow> \<not> holds_lock f"
  shows "gw_step (world fs p q g Waiting l) (world fs p q g Checking l)"
  using gw_step.lock [of "world fs p q g Waiting l" "length fs"] assms
  by (auto simp: world_def [of fs p q g Waiting l, THEN arg_cong [where f = w_flights]] flight_key_def holds_lock_def)

lemma fetch_later:
  assumes "answers_within timeout N"
  shows "now \<le> snd (fetch_loop N p q url deadline tries now)"
  using assms
proof (induction N p q url deadline tries now rule: fetch_loop.induct)
  case (1 N p q url deadline tries now)
  obtain r took where x: "exchange N now (HttpGet url q) = (r, took)" by fastforce
  with "1.prems" have took: "now \<le> now + took"
    unfolding answers_within_def by (metis snd_conv le_add_same_cancel1)
  have slept: "now \<le> snd (case sleep_backoff n deadline (now + took) of (Inl e, t) \<Rightarrow> (Inl e, t) | (Inr u, t) \<Rightarrow> k t)"
    if "\<And>u t. (Inr u, t) = sleep_backoff n deadline (now + took) \<Longrightarrow> t \<le> snd (k t)" for k :: "instant \<Rightarrow> (phira_error + json) \<times> instant" and n
  proof -
    have "0 \<le> backoff_delay n" by (simp add: backoff_delay_def ms_def RETRY_BASE_DELAY_MS_def push_bit_eq_mult)
    with that took show ?thesis
      by (fastforce split: prod.splits sum.splits dest: sleep_backoff_InlD sleep_backoff_InrD)
  qed
  show ?case
    using x took slept "1.IH" "1.prems"
    by (subst fetch_loop.simps) (auto split: sent.splits sum.splits option.splits)
qed

text \<open>The flight of a request that holds the lock: the clock moves on, and the request is served.\<close>

lemma flight_simulated:
  assumes "answers_within timeout N" and "cached (cache_key p q) g = None"
    and "(case fetch_with_retry N p q g of (Inl e, h) \<Rightarrow> (Inl e, h) | (Inr v, h) \<Rightarrow> (Inr v, store (cache_key p q) v h)) = (r, g')"
  shows "\<exists>l'. gw_step\<^sup>*\<^sup>* (world fs p q g Checking l) (world fs p q g' (Served (gw_now g') r) l')"
proof -
  obtain r1 t where x: "fetch_loop N p q (gw_base_url g @ ''/'' @ p) (gw_now g + ms RETRY_TOTAL_BUDGET_MS) 0 (gw_now g) = (r1, t)"
    by fastforce
  with fetch_later [OF assms(1), of "gw_now g"] have t: "gw_now g \<le> t" by (metis snd_conv)
  let ?h = "g\<lparr>gw_now := t\<rparr>"
  have "gw_step (world fs p q g Checking l) (world fs p q g Fetching l)"
    by (rule move_depart [OF assms(2)])
  moreover have "gw_step (world fs p q g Fetching l) (world fs p q ?h Fetching l)" by (rule move_tick [OF t])
  ultimately have up: "gw_step\<^sup>*\<^sup>* (world fs p q g Checking l) (world fs p q ?h Fetching l)" by simp
  show ?thesis
  proof (cases r1)
    case (Inl e)
    with x assms(3) have "r = Inl e" "g' = ?h" by (auto simp: fetch_with_retry_def)
    moreover have "gw_step (world fs p q ?h Fetching l) (world fs p q ?h (Served (gw_now ?h) (Inl e)) l)" by (rule move_fail)
    ultimately show ?thesis using up by (metis rtranclp.rtrancl_into_rtrancl)
  next
    case (Inr v)
    with x assms(3) have "r = Inr v" "g' = store (cache_key p q) v ?h" by (auto simp: fetch_with_retry_def)
    with up move_land [of fs p q ?h l v] show ?thesis
      by (simp only: answered_by_simps(4)) (blast intro: rtranclp.rtrancl_into_rtrancl)
  qed
qed

text \<open>C24: A request served by \<open>get_json\<close> alone is a run of the machine, whatever the other requests are, if
  none of them holds the lock of its key.\<close>

theorem get_json_simulated:
  assumes "answers_within timeout N" and "get_json N p q g = (r, g')"
    and "\<forall>f \<in> set fs. flight_key f = cache_key p q \<longrightarrow> \<not> holds_lock f"
  shows "\<exists>l'. gw_step\<^sup>*\<^sup>* \<lparr>w_gw = g, w_flights = fs, w_log = l\<rparr>
    \<lparr>w_gw = g', w_flights = fs @ [\<lparr>fl_path = p, fl_query = q, fl_phase = Served (gw_now g') r\<rparr>], w_log = l'\<rparr>"
proof -
  have start: "gw_step \<lparr>w_gw = g, w_flights = fs, w_log = l\<rparr> (world fs p q g Arrived l)"
    using gw_step.arrive [of "\<lparr>w_gw = g, w_flights = fs, w_log = l\<rparr>" p q] by (simp add: world_def)
  have "\<exists>l'. gw_step\<^sup>*\<^sup>* (world fs p q g Arrived l) (world fs p q g' (Served (gw_now g') r) l')"
  proof (cases "cached (cache_key p q) g")
    case (Some v)
    with assms(2) move_hit [OF Some] show ?thesis by (auto simp: get_json_def)
  next
    case None
    then have missed: "gw_step (world fs p q g Arrived l) (world fs p q g Missed l)" by (rule move_miss)
    obtain a h where a: "admit p g = (a, h)" by fastforce
    show ?thesis
    proof (cases a)
      case (Inl e)
      with None a assms(2) have "r = Inl e" "g' = h" by (auto simp: get_json_def)
      with missed move_limited [of p g e h fs q l] a Inl show ?thesis by (auto intro!: exI [of _ l])
    next
      case (Inr u)
      let ?h = "take_lock (cache_key p q) h"
      have "gw_step (world fs p q g Missed l) (world fs p q ?h Waiting l)" using a Inr by (auto intro: move_admitted)
      with missed move_lock [OF assms(3)] have up: "gw_step\<^sup>*\<^sup>* (world fs p q g Arrived l) (world fs p q ?h Checking l)"
        by (meson r_into_rtranclp rtranclp.rtrancl_into_rtrancl)
      from None a have "cached (cache_key p q) ?h = None" by (auto dest: admit_state)
      with flight_simulated [OF assms(1) this, of r g' fs l] None a Inr assms(2) up show ?thesis
        by (auto simp: get_json_def Let_def intro: rtranclp_trans)
    qed
  qed
  with start show ?thesis unfolding world_def by (meson converse_rtranclp_into_rtranclp)
qed

text \<open>The number of keys that the statistics call in flight never goes down: a lock, once made, stays.\<close>

lemma locks_stay: "gw_step w w' \<Longrightarrow> set (gw_locks (w_gw w)) \<subseteq> set (gw_locks (w_gw w'))"
  by (induction rule: gw_step.induct)
    (auto simp: serve_def take_lock_def store_def dest!: admit_state)

section \<open>Examples\<close>

definition quiet_gateway :: gateway where
  "quiet_gateway = gateway_new 0 ''https://p'' 120 60"

lemma quiet_run:
  "get_json greeting_net ''user/7'' [] quiet_gateway =
     (Inr (JArr [JInt 7, JStr ''bob'']),
      quiet_gateway\<lparr>gw_cache := [(''user/7?'', \<lparr>cv_value = JArr [JInt 7, JStr ''bob''], cv_expires = secs 120\<rparr>)],
        gw_locks := [''user/7?''], gw_rate := [(''phira:user/7'', [0])]\<rparr>)"
  by (simp add: get_json_def Let_def cached_def quiet_gateway_def gateway_new_def admit_def check_def now_secs_def timestamp_def
      bucket_of_def recent_def aput_def adel_def take_lock_def cache_key_def fetch_with_retry_def store_def ttl_of_def
      fetch_loop.simps greeting_net_def is_success_def)

lemma greeting_within: "answers_within 0 greeting_net"
  by (simp add: answers_within_def greeting_net_def)

lemma reachable_run: "reachable init step s \<Longrightarrow> step\<^sup>*\<^sup>* s t \<Longrightarrow> reachable init step t"
  by (rotate_tac, induction rule: rtranclp_induct) (auto intro: reachable.move)

lemma quiet_start: "gw_reachable 120 \<lparr>w_gw = quiet_gateway, w_flights = [], w_log = []\<rparr>"
  by (rule reachable.start) (simp add: gw_init_def quiet_gateway_def gateway_new_def)

theorem get_json_simulated_witness:
  "\<exists>l. gw_reachable 120 (world [] ''user/7'' [] (snd (get_json greeting_net ''user/7'' [] quiet_gateway)) (Served 0 (Inr (JArr [JInt 7, JStr ''bob'']))) l)"
proof -
  let ?v = "JArr [JInt 7, JStr ''bob'']"
  let ?g = "snd (get_json greeting_net ''user/7'' [] quiet_gateway)"
  have run: "get_json greeting_net ''user/7'' [] quiet_gateway = (Inr ?v, ?g)" and now: "gw_now ?g = 0"
    by (simp_all add: quiet_run) (simp add: quiet_gateway_def gateway_new_def)
  from get_json_simulated [OF greeting_within run, of "[]" "[]"] obtain l
    where "gw_step\<^sup>*\<^sup>* \<lparr>w_gw = quiet_gateway, w_flights = [], w_log = []\<rparr> (world [] ''user/7'' [] ?g (Served 0 (Inr ?v)) l)"
    unfolding world_def now by auto
  with quiet_start show ?thesis by (blast intro: reachable_run)
qed

lemma quiet_world:
  "gw_reachable 120 (world [] ''user/7'' [] (store (cache_key ''user/7'' []) JNull (take_lock (cache_key ''user/7'' [])
     (quiet_gateway\<lparr>gw_rate := [(''phira:user/7'', [0])]\<rparr>))) (Served 0 (Inr JNull))
     [\<lparr>an_path = ''user/7'', an_query = [], an_value = JNull, an_at = 0\<rparr>])" (is "gw_reachable 120 ?w")
proof -
  let ?g = "take_lock (cache_key ''user/7'' []) (quiet_gateway\<lparr>gw_rate := [(''phira:user/7'', [0])]\<rparr>)"
  have none: "cached k quiet_gateway = None" for k by (simp add: cached_def quiet_gateway_def gateway_new_def)
  have "admit ''user/7'' quiet_gateway = (Inr (), quiet_gateway\<lparr>gw_rate := [(''phira:user/7'', [0])]\<rparr>)"
    by (simp add: quiet_gateway_def gateway_new_def admit_def check_def now_secs_def timestamp_def bucket_of_def recent_def aput_def adel_def Let_def)
  note admitted = move_admitted [OF this, of "[]" "[]" "[]"]
  have "gw_step \<lparr>w_gw = quiet_gateway, w_flights = [], w_log = []\<rparr> (world [] ''user/7'' [] quiet_gateway Arrived [])"
    using gw_step.arrive [of "\<lparr>w_gw = quiet_gateway, w_flights = [], w_log = []\<rparr>" "''user/7''" "[]"] by (simp add: world_def)
  with quiet_start have "gw_reachable 120 (world [] ''user/7'' [] quiet_gateway Arrived [])" by (rule reachable.move)
  moreover have "gw_step (world [] ''user/7'' [] quiet_gateway Arrived []) (world [] ''user/7'' [] quiet_gateway Missed [])"
    by (rule move_miss) (rule none)
  ultimately have "gw_reachable 120 (world [] ''user/7'' [] quiet_gateway Missed [])" by (rule reachable.move)
  from this admitted have "gw_reachable 120 (world [] ''user/7'' [] ?g Waiting [])" by (rule reachable.move)
  moreover have "gw_step (world [] ''user/7'' [] ?g Waiting []) (world [] ''user/7'' [] ?g Checking [])" by (rule move_lock) simp
  ultimately have "gw_reachable 120 (world [] ''user/7'' [] ?g Checking [])" by (rule reachable.move)
  moreover have "gw_step (world [] ''user/7'' [] ?g Checking []) (world [] ''user/7'' [] ?g Fetching [])"
    by (rule move_depart) (simp only: cached_simps none)
  ultimately have "gw_reachable 120 (world [] ''user/7'' [] ?g Fetching [])" by (rule reachable.move)
  moreover have "gw_now ?g = 0" by (simp add: quiet_gateway_def gateway_new_def take_lock_def)
  then have "gw_step (world [] ''user/7'' [] ?g Fetching []) ?w"
    using move_land [of "[]" "''user/7''" "[]" ?g "[]" JNull] by (simp only:)
  ultimately show ?thesis by (rule reachable.move)
qed

theorem gateway_single_flight_witness:
  "spaced (secs 120) [\<lparr>an_path = ''user/7'', an_query = [], an_value = JNull, an_at = 0\<rparr>]"
  using gateway_single_flight [OF quiet_world] by (simp add: world_def)

theorem gateway_answers_fresh_witness:
  "\<exists>a \<in> set [\<lparr>an_path = ''user/7'', an_query = [], an_value = JNull, an_at = 0\<rparr>].
     an_path a = ''user/7'' \<and> an_value a = JNull \<and> an_at a \<le> 0 \<and> 0 < an_at a + secs 120"
  using gateway_answers_fresh [OF quiet_world, of _ 0 JNull] by (simp add: world_def plain_request_def)

lemma greeting_chart: "\<exists>g. get_json greeting_net ''chart'' q quiet_gateway = (Inr (JArr [JInt 7, JStr ''bob'']), g)"
proof -
  let ?g = "take_lock (cache_key ''chart'' q) (quiet_gateway\<lparr>gw_rate := [(''phira:chart'', [0])]\<rparr>)"
  have "admit ''chart'' quiet_gateway = (Inr (), quiet_gateway\<lparr>gw_rate := [(''phira:chart'', [0])]\<rparr>)"
    by (simp add: quiet_gateway_def gateway_new_def admit_def check_def now_secs_def timestamp_def bucket_of_def recent_def aput_def adel_def Let_def)
  moreover have "cached k quiet_gateway = None" for k by (simp add: cached_def quiet_gateway_def gateway_new_def)
  moreover obtain h where "fetch_with_retry greeting_net ''chart'' q ?g = (Inr (JArr [JInt 7, JStr ''bob'']), h)"
    by (simp add: fetch_with_retry_def fetch_loop.simps greeting_net_def is_success_def)
  ultimately show ?thesis by (simp add: get_json_def Let_def)
qed

theorem cache_key_forged_witness:
  "\<exists>g v. chart_list quick_net (\<lambda>_ :: unit. []) 1 20 (Some ''x'') (Some 3) None None None None g = (Inr v, g)"
proof -
  obtain g where "chart_list greeting_net (\<lambda>_ :: unit. []) 1 20 (Some ''x&type=3'') None None None None None quiet_gateway =
      (Inr (JArr [JInt 7, JStr ''bob'']), g)"
    using greeting_chart unfolding chart_list_def by blast
  from cache_key_forged [OF this] show ?thesis by blast
qed

end
