(* ===== verification/Join_Intent.thy ===== *)
theory Join_Intent
  imports Api_Errors Http
begin

text \<open>
  Join intents (\<^verbatim>\<open>join_intent/mod.rs\<close>): a user asks to be moved to a room as soon as the game server
  reports the user online. The store keeps the intents by id and, for the matcher, one intent id per
  player. Generated ids and the clock are arguments.
\<close>

definition DEFAULT_TTL_SECS :: int where "DEFAULT_TTL_SECS = 300"
definition MAX_TTL_SECS :: int where "MAX_TTL_SECS = 900"
definition TERMINAL_RETENTION_SECS :: int where "TERMINAL_RETENTION_SECS = 3600"

definition STATUS_PENDING :: string where "STATUS_PENDING = ''pending''"
definition STATUS_USER_ONLINE :: string where "STATUS_USER_ONLINE = ''user_online''"
definition STATUS_MOVING :: string where "STATUS_MOVING = ''moving''"
definition STATUS_COMPLETED :: string where "STATUS_COMPLETED = ''completed''"
definition STATUS_FAILED :: string where "STATUS_FAILED = ''failed''"
definition STATUS_EXPIRED :: string where "STATUS_EXPIRED = ''expired''"

lemmas status_defs =
  STATUS_PENDING_def STATUS_USER_ONLINE_def STATUS_MOVING_def STATUS_COMPLETED_def STATUS_FAILED_def STATUS_EXPIRED_def

record join_intent =
  ji_id :: uuid
  ji_user :: uuid
  ji_phira :: int
  ji_room :: string
  ji_created_at :: instant
  ji_expires_at :: instant
  ji_status :: string

definition is_terminal :: "string \<Rightarrow> bool" where
  "is_terminal st \<longleftrightarrow> st = STATUS_COMPLETED \<or> st = STATUS_FAILED \<or> st = STATUS_EXPIRED"

definition effective_status :: "instant \<Rightarrow> join_intent \<Rightarrow> string" where
  "effective_status now it =
     (if ji_expires_at it \<le> now \<and> \<not> is_terminal (ji_status it) then STATUS_EXPIRED else ji_status it)"

record intent_store =
  intents :: "(uuid \<times> join_intent) list"
  by_phira :: "(int \<times> uuid) list"

definition create_intent ::
  "uuid \<Rightarrow> instant \<Rightarrow> uuid \<Rightarrow> int \<Rightarrow> string \<Rightarrow> int option \<Rightarrow> (intent_store, api_error, join_intent) comp" where
  "create_intent i now user pid room ttl_secs =
     (let ttl = unwrap_or ttl_secs DEFAULT_TTL_SECS in
      if \<not> (1 \<le> ttl \<and> ttl \<le> MAX_TTL_SECS)
      then throw (validation (''ttl_secs must be between 1 and '' @ show_int MAX_TTL_SECS))
      else if trim room = [] then throw (validation ''room_id required'')
      else (\<lambda>s.
        let it = \<lparr>ji_id = i, ji_user = user, ji_phira = pid, ji_room = trim room, ji_created_at = now,
                  ji_expires_at = now + secs ttl, ji_status = STATUS_PENDING\<rparr>;
            idx = (case aget (intents s) i of Some prev \<Rightarrow> adel (ji_phira prev) (by_phira s) | None \<Rightarrow> by_phira s)
        in (Inr it, \<lparr>intents = aput i it (intents s), by_phira = aput pid i idx\<rparr>)))"

definition get_intent :: "instant \<Rightarrow> uuid \<Rightarrow> uuid \<Rightarrow> intent_store \<Rightarrow> api_error + join_intent" where
  "get_intent now user i s =
     (case aget (intents s) i of
        Some it \<Rightarrow> if ji_user it = user then Inr (it\<lparr>ji_status := effective_status now it\<rparr>) else Inl permission_denied
      | None \<Rightarrow> Inl (not_found ''join intent''))"

definition cancel_intent :: "uuid \<Rightarrow> uuid \<Rightarrow> (intent_store, api_error, unit) comp" where
  "cancel_intent user i s =
     (case aget (intents s) i of
        Some it \<Rightarrow>
          if ji_user it = user
          then (Inr (), \<lparr>intents = adel i (intents s), by_phira = adel (ji_phira it) (by_phira s)\<rparr>)
          else (Inl permission_denied, s)
      | None \<Rightarrow> (Inl (not_found ''join intent''), s))"

definition intents_for_user :: "instant \<Rightarrow> uuid \<Rightarrow> intent_store \<Rightarrow> join_intent list" where
  "intents_for_user now user s =
     map (\<lambda>it. it\<lparr>ji_status := effective_status now it\<rparr>)
       (filter (\<lambda>it. ji_user it = user \<and> now - secs TERMINAL_RETENTION_SECS < ji_expires_at it) (map snd (intents s)))"

definition update_status :: "uuid \<Rightarrow> string \<Rightarrow> intent_store \<Rightarrow> intent_store" where
  "update_status i st s =
     (case aget (intents s) i of Some it \<Rightarrow> s\<lparr>intents := aput i (it\<lparr>ji_status := st\<rparr>) (intents s)\<rparr> | None \<Rightarrow> s)"

definition match_online :: "instant \<Rightarrow> int \<Rightarrow> intent_store \<Rightarrow> join_intent option \<times> intent_store" where
  "match_online now pid s =
     (case aget (by_phira s) pid of
        None \<Rightarrow> (None, s)
      | Some i \<Rightarrow>
          (case aget (intents s) i of
             None \<Rightarrow> (None, s)
           | Some it \<Rightarrow>
               if effective_status now it \<noteq> STATUS_PENDING then (None, s)
               else (Some (it\<lparr>ji_status := STATUS_USER_ONLINE\<rparr>), update_status i STATUS_USER_ONLINE s)))"

definition mark_moving :: "uuid \<Rightarrow> intent_store \<Rightarrow> intent_store" where
  "mark_moving i s = update_status i STATUS_MOVING s"

definition mark_terminal :: "uuid \<Rightarrow> string \<Rightarrow> intent_store \<Rightarrow> intent_store" where
  "mark_terminal i st s =
     (let s' = update_status i st s in
      case aget (intents s) i of Some it \<Rightarrow> s'\<lparr>by_phira := adel (ji_phira it) (by_phira s')\<rparr> | None \<Rightarrow> s')"

text \<open>One entry of the cleanup: how many were removed so far, and the store. A missing entry has the default
  time (the epoch) and the empty status.\<close>

definition cleanup_one :: "instant \<Rightarrow> uuid \<Rightarrow> nat \<times> intent_store \<Rightarrow> nat \<times> intent_store" where
  "cleanup_one now i ns =
     (case ns of (n, s) \<Rightarrow>
        let (expires, st) = (case aget (intents s) i of Some it \<Rightarrow> (ji_expires_at it, ji_status it) | None \<Rightarrow> (0, [])) in
        if expires \<le> now then
          (if is_terminal st then
             (if secs TERMINAL_RETENTION_SECS < now - expires
              then (case aget (intents s) i of
                      Some it \<Rightarrow> (n + 1, \<lparr>intents = adel i (intents s), by_phira = adel (ji_phira it) (by_phira s)\<rparr>)
                    | None \<Rightarrow> (n, s))
              else (n, s))
           else (n, update_status i STATUS_EXPIRED s))
        else (n, s))"

definition cleanup_expired :: "instant \<Rightarrow> intent_store \<Rightarrow> nat \<times> intent_store" where
  "cleanup_expired now s = fold (cleanup_one now) (map fst (intents s)) (0, s)"

section \<open>Histories\<close>

inductive intent_step :: "intent_store \<Rightarrow> intent_store \<Rightarrow> bool" where
  created: "intent_step s (snd (create_intent i now user pid room ttl s))"
| cancelled: "intent_step s (snd (cancel_intent user i s))"
| matched: "intent_step s (snd (match_online now pid s))"
| moving: "intent_step s (mark_moving i s)"
| ended: "is_terminal st \<Longrightarrow> intent_step s (mark_terminal i st s)"
| cleaned: "intent_step s (snd (cleanup_expired now s))"

definition no_intents :: intent_store where
  "no_intents = \<lparr>intents = [], by_phira = []\<rparr>"

text \<open>An entry is stored under its own id, and the index of a player leads to an intent of that player.\<close>

definition store_ok :: "intent_store \<Rightarrow> bool" where
  "store_ok s \<longleftrightarrow>
     (\<forall>i it. aget (intents s) i = Some it \<longrightarrow> ji_id it = i) \<and>
     (\<forall>p i. aget (by_phira s) p = Some i \<longrightarrow> (\<exists>it. aget (intents s) i = Some it \<and> ji_phira it = p))"

lemma update_status_ok: "store_ok s \<Longrightarrow> store_ok (update_status i st s)"
  by (fastforce simp: store_ok_def update_status_def split: option.splits if_splits)

lemma removed_ok:
  "store_ok s \<Longrightarrow> aget (intents s) i = Some it \<Longrightarrow>
   store_ok \<lparr>intents = adel i (intents s), by_phira = adel (ji_phira it) (by_phira s)\<rparr>"
  by (fastforce simp: store_ok_def split: if_splits)

lemma cleanup_one_ok: "store_ok (snd ns) \<Longrightarrow> store_ok (snd (cleanup_one now i ns))"
  by (cases ns) (auto simp: cleanup_one_def update_status_ok removed_ok split: option.splits)

lemma cleanup_fold_ok: "store_ok (snd ns) \<Longrightarrow> store_ok (snd (fold (cleanup_one now) is ns))"
  by (induction "is" arbitrary: ns) (simp_all add: cleanup_one_ok)

lemma create_intent_ok:
  assumes "store_ok s"
  shows "store_ok (snd (create_intent i now user pid room ttl s))"
  using assms
  by (fastforce simp: create_intent_def throw_def Let_def store_ok_def split: option.splits if_splits)

lemma intent_step_ok: "intent_step s t \<Longrightarrow> store_ok s \<Longrightarrow> store_ok t"
proof (induction rule: intent_step.induct)
  case (created s i now user pid room ttl)
  then show ?case by (rule create_intent_ok)
next
  case (cancelled s user i)
  then show ?case by (auto simp: cancel_intent_def removed_ok split: option.splits)
next
  case (matched s now pid)
  then show ?case by (auto simp: match_online_def update_status_ok split: option.splits)
next
  case (moving s i)
  then show ?case by (simp add: mark_moving_def update_status_ok)
next
  case (ended st s i)
  then have "store_ok (update_status i st s)" by (simp add: update_status_ok)
  then show ?case by (auto simp: mark_terminal_def Let_def store_ok_def split: option.splits if_splits)
next
  case (cleaned s now)
  then show ?case by (simp add: cleanup_expired_def cleanup_fold_ok)
qed

interpretation intent_system: invariant_system "\<lambda>s. s = no_intents" intent_step store_ok
proof
  show "store_ok s" if "s = no_intents" for s using that by (simp add: store_ok_def no_intents_def)
qed (rule intent_step_ok)

text \<open>A player who comes online is moved only where the player asked to go. In every history, a match
  for a player is a stored intent of that player which was still pending and had not expired; it
  changes nothing but the status of this intent, and the same intent is not matched a second time.\<close>

theorem match_online_sound:
  assumes "reachable (\<lambda>s. s = no_intents) intent_step s" and "match_online now p s = (Some it, t)"
  shows "\<exists>old. aget (intents s) (ji_id it) = Some old \<and> ji_phira old = p \<and> ji_status old = STATUS_PENDING \<and> now < ji_expires_at old \<and>
    it = old\<lparr>ji_status := STATUS_USER_ONLINE\<rparr> \<and> aget (intents t) = (aget (intents s))(ji_id it \<mapsto> it) \<and>
    by_phira t = by_phira s \<and> fst (match_online now' p t) = None"
proof -
  have ok: "store_ok s" by (rule intent_system.reachable_inv [OF assms(1)])
  from assms(2) obtain i old where i: "aget (by_phira s) p = Some i" and old: "aget (intents s) i = Some old"
    and st: "effective_status now old = STATUS_PENDING" and it: "it = old\<lparr>ji_status := STATUS_USER_ONLINE\<rparr>"
    and t: "t = update_status i STATUS_USER_ONLINE s"
    by (auto simp: match_online_def split: option.splits if_splits)
  have "ji_id old = i" "ji_phira old = p" using ok i old by (fastforce simp: store_ok_def)+
  moreover have "ji_status old = STATUS_PENDING" "now < ji_expires_at old"
    using st by (auto simp: effective_status_def is_terminal_def status_defs split: if_splits)
  moreover have "aget (intents t) = (aget (intents s))(i \<mapsto> it)" "by_phira t = by_phira s"
    using old it t by (auto simp: update_status_def)
  moreover from this i it have "fst (match_online now' p t) = None"
    by (auto simp: match_online_def effective_status_def is_terminal_def status_defs)
  ultimately show ?thesis using old it by auto
qed

definition waiting_store :: intent_store where
  "waiting_store = snd (create_intent 1 0 7 42 ''A'' None no_intents)"

theorem match_online_sound_witness:
  "\<exists>it t. match_online 5 42 waiting_store = (Some it, t) \<and> ji_phira it = 42 \<and> ji_room it = ''A'' \<and> fst (match_online 6 42 t) = None"
proof -
  have trim: "trim ''A'' = ''A''" by code_simp
  have r: "reachable (\<lambda>s. s = no_intents) intent_step waiting_store"
    unfolding waiting_store_def by (blast intro: reachable.intros intent_step.created)
  have "\<exists>it t. match_online 5 42 waiting_store = (Some it, t) \<and> ji_room it = ''A''"
    by (simp add: match_online_def waiting_store_def create_intent_def no_intents_def trim Let_def effective_status_def
        is_terminal_def status_defs secs_def DEFAULT_TTL_SECS_def MAX_TTL_SECS_def)
  then obtain it t where "match_online 5 42 waiting_store = (Some it, t)" "ji_room it = ''A''" by blast
  with match_online_sound [OF r this(1), of 6] show ?thesis by auto
qed

text \<open>Cancelling an old intent makes the matcher forget a newer one. With two intents of one player the
  index holds the newer; cancelling the older removes the index entry of the player, and the newer
  intent, still pending, is never matched.\<close>

theorem cancel_forgets_newer_intent:
  assumes "aget (intents s) i = Some it" and "ji_user it = user" and "aget (intents s) j = Some jt" and "j \<noteq> i"
    and "ji_phira jt = ji_phira it" and "aget (by_phira s) (ji_phira it) = Some j"
  shows "fst (cancel_intent user i s) = Inr () \<and> aget (intents (snd (cancel_intent user i s))) j = Some jt \<and>
    fst (match_online now (ji_phira jt) (snd (cancel_intent user i s))) = None"
  using assms by (simp add: cancel_intent_def match_online_def)

theorem cancel_forgets_newer_intent_witness:
  "\<exists>s jt. aget (intents (snd (cancel_intent 7 1 s))) 2 = Some jt \<and> ji_status jt = STATUS_PENDING \<and>
     fst (match_online 6 42 (snd (cancel_intent 7 1 s))) = None"
proof -
  have trim: "trim ''A'' = ''A''" by code_simp
  let ?s = "snd (create_intent 2 1 7 42 ''A'' None waiting_store)"
  have "\<exists>it jt. aget (intents ?s) 1 = Some it \<and> ji_user it = 7 \<and> aget (intents ?s) 2 = Some jt \<and> ji_phira jt = 42 \<and> ji_phira it = 42 \<and>
      aget (by_phira ?s) 42 = Some 2 \<and> ji_status jt = STATUS_PENDING"
    by (simp add: waiting_store_def create_intent_def no_intents_def trim Let_def DEFAULT_TTL_SECS_def MAX_TTL_SECS_def)
  then obtain it jt where s: "aget (intents ?s) 1 = Some it" "ji_user it = 7" "aget (intents ?s) 2 = Some jt" "ji_phira jt = 42" "ji_phira it = 42"
      "aget (by_phira ?s) 42 = Some 2" "ji_status jt = STATUS_PENDING" by blast
  from cancel_forgets_newer_intent [of ?s 1 it 7 2 jt 6] s show ?thesis by (intro exI [of _ ?s] exI [of _ jt]) simp
qed

end
