(* ===== verification/Inbox.thy ===== *)
theory Inbox
  imports Social Join_Intent
begin

text \<open>
  The endpoints of the notification centre (\<^verbatim>\<open>notifications/routes.rs\<close>): the inbox, its typed buttons and
  replies into a room. A button press acts with the rights of the owner of the inbox row. The answers
  of the Phira gateway are dropped by the handlers and do not appear.
\<close>

section \<open>The inbox\<close>

definition payload_str :: "json \<Rightarrow> string \<Rightarrow> string \<Rightarrow> string" where
  "payload_str p k fallback = unwrap_or (string_field p k) fallback"

record notification_wire =
  nw_id :: uuid
  nw_type :: string
  nw_priority :: string
  nw_title :: string
  nw_title_key :: "string option"
  nw_body :: string
  nw_body_key :: "string option"
  nw_params :: "(string \<times> json) list"
  nw_actor :: json
  nw_target :: json
  nw_actions :: "action_wire list"
  nw_input :: "json option"
  nw_deep_link :: string
  nw_expires_at :: "json option"
  nw_dedup_key :: string
  nw_read_at :: "instant option"
  nw_created_at :: instant

definition actor_json :: "user \<Rightarrow> json" where
  "actor_json u = JObj [(''phira_id'', JInt (phira_id u)), (''username'', JStr (username_cache u)), (''avatar'', JStr (avatar_cache u))]"

definition wire_notification :: "libs \<Rightarrow> action_serde \<Rightarrow> inbox_row \<Rightarrow> (db, api_error, notification_wire) comp" where
  "wire_notification L S row =
     (let n = fst row; e = snd row; p = ev_payload e in
      bnd (case ev_actor e of
             Some u \<Rightarrow> bnd (find_user_by_id u) (\<lambda>x. ret (jopt actor_json x))
           | None \<Rightarrow> ret (unwrap_or (get_field p ''actor'') JNull)) (\<lambda>actor.
      ret \<lparr>nw_id = un_id n, nw_type = ev_type e, nw_priority = payload_str p ''priority'' ''normal'', nw_title = payload_str p ''title'' [],
           nw_title_key = string_field p ''title_key'', nw_body = payload_str p ''body'' [], nw_body_key = string_field p ''body_key'',
           nw_params = unwrap_or (Option.bind (get_field p ''params'') as_object) [], nw_actor = actor,
           nw_target = unwrap_or (get_field p ''target'') JNull,
           nw_actions = normalize_stored_actions L S (get_field p ''actions'') (ev_id e), nw_input = get_field p ''input'',
           nw_deep_link = payload_str p ''deep_link'' [], nw_expires_at = get_field p ''expires_at'', nw_dedup_key = payload_str p ''dedup_key'' [],
           nw_read_at = un_read_at n, nw_created_at = un_created_at n\<rparr>))"

fun wire_all :: "libs \<Rightarrow> action_serde \<Rightarrow> inbox_row list \<Rightarrow> (db, api_error, notification_wire list) comp" where
  "wire_all L S [] = ret []"
| "wire_all L S (r # rs) = bnd (wire_notification L S r) (\<lambda>w. bnd (wire_all L S rs) (\<lambda>ws. ret (w # ws)))"

record inbox_response =
  ib_items :: "notification_wire list"
  ib_total :: int
  ib_page :: int
  ib_page_num :: int
  ib_unread :: int

definition route_inbox :: "libs \<Rightarrow> action_serde \<Rightarrow> auth_principal \<Rightarrow> int option \<Rightarrow> int option \<Rightarrow> (db option, api_error, inbox_response) comp" where
  "route_inbox L S a page page_num =
     as_user a (
       let p = max (unwrap_or page 1) 1; n = max 1 (min 100 (unwrap_or page_num 50)) in
       bnd (list_inbox (sub a) n (wrap64 ((p - 1) * n))) (\<lambda>(rows, total, unread).
       bnd (wire_all L S rows) (\<lambda>items.
       ret \<lparr>ib_items = items, ib_total = total, ib_page = p, ib_page_num = n, ib_unread = unread\<rparr>)))"

definition own_notification :: "auth_principal \<Rightarrow> uuid \<Rightarrow> (db, api_error, inbox_row) comp" where
  "own_notification a i =
     bnd (notification_for_user (sub a) i) (\<lambda>row. some_or row (api_error_new NotificationNotFound ''notification not found''))"

definition route_read :: "auth_principal \<Rightarrow> uuid \<Rightarrow> (db option, api_error, unit) comp" where
  "route_read a i = as_user a (andthen (own_notification a i) (mark_read i (sub a)))"

definition route_dismiss :: "auth_principal \<Rightarrow> uuid \<Rightarrow> (db option, api_error, unit) comp" where
  "route_dismiss a i = as_user a (andthen (own_notification a i) (mark_dismissed i (sub a)))"

section \<open>Buttons\<close>

datatype action_result =
    ActionCompleted action_kind
  | PendingJoinIntent action_kind uuid
  | Navigate action_kind string

text \<open>The handlers of the centre share the pool, the join intents and the rate limiter.\<close>

record hub_state =
  hs_pool :: "db option"
  hs_intents :: intent_store
  hs_limiter :: buckets

definition on_hs_pool :: "(db option, 'e, 'a) comp \<Rightarrow> (hub_state, 'e, 'a) comp" where
  "on_hs_pool m s = (case m (hs_pool s) of (r, p) \<Rightarrow> (r, s\<lparr>hs_pool := p\<rparr>))"

definition on_hs_intents :: "(intent_store, 'e, 'a) comp \<Rightarrow> (hub_state, 'e, 'a) comp" where
  "on_hs_intents m s = (case m (hs_intents s) of (r, p) \<Rightarrow> (r, s\<lparr>hs_intents := p\<rparr>))"

definition on_hs_limiter :: "(buckets, 'e, 'a) comp \<Rightarrow> (hub_state, 'e, 'a) comp" where
  "on_hs_limiter m s = (case m (hs_limiter s) of (r, b) \<Rightarrow> (r, s\<lparr>hs_limiter := b\<rparr>))"

definition player_info :: "pmp \<Rightarrow> int \<Rightarrow> uds_error + json" where
  "player_info G user = G ''player.info'' (JObj [(''user_id'', JInt user)])"

definition player_online :: "pmp \<Rightarrow> int \<Rightarrow> bool" where
  "player_online G p =
     (case player_info G (wrap32 p) of
        Inr v \<Rightarrow> unwrap_or (Option.bind (get_field v ''online'') as_bool) False
      | Inl _ \<Rightarrow> False)"

definition verified_navigation_path :: "libs \<Rightarrow> action_kind \<Rightarrow> action_target \<Rightarrow> api_error + string" where
  "verified_navigation_path L k t =
     (case k of
        OpenRoom \<Rightarrow> (case tg_room_id t of
            Some r \<Rightarrow> Inr (''/room/'' @ percent_encode L r) | None \<Rightarrow> Inl (target_invalid ''open_room requires room_id''))
      | OpenChart \<Rightarrow> (case tg_chart_id t of
            Some c \<Rightarrow> Inr (''/chart/'' @ show_int c) | None \<Rightarrow> Inl (target_invalid ''open_chart requires chart_id''))
      | OpenUser \<Rightarrow> (case tg_phira_id t of
            Some p \<Rightarrow> Inr (''/user/'' @ show_int p) | None \<Rightarrow> Inl (target_invalid ''open_user requires phira_id''))
      | OpenProfile \<Rightarrow> (case tg_phira_id t of
            Some p \<Rightarrow> Inr (''/user/'' @ show_int p) | None \<Rightarrow> Inl (target_invalid ''open_user requires phira_id''))
      | OpenReplay \<Rightarrow> (case tg_round_uuid t of
            Some r \<Rightarrow> Inr (''/replay/'' @ percent_encode L r) | None \<Rightarrow> Inl (target_invalid ''open_replay requires round_uuid''))
      | _ \<Rightarrow> Inl (target_invalid ''action does not navigate''))"

text \<open>Pressing a button of a notification of the caller.\<close>

definition press ::
  "env \<Rightarrow> pmp \<Rightarrow> uuid \<Rightarrow> auth_principal \<Rightarrow> user \<Rightarrow> action_wire \<Rightarrow> (hub_state, api_error, action_result) comp" where
  "press E G intent_id a u w =
     (let k = wi_action w; t = wi_data w in
      case k of
        JoinRoom \<Rightarrow>
          bnd (some_or (tg_room_id t) (target_invalid ''join_room requires room_id'')) (\<lambda>room.
          if player_online G (phira_id u)
          then andthen (from_result (case room_force_move G room (wrap32 (phira_id u)) False of Inl e \<Rightarrow> Inl (uds_to_api e) | Inr v \<Rightarrow> Inr v))
                 (ret (ActionCompleted k))
          else bnd (on_hs_intents (create_intent intent_id (now_of E) (sub a) (phira_id u) room None)) (\<lambda>it.
                 ret (PendingJoinIntent k (ji_id it))))
      | FriendAccept \<Rightarrow>
          bnd (some_or (tg_friend_request_id t) (target_invalid ''friend action requires friend_request_id'')) (\<lambda>rid.
          andthen (on_hs_pool (with_db (respond_request rid (sub a) True))) (ret (ActionCompleted k)))
      | FriendReject \<Rightarrow>
          bnd (some_or (tg_friend_request_id t) (target_invalid ''friend action requires friend_request_id'')) (\<lambda>rid.
          andthen (on_hs_pool (with_db (respond_request rid (sub a) False))) (ret (ActionCompleted k)))
      | _ \<Rightarrow> bnd (from_result (verified_navigation_path (libs_of E) k t)) (\<lambda>dest. ret (Navigate k dest)))"

definition route_action ::
  "env \<Rightarrow> action_serde \<Rightarrow> pmp \<Rightarrow> uuid \<Rightarrow> auth_principal \<Rightarrow> uuid \<Rightarrow> string \<Rightarrow> (hub_state, api_error, action_result) comp" where
  "route_action E S G intent_id a i button =
     (if is_root a then throw permission_denied
      else
        bnd (on_hs_pool (with_db (own_notification a i))) (\<lambda>row.
        bnd (some_or (find (\<lambda>w. wi_id w = button)
               (normalize_stored_actions (libs_of E) S (get_field (ev_payload (snd row)) ''actions'') (ev_id (snd row))))
             (api_error_new NotificationActionNotAvailable ''action not available on this notification'')) (\<lambda>w.
        bnd (on_hs_pool (with_db (find_user_by_id (sub a)))) (\<lambda>x.
        bnd (some_or x (api_error_new UserNotFound ''user not found'')) (\<lambda>u.
        press E G intent_id a u w)))))"

section \<open>Replies\<close>

text \<open>The number of characters of a UTF-8 string: its bytes that do not continue a character.\<close>

definition char_count :: "string \<Rightarrow> nat" where
  "char_count s = length (filter (\<lambda>c. \<not> cont_byte c) s)"

definition route_input ::
  "env \<Rightarrow> pmp \<Rightarrow> uds \<Rightarrow> auth_principal \<Rightarrow> uuid \<Rightarrow> string \<Rightarrow> (hub_state, api_error, json) comp" where
  "route_input E G U a i input_text =
     (if is_root a then throw permission_denied
      else
        bnd (on_hs_pool (with_db (own_notification a i))) (\<lambda>row.
        let text = trim input_text in
        if text = [] then throw (api_error_new NotificationInputEmpty ''notification input is empty'')
        else if 500 < char_count text then throw (api_error_new NotificationInputTooLong ''notification input is too long'')
        else
          bnd (some_or (Option.bind (get_field (ev_payload (snd row)) ''target'') (\<lambda>t. string_field t ''room_id''))
                (api_error_new NotificationInputNotAllowed ''notification input is not allowed'')) (\<lambda>room.
          bnd (on_hs_pool (with_db (find_user_by_id (sub a)))) (\<lambda>x.
          bnd (some_or x (api_error_new UserNotFound ''user not found'')) (\<lambda>u.
          andthen (on_hs_limiter (check (now_secs (now_of E)) (''chat-send:'' @ room @ '':'' @ uuid_text (libs_of E) (sub a))
                     (chat_send_per_minute (rate_limit (cfg E)))))
          (from_result (case room_chat_send G U room (wrap32 (phira_id u)) text of Inl e \<Rightarrow> Inl (uds_to_api e) | Inr v \<Rightarrow> Inr v)))))))"

section \<open>What a button can do\<close>

text \<open>What the percent encoding of all but alphanumerics promises.\<close>

definition percent_law :: "libs \<Rightarrow> bool" where
  "percent_law L \<longleftrightarrow> (\<forall>s. \<forall>c \<in> set (percent_encode L s). ascii_alphanumeric c \<or> c = CHR ''%'')"

definition plain_segment :: "string \<Rightarrow> bool" where
  "plain_segment s \<longleftrightarrow> (\<forall>c \<in> set s. ascii_alphanumeric c \<or> c \<in> {CHR ''%'', CHR ''-''})"

definition internal_path :: "string \<Rightarrow> bool" where
  "internal_path dest \<longleftrightarrow>
     (\<exists>p s. p \<in> {''/room/'', ''/chart/'', ''/user/'', ''/replay/''} \<and> dest = p @ s \<and> plain_segment s)"

lemma digit_alphanumeric: "n < 10 \<Longrightarrow> ascii_alphanumeric (char_of (48 + n :: nat))"
  by (simp add: ascii_alphanumeric_def byte_def)

lemma nat_digits_plain: "\<forall>c \<in> set (nat_digits n). ascii_alphanumeric c"
  by (induction n rule: nat_digits.induct) (subst nat_digits.simps, auto simp: digit_alphanumeric)

lemma show_int_plain: "plain_segment (show_int i)"
  using nat_digits_plain by (auto simp: plain_segment_def show_int_def)

lemma navigation_internal:
  assumes "verified_navigation_path L k t = Inr dest" and "percent_law L"
  shows "internal_path dest"
proof -
  have enc: "plain_segment (percent_encode L s)" for s using assms(2) by (auto simp: percent_law_def plain_segment_def)
  have into: "plain_segment s \<Longrightarrow> p \<in> {''/room/'', ''/chart/'', ''/user/'', ''/replay/''} \<Longrightarrow> internal_path (p @ s)" for p s
    unfolding internal_path_def by blast
  from assms(1) show ?thesis
    by (cases k) (auto simp: verified_navigation_path_def simp del: append_Cons append_Nil split: option.splits intro!: into enc show_int_plain)
qed

lemma stored_action_valid: "stored_action L S e ir = Some w \<Longrightarrow> valid_target (wi_action w) (wi_data w)"
  by (cases ir) (auto simp: stored_action_def split: option.splits if_splits)

lemma stored_actions_valid:
  "w \<in> set (normalize_stored_actions L S v e) \<Longrightarrow> valid_target (wi_action w) (wi_data w)"
  by (auto simp: normalize_stored_actions_def List.map_filter_def dest: stored_action_valid split: option.splits)

definition kind_of :: "action_result \<Rightarrow> action_kind" where
  "kind_of r = (case r of ActionCompleted k \<Rightarrow> k | PendingJoinIntent k _ \<Rightarrow> k | Navigate k _ \<Rightarrow> k)"

lemma press_result:
  assumes "press E G j a u w s = (Inr r, t)" and "percent_law (libs_of E)"
  shows "kind_of r = wi_action w \<and> (\<forall>k dest. r = Navigate k dest \<longrightarrow> internal_path dest)"
  using assms navigation_internal [of "libs_of E" "wi_action w" "wi_data w"]
  by (cases "wi_action w") (auto simp: press_def runs kind_of_def Let_def from_result_def split: if_splits)

lemma own_notificationD:
  assumes "own_notification a i d = (Inr row, d')"
  shows "row \<in> set (joined d) \<and> un_id (fst row) = i \<and> un_user_id (fst row) = sub a"
proof -
  from assms have "find (\<lambda>r. un_user_id (fst r) = sub a \<and> un_id (fst r) = i) (joined d) = Some row"
    by (auto simp: own_notification_def notification_for_user_def runs some_or_def joined_def ret_def throw_def split: option.splits dest!: select_InrD)
  then show ?thesis using find_SomeD by fastforce
qed

text \<open>A button does only what was stored with it. A press that succeeds was of a button of a notification
  in the caller's own inbox, with a valid target; what was done is of the kind stored there; and a
  navigation leads to a room, chart, user or replay page of the application, by a dest of a fixed
  prefix and a segment without separators.\<close>

theorem button_press_confined:
  assumes "route_action E S G j a i button s = (Inr r, t)" and "percent_law (libs_of E)"
  shows "\<exists>d row w. hs_pool s = Some d \<and> row \<in> set (joined d) \<and> un_id (fst row) = i \<and> un_user_id (fst row) = sub a \<and> \<not> is_root a \<and>
    w \<in> set (normalize_stored_actions (libs_of E) S (get_field (ev_payload (snd row)) ''actions'') (ev_id (snd row))) \<and>
    wi_id w = button \<and> valid_target (wi_action w) (wi_data w) \<and> kind_of r = wi_action w \<and>
    (\<forall>k dest. r = Navigate k dest \<longrightarrow> internal_path dest)"
proof -
  from assms(1) obtain d row d1 w u s1 where root: "\<not> is_root a" and d: "hs_pool s = Some d" "own_notification a i d = (Inr row, d1)"
    and w: "find (\<lambda>w. wi_id w = button) (normalize_stored_actions (libs_of E) S (get_field (ev_payload (snd row)) ''actions'') (ev_id (snd row))) = Some w"
    and p: "press E G j a u w s1 = (Inr r, t)"
    by (auto simp: route_action_def on_hs_pool_def runs some_or_def ret_def throw_def with_db_def split: if_splits prod.splits option.splits)
  then have "w \<in> set (normalize_stored_actions (libs_of E) S (get_field (ev_payload (snd row)) ''actions'') (ev_id (snd row)))" "wi_id w = button"
    using find_SomeD [OF w] by auto
  with root d w press_result [OF p assms(2)] own_notificationD [OF d(2)] stored_actions_valid show ?thesis by blast
qed

definition profile_button :: action_wire where
  "profile_button = \<lparr>wi_id = ''b'', wi_label = [], wi_label_key = None, wi_action = OpenUser, wi_data = no_target\<lparr>tg_phira_id := Some 5\<rparr>,
     wi_danger = False\<rparr>"

definition button_serde :: action_serde where
  "button_serde = \<lparr>wire_of_json = (\<lambda>_. Some profile_button), draft_of_json = (\<lambda>_. None)\<rparr>"

definition strict_env :: env where
  "strict_env = demo_env\<lparr>libs_of := (libs_of demo_env)\<lparr>percent_encode := (\<lambda>_. [])\<rparr>\<rparr>"

definition told_state :: hub_state where
  "told_state = \<lparr>hs_pool = Some (demo_db\<lparr>
     notification_events := [\<lparr>ev_id = 1, ev_type = [], ev_actor = None, ev_payload = JObj [(''actions'', JArr [JNull])], ev_created_at = 0\<rparr>],
     user_notifications := [\<lparr>un_id = 2, un_event_id = 1, un_user_id = 7, un_read_at = None, un_dismissed_at = None, un_created_at = 0\<rparr>]\<rparr>),
     hs_intents = no_intents, hs_limiter = []\<rparr>"

theorem button_press_confined_witness:
  "\<exists>r t. route_action strict_env button_serde (\<lambda>_ _. Inr JNull) 9 demo_principal 2 ''b'' told_state = (Inr r, t) \<and> kind_of r = OpenUser"
proof -
  obtain r t where run: "route_action strict_env button_serde (\<lambda>_ _. Inr JNull) 9 demo_principal 2 ''b'' told_state = (Inr r, t)"
    by (simp add: route_action_def demo_principal_def is_root_def told_state_def on_hs_pool_def with_db_def own_notification_def
        notification_for_user_def joined_def find_user_by_id_def map_err_def bnd_def ret_def some_or_def demo_db_def empty_db_def
        normalize_stored_actions_def get_field_def as_array_def stored_action_def button_serde_def profile_button_def valid_target_def
        no_target_def press_def from_result_def verified_navigation_path_def)
  have law: "percent_law (libs_of strict_env)" by (simp add: percent_law_def strict_env_def)
  from button_press_confined [OF run law] obtain row :: inbox_row and w where
    "w \<in> set (normalize_stored_actions (libs_of strict_env) button_serde (get_field (ev_payload (snd row)) ''actions'') (ev_id (snd row)))"
    "kind_of r = wi_action w" by blast
  moreover from this(1) have "w = profile_button"
    by (auto simp: normalize_stored_actions_def List.map_filter_def stored_action_def button_serde_def split: option.splits if_splits)
  ultimately show ?thesis using run by (intro exI [of _ r] exI [of _ t]) (simp add: profile_button_def)
qed

end
