(* ===== verification/Phira_Routes.thy ===== *)
theory Phira_Routes
  imports Phira_Gateway Inbox
begin

text \<open>
  What is built on the Phira gateway: the snapshots of popular charts (\<^verbatim>\<open>phira/aggregator.rs\<close>), the blob of the
  chart viewer (\<^verbatim>\<open>phira/viewer.rs\<close>) and the public endpoints (\<^verbatim>\<open>phira/routes.rs\<close>) with the community profile.
  Floating-point numbers are a type parameter; the zip, YAML and bincode libraries are parameters.
\<close>

section \<open>State\<close>

record phira_state =
  ps_gw :: gateway
  ps_pool :: "db option"

definition on_gw :: "(gateway, 'e, 'a) comp \<Rightarrow> (phira_state, 'e, 'a) comp" where
  "on_gw m s = (case m (ps_gw s) of (r, g) \<Rightarrow> (r, s\<lparr>ps_gw := g\<rparr>))"

definition on_ps_pool :: "(db option, 'e, 'a) comp \<Rightarrow> (phira_state, 'e, 'a) comp" where
  "on_ps_pool m s = (case m (ps_pool s) of (r, p) \<Rightarrow> (r, s\<lparr>ps_pool := p\<rparr>))"

text \<open>\<open>.await.ok()\<close>: an error becomes no value.\<close>

definition optionally :: "('s, 'e, 'a) comp \<Rightarrow> ('s, 'f, 'a option) comp" where
  "optionally m s = (case m s of (Inr v, t) \<Rightarrow> (Inr (Some v), t) | (Inl _, t) \<Rightarrow> (Inr None, t))"

section \<open>Snapshots of popular charts\<close>

definition extract_chart_ids :: "json \<Rightarrow> int list" where
  "extract_chart_ids popular =
     (case Option.bind (get_field popular ''results'') as_array of
        Some arr \<Rightarrow> List.map_filter (\<lambda>c. int_field c ''id'') arr
      | None \<Rightarrow> [])"

definition trunc_hour :: "instant \<Rightarrow> instant" where
  "trunc_hour t = secs (timestamp t div 3600 * 3600)"

definition upsert_snapshot :: "int \<Rightarrow> int \<Rightarrow> unit statement" where
  "upsert_snapshot c n d =
     (let h = trunc_hour (clock d); hit = (\<lambda>r. sn_chart_id r = c \<and> sn_snapshot_at r = h) in
      Inr ((), d\<lparr>chart_snapshots :=
        if \<exists>r \<in> set (chart_snapshots d). hit r
        then map (\<lambda>r. if hit r then r\<lparr>sn_record_count := n\<rparr> else r) (chart_snapshots d)
        else chart_snapshots d @ [\<lparr>sn_chart_id = c, sn_record_count = n, sn_snapshot_at = h\<rparr>]\<rparr>))"

definition record_snapshot :: "int \<Rightarrow> int \<Rightarrow> (db, api_error, unit) comp" where
  "record_snapshot c n = map_err (\<lambda>_. internal) (query (upsert_snapshot c n))"

definition snapshot_chart :: "net \<Rightarrow> int \<Rightarrow> (phira_state, 'e, unit) comp" where
  "snapshot_chart N i s =
     (case on_gw (record_query N i 1 1) s of
        (Inl _, t) \<Rightarrow> (Inr (), t)
      | (Inr r, t) \<Rightarrow> ignore (on_ps_pool (with_db (record_snapshot i (unwrap_or (int_field r ''count'') 0)))) t)"

definition aggregator_run :: "net \<Rightarrow> int \<Rightarrow> (phira_state, 'e, unit) comp" where
  "aggregator_run N top_n s =
     (case on_gw (chart_popular N (max top_n 1)) s of
        (Inl _, t) \<Rightarrow> (Inr (), t)
      | (Inr popular, t) \<Rightarrow>
          (case ps_pool t of
             None \<Rightarrow> (Inr (), t)
           | Some _ \<Rightarrow> for_each (extract_chart_ids popular) (snapshot_chart N) t))"

section \<open>The chart viewer\<close>

record 'f chart_info =
  ci_name :: string
  ci_composer :: string
  ci_illustrator :: string
  ci_charter :: string
  ci_level :: string
  ci_difficulty :: string
  ci_rating :: "'f option"
  ci_ranked :: bool
  ci_tags :: "string list"
  ci_description :: string
  ci_uploader :: string

record 'f chart_note =
  cn_time :: 'f
  cn_lane :: int
  cn_width :: 'f
  cn_note_type :: string
  cn_hold :: "'f option"
  cn_visible_time :: "'f option"

record 'f chart_line =
  cl_id :: int
  cl_notes :: "'f chart_note list"

type_synonym 'f chart_lines = "'f chart_line list"

definition default_chart_info :: "'f chart_info" where
  "default_chart_info =
     \<lparr>ci_name = [], ci_composer = [], ci_illustrator = [], ci_charter = [], ci_level = [], ci_difficulty = [], ci_rating = None,
      ci_ranked = False, ci_tags = [], ci_description = [], ci_uploader = []\<rparr>"

text \<open>The libraries: the entries of an archive in order, each with its text or the error of opening it or
  reading it as UTF-8; the readers of the two formats; the serializer; lower-casing of a name.\<close>

record 'f chart_libs =
  zip_entries :: "string \<Rightarrow> string + (string \<times> (string + string)) list"
  yaml_info :: "string \<Rightarrow> 'f chart_info option"
  json_chart :: "string \<Rightarrow> 'f chart_lines option"
  bincode :: "'f chart_info \<Rightarrow> 'f chart_lines \<Rightarrow> string option"
  lower_name :: "string \<Rightarrow> string"

definition chart_unavailable :: "string \<Rightarrow> api_error" where
  "chart_unavailable m = api_error_new PhiraApiUnavailable m"

definition encode_blob :: "'f chart_libs \<Rightarrow> 'f chart_info \<Rightarrow> 'f chart_lines \<Rightarrow> api_error + string" where
  "encode_blob C info lines = (case bincode C info lines of Some b \<Rightarrow> Inr b | None \<Rightarrow> Inl internal)"

fun read_entries ::
  "'f chart_libs \<Rightarrow> (string \<times> (string + string)) list \<Rightarrow> 'f chart_info \<Rightarrow> 'f chart_lines \<Rightarrow> api_error + 'f chart_info \<times> 'f chart_lines" where
  "read_entries C [] info lines = Inr (info, lines)"
| "read_entries C ((name, Inl e) # es) info lines = Inl (chart_unavailable e)"
| "read_entries C ((name, Inr content) # es) info lines =
     (let lower = lower_name C name in
      if ends_with lower ''.yml'' \<or> ends_with lower ''.yaml''
      then read_entries C es (unwrap_or (yaml_info C content) info) lines
      else if ends_with lower ''.json''
      then read_entries C es info (unwrap_or (json_chart C content) lines)
      else read_entries C es info lines)"

definition build_from_zip :: "'f chart_libs \<Rightarrow> string \<Rightarrow> api_error + string" where
  "build_from_zip C content =
     (case zip_entries C content of
        Inl e \<Rightarrow> Inl (chart_unavailable (''zip open: '' @ e))
      | Inr es \<Rightarrow>
          (case read_entries C es default_chart_info [] of
             Inl e \<Rightarrow> Inl e
           | Inr (info, lines) \<Rightarrow>
               if lines = [] then Inl (chart_unavailable ''chart zip has no notes'') else encode_blob C info lines))"

definition unsupported_chart :: api_error where
  "unsupported_chart =
     chart_unavailable ''chart format not supported (native RPE/PEC/PGR/PBC parsing pending client-side migration)''"

definition build_chart_blob :: "'f chart_libs \<Rightarrow> string \<Rightarrow> api_error + string" where
  "build_chart_blob C content =
     (case build_from_zip C content of
        Inr blob \<Rightarrow> Inr blob
      | Inl _ \<Rightarrow>
          (case json_chart C content of
             None \<Rightarrow> Inl unsupported_chart
           | Some lines \<Rightarrow>
               if lines = [] then Inl (chart_unavailable ''chart has no notes'') else encode_blob C default_chart_info lines))"

section \<open>Endpoints\<close>

definition gateway_reply :: "(gateway, phira_error, 'a) comp \<Rightarrow> (phira_state, api_error, 'a) comp" where
  "gateway_reply m = map_err phira_gateway_error (on_gw m)"

definition page_size :: "int option \<Rightarrow> int" where
  "page_size page_num = min (unwrap_or page_num 20) 30"

record 'f chart_list_params =
  cq_page :: "int option"
  cq_page_num :: "int option"
  cq_search :: "string option"
  cq_type :: "int option"
  cq_rating_min :: "'f option"
  cq_rating_max :: "'f option"
  cq_tags :: "string option"
  cq_order :: "string option"

text \<open>The reply always has a total, if it is an object.\<close>

definition with_total :: "json \<Rightarrow> json" where
  "with_total v =
     (if get_field v ''total'' = None
      then set_param v ''total'' (JInt (case Option.bind (get_field v ''results'') as_array of Some a \<Rightarrow> int (length a) | None \<Rightarrow> 0))
      else v)"

definition route_chart_list :: "net \<Rightarrow> ('f \<Rightarrow> string) \<Rightarrow> 'f chart_list_params \<Rightarrow> (phira_state, api_error, json) comp" where
  "route_chart_list N f64_text q =
     (let n = page_size (cq_page_num q) in
      bnd (gateway_reply
             (if cq_order q = Some ''popular'' then chart_popular N n
              else chart_list N f64_text (unwrap_or (cq_page q) 1) n (cq_search q) (cq_type q) (cq_rating_min q) (cq_rating_max q)
                     (cq_tags q) (cq_order q)))
        (\<lambda>v. ret (with_total v)))"

definition route_chart_popular :: "net \<Rightarrow> (phira_state, api_error, json) comp" where
  "route_chart_popular N = gateway_reply (chart_popular N 30)"

definition route_chart_detail :: "net \<Rightarrow> int \<Rightarrow> (phira_state, api_error, json) comp" where
  "route_chart_detail N i = gateway_reply (chart N i)"

definition CHART_CACHE :: string where
  "CHART_CACHE = ''public, max-age=120''"

text \<open>The bytes, the content type and the cache control of the reply; a content type that is no header
  value becomes the default.\<close>

definition route_chart_preview :: "net \<Rightarrow> (string \<Rightarrow> bool) \<Rightarrow> int \<Rightarrow> (phira_state, api_error, string \<times> string \<times> string) comp" where
  "route_chart_preview N header_value i =
     bnd (gateway_reply (fetch_chart_file N i)) (\<lambda>(content, ct).
     ret (content, (if header_value ct then ct else ''application/octet-stream''), CHART_CACHE))"

definition route_chart_viewer :: "net \<Rightarrow> 'f chart_libs \<Rightarrow> int \<Rightarrow> (phira_state, api_error, string \<times> string \<times> string) comp" where
  "route_chart_viewer N C i =
     bnd (gateway_reply (fetch_chart_file N i)) (\<lambda>(content, ct).
     bnd (from_result (build_chart_blob C content)) (\<lambda>blob.
     ret (blob, ''application/octet-stream'', CHART_CACHE)))"

definition route_chart_records :: "net \<Rightarrow> int \<Rightarrow> int option \<Rightarrow> int option \<Rightarrow> (phira_state, api_error, json) comp" where
  "route_chart_records N i page page_num = gateway_reply (record_query N i (unwrap_or page 1) (page_size page_num))"

definition route_chart_top :: "net \<Rightarrow> int \<Rightarrow> (phira_state, api_error, json) comp" where
  "route_chart_top N i = gateway_reply (record_list15 N i)"

definition route_records_by_player :: "net \<Rightarrow> int \<Rightarrow> int option \<Rightarrow> int option \<Rightarrow> (phira_state, api_error, json) comp" where
  "route_records_by_player N player page page_num = gateway_reply (record_query_player N player (unwrap_or page 1) (page_size page_num))"

definition route_records_query :: "net \<Rightarrow> int \<Rightarrow> int option \<Rightarrow> int option \<Rightarrow> (phira_state, api_error, json) comp" where
  "route_records_query N i page page_num = gateway_reply (record_query N i (unwrap_or page 1) (page_size page_num))"

definition route_records_list15 :: "net \<Rightarrow> int \<Rightarrow> (phira_state, api_error, json) comp" where
  "route_records_list15 N i = gateway_reply (record_list15 N i)"

definition route_records_pool :: "net \<Rightarrow> int \<Rightarrow> (phira_state, api_error, json) comp" where
  "route_records_pool N u = gateway_reply (record_get_pool N u)"

definition route_record_detail :: "net \<Rightarrow> int \<Rightarrow> (phira_state, api_error, json) comp" where
  "route_record_detail N i = gateway_reply (record_one N i)"

definition route_users_search :: "net \<Rightarrow> string \<Rightarrow> int option \<Rightarrow> int option \<Rightarrow> (phira_state, api_error, json) comp" where
  "route_users_search N search page page_num = gateway_reply (users_search N search (unwrap_or page 1) (page_size page_num))"

definition route_user_stats :: "net \<Rightarrow> int \<Rightarrow> (phira_state, api_error, json) comp" where
  "route_user_stats N p = gateway_reply (user_stats N p)"

section \<open>The community profile\<close>

record 'f profile =
  pf_phira_id :: int
  pf_username :: string
  pf_avatar :: "string option"
  pf_bio :: "string option"
  pf_background_url :: "string option"
  pf_online_status :: "string option"
  pf_visibility :: string
  pf_rks :: "'f option"
  pf_stats :: "json option"
  pf_friends_count :: "int option"
  pf_is_friend :: bool
  pf_is_blocked :: bool

definition bare_profile :: "int \<Rightarrow> string \<Rightarrow> string option \<Rightarrow> 'f profile" where
  "bare_profile p username avatar =
     \<lparr>pf_phira_id = p, pf_username = username, pf_avatar = avatar, pf_bio = None, pf_background_url = None, pf_online_status = None,
      pf_visibility = ''public'', pf_rks = None, pf_stats = None, pf_friends_count = None, pf_is_friend = False, pf_is_blocked = False\<rparr>"

definition rks_of :: "(json \<Rightarrow> 'f option) \<Rightarrow> json option \<Rightarrow> 'f option" where
  "rks_of as_f64 stats = Option.bind stats (\<lambda>v. Option.bind (get_field v ''rks'') as_f64)"

definition presence_text :: "json \<Rightarrow> string" where
  "presence_text v =
     (if unwrap_or (Option.bind (get_field v ''online'') as_bool) (case string_field v ''room_id'' of Some r \<Rightarrow> r \<noteq> [] | None \<Rightarrow> False)
      then ''online'' else ''offline'')"

definition on_db :: "(db, api_error, 'a) comp \<Rightarrow> (phira_state, api_error, 'a) comp" where
  "on_db m = on_ps_pool (with_db m)"

definition requester_of :: "auth_principal option \<Rightarrow> uuid option" where
  "requester_of a = (case a of Some x \<Rightarrow> if is_root x then None else Some (sub x) | None \<Rightarrow> None)"

definition about_other :: "uuid option \<Rightarrow> uuid \<Rightarrow> (uuid \<Rightarrow> uuid \<Rightarrow> (db, api_error, bool) comp) \<Rightarrow> (db, api_error, bool) comp" where
  "about_other requester u ask = (case requester of Some i \<Rightarrow> if i \<noteq> u then ask i u else ret False | None \<Rightarrow> ret False)"

definition profile_row :: "uuid \<Rightarrow> db \<Rightarrow> user_profile option" where
  "profile_row u d = find (\<lambda>r. up_user_id r = u) (user_profiles d)"

definition can_view :: "bool \<Rightarrow> bool \<Rightarrow> string \<Rightarrow> bool" where
  "can_view is_self is_friend vis \<longleftrightarrow> is_self \<or> vis = ''public'' \<or> vis = ''friends'' \<and> is_friend"

definition row_visibility :: "user_profile option \<Rightarrow> string" where
  "row_visibility row = (case row of Some r \<Rightarrow> up_visibility r | None \<Rightarrow> ''public'')"

definition profile_reply ::
  "(json \<Rightarrow> 'f option) \<Rightarrow> pmp \<Rightarrow> int \<Rightarrow> string \<Rightarrow> string option \<Rightarrow> bool \<Rightarrow> bool \<Rightarrow> bool \<Rightarrow> user_profile option \<Rightarrow> json option \<Rightarrow> uuid list option \<Rightarrow>
   'f profile" where
  "profile_reply as_f64 G p username avatar view is_friend blocked row stats friends =
     \<lparr>pf_phira_id = p, pf_username = username, pf_avatar = avatar,
      pf_bio = (if view then map_option up_bio row else None),
      pf_background_url = (if view then map_option up_background_url row else None),
      pf_online_status =
        (if view \<and> (case row of Some r \<Rightarrow> up_show_online r | None \<Rightarrow> True)
         then (case player_info G (wrap32 p) of Inr v \<Rightarrow> Some (presence_text v) | Inl _ \<Rightarrow> None)
         else if view then Some ''hidden'' else None),
      pf_visibility = row_visibility row, pf_rks = rks_of as_f64 stats, pf_stats = stats,
      pf_friends_count = map_option (\<lambda>fs. int (length fs)) friends, pf_is_friend = is_friend, pf_is_blocked = blocked\<rparr>"

definition local_profile ::
  "net \<Rightarrow> (json \<Rightarrow> 'f option) \<Rightarrow> pmp \<Rightarrow> uuid option \<Rightarrow> int \<Rightarrow> string \<Rightarrow> string option \<Rightarrow> user \<Rightarrow> (phira_state, api_error, 'f profile) comp" where
  "local_profile N as_f64 G requester p username avatar u =
     bnd (on_db (about_other requester (u_id u) are_friends)) (\<lambda>is_friend.
     bnd (on_db (about_other requester (u_id u) is_blocked)) (\<lambda>blocked.
     bnd (on_db (map_err (\<lambda>_. internal) (select (profile_row (u_id u))))) (\<lambda>row.
     let view = can_view (requester = Some (u_id u)) is_friend (row_visibility row) in
     bnd (if view then optionally (on_gw (user_stats N p)) else ret None) (\<lambda>stats.
     bnd (if view then optionally (on_db (list_friends (u_id u))) else ret None) (\<lambda>friends.
     ret (profile_reply as_f64 G p username avatar view is_friend blocked row stats friends))))))"

definition public_profile ::
  "net \<Rightarrow> (json \<Rightarrow> 'f option) \<Rightarrow> pmp \<Rightarrow> auth_principal option \<Rightarrow> int \<Rightarrow> (phira_state, api_error, 'f profile) comp" where
  "public_profile N as_f64 G a p =
     bnd (gateway_reply (user_one N p)) (\<lambda>v.
       let username = unwrap_or (Option.bind (case get_field v ''username'' of Some x \<Rightarrow> Some x | None \<Rightarrow> get_field v ''name'') as_string) [];
           avatar = string_field v ''avatar'' in
       if username = [] then throw (api_error_new UserNotFound ''user not found'')
       else (\<lambda>s. case ps_pool s of
           None \<Rightarrow> ret (bare_profile p username avatar) s
         | Some _ \<Rightarrow>
             bnd (on_db (find_by_phira_id p)) (\<lambda>local. case local of
                 None \<Rightarrow>
                   bnd (optionally (on_gw (user_stats N p))) (\<lambda>stats.
                   ret ((bare_profile p username avatar)\<lparr>pf_rks := rks_of as_f64 stats, pf_stats := stats\<rparr>))
               | Some u \<Rightarrow> local_profile N as_f64 G (requester_of a) p username avatar u) s))"

section \<open>Privacy of a profile\<close>

text \<open>Who may see the profile of a user, from the tables.\<close>

definition profile_open :: "db \<Rightarrow> uuid option \<Rightarrow> uuid \<Rightarrow> bool" where
  "profile_open d requester u \<longleftrightarrow>
     requester = Some u \<or> row_visibility (profile_row u d) = ''public'' \<or>
     row_visibility (profile_row u d) = ''friends'' \<and> (\<exists>i. requester = Some i \<and> i \<noteq> u \<and> friends_rows d i u)"

lemma on_db_runs:
  "on_db m s = (Inr x, t) \<Longrightarrow> \<exists>d d'. ps_pool s = Some d \<and> m d = (Inr x, d') \<and> t = s\<lparr>ps_pool := Some d'\<rparr>"
  by (auto simp: on_db_def on_ps_pool_def with_db_def split: option.splits prod.splits)

lemma on_gw_runs: "on_gw m s = (r, t) \<Longrightarrow> ps_pool t = ps_pool s"
  by (auto simp: on_gw_def split: prod.splits)

lemma optionally_gw_runs: "optionally (on_gw m) s = (r, t) \<Longrightarrow> ps_pool t = ps_pool s"
  by (auto simp: optionally_def on_gw_def split: prod.splits sum.splits)

lemma about_other_runs:
  assumes "about_other q u ask d = (Inr b, d')" and "\<And>i e b e'. ask i u e = (Inr b, e') \<Longrightarrow> \<exists>xs. e' = e\<lparr>outcomes := xs\<rparr> \<and> b = P e i"
  shows "\<exists>xs. d' = d\<lparr>outcomes := xs\<rparr> \<and> b = (\<exists>i. q = Some i \<and> i \<noteq> u \<and> P d i)"
  using assms by (auto simp: about_other_def ret_def split: option.splits if_splits)

lemma are_friends_runs: "are_friends i u e = (Inr b, e') \<Longrightarrow> \<exists>xs. e' = e\<lparr>outcomes := xs\<rparr> \<and> b = friends_rows e i u"
  by (auto simp: are_friends_def friends_rows_def dest!: select_InrD)

lemma is_blocked_runs: "is_blocked i u e = (Inr b, e') \<Longrightarrow> \<exists>xs. e' = e\<lparr>outcomes := xs\<rparr> \<and> b = ((i, u) \<in> set (user_blocks e) \<or> (u, i) \<in> set (user_blocks e))"
  by (auto simp: is_blocked_def dest!: select_InrD)

lemma profile_row_outcomes [simp]: "profile_row u (d\<lparr>outcomes := xs\<rparr>) = profile_row u d"
  by (simp add: profile_row_def)

lemma friends_rows_outcomes [simp]: "friends_rows (d\<lparr>outcomes := xs\<rparr>) a b = friends_rows d a b"
  by (simp add: friends_rows_def)

definition hides :: "'f profile \<Rightarrow> bool" where
  "hides r \<longleftrightarrow> pf_bio r = None \<and> pf_background_url r = None \<and> pf_online_status r = None \<and> pf_rks r = None \<and> pf_stats r = None \<and>
     pf_friends_count r = None"

lemma local_profile_hides:
  assumes run: "local_profile N as_f64 G q p username avatar u s = (Inr r, t)" and pool: "ps_pool s = Some d"
    and hidden: "\<not> profile_open d q (u_id u)"
  shows "hides r"
proof -
  let ?view = "\<lambda>fr row. can_view (q = Some (u_id u)) fr (row_visibility row)"
  from run obtain fr s1 bl s2 row s3 st s4 fs s5 where
    a: "on_db (about_other q (u_id u) are_friends) s = (Inr fr, s1)" and
    b: "on_db (about_other q (u_id u) is_blocked) s1 = (Inr bl, s2)" and
    c: "on_db (map_err (\<lambda>_. internal) (select (profile_row (u_id u)))) s2 = (Inr row, s3)" and
    e: "(if ?view fr row then optionally (on_gw (user_stats N p)) else ret None) s3 = (Inr st :: api_error + json option, s4)" and
    f: "(if ?view fr row then optionally (on_db (list_friends (u_id u))) else ret None) s4 = (Inr fs :: api_error + uuid list option, s5)" and
    r: "r = profile_reply as_f64 G p username avatar (?view fr row) fr bl row st fs"
    unfolding local_profile_def Let_def bnd_runs ret_runs by blast
  from on_db_runs [OF a] pool obtain xs where fr: "fr = (\<exists>i. q = Some i \<and> i \<noteq> u_id u \<and> friends_rows d i (u_id u))"
      and s1: "ps_pool s1 = Some (d\<lparr>outcomes := xs\<rparr>)"
    by (auto dest!: about_other_runs [OF _ are_friends_runs])
  from on_db_runs [OF b] s1 obtain ys where s2: "ps_pool s2 = Some (d\<lparr>outcomes := ys\<rparr>)"
    by (auto dest!: about_other_runs [OF _ is_blocked_runs])
  from on_db_runs [OF c] s2 have "row = profile_row (u_id u) d" by (auto dest!: select_InrD)
  with hidden fr have "\<not> ?view fr row" by (auto simp: profile_open_def can_view_def)
  with e f r show ?thesis by (auto simp: hides_def profile_reply_def rks_of_def ret_def)
qed

lemma public_profile_hides:
  assumes "public_profile N as_f64 G a p s = (Inr r, t)" and "ps_pool s = Some d"
    and "find (\<lambda>u. phira_id u = p) (users d) = Some u" and "\<not> profile_open d (requester_of a) (u_id u)"
  shows "hides r"
proof -
  from assms(1) obtain v s1 where up: "gateway_reply (user_one N p) s = (Inr v, s1)"
    by (auto simp: public_profile_def bnd_runs)
  then have pool: "ps_pool s1 = Some d" using assms(2) by (auto simp: gateway_reply_def dest: on_gw_runs)
  from assms(1) up pool obtain username avatar local s2 where
    found: "on_db (find_by_phira_id p) s1 = (Inr local, s2)" and
    rest: "(case local of None \<Rightarrow>
                   bnd (optionally (on_gw (user_stats N p))) (\<lambda>stats.
                   ret ((bare_profile p username avatar)\<lparr>pf_rks := rks_of as_f64 stats, pf_stats := stats\<rparr>))
               | Some u \<Rightarrow> local_profile N as_f64 G (requester_of a) p username avatar u) s2 = (Inr r, t)"
    unfolding public_profile_def bnd_runs Let_def by (auto simp: throw_def bnd_runs split: if_splits)
  from on_db_runs [OF found] pool obtain xs where local: "local = find (\<lambda>u. phira_id u = p) (users d)" "ps_pool s2 = Some (d\<lparr>outcomes := xs\<rparr>)"
    by (auto simp: find_by_phira_id_def dest!: select_InrD)
  with assms(3,4) rest show ?thesis
    by (intro local_profile_hides [where d = "d\<lparr>outcomes := xs\<rparr>"]) (auto simp: profile_open_def)
qed

text \<open>A profile that is private, or for friends only and asked for by somebody who is no friend, shows
  nothing of what its owner wrote, does or plays.\<close>

theorem profile_private:
  assumes "public_profile N as_f64 G a p s = (Inr r, t)" and "ps_pool s = Some d"
    and "find (\<lambda>u. phira_id u = p) (users d) = Some u" and "\<not> profile_open d (requester_of a) (u_id u)"
  shows "pf_bio r = None \<and> pf_background_url r = None \<and> pf_online_status r = None \<and> pf_rks r = None \<and> pf_stats r = None \<and>
    pf_friends_count r = None"
  using public_profile_hides [OF assms] by (simp add: hides_def)

text \<open>A network that answers everything with one value.\<close>

definition easy_net :: "json \<Rightarrow> net" where
  "easy_net v =
     \<lparr>exchange = (\<lambda>t c. (Reply \<lparr>rp_status = 200, rp_location = None, rp_content_type = None, rp_body = Inr []\<rparr>, 0)),
      read_json = (\<lambda>_. Some v), status_text = (\<lambda>_. [])\<rparr>"

lemma easy_run: "\<exists>g. get_json (easy_net v) p q quiet_gateway = (Inr v, g)"
proof -
  let ?g = "take_lock (cache_key p q) (quiet_gateway\<lparr>gw_rate := [(''phira:'' @ p, [0])]\<rparr>)"
  have "admit p quiet_gateway = (Inr (), quiet_gateway\<lparr>gw_rate := [(''phira:'' @ p, [0])]\<rparr>)"
    by (simp add: quiet_gateway_def gateway_new_def admit_def check_def now_secs_def timestamp_def bucket_of_def recent_def aput_def adel_def Let_def)
  moreover have "cached k quiet_gateway = None" for k by (simp add: cached_def quiet_gateway_def gateway_new_def)
  moreover obtain h where "fetch_with_retry (easy_net v) p q ?g = (Inr v, h)"
    by (simp add: fetch_with_retry_def fetch_loop.simps easy_net_def is_success_def)
  ultimately show ?thesis by (simp add: get_json_def Let_def)
qed

definition shy_db :: db where
  "shy_db = demo_db\<lparr>user_profiles := [\<lparr>up_user_id = 7, up_bio = ''hi'', up_background_url = [], up_visibility = ''private'',
     up_show_online = True, up_show_recent = True, up_updated_at = 0\<rparr>]\<rparr>"

lemma shy_profile:
  "\<exists>r t. public_profile (easy_net (JObj [(''name'', JStr ''alice'')])) (\<lambda>_. None :: unit option) (\<lambda>_ _. Inr JNull) None 700
     \<lparr>ps_gw = quiet_gateway, ps_pool = Some shy_db\<rparr> = (Inr r, t)"
proof -
  let ?N = "easy_net (JObj [(''name'', JStr ''alice'')])"
  obtain g where "user_one ?N 700 quiet_gateway = (Inr (JObj [(''name'', JStr ''alice'')]), g)"
    using easy_run unfolding user_one_def by blast
  then show ?thesis
    by (simp add: public_profile_def gateway_reply_def map_err_def on_gw_def bnd_def get_field_def on_db_def on_ps_pool_def with_db_def
        find_by_phira_id_def shy_db_def demo_db_def empty_db_def local_profile_def requester_of_def about_other_def ret_def profile_row_def
        row_visibility_def can_view_def Let_def)
qed

theorem profile_private_witness:
  "\<exists>r t. public_profile (easy_net (JObj [(''name'', JStr ''alice'')])) (\<lambda>_. None :: unit option) (\<lambda>_ _. Inr JNull) None 700
     \<lparr>ps_gw = quiet_gateway, ps_pool = Some shy_db\<rparr> = (Inr r, t) \<and> pf_bio r = None"
proof -
  obtain r t where run: "public_profile (easy_net (JObj [(''name'', JStr ''alice'')])) (\<lambda>_. None :: unit option) (\<lambda>_ _. Inr JNull) None 700
      \<lparr>ps_gw = quiet_gateway, ps_pool = Some shy_db\<rparr> = (Inr r, t)"
    using shy_profile by blast
  have "pf_bio r = None"
    using profile_private [OF run, of shy_db "hd (users demo_db)"]
    by (simp add: shy_db_def demo_db_def empty_db_def profile_open_def requester_of_def row_visibility_def profile_row_def)
  with run show ?thesis by blast
qed

section \<open>Principals without a session\<close>

text \<open>The optional principal is read from the token alone: after the session is revoked, the request is
  refused by the extractor of the protected endpoints and still counts as the user on the public ones,
  for instance as a friend who may see a profile.\<close>

theorem revoked_session_still_optional:
  "fst (from_request_parts demo_env ''q'' [(''authorization'', ''Bearer t'')]
      (Some (demo_db\<lparr>sessions := [demo_session\<lparr>revoked_at := Some 0\<rparr>]\<rparr>))) = Inl (api_error_new SessionExpired ''session inactive'') \<and>
   optional_principal demo_env ''q'' [(''authorization'', ''Bearer t'')] = Some (principal_of alice_claims ''q'')"
proof -
  have rid: "read_request_id (header_str [(''authorization'', ''Bearer t'')] ''x-request-id'') ''q'' = ''q''"
    by (simp add: read_request_id_def header_str_def header_get_def to_ascii_lowercase_def to_ascii_lower_def)
  have o: "outcomes demo_db = []" by (simp add: demo_db_def empty_db_def)
  have "ac_sid alice_claims = 70" by (simp add: alice_claims_def)
  then show ?thesis
    using o
    by (simp add: from_request_parts_def demo_env_def comp_defs demo_bearer demo_decode rid live_def demo_session_def optional_principal_def)
qed

section \<open>Snapshots and the viewer\<close>

text \<open>The primary key of the snapshots: one row for a chart and an hour.\<close>

definition snapshots_keyed :: "db \<Rightarrow> bool" where
  "snapshots_keyed d \<longleftrightarrow> distinct (map (\<lambda>r. (sn_chart_id r, sn_snapshot_at r)) (chart_snapshots d))"

lemma upsert_keyed:
  assumes "snapshots_keyed d" and "upsert_snapshot c n d = Inr (u, d')"
  shows "snapshots_keyed d' \<and> \<lparr>sn_chart_id = c, sn_record_count = n, sn_snapshot_at = trunc_hour (clock d)\<rparr> \<in> set (chart_snapshots d')"
proof (cases "\<exists>r \<in> set (chart_snapshots d). sn_chart_id r = c \<and> sn_snapshot_at r = trunc_hour (clock d)")
  case True
  let ?put = "\<lambda>r :: chart_snapshot. if sn_chart_id r = c \<and> sn_snapshot_at r = trunc_hour (clock d) then r\<lparr>sn_record_count := n\<rparr> else r"
  from True assms(2) have d': "chart_snapshots d' = map ?put (chart_snapshots d)" by (auto simp: upsert_snapshot_def Let_def)
  have "map (\<lambda>r. (sn_chart_id r, sn_snapshot_at r)) (map ?put rs) = map (\<lambda>r. (sn_chart_id r, sn_snapshot_at r)) rs" for rs
    by simp
  with assms(1) d' have "snapshots_keyed d'" unfolding snapshots_keyed_def by (simp only:)
  moreover obtain r where r: "r \<in> set (chart_snapshots d)" "sn_chart_id r = c" "sn_snapshot_at r = trunc_hour (clock d)"
    using True by blast
  then have "?put r = \<lparr>sn_chart_id = c, sn_record_count = n, sn_snapshot_at = trunc_hour (clock d)\<rparr>" by (cases r rule: chart_snapshot.cases) simp
  from this [symmetric] r(1) have "\<lparr>sn_chart_id = c, sn_record_count = n, sn_snapshot_at = trunc_hour (clock d)\<rparr> \<in> set (chart_snapshots d')"
    unfolding d' set_map by (rule image_eqI)
  ultimately show ?thesis by blast
next
  case False
  with assms show ?thesis by (auto simp: upsert_snapshot_def Let_def snapshots_keyed_def) blast
qed

interpretation keyed_snapshots: table_frame "keeping snapshots_keyed"
  by unfold_locales (auto simp: keeping_def snapshots_keyed_def)

lemma record_snapshot_keyed: "obeys (keeping snapshots_keyed) (record_snapshot c n)"
  unfolding record_snapshot_def
  by (intro keeping_frame.obeys_map_err keyed_snapshots.obeys_query) (auto simp: keeping_def dest: upsert_keyed)

text \<open>An archive with an entry that is not text, such as the music of the chart, is refused as a whole,
  whatever chart is beside it.\<close>

theorem binary_entry_refuses_archive:
  assumes "zip_entries C content = Inr es" and "(name, Inl e) \<in> set es"
  shows "\<exists>err. build_from_zip C content = Inl err"
proof -
  have "(name, Inl e) \<in> set es \<Longrightarrow> \<exists>err. read_entries C es info lines = Inl err" for info lines
    by (induction C es info lines rule: read_entries.induct) (auto simp: Let_def)
  from this [OF assms(2), of default_chart_info "[]"] assms(1) show ?thesis by (auto simp: build_from_zip_def)
qed

theorem binary_entry_refuses_archive_witness:
  "\<exists>err. build_from_zip
     \<lparr>zip_entries = (\<lambda>_. Inr [(''chart.json'', Inr ''c''), (''song.ogg'', Inl ''stream did not contain valid UTF-8'')]),
      yaml_info = (\<lambda>_. None), json_chart = (\<lambda>_. Some [\<lparr>cl_id = 1, cl_notes = [] :: unit chart_note list\<rparr>]),
      bincode = (\<lambda>_ _. Some ''blob''), lower_name = (\<lambda>n. n)\<rparr> ''zip'' = Inl err"
  by (rule binary_entry_refuses_archive) auto

end
