(* ===== verification/Realtime.thy ===== *)
theory Realtime
  imports Room_Service Join_Intent Audit_Log Sessions "HOL-Library.Sublist"
begin

text \<open>
  The realtime side: events of the game server and their envelope (\<^verbatim>\<open>pmp/events/mod.rs\<close>), the event stream for
  clients (\<open>events_sse\<close> of \<^verbatim>\<open>public/routes.rs\<close>), the live stream of a room (\<^verbatim>\<open>live/routes.rs\<close>, \<^verbatim>\<open>pmp/live/mod.rs\<close>), the
  counters (\<^verbatim>\<open>metrics/mod.rs\<close>) and the background tasks of \<^verbatim>\<open>app.rs\<close>, each as the step it makes for one input.
\<close>

section \<open>Events\<close>

record event_frame =
  ef_event_type :: string
  ef_data :: json
  ef_event_id :: string
  ef_timestamp :: int

record resource_ref =
  rf_type :: string
  rf_id :: string

definition resource_room :: "string \<Rightarrow> resource_ref" where
  "resource_room i = \<lparr>rf_type = ''room'', rf_id = i\<rparr>"

definition resource_user :: "string \<Rightarrow> resource_ref" where
  "resource_user i = \<lparr>rf_type = ''user'', rf_id = i\<rparr>"

definition resource_server :: resource_ref where
  "resource_server = \<lparr>rf_type = ''server'', rf_id = ''main''\<rparr>"

record ppb_event =
  pe_event_id :: string
  pe_type :: string
  pe_version :: nat
  pe_occurred_at :: instant
  pe_resource :: resource_ref
  pe_data :: json

definition event_resource :: "event_frame \<Rightarrow> resource_ref option" where
  "event_resource f =
     (let t = ef_event_type f in
      if t = ''user.online'' \<or> t = ''user.offline'' then Some (resource_user (show_int (unwrap_or (int_field (ef_data f) ''user_id'') 0)))
      else if t = ''room.created'' \<or> t = ''room.updated'' \<or> t = ''room.joined'' \<or> t = ''room.left''
      then Some (resource_room (unwrap_or (string_field (ef_data f) ''room_id'') []))
      else if t = ''round.started'' \<or> t = ''round.completed'' then Some (resource_room (unwrap_or (string_field (ef_data f) ''room_id'') []))
      else if t = ''server.heartbeat'' then Some resource_server
      else None)"

text \<open>\<open>in_range\<close>: the seconds that the date type can represent; other times become the present.\<close>

definition map_pmp_event :: "(int \<Rightarrow> bool) \<Rightarrow> instant \<Rightarrow> event_frame \<Rightarrow> ppb_event option" where
  "map_pmp_event in_range now f =
     map_option (\<lambda>r. \<lparr>pe_event_id = ef_event_id f, pe_type = ef_event_type f, pe_version = 1,
         pe_occurred_at = (if in_range (ef_timestamp f) then secs (ef_timestamp f) else now), pe_resource = r, pe_data = ef_data f\<rparr>)
       (event_resource f)"

section \<open>The bus\<close>

definition trimmed :: "nat \<Rightarrow> 'a list \<Rightarrow> 'a list" where
  "trimmed m xs = drop (length xs - m) xs"

fun position_of :: "string \<Rightarrow> ppb_event list \<Rightarrow> nat option" where
  "position_of i [] = None"
| "position_of i (e # es) = (if pe_event_id e = i then Some 0 else map_option Suc (position_of i es))"

datatype replay_result = ReplayEvents "ppb_event list" | ReplayMiss

definition replay_from :: "string \<Rightarrow> ppb_event list \<Rightarrow> replay_result" where
  "replay_from i history = (case position_of i history of Some k \<Rightarrow> ReplayEvents (drop (k + 1) history) | None \<Rightarrow> ReplayMiss)"

definition bus_publish :: "nat \<Rightarrow> ppb_event \<Rightarrow> ppb_event list \<Rightarrow> ppb_event list" where
  "bus_publish m e history = trimmed m (history @ [e])"

text \<open>What a client of the event stream is sent first.\<close>

definition sse_replay :: "string option \<Rightarrow> ppb_event list \<Rightarrow> ppb_event list" where
  "sse_replay last_id history =
     (case last_id of
        None \<Rightarrow> []
      | Some i \<Rightarrow> (case replay_from i history of ReplayEvents es \<Rightarrow> es | ReplayMiss \<Rightarrow> history))"

section \<open>One client of the event stream\<close>

text \<open>A publisher puts an event into the history and then sends it; a client subscribes and then reads the
  history; these steps interleave. The channel keeps the newest events up to its capacity for each
  subscriber, and the stream drops the notice that some were lost. Ghosts: the log of everything
  published, how much of it the client had when it read the history, and whether it has lagged.\<close>

datatype sse_phase = Away | Subscribed | Streaming nat "ppb_event list"

record sse =
  ss_log :: "ppb_event list"
  ss_history :: "ppb_event list"
  ss_unsent :: "ppb_event list"
  ss_phase :: sse_phase
  ss_queue :: "ppb_event list"
  ss_out :: "ppb_event list"
  ss_lagged :: bool

definition enqueue :: "nat \<Rightarrow> ppb_event \<Rightarrow> sse \<Rightarrow> sse" where
  "enqueue capacity e s =
     (if ss_phase s = Away then s
      else s\<lparr>ss_queue := trimmed capacity (ss_queue s @ [e]), ss_lagged := ss_lagged s \<or> capacity \<le> length (ss_queue s)\<rparr>)"

inductive sse_step :: "nat \<Rightarrow> nat \<Rightarrow> string option \<Rightarrow> sse \<Rightarrow> sse \<Rightarrow> bool"
  for capacity max_history :: nat and last_id :: "string option" where
  push: "sse_step capacity max_history last_id s
    (s\<lparr>ss_log := ss_log s @ [e], ss_history := bus_publish max_history e (ss_history s), ss_unsent := ss_unsent s @ [e]\<rparr>)"
| send: "ss_unsent s = as @ e # bs \<Longrightarrow> sse_step capacity max_history last_id s (enqueue capacity e (s\<lparr>ss_unsent := as @ bs\<rparr>))"
| subscribe: "ss_phase s = Away \<Longrightarrow> sse_step capacity max_history last_id s (s\<lparr>ss_phase := Subscribed\<rparr>)"
| read_history: "ss_phase s = Subscribed \<Longrightarrow>
    sse_step capacity max_history last_id s (s\<lparr>ss_phase := Streaming (length (ss_log s)) (sse_replay last_id (ss_history s))\<rparr>)"
| deliver: "ss_phase s = Streaming n r \<Longrightarrow> ss_queue s = e # q \<Longrightarrow> sse_step capacity max_history last_id s (s\<lparr>ss_queue := q, ss_out := ss_out s @ [e]\<rparr>)"

definition sse_init :: "sse \<Rightarrow> bool" where
  "sse_init s \<longleftrightarrow> s = \<lparr>ss_log = [], ss_history = [], ss_unsent = [], ss_phase = Away, ss_queue = [], ss_out = [], ss_lagged = False\<rparr>"

text \<open>The part of the log that the client must get over the channel: what was published after it read
  the history.\<close>

definition later_events :: "sse \<Rightarrow> ppb_event list" where
  "later_events s = (case ss_phase s of Streaming n r \<Rightarrow> drop n (ss_log s) | _ \<Rightarrow> [])"

definition sse_inv :: "nat \<Rightarrow> string option \<Rightarrow> sse \<Rightarrow> bool" where
  "sse_inv max_history last_id s \<longleftrightarrow>
     ss_history s = trimmed max_history (ss_log s) \<and>
     (\<forall>n r. ss_phase s = Streaming n r \<longrightarrow> n \<le> length (ss_log s) \<and> r = sse_replay last_id (trimmed max_history (take n (ss_log s)))) \<and>
     (\<not> ss_lagged s \<longrightarrow> set (later_events s) \<subseteq> set (ss_out s) \<union> set (ss_queue s) \<union> set (ss_unsent s))"

lemma trimmed_trimmed: "trimmed m (trimmed m xs @ [e]) = trimmed m (xs @ [e])"
  by (cases "length xs \<le> m") (auto simp: trimmed_def Suc_diff_le)

lemma trimmed_short: "length xs \<le> m \<Longrightarrow> trimmed m xs = xs"
  by (simp add: trimmed_def)

lemma enqueue_simps [simp]:
  "ss_log (enqueue c e s) = ss_log s" "ss_history (enqueue c e s) = ss_history s" "ss_phase (enqueue c e s) = ss_phase s"
  "ss_out (enqueue c e s) = ss_out s" "ss_unsent (enqueue c e s) = ss_unsent s" "later_events (enqueue c e s) = later_events s"
  by (simp_all add: enqueue_def later_events_def split: sse_phase.splits)

lemma enqueue_keeps:
  "\<not> ss_lagged (enqueue c e s) \<Longrightarrow> ss_phase s \<noteq> Away \<Longrightarrow> \<not> ss_lagged s \<and> ss_queue (enqueue c e s) = ss_queue s @ [e]"
  by (auto simp: enqueue_def trimmed_short)

lemma sse_inv_step:
  assumes "sse_inv m last_id s" and "sse_step c m last_id s t"
  shows "sse_inv m last_id t"
  using assms(2)
proof cases
  case (push e)
  with assms(1) show ?thesis
    by (cases "ss_phase s") (auto simp: sse_inv_def bus_publish_def trimmed_trimmed later_events_def)
next
  case (send as e bs)
  show ?thesis
  proof (cases "ss_phase s")
    case Away
    with send assms(1) show ?thesis by (auto simp: sse_inv_def later_events_def enqueue_def)
  next
    case Subscribed
    with send assms(1) show ?thesis by (auto simp: sse_inv_def later_events_def)
  next
    case (Streaming n r)
    let ?u = "s\<lparr>ss_unsent := as @ bs\<rparr>"
    have "set (later_events t) \<subseteq> set (ss_out t) \<union> set (ss_queue t) \<union> set (ss_unsent t)" if "\<not> ss_lagged t"
    proof -
      from that send Streaming enqueue_keeps [of c e ?u] have "\<not> ss_lagged s" "ss_queue t = ss_queue s @ [e]" by auto
      with assms(1) send Streaming show ?thesis by (auto simp: sse_inv_def later_events_def)
    qed
    with send assms(1) show ?thesis by (auto simp: sse_inv_def)
  qed
next
  case subscribe
  with assms(1) show ?thesis by (auto simp: sse_inv_def later_events_def)
next
  case read_history
  with assms(1) show ?thesis by (auto simp: sse_inv_def later_events_def)
next
  case (deliver n r e q)
  with assms(1) show ?thesis by (auto simp: sse_inv_def later_events_def)
qed

lemma sse_inv_init: "sse_init s \<Longrightarrow> sse_inv m last_id s"
  by (simp add: sse_init_def sse_inv_def trimmed_def later_events_def)

interpretation sse: invariant_system sse_init "sse_step c m last_id" "sse_inv m last_id" for c m last_id
  by unfold_locales (fact sse_inv_init, fact sse_inv_step)

lemma position_of_append:
  "pe_event_id e = i \<Longrightarrow> \<forall>a \<in> set as. pe_event_id a \<noteq> i \<Longrightarrow> position_of i (as @ e # bs) = Some (length as)"
  by (induction as) auto

lemma replay_after:
  assumes "pe_event_id e = i" and "\<forall>a \<in> set xs. pe_event_id a \<noteq> i" and "n \<le> length xs + 1 + length ys" and "length xs < n" and "n \<le> length xs + m"
  shows "sse_replay (Some i) (trimmed m (take n (xs @ e # ys))) = take (n - length xs - 1) ys"
proof -
  have "take n (xs @ e # ys) = xs @ e # take (n - length xs - 1) ys"
    using assms(4) by (simp add: take_Cons')
  moreover have "length (take n (xs @ e # ys)) - m \<le> length xs" using assms(3,5) by simp
  ultimately have "trimmed m (take n (xs @ e # ys)) = drop (length (take n (xs @ e # ys)) - m) xs @ e # take (n - length xs - 1) ys"
    by (simp add: trimmed_def)
  moreover have "\<forall>a \<in> set (drop k xs). pe_event_id a \<noteq> i" for k using assms(2) by (meson in_set_dropD)
  ultimately show ?thesis
    using position_of_append [OF assms(1)] by (simp add: sse_replay_def replay_from_def)
qed

text \<open>A client that reconnects with the id of the last event it saw misses nothing: as long as the channel
  has not overflowed for it, and that event was still in the history when the stream began, every
  event published after it was replayed, or delivered since, or is on its way.\<close>

theorem sse_complete:
  assumes "reachable sse_init (sse_step c m (Some i)) s" and "ss_phase s = Streaming n r" and "\<not> ss_lagged s"
    and "ss_log s = xs @ e # ys" and "pe_event_id e = i" and "\<forall>a \<in> set xs. pe_event_id a \<noteq> i" and "n \<le> length xs + m"
  shows "set ys \<subseteq> set r \<union> set (ss_out s) \<union> set (ss_queue s) \<union> set (ss_unsent s)"
proof -
  from sse.reachable_inv [OF assms(1)] assms(2,3)
  have n: "n \<le> length (ss_log s)" and r: "r = sse_replay (Some i) (trimmed m (take n (ss_log s)))"
    and later: "set (drop n (ss_log s)) \<subseteq> set (ss_out s) \<union> set (ss_queue s) \<union> set (ss_unsent s)"
    by (auto simp: sse_inv_def later_events_def)
  show ?thesis
  proof (cases "length xs < n")
    case True
    then have "r = take (n - length xs - 1) ys" using replay_after [of e i xs n ys m] assms n r by simp
    moreover have "drop n (ss_log s) = drop (n - length xs - 1) ys" using True assms(4) by (simp add: drop_Cons')
    moreover have "set ys \<subseteq> set (take (n - length xs - 1) ys) \<union> set (drop (n - length xs - 1) ys)"
      by (metis append_take_drop_id set_append subset_refl)
    ultimately show ?thesis using later by auto
  next
    case False
    then have "drop n (ss_log s) = drop n xs @ e # ys" using assms(4) by simp
    then show ?thesis using later by auto
  qed
qed

text \<open>An event that is published between the subscription and the reading of the history reaches the
  client twice.\<close>

definition hello_event :: ppb_event where
  "hello_event = \<lparr>pe_event_id = ''e2'', pe_type = ''room.created'', pe_version = 1, pe_occurred_at = 0, pe_resource = resource_room ''A'', pe_data = JNull\<rparr>"

definition first_event :: ppb_event where
  "first_event = hello_event\<lparr>pe_event_id := ''e1''\<rparr>"

lemma sse_run:
  "reachable sse_init (sse_step 16 8 (Some ''e1''))
     \<lparr>ss_log = [first_event, hello_event], ss_history = [first_event, hello_event], ss_unsent = [], ss_phase = Streaming 2 [hello_event],
      ss_queue = [hello_event], ss_out = [], ss_lagged = False\<rparr>" (is "reachable _ ?step ?end")
proof -
  let ?s = "\<lambda>log un ph q. \<lparr>ss_log = log, ss_history = log, ss_unsent = un, ss_phase = ph, ss_queue = q, ss_out = [], ss_lagged = False\<rparr>"
  have "reachable sse_init ?step (?s [] [] Away [])" by (rule reachable.start) (simp add: sse_init_def)
  moreover have "?step (?s [] [] Away []) (?s [first_event] [first_event] Away [])"
    using sse_step.push [of 16 8 "Some ''e1''" "?s [] [] Away []" first_event] by (simp add: bus_publish_def trimmed_def)
  ultimately have "reachable sse_init ?step (?s [first_event] [first_event] Away [])" by (rule reachable.move)
  moreover have "?step (?s [first_event] [first_event] Away []) (?s [first_event] [] Away [])"
    using sse_step.send [of "?s [first_event] [first_event] Away []" "[]" first_event "[]" 16 8 "Some ''e1''"] by (simp add: enqueue_def)
  ultimately have "reachable sse_init ?step (?s [first_event] [] Away [])" by (rule reachable.move)
  moreover have "?step (?s [first_event] [] Away []) (?s [first_event] [] Subscribed [])"
    using sse_step.subscribe [of "?s [first_event] [] Away []" 16 8 "Some ''e1''"] by simp
  ultimately have "reachable sse_init ?step (?s [first_event] [] Subscribed [])" by (rule reachable.move)
  moreover have "?step (?s [first_event] [] Subscribed []) (?s [first_event, hello_event] [hello_event] Subscribed [])"
    using sse_step.push [of 16 8 "Some ''e1''" "?s [first_event] [] Subscribed []" hello_event] by (simp add: bus_publish_def trimmed_def)
  ultimately have "reachable sse_init ?step (?s [first_event, hello_event] [hello_event] Subscribed [])" by (rule reachable.move)
  moreover have "?step (?s [first_event, hello_event] [hello_event] Subscribed []) (?s [first_event, hello_event] [] Subscribed [hello_event])"
    using sse_step.send [of "?s [first_event, hello_event] [hello_event] Subscribed []" "[]" hello_event "[]" 16 8 "Some ''e1''"]
    by (simp add: enqueue_def trimmed_def)
  ultimately have "reachable sse_init ?step (?s [first_event, hello_event] [] Subscribed [hello_event])" by (rule reachable.move)
  moreover have "?step (?s [first_event, hello_event] [] Subscribed [hello_event]) ?end"
    using sse_step.read_history [of "?s [first_event, hello_event] [] Subscribed [hello_event]" 16 8 "Some ''e1''"]
    by (simp add: sse_replay_def replay_from_def first_event_def numeral_2_eq_2)
  ultimately show ?thesis by (rule reachable.move)
qed

theorem sse_complete_witness:
  "\<exists>s r. reachable sse_init (sse_step 16 8 (Some ''e1'')) s \<and> ss_phase s = Streaming 2 r \<and> ss_log s = [first_event] @ [hello_event] \<and>
     set [hello_event] \<subseteq> set r \<union> set (ss_out s) \<union> set (ss_queue s) \<union> set (ss_unsent s)"
proof -
  let ?s = "\<lparr>ss_log = [first_event, hello_event], ss_history = [first_event, hello_event], ss_unsent = [], ss_phase = Streaming 2 [hello_event],
      ss_queue = [hello_event], ss_out = [], ss_lagged = False\<rparr>"
  have "set [hello_event] \<subseteq> set [hello_event] \<union> set (ss_out ?s) \<union> set (ss_queue ?s) \<union> set (ss_unsent ?s)"
    using sse_complete [OF sse_run, of 2 "[hello_event]" "[]" first_event "[hello_event]"] by (simp add: first_event_def)
  with sse_run show ?thesis by (intro exI [of _ ?s] exI [of _ "[hello_event]"]) simp
qed

theorem sse_duplicates:
  "\<exists>s r e. reachable sse_init (sse_step 16 8 (Some ''e1'')) s \<and> ss_phase s = Streaming 2 r \<and> e \<in> set r \<and> e \<in> set (ss_queue s)"
  by (intro exI conjI, rule sse_run) (simp_all, rule list.set_intros)

section \<open>The live stream of a room\<close>

datatype jitter_mode = LowLatency | Stable

definition default_delay_ms :: "jitter_mode \<Rightarrow> nat" where
  "default_delay_ms m = (case m of LowLatency \<Rightarrow> 1000 | Stable \<Rightarrow> 2000)"

definition live_mode :: "string option \<Rightarrow> jitter_mode" where
  "live_mode p = (if p = Some ''stable'' then Stable else LowLatency)"

record stream_frame =
  sf_stream :: string
  sf_user_id :: int
  sf_frames :: json
  sf_sequence :: "64 word option"
  sf_room :: "string option"
  sf_round :: "string option"
  sf_timestamp :: "int option"

text \<open>The tracker of sequence gaps that the gateway object offers; the route keeps its own.\<close>

definition observe_sequence :: "string \<Rightarrow> 64 word \<Rightarrow> (string \<times> 64 word) list \<Rightarrow> 64 word option \<times> (string \<times> 64 word) list" where
  "observe_sequence room n seen =
     ((case aget seen room of Some p \<Rightarrow> if p + 1 < n then Some p else None | None \<Rightarrow> None), aput room n seen)"

record live_state =
  lv_players :: "int set option"
  lv_buffer :: "json list"
  lv_last_seq :: "(string \<times> 64 word) list"
  lv_last_round :: "string option"

definition live_start :: live_state where
  "live_start = \<lparr>lv_players = None, lv_buffer = [], lv_last_seq = [], lv_last_round = None\<rparr>"

text \<open>What can happen to the task: a frame, an overflow of the channel, its end, the timer together with
  the number of messages the socket takes before it fails, a message of the client, or its end.\<close>

datatype live_input =
    LiveFrame stream_frame
  | LiveLagged
  | LiveClosed
  | LiveTick "nat option"
  | LiveText "json option"
  | LiveBye

definition is_judges :: "stream_frame \<Rightarrow> bool" where
  "is_judges f \<longleftrightarrow> sf_stream f = ''judges''"

definition u64_json :: "64 word \<Rightarrow> json" where
  "u64_json n = JInt (uint n)"

definition live_event :: "stream_frame \<Rightarrow> json" where
  "live_event f =
     JObj [(''type'', JStr (if is_judges f then ''judges'' else ''touches'')), (''player'', JInt (sf_user_id f)),
       (''sequence'', jopt u64_json (sf_sequence f)), (''round'', jopt JStr (sf_round f)), (''timestamp'', jopt JInt (sf_timestamp f)),
       ((if is_judges f then ''judges'' else ''frames''), sf_frames f)]"

definition seq_notes :: "stream_frame \<Rightarrow> live_state \<Rightarrow> json list \<times> live_state" where
  "seq_notes f s =
     (case sf_sequence f of
        None \<Rightarrow> ([], s)
      | Some n \<Rightarrow>
          ((case aget (lv_last_seq s) (sf_stream f) of
              Some p \<Rightarrow>
                if p + 1 < n
                then [JObj [(''type'', JStr ''resync''), (''stream'', JStr (sf_stream f)), (''expected'', u64_json (p + 1)),
                  (''reason'', JStr ''sequence_gap'')]]
                else []
            | None \<Rightarrow> []), s\<lparr>lv_last_seq := aput (sf_stream f) n (lv_last_seq s)\<rparr>))"

definition round_notes :: "stream_frame \<Rightarrow> live_state \<Rightarrow> json list \<times> live_state" where
  "round_notes f s =
     (case sf_round f of
        None \<Rightarrow> ([], s)
      | Some r \<Rightarrow>
          if lv_last_round s = Some r then ([], s)
          else ([JObj [(''type'', JStr ''round_switch''), (''round'', JStr r)]], s\<lparr>lv_last_round := Some r\<rparr>))"

definition wanted_player :: "live_state \<Rightarrow> stream_frame \<Rightarrow> bool" where
  "wanted_player s f \<longleftrightarrow> (case lv_players s of Some ps \<Rightarrow> sf_user_id f \<in> ps | None \<Rightarrow> True)"

definition live_frame :: "string \<Rightarrow> stream_frame \<Rightarrow> live_state \<Rightarrow> json list \<times> live_state" where
  "live_frame room f s =
     (if sf_room f \<noteq> Some room then ([], s)
      else
        case seq_notes f s of (a, s1) \<Rightarrow>
        case round_notes f s1 of (b, s2) \<Rightarrow>
        (a @ b, if wanted_player s2 f then s2\<lparr>lv_buffer := lv_buffer s2 @ [live_event f]\<rparr> else s2))"

definition heartbeat_note :: json where
  "heartbeat_note = JObj [(''type'', JStr ''heartbeat'')]"

definition live_text :: "json option \<Rightarrow> live_state \<Rightarrow> live_state" where
  "live_text m s =
     (case m of
        None \<Rightarrow> s
      | Some v \<Rightarrow>
          (case string_field v ''type'' of
             Some t \<Rightarrow>
               if t = ''set_players''
               then s\<lparr>lv_players := map_option (\<lambda>arr. set (List.map_filter as_i64 arr)) (Option.bind (get_field v ''players'') as_array)\<rparr>
               else if t = ''resync'' then s\<lparr>lv_last_seq := []\<rparr>
               else s
           | None \<Rightarrow> s))"

text \<open>One turn of the loop: the messages that were sent, and the next state unless the task ends.\<close>

definition live_step :: "string \<Rightarrow> live_input \<Rightarrow> live_state \<Rightarrow> json list \<times> live_state option" where
  "live_step room x s =
     (case x of
        LiveFrame f \<Rightarrow> (case live_frame room f s of (out, s1) \<Rightarrow> (out, Some s1))
      | LiveLagged \<Rightarrow> ([JObj [(''type'', JStr ''resync''), (''reason'', JStr ''lagged'')]], Some s)
      | LiveClosed \<Rightarrow> ([], None)
      | LiveTick fails \<Rightarrow>
          (case fails of
             Some k \<Rightarrow>
               if k < length (lv_buffer s) then (take k (lv_buffer s), None)
               else (lv_buffer s, Some (s\<lparr>lv_buffer := []\<rparr>))
           | None \<Rightarrow> (lv_buffer s @ [heartbeat_note], Some (s\<lparr>lv_buffer := []\<rparr>)))
      | LiveText m \<Rightarrow> ([], Some (live_text m s))
      | LiveBye \<Rightarrow> ([], None))"

fun live_run :: "string \<Rightarrow> live_input list \<Rightarrow> live_state \<Rightarrow> json list \<times> live_state option" where
  "live_run room [] s = ([], Some s)"
| "live_run room (x # xs) s =
     (case live_step room x s of
        (out, None) \<Rightarrow> (out, None)
      | (out, Some t) \<Rightarrow> (case live_run room xs t of (rest, u) \<Rightarrow> (out @ rest, u)))"

text \<open>The specification: the frames of the room whose player was selected when they arrived.\<close>

fun live_spec :: "string \<Rightarrow> int set option \<Rightarrow> live_input list \<Rightarrow> json list" where
  "live_spec room ps [] = []"
| "live_spec room ps (LiveFrame f # xs) =
     (if sf_room f = Some room \<and> (case ps of Some p \<Rightarrow> sf_user_id f \<in> p | None \<Rightarrow> True) then [live_event f] else []) @ live_spec room ps xs"
| "live_spec room ps (LiveText m # xs) = live_spec room (lv_players (live_text m (live_start\<lparr>lv_players := ps\<rparr>))) xs"
| "live_spec room ps (x # xs) = live_spec room ps xs"

definition is_live_event :: "json \<Rightarrow> bool" where
  "is_live_event v \<longleftrightarrow> string_field v ''type'' = Some ''touches'' \<or> string_field v ''type'' = Some ''judges''"

lemma live_event_is: "is_live_event (live_event f)"
  by (simp add: is_live_event_def live_event_def string_field_def get_field_def)

lemma notes_are_not:
  "is_live_event heartbeat_note = False" "is_live_event (JObj [(''type'', JStr ''resync''), (''reason'', JStr ''lagged'')]) = False"
  by (simp_all add: is_live_event_def heartbeat_note_def string_field_def get_field_def)

lemma seq_notes_frame:
  "seq_notes f s = (a, s1) \<Longrightarrow> filter is_live_event a = [] \<and> lv_buffer s1 = lv_buffer s \<and> lv_players s1 = lv_players s"
  by (auto simp: seq_notes_def is_live_event_def string_field_def get_field_def split: option.splits if_splits)

lemma round_notes_frame:
  "round_notes f s = (a, s1) \<Longrightarrow> filter is_live_event a = [] \<and> lv_buffer s1 = lv_buffer s \<and> lv_players s1 = lv_players s"
  by (auto simp: round_notes_def is_live_event_def string_field_def get_field_def split: option.splits if_splits)

lemma live_frame_runs:
  "live_frame room f s = (out, t) \<Longrightarrow> filter is_live_event out = [] \<and> lv_players t = lv_players s \<and>
     lv_buffer t = lv_buffer s @ live_spec room (lv_players s) [LiveFrame f]"
  by (auto simp: live_frame_def wanted_player_def split: prod.splits if_splits option.splits
      dest!: seq_notes_frame round_notes_frame)

lemma live_text_runs:
  "lv_buffer (live_text m s) = lv_buffer s" "lv_players (live_text m s) = lv_players (live_text m (live_start\<lparr>lv_players := lv_players s\<rparr>))"
  by (auto simp: live_text_def split: option.splits)

lemma live_run_spec:
  assumes "live_run room xs s = (out, Some t)" and "\<forall>v \<in> set (lv_buffer s). is_live_event v"
  shows "filter is_live_event out @ lv_buffer t = lv_buffer s @ live_spec room (lv_players s) xs"
  using assms
proof (induction xs arbitrary: s out)
  case Nil
  then show ?case by simp
next
  case (Cons x xs)
  from Cons.prems(1) obtain o1 s1 o2 where one: "live_step room x s = (o1, Some s1)" and rest: "live_run room xs s1 = (o2, Some t)"
      and out: "out = o1 @ o2"
    by (auto split: prod.splits option.splits)
  have step: "filter is_live_event o1 @ lv_buffer s1 @ live_spec room (lv_players s1) xs = lv_buffer s @ live_spec room (lv_players s) (x # xs)
      \<and> (\<forall>v \<in> set (lv_buffer s1). is_live_event v)"
  proof (cases x)
    case (LiveFrame f)
    then have "live_frame room f s = (o1, s1)" using one by (auto simp: live_step_def split: prod.splits)
    from live_frame_runs [OF this] LiveFrame Cons.prems(2) show ?thesis by (auto simp: live_event_is)
  next
    case (LiveText m)
    then show ?thesis
      using one Cons.prems(2) live_text_runs(2) [of m s] by (auto simp: live_step_def live_text_runs(1))
  next
    case (LiveTick k)
    with one Cons.prems(2) show ?thesis
      by (auto simp: live_step_def notes_are_not filter_id_conv split: option.splits if_splits)
  qed (use one Cons.prems(2) in \<open>auto simp: live_step_def notes_are_not\<close>)
  from Cons.IH [OF rest] step out show ?case by simp
qed



section \<open>Counters\<close>

record metrics =
  commands_total :: "64 word"
  commands_failed :: "64 word"
  phira_api_errors :: "64 word"
  openuds_reconnects :: "64 word"
  events_forwarded :: "64 word"

definition new_metrics :: metrics where
  "new_metrics = \<lparr>commands_total = 0, commands_failed = 0, phira_api_errors = 0, openuds_reconnects = 0, events_forwarded = 0\<rparr>"

definition metrics_snapshot :: "metrics \<Rightarrow> json" where
  "metrics_snapshot m =
     JObj [(''commands_total'', u64_json (commands_total m)), (''commands_failed'', u64_json (commands_failed m)),
       (''phira_api_errors'', u64_json (phira_api_errors m)), (''openuds_reconnects'', u64_json (openuds_reconnects m)),
       (''events_forwarded'', u64_json (events_forwarded m))]"

section \<open>The background tasks\<close>

text \<open>The counts of the last heartbeat of the game server, and what the forwarder does for one frame.\<close>

type_synonym heartbeat_cache = "int \<times> int \<times> int"

record realtime_state =
  rt_history :: "ppb_event list"
  rt_heartbeat :: heartbeat_cache
  rt_metrics :: metrics

definition heartbeat_counts :: "json \<Rightarrow> heartbeat_cache" where
  "heartbeat_counts v = (unwrap_or (int_field v ''users'') 0, unwrap_or (int_field v ''rooms'') 0, unwrap_or (int_field v ''sessions'') 0)"

definition forward_frame :: "nat \<Rightarrow> (int \<Rightarrow> bool) \<Rightarrow> instant \<Rightarrow> event_frame \<Rightarrow> realtime_state \<Rightarrow> realtime_state" where
  "forward_frame m in_range now f s =
     (let s1 = (if ef_event_type f = ''server.heartbeat'' then s\<lparr>rt_heartbeat := heartbeat_counts (ef_data f)\<rparr> else s) in
      case map_pmp_event in_range now f of
        Some e \<Rightarrow> s1\<lparr>rt_history := bus_publish m e (rt_history s1), rt_metrics := (rt_metrics s1)\<lparr>events_forwarded := events_forwarded (rt_metrics s1) + 1\<rparr>\<rparr>
      | None \<Rightarrow> s1)"

definition heartbeat_event :: "string \<Rightarrow> instant \<Rightarrow> heartbeat_cache \<Rightarrow> ppb_event" where
  "heartbeat_event i now c =
     (case c of (nu, nr, ns) \<Rightarrow>
        \<lparr>pe_event_id = i, pe_type = ''server.heartbeat'', pe_version = 1, pe_occurred_at = now, pe_resource = resource_server,
         pe_data = JObj [(''users'', JInt nu), (''rooms'', JInt nr), (''sessions'', JInt ns)]\<rparr>)"

definition heartbeat_tick :: "nat \<Rightarrow> string \<Rightarrow> instant \<Rightarrow> realtime_state \<Rightarrow> realtime_state" where
  "heartbeat_tick m i now s = s\<lparr>rt_history := bus_publish m (heartbeat_event i now (rt_heartbeat s)) (rt_history s)\<rparr>"

inductive realtime_step :: "nat \<Rightarrow> (int \<Rightarrow> bool) \<Rightarrow> realtime_state \<Rightarrow> realtime_state \<Rightarrow> bool" for m in_range where
  forwarded: "realtime_step m in_range s (forward_frame m in_range now f s)"
| beat: "realtime_step m in_range s (heartbeat_tick m i now s)"

definition realtime_init :: "realtime_state \<Rightarrow> bool" where
  "realtime_init s \<longleftrightarrow> s = \<lparr>rt_history = [], rt_heartbeat = (0, 0, 0), rt_metrics = new_metrics\<rparr>"

text \<open>The types that clients may see.\<close>

definition public_types :: "string list" where
  "public_types = [''user.online'', ''user.offline'', ''room.created'', ''room.updated'', ''room.joined'', ''room.left'', ''round.started'',
     ''round.completed'', ''server.heartbeat'']"

definition realtime_ok :: "nat \<Rightarrow> realtime_state \<Rightarrow> bool" where
  "realtime_ok m s \<longleftrightarrow> length (rt_history s) \<le> m \<and> (\<forall>e \<in> set (rt_history s). pe_type e \<in> set public_types \<and> pe_version e = 1)"

lemma event_resource_public: "event_resource f = Some r \<Longrightarrow> ef_event_type f \<in> set public_types"
  by (auto simp: event_resource_def public_types_def Let_def split: if_splits)

lemma bus_publish_ok:
  "realtime_ok m s \<Longrightarrow> pe_type e \<in> set public_types \<Longrightarrow> pe_version e = 1 \<Longrightarrow> realtime_ok m (s\<lparr>rt_history := bus_publish m e (rt_history s)\<rparr>)"
  by (auto simp: realtime_ok_def bus_publish_def trimmed_def dest!: in_set_dropD)

lemma realtime_ok_other [simp]:
  "realtime_ok m (s\<lparr>rt_heartbeat := c\<rparr>) = realtime_ok m s" "realtime_ok m (s\<lparr>rt_metrics := k\<rparr>) = realtime_ok m s"
  by (simp_all add: realtime_ok_def)

lemma forward_frame_ok: "realtime_ok m s \<Longrightarrow> realtime_ok m (forward_frame m in_range now f s)"
proof -
  assume ok: "realtime_ok m s"
  let ?s = "if ef_event_type f = ''server.heartbeat'' then s\<lparr>rt_heartbeat := heartbeat_counts (ef_data f)\<rparr> else s"
  show ?thesis
  proof (cases "map_pmp_event in_range now f")
    case None
    with ok show ?thesis by (simp add: forward_frame_def)
  next
    case (Some e)
    then have e: "pe_type e \<in> set public_types" "pe_version e = 1"
      by (auto simp: map_pmp_event_def dest: event_resource_public)
    from ok have "realtime_ok m ?s" by simp
    from bus_publish_ok [OF this e] have "realtime_ok m (?s\<lparr>rt_history := bus_publish m e (rt_history ?s)\<rparr>)" .
    moreover have "forward_frame m in_range now f s = (?s\<lparr>rt_history := bus_publish m e (rt_history ?s)\<rparr>)
        \<lparr>rt_metrics := (rt_metrics ?s)\<lparr>events_forwarded := events_forwarded (rt_metrics ?s) + 1\<rparr>\<rparr>"
      by (simp add: forward_frame_def Some)
    ultimately show ?thesis by simp
  qed
qed

interpretation realtime: invariant_system realtime_init "realtime_step m in_range" "realtime_ok m" for m in_range
proof
  show "realtime_ok m s" if "realtime_init s" for s using that by (simp add: realtime_init_def realtime_ok_def)
  show "realtime_ok m t" if "realtime_ok m s" "realtime_step m in_range s t" for s t
    using that(2) by cases (simp_all add: that(1) forward_frame_ok heartbeat_tick_def heartbeat_event_def bus_publish_ok public_types_def split: prod.splits)
qed

text \<open>Whatever the game server sends, clients of the event stream are shown only the nine public types
  (no chat, no frames, no private broadcasts), and the history never outgrows its bound.\<close>

theorem history_public:
  assumes "reachable realtime_init (realtime_step m in_range) s" and "e \<in> set (sse_replay i (rt_history s))"
  shows "pe_type e \<in> set public_types \<and> length (sse_replay i (rt_history s)) \<le> m"
proof -
  have "realtime_ok m s" by (rule realtime.reachable_inv [OF assms(1)])
  moreover have "e \<in> set (rt_history s)" "length (sse_replay i (rt_history s)) \<le> length (rt_history s)"
    using assms(2) by (auto simp: sse_replay_def replay_from_def dest: in_set_dropD split: option.splits)
  ultimately show ?thesis by (auto simp: realtime_ok_def)
qed

section \<open>The join-intent task\<close>

text \<open>When the game server reports a player online the task claims the player's intent, sends the move, and
  records how it ended. Requests of users run between the two halves. The player's number goes to the
  server as a signed 32-bit number.\<close>

definition intent_task_begin :: "instant \<Rightarrow> event_frame \<Rightarrow> intent_store \<Rightarrow> join_intent option \<times> intent_store" where
  "intent_task_begin now f s =
     (if ef_event_type f \<noteq> ''user.online'' then (None, s)
      else
        let pid = unwrap_or (int_field (ef_data f) ''user_id'') 0 in
        if pid \<le> 0 then (None, s)
        else
          case match_online now pid s of
            (None, s1) \<Rightarrow> (None, s1)
          | (Some it, s1) \<Rightarrow> (Some it, mark_moving (ji_id it) s1))"

definition intent_task_end :: "pmp \<Rightarrow> int \<Rightarrow> join_intent \<Rightarrow> intent_store \<Rightarrow> intent_store" where
  "intent_task_end P pid it s =
     mark_terminal (ji_id it) (case room_force_move P (ji_room it) (wrap32 pid) False of Inr _ \<Rightarrow> STATUS_COMPLETED | Inl _ \<Rightarrow> STATUS_FAILED) s"

text \<open>A claimed intent is settled: it belongs to the player who came online and was pending and unexpired,
  and, in whatever store \<open>u\<close> users and the cleanup leave while the game server works on the move, the
  intent ends as completed if the move succeeded and as failed if it did not, unless its owner
  cancelled it meanwhile; and the player's index entry is gone.\<close>

theorem join_intent_settled:
  assumes "reachable (\<lambda>s. s = no_intents) intent_step s" and "intent_task_begin now f s = (Some it, t)"
  shows "ef_event_type f = ''user.online'' \<and> int_field (ef_data f) ''user_id'' = Some (ji_phira it) \<and>
    (\<exists>old. aget (intents s) (ji_id it) = Some old \<and> ji_status old = STATUS_PENDING \<and> now < ji_expires_at old \<and> ji_room old = ji_room it) \<and>
    (let v = intent_task_end P (ji_phira it) it u in
      case aget (intents u) (ji_id it) of
        None \<Rightarrow> v = u
      | Some cur \<Rightarrow>
          aget (intents v) (ji_id it) =
            Some (cur\<lparr>ji_status := (if isl (room_force_move P (ji_room it) (wrap32 (ji_phira it)) False) then STATUS_FAILED else STATUS_COMPLETED)\<rparr>)
          \<and> aget (by_phira v) (ji_phira cur) = None)"
proof -
  let ?pid = "unwrap_or (int_field (ef_data f) ''user_id'') 0"
  from assms(2) obtain s1 where f: "ef_event_type f = ''user.online''" "0 < ?pid" and m: "match_online now ?pid s = (Some it, s1)"
    by (auto simp: intent_task_begin_def Let_def split: if_splits prod.splits option.splits)
  from f(2) have pid: "int_field (ef_data f) ''user_id'' = Some ?pid" by (cases "int_field (ef_data f) ''user_id''") auto
  have "store_ok s" by (rule intent_system.reachable_inv [OF assms(1)])
  with m obtain old where old: "aget (intents s) (ji_id it) = Some old" "ji_phira old = ?pid" "ji_status old = STATUS_PENDING"
      "now < ji_expires_at old" "it = old\<lparr>ji_status := STATUS_USER_ONLINE\<rparr>"
    by (fastforce simp: match_online_def store_ok_def effective_status_def is_terminal_def status_defs split: option.splits if_splits)
  have "\<exists>old. aget (intents s) (ji_id it) = Some old \<and> ji_status old = STATUS_PENDING \<and> now < ji_expires_at old \<and> ji_room old = ji_room it"
    using old by auto
  moreover have "ji_phira it = ?pid" using old by simp
  ultimately show ?thesis
    using f pid by (auto simp: intent_task_end_def mark_terminal_def update_status_def Let_def split: option.splits sum.splits)
qed

definition online_frame :: event_frame where
  "online_frame = \<lparr>ef_event_type = ''user.online'', ef_data = JObj [(''user_id'', JInt 42)], ef_event_id = ''e9'', ef_timestamp = 0\<rparr>"

theorem join_intent_settled_witness:
  "\<exists>it t. intent_task_begin 5 online_frame waiting_store = (Some it, t) \<and> ji_room it = ''A'' \<and>
     aget (intents (intent_task_end (\<lambda>c v. Inr JNull) 42 it t)) 1 = Some (it\<lparr>ji_status := STATUS_COMPLETED\<rparr>)"
proof -
  have trim: "trim ''A'' = ''A''" by code_simp
  have r: "reachable (\<lambda>s. s = no_intents) intent_step waiting_store"
    unfolding waiting_store_def by (blast intro: reachable.intros intent_step.created)
  let ?b = "intent_task_begin 5 online_frame waiting_store"
  have b: "\<exists>it t. ?b = (Some it, t) \<and> ji_room it = ''A'' \<and> ji_id it = 1 \<and> aget (intents t) 1 = Some (it\<lparr>ji_status := STATUS_MOVING\<rparr>) \<and> ji_phira it = 42"
    by (simp add: intent_task_begin_def online_frame_def int_field_def get_field_def as_i64_def i64_range_def mark_moving_def update_status_def
        match_online_def waiting_store_def create_intent_def no_intents_def trim Let_def effective_status_def
        is_terminal_def status_defs secs_def DEFAULT_TTL_SECS_def MAX_TTL_SECS_def)
  then obtain it t where it: "?b = (Some it, t)" "ji_room it = ''A''" "ji_id it = 1" "aget (intents t) 1 = Some (it\<lparr>ji_status := STATUS_MOVING\<rparr>)"
      "ji_phira it = 42" by blast
  from join_intent_settled [OF r it(1), of "\<lambda>c v. Inr JNull" t] it show ?thesis
    by (simp add: Let_def room_force_move_def)
qed

text \<open>The number is narrowed without a check: for a player beyond \<open>2 ^ 31\<close> the move names another player.\<close>

lemma moved_player_wraps: "wrap32 (2 ^ 32 + 7) = 7"
  by (simp add: wrap32_def)

end
