(* ===== verification/Replay.thy ===== *)
theory Replay
  imports Complex_Main Social
begin

text \<open>
  Replays (\<^verbatim>\<open>replay/\<close>): who may see the replay of a player in a round, share links, and the pages of data
  that the game server keeps. The server may change between two commands: its state at the n-th command
  is an argument. Random bytes, generated ids and the conversions of floating-point numbers are
  arguments too.
\<close>

section \<open>Share links and visibility overrides\<close>

definition replay_db_err :: "sqlx_error \<Rightarrow> api_error" where
  "replay_db_err = db_err (api_error_new ReplayNotFound ''replay not found'')"

definition hash_token :: "libs \<Rightarrow> string \<Rightarrow> string" where
  "hash_token L token = hex (sha256 L token)"

definition new_share_token :: "libs \<Rightarrow> string \<Rightarrow> string \<times> string" where
  "new_share_token L random = (let token = b64url L random in (token, hash_token L token))"

definition VISIBILITIES :: "string list" where
  "VISIBILITIES = [''inherit'', ''public'', ''friends'', ''private'', ''unlisted'', ''custom'']"

definition override_of :: "string \<Rightarrow> int \<Rightarrow> db \<Rightarrow> replay_override option" where
  "override_of ruuid player d = find (\<lambda>v. pmp_replay_id v = ruuid \<and> ro_player v = player) (replay_overrides d)"

text \<open>\<open>INSERT ... ON CONFLICT (pmp_replay_id, player_phira_id) DO UPDATE\<close>: the owner of an existing row stays.\<close>

definition put_override :: "uuid \<Rightarrow> string \<Rightarrow> int \<Rightarrow> uuid \<Rightarrow> string \<Rightarrow> replay_override statement" where
  "put_override i ruuid player owner vis d =
     (if vis \<notin> set VISIBILITIES then Inl CheckViolation
      else case override_of ruuid player d of
        Some v \<Rightarrow>
          (let f = (\<lambda>v. v\<lparr>visibility := vis, ro_updated_at := clock d\<rparr>) in
           Inr (f v, d\<lparr>replay_overrides :=
             map (\<lambda>v. if pmp_replay_id v = ruuid \<and> ro_player v = player then f v else v) (replay_overrides d)\<rparr>))
      | None \<Rightarrow>
          if i \<in> ro_id ` set (replay_overrides d) then Inl UniqueViolation
          else if \<not> known_user d owner then Inl ForeignKeyViolation
          else
            (let v = \<lparr>ro_id = i, pmp_replay_id = ruuid, ro_player = player, owner_user_id = Some owner, visibility = vis,
                      ro_updated_at = clock d\<rparr> in
             Inr (v, d\<lparr>replay_overrides := replay_overrides d @ [v]\<rparr>)))"

definition set_visibility :: "uuid \<Rightarrow> string \<Rightarrow> int \<Rightarrow> uuid \<Rightarrow> string \<Rightarrow> (db, api_error, replay_override) comp" where
  "set_visibility i ruuid player owner vis = map_err replay_db_err (query (put_override i ruuid player owner vis))"

definition insert_share_link :: "share_link \<Rightarrow> share_link statement" where
  "insert_share_link l d =
     (if sl_id l \<in> sl_id ` set (replay_share_links d) \<or> token_hash l \<in> token_hash ` set (replay_share_links d) then Inl UniqueViolation
      else if \<not> known_user d (created_by l) then Inl ForeignKeyViolation
      else Inr (l\<lparr>sl_created_at := clock d\<rparr>, d\<lparr>replay_share_links := replay_share_links d @ [l\<lparr>sl_created_at := clock d\<rparr>]\<rparr>))"

definition create_share_link ::
  "libs \<Rightarrow> uuid \<Rightarrow> string \<Rightarrow> string \<Rightarrow> int \<Rightarrow> uuid \<Rightarrow> instant option \<Rightarrow> (db, api_error, share_link \<times> string) comp" where
  "create_share_link L i random ruuid player creator expires =
     (case new_share_token L random of (token, hash) \<Rightarrow>
        bnd (map_err replay_db_err (query (insert_share_link
          \<lparr>sl_id = i, replay_round = ruuid, sl_player = player, token_hash = hash, created_by = creator, sl_expires_at = expires,
           sl_revoked_at = None, sl_created_at = 0\<rparr>))) (\<lambda>l. ret (l, token)))"

definition resolve_share_token :: "env \<Rightarrow> string \<Rightarrow> (db, api_error, string \<times> int) comp" where
  "resolve_share_token E token =
     bnd (map_err replay_db_err (select (\<lambda>d. find (\<lambda>l. token_hash l = hash_token (libs_of E) token) (replay_share_links d)))) (\<lambda>row.
       case row of
         None \<Rightarrow> throw (api_error_new ReplayShareInvalid ''invalid share token'')
       | Some l \<Rightarrow>
           if sl_revoked_at l \<noteq> None then throw (api_error_new ReplayShareRevoked ''share link revoked'')
           else if \<exists>x. sl_expires_at l = Some x \<and> x < now_of E
           then throw (api_error_new ReplayShareExpired ''share link expired'')
           else ret (replay_round l, sl_player l))"

definition revoke_share_link :: "uuid \<Rightarrow> (db, api_error, unit) comp" where
  "revoke_share_link i =
     map_err replay_db_err (execute (\<lambda>d.
       d\<lparr>replay_share_links := map (\<lambda>l. if sl_id l = i then l\<lparr>sl_revoked_at := Some (clock d)\<rparr> else l) (replay_share_links d)\<rparr>))"

section \<open>Access to a replay\<close>

definition VISIBILITY_PUBLIC :: string where "VISIBILITY_PUBLIC = ''public''"
definition VISIBILITY_FRIENDS :: string where "VISIBILITY_FRIENDS = ''friends''"
definition VISIBILITY_PRIVATE :: string where "VISIBILITY_PRIVATE = ''private''"
definition VISIBILITY_UNLISTED :: string where "VISIBILITY_UNLISTED = ''unlisted''"
definition VISIBILITY_CUSTOM :: string where "VISIBILITY_CUSTOM = ''custom''"
definition VISIBILITY_INHERIT :: string where "VISIBILITY_INHERIT = ''inherit''"

lemmas visibility_defs =
  VISIBILITY_PUBLIC_def VISIBILITY_FRIENDS_def VISIBILITY_PRIVATE_def VISIBILITY_UNLISTED_def VISIBILITY_CUSTOM_def VISIBILITY_INHERIT_def

definition get_override :: "string \<Rightarrow> int \<Rightarrow> (db, api_error, replay_override option) comp" where
  "get_override ruuid player = map_err replay_db_err (select (override_of ruuid player))"

definition effective_visibility :: "string \<Rightarrow> int \<Rightarrow> (db, api_error, string) comp" where
  "effective_visibility ruuid player =
     bnd (map_err replay_db_err (select (\<lambda>d. map_option visibility (override_of ruuid player d)))) (\<lambda>row.
       case row of
         Some v \<Rightarrow> ret (if v \<noteq> VISIBILITY_INHERIT then v else VISIBILITY_PUBLIC)
       | None \<Rightarrow> ret VISIBILITY_PUBLIC)"

definition requester_phira_id :: "auth_principal \<Rightarrow> (db, api_error, int option) comp" where
  "requester_phira_id a =
     (if is_root a then ret None else bnd (find_user_by_id (sub a)) (\<lambda>u. ret (map_option phira_id u)))"

definition acl_effect :: "uuid \<Rightarrow> uuid \<Rightarrow> db \<Rightarrow> string option" where
  "acl_effect i u d = map_option (\<lambda>r. snd (snd r)) (find (\<lambda>r. fst r = i \<and> fst (snd r) = u) (replay_acl d))"

text \<open>The part for a signed-in user, once the replay is not public.\<close>

definition user_access :: "string \<Rightarrow> int \<Rightarrow> string \<Rightarrow> auth_principal \<Rightarrow> (db, api_error, bool) comp" where
  "user_access ruuid player vis a =
     bnd (get_override ruuid player) (\<lambda>over.
     if \<exists>v. over = Some v \<and> owner_user_id v = Some (sub a) then ret True
     else
       bnd (requester_phira_id a) (\<lambda>me.
       if me = Some player then ret True
       else if vis = VISIBILITY_FRIENDS
       then bnd (list_friends (unwrap_or (Option.bind over owner_user_id) 0)) (\<lambda>fs. ret (sub a \<in> set fs))
       else if vis = VISIBILITY_UNLISTED then ret False
       else if vis = VISIBILITY_PRIVATE then ret False
       else if vis = VISIBILITY_CUSTOM then
         (case over of
            None \<Rightarrow> ret False
          | Some v \<Rightarrow> bnd (map_err replay_db_err (select (acl_effect (ro_id v) (sub a)))) (\<lambda>acl. ret (acl = Some ''allow'')))
       else ret False))"

definition check_pair_access :: "string \<Rightarrow> int \<Rightarrow> auth_principal option \<Rightarrow> (db, api_error, bool) comp" where
  "check_pair_access ruuid player requester =
     bnd (effective_visibility ruuid player) (\<lambda>vis.
     if vis = VISIBILITY_PUBLIC then ret True
     else case requester of
       None \<Rightarrow> ret False
     | Some a \<Rightarrow> if is_root a then ret True else user_access ruuid player vis a)"

definition resolve_replay_access ::
  "env \<Rightarrow> string \<Rightarrow> int \<Rightarrow> auth_principal option \<Rightarrow> string option \<Rightarrow> (db, api_error, int option) comp" where
  "resolve_replay_access E ruuid requested requester share_token =
     (case share_token of
        Some token \<Rightarrow>
          bnd (resolve_share_token E token) (\<lambda>rp. ret (if fst rp \<noteq> ruuid then None else Some (snd rp)))
      | None \<Rightarrow> bnd (check_pair_access ruuid requested requester) (\<lambda>ok. ret (if ok then Some requested else None)))"

section \<open>Pages of the game server\<close>

definition MAX_PAGE :: int where "MAX_PAGE = 500"

definition optional_param :: "string \<Rightarrow> ('a \<Rightarrow> json) \<Rightarrow> 'a option \<Rightarrow> json \<Rightarrow> json" where
  "optional_param k f x v = (case x of Some y \<Rightarrow> set_param v k (f y) | None \<Rightarrow> v)"

definition items_of :: "json \<Rightarrow> json list" where
  "items_of v =
     (case Option.bind (get_field v ''items'') as_array of
        Some xs \<Rightarrow> xs
      | None \<Rightarrow> (case as_array v of Some xs \<Rightarrow> xs | None \<Rightarrow> []))"

definition fetch_rounds :: "pmp \<Rightarrow> string option \<Rightarrow> int option \<Rightarrow> int \<Rightarrow> uds_error + json list" where
  "fetch_rounds G ruuid player maxn =
     (case G ''persist.rounds'' (optional_param ''player_id'' JInt player (optional_param ''round_uuid'' JStr ruuid
        (JObj [(''limit'', JInt (max 1 (min 1000 maxn)))]))) of
        Inl e \<Rightarrow> Inl e
      | Inr v \<Rightarrow> Inr (items_of v))"

definition rounds_page :: "string option \<Rightarrow> int option \<Rightarrow> int \<Rightarrow> json" where
  "rounds_page ruuid player offset =
     optional_param ''player_id'' JInt player (optional_param ''round_uuid'' JStr ruuid
       (JObj [(''limit'', JInt 1000), (''offset'', JInt offset)]))"

definition next_round_offset :: "json \<Rightarrow> int \<Rightarrow> int option" where
  "next_round_offset v offset =
     (let count = int (length (items_of v));
          fallback = (if count = 1000 then Some (wrap64 (offset + count)) else None)
      in case Option.bind (get_field v ''next_offset'') as_i64 of
           Some n \<Rightarrow> if offset < n then Some n else fallback
         | None \<Rightarrow> fallback)"

text \<open>The loop need not end when the server keeps sending full pages: then there is no value.\<close>

partial_function (option) rounds_from ::
  "(nat \<Rightarrow> pmp) \<Rightarrow> string option \<Rightarrow> int option \<Rightarrow> nat \<Rightarrow> int \<Rightarrow> json list \<Rightarrow> (uds_error + json list) option" where
  "rounds_from G ruuid player k offset found =
     (case G k ''persist.rounds'' (rounds_page ruuid player offset) of
        Inl e \<Rightarrow> Some (Inl e)
      | Inr v \<Rightarrow>
          (case next_round_offset v offset of
             Some n \<Rightarrow> rounds_from G ruuid player (Suc k) n (found @ items_of v)
           | None \<Rightarrow> Some (Inr (found @ items_of v))))"

definition fetch_all_rounds :: "(nat \<Rightarrow> pmp) \<Rightarrow> string option \<Rightarrow> int option \<Rightarrow> (uds_error + json list) option" where
  "fetch_all_rounds G ruuid player = rounds_from G ruuid player 0 0 []"

definition fetch_batches :: "pmp \<Rightarrow> string \<Rightarrow> int \<Rightarrow> int \<Rightarrow> string option \<Rightarrow> int option \<Rightarrow> uds_error + json" where
  "fetch_batches G stream since maxn ruuid player =
     G (''persist.'' @ stream) (optional_param ''player_id'' JInt player (optional_param ''round_uuid'' JStr ruuid
       (JObj [(''since'', JInt (max since 0)), (''limit'', JInt (max 1 (min MAX_PAGE maxn)))])))"

definition batches_of :: "json \<Rightarrow> json list" where
  "batches_of v =
     (case as_array v of
        Some xs \<Rightarrow> xs
      | None \<Rightarrow> (case Option.bind (get_field v ''data'') as_array of Some xs \<Rightarrow> xs | None \<Rightarrow> []))"

definition sequences :: "json list \<Rightarrow> int list" where
  "sequences bs = List.map_filter (\<lambda>b. Option.bind (get_field b ''sequence'') as_i64) bs"

definition max_or :: "int \<Rightarrow> int list \<Rightarrow> int" where
  "max_or x ns = (case ns of [] \<Rightarrow> x | n # ms \<Rightarrow> fold max ms n)"

lemma max_or_member: "max_or x ns \<in> set ns \<or> max_or x ns = x"
proof (cases ns)
  case (Cons n ms)
  have "fold max ms n = n \<or> fold max ms n \<in> set ms"
    by (induction ms arbitrary: n) (auto simp: max_def)
  with Cons show ?thesis by (auto simp: max_or_def)
qed (simp add: max_or_def)

lemma as_i64_range: "as_i64 v = Some n \<Longrightarrow> i64_range n"
  by (cases v) (auto simp: as_i64_def split: if_splits)

lemma map_filter_Some: "n \<in> set (List.map_filter f xs) \<Longrightarrow> \<exists>x \<in> set xs. f x = Some n"
  by (auto simp: List.map_filter_def)

lemma sequences_range: "n \<in> set (sequences bs) \<Longrightarrow> i64_range n"
  by (auto simp: sequences_def bind_eq_Some_conv dest!: map_filter_Some as_i64_range)

text \<open>The cursor grows with every page and is a 64-bit integer, so the loop ends.\<close>

function batches_from ::
  "(nat \<Rightarrow> pmp) \<Rightarrow> string \<Rightarrow> string \<Rightarrow> int \<Rightarrow> nat \<Rightarrow> int \<Rightarrow> json list \<Rightarrow> uds_error + json list" where
  "batches_from G stream ruuid player k since found =
     (case fetch_batches (G k) stream since MAX_PAGE (Some ruuid) (Some player) of
        Inl e \<Rightarrow> Inl e
      | Inr v \<Rightarrow>
          let bs = batches_of v; found' = found @ bs; n = max_or since (sequences bs) in
          if bs = [] then Inr found
          else if n \<le> since \<or> length found' mod 500 \<noteq> 0 then Inr found'
          else batches_from G stream ruuid player (Suc k) n found')"
  by pat_completeness auto
termination
proof (relation "measure (\<lambda>(G, stream, ruuid, player, k, since, found). nat (2 ^ 63 - since))", goal_cases)
  case (2 G stream ruuid player k since found v bs found' n)
  then have "n \<in> set (sequences bs)" using max_or_member [of since "sequences bs"] by auto
  then have "n < 2 ^ 63" using sequences_range by (auto simp: i64_range_def)
  with 2 show ?case by simp
qed simp

declare batches_from.simps [simp del]

definition fetch_all_batches :: "(nat \<Rightarrow> pmp) \<Rightarrow> string \<Rightarrow> string \<Rightarrow> int \<Rightarrow> uds_error + json list" where
  "fetch_all_batches G stream ruuid player = batches_from G stream ruuid player 0 0 []"

text \<open>The deserialisers that serde derives for a round, a touch and a judgement (the latter two with their
  serialisation), and the floating-point view of a number.\<close>

record round_meta =
  rm_round_uuid :: string
  rm_chart_id :: int
  rm_chart_name :: string
  rm_room_id :: string
  rm_players :: "int list"
  rm_started_at :: int
  rm_finished_at :: "int option"

record replay_libs =
  meta_of_json :: "json \<Rightarrow> round_meta option"
  touch_json :: "json \<Rightarrow> json option"
  judge_json :: "json \<Rightarrow> json option"
  as_f64 :: "json \<Rightarrow> rat option"
  f64_json :: "rat \<Rightarrow> json"

definition opt_min :: "rat option \<Rightarrow> rat \<Rightarrow> rat option" where
  "opt_min m t = Some (case m of Some f \<Rightarrow> min f t | None \<Rightarrow> t)"

definition opt_max :: "rat option \<Rightarrow> rat \<Rightarrow> rat option" where
  "opt_max m t = Some (case m of Some f \<Rightarrow> max f t | None \<Rightarrow> t)"

definition numbers_in :: "(json \<Rightarrow> 'a option) \<Rightarrow> string \<Rightarrow> json list \<Rightarrow> 'a list" where
  "numbers_in f k bs = List.map_filter (\<lambda>b. Option.bind (get_field b k) f) bs"

definition summarize_batches :: "replay_libs \<Rightarrow> json list \<Rightarrow> json" where
  "summarize_batches R bs =
     JObj [(''batches'', JInt (int (length bs))),
       (''frames'', JInt (fold (\<lambda>c n. wrap64 (n + c)) (numbers_in as_i64 ''count'' bs) 0)),
       (''players'', JArr (map JInt (remdups_adj (sort (numbers_in as_i64 ''player_id'' bs))))),
       (''first_game_time'', jopt (f64_json R) (fold (\<lambda>t m. opt_min m t) (numbers_in (as_f64 R) ''first_game_time'' bs) None)),
       (''last_game_time'', jopt (f64_json R) (fold (\<lambda>t m. opt_max m t) (numbers_in (as_f64 R) ''last_game_time'' bs) None)),
       (''last_sequence'', JInt (fold max (sequences bs) 0))]"

section \<open>Endpoints\<close>

definition from_uds :: "uds_error + 'a \<Rightarrow> ('s, api_error, 'a) comp" where
  "from_uds r = from_result (case r of Inl e \<Rightarrow> Inl (uds_to_api e) | Inr v \<Rightarrow> Inr v)"

definition round_meta_of :: "replay_libs \<Rightarrow> pmp \<Rightarrow> string \<Rightarrow> int \<Rightarrow> (db, api_error, round_meta) comp" where
  "round_meta_of R G ruuid player =
     bnd (from_uds (fetch_rounds G (Some ruuid) (Some player) 1)) (\<lambda>vs.
       some_or (case List.map_filter (meta_of_json R) vs of
                  m # _ \<Rightarrow> if player \<in> set (rm_players m) then Some m else None
                | [] \<Rightarrow> None) (api_error_new ReplayNotFound ''replay not found''))"

record owner_summary =
  os_meta :: round_meta
  os_visibility :: string
  os_links :: "(uuid \<times> instant option \<times> instant option) list"

text \<open>The links of a round go to its first entry.\<close>

fun owner_items ::
  "(string \<rightharpoonup> string) \<Rightarrow> (string \<Rightarrow> (uuid \<times> instant option \<times> instant option) list) \<Rightarrow> round_meta list \<Rightarrow> owner_summary list" where
  "owner_items vis links [] = []"
| "owner_items vis links (m # ms) =
     \<lparr>os_meta = m, os_visibility = unwrap_or (vis (rm_round_uuid m)) ''public'', os_links = links (rm_round_uuid m)\<rparr> #
     owner_items vis (links(rm_round_uuid m := [])) ms"

definition list_my_replays ::
  "replay_libs \<Rightarrow> (nat \<Rightarrow> pmp) \<Rightarrow> auth_principal \<Rightarrow> (db option, api_error, (int \<times> owner_summary list) option) comp" where
  "list_my_replays R G a =
     as_user a (
       bnd (find_user_by_id (sub a)) (\<lambda>row.
       bnd (some_or row (api_error_new UserNotFound ''user not found'')) (\<lambda>u.
       bnd (map_err replay_db_err (select (\<lambda>d. map (\<lambda>v. (pmp_replay_id v, visibility v))
              (filter (\<lambda>v. ro_player v = phira_id u \<and> (owner_user_id v = Some (sub a) \<or> owner_user_id v = None)) (replay_overrides d))))) (\<lambda>vis.
       bnd (map_err replay_db_err (select (\<lambda>d. rev (sort_key sl_created_at
              (filter (\<lambda>l. sl_player l = phira_id u \<and> created_by l = sub a) (replay_share_links d)))))) (\<lambda>links.
       case fetch_all_rounds G None (Some (wrap32 (phira_id u))) of
         None \<Rightarrow> ret None
       | Some r \<Rightarrow>
           bnd (from_uds r) (\<lambda>rounds.
           ret (Some (phira_id u, owner_items (map_of (rev vis))
             (\<lambda>ruuid. map (\<lambda>l. (sl_id l, sl_expires_at l, sl_revoked_at l)) (filter (\<lambda>l. replay_round l = ruuid) links))
             (List.map_filter (meta_of_json R) rounds)))))))))"

definition list_replays ::
  "replay_libs \<Rightarrow> (nat \<Rightarrow> pmp) \<Rightarrow> int \<Rightarrow> (db option, api_error, round_meta list option) comp" where
  "list_replays R G player =
     with_db (
       bnd (map_err (\<lambda>_. internal) (select (\<lambda>d. map pmp_replay_id
              (filter (\<lambda>v. ro_player v = player \<and> visibility v \<notin> {''inherit'', ''public''}) (replay_overrides d))))) (\<lambda>hidden.
       case fetch_all_rounds G None (Some player) of
         None \<Rightarrow> ret None
       | Some r \<Rightarrow>
           bnd (from_uds r) (\<lambda>rounds.
           ret (Some (filter (\<lambda>m. rm_round_uuid m \<notin> set hidden) (List.map_filter (meta_of_json R) rounds))))))"

definition resolve_share :: "env \<Rightarrow> string \<Rightarrow> (db option, api_error, string \<times> int) comp" where
  "resolve_share E token = with_db (resolve_share_token E token)"

text \<open>The handlers of one replay: the player that the access check pins, or a refusal.\<close>

definition pinned ::
  "env \<Rightarrow> string \<Rightarrow> int \<Rightarrow> auth_principal option \<Rightarrow> string option \<Rightarrow> (int \<Rightarrow> (db, api_error, 'a) comp) \<Rightarrow> (db option, api_error, 'a) comp" where
  "pinned E ruuid requested a token f =
     with_db (
       bnd (resolve_replay_access E ruuid requested a token) (\<lambda>row.
       bnd (some_or row permission_denied) f))"

record replay_reply =
  rp_player :: int
  rp_meta :: round_meta
  rp_visibility :: "string option"
  rp_touches :: json
  rp_judges :: json

definition detail ::
  "env \<Rightarrow> replay_libs \<Rightarrow> (nat \<Rightarrow> pmp) \<Rightarrow> auth_principal option \<Rightarrow> string \<Rightarrow> int \<Rightarrow> string option \<Rightarrow> (db option, api_error, replay_reply) comp" where
  "detail E R G a ruuid player_id token =
     pinned E ruuid player_id a token (\<lambda>player.
       bnd (effective_visibility ruuid player) (\<lambda>vis.
       bnd (round_meta_of R (G 0) ruuid (wrap32 player)) (\<lambda>m.
       bnd (from_uds (fetch_batches (G 1) ''touches'' 0 1 (Some ruuid) (Some (wrap32 player)))) (\<lambda>touches.
       bnd (from_uds (fetch_batches (G 2) ''judges'' 0 1 (Some ruuid) (Some (wrap32 player)))) (\<lambda>judges.
       ret \<lparr>rp_player = player, rp_meta = m, rp_visibility = Some vis,
            rp_touches = summarize_batches R (batches_of touches), rp_judges = summarize_batches R (batches_of judges)\<rparr>)))))"

definition manifest ::
  "env \<Rightarrow> replay_libs \<Rightarrow> (nat \<Rightarrow> pmp) \<Rightarrow> auth_principal option \<Rightarrow> string \<Rightarrow> int \<Rightarrow> string option \<Rightarrow> (db option, api_error, replay_reply) comp" where
  "manifest E R G a ruuid player_id token =
     pinned E ruuid player_id a token (\<lambda>player.
       bnd (round_meta_of R (G 0) ruuid (wrap32 player)) (\<lambda>m.
       bnd (from_uds (fetch_all_batches (\<lambda>k. G (2 * k + 1)) ''touches'' ruuid (wrap32 player))) (\<lambda>touches.
       bnd (from_uds (fetch_all_batches (\<lambda>k. G (2 * k + 2)) ''judges'' ruuid (wrap32 player))) (\<lambda>judges.
       ret \<lparr>rp_player = player, rp_meta = m, rp_visibility = None,
            rp_touches = summarize_batches R touches, rp_judges = summarize_batches R judges\<rparr>))))"

definition payload_items :: "(json \<Rightarrow> json option) \<Rightarrow> json list \<Rightarrow> json list" where
  "payload_items f bs =
     List.map_filter f (concat (List.map_filter (\<lambda>b. Option.bind (get_field b ''payload'') as_array) bs))"

definition frames ::
  "env \<Rightarrow> replay_libs \<Rightarrow> (nat \<Rightarrow> pmp) \<Rightarrow> auth_principal option \<Rightarrow> string \<Rightarrow> int \<Rightarrow> string option \<Rightarrow>
   (db option, api_error, int \<times> json list \<times> json list) comp" where
  "frames E R G a ruuid player_id token =
     pinned E ruuid player_id a token (\<lambda>player.
       andthen (round_meta_of R (G 0) ruuid (wrap32 player))
      (bnd (from_uds (fetch_all_batches (\<lambda>k. G (2 * k + 1)) ''touches'' ruuid (wrap32 player))) (\<lambda>touches.
       bnd (from_uds (fetch_all_batches (\<lambda>k. G (2 * k + 2)) ''judges'' ruuid (wrap32 player))) (\<lambda>judges.
       ret (player, payload_items (touch_json R) touches, payload_items (judge_json R) judges)))))"

definition ensure_owner :: "string \<Rightarrow> int \<Rightarrow> uuid \<Rightarrow> (db, api_error, unit) comp" where
  "ensure_owner ruuid player u =
     bnd (map_err replay_db_err (select (override_of ruuid player))) (\<lambda>row.
       case row of
         Some v \<Rightarrow> ensure (owner_user_id v = Some u) permission_denied
       | None \<Rightarrow> bnd (find_user_by_id u) (\<lambda>x. ensure (map_option phira_id x = Some player) permission_denied))"

definition set_replay_visibility ::
  "uuid \<Rightarrow> auth_principal \<Rightarrow> string \<Rightarrow> int \<Rightarrow> string \<Rightarrow> (db option, api_error, replay_override) comp" where
  "set_replay_visibility i a ruuid player vis =
     andthen (ensure (vis \<in> set VISIBILITIES) (api_error_new ReplayVisibilityInvalid ''invalid replay visibility''))
       (with_db (andthen (ensure_owner ruuid player (sub a)) (set_visibility i ruuid player (sub a) vis)))"

definition create_share ::
  "env \<Rightarrow> uuid \<Rightarrow> string \<Rightarrow> auth_principal \<Rightarrow> string \<Rightarrow> int \<Rightarrow> instant option \<Rightarrow> (db option, api_error, share_link \<times> string) comp" where
  "create_share E i random a ruuid player expires =
     with_db (andthen (ensure_owner ruuid player (sub a)) (create_share_link (libs_of E) i random ruuid player (sub a) expires))"

definition revoke_share :: "auth_principal \<Rightarrow> string \<Rightarrow> uuid \<Rightarrow> int \<Rightarrow> (db option, api_error, unit) comp" where
  "revoke_share a ruuid link player = with_db (andthen (ensure_owner ruuid player (sub a)) (revoke_share_link link))"

section \<open>The viewer stream\<close>

definition replay_ws ::
  "env \<Rightarrow> auth_principal option \<Rightarrow> string \<Rightarrow> string option \<Rightarrow> int option \<Rightarrow> (db option, api_error, int) comp" where
  "replay_ws E a ruuid token player =
     with_db (
       bnd (case (token, player, a) of
              (Some _, _, _) \<Rightarrow> ret (unwrap_or player 0)
            | (None, Some p, _) \<Rightarrow> ret p
            | (None, None, Some pr) \<Rightarrow> bnd (find_user_by_id (sub pr)) (\<lambda>u. ret (unwrap_or (map_option phira_id u) 0))
            | (None, None, None) \<Rightarrow> throw (api_error_new ReplayPlayerRequired ''replay player_id required'')) (\<lambda>requested.
       bnd (resolve_replay_access E ruuid requested a token) (\<lambda>row.
       bnd (some_or row permission_denied) (\<lambda>p. ret (wrap32 p)))))"

datatype ws_message = WsText string | WsClose | WsBroken | WsOther

definition ws_error :: "string \<Rightarrow> json" where
  "ws_error m = JObj [(''type'', JStr ''error''), (''message'', JStr m)]"

definition ws_batches :: "string \<Rightarrow> json list \<Rightarrow> int \<Rightarrow> json" where
  "ws_batches stream bs last_seq =
     JObj [(''type'', JStr ''batches''), (''stream'', JStr stream), (''batches'', JArr bs), (''last_sequence'', JInt last_seq),
       (''done'', JBool (bs = []))]"

text \<open>What the task sends for the messages it receives; \<open>k\<close> counts the commands sent to the server.\<close>

fun replay_ws_task ::
  "(string \<Rightarrow> json option) \<Rightarrow> (nat \<Rightarrow> pmp) \<Rightarrow> string \<Rightarrow> int \<Rightarrow> nat \<Rightarrow> int \<Rightarrow> ws_message list \<Rightarrow> json list" where
  "replay_ws_task parse G ruuid player k since [] = []"
| "replay_ws_task parse G ruuid player k since (WsClose # ms) = []"
| "replay_ws_task parse G ruuid player k since (WsBroken # ms) = []"
| "replay_ws_task parse G ruuid player k since (WsOther # ms) = replay_ws_task parse G ruuid player k since ms"
| "replay_ws_task parse G ruuid player k since (WsText t # ms) =
     (case parse t of
        None \<Rightarrow> ws_error ''invalid json'' # replay_ws_task parse G ruuid player k since ms
      | Some v \<Rightarrow>
          let typ = unwrap_or (string_field v ''type'') []; stream = unwrap_or (string_field v ''stream'') ''touches'' in
          if typ = ''close'' then []
          else if typ \<noteq> ''fetch'' then ws_error ''expected fetch'' # replay_ws_task parse G ruuid player k since ms
          else if stream \<noteq> ''touches'' \<and> stream \<noteq> ''judges''
          then ws_error ''stream must be touches|judges'' # replay_ws_task parse G ruuid player k since ms
          else
            let from = unwrap_or (int_field v ''since'') since in
            case fetch_batches (G k) stream from MAX_PAGE (Some ruuid) (Some player) of
              Inl e \<Rightarrow> [ws_error (uds_error_text e)]
            | Inr page \<Rightarrow>
                let bs = batches_of page; n = max_or from (sequences bs) in
                if bs = [] then [ws_batches stream bs n]
                else ws_batches stream bs n # replay_ws_task parse G ruuid player (Suc k) n ms)"

section \<open>The access policy\<close>

text \<open>Who may see the replay of player \<open>p\<close> in a round: everybody while it is public; Root; the owner of the
  override; the player; friends of the owner, or users that the access list allows, if the override
  says so.\<close>

definition shown_as :: "db \<Rightarrow> string \<Rightarrow> int \<Rightarrow> string" where
  "shown_as d ruuid p =
     (case override_of ruuid p d of Some v \<Rightarrow> if visibility v = ''inherit'' then ''public'' else visibility v | None \<Rightarrow> ''public'')"

definition may_view :: "db \<Rightarrow> string \<Rightarrow> int \<Rightarrow> auth_principal option \<Rightarrow> bool" where
  "may_view d ruuid p requester \<longleftrightarrow>
     shown_as d ruuid p = ''public'' \<or>
     (\<exists>a v. requester = Some a \<and> override_of ruuid p d = Some v \<and>
       (is_root a \<or> owner_user_id v = Some (sub a) \<or>
        (\<exists>u. find (\<lambda>u. u_id u = sub a) (users d) = Some u \<and> phira_id u = p) \<or>
        visibility v = ''friends'' \<and> friends_rows d (unwrap_or (owner_user_id v) 0) (sub a) \<or>
        visibility v = ''custom'' \<and> acl_effect (ro_id v) (sub a) d = Some ''allow''))"

lemma override_outcomes [simp]: "override_of ruuid p (d\<lparr>outcomes := xs\<rparr>) = override_of ruuid p d"
  by (simp add: override_of_def)

lemma acl_outcomes [simp]: "acl_effect i u (d\<lparr>outcomes := xs\<rparr>) = acl_effect i u d"
  by (simp add: acl_effect_def)

lemma list_friends_runs:
  assumes "list_friends u d = (Inr fs, d')" and "social_ok d"
  shows "v \<in> set fs \<longleftrightarrow> friends_rows d u v"
proof -
  from assms(1) have "fs = map (\<lambda>p. if fst p = u then snd p else fst p) (filter (\<lambda>p. fst p = u \<or> snd p = u) (friendships d))"
    by (auto simp: list_friends_def runs dest!: select_InrD)
  then show ?thesis using friend_listed [OF assms(2)] by simp
qed

lemma effective_runs:
  "effective_visibility ruuid p d = (Inr vis, d1) \<Longrightarrow> vis = shown_as d ruuid p \<and> (\<exists>xs. d1 = d\<lparr>outcomes := xs\<rparr>)"
  by (auto simp: effective_visibility_def shown_as_def runs visibility_defs split: option.splits dest!: select_InrD)

lemma find_user_runs:
  "find_user_by_id i d = (Inr u, d1) \<Longrightarrow> u = find (\<lambda>u. u_id u = i) (users d) \<and> (\<exists>xs. d1 = d\<lparr>outcomes := xs\<rparr>)"
  by (auto simp: find_user_by_id_def runs dest!: select_InrD)

lemma get_override_runs:
  "get_override ruuid p d = (Inr v, d1) \<Longrightarrow> v = override_of ruuid p d \<and> (\<exists>xs. d1 = d\<lparr>outcomes := xs\<rparr>)"
  by (auto simp: get_override_def runs dest!: select_InrD)

lemma hidden_override:
  assumes "shown_as d ruuid p \<noteq> ''public''"
  obtains v where "override_of ruuid p d = Some v" and "visibility v = shown_as d ruuid p"
  using assms by (auto simp: shown_as_def split: option.splits if_splits)

lemma user_access_spec:
  assumes run: "user_access ruuid p vis a d = (Inr ok, d')" and soc: "social_ok d" and a: "\<not> is_root a"
    and v: "override_of ruuid p d = Some v"
  shows "ok \<longleftrightarrow> owner_user_id v = Some (sub a) \<or>
    (\<exists>u. find (\<lambda>u. u_id u = sub a) (users d) = Some u \<and> phira_id u = p) \<or>
    vis = ''friends'' \<and> friends_rows d (unwrap_or (owner_user_id v) 0) (sub a) \<or>
    vis = ''custom'' \<and> acl_effect (ro_id v) (sub a) d = Some ''allow''"
proof (cases "owner_user_id v = Some (sub a)")
  case True
  with run v show ?thesis by (auto simp: user_access_def runs dest!: get_override_runs)
next
  case False
  let ?me = "find (\<lambda>u. u_id u = sub a) (users d)"
  from run False v a obtain xs where rest: "(if map_option phira_id ?me = Some p then ret True
       else if vis = VISIBILITY_FRIENDS then bnd (list_friends (unwrap_or (owner_user_id v) 0)) (\<lambda>fs. ret (sub a \<in> set fs))
       else if vis = VISIBILITY_UNLISTED then ret False else if vis = VISIBILITY_PRIVATE then ret False
       else if vis = VISIBILITY_CUSTOM
       then bnd (map_err replay_db_err (select (acl_effect (ro_id v) (sub a)))) (\<lambda>acl. ret (acl = Some ''allow''))
       else ret False) (d\<lparr>outcomes := xs\<rparr>) = (Inr ok, d')"
    by (auto simp: user_access_def requester_phira_id_def bnd_runs ret_runs cong: if_cong dest!: get_override_runs find_user_runs)
  consider (me) "map_option phira_id ?me = Some p" | (friends) "map_option phira_id ?me \<noteq> Some p" "vis = ''friends''"
    | (custom) "map_option phira_id ?me \<noteq> Some p" "vis = ''custom''"
    | (other) "map_option phira_id ?me \<noteq> Some p" "vis \<noteq> ''friends''" "vis \<noteq> ''custom''" by blast
  then show ?thesis
  proof cases
    case me
    with rest show ?thesis by (auto simp: ret_def)
  next
    case friends
    then have "bnd (list_friends (unwrap_or (owner_user_id v) 0)) (\<lambda>fs. ret (sub a \<in> set fs)) (d\<lparr>outcomes := xs\<rparr>) = (Inr ok, d')"
      using rest by (auto simp: visibility_defs split: if_splits)
    then show ?thesis using friends False soc by (auto simp: runs list_friends_runs friends_rows_def)
  next
    case custom
    with rest False show ?thesis by (auto simp: visibility_defs bnd_runs ret_runs split: if_splits dest!: select_InrD)
  next
    case other
    with rest False show ?thesis by (auto simp: visibility_defs ret_def split: if_splits)
  qed
qed

lemma check_pair_access_spec:
  assumes run: "check_pair_access ruuid p requester d = (Inr ok, d')" and soc: "social_ok d"
  shows "ok \<longleftrightarrow> may_view d ruuid p requester"
proof -
  from run obtain xs where rest: "(if shown_as d ruuid p = VISIBILITY_PUBLIC then ret True
     else case requester of None \<Rightarrow> ret False
     | Some a \<Rightarrow> if is_root a then ret True else user_access ruuid p (shown_as d ruuid p) a) (d\<lparr>outcomes := xs\<rparr>) = (Inr ok, d')"
    by (auto simp: check_pair_access_def bnd_runs dest!: effective_runs)
  show ?thesis
  proof (cases "shown_as d ruuid p = ''public''")
    case True
    with rest show ?thesis by (auto simp: may_view_def visibility_defs ret_def)
  next
    case False
    then obtain v where v: "override_of ruuid p d = Some v" "visibility v = shown_as d ruuid p" by (rule hidden_override)
    show ?thesis
    proof (cases "\<exists>a. requester = Some a \<and> \<not> is_root a")
      case no: False
      with rest False v show ?thesis by (auto simp: may_view_def visibility_defs ret_def split: option.splits)
    next
      case True
      then obtain a where a: "requester = Some a" "\<not> is_root a" by blast
      with rest False have "user_access ruuid p (shown_as d ruuid p) a (d\<lparr>outcomes := xs\<rparr>) = (Inr ok, d')"
        by (simp add: visibility_defs)
      from user_access_spec [OF this _ a(2)] soc v a False show ?thesis by (auto simp: may_view_def friends_rows_def)
    qed
  qed
qed

text \<open>C5: access to a replay follows the policy. Without a share token an answered request is granted,
  for the player it names, exactly if the policy allows the requester to see that replay; with a
  token it is granted exactly for the round and the player of a link with that token that is neither
  revoked nor expired, and the player named in the request does not matter.\<close>

theorem replay_access_policy:
  assumes "resolve_replay_access E ruuid p requester token d = (Inr x, d')" and "social_ok d"
  shows "case token of
      None \<Rightarrow> x = (if may_view d ruuid p requester then Some p else None)
    | Some t \<Rightarrow> \<exists>l \<in> set (replay_share_links d). token_hash l = hash_token (libs_of E) t \<and> sl_revoked_at l = None \<and>
        (\<forall>e. sl_expires_at l = Some e \<longrightarrow> now_of E \<le> e) \<and> x = (if replay_round l = ruuid then Some (sl_player l) else None)"
proof (cases token)
  case None
  with assms obtain ok d1 where "check_pair_access ruuid p requester d = (Inr ok, d1)" and "x = (if ok then Some p else None)"
    by (auto simp: resolve_replay_access_def runs split: if_splits)
  with None assms(2) show ?thesis using check_pair_access_spec by simp
next
  case (Some t)
  with assms(1) obtain rp d1 where r: "resolve_share_token E t d = (Inr rp, d1)" and x: "x = (if fst rp \<noteq> ruuid then None else Some (snd rp))"
    by (auto simp: resolve_replay_access_def runs)
  let ?row = "find (\<lambda>l. token_hash l = hash_token (libs_of E) t) (replay_share_links d)"
  from r obtain d2 where "(case ?row of None \<Rightarrow> throw (api_error_new ReplayShareInvalid ''invalid share token'')
       | Some l \<Rightarrow>
           if sl_revoked_at l \<noteq> None then throw (api_error_new ReplayShareRevoked ''share link revoked'')
           else if \<exists>x. sl_expires_at l = Some x \<and> x < now_of E
           then throw (api_error_new ReplayShareExpired ''share link expired'')
           else ret (replay_round l, sl_player l)) d2 = (Inr rp, d1)"
    by (auto simp: resolve_share_token_def bnd_runs dest!: select_InrD)
  then obtain l where l: "?row = Some l" "sl_revoked_at l = None"
      "\<not> (\<exists>e. sl_expires_at l = Some e \<and> e < now_of E)" "rp = (replay_round l, sl_player l)"
    by (cases ?row) (auto simp: throw_def ret_def split: if_splits)
  from l(1) have "l \<in> set (replay_share_links d)" "token_hash l = hash_token (libs_of E) t" using find_SomeD by fastforce+
  with Some l x show ?thesis by (auto intro!: bexI [of _ l])
qed

definition hidden_db :: db where
  "hidden_db = demo_db\<lparr>replay_overrides := [\<lparr>ro_id = 1, pmp_replay_id = ''r'', ro_player = 700, owner_user_id = Some 7,
     visibility = ''private'', ro_updated_at = 0\<rparr>]\<rparr>"

lemma hidden_db_facts:
  "outcomes hidden_db = []" "social_ok hidden_db" "override_of ''r'' 4294967996 hidden_db = None"
  "override_of ''r'' 700 hidden_db = Some (hd (replay_overrides hidden_db))"
  by (simp_all add: hidden_db_def demo_db_def empty_db_def social_ok_def override_of_def)

lemma hidden_db_private: "\<not> may_view hidden_db ''r'' 700 None"
  by (simp add: may_view_def shown_as_def override_of_def hidden_db_def)

theorem replay_access_policy_witness:
  "resolve_replay_access demo_env ''r'' 700 None None hidden_db = (Inr None, hidden_db)"
proof -
  obtain r t where run: "resolve_replay_access demo_env ''r'' 700 None None hidden_db = (r, t)"
    by (cases "resolve_replay_access demo_env ''r'' 700 None None hidden_db")
  then obtain x where "r = Inr x" "t = hidden_db"
    using hidden_db_facts
    by (auto simp: resolve_replay_access_def check_pair_access_def effective_visibility_def bnd_def ret_def map_err_def visibility_defs
        split: option.splits if_splits)
  with run replay_access_policy [of demo_env "''r''" 700 None None hidden_db x hidden_db] hidden_db_private hidden_db_facts(2)
  show ?thesis by simp
qed

section \<open>The public list\<close>

text \<open>The public list shows public replays only. Every round that the list of a player shows is public
  for that player.\<close>

theorem listing_public:
  assumes "list_replays R G p (Some d) = (Inr (Some ms), t)" and "m \<in> set ms"
  shows "shown_as d (rm_round_uuid m) p = ''public''"
proof -
  let ?hidden = "map pmp_replay_id (filter (\<lambda>v. ro_player v = p \<and> visibility v \<notin> {''inherit'', ''public''}) (replay_overrides d))"
  from assms have out: "rm_round_uuid m \<notin> set ?hidden"
    by (auto simp: list_replays_def runs split: option.splits dest!: select_InrD)
  show ?thesis
  proof (rule ccontr)
    assume no: "\<not> ?thesis"
    then obtain v where v: "override_of (rm_round_uuid m) p d = Some v" "visibility v = shown_as d (rm_round_uuid m) p"
      by (rule hidden_override)
    then have "v \<in> set (replay_overrides d)" "pmp_replay_id v = rm_round_uuid m" "ro_player v = p"
      using find_SomeD [OF v(1) [unfolded override_of_def]] by auto
    moreover have "visibility v \<notin> {''inherit'', ''public''}" using v no by (auto simp: shown_as_def)
    ultimately show False using out by force
  qed
qed

section \<open>The viewer is pinned\<close>

definition about_replay :: "string \<Rightarrow> int \<Rightarrow> json \<Rightarrow> bool" where
  "about_replay ruuid p params \<longleftrightarrow>
     get_field params ''round_uuid'' = Some (JStr ruuid) \<and> get_field params ''player_id'' = Some (JInt p)"

lemma fetch_pinned:
  assumes "\<And>cmd params. about_replay ruuid p params \<Longrightarrow> G cmd params = H cmd params"
  shows "fetch_batches G stream since maxn (Some ruuid) (Some p) = fetch_batches H stream since maxn (Some ruuid) (Some p)"
  unfolding fetch_batches_def by (rule assms) (simp add: about_replay_def optional_param_def set_param_def get_field_def)


section \<open>The whole inventory\<close>

text \<open>A server that pages a list of rounds: the page at an offset, with the offset of the next page or
  without.\<close>

definition pages_rounds :: "(nat \<Rightarrow> pmp) \<Rightarrow> string option \<Rightarrow> int option \<Rightarrow> json list \<Rightarrow> bool" where
  "pages_rounds G ruuid p rs \<longleftrightarrow>
     (\<forall>k n. \<exists>v. G k ''persist.rounds'' (rounds_page ruuid p (int n)) = Inr v \<and> items_of v = take 1000 (drop n rs) \<and>
        Option.bind (get_field v ''next_offset'') as_i64 \<in> {None, Some (int (n + length (items_of v)))})"

lemma rounds_from_complete:
  assumes "pages_rounds G ruuid p rs" and "length rs < 2 ^ 62" and "n \<le> length rs"
  shows "rounds_from G ruuid p k (int n) found = Some (Inr (found @ drop n rs))"
  using assms(3)
proof (induction "length rs - n" arbitrary: n k found rule: less_induct)
  case less
  from assms(1) obtain v where v: "G k ''persist.rounds'' (rounds_page ruuid p (int n)) = Inr v" "items_of v = take 1000 (drop n rs)"
      "Option.bind (get_field v ''next_offset'') as_i64 \<in> {None, Some (int (n + length (items_of v)))}"
    unfolding pages_rounds_def by blast
  let ?m = "n + length (items_of v)"
  have "items_of v = take (length (items_of v)) (drop n rs)" using v(2) by (simp add: min_def)
  then have m: "?m \<le> length rs" "drop n rs = items_of v @ drop ?m rs"
    using less.prems v(2) append_take_drop_id [of "length (items_of v)" "drop n rs"] by (auto simp: add.commute)
  have w: "wrap64 (int n + 1000) = int n + 1000" using less.prems assms(2) by (simp add: wrap64_def)
  show ?case
  proof (cases "next_round_offset v (int n)")
    case None
    then have "length (items_of v) < 1000" using v(2) by (auto simp: next_round_offset_def Let_def min_def split: option.splits if_splits)
    then have "drop ?m rs = []" using v(2) by (auto simp: min_def split: if_splits)
    with None v(1) m(2) show ?thesis by (subst rounds_from.simps) simp
  next
    case (Some x)
    then have x: "x = int ?m" "0 < length (items_of v)"
      using v(3) w by (auto simp: next_round_offset_def Let_def split: option.splits if_splits)
    have "rounds_from G ruuid p (Suc k) (int ?m) (found @ items_of v) = Some (Inr ((found @ items_of v) @ drop ?m rs))"
      by (rule less.hyps) (use x(2) m(1) in linarith)+
    with Some x v(1) m(2) show ?thesis by (subst rounds_from.simps) simp
  qed
qed

text \<open>C31: the inventory of a player is fetched completely. Against a server that pages a fixed list of
  rounds, by next offsets or by full pages, the loop ends and returns the whole list in order, however
  many pages it takes.\<close>

theorem fetch_all_rounds_complete:
  assumes "pages_rounds G ruuid p rs" and "length rs < 2 ^ 62"
  shows "fetch_all_rounds G ruuid p = Some (Inr rs)"
  using rounds_from_complete [OF assms, of 0 0 "[]"] by (simp add: fetch_all_rounds_def)

section \<open>Truncated player ids\<close>

lemma wrap32_shift: "wrap32 (p + 4294967296) = wrap32 p"
proof -
  have "(p + 4294967296 + 2147483648) mod 4294967296 = (p + 2147483648 + 4294967296) mod 4294967296" by (simp only: ac_simps)
  then show ?thesis unfolding wrap32_def by (simp only: mod_add_self2)
qed

lemma pinned_refused:
  "check_pair_access ruuid p a d = (Inr False, d) \<Longrightarrow> pinned E ruuid p a None f (Some d) = (Inl permission_denied, Some d)"
  by (simp add: pinned_def with_db_def resolve_replay_access_def bnd_def ret_def some_or_def throw_def)

lemma pinned_granted:
  "check_pair_access ruuid p a d = (Inr True, d) \<Longrightarrow> pinned E ruuid p a None f (Some d) = (case f p d of (r, t) \<Rightarrow> (r, Some t))"
  by (simp add: pinned_def with_db_def resolve_replay_access_def bnd_def ret_def some_or_def split: prod.split)

text \<open>A hidden replay is served under another player id. The access check looks up the full id of the
  player while the game server is asked for its lower 32 bits: the frames of a replay that is hidden
  from the public are refused under the player's id and delivered, without any credentials, under
  that id plus 2^32.\<close>

theorem hidden_frames_exposed:
  assumes "outcomes d = []" and "social_ok d" and "i32_range p" and "\<not> may_view d ruuid p None"
    and "override_of ruuid (p + 4294967296) d = None"
    and "round_meta_of R (G 0) ruuid p d = (Inr m, d)"
    and "fetch_all_batches (\<lambda>k. G (2 * k + 1)) ''touches'' ruuid p = Inr ts"
    and "fetch_all_batches (\<lambda>k. G (2 * k + 2)) ''judges'' ruuid p = Inr js"
  shows "frames E R G None ruuid p None (Some d) = (Inl permission_denied, Some d) \<and>
    frames E R G None ruuid (p + 4294967296) None (Some d) =
      (Inr (p + 4294967296, payload_items (touch_json R) ts, payload_items (judge_json R) js), Some d)"
proof
  have hid: "shown_as d ruuid p \<noteq> ''public''" using assms(4) by (auto simp: may_view_def)
  then obtain v where "override_of ruuid p d = Some v" by (rule hidden_override)
  with assms(1) have "effective_visibility ruuid p d = (Inr (shown_as d ruuid p), d)"
    by (simp add: effective_visibility_def bnd_def ret_def map_err_def visibility_defs shown_as_def)
  with hid have "check_pair_access ruuid p None d = (Inr False, d)"
    by (simp add: check_pair_access_def bnd_def ret_def VISIBILITY_PUBLIC_def)
  then show "frames E R G None ruuid p None (Some d) = (Inl permission_denied, Some d)"
    unfolding frames_def by (rule pinned_refused)
  have w: "wrap32 (p + 4294967296) = p" using assms(3) by (simp add: wrap32_shift wrap32_id)
  have "check_pair_access ruuid (p + 4294967296) None d = (Inr True, d)"
    using assms(1,5) by (simp add: check_pair_access_def effective_visibility_def bnd_def ret_def map_err_def)
  then show "frames E R G None ruuid (p + 4294967296) None (Some d) =
      (Inr (p + 4294967296, payload_items (touch_json R) ts, payload_items (judge_json R) js), Some d)"
    unfolding frames_def
    by (simp only: pinned_granted andthen_def bnd_def w assms(6-8) from_uds_def from_result_def ret_def prod.case sum.case)
qed

section \<open>Concrete runs\<close>

text \<open>A server with one round of player 700, and its reading.\<close>

definition one_round :: "nat \<Rightarrow> pmp" where
  "one_round k cmd params =
     (if cmd = ''persist.rounds'' then Inr (JArr (if get_field params ''offset'' \<in> {None, Some (JInt 0)} then [JStr ''r''] else []))
      else Inr (JArr [JObj [(''payload'', JArr [JInt 1])]]))"

definition plain_replay :: replay_libs where
  "plain_replay = \<lparr>meta_of_json = (\<lambda>v. map_option (\<lambda>r. \<lparr>rm_round_uuid = r, rm_chart_id = 1, rm_chart_name = [], rm_room_id = [],
       rm_players = [700], rm_started_at = 0, rm_finished_at = None\<rparr>) (as_string v)), touch_json = Some, judge_json = Some,
     as_f64 = (\<lambda>_. None), f64_json = (\<lambda>_. JNull)\<rparr>"

lemma one_round_pages: "pages_rounds one_round None (Some 700) [JStr ''r'']"
proof -
  have "one_round k ''persist.rounds'' (rounds_page None (Some 700) (int n)) = Inr (JArr (take 1000 (drop n [JStr ''r''])))" for k n
    by (cases n) (auto simp: one_round_def rounds_page_def optional_param_def set_param_def get_field_def)
  then show ?thesis unfolding pages_rounds_def by (simp add: items_of_def as_array_def get_field_def)
qed

theorem fetch_all_rounds_complete_witness: "fetch_all_rounds one_round None (Some 700) = Some (Inr [JStr ''r''])"
  using fetch_all_rounds_complete [OF one_round_pages] by simp

theorem listing_public_witness:
  "\<exists>ms t. list_replays plain_replay one_round 700 (Some demo_db) = (Inr (Some ms), t) \<and> map rm_round_uuid ms = [''r''] \<and>
    shown_as demo_db ''r'' 700 = ''public''"
proof -
  have "fetch_all_rounds one_round None (Some 700) = Some (Inr [JStr ''r''])"
    using rounds_from_complete [OF one_round_pages, of 0 0 "[]"] by (simp add: fetch_all_rounds_def)
  then obtain ms t where "list_replays plain_replay one_round 700 (Some demo_db) = (Inr (Some ms), t)" "map rm_round_uuid ms = [''r'']"
    by (auto simp: list_replays_def with_db_def bnd_def map_err_def from_uds_def from_result_def ret_def plain_replay_def map_filter_def
        demo_db_def empty_db_def)
  moreover from this have "shown_as demo_db ''r'' 700 = ''public''"
    using listing_public [of plain_replay one_round 700 demo_db ms t "hd ms"] by auto
  ultimately show ?thesis by (intro exI [of _ ms] exI [of _ t] conjI)
qed


lemma one_batch: "fetch_all_batches (\<lambda>k. one_round (f k)) st ''r'' 700 = Inr [JObj [(''payload'', JArr [JInt 1])]]"
  if "''persist.'' @ st \<noteq> ''persist.rounds''"
  using that unfolding fetch_all_batches_def
  by (subst batches_from.simps) (simp add: fetch_batches_def one_round_def batches_of_def as_array_def Let_def)

theorem hidden_frames_exposed_witness:
  "frames demo_env plain_replay one_round None ''r'' 700 None (Some hidden_db) = (Inl permission_denied, Some hidden_db) \<and>
   frames demo_env plain_replay one_round None ''r'' 4294967996 None (Some hidden_db) = (Inr (4294967996, [JInt 1], [JInt 1]), Some hidden_db)"
proof -
  obtain m where m: "round_meta_of plain_replay (one_round 0) ''r'' 700 hidden_db = (Inr m, hidden_db)"
    by (simp add: round_meta_of_def fetch_rounds_def one_round_def from_uds_def from_result_def bnd_def some_or_def ret_def plain_replay_def
        optional_param_def set_param_def get_field_def items_of_def as_array_def map_filter_def)
  have p: "payload_items (touch_json plain_replay) [JObj [(''payload'', JArr [JInt 1])]] = [JInt 1]"
    "payload_items (judge_json plain_replay) [JObj [(''payload'', JArr [JInt 1])]] = [JInt 1]"
    by (simp_all add: payload_items_def plain_replay_def map_filter_def get_field_def as_array_def)
  let ?ts = "[JObj [(''payload'', JArr [JInt 1])]]"
  show ?thesis
    using hidden_frames_exposed [of hidden_db 700 "''r''" plain_replay one_round m ?ts ?ts demo_env] hidden_db_facts hidden_db_private m
      one_batch [of "''touches''"] one_batch [of "''judges''"] p
    by (simp add: i32_range_def)
qed

end
