(* ===== verification/Preferences.thy ===== *)
theory Preferences
  imports Social
begin

text \<open>
  User preferences (\<^verbatim>\<open>preferences/\<close>): a JSON value per user and namespace with a revision that clients
  present when they write. A write is two statements, a read and an upsert, so that the steps of two
  clients can interleave.
\<close>

definition preference_db_err :: "sqlx_error \<Rightarrow> api_error" where
  "preference_db_err = db_err (api_error_new ResourceNotFound ''preference not found'')"

definition preference_of :: "uuid \<Rightarrow> string \<Rightarrow> db \<Rightarrow> preference_row option" where
  "preference_of u ns d = find (\<lambda>p. pr_user_id p = u \<and> pr_namespace p = ns) (user_preferences d)"

definition get_preference :: "uuid \<Rightarrow> string \<Rightarrow> (db, api_error, preference_row option) comp" where
  "get_preference u ns = map_err preference_db_err (select (preference_of u ns))"

definition preference_namespaces :: "string list" where
  "preference_namespaces = [''common'', ''ppf'', ''panel'', ''experiments'']"

text \<open>\<open>INSERT ... ON CONFLICT (user_id, namespace) DO UPDATE ... RETURNING\<close>.\<close>

definition put_preference :: "uuid \<Rightarrow> string \<Rightarrow> int \<Rightarrow> json \<Rightarrow> preference_row statement" where
  "put_preference u ns revision data d =
     (let row = \<lparr>pr_user_id = u, pr_namespace = ns, pr_revision = revision, pr_data = data, pr_updated_at = clock d\<rparr> in
      if ns \<notin> set preference_namespaces then Inl CheckViolation
      else if preference_of u ns d \<noteq> None
      then Inr (row, d\<lparr>user_preferences :=
        map (\<lambda>p. if pr_user_id p = u \<and> pr_namespace p = ns then row else p) (user_preferences d)\<rparr>)
      else if \<not> known_user d u then Inl ForeignKeyViolation
      else Inr (row, d\<lparr>user_preferences := user_preferences d @ [row]\<rparr>))"

text \<open>The two halves of an upsert: the revision that the caller may write, and the write.\<close>

definition revision_mismatch :: "int \<Rightarrow> api_error" where
  "revision_mismatch r =
     with_details ResourceConflict ''preference revision mismatch (optimistic concurrency)'' (JObj [(''current_revision'', JInt r)])"

definition upsert_check :: "uuid \<Rightarrow> string \<Rightarrow> int option \<Rightarrow> (db, api_error, int) comp" where
  "upsert_check u ns expected =
     bnd (get_preference u ns) (\<lambda>current.
       let revision = (case current of Some p \<Rightarrow> pr_revision p | None \<Rightarrow> 0) in
       if \<exists>e. expected = Some e \<and> e \<noteq> revision then throw (revision_mismatch revision) else ret revision)"

definition upsert_write :: "uuid \<Rightarrow> string \<Rightarrow> json \<Rightarrow> int \<Rightarrow> (db, api_error, preference_row) comp" where
  "upsert_write u ns data revision = map_err preference_db_err (query (put_preference u ns (wrap64 (revision + 1)) data))"

definition upsert_preference :: "uuid \<Rightarrow> string \<Rightarrow> json \<Rightarrow> int option \<Rightarrow> (db, api_error, preference_row) comp" where
  "upsert_preference u ns data expected = bnd (upsert_check u ns expected) (upsert_write u ns data)"

definition delete_preference :: "uuid \<Rightarrow> string \<Rightarrow> (db, api_error, unit) comp" where
  "delete_preference u ns =
     map_err preference_db_err (execute (\<lambda>d.
       d\<lparr>user_preferences := filter (\<lambda>p. \<not> (pr_user_id p = u \<and> pr_namespace p = ns)) (user_preferences d)\<rparr>))"

section \<open>Endpoints\<close>

definition validate_namespace :: "string \<Rightarrow> api_error + unit" where
  "validate_namespace ns =
     (if ns \<in> set preference_namespaces then Inr () else Inl (validation ''namespace must be common|ppf|panel|experiments''))"

definition preference_json :: "libs \<Rightarrow> (instant \<Rightarrow> string) \<Rightarrow> preference_row \<Rightarrow> json" where
  "preference_json L time p =
     JObj [(''user_id'', JStr (uuid_text L (pr_user_id p))), (''namespace'', JStr (pr_namespace p)), (''revision'', JInt (pr_revision p)),
       (''data'', pr_data p), (''updated_at'', JStr (time (pr_updated_at p)))]"

text \<open>The handlers of a namespace: Root and unknown namespaces are refused before the database is asked for.\<close>

definition in_namespace :: "auth_principal \<Rightarrow> string \<Rightarrow> (db, api_error, 'a) comp \<Rightarrow> (db option, api_error, 'a) comp" where
  "in_namespace a ns m =
     (if is_root a then throw permission_denied else andthen (from_result (validate_namespace ns)) (with_db m))"

definition get_one :: "libs \<Rightarrow> (instant \<Rightarrow> string) \<Rightarrow> auth_principal \<Rightarrow> string \<Rightarrow> (db option, api_error, json) comp" where
  "get_one L time a ns =
     in_namespace a ns (bnd (get_preference (sub a) ns) (\<lambda>row.
       bnd (some_or row (not_found ''preferences'')) (\<lambda>p. ret (preference_json L time p))))"

definition update_one ::
  "libs \<Rightarrow> (instant \<Rightarrow> string) \<Rightarrow> auth_principal \<Rightarrow> string \<Rightarrow> json \<Rightarrow> int option \<Rightarrow> (db option, api_error, json) comp" where
  "update_one L time a ns data base_revision =
     in_namespace a ns (bnd (upsert_preference (sub a) ns data base_revision) (\<lambda>p. ret (preference_json L time p)))"

definition delete_one :: "auth_principal \<Rightarrow> string \<Rightarrow> (db option, api_error, unit) comp" where
  "delete_one a ns = in_namespace a ns (delete_preference (sub a) ns)"

section \<open>Revisions\<close>

definition revision_of :: "uuid \<Rightarrow> string \<Rightarrow> db \<Rightarrow> int" where
  "revision_of u ns d = (case preference_of u ns d of Some p \<Rightarrow> pr_revision p | None \<Rightarrow> 0)"

lemma preference_outcomes [simp]: "preference_of u ns (d\<lparr>outcomes := xs\<rparr>) = preference_of u ns d"
  by (simp add: preference_of_def)

lemma find_replaced:
  assumes "find P xs = Some y" and "P z" and "\<And>x. P (if P x then z else x) = P x"
  shows "find P (map (\<lambda>x. if P x then z else x) xs) = Some z"
  using assms by (induction xs) (auto split: if_splits)

text \<open>After a write the reader finds exactly the row written, and the other rows are as before.\<close>

lemma put_get_preference:
  assumes "put_preference u ns r data d = Inr (row, d')"
  shows "row = \<lparr>pr_user_id = u, pr_namespace = ns, pr_revision = r, pr_data = data, pr_updated_at = clock d\<rparr> \<and>
    preference_of u ns d' = Some row \<and> ((v, ms) \<noteq> (u, ns) \<longrightarrow> preference_of v ms d' = preference_of v ms d)"
proof -
  let ?r = "\<lparr>pr_user_id = u, pr_namespace = ns, pr_revision = r, pr_data = data, pr_updated_at = clock d\<rparr>"
  have other: "find (\<lambda>p. pr_user_id p = v \<and> pr_namespace p = ms) (map (\<lambda>p. if pr_user_id p = u \<and> pr_namespace p = ns then ?r else p) xs) =
      find (\<lambda>p. pr_user_id p = v \<and> pr_namespace p = ms) xs" if "(v, ms) \<noteq> (u, ns)" for xs
    using that by (induction xs) auto
  show ?thesis
  proof (cases "preference_of u ns d")
    case None
    with assms have "row = ?r" "d' = d\<lparr>user_preferences := user_preferences d @ [?r]\<rparr>"
      by (auto simp: put_preference_def Let_def split: if_splits)
    with None show ?thesis by (auto simp: preference_of_def find_append split: option.split)
  next
    case (Some p)
    with assms have "row = ?r" "d' = d\<lparr>user_preferences :=
        map (\<lambda>p. if pr_user_id p = u \<and> pr_namespace p = ns then ?r else p) (user_preferences d)\<rparr>"
      by (auto simp: put_preference_def Let_def split: if_splits)
    with Some other show ?thesis
      by (simp add: preference_of_def find_replaced [where P = "\<lambda>p. pr_user_id p = u \<and> pr_namespace p = ns"])
  qed
qed

lemma upsert_check_Inr:
  assumes "upsert_check u ns expected d = (Inr r, d1)"
  shows "r = revision_of u ns d \<and> expected \<in> {None, Some (revision_of u ns d)} \<and> (\<exists>xs. d1 = d\<lparr>outcomes := xs\<rparr>)"
  using assms
  by (cases expected) (auto simp: upsert_check_def get_preference_def revision_of_def runs Let_def split: if_splits dest!: select_InrD)

lemma upsert_check_state: "\<exists>xs. snd (upsert_check u ns expected d) = d\<lparr>outcomes := xs\<rparr>"
  using select_state [of "preference_of u ns" d]
  by (auto simp: upsert_check_def get_preference_def bnd_def map_err_def throw_def ret_def Let_def split: prod.splits sum.splits)

text \<open>A write of a preference that nobody interrupts is a compare-and-set. It succeeds only without a
  base revision or with the current one; the new row has the given data and the next revision, is
  what the next read returns, and no other preference of any user changes. With a stale base revision
  it fails and no table changes.\<close>

theorem upsert_compare_and_set:
  assumes "upsert_preference u ns data expected d = (r, d')"
  shows "case r of
      Inr row \<Rightarrow> expected \<in> {None, Some (revision_of u ns d)} \<and> pr_revision row = wrap64 (revision_of u ns d + 1) \<and> pr_data row = data \<and>
        preference_of u ns d' = Some row \<and> (\<forall>v ms. (v, ms) = (u, ns) \<or> preference_of v ms d' = preference_of v ms d)
    | Inl e \<Rightarrow> expected \<in> {None, Some (revision_of u ns d)} \<or> (\<exists>xs. d' = d\<lparr>outcomes := xs\<rparr>)"
proof (cases r)
  case (Inl e)
  show ?thesis
  proof (cases "\<exists>v d1. upsert_check u ns expected d = (Inr v, d1)")
    case True
    with Inl show ?thesis using upsert_check_Inr by fastforce
  next
    case False
    then have "d' = snd (upsert_check u ns expected d)"
      using assms by (auto simp: upsert_preference_def bnd_def split: prod.splits sum.splits)
    with Inl show ?thesis using upsert_check_state [of u ns expected d] by auto
  qed
next
  case (Inr row)
  with assms obtain v d1 where c: "upsert_check u ns expected d = (Inr v, d1)" and w: "upsert_write u ns data v d1 = (Inr row, d')"
    by (auto simp: upsert_preference_def runs)
  from upsert_check_Inr [OF c] obtain xs where d1: "d1 = d\<lparr>outcomes := xs\<rparr>" and v: "v = revision_of u ns d"
    "expected \<in> {None, Some (revision_of u ns d)}" by blast
  from w obtain ys where "put_preference u ns (wrap64 (v + 1)) data (d1\<lparr>outcomes := ys\<rparr>) = Inr (row, d')"
    by (auto simp: upsert_write_def runs dest!: query_InrD)
  note put_get_preference [OF this]
  with Inr v show ?thesis by (auto simp: d1)
qed

text \<open>The check and the write are two statements: two clients with the same base revision can both pass the
  check, and then both writes succeed with the same new revision; the data of the first is lost.\<close>

theorem preference_lost_update:
  assumes "outcomes d = []" and "known_user d u" and "ns \<in> set preference_namespaces"
  shows "\<exists>r ra d1 rb d2. upsert_check u ns (Some (revision_of u ns d)) d = (Inr r, d) \<and>
    upsert_write u ns da r d = (Inr ra, d1) \<and> upsert_write u ns db r d1 = (Inr rb, d2) \<and>
    pr_revision ra = pr_revision rb \<and> preference_of u ns d2 = Some rb \<and> pr_data rb = db"
proof -
  let ?r = "revision_of u ns d"
  have c: "upsert_check u ns (Some ?r) d = (Inr ?r, d)"
    using assms(1) by (simp add: upsert_check_def get_preference_def revision_of_def bnd_def map_err_def ret_def Let_def)
  have w: "\<exists>row d2. upsert_write u ns x ?r d1 = (Inr row, d2) \<and> outcomes d2 = [] \<and> known_user d2 u \<and>
      put_preference u ns (wrap64 (?r + 1)) x d1 = Inr (row, d2)" if "outcomes d1 = []" "known_user d1 u" for x d1
    using that assms(3) by (auto simp: upsert_write_def put_preference_def query_calm map_err_def known_user_def Let_def)
  from w [OF assms(1,2)] obtain ra d1 where a: "upsert_write u ns da ?r d = (Inr ra, d1)" "outcomes d1 = []" "known_user d1 u"
    "put_preference u ns (wrap64 (?r + 1)) da d = Inr (ra, d1)" by blast
  from w [OF a(2,3)] obtain rb d2 where b: "upsert_write u ns db ?r d1 = (Inr rb, d2)"
    "put_preference u ns (wrap64 (?r + 1)) db d1 = Inr (rb, d2)" by blast
  from a b c show ?thesis using put_get_preference [OF a(4)] put_get_preference [OF b(2)] by fastforce
qed

theorem upsert_compare_and_set_witness:
  "\<exists>row d'. upsert_preference 7 ''ppf'' (JInt 5) (Some 0) demo_db = (Inr row, d') \<and> pr_revision row = 1 \<and>
    preference_of 7 ''ppf'' d' = Some row"
proof -
  obtain r d' where run: "upsert_preference 7 ''ppf'' (JInt 5) (Some 0) demo_db = (r, d')"
    by (cases "upsert_preference 7 ''ppf'' (JInt 5) (Some 0) demo_db")
  then obtain row where r: "r = Inr row"
    by (auto simp: upsert_preference_def upsert_check_def upsert_write_def get_preference_def put_preference_def preference_of_def
        preference_namespaces_def known_user_def bnd_def map_err_def ret_def query_calm Let_def demo_db_def empty_db_def)
  have "revision_of 7 ''ppf'' demo_db = 0" by (simp add: revision_of_def preference_of_def demo_db_def empty_db_def)
  with run r show ?thesis using upsert_compare_and_set [of 7 "''ppf''" "JInt 5" "Some 0" demo_db r d'] by (simp add: wrap64_def)
qed

end
