(* ===== verification/Me.thy ===== *)
theory Me
  imports Phira_Routes Realtime Replay Preferences Config_Repo
begin

text \<open>
  What a signed-in user asks about itself (the \<^verbatim>\<open>/me\<close> endpoints of \<^verbatim>\<open>app.rs\<close>), the public endpoints
  (\<^verbatim>\<open>public/routes.rs\<close>) and the CORS layer. Replies are records of what the JSON holds. The HTTP libraries that
  parse a header value and build the list of origins are parameters.
\<close>

section \<open>The session probe\<close>

definition PPB_CAPABILITIES :: "string list" where
  "PPB_CAPABILITIES =
     [''rooms.v1'', ''replay.persist.v1'', ''room.chat.v1'', ''notifications.actions.v1'', ''rooms.admin.v1'', ''users.v1'',
      ''users.admin.v1'', ''groups.admin.v1'', ''config.manage.v1'', ''audit.v1'', ''logs.v1'', ''jobs.v1'', ''commands.v1'', ''charts.v1'',
      ''records.v1'', ''server.admin.v1'', ''plugins.admin.v1'', ''broadcast.v1'', ''pmp.console.v1'', ''phira-data.v1'', ''aggregator.v1'']"

record credential_summary =
  cd_user_id :: uuid
  cd_has_credential :: bool
  cd_state :: string
  cd_refresh_expires_at :: "instant option"
  cd_updated_at :: "instant option"

definition credential_state :: "uuid \<Rightarrow> (db, api_error, credential_summary) comp" where
  "credential_state u =
     bnd (load_phira_credential u) (\<lambda>row.
     ret (case row of
        Some c \<Rightarrow> \<lparr>cd_user_id = u, cd_has_credential = True, cd_state = pc_state c, cd_refresh_expires_at = Some (refresh_expires_at c),
                 cd_updated_at = Some (pc_updated_at c)\<rparr>
      | None \<Rightarrow> \<lparr>cd_user_id = u, cd_has_credential = False, cd_state = ''none'', cd_refresh_expires_at = None, cd_updated_at = None\<rparr>))"

record me_reply =
  me_user :: "user option"
  me_identities :: "identity list"
  me_credential :: "credential_summary option"
  me_permissions :: "string set"
  me_capabilities :: "string list"
  me_sid :: uuid
  me_client :: string
  me_created_at :: "instant option"
  me_csrf :: string

definition session_created_at :: "uuid \<Rightarrow> (db option, api_error, instant option) comp" where
  "session_created_at i s =
     (case s of
        None \<Rightarrow> (Inr None, s)
      | Some d \<Rightarrow>
          (case map_err (\<lambda>_. internal) (select (\<lambda>d. map_option s_created_at (find (\<lambda>r. s_id r = i) (sessions d)))) d of
             (r, d') \<Rightarrow> (r, Some d')))"

definition me :: "env \<Rightarrow> auth_principal \<Rightarrow> (db option, api_error, me_reply) comp" where
  "me E a =
     (let csrf = csrf_token_for (libs_of E) (sid a) (csrf_key (libs_of E) (jwt_secret (sec E))) in
      bnd (session_created_at (sid a)) (\<lambda>created.
      if is_root a then
        ret \<lparr>me_user = None, me_identities = [], me_credential = None, me_permissions = {ROOT_WILDCARD}, me_capabilities = PPB_CAPABILITIES,
             me_sid = sid a, me_client = show_client (client a), me_created_at = created, me_csrf = csrf\<rparr>
      else
        with_db (
          bnd (find_by_id (sub a)) (\<lambda>row.
          bnd (some_or row (not_found ''user'')) (\<lambda>u.
          bnd (list_for_user (sub a)) (\<lambda>ids.
          bnd (credential_state (sub a)) (\<lambda>cred.
          bnd (map_err (\<lambda>_. internal) (permissions_for_user (sub a))) (\<lambda>perms.
          ret \<lparr>me_user = Some u, me_identities = ids, me_credential = Some cred, me_permissions = perms, me_capabilities = PPB_CAPABILITIES,
               me_sid = sid a, me_client = show_client (client a), me_created_at = created, me_csrf = csrf\<rparr>))))))))"

section \<open>Sessions\<close>

record my_session_item =
  mi_id :: uuid
  mi_client_type :: string
  mi_device_name :: string
  mi_ip :: string
  mi_created_at :: instant
  mi_expires_at :: instant
  mi_last_seen_at :: "instant option"
  mi_current :: bool

text \<open>\<open>ORDER BY last_seen_at DESC NULLS LAST, created_at DESC\<close>.\<close>

definition recently_seen :: "session list \<Rightarrow> session list" where
  "recently_seen xs =
     (let ys = sort_key (\<lambda>s. - s_created_at s) xs in
      sort_key (\<lambda>s. - unwrap_or (last_seen_at s) 0) (filter (\<lambda>s. last_seen_at s \<noteq> None) ys) @ filter (\<lambda>s. last_seen_at s = None) ys)"

definition my_session_item_of :: "uuid \<Rightarrow> session \<Rightarrow> my_session_item" where
  "my_session_item_of current s =
     \<lparr>mi_id = s_id s, mi_client_type = s_client_type s, mi_device_name = device_name s, mi_ip = s_ip s, mi_created_at = s_created_at s,
      mi_expires_at = s_expires_at s, mi_last_seen_at = last_seen_at s, mi_current = (s_id s = current)\<rparr>"

definition me_sessions :: "auth_principal \<Rightarrow> (db option, api_error, my_session_item list) comp" where
  "me_sessions a =
     as_user a (
       bnd (map_err (\<lambda>_. internal) (select (\<lambda>d. recently_seen (filter (\<lambda>s.
              s_user_id s = Some (sub a) \<and> revoked_at s = None \<and> clock d < s_expires_at s) (sessions d))))) (\<lambda>rows.
       ret (map (my_session_item_of (sid a)) rows)))"

definition session_missing :: api_error where
  "session_missing = api_error_new ResourceNotFound ''session not found''"

definition me_session_revoke :: "instant \<Rightarrow> auth_principal \<Rightarrow> uuid \<Rightarrow> (db option, api_error, unit) comp" where
  "me_session_revoke now a i =
     (if is_root a then throw permission_denied
      else if i = sid a then throw (api_error_new CurrentSessionRevokeForbidden ''current session must use logout'')
      else
        with_db (
          bnd (session_find_by_id i) (\<lambda>row.
          bnd (some_or row session_missing) (\<lambda>target.
          if s_user_id target \<noteq> Some (sub a) \<or> \<not> is_active now target then throw session_missing
          else revoke i))))"

section \<open>Privacy\<close>

record privacy =
  pv_visibility :: string
  pv_show_online :: bool
  pv_show_recent :: bool

definition load_my_privacy :: "uuid \<Rightarrow> (db, api_error, privacy) comp" where
  "load_my_privacy u =
     bnd (map_err (\<lambda>_. internal) (select (profile_row u))) (\<lambda>row.
     ret (case row of
        Some r \<Rightarrow> \<lparr>pv_visibility = up_visibility r, pv_show_online = up_show_online r, pv_show_recent = up_show_recent r\<rparr>
      | None \<Rightarrow> \<lparr>pv_visibility = ''public'', pv_show_online = True, pv_show_recent = True\<rparr>))"

definition me_privacy :: "auth_principal \<Rightarrow> (db option, api_error, privacy) comp" where
  "me_privacy a = as_user a (load_my_privacy (sub a))"

definition visibilities :: "string list" where
  "visibilities = [''public'', ''friends'', ''private'']"

text \<open>\<open>INSERT ... ON CONFLICT (user_id) DO UPDATE\<close>: a new row has the defaults of the other columns.\<close>

definition set_privacy :: "privacy \<Rightarrow> instant \<Rightarrow> user_profile \<Rightarrow> user_profile" where
  "set_privacy b now r =
     r\<lparr>up_visibility := pv_visibility b, up_show_online := pv_show_online b, up_show_recent := pv_show_recent b, up_updated_at := now\<rparr>"

definition upsert_privacy :: "uuid \<Rightarrow> privacy \<Rightarrow> unit statement" where
  "upsert_privacy u b d =
     (if pv_visibility b \<notin> set visibilities then Inl CheckViolation
      else if profile_row u d \<noteq> None
      then Inr ((), d\<lparr>user_profiles := map (\<lambda>r. if up_user_id r = u then set_privacy b (clock d) r else r) (user_profiles d)\<rparr>)
      else if \<not> known_user d u then Inl ForeignKeyViolation
      else Inr ((), d\<lparr>user_profiles := user_profiles d @
        [set_privacy b (clock d) \<lparr>up_user_id = u, up_bio = [], up_background_url = [], up_visibility = ''public'', up_show_online = True,
           up_show_recent = True, up_updated_at = clock d\<rparr>]\<rparr>))"

definition me_privacy_update :: "auth_principal \<Rightarrow> privacy \<Rightarrow> (db option, api_error, privacy) comp" where
  "me_privacy_update a b =
     (if is_root a then throw permission_denied
      else if pv_visibility b \<notin> set visibilities
      then throw (api_error_new ValidationFailed ''profile visibility must be public|friends|private'')
      else with_db (andthen (map_err (\<lambda>_. internal) (query (upsert_privacy (sub a) b))) (load_my_privacy (sub a))))"

section \<open>The profile\<close>

record my_profile =
  my_bio :: string
  my_background_url :: string
  my_visibility :: string
  my_rks :: json
  my_stats :: json
  my_online_status :: "string option"
  my_friends_count :: "int option"

definition my_presence :: "json \<Rightarrow> string" where
  "my_presence v = (if (case string_field v ''room_id'' of Some r \<Rightarrow> r \<noteq> [] | None \<Rightarrow> False) then ''online'' else ''offline'')"

definition me_profile :: "net \<Rightarrow> pmp \<Rightarrow> auth_principal \<Rightarrow> (phira_state, api_error, my_profile) comp" where
  "me_profile N G a =
     (if is_root a then throw permission_denied
      else
        bnd (on_db (map_err (\<lambda>_. internal) (select (profile_row (sub a))))) (\<lambda>row.
        bnd (on_db (find_by_id (sub a))) (\<lambda>user.
        let p = (case user of Some u \<Rightarrow> phira_id u | None \<Rightarrow> 0) in
        bnd (if 0 < p then optionally (on_gw (user_stats N p)) else ret None) (\<lambda>stats.
        bnd (optionally (on_db (list_friends (sub a)))) (\<lambda>friends.
        ret \<lparr>my_bio = (case row of Some r \<Rightarrow> up_bio r | None \<Rightarrow> []),
             my_background_url = (case row of Some r \<Rightarrow> up_background_url r | None \<Rightarrow> []),
             my_visibility = row_visibility row,
             my_rks = unwrap_or (Option.bind stats (\<lambda>v. get_field v ''rks'')) JNull,
             my_stats = unwrap_or stats JNull,
             my_online_status =
               (if 0 < p then (case player_info G (wrap32 p) of Inr v \<Rightarrow> Some (my_presence v) | Inl _ \<Rightarrow> None) else None),
             my_friends_count = map_option (\<lambda>fs. int (length fs)) friends\<rparr>)))))"

section \<open>Multiplayer history\<close>

record my_round =
  mr_round_uuid :: string
  mr_room_id :: string
  mr_chart_id :: int
  mr_chart_name :: string
  mr_started_at :: int
  mr_finished_at :: "int option"

definition my_round_of_json :: "json \<Rightarrow> my_round option" where
  "my_round_of_json v =
     Option.bind (string_field v ''round_uuid'') (\<lambda>r.
     Option.bind (string_field v ''room_id'') (\<lambda>room.
     Option.bind (int_field v ''chart_id'') (\<lambda>c.
     Option.bind (string_field v ''chart_name'') (\<lambda>n.
     Option.bind (int_field v ''started_at'') (\<lambda>s.
     let made = (\<lambda>f. Some \<lparr>mr_round_uuid = r, mr_room_id = room, mr_chart_id = c, mr_chart_name = n, mr_started_at = s, mr_finished_at = f\<rparr>) in
     if \<not> i32_range c then None
     else case get_field v ''finished_at'' of
       None \<Rightarrow> made None
     | Some JNull \<Rightarrow> made None
     | Some j \<Rightarrow> Option.bind (as_i64 j) (\<lambda>f. made (Some f)))))))"

record my_multiplayer =
  mm_phira_id :: int
  mm_rounds_total :: int
  mm_completed_rounds :: int
  mm_rooms_visited :: int
  mm_playtime_ms :: int
  mm_recent_rounds :: "my_round list"

definition saturating_sub64 :: "int \<Rightarrow> int \<Rightarrow> int" where
  "saturating_sub64 x y = max (- 9223372036854775808) (min 9223372036854775807 (x - y))"

definition round_duration :: "my_round \<Rightarrow> int option" where
  "round_duration r = map_option (\<lambda>f. max (saturating_sub64 f (mr_started_at r)) 0) (mr_finished_at r)"

definition multiplayer_summary :: "int \<Rightarrow> my_round list \<Rightarrow> my_multiplayer" where
  "multiplayer_summary p rounds =
     \<lparr>mm_phira_id = p, mm_rounds_total = int (length rounds),
      mm_completed_rounds = int (length (filter (\<lambda>r. mr_finished_at r \<noteq> None) rounds)),
      mm_rooms_visited = int (card (set (map mr_room_id rounds))),
      mm_playtime_ms = fold (\<lambda>x acc. wrap64 (acc + x)) (List.map_filter round_duration rounds) 0,
      mm_recent_rounds = take 50 (sort_key (\<lambda>r. - mr_started_at r) rounds)\<rparr>"

definition me_multiplayer :: "(nat \<Rightarrow> pmp) \<Rightarrow> auth_principal \<Rightarrow> (db option, api_error, my_multiplayer option) comp" where
  "me_multiplayer G a =
     as_user a (
       bnd (find_by_id (sub a)) (\<lambda>row.
       bnd (some_or row (api_error_new UserNotFound ''user not found'')) (\<lambda>u.
       case fetch_all_rounds G None (Some (wrap32 (phira_id u))) of
         None \<Rightarrow> ret None
       | Some r \<Rightarrow> bnd (from_uds r) (\<lambda>rounds. ret (Some (multiplayer_summary (phira_id u) (List.map_filter my_round_of_json rounds)))))))"

section \<open>Identities, preferences, friends and devices\<close>

definition me_identity_list :: "auth_principal \<Rightarrow> (db option, api_error, identity list) comp" where
  "me_identity_list a = as_user a (list_for_user (sub a))"

definition me_preferences :: "auth_principal \<Rightarrow> (db option, api_error, preference_row list) comp" where
  "me_preferences a = as_user a (map_err (\<lambda>_. internal) (select (\<lambda>d. filter (\<lambda>p. pr_user_id p = sub a) (user_preferences d))))"

definition friend_remove :: "auth_principal \<Rightarrow> int \<Rightarrow> (db option, api_error, unit) comp" where
  "friend_remove a p =
     as_user a (
       bnd (find_by_phira_id p) (\<lambda>row.
       bnd (some_or row (not_found ''user'')) (\<lambda>f. remove_friend (sub a) (u_id f))))"

definition me_push_endpoints :: "auth_principal \<Rightarrow> (db option, api_error, push_endpoint list) comp" where
  "me_push_endpoints a = as_user a (list_push_endpoints (sub a))"

record push_endpoint_body =
  pb_device_id :: string
  pb_channel :: string
  pb_platform :: string
  pb_endpoint :: string
  pb_p256dh :: string
  pb_auth :: string

definition me_push_endpoint_register ::
  "(json \<Rightarrow> string) \<Rightarrow> aead \<Rightarrow> string \<Rightarrow> uuid \<Rightarrow> auth_principal \<Rightarrow> push_endpoint_body \<Rightarrow> (db option, api_error, unit) comp" where
  "me_push_endpoint_register enc C nonce i a b =
     (if is_root a then throw permission_denied
      else if pb_channel b \<notin> set push_channels then throw (validation ''channel must be web_push|fcm|wns'')
      else
        with_db (
          let plaintext = enc (JObj [(''endpoint'', JStr (pb_endpoint b)), (''p256dh'', JStr (pb_p256dh b)), (''auth'', JStr (pb_auth b))]) in
          bnd (from_result (credential_encrypt C nonce plaintext)) (\<lambda>ct.
          register_push_endpoint i (sub a) (pb_device_id b) (pb_channel b) ct (pb_platform b))))"

definition me_push_endpoint_delete :: "auth_principal \<Rightarrow> uuid \<Rightarrow> (db option, api_error, unit) comp" where
  "me_push_endpoint_delete a i = as_user a (delete_push_endpoint (sub a) i)"

section \<open>Join intents\<close>

record me_state =
  ms_pool :: "db option"
  ms_intents :: intent_store

definition on_ms_pool :: "(db option, 'e, 'a) comp \<Rightarrow> (me_state, 'e, 'a) comp" where
  "on_ms_pool m s = (case m (ms_pool s) of (r, p) \<Rightarrow> (r, s\<lparr>ms_pool := p\<rparr>))"

definition on_intents :: "(intent_store, 'e, 'a) comp \<Rightarrow> (me_state, 'e, 'a) comp" where
  "on_intents m s = (case m (ms_intents s) of (r, p) \<Rightarrow> (r, s\<lparr>ms_intents := p\<rparr>))"

definition me_join_intents :: "instant \<Rightarrow> auth_principal \<Rightarrow> (me_state, api_error, join_intent list) comp" where
  "me_join_intents now a = (if is_root a then throw permission_denied else asks (\<lambda>s. intents_for_user now (sub a) (ms_intents s)))"

definition me_join_intent_create ::
  "uuid \<Rightarrow> instant \<Rightarrow> auth_principal \<Rightarrow> string \<Rightarrow> int option \<Rightarrow> (me_state, api_error, join_intent) comp" where
  "me_join_intent_create i now a room ttl_secs =
     (if is_root a then throw permission_denied
      else
        bnd (on_ms_pool (with_db (bnd (find_by_id (sub a)) (\<lambda>row. some_or row (not_found ''user''))))) (\<lambda>u.
        on_intents (create_intent i now (sub a) (phira_id u) room ttl_secs)))"

definition me_join_intent_cancel :: "auth_principal \<Rightarrow> uuid \<Rightarrow> (me_state, api_error, unit) comp" where
  "me_join_intent_cancel a i = (if is_root a then throw permission_denied else on_intents (cancel_intent (sub a) i))"

definition me_join_intent_get :: "instant \<Rightarrow> auth_principal \<Rightarrow> uuid \<Rightarrow> (me_state, api_error, join_intent) comp" where
  "me_join_intent_get now a i =
     (if is_root a then throw permission_denied else bnd (asks (\<lambda>s. get_intent now (sub a) i (ms_intents s))) from_result)"

section \<open>Public endpoints\<close>

definition meta :: "string \<Rightarrow> bool \<Rightarrow> string option \<Rightarrow> string list \<Rightarrow> json" where
  "meta version up server_version capabilities_of_pmp =
     JObj [(''version'', JStr version), (''api_version'', JInt 1), (''capabilities'', JArr (map JStr PPB_CAPABILITIES)),
       (''pmp'', JObj [(''connected'', JBool up), (''version'', jopt JStr server_version),
          (''capabilities'', JArr (map JStr capabilities_of_pmp))])]"

record site_state =
  st_pool :: "db option"
  st_visits :: int

definition stored_content :: "string \<Rightarrow> (db option, api_error, json option) comp" where
  "stored_content k s = (case s of None \<Rightarrow> (Inr None, s) | Some _ \<Rightarrow> with_db (get_public_content k) s)"

definition with_fields :: "json \<Rightarrow> json \<Rightarrow> json" where
  "with_fields base over = (case over of JObj kvs \<Rightarrow> foldl (\<lambda>b kv. set_param b (fst kv) (snd kv)) base kvs | _ \<Rightarrow> base)"

definition site_reply :: "env \<Rightarrow> (site_state, api_error, json) comp" where
  "site_reply E s =
     (let counted = st_visits s;
          s1 = s\<lparr>st_visits := wrap64 (counted + 1)\<rparr>;
          c = site (cfg E);
          base = JObj [(''ppf_url'', JStr (ppf_url c)), (''panel_url'', JStr (panel_url c)), (''docs_url'', JStr (docs_url c)),
            (''api_url'', JStr (public_url (server (cfg E)))), (''visit_count'', JInt (wrap64 (visit_count c + counted)))]
      in case stored_content ''site'' (st_pool s1) of
           (Inl e, p) \<Rightarrow> (Inl e, s1\<lparr>st_pool := p\<rparr>)
         | (Inr over, p) \<Rightarrow> (Inr (case over of Some v \<Rightarrow> with_fields base v | None \<Rightarrow> base), s1\<lparr>st_pool := p\<rparr>))"

definition public_content_or_empty :: "string \<Rightarrow> (db option, api_error, json) comp" where
  "public_content_or_empty k = bnd (stored_content k) (\<lambda>v. ret (unwrap_or v (JObj [])))"

definition announcements :: "(db option, api_error, json) comp" where
  "announcements = public_content_or_empty ''announcements''"

definition downloads :: "(db option, api_error, json) comp" where
  "downloads = public_content_or_empty ''downloads''"

definition nodes :: "(db option, api_error, json) comp" where
  "nodes = public_content_or_empty ''nodes''"

section \<open>The CORS layer\<close>

text \<open>\<open>parses\<close> says which texts are header values; \<open>origin_list\<close> builds the set of origins of the layer, or
  panics (no value).\<close>

definition cors_origins :: "(string \<Rightarrow> bool) \<Rightarrow> cors_config \<Rightarrow> string list" where
  "cors_origins parses c =
     filter parses (allowed_origins c @ dev_origins c) @ (if \<not> credentials c then [''*''] else [])"

definition build_cors :: "(string \<Rightarrow> bool) \<Rightarrow> (string list \<Rightarrow> 'o option) \<Rightarrow> cors_config \<Rightarrow> ('o \<times> bool) option" where
  "build_cors parses origin_list c = map_option (\<lambda>l. (l, credentials c)) (origin_list (cors_origins parses c))"

section \<open>Ending another session\<close>

text \<open>What the request that ends a session can do: it fails and changes nothing, or it marks the rows of
  that session as revoked, in which case it was another, active session of the same user.\<close>

lemma me_session_revoke_cases:
  assumes "me_session_revoke now a i s = (r, t)"
  obtains (refused) e where "r = Inl e" and "s = t \<or> (\<exists>d xs. s = Some d \<and> t = Some (d\<lparr>outcomes := xs\<rparr>))"
  | (revoked) d row xs where "s = Some d" and "\<not> is_root a" and "i \<noteq> sid a" and "find (\<lambda>x. s_id x = i) (sessions d) = Some row"
      and "s_user_id row = Some (sub a)" and "is_active now row"
      and "t = Some (update_sessions (\<lambda>x. s_id x = i) (\<lambda>x. x\<lparr>revoked_at := Some (clock d)\<rparr>) (d\<lparr>outcomes := xs\<rparr>))"
proof (cases "is_root a \<or> i = sid a \<or> s = None")
  case True
  with assms refused show thesis by (auto simp: me_session_revoke_def throw_def with_db_def split: if_splits)
next
  case False
  then obtain d where s: "s = Some d" by auto
  let ?found = "session_find_by_id i d"
  have state: "\<exists>xs. snd ?found = d\<lparr>outcomes := xs\<rparr>"
    using select_state [of "\<lambda>d. find (\<lambda>x. s_id x = i) (sessions d)" d]
    by (auto simp: session_find_by_id_def map_err_def split: prod.splits sum.splits)
  then obtain xs where xs: "snd ?found = d\<lparr>outcomes := xs\<rparr>" by blast
  show thesis
  proof (cases "\<exists>row. fst ?found = Inr (Some row) \<and> s_user_id row = Some (sub a) \<and> is_active now row")
    case True
    then obtain row where row: "?found = (Inr (Some row), d\<lparr>outcomes := xs\<rparr>)" "s_user_id row = Some (sub a)" "is_active now row"
      using xs by (metis prod.collapse)
    then have found: "find (\<lambda>x. s_id x = i) (sessions d) = Some row"
      by (auto simp: session_find_by_id_def dest!: select_InrD)
    obtain r' d' where rv: "revoke i (d\<lparr>outcomes := xs\<rparr>) = (r', d')" by (cases "revoke i (d\<lparr>outcomes := xs\<rparr>)")
    have t: "r = r'" "t = Some d'"
      using assms False s row rv by (auto simp: me_session_revoke_def with_db_def bnd_def some_or_def ret_def split: prod.splits)
    show thesis
    proof (cases r')
      case (Inl e)
      with rv have "(\<exists>ys. d' = d\<lparr>outcomes := ys\<rparr>) \<or>
          (\<exists>ys. d' = update_sessions (\<lambda>x. s_id x = i) (\<lambda>x. x\<lparr>revoked_at := Some (clock d)\<rparr>) (d\<lparr>outcomes := ys\<rparr>))"
        by (fastforce simp: revoke_def execute_def map_err_def split: prod.splits sum.splits dest!: query_InlD)
      with Inl t s row False found show thesis by (auto intro: refused revoked)
    next
      case (Inr u)
      with rv have "\<exists>ys. d' = update_sessions (\<lambda>x. s_id x = i) (\<lambda>x. x\<lparr>revoked_at := Some (clock d)\<rparr>) (d\<lparr>outcomes := ys\<rparr>)"
        by (auto simp: revoke_def dest!: execute_InrD)
      with t s row False found show thesis by (auto intro: revoked)
    qed
  next
    case no: False
    have "(\<exists>e. r = Inl e) \<and> t = Some (d\<lparr>outcomes := xs\<rparr>)"
      using assms False s no xs
      by (cases ?found)
        (auto simp: me_session_revoke_def with_db_def bnd_def some_or_def throw_def ret_def split: prod.splits sum.splits option.splits if_splits)
    with s show thesis by (auto intro: refused)
  qed
qed

lemma revoked_rows_dead:
  assumes "find (\<lambda>x. s_id x = i) (sessions d) = Some row"
  shows "dead (update_sessions (\<lambda>x. s_id x = i) (\<lambda>x. x\<lparr>revoked_at := Some (clock d)\<rparr>) (d\<lparr>outcomes := xs\<rparr>)) i"
proof -
  let ?f = "\<lambda>x. if s_id x = i then x\<lparr>revoked_at := Some (clock d)\<rparr> else x"
  let ?d = "update_sessions (\<lambda>x. s_id x = i) (\<lambda>x. x\<lparr>revoked_at := Some (clock d)\<rparr>) (d\<lparr>outcomes := xs\<rparr>)"
  have rows: "set (sessions ?d) = ?f ` set (sessions d)" by (simp add: update_sessions_def)
  from find_SomeD [OF assms] have row: "s_id row = i" "row \<in> set (sessions d)" by simp_all
  have "?f row \<in> set (sessions ?d)" unfolding rows by (rule imageI) (rule row(2))
  moreover have "i = s_id (?f row)" using row(1) by simp
  ultimately have "i \<in> s_id ` set (sessions ?d)" by (rule image_eqI [rotated])
  moreover have "revoked_at x \<noteq> None" if "x \<in> set (sessions ?d)" "s_id x = i" for x
  proof -
    from that(1) obtain y where "x = ?f y" unfolding rows by (rule imageE)
    with that(2) show ?thesis by (cases "s_id y = i") simp_all
  qed
  ultimately show ?thesis by (simp only: dead_def) blast
qed

text \<open>Ending a session from another device. A request can only end a session that belongs to its user, is
  active and is not the one it was made with; the other rows stay as they are; and once it has
  answered, the ended session never lets anybody in again, whatever happens to the sessions later.\<close>

theorem remote_logout:
  assumes "me_session_revoke now a i (Some d) = (r, Some d')" and "r = Inr () \<or> sessions d' \<noteq> sessions d"
  shows "\<not> is_root a \<and> i \<noteq> sid a \<and>
    (\<exists>row \<in> set (sessions d). s_id row = i \<and> s_user_id row = Some (sub a) \<and> is_active now row) \<and>
    filter (\<lambda>x. s_id x \<noteq> i) (sessions d') = filter (\<lambda>x. s_id x \<noteq> i) (sessions d) \<and>
    (reachable (\<lambda>x. x = d') session_step e \<longrightarrow> \<not> live e i)"
  using assms(1)
proof (cases rule: me_session_revoke_cases)
  case (refused e)
  with assms(2) show ?thesis by auto
next
  case (revoked d0 row xs)
  let ?d = "update_sessions (\<lambda>x. s_id x = i) (\<lambda>x. x\<lparr>revoked_at := Some (clock d)\<rparr>) (d\<lparr>outcomes := xs\<rparr>)"
  have d': "d' = ?d" using revoked by simp
  have dead: "dead d' i" unfolding d' using revoked by (intro revoked_rows_dead) simp
  have "\<not> live e i" if "reachable (\<lambda>x. x = d') session_step e"
  proof -
    have "reachable (\<lambda>x. dead x i) session_step e"
      using that by (induction rule: reachable.induct) (auto intro: reachable.intros simp: dead)
    then show ?thesis by (intro dead_not_live sealed.reachable_inv)
  qed
  moreover have "filter (\<lambda>x. s_id x \<noteq> i) (sessions d') = filter (\<lambda>x. s_id x \<noteq> i) (sessions d)"
  proof -
    have "filter (\<lambda>x. s_id x \<noteq> i) (map (\<lambda>s. if s_id s = i then s\<lparr>revoked_at := Some (clock d)\<rparr> else s) ss) = filter (\<lambda>x. s_id x \<noteq> i) ss" for ss
      by (induction ss) auto
    then show ?thesis by (simp add: d' update_sessions_def)
  qed
  moreover have "row \<in> set (sessions d) \<and> s_id row = i" using revoked by (auto dest: find_SomeD)
  ultimately show ?thesis using revoked by auto
qed

definition two_sessions :: db where
  "two_sessions = demo_db\<lparr>sessions := [demo_session, demo_session\<lparr>s_id := 71\<rparr>]\<rparr>"

theorem remote_logout_witness:
  "\<exists>d'. me_session_revoke 0 demo_principal 71 (Some two_sessions) = (Inr (), Some d') \<and> \<not> live d' 71 \<and> live two_sessions 71 \<and> live d' 70"
proof -
  let ?d = "update_sessions (\<lambda>x. s_id x = 71) (\<lambda>x. x\<lparr>revoked_at := Some (clock two_sessions)\<rparr>) two_sessions"
  have run: "me_session_revoke 0 demo_principal 71 (Some two_sessions) = (Inr (), Some ?d)"
    by (simp add: me_session_revoke_def demo_principal_def is_root_def with_db_def session_find_by_id_def comp_defs two_sessions_def demo_db_def
        empty_db_def demo_session_def is_active_def revoke_def update_sessions_def)
  have "reachable (\<lambda>x. x = ?d) session_step ?d" by (rule reachable.start) simp
  with remote_logout [OF run, of ?d] have "\<not> live ?d 71" by simp
  moreover have "live two_sessions 71" "live ?d 70"
    by (simp_all add: live_def two_sessions_def demo_db_def empty_db_def demo_session_def update_sessions_def)
  ultimately show ?thesis using run by blast
qed

section \<open>Privacy settings\<close>

lemma upsert_privacy_reads:
  assumes "upsert_privacy u b d = Inr (x, d')"
  shows "\<exists>r. profile_row u d' = Some r \<and> up_visibility r = pv_visibility b \<and> up_show_online r = pv_show_online b \<and> up_show_recent r = pv_show_recent b \<and>
      up_bio r = (case profile_row u d of Some q \<Rightarrow> up_bio q | None \<Rightarrow> [])"
    and "v \<noteq> u \<Longrightarrow> profile_row v d' = profile_row v d" and "users d' = users d"
proof -
  let ?f = "\<lambda>r. if up_user_id r = u then set_privacy b (clock d) r else r"
  have own: "find (\<lambda>r. up_user_id r = u) (map ?f ps) = map_option (set_privacy b (clock d)) (find (\<lambda>r. up_user_id r = u) ps)" for ps
    by (induction ps) (auto simp: set_privacy_def)
  have other: "v \<noteq> u \<Longrightarrow> find (\<lambda>r. up_user_id r = v) (map ?f ps) = find (\<lambda>r. up_user_id r = v) ps" for ps
    by (induction ps) (auto simp: set_privacy_def)
  show "\<exists>r. profile_row u d' = Some r \<and> up_visibility r = pv_visibility b \<and> up_show_online r = pv_show_online b \<and> up_show_recent r = pv_show_recent b \<and>
      up_bio r = (case profile_row u d of Some q \<Rightarrow> up_bio q | None \<Rightarrow> [])"
    using assms by (auto simp: upsert_privacy_def profile_row_def own find_append set_privacy_def split: if_splits option.splits)
  show "v \<noteq> u \<Longrightarrow> profile_row v d' = profile_row v d"
    using assms other by (auto simp: upsert_privacy_def profile_row_def find_append set_privacy_def split: if_splits option.splits)
  show "users d' = users d" using assms by (auto simp: upsert_privacy_def split: if_splits)
qed

lemma load_my_privacy_runs:
  assumes "load_my_privacy u d = (Inr q, d')"
  shows "d' = d\<lparr>outcomes := outcomes d'\<rparr> \<and> (\<forall>r. profile_row u d = Some r \<longrightarrow>
    q = \<lparr>pv_visibility = up_visibility r, pv_show_online = up_show_online r, pv_show_recent = up_show_recent r\<rparr>)"
  using assms by (auto simp: load_my_privacy_def runs dest!: select_InrD)

lemma me_privacy_update_runs:
  assumes "me_privacy_update a b (Some d) = (Inr q, t)"
  shows "\<exists>d'. t = Some d' \<and> q = b \<and> \<not> is_root a \<and> (\<exists>r. profile_row (sub a) d' = Some r \<and> up_visibility r = pv_visibility b \<and>
      up_show_online r = pv_show_online b \<and> up_show_recent r = pv_show_recent b) \<and> (\<forall>v. v \<noteq> sub a \<longrightarrow> profile_row v d' = profile_row v d) \<and> users d' = users d"
proof -
  from assms obtain x d1 d2 where nr: "\<not> is_root a" and w: "query (upsert_privacy (sub a) b) d = (Inr x, d1)"
      and l: "load_my_privacy (sub a) d1 = (Inr q, d2)" and t: "t = Some d2"
    by (auto simp: me_privacy_update_def throw_def with_db_def runs split: if_splits prod.splits)
  from w obtain xs where "upsert_privacy (sub a) b (d\<lparr>outcomes := xs\<rparr>) = Inr (x, d1)" by (auto dest: query_InrD)
  note up = upsert_privacy_reads [OF this]
  from up(1) obtain r where r: "profile_row (sub a) d1 = Some r" "up_visibility r = pv_visibility b" "up_show_online r = pv_show_online b"
      "up_show_recent r = pv_show_recent b" by blast
  from load_my_privacy_runs [OF l] r have d2: "d2 = d1\<lparr>outcomes := outcomes d2\<rparr>" and q: "q = b" by auto
  have row: "profile_row v d2 = profile_row v d1" for v by (subst d2) simp
  have "users d2 = users d1" by (subst d2) simp
  with nr q t r row up(2,3) show ?thesis by auto
qed

text \<open>A user who makes the profile private is believed: once the request has answered, nobody but the user is
  shown the profile, and the settings and profiles of other users are as before.\<close>

theorem privacy_takes_effect:
  assumes "me_privacy_update a \<lparr>pv_visibility = ''private'', pv_show_online = on, pv_show_recent = re\<rparr> (ps_pool s) = (Inr q, p1)"
    and "public_profile N f64 G b pid (s\<lparr>ps_pool := p1\<rparr>) = (Inr r, t)"
    and "ps_pool s = Some d" and "find (\<lambda>u. phira_id u = pid) (users d) = Some u" and "u_id u = sub a" and "requester_of b \<noteq> Some (sub a)"
  shows "hides r \<and> pv_visibility q = ''private'' \<and> (\<forall>d' v. p1 = Some d' \<longrightarrow> v \<noteq> sub a \<longrightarrow> profile_row v d' = profile_row v d)"
proof -
  from me_privacy_update_runs [OF assms(1) [unfolded assms(3)]] obtain d' row where
    p1: "p1 = Some d'" and q: "pv_visibility q = ''private''" and row: "profile_row (sub a) d' = Some row" "up_visibility row = ''private''"
    and others: "\<forall>v. v \<noteq> sub a \<longrightarrow> profile_row v d' = profile_row v d" and us: "users d' = users d" by auto
  have "\<not> profile_open d' (requester_of b) (u_id u)"
    using assms(5,6) row by (simp add: profile_open_def row_visibility_def)
  with assms(2,4) p1 us have "hides r"
    by (intro public_profile_hides [where s = "s\<lparr>ps_pool := p1\<rparr>" and d = d']) auto
  with p1 q others show ?thesis by auto
qed

definition open_db :: db where
  "open_db = shy_db\<lparr>user_profiles := [\<lparr>up_user_id = 7, up_bio = ''hi'', up_background_url = [], up_visibility = ''public'',
     up_show_online = True, up_show_recent = True, up_updated_at = 0\<rparr>]\<rparr>"

lemma shy_now:
  "me_privacy_update demo_principal \<lparr>pv_visibility = ''private'', pv_show_online = True, pv_show_recent = True\<rparr> (Some open_db) =
     (Inr \<lparr>pv_visibility = ''private'', pv_show_online = True, pv_show_recent = True\<rparr>, Some shy_db)"
  by (simp add: me_privacy_update_def demo_principal_def is_root_def visibilities_def with_db_def comp_defs query_calm upsert_privacy_def
      profile_row_def set_privacy_def load_my_privacy_def open_db_def shy_db_def demo_db_def empty_db_def)

theorem privacy_takes_effect_witness:
  "\<exists>r t. public_profile (easy_net (JObj [(''name'', JStr ''alice'')])) (\<lambda>_. None :: unit option) (\<lambda>_ _. Inr JNull) None 700
     \<lparr>ps_gw = quiet_gateway, ps_pool = Some shy_db\<rparr> = (Inr r, t) \<and> hides r \<and>
   me_privacy_update demo_principal \<lparr>pv_visibility = ''private'', pv_show_online = True, pv_show_recent = True\<rparr> (Some open_db) =
     (Inr \<lparr>pv_visibility = ''private'', pv_show_online = True, pv_show_recent = True\<rparr>, Some shy_db)"
proof -
  obtain r t where run: "public_profile (easy_net (JObj [(''name'', JStr ''alice'')])) (\<lambda>_. None :: unit option) (\<lambda>_ _. Inr JNull) None 700
      \<lparr>ps_gw = quiet_gateway, ps_pool = Some shy_db\<rparr> = (Inr r, t)"
    using shy_profile by blast
  have "hides r"
    using privacy_takes_effect [of demo_principal True True "\<lparr>ps_gw = quiet_gateway, ps_pool = Some open_db\<rparr>" _ "Some shy_db" _ _ _ None 700 r t
        open_db "hd (users demo_db)"] run shy_now
    by (simp add: open_db_def shy_db_def demo_db_def empty_db_def demo_principal_def requester_of_def)
  with run shy_now show ?thesis by blast
qed

section \<open>Other facts\<close>

text \<open>The numbers of the multiplayer history agree with each other.\<close>

lemma multiplayer_summary_sane:
  "mm_completed_rounds (multiplayer_summary p rs) \<le> mm_rounds_total (multiplayer_summary p rs)"
  "mm_rooms_visited (multiplayer_summary p rs) \<le> mm_rounds_total (multiplayer_summary p rs)"
  "int (length (mm_recent_rounds (multiplayer_summary p rs))) = min 50 (mm_rounds_total (multiplayer_summary p rs))"
  "set (mm_recent_rounds (multiplayer_summary p rs)) \<subseteq> set rs"
  using card_length [of "map mr_room_id rs"]
  by (auto simp: multiplayer_summary_def dest: in_set_takeD)

text \<open>A user asks to be moved only as the player of its own account.\<close>

lemma own_join_intent:
  assumes "me_join_intent_create i now a room ttl s = (Inr it, t)"
  shows "\<exists>d u. ms_pool s = Some d \<and> u \<in> set (users d) \<and> u_id u = sub a \<and> ji_user it = sub a \<and> ji_phira it = phira_id u \<and>
    ji_expires_at it \<le> now + secs MAX_TTL_SECS"
proof -
  from assms obtain u s1 where
    u: "on_ms_pool (with_db (bnd (find_by_id (sub a)) (\<lambda>row. some_or row (not_found ''user'')))) s = (Inr u, s1)"
    and it: "on_intents (create_intent i now (sub a) (phira_id u) room ttl) s1 = (Inr it, t)"
    by (auto simp: me_join_intent_create_def throw_def runs split: if_splits)
  from u obtain d where "ms_pool s = Some d" "find (\<lambda>x. u_id x = sub a) (users d) = Some u"
    by (auto simp: on_ms_pool_def with_db_def find_by_id_def runs split: prod.splits option.splits dest!: select_InrD)
  moreover from it have "ji_user it = sub a" "ji_phira it = phira_id u" "ji_expires_at it \<le> now + secs MAX_TTL_SECS"
    by (auto simp: on_intents_def create_intent_def throw_def Let_def secs_def split: prod.splits if_splits)
  ultimately show ?thesis by (auto dest: find_SomeD)
qed

text \<open>The library that builds the list of origins refuses the wildcard by panicking; a configuration
  without credentials always asks for it, so that the server cannot be built with one.\<close>

lemma cors_without_credentials_panics:
  assumes "\<And>xs. ''*'' \<in> set xs \<Longrightarrow> origin_list xs = None" and "\<not> credentials c"
  shows "build_cors parses origin_list c = None"
  using assms by (simp add: build_cors_def cors_origins_def)

end
