(* ===== verification/Users.thy ===== *)
theory Users
  imports Inbox
begin

text \<open>
  Administration of users (\<^verbatim>\<open>users/\<close>): the player commands of the game server, the account views and the
  actions scoped to one user. The pattern match of PostgreSQL is a parameter.
\<close>

section \<open>Player commands\<close>

definition player_ban :: "pmp \<Rightarrow> int \<Rightarrow> string \<Rightarrow> uds_error + json" where
  "player_ban G user reason = G ''player.ban'' (JObj [(''user_id'', JInt user), (''reason'', JStr reason)])"

definition player_unban :: "pmp \<Rightarrow> int \<Rightarrow> uds_error + json" where
  "player_unban G user = G ''player.unban'' (JObj [(''user_id'', JInt user)])"

definition player_banlist :: "pmp \<Rightarrow> uds_error + json" where
  "player_banlist G = G ''player.banlist'' (JObj [])"

definition player_ban_ip :: "pmp \<Rightarrow> string \<Rightarrow> string \<Rightarrow> uds_error + json" where
  "player_ban_ip G target reason = G ''player.ban_ip'' (JObj [(''target'', JStr target), (''reason'', JStr reason)])"

definition player_unban_ip :: "pmp \<Rightarrow> string \<Rightarrow> uds_error + json" where
  "player_unban_ip G ip = G ''player.unban_ip'' (JObj [(''ip'', JStr ip)])"

definition player_ip_history :: "pmp \<Rightarrow> int \<Rightarrow> uds_error + json" where
  "player_ip_history G user = G ''player.ip_history'' (JObj [(''user_id'', JInt user)])"

definition player_kick :: "pmp \<Rightarrow> int \<Rightarrow> uds_error + json" where
  "player_kick G user = G ''player.kick'' (JObj [(''user_id'', JInt user)])"

section \<open>Accounts\<close>

record user_list_response =
  ul_items :: "user list"
  ul_total :: int
  ul_page :: int
  ul_page_num :: int

definition newest_users :: "(user \<Rightarrow> bool) \<Rightarrow> int \<Rightarrow> int \<Rightarrow> user list statement" where
  "newest_users P n off d =
     (if off < 0 then Inl InvalidStatement
      else Inr (take (nat n) (drop (nat off) (rev (sort_key u_created_at (filter P (users d))))), d))"

definition list_users ::
  "(string \<Rightarrow> string \<Rightarrow> bool) \<Rightarrow> auth_principal \<Rightarrow> int option \<Rightarrow> string option \<Rightarrow> int option \<Rightarrow> int option \<Rightarrow>
   (db option, api_error, user_list_response) comp" where
  "list_users ilike a pid search page page_num =
     guarded a ''user:view'' (Inr ())
       (let p = max (unwrap_or page 1) 1; n = unwrap_or page_num 20; off = wrap64 ((p - 1) * n) in
        if \<not> (1 \<le> n \<and> n \<le> 100) then throw (validation ''pageNum must be between 1 and 100'')
        else
          bnd (map_err user_db_err (query (newest_users
             (case pid of
                Some q \<Rightarrow> (\<lambda>u. phira_id u = q)
              | None \<Rightarrow> (case search of
                    Some s \<Rightarrow> if s \<noteq> [] then (\<lambda>u. ilike (''%'' @ s @ ''%'') (username_cache u)) else (\<lambda>_. True)
                  | None \<Rightarrow> (\<lambda>_. True))) n off))) (\<lambda>rows.
          bnd (map_err user_db_err (select (\<lambda>d. int (length (users d))))) (\<lambda>total.
          ret \<lparr>ul_items = rows, ul_total = total, ul_page = p, ul_page_num = n\<rparr>)))"

definition groups_for_user :: "uuid \<Rightarrow> (db, api_error, (uuid \<times> string) list) comp" where
  "groups_for_user u =
     map_err user_db_err (select (\<lambda>d. map (\<lambda>g. (g_id g, g_name g))
       (sort_key g_name (filter (\<lambda>g. (g_id g, u) \<in> set (group_members d)) (groups d)))))"

definition ok_of :: "'e + 'a \<Rightarrow> 'a option" where
  "ok_of r = (case r of Inr v \<Rightarrow> Some v | Inl _ \<Rightarrow> None)"

definition known_account :: "int \<Rightarrow> (db, api_error, user) comp" where
  "known_account p = bnd (find_by_phira_id p) (\<lambda>row. some_or row (not_found ''user''))"

definition user_detail ::
  "pmp \<Rightarrow> auth_principal \<Rightarrow> int \<Rightarrow> (db option, api_error, user \<times> (uuid \<times> string) list \<times> json option) comp" where
  "user_detail G a p =
     guarded a ''user:view'' (Inr ())
       (bnd (known_account p) (\<lambda>u.
        bnd (groups_for_user (u_id u)) (\<lambda>gs.
        ret (u, gs, ok_of (player_info G (wrap32 p))))))"

definition info_bool :: "json option \<Rightarrow> string \<Rightarrow> bool" where
  "info_bool v k = unwrap_or (Option.bind v (\<lambda>j. Option.bind (get_field j k) as_bool)) False"

record multiplayer_response =
  mp_phira_id :: int
  mp_online :: bool
  mp_room :: "string option"
  mp_banned :: bool

definition user_multiplayer :: "pmp \<Rightarrow> auth_principal \<Rightarrow> int \<Rightarrow> (db option, api_error, multiplayer_response) comp" where
  "user_multiplayer G a p =
     andthen (require a ''user:view'')
       (let v = ok_of (player_info G (wrap32 p)) in
        ret \<lparr>mp_phira_id = p, mp_online = info_bool v ''online'', mp_room = Option.bind v (\<lambda>j. string_field j ''room_id''),
             mp_banned = info_bool v ''banned''\<rparr>)"

definition user_sessions :: "auth_principal \<Rightarrow> int \<Rightarrow> (db option, api_error, session list) comp" where
  "user_sessions a p =
     guarded a ''user:view'' (Inr ())
       (bnd (known_account p) (\<lambda>u.
        map_err user_db_err (select (\<lambda>d.
          take 100 (rev (sort_key s_created_at (filter (\<lambda>s. s_user_id s = Some (u_id u)) (sessions d))))))))"

record security_response =
  sc_phira_id :: int
  sc_banned :: bool
  sc_ban_reason :: "string option"
  sc_ip_history :: "json list"

definition user_security :: "pmp \<Rightarrow> auth_principal \<Rightarrow> int \<Rightarrow> (db option, api_error, security_response) comp" where
  "user_security G a p =
     andthen (require a ''user:view'')
       (ret \<lparr>sc_phira_id = p, sc_banned = info_bool (ok_of (player_info G (wrap32 p))) ''banned'',
          sc_ban_reason =
            Option.bind (ok_of (player_banlist G)) (\<lambda>v.
            Option.bind (Option.bind (get_field v ''bans'') as_array) (\<lambda>bans.
            Option.bind (find (\<lambda>b. int_field b ''user_id'' = Some p) bans) (\<lambda>b. string_field b ''reason''))),
          sc_ip_history =
            unwrap_or (Option.bind (ok_of (player_ip_history G (wrap32 p))) (\<lambda>v. Option.bind (get_field v ''ip_history'') as_array)) []\<rparr>)"

text \<open>The events that the user caused, and those about the user.\<close>

definition events_of_user :: "int \<Rightarrow> db \<Rightarrow> audit_row list" where
  "events_of_user p d =
     take 100 (rev (sort_key occurred_at (filter (\<lambda>r.
       (\<exists>u. find (\<lambda>u. phira_id u = p) (users d) = Some u \<and> ne_actor_user_id (a_event r) = Some (u_id u)) \<or>
       ne_resource_type (a_event r) = ''user'' \<and> ne_resource_id (a_event r) = show_int p) (audit_log d))))"

definition user_audit :: "auth_principal \<Rightarrow> int \<Rightarrow> (db option, api_error, audit_row list) comp" where
  "user_audit a p = guarded a ''audit:view'' (Inr ()) (map_err user_db_err (select (events_of_user p)))"

section \<open>Actions on a user\<close>

text \<open>The id of the path is filled in where the arguments are an object that names no user.\<close>

definition scoped_args :: "int \<Rightarrow> json \<Rightarrow> json" where
  "scoped_args p args =
     (case args of
        JObj kvs \<Rightarrow> if get_field args ''user_id'' = None then JObj (kvs @ [(''user_id'', JInt p)]) else args
      | _ \<Rightarrow> args)"

definition user_audit_of :: "auth_principal \<Rightarrow> headers \<Rightarrow> action_descriptor \<Rightarrow> int \<Rightarrow> command_audit option" where
  "user_audit_of a hs d p = map_option (\<lambda>c. c\<lparr>ca_resource_type := ''user'', ca_resource_id := show_int p\<rparr>) (audit_of a hs d [])"

definition user_actions ::
  "env \<Rightarrow> exec_env \<Rightarrow> uuid \<Rightarrow> waited \<Rightarrow> auth_principal \<Rightarrow> headers \<Rightarrow> int \<Rightarrow> string \<Rightarrow> json \<Rightarrow> (control_state, api_error, action_reply) comp" where
  "user_actions E X command_id w a hs p i body_args =
     bnd (some_or (get_action i) (not_found ''action'')) (\<lambda>d.
     if is_job_only_action (ad_id d)
     then throw (api_error_new LongRunningActionRequiresJob ''long-running action requires the Job API'')
     else if ad_id d = ''pmp.cli.execute''
     then throw (api_error_new ResourceConflict ''raw PMP CLI requires the dedicated CommandRun endpoint'')
     else
       let args = scoped_args p body_args in
       andthen (on_cs_pool (require a (ad_permission d)))
      (andthen (from_result (if ad_reauth d then reauth E a hs (action_risk d) else Inr ()))
      (let key = resolve_queue_key (json_text X) d args; red = redact_args args; actor = uuid_text (libs_of E) (sub a) in
       andthen (on_cs_pool (with_db (insert_queued command_id (ad_id d) actor key red)))
      (andthen (on_broker (submit
          \<lparr>t_command_id = command_id, t_action = ad_id d, t_actor = actor, t_resource_key = key, t_args = args,
           t_args_redacted = red, t_completion = \<not> long_running d, t_audit = user_audit_of a hs d p\<rparr>))
      (if long_running d then ret (Accepted command_id)
       else case w of
         Completed (Inr v) \<Rightarrow> ret (Done v)
       | Completed (Inl e) \<Rightarrow> throw (api_error_new PmpUnavailable e)
       | Dropped \<Rightarrow> throw (api_error_new PmpUnavailable ''executor dropped'')
       | TimedOut \<Rightarrow> throw (api_error_new PmpUnavailable ''command timed out''))))))"

section \<open>Who can act on a user\<close>

text \<open>The actions on a user need the permission of the action. A request that succeeds, or that changes a
  table or a queue even though it fails, names a registered action that is neither reserved for jobs
  nor the raw console; its caller is Root or has the permission of that action by its groups; and if
  the registry asks for it, the caller has freshly reauthenticated at the level of the action.\<close>

theorem user_actions_enforced:
  assumes "user_actions E X cid w a hs p i args s = (r, t)" and "(\<exists>x. r = Inr x) \<or> \<not> control_untouched s t"
  shows "\<exists>d \<in> set seed_actions. ad_id d = i \<and> \<not> is_job_only_action i \<and> i \<noteq> ''pmp.cli.execute'' \<and>
    may (cs_pool s) a (ad_permission d) \<and> (ad_reauth d \<longrightarrow> reauth E a hs (action_risk d) = Inr ())"
proof (cases "get_action i")
  case None
  with assms show ?thesis
    by (auto simp: user_actions_def some_or_def throw_def bnd_def control_reader.refl_R)
next
  case (Some d)
  then have d: "d \<in> set seed_actions" "ad_id d = i" by (auto simp: get_action_def find_Some_iff)
  have open_action: "\<not> is_job_only_action i" "i \<noteq> ''pmp.cli.execute''"
    using assms Some d(2)
    by (auto simp: user_actions_def some_or_def throw_def ret_def bnd_def control_reader.refl_R split: if_splits)
  with assms(1) Some d(2) obtain m where
    run: "andthen (on_cs_pool (require a (ad_permission d)))
      (andthen (from_result (if ad_reauth d then reauth E a hs (action_risk d) else Inr ())) m) s = (r, t)"
    by (auto simp: user_actions_def some_or_def Let_def)
  from gated_twice [OF run require_reads assms(2)]
  have "ad_reauth d \<longrightarrow> reauth E a hs (action_risk d) = Inr ()" by auto
  moreover from gated_twice [OF run require_reads assms(2)] have "may (cs_pool s) a (ad_permission d)"
    by (auto dest: require_may)
  ultimately show ?thesis using d open_action by auto
qed

lemma kicker_closes_scoped:
  "\<exists>t. user_actions demo_env demo_exec 5 (Completed (Inr JNull)) demo_principal [] 700 ''room.close''
     (JObj [(''room_id'', JStr ''A'')]) (calm_control kicker_db) = (Inr (Done JNull), t)"
proof -
  have "has_permission demo_principal ''room:manage'' (Some kicker_db) = (Inr True, Some kicker_db)"
    by (rule has_permission_granted)
      (simp_all add: demo_principal_def is_root_def kicker_granted, simp add: kicker_db_def sample_db_def empty_db_def)
  then have "require demo_principal ''room:manage'' (Some kicker_db) = (Inr (), Some kicker_db)"
    by (simp add: require_def bnd_def ret_def)
  then show ?thesis
    by (simp add: user_actions_def get_close action_def some_or_def is_job_only_action_def calm_control_def scoped_args_def
        on_cs_pool_def andthen_def bnd_def ret_def from_result_def insert_queued_def insert_run_def new_run_def map_err_def query_calm
        kicker_db_def sample_db_def empty_db_def with_db_def command_statuses_def on_broker_def submit_def Let_def worker_for_def
        idle_worker_def QUEUE_CAPACITY_def)
qed

theorem user_actions_enforced_witness: "may (Some kicker_db) demo_principal ''room:manage''"
proof -
  obtain t where "user_actions demo_env demo_exec 5 (Completed (Inr JNull)) demo_principal [] 700 ''room.close''
      (JObj [(''room_id'', JStr ''A'')]) (calm_control kicker_db) = (Inr (Done JNull), t)"
    using kicker_closes_scoped by blast
  from user_actions_enforced [OF this] show ?thesis
    by (auto simp: seed_actions_def action_def calm_control_def)
qed

end
