(* ===== verification/Rooms.thy ===== *)
theory Rooms
  imports Users
begin

text \<open>
  The room endpoints (\<^verbatim>\<open>rooms/routes.rs\<close>): the list and detail of rooms with the fields of the wire contract,
  chat, the actions scoped to a room for hosts and administrators, and the batch. The lower-casing of
  Unicode text is a parameter. For a request that submits commands the ids are drawn from a sequence
  and the ends of the waits are given in order.
\<close>

section \<open>The shape of a room\<close>

definition has_key :: "json \<Rightarrow> string \<Rightarrow> bool" where
  "has_key v k \<longleftrightarrow> get_field v k \<noteq> None"

definition count_value :: "json \<Rightarrow> int option" where
  "count_value v = (case v of JArr xs \<Rightarrow> Some (int (length xs)) | JInt n \<Rightarrow> as_i64 v | _ \<Rightarrow> None)"

definition or_else :: "'a option \<Rightarrow> 'a option \<Rightarrow> 'a option" where
  "or_else x y = (case x of Some v \<Rightarrow> Some v | None \<Rightarrow> y)"

definition counted :: "json \<Rightarrow> string \<Rightarrow> int option" where
  "counted v k = Option.bind (get_field v k) count_value"

definition present_value :: "json option \<Rightarrow> bool" where
  "present_value x \<longleftrightarrow> (case x of Some v \<Rightarrow> v \<noteq> JNull | None \<Rightarrow> False)"

text \<open>The fields that are filled in when they are missing, in order, each with its source.\<close>

definition room_fields :: "(string \<times> (json \<Rightarrow> json option)) list" where
  "room_fields =
     [(''name'', \<lambda>v. get_field v ''room_id''),
      (''room_uuid'', \<lambda>v. or_else (get_field v ''uuid'') (get_field v ''room_id'')),
      (''members'', \<lambda>v. map_option JInt (or_else (counted v ''players'') (or_else (counted v ''player_count'') (counted v ''users'')))),
      (''spectators'', \<lambda>v. map_option JInt (or_else (counted v ''monitor_count'') (counted v ''monitors''))),
      (''host_id'', \<lambda>v. Option.bind (get_field v ''host'') (\<lambda>h. or_else (get_field h ''user_id'') (get_field h ''id''))),
      (''current_chart'', \<lambda>v.
         if present_value (get_field v ''chart_id'') \<or> present_value (get_field v ''chart_name'')
         then Some (JObj [(''id'', jopt (\<lambda>x. x) (get_field v ''chart_id'')), (''name'', jopt (\<lambda>x. x) (get_field v ''chart_name''))])
         else None),
      (''max_players'', \<lambda>v. get_field v ''max_users''),
      (''persistent'', \<lambda>v. get_field v ''persistent_empty'')]"

definition fill_field :: "string \<times> (json \<Rightarrow> json option) \<Rightarrow> json \<Rightarrow> json" where
  "fill_field f v =
     (if has_key v (fst f) then v else case snd f v of Some x \<Rightarrow> set_param v (fst f) x | None \<Rightarrow> v)"

definition normalize_room :: "json \<Rightarrow> json" where
  "normalize_room v = (case v of JObj _ \<Rightarrow> fold fill_field room_fields v | _ \<Rightarrow> v)"

definition player_number :: "json \<Rightarrow> int option" where
  "player_number v = or_else (int_field v ''user_id'') (int_field v ''id'')"

definition mark_self :: "int \<Rightarrow> json \<Rightarrow> json" where
  "mark_self p v = (case player_number v of Some n \<Rightarrow> set_param v ''is_self'' (JBool (n = p)) | None \<Rightarrow> v)"

definition json_object :: "json \<Rightarrow> bool" where
  "json_object v \<longleftrightarrow> (case v of JObj _ \<Rightarrow> True | _ \<Rightarrow> False)"

definition replace_field :: "json \<Rightarrow> string \<Rightarrow> (json \<Rightarrow> json) \<Rightarrow> json" where
  "replace_field v k f = (case v of JObj kvs \<Rightarrow> JObj (map (\<lambda>e. if fst e = k then (k, f (snd e)) else e) kvs) | _ \<Rightarrow> v)"

definition enrich_room_is_self :: "int option \<Rightarrow> json \<Rightarrow> json" where
  "enrich_room_is_self my v =
     (case my of
        None \<Rightarrow> v
      | Some p \<Rightarrow>
          let v1 = (case get_field v ''host'' of
                Some h \<Rightarrow> if json_object h then replace_field v ''host'' (mark_self p) else v
              | None \<Rightarrow>
                  (case int_field v ''host_id'' of
                     Some n \<Rightarrow> set_param v ''host'' (JObj [(''user_id'', JInt n), (''is_self'', JBool (n = p))])
                   | None \<Rightarrow> v))
          in replace_field v1 ''players'' (\<lambda>x. case x of JArr ps \<Rightarrow> JArr (map (mark_self p) ps) | _ \<Rightarrow> x))"

section \<open>Lists of rooms\<close>

record room_list_params =
  rp_page :: "int option"
  rp_page_num :: "int option"
  rp_search :: "string option"
  rp_state :: "string option"
  rp_only_live :: "bool option"

record room_list_response =
  rl_items :: "json list"
  rl_total :: int
  rl_page :: int
  rl_page_num :: int

definition resolve_page :: "int option \<Rightarrow> int option \<Rightarrow> api_error + int \<times> int" where
  "resolve_page page page_num =
     (let p = max (unwrap_or page 1) 1; n = unwrap_or page_num 50 in
      if \<not> (1 \<le> n \<and> n \<le> 100) then Inl (validation ''pageNum must be between 1 and 100'') else Inr (p, n))"

definition paginate_room_items :: "json list \<Rightarrow> int \<Rightarrow> int \<Rightarrow> int option \<Rightarrow> json list" where
  "paginate_room_items rs page page_num my =
     map (\<lambda>v. enrich_room_is_self my (normalize_room v))
       (take (nat page_num) (drop (nat (wrap64 ((page - 1) * page_num) mod 2 ^ 64)) rs))"

definition normalize_state_filter :: "string \<Rightarrow> string" where
  "normalize_state_filter s = map to_ascii_lower (filter ascii_alphanumeric s)"

definition wanted_search :: "room_list_params \<Rightarrow> string option" where
  "wanted_search q = (case rp_search q of Some s \<Rightarrow> if trim s = [] then None else Some (trim s) | None \<Rightarrow> None)"

definition room_matches :: "(string \<Rightarrow> string) \<Rightarrow> room_list_params \<Rightarrow> json \<Rightarrow> bool" where
  "room_matches lower q v \<longleftrightarrow>
     (unwrap_or (rp_only_live q) False \<longrightarrow> Option.bind (get_field v ''live'') as_bool = Some True) \<and>
     (case rp_state q of
        Some st \<Rightarrow> map_option normalize_state_filter (string_field v ''state'') = Some (normalize_state_filter st)
      | None \<Rightarrow> True) \<and>
     (case wanted_search q of
        Some needle \<Rightarrow> list_ex (\<lambda>k. case string_field v k of Some s \<Rightarrow> contains (lower s) (lower needle) | None \<Rightarrow> False)
          [''room_id'', ''name'', ''uuid'', ''chart_name'']
      | None \<Rightarrow> True)"

definition filter_room_items :: "(string \<Rightarrow> string) \<Rightarrow> json list \<Rightarrow> room_list_params \<Rightarrow> json list" where
  "filter_room_items lower rs q = filter (room_matches lower q) rs"

definition of_pmp :: "uds_error + 'a \<Rightarrow> ('s, api_error, 'a) comp" where
  "of_pmp r = from_result (case r of Inl e \<Rightarrow> Inl (uds_to_api e) | Inr v \<Rightarrow> Inr v)"

definition caller_phira_id_opt :: "auth_principal option \<Rightarrow> (db option, api_error, int option) comp" where
  "caller_phira_id_opt x s =
     (case x of
        None \<Rightarrow> (Inr None, s)
      | Some a \<Rightarrow>
          if is_root a then (Inr None, s)
          else
            (case s of
               None \<Rightarrow> (Inr None, s)
             | Some _ \<Rightarrow> with_db (bnd (find_by_id (sub a)) (\<lambda>u. ret (map_option phira_id u))) s))"

definition list_page :: "(string \<Rightarrow> string) \<Rightarrow> pmp \<Rightarrow> room_list_params \<Rightarrow> (db option, api_error, int option) comp \<Rightarrow> (db option, api_error, room_list_response) comp" where
  "list_page lower G q who =
     bnd (from_result (resolve_page (rp_page q) (rp_page_num q))) (\<lambda>pn.
     bnd (of_pmp (room_list G)) (\<lambda>found.
     let rs = filter_room_items lower (fst found) q in
     bnd who (\<lambda>my.
     ret \<lparr>rl_items = paginate_room_items rs (fst pn) (snd pn) my, rl_total = int (length rs), rl_page = fst pn, rl_page_num = snd pn\<rparr>)))"

definition list_rooms ::
  "(string \<Rightarrow> string) \<Rightarrow> pmp \<Rightarrow> auth_principal option \<Rightarrow> room_list_params \<Rightarrow> (db option, api_error, room_list_response) comp" where
  "list_rooms lower G x q = list_page lower G q (caller_phira_id_opt x)"

definition admin_list_rooms ::
  "(string \<Rightarrow> string) \<Rightarrow> pmp \<Rightarrow> auth_principal \<Rightarrow> room_list_params \<Rightarrow> (db option, api_error, room_list_response) comp" where
  "admin_list_rooms lower G a q = andthen (require a ''room:view'') (list_page lower G q (ret None))"

section \<open>One room\<close>

definition route_room_info :: "pmp \<Rightarrow> auth_principal option \<Rightarrow> string \<Rightarrow> (db option, api_error, json) comp" where
  "route_room_info G x room =
     bnd (of_pmp (room_info G room)) (\<lambda>v. bnd (caller_phira_id_opt x) (\<lambda>my. ret (enrich_room_is_self my v)))"

definition route_room_history :: "pmp \<Rightarrow> string \<Rightarrow> (db option, api_error, json) comp" where
  "route_room_history G room = of_pmp (room_history G room)"

definition route_chat_history :: "pmp \<Rightarrow> string \<Rightarrow> (db option, api_error, json) comp" where
  "route_chat_history G room = of_pmp (room_chat_history G room None)"

definition caller_phira_id :: "auth_principal \<Rightarrow> (db option, api_error, int) comp" where
  "caller_phira_id a =
     with_db (bnd (find_by_id (sub a)) (\<lambda>row.
       bnd (some_or row (api_error_new UserNotFound ''user not found'')) (\<lambda>u. ret (wrap32 (phira_id u)))))"

definition send_chat ::
  "env \<Rightarrow> pmp \<Rightarrow> uds \<Rightarrow> auth_principal \<Rightarrow> string \<Rightarrow> string \<Rightarrow> (control_state, api_error, json) comp" where
  "send_chat E G u a room content =
     (let text = trim content in
      if text = [] then throw (api_error_new RoomChatEmpty ''room chat message is empty'')
      else if 500 < char_count text then throw (api_error_new RoomChatTooLong ''room chat message is too long'')
      else
        andthen (on_cs_limiter (check (now_secs (now_of E)) (''chat-send:'' @ room @ '':'' @ uuid_text (libs_of E) (sub a))
          (chat_send_per_minute (rate_limit (cfg E)))))
       (bnd (on_cs_pool (caller_phira_id a)) (\<lambda>p. of_pmp (room_chat_send G u room p text))))"

definition admin_create_room :: "pmp \<Rightarrow> auth_principal \<Rightarrow> string \<Rightarrow> string option \<Rightarrow> bool \<Rightarrow> (db option, api_error, json) comp" where
  "admin_create_room G a name endpoint persistent_empty =
     andthen (require a ''room:manage'') (of_pmp (room_create G name endpoint persistent_empty))"

definition admin_room_info :: "pmp \<Rightarrow> auth_principal \<Rightarrow> string \<Rightarrow> (db option, api_error, json) comp" where
  "admin_room_info G a room = andthen (require a ''room:view'') (of_pmp (room_info G room))"

definition admin_close_room :: "pmp \<Rightarrow> auth_principal \<Rightarrow> string \<Rightarrow> (db option, api_error, json) comp" where
  "admin_close_room G a room = andthen (require a ''room:manage'') (of_pmp (room_close G room))"

section \<open>Actions on a room\<close>

text \<open>The room of the path is filled in where the arguments are an object that names no room.\<close>

definition room_args :: "string \<Rightarrow> json \<Rightarrow> json" where
  "room_args room args =
     (if get_field args ''room_id'' = None then (case args of JObj kvs \<Rightarrow> JObj (kvs @ [(''room_id'', JStr room)]) | _ \<Rightarrow> args) else args)"

definition verify_room_host :: "exec_env \<Rightarrow> auth_principal \<Rightarrow> json \<Rightarrow> (db option, api_error, bool) comp" where
  "verify_room_host X a args =
     bnd (some_or (string_field args ''room_id'') (api_error_new RoomIdRequired ''room_id required for host action'')) (\<lambda>room.
     bnd (caller_phira_id a) (\<lambda>p.
     bnd (of_pmp (host_id (pmp_of X) room)) (\<lambda>h.
     ret (h = Some p))))"

definition authorize_room_action :: "exec_env \<Rightarrow> auth_principal \<Rightarrow> action_descriptor \<Rightarrow> json \<Rightarrow> (db option, api_error, unit) comp" where
  "authorize_room_action X a d args =
     bnd (has_permission a (ad_permission d)) (\<lambda>ok.
     bnd (if host_allowed d then verify_room_host X a args else ret False) (\<lambda>h.
     if \<not> ok \<and> \<not> h then throw permission_denied else ret ()))"

text \<open>The common end of the two endpoints: the run is recorded, the task submitted and waited for.\<close>

definition queue_action ::
  "env \<Rightarrow> exec_env \<Rightarrow> uuid \<Rightarrow> auth_principal \<Rightarrow> action_descriptor \<Rightarrow> json \<Rightarrow> bool \<Rightarrow> command_audit option \<Rightarrow> (control_state, api_error, unit) comp" where
  "queue_action E X command_id a d args completion au =
     (let key = resolve_queue_key (json_text X) d args; red = redact_args args; actor = uuid_text (libs_of E) (sub a) in
      andthen (on_cs_pool (with_db (insert_queued command_id (ad_id d) actor key red)))
        (on_broker (submit
          \<lparr>t_command_id = command_id, t_action = ad_id d, t_actor = actor, t_resource_key = key, t_args = args,
           t_args_redacted = red, t_completion = completion, t_audit = au\<rparr>)))"

definition await_action :: "action_descriptor \<Rightarrow> uuid \<Rightarrow> waited \<Rightarrow> (control_state, api_error, action_reply) comp" where
  "await_action d command_id w =
     (if long_running d then ret (Accepted command_id)
      else case w of
        Completed (Inr v) \<Rightarrow> ret (Done v)
      | Completed (Inl e) \<Rightarrow> throw (api_error_new PmpUnavailable e)
      | Dropped \<Rightarrow> throw (api_error_new PmpUnavailable ''executor dropped'')
      | TimedOut \<Rightarrow> throw (api_error_new PmpUnavailable ''command timed out''))"

definition room_action ::
  "(action_descriptor \<Rightarrow> json \<Rightarrow> command_audit option) \<Rightarrow> env \<Rightarrow> exec_env \<Rightarrow> uuid \<Rightarrow> waited \<Rightarrow> auth_principal \<Rightarrow> headers \<Rightarrow> string \<Rightarrow> string \<Rightarrow> json \<Rightarrow>
   (control_state, api_error, action_reply) comp" where
  "room_action au E X command_id w a hs room i body_args =
     bnd (some_or (get_action i) (not_found ''action'')) (\<lambda>d.
     if is_job_only_action (ad_id d)
     then throw (api_error_new LongRunningActionRequiresJob ''long-running action requires the Job API'')
     else if ad_id d = ''pmp.cli.execute''
     then throw (api_error_new ResourceConflict ''raw PMP CLI requires the dedicated CommandRun endpoint'')
     else
       let args = room_args room body_args in
       andthen (on_cs_pool (authorize_room_action X a d args))
      (andthen (from_result (if ad_reauth d then reauth E a hs (action_risk d) else Inr ()))
      (andthen (queue_action E X command_id a d args (\<not> long_running d) (au d args))
         (await_action d command_id w))))"

definition execute_room_action ::
  "env \<Rightarrow> exec_env \<Rightarrow> uuid \<Rightarrow> waited \<Rightarrow> auth_principal \<Rightarrow> headers \<Rightarrow> string \<Rightarrow> string \<Rightarrow> json \<Rightarrow> (control_state, api_error, action_reply) comp" where
  "execute_room_action E X command_id w a hs room i body_args =
     room_action (\<lambda>d args. audit_of a hs d (resolve_queue_key (json_text X) d args)) E X command_id w a hs room i body_args"

definition room_audit_of :: "auth_principal \<Rightarrow> headers \<Rightarrow> string \<Rightarrow> action_descriptor \<Rightarrow> command_audit option" where
  "room_audit_of a hs room d = map_option (\<lambda>c. c\<lparr>ca_resource_type := ''room'', ca_resource_id := room\<rparr>) (audit_of a hs d [])"

definition admin_room_action ::
  "env \<Rightarrow> exec_env \<Rightarrow> uuid \<Rightarrow> waited \<Rightarrow> auth_principal \<Rightarrow> headers \<Rightarrow> string \<Rightarrow> string \<Rightarrow> json \<Rightarrow> (control_state, api_error, action_reply) comp" where
  "admin_room_action E X command_id w a hs room i body_args =
     room_action (\<lambda>d args. room_audit_of a hs room d) E X command_id w a hs room i body_args"

section \<open>The batch\<close>

record batch_item =
  bi_room :: string
  bi_ok :: bool
  bi_result :: "json option"
  bi_error :: "(error_code \<times> string) option"

record batch_response =
  br_items :: "batch_item list"
  br_succeeded :: int
  br_failed :: int

record batch_body =
  bb_action :: string
  bb_rooms :: "string list"
  bb_args :: json
  bb_dry_run :: bool

definition item_failed :: "string \<Rightarrow> error_code \<Rightarrow> string \<Rightarrow> batch_item" where
  "item_failed room c m = \<lparr>bi_room = room, bi_ok = False, bi_result = None, bi_error = Some (c, m)\<rparr>"

definition item_done :: "string \<Rightarrow> json \<Rightarrow> batch_item" where
  "item_done room v = \<lparr>bi_room = room, bi_ok = True, bi_result = Some v, bi_error = None\<rparr>"

definition room_contains_player :: "json \<Rightarrow> int \<Rightarrow> bool" where
  "room_contains_player room p =
     (case Option.bind (get_field room ''players'') as_array of
        Some ps \<Rightarrow> list_ex (\<lambda>v. list_ex (\<lambda>k. int_field v k = Some p) [''phira_id'', ''user_id'', ''id'']) ps
      | None \<Rightarrow> False)"

definition batch_actions :: "string list" where
  "batch_actions = [''room.kick'', ''room.force_move'', ''room.ban'', ''room.unban'']"

definition batch_args :: "json \<Rightarrow> string \<Rightarrow> int \<Rightarrow> json" where
  "batch_args args room p =
     (let v = set_param args ''room_id'' (JStr room) in
      if get_field v ''user_id'' = None then set_param v ''phira_id'' (JInt p) else v)"

definition batch_target :: "json \<Rightarrow> int option" where
  "batch_target args =
     Option.bind (Option.bind (or_else (get_field args ''phira_id'') (get_field args ''user_id'')) as_i64) (\<lambda>p. if 0 < p then Some p else None)"

definition waited_item :: "string \<Rightarrow> waited \<Rightarrow> batch_item" where
  "waited_item room w =
     (case w of
        Completed (Inr v) \<Rightarrow> item_done room v
      | Completed (Inl _) \<Rightarrow> item_failed room PmpCommandFailed ''command failed''
      | Dropped \<Rightarrow> item_failed room PmpCommandFailed ''command completion channel closed''
      | TimedOut \<Rightarrow> item_failed room PmpCommandTimeout ''command timed out'')"

definition batch_one ::
  "env \<Rightarrow> exec_env \<Rightarrow> auth_principal \<Rightarrow> headers \<Rightarrow> action_descriptor \<Rightarrow> batch_body \<Rightarrow> int \<Rightarrow> uuid \<Rightarrow> waited \<Rightarrow> string \<Rightarrow>
   (control_state, api_error, batch_item) comp" where
  "batch_one E X a hs d b p command_id w room =
     (case room_info (pmp_of X) room of
        Inl _ \<Rightarrow> ret (item_failed room RoomNotFound ''room not found'')
      | Inr info \<Rightarrow>
          if ad_id d = ''room.kick'' \<and> \<not> room_contains_player info p
          then ret (item_failed room RoomUserNotPresent ''target player is not present in room'')
          else if bb_dry_run b
          then ret (item_done room (JObj [(''dry_run'', JBool True), (''action'', JStr (ad_id d)), (''phira_id'', JInt p)]))
          else
            andthen (queue_action E X command_id a d (batch_args (bb_args b) room p) True (room_audit_of a hs room d))
              (ret (waited_item room w)))"

fun batch_loop ::
  "(nat \<Rightarrow> string \<Rightarrow> (control_state, api_error, batch_item) comp) \<Rightarrow> nat \<Rightarrow> string list \<Rightarrow> batch_response \<Rightarrow> (control_state, api_error, batch_response) comp" where
  "batch_loop one k [] acc = ret acc"
| "batch_loop one k (room # rest) acc =
     bnd (one k room) (\<lambda>it.
       batch_loop one (Suc k) rest
         \<lparr>br_items = br_items acc @ [it], br_succeeded = br_succeeded acc + (if bi_ok it then 1 else 0),
          br_failed = br_failed acc + (if bi_ok it then 0 else 1)\<rparr>)"

definition unsupported_batch :: api_error where
  "unsupported_batch = api_error_new RoomBatchActionUnsupported ''unsupported room batch action''"

definition admin_room_actions_batch ::
  "env \<Rightarrow> exec_env \<Rightarrow> (nat \<Rightarrow> uuid) \<Rightarrow> (nat \<Rightarrow> waited) \<Rightarrow> auth_principal \<Rightarrow> headers \<Rightarrow> batch_body \<Rightarrow> (control_state, api_error, batch_response) comp" where
  "admin_room_actions_batch E X ids ws a hs b =
     bnd (some_or (get_action (bb_action b)) unsupported_batch) (\<lambda>d.
     if ad_id d \<notin> set batch_actions then throw unsupported_batch
     else if bb_rooms b = [] then throw (api_error_new RoomBatchTargetRequired ''room batch requires at least one room'')
     else
       bnd (some_or (batch_target (bb_args b)) (api_error_new RoomBatchTargetRequired ''room batch requires args.phira_id'')) (\<lambda>p.
       andthen (on_cs_pool (require a (ad_permission d)))
      (andthen (from_result (if ad_reauth d then reauth E a hs (action_risk d) else Inr ()))
      (batch_loop (\<lambda>k. batch_one E X a hs d b p (ids k) (ws k)) 0 (bb_rooms b) \<lparr>br_items = [], br_succeeded = 0, br_failed = 0\<rparr>))))"

section \<open>Filling in fields\<close>

lemma get_set_param: "get_field (set_param (JObj kvs) k x) j = (if j = k then Some x else get_field (JObj kvs) j)"
  by (induction kvs) (auto simp: set_param_def get_field_def)

lemma json_object_cases: "json_object v \<longleftrightarrow> (\<exists>kvs. v = JObj kvs)"
  by (cases v) (auto simp: json_object_def)

lemma fill_field_object: "json_object v \<Longrightarrow> json_object (fill_field f v)"
  by (auto simp: fill_field_def set_param_def json_object_cases split: option.splits)

lemma get_fill_field:
  "json_object v \<Longrightarrow> get_field (fill_field f v) k = (if k = fst f then or_else (get_field v k) (snd f v) else get_field v k)"
  by (auto simp: json_object_cases fill_field_def has_key_def get_set_param or_else_def split: option.splits)

text \<open>A list of fields to fill in, none of which is a source of another.\<close>

locale field_filling =
  fixes fields :: "(string \<times> (json \<Rightarrow> json option)) list"
  assumes distinct_fields: "distinct (map fst fields)"
    and sources: "f \<in> set fields \<Longrightarrow> (\<And>k. k \<notin> fst ` set fields \<Longrightarrow> get_field u k = get_field v k) \<Longrightarrow> snd f u = snd f v"
begin

lemma fold_object: "json_object v \<Longrightarrow> json_object (fold fill_field fs v)"
  by (induction fs arbitrary: v) (simp_all add: fill_field_object)

lemma fold_other: "json_object v \<Longrightarrow> k \<notin> fst ` set fs \<Longrightarrow> get_field (fold fill_field fs v) k = get_field v k"
  by (induction fs arbitrary: v) (auto simp: fill_field_object get_fill_field)

lemma fold_keeps: "json_object v \<Longrightarrow> get_field v k = Some x \<Longrightarrow> get_field (fold fill_field fs v) k = Some x"
proof (induction fs arbitrary: v)
  case Nil
  then show ?case by simp
next
  case (Cons f fs)
  then have "get_field (fill_field f v) k = Some x" by (cases "k = fst f") (auto simp: get_fill_field or_else_def)
  then show ?case using Cons fill_field_object by simp
qed

lemma filled_target:
  assumes "json_object v" and "f \<in> set fs" and "distinct (map fst fs)" and "set fs \<subseteq> set fields"
  shows "get_field (fold fill_field fs v) (fst f) = or_else (get_field v (fst f)) (snd f v)"
  using assms
proof (induction fs arbitrary: v)
  case Nil
  then show ?case by simp
next
  case (Cons g fs)
  have o: "json_object (fill_field g v)" using Cons.prems(1) by (rule fill_field_object)
  show ?case
  proof (cases "f = g")
    case True
    with Cons.prems(3) have "fst f \<notin> fst ` set fs" by auto
    with True o Cons.prems(1) show ?thesis by (simp add: fold_other get_fill_field)
  next
    case False
    with Cons.prems(2) have "f \<in> set fs" by simp
    moreover have "fst g \<notin> fst ` set fs" using Cons.prems(3) by simp
    ultimately have f: "f \<in> set fs" "fst f \<noteq> fst g" by (metis imageI)+
    have "snd f (fill_field g v) = snd f v"
      using f(1) Cons.prems by (intro sources) (auto simp: get_fill_field)
    moreover have "get_field (fold fill_field fs (fill_field g v)) (fst f) = or_else (get_field (fill_field g v) (fst f)) (snd f (fill_field g v))"
      using Cons.prems f by (intro Cons.IH o) auto
    ultimately show ?thesis using f Cons.prems(1) by (simp add: get_fill_field)
  qed
qed

lemma fill_settled:
  assumes "json_object v" and "f \<in> set fields"
  shows "fill_field f (fold fill_field fields v) = fold fill_field fields v"
proof -
  let ?w = "fold fill_field fields v"
  have "get_field ?w (fst f) = or_else (get_field v (fst f)) (snd f v)"
    by (rule filled_target [OF assms distinct_fields subset_refl])
  moreover have "snd f ?w = snd f v" using assms by (intro sources) (simp_all add: fold_other)
  ultimately show ?thesis
    by (cases "get_field v (fst f)") (auto simp: fill_field_def has_key_def or_else_def split: option.splits)
qed

lemma filling_idempotent:
  assumes "json_object v"
  shows "fold fill_field fields (fold fill_field fields v) = fold fill_field fields v"
proof -
  have "set fs \<subseteq> set fields \<Longrightarrow> fold fill_field fs (fold fill_field fields v) = fold fill_field fields v" for fs
    by (induction fs) (simp_all add: fill_settled [OF assms])
  then show ?thesis by simp
qed

end

interpretation room_shape: field_filling room_fields
proof
  show "distinct (map fst room_fields)" by (simp add: room_fields_def)
next
  fix f u v
  assume f: "f \<in> set room_fields" and same: "\<And>k. k \<notin> fst ` set room_fields \<Longrightarrow> get_field u k = get_field v k"
  have e: "get_field u ''room_id'' = get_field v ''room_id''" "get_field u ''uuid'' = get_field v ''uuid''"
    "get_field u ''players'' = get_field v ''players''" "get_field u ''player_count'' = get_field v ''player_count''"
    "get_field u ''users'' = get_field v ''users''" "get_field u ''monitor_count'' = get_field v ''monitor_count''"
    "get_field u ''monitors'' = get_field v ''monitors''" "get_field u ''host'' = get_field v ''host''"
    "get_field u ''chart_id'' = get_field v ''chart_id''" "get_field u ''chart_name'' = get_field v ''chart_name''"
    "get_field u ''max_users'' = get_field v ''max_users''" "get_field u ''persistent_empty'' = get_field v ''persistent_empty''"
    by (rule same, simp add: room_fields_def)+
  have c: "counted u k = counted v k" if "get_field u k = get_field v k" for k using that by (simp add: counted_def)
  show "snd f u = snd f v"
    using f by (simp add: room_fields_def) (elim disjE; simp add: e c)
qed

text \<open>Bringing a room into the shape of the contract can be repeated without effect, and keeps every field
  the game server sent.\<close>

theorem normalize_room_idempotent:
  "normalize_room (normalize_room v) = normalize_room v \<and> (get_field v k = Some x \<longrightarrow> get_field (normalize_room v) k = Some x)"
proof (cases "json_object v")
  case True
  then obtain kvs where v: "v = JObj kvs" by (auto simp: json_object_cases)
  let ?w = "fold fill_field room_fields v"
  have w: "normalize_room v = ?w" by (simp add: normalize_room_def v)
  have "json_object ?w" using True by (rule room_shape.fold_object)
  then have "normalize_room ?w = fold fill_field room_fields ?w" by (auto simp: json_object_cases normalize_room_def)
  with w room_shape.filling_idempotent [OF True] show ?thesis using room_shape.fold_keeps [OF True] by simp
next
  case False
  then have "normalize_room v = v" by (cases v) (auto simp: normalize_room_def json_object_def)
  then show ?thesis by simp
qed

theorem normalize_room_idempotent_witness:
  "get_field (normalize_room (JObj [(''room_id'', JStr ''A'')])) ''room_id'' = Some (JStr ''A'') \<and>
   get_field (normalize_room (JObj [(''room_id'', JStr ''A'')])) ''name'' = Some (JStr ''A'')"
proof -
  have "get_field (JObj [(''room_id'', JStr ''A'')]) ''room_id'' = Some (JStr ''A'')" by (simp add: get_field_def)
  with normalize_room_idempotent [of "JObj [(''room_id'', JStr ''A'')]" "''room_id''" "JStr ''A''"]
  have "get_field (normalize_room (JObj [(''room_id'', JStr ''A'')])) ''room_id'' = Some (JStr ''A'')" by simp
  moreover have "get_field (normalize_room (JObj [(''room_id'', JStr ''A'')])) ''name'' = Some (JStr ''A'')" by code_simp
  ultimately show ?thesis ..
qed

section \<open>Who can act on a room\<close>

lemma verify_room_host_reads: "obeys pool_untouched (verify_room_host X a args)"
  unfolding verify_room_host_def caller_phira_id_def find_by_id_def of_pmp_def
  by (intro pool_reader.obeys_intros pool_untouched_with_db reader.table_intros)

lemma verify_room_hostD:
  assumes "verify_room_host X a args s = (Inr True, t)"
  shows "real_host X a args s"
proof -
  from assms obtain room d d1 u where r: "Option.bind (get_field args ''room_id'') as_string = Some room"
    and s: "s = Some d" and q: "select (\<lambda>d. find (\<lambda>u. u_id u = sub a) (users d)) d = (Inr (Some u), d1)"
    and h: "host_id (pmp_of X) room = Inr (Some (wrap32 (phira_id u)))"
    by (auto simp: verify_room_host_def caller_phira_id_def find_by_id_def of_pmp_def string_field_def runs mapped_Inr)
  from select_InrD [OF q] have "find (\<lambda>u. u_id u = sub a) (users d) = Some u" by auto
  from find_SomeD [OF this] r s h show ?thesis by (auto simp: real_host_def)
qed

lemma authorize_room_reads: "obeys pool_untouched (authorize_room_action X a d args)"
  unfolding authorize_room_action_def
  by (intro pool_reader.obeys_intros has_permission_reads verify_room_host_reads)

lemma authorize_room_actionD:
  assumes "authorize_room_action X a d args s = (Inr u, t)"
  shows "may s a (ad_permission d) \<or> host_allowed d \<and> real_host X a args s"
proof -
  from assms obtain ok s1 h s2 where p: "has_permission a (ad_permission d) s = (Inr ok, s1)"
    and v: "(if host_allowed d then verify_room_host X a args else ret False) s1 = (Inr h, s2)" and oh: "ok \<or> h"
    by (auto simp: authorize_room_action_def runs split: if_splits)
  show ?thesis
  proof (cases ok)
    case True
    with p show ?thesis by (auto dest: has_permission_may)
  next
    case False
    with v oh have "host_allowed d" "verify_room_host X a args s1 = (Inr True, s2)" by (auto simp: ret_def split: if_splits)
    then show ?thesis
      using verify_room_hostD real_host_untouched obeys_run [OF has_permission_reads p] by blast
  qed
qed

lemma room_action_enforced:
  assumes "room_action au E X cid w a hs room i args s = (r, t)" and "(\<exists>x. r = Inr x) \<or> \<not> control_untouched s t"
  shows "\<exists>d \<in> set seed_actions. ad_id d = i \<and> \<not> is_job_only_action i \<and> i \<noteq> ''pmp.cli.execute'' \<and>
    (may (cs_pool s) a (ad_permission d) \<or> host_allowed d \<and> real_host X a (room_args room args) (cs_pool s)) \<and>
    (ad_reauth d \<longrightarrow> reauth E a hs (action_risk d) = Inr ())"
proof (cases "get_action i")
  case None
  with assms show ?thesis
    by (auto simp: room_action_def some_or_def throw_def bnd_def control_reader.refl_R)
next
  case (Some d)
  then have d: "d \<in> set seed_actions" "ad_id d = i" by (auto simp: get_action_def find_Some_iff)
  have open_action: "\<not> is_job_only_action i" "i \<noteq> ''pmp.cli.execute''"
    using assms Some d(2)
    by (auto simp: room_action_def some_or_def throw_def ret_def bnd_def control_reader.refl_R split: if_splits)
  with assms(1) Some d(2) obtain m where
    run: "andthen (on_cs_pool (authorize_room_action X a d (room_args room args)))
      (andthen (from_result (if ad_reauth d then reauth E a hs (action_risk d) else Inr ())) m) s = (r, t)"
    by (auto simp: room_action_def some_or_def Let_def)
  note gates = gated_twice [OF run authorize_room_reads assms(2)]
  from gates have "ad_reauth d \<longrightarrow> reauth E a hs (action_risk d) = Inr ()" by auto
  moreover from gates have "may (cs_pool s) a (ad_permission d) \<or> host_allowed d \<and> real_host X a (room_args room args) (cs_pool s)"
    by (auto dest: authorize_room_actionD)
  ultimately show ?thesis using d open_action by auto
qed

text \<open>C13: Both room endpoints enforce the registry: a request that succeeds, or that changes a table or a queue
  even though it fails, names a registered action that is neither reserved for jobs nor the raw
  console; its caller has the permission, or the action is open to hosts and the caller hosts, by the
  word of the game server, the very room the queued arguments name; and the reauthentication the
  registry demands has been made.\<close>

theorem room_actions_enforced:
  assumes "m = execute_room_action \<or> m = admin_room_action" and "m E X cid w a hs room i args s = (r, t)"
    and "(\<exists>x. r = Inr x) \<or> \<not> control_untouched s t"
  shows "\<exists>d \<in> set seed_actions. ad_id d = i \<and> \<not> is_job_only_action i \<and> i \<noteq> ''pmp.cli.execute'' \<and>
    (may (cs_pool s) a (ad_permission d) \<or> host_allowed d \<and> real_host X a (room_args room args) (cs_pool s)) \<and>
    (ad_reauth d \<longrightarrow> reauth E a hs (action_risk d) = Inr ())"
  using assms(1,2) room_action_enforced [OF _ assms(3)] unfolding execute_room_action_def admin_room_action_def by auto

lemma kicker_closes_room:
  "\<exists>t. admin_room_action demo_env demo_exec 5 (Completed (Inr JNull)) demo_principal [] ''A'' ''room.close''
     (JObj [(''room_id'', JStr ''B'')]) (calm_control kicker_db) = (Inr (Done JNull), t) \<and>
     (\<exists>w x. cs_broker t = [(''room:B'', w)] \<and> queued w = [x] \<and> string_field (t_args x) ''room_id'' = Some ''B'' \<and>
        map_option ca_resource_id (t_audit x) = Some ''A'')"
proof -
  have "has_permission demo_principal ''room:manage'' (Some kicker_db) = (Inr True, Some kicker_db)"
    by (rule has_permission_granted)
      (simp_all add: demo_principal_def is_root_def kicker_granted, simp add: kicker_db_def sample_db_def empty_db_def)
  moreover have "resolve_queue_key (json_text demo_exec) (action ''room.close'' ''room:manage'' ExOpenUds High True False False ''room:{room_id}'' False)
      (JObj [(''room_id'', JStr ''B'')]) = ''room:B''"
    by code_simp
  ultimately show ?thesis
    by (simp add: admin_room_action_def room_action_def get_close some_or_def is_job_only_action_def calm_control_def room_args_def
        authorize_room_action_def queue_action_def await_action_def room_audit_of_def audit_of_def
        on_cs_pool_def andthen_def bnd_def ret_def from_result_def insert_queued_def insert_run_def new_run_def map_err_def query_calm
        kicker_db_def sample_db_def empty_db_def with_db_def command_statuses_def on_broker_def submit_def Let_def worker_for_def
        idle_worker_def QUEUE_CAPACITY_def string_field_def get_field_def action_def aput_def adel_def)
qed

theorem room_actions_enforced_witness: "may (Some kicker_db) demo_principal ''room:manage''"
proof -
  obtain t where "admin_room_action demo_env demo_exec 5 (Completed (Inr JNull)) demo_principal [] ''A'' ''room.close''
      (JObj [(''room_id'', JStr ''B'')]) (calm_control kicker_db) = (Inr (Done JNull), t)"
    using kicker_closes_room by blast
  from room_actions_enforced [of admin_room_action, OF _ this] show ?thesis
    by (auto simp: seed_actions_def action_def calm_control_def)
qed

text \<open>The arguments of the body win over the path: the command acts on the room of the arguments, and the
  record for the audit log names the room of the path.\<close>

theorem audited_room_differs:
  "\<exists>t w x. admin_room_action demo_env demo_exec 5 (Completed (Inr JNull)) demo_principal [] ''A'' ''room.close''
     (JObj [(''room_id'', JStr ''B'')]) (calm_control kicker_db) = (Inr (Done JNull), t) \<and> cs_broker t = [(''room:B'', w)] \<and>
     queued w = [x] \<and> string_field (t_args x) ''room_id'' = Some ''B'' \<and> map_option ca_resource_id (t_audit x) = Some ''A''"
  using kicker_closes_room by blast

text \<open>A body without arguments has \<open>null\<close> for them, into which the room of the path is not filled in.\<close>

lemma path_room_dropped: "room_args room JNull = JNull"
  by (simp add: room_args_def)

section \<open>The batch reports what it did\<close>

lemma batch_loop_spec:
  assumes "\<And>k room s it t. one k room s = (Inr it, t) \<Longrightarrow> bi_room it = room"
    and "batch_loop one k rooms acc s = (Inr res, t)"
    and "br_succeeded acc = int (length (filter bi_ok (br_items acc)))" and "br_failed acc = int (length (filter (\<lambda>x. \<not> bi_ok x) (br_items acc)))"
  shows "map bi_room (br_items res) = map bi_room (br_items acc) @ rooms \<and>
    br_succeeded res = int (length (filter bi_ok (br_items res))) \<and> br_failed res = int (length (filter (\<lambda>x. \<not> bi_ok x) (br_items res)))"
  using assms(2-4)
proof (induction rooms arbitrary: k acc s)
  case Nil
  then show ?case by (simp add: ret_def)
next
  case (Cons room rooms)
  from Cons.prems(1) obtain it s1 where it: "one k room s = (Inr it, s1)" and rest: "batch_loop one (Suc k) rooms
      \<lparr>br_items = br_items acc @ [it], br_succeeded = br_succeeded acc + (if bi_ok it then 1 else 0),
       br_failed = br_failed acc + (if bi_ok it then 0 else 1)\<rparr> s1 = (Inr res, t)"
    by (auto simp: bnd_runs)
  from Cons.IH [OF rest] Cons.prems(2,3) assms(1) [OF it] show ?case by auto
qed

lemma batch_one_room: "batch_one E X a hs d b p i w room s = (Inr it, t) \<Longrightarrow> bi_room it = room"
  by (auto simp: batch_one_def waited_item_def item_failed_def item_done_def runs split: sum.splits if_splits waited.splits)

lemma batch_one_preview:
  "bb_dry_run b \<Longrightarrow> batch_one E X a hs d b p i w room s = (r, t) \<Longrightarrow> t = s"
  by (auto simp: batch_one_def ret_def split: sum.splits if_splits)

lemma batch_loop_preview:
  assumes "\<And>k room s r t. one k room s = (r, t) \<Longrightarrow> t = s"
  shows "batch_loop one k rooms acc s = (r, t) \<Longrightarrow> t = s"
proof (induction rooms arbitrary: k acc)
  case Nil
  then show ?case by (simp add: ret_def)
next
  case (Cons room rooms)
  then show ?case using assms [of k room s] by (auto simp: bnd_def split: prod.splits sum.splits)
qed

text \<open>The batch is honest: an answer has one item for each room that was asked for, in that order, and its
  two counts are the numbers of items that succeeded and that failed; the caller had the permission
  and the action is one of the four the endpoint allows; and a preview leaves every table and every
  queue as it was.\<close>

theorem batch_reports:
  assumes "admin_room_actions_batch E X ids ws a hs b s = (Inr res, t)"
  shows "map bi_room (br_items res) = bb_rooms b \<and> br_succeeded res = int (length (filter bi_ok (br_items res))) \<and>
    br_failed res = int (length (filter (\<lambda>x. \<not> bi_ok x) (br_items res))) \<and>
    (\<exists>d \<in> set seed_actions. ad_id d = bb_action b \<and> bb_action b \<in> set batch_actions \<and> may (cs_pool s) a (ad_permission d)) \<and>
    (bb_dry_run b \<longrightarrow> control_untouched s t)"
proof -
  from assms obtain d p u s1 where d: "get_action (bb_action b) = Some d" "ad_id d \<in> set batch_actions"
      and req: "require a (ad_permission d) (cs_pool s) = (Inr u, s1)"
      and loop: "batch_loop (\<lambda>k. batch_one E X a hs d b p (ids k) (ws k)) 0 (bb_rooms b) \<lparr>br_items = [], br_succeeded = 0, br_failed = 0\<rparr>
        (s\<lparr>cs_pool := s1\<rparr>) = (Inr res, t)"
    by (auto simp: admin_room_actions_batch_def runs split: if_splits)
  have "d \<in> set seed_actions" "ad_id d = bb_action b" using d(1) by (auto simp: get_action_def find_Some_iff)
  moreover have "may (cs_pool s) a (ad_permission d)" using req by (rule require_may)
  moreover have "control_untouched s t" if "bb_dry_run b"
  proof -
    have "t = s\<lparr>cs_pool := s1\<rparr>" using loop by (rule batch_loop_preview [rotated]) (rule batch_one_preview [OF that])
    moreover have "pool_untouched (cs_pool s) s1" by (rule obeys_run [OF require_reads req])
    ultimately show ?thesis by (simp add: control_untouched_def)
  qed
  moreover note batch_loop_spec [OF _ loop]
  ultimately show ?thesis using d(2) by (auto dest: batch_one_room)
qed

definition bouncer_db :: db where
  "bouncer_db = sample_db\<lparr>group_permissions := [(1, ''room:kick'')]\<rparr>"

definition busy_exec :: exec_env where
  "busy_exec = demo_exec\<lparr>pmp_of := (\<lambda>_ v. if string_field v ''room_id'' = Some ''A''
     then Inr (JObj [(''players'', JArr [JObj [(''id'', JInt 5)]])]) else Inl (Unavailable ''no such room''))\<rparr>"

definition preview_body :: batch_body where
  "preview_body = \<lparr>bb_action = ''room.kick'', bb_rooms = [''A'', ''B''], bb_args = JObj [(''phira_id'', JInt 5)], bb_dry_run = True\<rparr>"

lemma preview_runs:
  "\<exists>res. admin_room_actions_batch demo_env busy_exec (\<lambda>k. 5) (\<lambda>k. TimedOut) demo_principal [] preview_body (calm_control bouncer_db) =
     (Inr res, calm_control bouncer_db) \<and> map bi_ok (br_items res) = [True, False]"
proof -
  have "granted bouncer_db 7 = {''room:kick''}"
    by (auto simp: granted_def member_groups_def bouncer_db_def sample_db_def new_group_def empty_db_def ROOT_WILDCARD_def)
  then have "has_permission demo_principal ''room:kick'' (Some bouncer_db) = (Inr True, Some bouncer_db)"
    by (intro has_permission_granted)
      (simp_all add: demo_principal_def is_root_def, simp add: bouncer_db_def sample_db_def empty_db_def)
  then have "require demo_principal ''room:kick'' (Some bouncer_db) = (Inr (), Some bouncer_db)"
    by (simp add: require_def bnd_def ret_def)
  moreover have "get_action ''room.kick'' = Some (action ''room.kick'' ''room:kick'' ExOpenUds Medium True False True ''room:{room_id}'' False)"
    by (simp add: get_action_def seed_actions_def action_def)
  moreover have "batch_target (JObj [(''phira_id'', JInt 5)]) = Some 5" by code_simp
  moreover have "room_info (pmp_of busy_exec) ''A'' = Inr (JObj [(''players'', JArr [JObj [(''id'', JInt 5)]])])"
    "room_info (pmp_of busy_exec) ''B'' = Inl (Unavailable ''no such room'')"
    by (simp_all add: busy_exec_def room_info_def in_room_def string_field_def get_field_def)
  moreover have "room_contains_player (JObj [(''players'', JArr [JObj [(''id'', JInt 5)]])]) 5" by code_simp
  ultimately show ?thesis
    by (simp add: admin_room_actions_batch_def preview_body_def some_or_def batch_actions_def action_def on_cs_pool_def calm_control_def
        andthen_def bnd_def ret_def from_result_def batch_one_def item_done_def item_failed_def)
qed

theorem batch_reports_witness:
  "\<exists>res. admin_room_actions_batch demo_env busy_exec (\<lambda>k. 5) (\<lambda>k. TimedOut) demo_principal [] preview_body (calm_control bouncer_db) =
     (Inr res, calm_control bouncer_db) \<and> map bi_room (br_items res) = [''A'', ''B''] \<and> br_succeeded res = 1 \<and> br_failed res = 1"
proof -
  obtain res where run: "admin_room_actions_batch demo_env busy_exec (\<lambda>k. 5) (\<lambda>k. TimedOut) demo_principal [] preview_body (calm_control bouncer_db) =
      (Inr res, calm_control bouncer_db)" and ok: "map bi_ok (br_items res) = [True, False]"
    using preview_runs by (elim exE conjE)
  from ok obtain x y where "br_items res = [x, y]" "bi_ok x" "\<not> bi_ok y" by (auto simp: map_eq_Cons_conv)
  with batch_reports [OF run] have "map bi_room (br_items res) = [''A'', ''B''] \<and> br_succeeded res = 1 \<and> br_failed res = 1"
    by (simp add: preview_body_def)
  from conjI [OF run this] show ?thesis by (rule exI)
qed

text \<open>With both numbers in the arguments the batch looks for one player and the command acts on another.\<close>

lemma batch_other_player:
  "batch_target (JObj [(''phira_id'', JInt 5), (''user_id'', JInt 9)]) = Some 5 \<and>
   int_field (normalize_openuds_args ''room.kick'' (batch_args (JObj [(''phira_id'', JInt 5), (''user_id'', JInt 9)]) ''A'' 5)) ''user_id'' = Some 9"
  by code_simp

end
