(* ===== verification/Logs.thy ===== *)
theory Logs
  imports Actions Realtime
begin

text \<open>
  The logs of the game server (\<^verbatim>\<open>logs/mod.rs\<close>, \<^verbatim>\<open>logs/routes.rs\<close>, \<^verbatim>\<open>logs/translator.rs\<close>): the log lines in
  the answers and stream frames of the server, their best-effort structure, filters and pages, the
  console, the live stream, and the translation of error codes. The JSON parser, the hash and the
  Unicode lower-casing are parameters.
\<close>

section \<open>Log lines\<close>

record log_line =
  ll_seq :: "nat option"
  ll_line :: string

record log_entry =
  le_id :: string
  le_timestamp :: string
  le_service :: string
  le_level :: string
  le_event :: "string option"
  le_message :: string
  le_error_code :: "string option"
  le_request_id :: "string option"
  le_command_id :: "string option"
  le_room_uuid :: "string option"
  le_user_id :: "string option"

definition as_u64 :: "json \<Rightarrow> nat option" where
  "as_u64 v = (case v of JInt n \<Rightarrow> if 0 \<le> n \<and> n < 2 ^ 64 then Some (nat n) else None | _ \<Rightarrow> None)"

text \<open>An object with a text under \<open>line\<close>; and one element of a frame, which may be a bare text.\<close>

definition line_of :: "json \<Rightarrow> log_line option" where
  "line_of v = map_option (\<lambda>s. \<lparr>ll_seq = Option.bind (get_field v ''seq'') as_u64, ll_line = s\<rparr>) (string_field v ''line'')"

definition occurrence :: "json \<Rightarrow> log_line option" where
  "occurrence v = (case as_string v of Some s \<Rightarrow> Some \<lparr>ll_seq = None, ll_line = s\<rparr> | None \<Rightarrow> line_of v)"

definition parse_log_occurrences :: "json \<Rightarrow> log_line list" where
  "parse_log_occurrences v =
     (case v of
        JArr xs \<Rightarrow> List.map_filter occurrence xs
      | JObj _ \<Rightarrow> (case occurrence v of Some l \<Rightarrow> [l] | None \<Rightarrow> [])
      | _ \<Rightarrow> [])"

definition history_entries_of :: "json \<Rightarrow> log_line list" where
  "history_entries_of v =
     (let parsed = (case Option.bind (get_field v ''entries'') as_array of Some xs \<Rightarrow> List.map_filter line_of xs | None \<Rightarrow> []) in
      if parsed \<noteq> [] then parsed
      else
        (case Option.bind (get_field v ''lines'') as_array of
           Some xs \<Rightarrow> List.map_filter (\<lambda>x. map_option (\<lambda>s. \<lparr>ll_seq = None, ll_line = s\<rparr>) (as_string x)) xs
         | None \<Rightarrow> parse_log_occurrences v))"

section \<open>Structure\<close>

definition text_field :: "json \<Rightarrow> string \<Rightarrow> string option" where
  "text_field v k =
     (case get_field v k of
        Some (JStr s) \<Rightarrow> if s \<noteq> [] then Some s else None
      | Some (JInt n) \<Rightarrow> Some (show_int n)
      | Some (JNum s) \<Rightarrow> Some s
      | _ \<Rightarrow> None)"

definition looks_like_timestamp :: "string \<Rightarrow> bool" where
  "looks_like_timestamp s \<longleftrightarrow> 10 \<le> length s \<and> s ! 4 = CHR ''-'' \<and> list_all digit (take 4 s)"

definition is_known_level :: "string \<Rightarrow> bool" where
  "is_known_level s \<longleftrightarrow> s \<in> {''trace'', ''debug'', ''info'', ''warn'', ''warning'', ''error'', ''fatal''}"

definition normalize_level :: "string \<Rightarrow> string" where
  "normalize_level s = (if s = ''warning'' then ''warn'' else s)"

definition log_id_for :: "libs \<Rightarrow> string \<Rightarrow> nat option \<Rightarrow> string" where
  "log_id_for L line q =
     (case q of Some n \<Rightarrow> ''pmp-'' @ nat_digits n | None \<Rightarrow> ''pmp-legacy-'' @ hex (take 8 (sha256 L line)))"

text \<open>\<open>str::trim_start\<close>; the text before the first white space and what follows it; the text before the
  first closing bracket and what follows it.\<close>

definition trim_start :: "string \<Rightarrow> string" where
  "trim_start s = strip_leading ws_encodings s"

fun break_ws :: "string \<Rightarrow> string \<times> string option" where
  "break_ws [] = ([], None)"
| "break_ws (c # cs) =
     (case leading_ws ws_encodings (c # cs) of
        Some n \<Rightarrow> ([], Some (drop n (c # cs)))
      | None \<Rightarrow> (case break_ws cs of (w, r) \<Rightarrow> (c # w, r)))"

fun break_bracket :: "string \<Rightarrow> (string \<times> string) option" where
  "break_bracket [] = None"
| "break_bracket (c # cs) =
     (if c = CHR '']'' then Some ([], cs) else map_option (\<lambda>(w, r). (c # w, r)) (break_bracket cs))"

definition trim_brackets :: "string \<Rightarrow> string" where
  "trim_brackets s =
     (let b = (\<lambda>c. c = CHR ''['' \<or> c = CHR '']'') in rev (dropWhile b (rev (dropWhile b s))))"

definition unstructured :: "string \<Rightarrow> log_entry" where
  "unstructured whole =
     \<lparr>le_id = [], le_timestamp = [], le_service = ''pmp'', le_level = ''info'', le_event = None, le_message = whole, le_error_code = None,
      le_request_id = None, le_command_id = None, le_room_uuid = None, le_user_id = None\<rparr>"

definition structured_json :: "string \<Rightarrow> json \<Rightarrow> log_entry" where
  "structured_json whole v =
     (let fields = unwrap_or (get_field v ''fields'') v in
      \<lparr>le_id = [], le_timestamp = unwrap_or (string_field v ''timestamp'') [], le_service = ''pmp'',
       le_level = (case string_field v ''level'' of Some l \<Rightarrow> normalize_level (to_ascii_lowercase l) | None \<Rightarrow> ''info''),
       le_event = text_field fields ''event'',
       le_message = unwrap_or (Option.bind (case get_field fields ''message'' of Some m \<Rightarrow> Some m | None \<Rightarrow> get_field v ''message'') as_string) whole,
       le_error_code = text_field fields ''error_code'', le_request_id = text_field fields ''request_id'',
       le_command_id = text_field fields ''command_id'',
       le_room_uuid = (case text_field fields ''room_uuid'' of Some r \<Rightarrow> Some r | None \<Rightarrow> text_field fields ''room_id''),
       le_user_id = text_field fields ''user_id''\<rparr>)"

definition bracketed :: "string \<Rightarrow> string \<Rightarrow> log_entry" where
  "bracketed whole rest =
     (case break_bracket rest of
        None \<Rightarrow> unstructured whole
      | Some (ts, r) \<Rightarrow>
          let e = (unstructured whole)\<lparr>le_timestamp := ts\<rparr> in
          (case Option.bind (strip_prefix ''['' (trim_start r)) break_bracket of
             None \<Rightarrow> e
           | Some (lvl, m) \<Rightarrow> e\<lparr>le_level := normalize_level (to_ascii_lowercase lvl), le_message := trim_start m\<rparr>))"

definition unbracketed :: "string \<Rightarrow> log_entry" where
  "unbracketed whole =
     (case break_ws whole of (first, r1) \<Rightarrow>
        if \<not> looks_like_timestamp first then unstructured whole
        else
          let e = (unstructured whole)\<lparr>le_timestamp := first\<rparr>;
              (second, r2) = (case r1 of None \<Rightarrow> ([], None) | Some r \<Rightarrow> break_ws r);
              lvl = to_ascii_lowercase (trim_brackets second)
          in if is_known_level lvl then e\<lparr>le_level := normalize_level lvl, le_message := trim_start (unwrap_or r2 [])\<rparr>
             else e\<lparr>le_message := trim_start (drop (length first) whole)\<rparr>)"

definition parse_log_line_with_seq :: "(string \<Rightarrow> json option) \<Rightarrow> libs \<Rightarrow> log_line \<Rightarrow> log_entry" where
  "parse_log_line_with_seq parse L l =
     (let whole = trim (ll_line l);
          e = (case parse whole of
                 Some v \<Rightarrow> structured_json whole v
               | None \<Rightarrow> (case strip_prefix ''['' whole of Some rest \<Rightarrow> bracketed whole rest | None \<Rightarrow> unbracketed whole))
      in e\<lparr>le_id := log_id_for L whole (ll_seq l), le_message := (if le_message e = [] then whole else le_message e)\<rparr>)"

section \<open>Filters and pages\<close>

record log_params =
  lp_limit :: "nat option"
  lp_page :: "int option"
  lp_page_num :: "int option"
  lp_level :: "string option"
  lp_search :: "string option"
  lp_log_id :: "string option"

record log_list =
  lr_items :: "log_entry list"
  lr_total :: int
  lr_page :: int
  lr_page_num :: int

definition given :: "string option \<Rightarrow> string option" where
  "given x = (case x of Some (c # cs) \<Rightarrow> Some (c # cs) | _ \<Rightarrow> None)"

definition wanted_levels :: "log_params \<Rightarrow> string list" where
  "wanted_levels q =
     (case lp_level q of
        None \<Rightarrow> []
      | Some v \<Rightarrow> map to_ascii_lowercase (filter (\<lambda>l. l \<noteq> []) (map trim (split_on (CHR '','') v))))"

definition log_wanted :: "(string \<Rightarrow> string) \<Rightarrow> log_params \<Rightarrow> log_entry \<Rightarrow> bool" where
  "log_wanted lower q e \<longleftrightarrow>
     (wanted_levels q = [] \<or> to_ascii_lowercase (le_level e) \<in> set (wanted_levels q)) \<and>
     (case given (lp_search q) of
        None \<Rightarrow> True
      | Some s \<Rightarrow>
          contains (lower (le_message e)) (lower s) \<or>
          (case le_error_code e of Some c \<Rightarrow> contains (lower c) (lower s) | None \<Rightarrow> False)) \<and>
     (case given (lp_log_id q) of None \<Rightarrow> True | Some i \<Rightarrow> to_ascii_lowercase (le_id e) = to_ascii_lowercase i)"

definition apply_log_filters :: "(string \<Rightarrow> string) \<Rightarrow> log_entry list \<Rightarrow> log_params \<Rightarrow> log_entry list" where
  "apply_log_filters lower es q = filter (log_wanted lower q) es"

text \<open>The offset is an \<open>i64\<close> product that wraps, read as a \<open>usize\<close>.\<close>

definition log_page :: "log_entry list \<Rightarrow> int \<Rightarrow> int \<Rightarrow> log_list" where
  "log_page es page n =
     \<lparr>lr_items = take (nat n) (drop (nat (wrap64 ((page - 1) * n) mod 2 ^ 64)) es), lr_total = int (length es), lr_page = page, lr_page_num = n\<rparr>"

definition log_window :: "log_params \<Rightarrow> nat" where
  "log_window q = max 1 (min 2000 (unwrap_or (lp_limit q) 2000))"

definition of_uds :: "uds_error + 'a \<Rightarrow> ('s, api_error, 'a) comp" where
  "of_uds r = from_result (case r of Inl e \<Rightarrow> Inl (uds_to_api e) | Inr v \<Rightarrow> Inr v)"

definition log_history ::
  "(string \<Rightarrow> json option) \<Rightarrow> (string \<Rightarrow> string) \<Rightarrow> libs \<Rightarrow> auth_principal \<Rightarrow> log_params \<Rightarrow> pmp \<Rightarrow> (db option, api_error, log_list) comp" where
  "log_history parse lower L a q G =
     andthen (require a ''logs:view'')
    (let page = max (unwrap_or (lp_page q) 1) 1; n = unwrap_or (lp_page_num q) 20 in
     andthen (ensure (1 \<le> n \<and> n \<le> 100) (validation ''pageNum must be between 1 and 100''))
    (bnd (of_uds (G ''logs.history'' (JObj [(''limit'', JInt (int (log_window q)))]))) (\<lambda>v.
     ret (log_page (apply_log_filters lower (map (parse_log_line_with_seq parse L) (history_entries_of v)) q) page n))))"

section \<open>The console and the live stream\<close>

definition submit_input ::
  "env \<Rightarrow> uuid \<Rightarrow> auth_principal \<Rightarrow> headers \<Rightarrow> string \<Rightarrow> pmp \<Rightarrow> (control_state, api_error, json) comp" where
  "submit_input E audit_id a hs command G =
     andthen (on_cs_pool (require a ''pmp:cli''))
    (andthen (on_cs_limiter (check (now_secs (now_of E)) (''raw-cli:'' @ uuid_text (libs_of E) (sub a)) (raw_cli_per_minute (rate_limit (cfg E)))))
    (andthen (from_result (reauth E a hs RHigh))
    (let r = cli_execute G command in
     andthen (ignore (on_cs_pool (with_db (record_principal audit_id a ''pmp.cli.execute'' ''pmp'' ''console''
         (JObj [(''command'', JStr ''[REDACTED input]'')]) (case r of Inr _ \<Rightarrow> ''succeeded'' | Inl _ \<Rightarrow> ''failed'')
         (case r of Inr _ \<Rightarrow> [] | Inl _ \<Rightarrow> ''cli_execute_error'') [] [] []))))
     (of_uds r))))"

text \<open>What the subscription of a stream delivers: a frame, or notice that frames were lost.\<close>

definition log_events :: "(string \<Rightarrow> json option) \<Rightarrow> libs \<Rightarrow> stream_frame option list \<Rightarrow> log_entry list" where
  "log_events parse L fs =
     concat (map (\<lambda>f. map (parse_log_line_with_seq parse L) (parse_log_occurrences (sf_frames f)))
       (filter (\<lambda>f. sf_stream f = ''logs'') (List.map_filter id fs)))"

definition log_stream ::
  "(string \<Rightarrow> json option) \<Rightarrow> libs \<Rightarrow> auth_principal \<Rightarrow> bool \<Rightarrow> stream_frame option list \<Rightarrow> (db option, api_error, log_entry list) comp" where
  "log_stream parse L a up fs =
     andthen (require a ''logs:view'')
    (andthen (ensure up (api_error_new PmpUnavailable ''pmp not connected''))
     (ret (log_events parse L fs)))"

section \<open>Translation\<close>

record translated_error =
  te_title :: string
  te_explanation :: string
  te_module :: string
  te_severity :: string
  te_suggestion :: "string option"

definition translated :: "string \<Rightarrow> string \<Rightarrow> string \<Rightarrow> string \<Rightarrow> string option \<Rightarrow> translated_error" where
  "translated t e m s g = \<lparr>te_title = t, te_explanation = e, te_module = m, te_severity = s, te_suggestion = g\<rparr>"

definition translate :: "string \<Rightarrow> translated_error option" where
  "translate c =
     (if c = ''PMP_OPENUDS_TIMEOUT''
       then Some (translated (''PMP '' @ bytes [229, 145, 189, 228, 187, 164, 229, 147, 141, 229, 186, 148, 232, 182, 133, 230, 151, 182]) (''PPB '' @ bytes [229, 183, 178, 229, 143, 145, 233, 128, 129, 229, 145, 189, 228, 187, 164, 239, 188, 140, 228, 189, 134] @ '' PMP '' @ bytes [230, 156, 170, 229, 156, 168, 233, 162, 132, 231, 174, 151, 229, 134, 133, 232, 191, 148, 229, 155, 158, 227, 128, 130]) ''OpenUDS'' ''warning''
         (Some (bytes [231, 168, 141, 229, 144, 142, 233, 135, 141, 232, 175, 149, 239, 188, 140, 230, 136, 150, 230, 163, 128, 230, 159, 165] @ '' PMP '' @ bytes [230, 152, 175, 229, 144, 166, 232, 191, 135, 232, 189, 189, 227, 128, 130])))
      else if c = ''PMP_OPENUDS_UNAVAILABLE'' \<or> c = ''PMP_UNAVAILABLE''
       then Some (translated (''PMP '' @ bytes [232, 191, 158, 230, 142, 165, 228, 184, 141, 229, 143, 175, 231, 148, 168]) (''OpenUDS '' @ bytes [232, 191, 158, 230, 142, 165, 230, 150, 173, 229, 188, 128, 230, 136, 150] @ '' PMP '' @ bytes [230, 156, 170, 232, 191, 144, 232, 161, 140, 239, 188, 140] @ ''PPB '' @ bytes [229, 176, 134, 232, 135, 170, 229, 138, 168, 233, 135, 141, 232, 191, 158, 227, 128, 130]) ''OpenUDS'' ''error''
         (Some (bytes [231, 161, 174, 232, 174, 164] @ '' PMP '' @ bytes [232, 191, 155, 231, 168, 139, 228, 184, 142] @ '' socket '' @ bytes [232, 183, 175, 229, 190, 132, 229, 143, 175, 231, 148, 168, 227, 128, 130])))
      else if c = ''PMP_COMMAND_ERROR''
       then Some (translated (''PMP '' @ bytes [229, 145, 189, 228, 187, 164, 230, 137, 167, 232, 161, 140, 229, 164, 177, 232, 180, 165]) (''PMP '' @ bytes [230, 139, 146, 231, 187, 157, 228, 186, 134, 232, 175, 165, 229, 145, 189, 228, 187, 164, 230, 136, 150, 229, 145, 189, 228, 187, 164, 230, 137, 167, 232, 161, 140, 229, 135, 186, 233, 148, 153, 227, 128, 130]) ''PMP'' ''warning''
         (None))
      else if c = ''PHIRA_API_UNAVAILABLE''
       then Some (translated (''Phira API '' @ bytes [228, 184, 141, 229, 143, 175, 231, 148, 168]) (''PPB '' @ bytes [230, 151, 160, 230, 179, 149, 232, 174, 191, 233, 151, 174] @ '' Phira API'' @ bytes [239, 188, 140, 232, 175, 183, 231, 168, 141, 229, 144, 142, 233, 135, 141, 232, 175, 149, 227, 128, 130]) ''Phira API'' ''warning''
         (None))
      else if c = ''PHIRA_REAUTH_REQUIRED''
       then Some (translated (bytes [233, 156, 128, 232, 166, 129, 233, 135, 141, 230, 150, 176, 233, 170, 140, 232, 175, 129] @ '' Phira '' @ bytes [232, 186, 171, 228, 187, 189]) (''Phira '' @ bytes [229, 135, 173, 230, 141, 174, 229, 183, 178, 232, 191, 135, 230, 156, 159, 239, 188, 140, 232, 175, 183, 233, 135, 141, 230, 150, 176, 231, 153, 187, 229, 189, 149, 233, 170, 140, 232, 175, 129, 227, 128, 130]) ''Auth'' ''info''
         (Some (bytes [233, 135, 141, 230, 150, 176, 233, 170, 140, 232, 175, 129] @ '' Phira '' @ bytes [229, 175, 134, 231, 160, 129, 228, 187, 165, 232, 142, 183, 229, 143, 150, 231, 159, 173, 230, 156, 159, 230, 142, 136, 230, 157, 131, 227, 128, 130])))
      else if c = ''RATE_LIMIT''
       then Some (translated (bytes [232, 175, 183, 230, 177, 130, 232, 191, 135, 228, 186, 142, 233, 162, 145, 231, 185, 129]) (bytes [232, 182, 133, 232, 191, 135, 233, 128, 159, 231, 142, 135, 233, 153, 144, 229, 136, 182, 239, 188, 140, 232, 175, 183, 231, 168, 141, 229, 144, 142, 233, 135, 141, 232, 175, 149, 227, 128, 130]) ''PPB'' ''warning''
         (None))
      else if c = ''PERMISSION_DENIED''
       then Some (translated (bytes [230, 157, 131, 233, 153, 144, 228, 184, 141, 232, 182, 179]) (bytes [229, 189, 147, 229, 137, 141, 232, 186, 171, 228, 187, 189, 230, 178, 161, 230, 156, 137, 230, 137, 167, 232, 161, 140, 232, 175, 165, 230, 147, 141, 228, 189, 156, 231, 154, 132, 230, 157, 131, 233, 153, 144, 227, 128, 130]) ''RBAC'' ''warning''
         (None))
      else if c = ''CAPABILITY_NOT_SUPPORTED''
       then Some (translated (''PMP '' @ bytes [232, 131, 189, 229, 138, 155, 231, 188, 186, 229, 164, 177]) (bytes [229, 189, 147, 229, 137, 141] @ '' PMP '' @ bytes [231, 137, 136, 230, 156, 172, 228, 184, 141, 230, 148, 175, 230, 140, 129, 232, 175, 165, 232, 131, 189, 229, 138, 155, 239, 188, 140, 229, 138, 159, 232, 131, 189, 229, 183, 178, 231, 166, 129, 231, 148, 168, 227, 128, 130]) ''PMP'' ''info''
         (None))
      else None)"

definition translate_pattern :: "string \<Rightarrow> translated_error option" where
  "translate_pattern line =
     (if list_ex (contains (to_ascii_lowercase line)) [''timeout'', ''timed out'', ''connection refused'', ''broken pipe'', ''no route to host'']
      then Some (translated (bytes [231, 150, 145, 228, 188, 188, 231, 189, 145, 231, 187, 156] @ ''/'' @ bytes [232, 182, 133, 230, 151, 182, 233, 148, 153, 232, 175, 175]) (bytes [230, 151, 165, 229, 191, 151, 232, 161, 140, 229, 140, 185, 233, 133, 141, 229, 184, 184, 232, 167, 129, 231, 189, 145, 231, 187, 156, 233, 148, 153, 232, 175, 175, 230, 168, 161, 229, 188, 143, 227, 128, 130]) ''Network'' ''warning'' None)
      else None)"

text \<open>The query and the body of a translation are alike.\<close>

definition route_translate ::
  "auth_principal \<Rightarrow> string option \<Rightarrow> string option \<Rightarrow> (db option, api_error, string \<times> translated_error option) comp" where
  "route_translate a c error_code =
     andthen (require a ''logs:view'')
    (let t = (case c of Some x \<Rightarrow> x | None \<Rightarrow> unwrap_or error_code []) in
     ret (t, case translate t of Some x \<Rightarrow> Some x | None \<Rightarrow> translate_pattern t))"

section \<open>Reaching the game server\<close>

text \<open>An endpoint that passes its request on to the game server, and the states in which its caller is allowed
  to: in any other it answers with an error, whatever the server would have said.\<close>

locale game_gate =
  fixes serve :: "pmp \<Rightarrow> ('s, 'e, 'a) comp"
    and allowed :: "'s \<Rightarrow> bool"
  assumes gate: "\<not> allowed s \<Longrightarrow> \<exists>e t. \<forall>G. serve G s = (Inl e, t)"
begin

lemma answer_allowed: "serve G s = (Inr x, t) \<Longrightarrow> allowed s"
  using gate by fastforce

lemma consulted_allowed: "serve G s \<noteq> serve G' s \<Longrightarrow> allowed s"
  using gate by metis

end

lemma require_stops: "\<not> may s a p \<Longrightarrow> \<exists>e t. require a p s = (Inl e, t)"
  by (cases "require a p s"; cases "fst (require a p s)") (auto dest: require_may)

text \<open>The two shapes of a gate: a permission, or a permission and a fresh reauthentication.\<close>

lemma permission_gate: "game_gate (\<lambda>G. andthen (require a p) (m G)) (\<lambda>s. may s a p)"
proof
  fix s
  assume "\<not> may s a p"
  then obtain e t where "require a p s = (Inl e, t)" using require_stops by blast
  then show "\<exists>e t. \<forall>G. andthen (require a p) (m G) s = (Inl e, t)" by (simp add: andthen_def bnd_def)
qed

lemma reauth_gate:
  "game_gate (\<lambda>G. andthen (require a p) (andthen (from_result (reauth E a hs r)) (m G))) (\<lambda>s. may s a p \<and> reauth E a hs r = Inr ())"
proof
  fix s
  assume no: "\<not> (may s a p \<and> reauth E a hs r = Inr ())"
  obtain x t where q: "require a p s = (x, t)" by (cases "require a p s")
  show "\<exists>e t. \<forall>G. andthen (require a p) (andthen (from_result (reauth E a hs r)) (m G)) s = (Inl e, t)"
  proof (cases x)
    case (Inl e)
    with q show ?thesis by (simp add: andthen_def bnd_def)
  next
    case (Inr u)
    with q no require_may [of a p s u t] obtain e where "reauth E a hs r = Inl e" by (cases "reauth E a hs r") auto
    with q Inr show ?thesis by (simp add: andthen_def bnd_def from_result_def)
  qed
qed

text \<open>The console lets a command through only within its rate.\<close>

definition within_rate :: "env \<Rightarrow> auth_principal \<Rightarrow> buckets \<Rightarrow> bool" where
  "within_rate E a bs \<longleftrightarrow>
     length (recent (now_secs (now_of E)) (bucket_of bs (''raw-cli:'' @ uuid_text (libs_of E) (sub a)))) < raw_cli_per_minute (rate_limit (cfg E))"

lemma check_within:
  "check (now_secs (now_of E)) (''raw-cli:'' @ uuid_text (libs_of E) (sub a)) (raw_cli_per_minute (rate_limit (cfg E))) bs = (Inr u, t) \<Longrightarrow>
    within_rate E a bs"
  by (auto simp: check_def within_rate_def Let_def split: if_splits)

interpretation console: game_gate "submit_input E audit_id a hs command"
  "\<lambda>s. may (cs_pool s) a ''pmp:cli'' \<and> reauth E a hs RHigh = Inr () \<and> within_rate E a (cs_limiter s)"
  for E audit_id a hs command
proof
  fix s :: control_state
  assume no: "\<not> (may (cs_pool s) a ''pmp:cli'' \<and> reauth E a hs RHigh = Inr () \<and> within_rate E a (cs_limiter s))"
  let ?check = "check (now_secs (now_of E)) (''raw-cli:'' @ uuid_text (libs_of E) (sub a)) (raw_cli_per_minute (rate_limit (cfg E)))"
  obtain x p where q: "require a ''pmp:cli'' (cs_pool s) = (x, p)" by (cases "require a ''pmp:cli'' (cs_pool s)")
  obtain y b where c: "?check (cs_limiter s) = (y, b)" by (cases "?check (cs_limiter s)")
  consider e where "x = Inl e" | u e where "x = Inr u" "y = Inl e" | u v e where "x = Inr u" "y = Inr v" "reauth E a hs RHigh = Inl e"
    using no q c require_may [of a "''pmp:cli''" "cs_pool s" _ p] check_within [of E a "cs_limiter s" _ b]
    by (cases x; cases y; cases "reauth E a hs RHigh") auto
  then show "\<exists>e t. \<forall>G. submit_input E audit_id a hs command G s = (Inl e, t)"
    using q c by cases (simp_all add: submit_input_def andthen_def bnd_def from_result_def on_cs_pool_def on_cs_limiter_def)
qed


text \<open>The console input is announced as fully audited; no command ever leaves a row.\<close>

definition shown_log :: "control_state \<Rightarrow> audit_row list option" where
  "shown_log s = map_option audit_log (cs_pool s)"

lemma pool_shows_log: "obeys pool_no_audit m \<Longrightarrow> obeys (same shown_log) (on_cs_pool m)"
  by (auto simp: obeys_def same_def shown_log_def pool_no_audit_def on_cs_pool_def split: prod.splits) (metis snd_conv)

lemma require_unaudited: "obeys pool_no_audit (require a p)"
proof -
  have "pool_no_audit s t" if "pool_untouched s t" for s t
    using that by (auto simp: pool_untouched_def untouched_def pool_no_audit_def split: option.splits)
  then show ?thesis using require_reads [of a p] by (auto simp: obeys_def)
qed

lemma with_db_unaudited: "obeys no_audit m \<Longrightarrow> obeys pool_no_audit (with_db m)"
  by (auto simp: obeys_def pool_no_audit_def no_audit_def with_db_def split: option.splits prod.splits) (metis snd_conv)

lemma console_unaudited: "shown_log (snd (submit_input E audit_id a hs command G s)) = shown_log s"
proof -
  have rec: "obeys no_audit (record_principal audit_id a act rt rid params (case r of Inr _ \<Rightarrow> ''succeeded'' | Inl _ \<Rightarrow> ''failed'') err cid ip ua)"
    for act rt rid params err cid ip ua and r :: "uds_error + json"
    unfolding record_principal_def by (rule refused_audit) (auto simp: principal_event_def split: sum.splits)
  have "obeys (same shown_log) (on_cs_limiter m)" for m :: "(buckets, 'e, 'a) comp"
    by (auto simp: obeys_def same_def shown_log_def on_cs_limiter_def split: prod.splits)
  then have "obeys (same shown_log) (submit_input E audit_id a hs command G)"
    unfolding submit_input_def Let_def of_uds_def
    by (intro same_frame.obeys_intros pool_shows_log with_db_unaudited require_unaudited rec)
  from obeysD [OF this, of s] show ?thesis by (simp add: same_def)
qed

section \<open>Pages\<close>

lemma pages_concat: "concat (map (\<lambda>p. take n (drop (p * n) xs)) [0 ..< k]) = take (k * n) xs"
proof (induction k)
  case (Suc k)
  have "take (k * n + n) xs = take (k * n) xs @ take n (drop (k * n) xs)" by (rule take_add)
  with Suc show ?case by (simp add: add.commute)
qed simp

lemma log_page_items:
  assumes "int (p * n) < 2 ^ 63"
  shows "lr_items (log_page es (int (Suc p)) (int n)) = take n (drop (p * n) es)"
proof -
  have "0 \<le> int (p * n)" by (rule of_nat_0_le_iff)
  with assms have "i64_range (int (p * n))" unfolding i64_range_def by (simp del: of_nat_mult)
  then have "wrap64 (int p * int n) = int (p * n)" by (simp add: wrap64_id)
  moreover have "int (p * n) mod 2 ^ 64 = int (p * n)" using assms by (intro mod_pos_pos_trivial) auto
  ultimately show ?thesis by (simp add: log_page_def flip: of_nat_mult)
qed

lemma log_historyD:
  assumes "log_history parse lower L a q G s = (Inr r, t)"
  shows "\<exists>v. G ''logs.history'' (JObj [(''limit'', JInt (int (log_window q)))]) = Inr v \<and> 1 \<le> unwrap_or (lp_page_num q) 20 \<and>
    unwrap_or (lp_page_num q) 20 \<le> 100 \<and>
    r = log_page (apply_log_filters lower (map (parse_log_line_with_seq parse L) (history_entries_of v)) q) (max (unwrap_or (lp_page q) 1) 1)
          (unwrap_or (lp_page_num q) 20)"
  using assms by (auto simp: log_history_def of_uds_def Let_def runs split: sum.splits)

text \<open>The pages of the log are complete. For one state of the server's log, the pages 1 to \<open>k\<close> of a query,
  put together, are exactly the lines that match it, in their order, once \<open>k\<close> pages hold the announced
  total.\<close>

theorem log_pages_complete:
  assumes "\<And>p. p < k \<Longrightarrow> log_history parse lower L a (q\<lparr>lp_page := Some (int (Suc p)), lp_page_num := Some (int n)\<rparr>) G s = (Inr (r p), t p)"
    and "0 < k" and "lr_total (r 0) \<le> int (k * n)" and "int (k * n) < 2 ^ 63"
  shows "\<exists>v. G ''logs.history'' (JObj [(''limit'', JInt (int (log_window q)))]) = Inr v \<and>
    concat (map (\<lambda>p. lr_items (r p)) [0 ..< k]) = apply_log_filters lower (map (parse_log_line_with_seq parse L) (history_entries_of v)) q"
proof -
  let ?q = "\<lambda>p. q\<lparr>lp_page := Some (int (Suc p)), lp_page_num := Some (int n)\<rparr>"
  have same: "log_window (q\<lparr>lp_page := x, lp_page_num := y\<rparr>) = log_window q"
    "apply_log_filters lower es (q\<lparr>lp_page := x, lp_page_num := y\<rparr>) = apply_log_filters lower es q" for x y es
    by (simp_all add: log_window_def apply_log_filters_def log_wanted_def [abs_def] wanted_levels_def)
  from log_historyD [OF assms(1) [OF assms(2)]] obtain v where
    v: "G ''logs.history'' (JObj [(''limit'', JInt (int (log_window q)))]) = Inr v" by (auto simp: same)
  let ?es = "apply_log_filters lower (map (parse_log_line_with_seq parse L) (history_entries_of v)) q"
  have r: "r p = log_page ?es (int (Suc p)) (int n)" if "p < k" for p
    using log_historyD [OF assms(1) [OF that]] v by (auto simp: same unwrap_or_def)
  have "lr_items (r p) = take n (drop (p * n) ?es)" if "p < k" for p
  proof -
    have "p * n \<le> k * n" using that by simp
    with assms(4) have "int (p * n) < 2 ^ 63" by (meson of_nat_le_iff order_le_less_trans)
    then show ?thesis unfolding r [OF that] by (rule log_page_items)
  qed
  then have "concat (map (\<lambda>p. lr_items (r p)) [0 ..< k]) = concat (map (\<lambda>p. take n (drop (p * n) ?es)) [0 ..< k])"
    by (intro arg_cong [where f = concat] map_cong) auto
  also have "\<dots> = take (k * n) ?es" by (rule pages_concat)
  also have "\<dots> = ?es" using assms(3) r [OF assms(2)] by (simp add: log_page_def del: of_nat_mult)
  finally show ?thesis using v by blast
qed

text \<open>The product of page and size wraps: a page far out is the first one again.\<close>

lemma far_page_wraps: "lr_items (log_page es (2 ^ 62 + 1) 4) = lr_items (log_page es 1 4)"
proof -
  have "wrap64 ((2 ^ 62 + 1 - 1) * 4) = 0" "wrap64 ((1 - 1) * 4) = 0" by code_simp+
  then show ?thesis by (simp only: log_page_def log_list.simps)
qed

section \<open>Identifiers and levels\<close>

lemma lower_digits: "to_ascii_lowercase (''pmp-'' @ nat_digits n) = ''pmp-'' @ nat_digits n"
proof -
  have "to_ascii_lower c = c" if "c \<in> set (nat_digits n)" for c
  proof -
    have "digit c" using that nat_digits_digits [of n] by blast
    moreover have "list_all (\<lambda>c. to_ascii_lower c = c) ''0123456789''" by code_simp
    ultimately show ?thesis by (auto simp: digit_def list_all_iff)
  qed
  then have "map to_ascii_lower (nat_digits n) = nat_digits n" by (rule map_idI)
  moreover have "map to_ascii_lower ''pmp-'' = ''pmp-''" by code_simp
  ultimately show ?thesis unfolding to_ascii_lowercase_def map_append by (simp only:)
qed

text \<open>A sequence number identifies an occurrence: in a log whose lines are numbered without repetition, the
  focus on the identifier of a line finds that line and no other, however often its text occurs.\<close>

theorem log_id_focus:
  assumes "\<And>l. l \<in> set ls \<Longrightarrow> ll_seq l \<noteq> None" and "distinct (map ll_seq ls)" and "l \<in> set ls"
  shows "apply_log_filters lower (map (parse_log_line_with_seq parse L) ls)
      \<lparr>lp_limit = w, lp_page = p, lp_page_num = n, lp_level = None, lp_search = None, lp_log_id = Some (le_id (parse_log_line_with_seq parse L l))\<rparr>
    = [parse_log_line_with_seq parse L l]"
proof -
  let ?q = "\<lparr>lp_limit = w, lp_page = p, lp_page_num = n, lp_level = None, lp_search = None, lp_log_id = Some (le_id (parse_log_line_with_seq parse L l))\<rparr>"
  have id: "le_id (parse_log_line_with_seq parse L x) = ''pmp-'' @ nat_digits (the (ll_seq x))" if "x \<in> set ls" for x
    using assms(1) [OF that] by (auto simp: parse_log_line_with_seq_def Let_def log_id_for_def)
  have "log_wanted lower ?q (parse_log_line_with_seq parse L x) \<longleftrightarrow> x = l" if "x \<in> set ls" for x
  proof -
    have "log_wanted lower ?q (parse_log_line_with_seq parse L x) \<longleftrightarrow> the (ll_seq x) = the (ll_seq l)"
      using id [OF that] id [OF assms(3)] by (auto simp: log_wanted_def wanted_levels_def given_def lower_digits [simplified])
    also have "\<dots> \<longleftrightarrow> ll_seq x = ll_seq l" using assms(1) [OF that] assms(1) [OF assms(3)] by auto
    also have "\<dots> \<longleftrightarrow> x = l" using assms(2,3) that by (auto simp: distinct_map inj_on_def)
    finally show ?thesis .
  qed
  then have "filter (log_wanted lower ?q \<circ> parse_log_line_with_seq parse L) ls = filter (\<lambda>x. x = l) ls"
    by (intro filter_cong) auto
  moreover have "filter (\<lambda>x. x = l) ls = [l]"
    using assms(2,3) by (induction ls) (auto simp: filter_empty_conv)
  ultimately show ?thesis by (simp add: apply_log_filters_def filter_map)
qed

text \<open>In the documented form of a line the level is padded to five columns, and only \<open>ERROR\<close>, \<open>DEBUG\<close> and
  \<open>TRACE\<close> fill them: a warning is taken for an information.\<close>

lemma padded_levels:
  "le_level (unbracketed ''2026-08-13T10:00:00Z ERROR svc: x'') = ''error''"
  "le_level (unbracketed ''2026-08-13T10:00:00Z  WARN svc: x'') = ''info''"
  "le_message (unbracketed ''2026-08-13T10:00:00Z  WARN svc: x'') = ''WARN svc: x''"
  by code_simp+

section \<open>Examples\<close>

definition console_db :: db where
  "console_db = sample_db\<lparr>group_permissions := [(1, ''pmp:cli''), (1, ''logs:view'')]\<rparr>"

lemma console_granted: "granted console_db 7 = {''pmp:cli'', ''logs:view''}"
  by (auto simp: granted_def member_groups_def console_db_def sample_db_def new_group_def empty_db_def ROOT_WILDCARD_def)

lemma console_require:
  "p \<in> {''pmp:cli'', ''logs:view''} \<Longrightarrow> require demo_principal p (Some console_db) = (Inr (), Some console_db)"
  by (intro require_granted) (simp_all add: demo_principal_def is_root_def console_granted, simp add: console_db_def sample_db_def empty_db_def)


definition numbered_log :: json where
  "numbered_log = JObj [(''entries'', JArr (map (\<lambda>n. JObj [(''seq'', JInt n), (''line'', JStr ''same'')]) [1, 2, 3]))]"

definition any_log :: log_params where
  "any_log = \<lparr>lp_limit = None, lp_page = None, lp_page_num = None, lp_level = None, lp_search = None, lp_log_id = None\<rparr>"

lemma numbered_lines: "history_entries_of numbered_log = map (\<lambda>n. \<lparr>ll_seq = Some n, ll_line = ''same''\<rparr>) [1, 2, 3]"
  by code_simp

theorem log_pages_complete_witness:
  "\<exists>r :: nat \<Rightarrow> log_list. concat (map (\<lambda>p. lr_items (r p)) [0 ..< 2]) =
     map (parse_log_line_with_seq (\<lambda>_. None) sudo_libs) (map (\<lambda>n. \<lparr>ll_seq = Some n, ll_line = ''same''\<rparr>) [1, 2, 3])"
proof -
  let ?q = "\<lambda>p. any_log\<lparr>lp_page := Some (int (Suc p)), lp_page_num := Some (int 2)\<rparr>"
  let ?es = "map (parse_log_line_with_seq (\<lambda>_. None) sudo_libs) (map (\<lambda>n. \<lparr>ll_seq = Some n, ll_line = ''same''\<rparr>) [1, 2, 3])"
  let ?r = "\<lambda>p. log_page ?es (int (Suc p)) 2"
  have all: "apply_log_filters id es (any_log\<lparr>lp_page := x, lp_page_num := y\<rparr>) = es" "apply_log_filters id es any_log = es" for es x y
    by (simp_all add: apply_log_filters_def log_wanted_def [abs_def] wanted_levels_def given_def any_log_def)
  have run: "log_history (\<lambda>_. None) id sudo_libs demo_principal (?q p) (\<lambda>_ _. Inr numbered_log) (Some console_db) = (Inr (?r p), Some console_db)" for p
    using console_require [of "''logs:view''"]
    by (simp add: log_history_def andthen_def bnd_def Let_def ensure_def of_uds_def from_result_def ret_def unwrap_or_def numbered_lines all)
  have "\<exists>v. (\<lambda>(_ :: string) (_ :: json). Inr numbered_log :: uds_error + json) ''logs.history'' (JObj [(''limit'', JInt (int (log_window any_log)))]) = Inr v \<and>
      concat (map (\<lambda>p. lr_items (?r p)) [0 ..< 2]) = apply_log_filters id (map (parse_log_line_with_seq (\<lambda>_. None) sudo_libs) (history_entries_of v)) any_log"
    using log_pages_complete [where k = 2 and n = 2 and r = ?r and t = "\<lambda>_. Some console_db", OF run] by (simp add: log_page_def)
  then show ?thesis using numbered_lines all by (intro exI [of _ ?r]) auto
qed

theorem log_id_focus_witness:
  "apply_log_filters id (map (parse_log_line_with_seq (\<lambda>_. None) sudo_libs) (history_entries_of numbered_log)) (any_log\<lparr>lp_log_id := Some ''pmp-2''\<rparr>)
     = [parse_log_line_with_seq (\<lambda>_. None) sudo_libs \<lparr>ll_seq = Some 2, ll_line = ''same''\<rparr>]"
proof -
  have id: "le_id (parse_log_line_with_seq (\<lambda>_. None) sudo_libs \<lparr>ll_seq = Some 2, ll_line = ''same''\<rparr>) = ''pmp-2''"
    by (simp add: parse_log_line_with_seq_def Let_def log_id_for_def) code_simp
  have "apply_log_filters id (map (parse_log_line_with_seq (\<lambda>_. None) sudo_libs) (map (\<lambda>n. \<lparr>ll_seq = Some n, ll_line = ''same''\<rparr>) [1, 2, 3]))
      \<lparr>lp_limit = None, lp_page = None, lp_page_num = None, lp_level = None, lp_search = None, lp_log_id = Some ''pmp-2''\<rparr>
      = [parse_log_line_with_seq (\<lambda>_. None) sudo_libs \<lparr>ll_seq = Some 2, ll_line = ''same''\<rparr>]"
    by (rule log_id_focus [of _ "\<lparr>ll_seq = Some 2, ll_line = ''same''\<rparr>" id "\<lambda>_. None" sudo_libs None None None, unfolded id]) auto
  then show ?thesis unfolding numbered_lines any_log_def by (simp only: log_params.simps)
qed

end
