(* ===== verification/Admin_Server.thy ===== *)
theory Admin_Server
  imports Logs
begin

text \<open>
  The administration of the game server (\<^verbatim>\<open>admin/server.rs\<close>, \<^verbatim>\<open>admin/plugins.rs\<close>, \<^verbatim>\<open>admin/routes.rs\<close>): statistics, gates,
  the server actions, broadcasts, plugins, the status page, and the event stream of the panel. Every
  endpoint but the last two passes one command on to the game server, which is the parameter \<open>G\<close>.
\<close>

section \<open>The server\<close>

record server_stats =
  ss_users_online :: int
  ss_active_rooms :: int
  ss_active_sessions :: int
  ss_loaded_plugins :: int
  ss_port :: int
  ss_http_port :: int
  ss_uptime_secs :: int
  ss_server_name :: string

definition stat_fields :: "string list" where
  "stat_fields = [''users_online'', ''active_rooms'', ''active_sessions'', ''loaded_plugins'', ''port'', ''http_port'', ''uptime_secs'']"

definition stats_of :: "int option list \<Rightarrow> string option \<Rightarrow> server_stats option" where
  "stats_of ns name =
     (case (ns, name) of
        ([Some a, Some b, Some c, Some d, Some e, Some f, Some g], Some s) \<Rightarrow>
          Some \<lparr>ss_users_online = a, ss_active_rooms = b, ss_active_sessions = c, ss_loaded_plugins = d, ss_port = e, ss_http_port = f,
                ss_uptime_secs = g, ss_server_name = s\<rparr>
      | _ \<Rightarrow> None)"

text \<open>The derived reader takes an object, or an array in the order of the fields.\<close>

definition stats_of_json :: "json \<Rightarrow> server_stats option" where
  "stats_of_json v =
     (case v of
        JObj _ \<Rightarrow> stats_of (map (int_field v) stat_fields) (string_field v ''server_name'')
      | JArr xs \<Rightarrow> if length xs = 8 then stats_of (map as_i64 (butlast xs)) (as_string (last xs)) else None
      | _ \<Rightarrow> None)"

definition get_server_stats :: "auth_principal \<Rightarrow> pmp \<Rightarrow> (db option, api_error, server_stats) comp" where
  "get_server_stats a G =
     andthen (require a ''server:view'')
    (bnd (of_uds (G ''server.stats'' (JObj []))) (\<lambda>v.
     some_or (stats_of_json v) (api_error_new PmpInvalidResponse ''PMP returned an invalid server.stats response'')))"

text \<open>An endpoint that only passes a command on.\<close>

definition relay :: "auth_principal \<Rightarrow> string \<Rightarrow> string \<Rightarrow> json \<Rightarrow> pmp \<Rightarrow> (db option, api_error, json) comp" where
  "relay a p c v G = andthen (require a p) (of_uds (G c v))"

definition runtime_status :: "auth_principal \<Rightarrow> pmp \<Rightarrow> (db option, api_error, json) comp" where
  "runtime_status a = relay a ''server:view'' ''runtime.status'' (JObj [])"

definition closed_text :: string where
  "closed_text = bytes [229, 183, 178, 229, 133, 179, 233, 151, 173]"

definition read_cli_gate :: "(json \<Rightarrow> string) \<Rightarrow> string \<Rightarrow> pmp \<Rightarrow> (db option, api_error, bool) comp" where
  "read_cli_gate txt_of command G =
     bnd (of_uds (G ''cli.execute'' (JObj [(''command'', JStr command)]))) (\<lambda>v.
     let out = (case Option.bind (get_field v ''output'') as_array of
                  Some xs \<Rightarrow> join_with (bytes [10]) (List.map_filter as_string xs)
                | None \<Rightarrow> txt_of v)
     in ret (\<not> contains out closed_text))"

definition gates :: "(json \<Rightarrow> string) \<Rightarrow> auth_principal \<Rightarrow> pmp \<Rightarrow> (db option, api_error, bool \<times> bool) comp" where
  "gates txt_of a G =
     andthen (require a ''server:view'')
    (bnd (read_cli_gate txt_of ''connections'' G) (\<lambda>c.
     bnd (read_cli_gate txt_of ''roomcreation'' G) (\<lambda>r. ret (c, r))))"

definition config_reload :: "auth_principal \<Rightarrow> pmp \<Rightarrow> (db option, api_error, json) comp" where
  "config_reload a = relay a ''config:reload'' ''server.config_reload'' (JObj [])"

definition shutdown :: "env \<Rightarrow> auth_principal \<Rightarrow> headers \<Rightarrow> pmp \<Rightarrow> (db option, api_error, json) comp" where
  "shutdown E a hs G =
     andthen (require a ''server:shutdown'')
    (andthen (from_result (reauth E a hs RCritical))
     (of_uds (G ''server.shutdown'' (JObj []))))"

definition room_creation :: "auth_principal \<Rightarrow> bool \<Rightarrow> pmp \<Rightarrow> (db option, api_error, json) comp" where
  "room_creation a enabled = relay a ''server:manage'' ''server.roomcreation'' (JObj [(''enabled'', JBool enabled)])"

definition enabled_arg :: "json \<Rightarrow> bool option" where
  "enabled_arg args = Option.bind (get_field args ''enabled'') as_bool"

definition connections_command :: "json \<Rightarrow> string" where
  "connections_command args =
     (case enabled_arg args of Some True \<Rightarrow> ''connections on'' | Some False \<Rightarrow> ''connections off'' | None \<Rightarrow> ''connections'')"

definition server_actions :: "env \<Rightarrow> auth_principal \<Rightarrow> headers \<Rightarrow> string \<Rightarrow> json \<Rightarrow> pmp \<Rightarrow> (db option, api_error, json) comp" where
  "server_actions E a hs act args G =
     (if act = ''server.config_reload'' then relay a ''config:reload'' ''server.config_reload'' (JObj []) G
      else if act = ''server.shutdown'' then
        andthen (require a ''server:shutdown'') (andthen (from_result (reauth E a hs RCritical)) (of_uds (G ''server.shutdown'' (JObj []))))
      else if act = ''server.roomcreation'' then
        relay a ''server:manage'' ''server.roomcreation'' (JObj [(''enabled'', JBool (unwrap_or (enabled_arg args) False))]) G
      else if act = ''server.connections'' then relay a ''server:manage'' ''cli.execute'' (JObj [(''command'', JStr (connections_command args))]) G
      else throw (validation (''unknown server action: '' @ act)))"

definition broadcast_all :: "auth_principal \<Rightarrow> string \<Rightarrow> pmp \<Rightarrow> (db option, api_error, json) comp" where
  "broadcast_all a content = relay a ''broadcast:all'' ''broadcast.all'' (JObj [(''message'', JStr content)])"

definition broadcast_room :: "auth_principal \<Rightarrow> string \<Rightarrow> string option \<Rightarrow> pmp \<Rightarrow> (db option, api_error, json) comp" where
  "broadcast_room a content room G =
     andthen (require a ''broadcast:room'')
    (bnd (some_or room (validation ''room_id required for broadcast.room'')) (\<lambda>r.
     of_uds (G ''broadcast.room'' (JObj [(''room_id'', JStr r), (''message'', JStr content)]))))"

definition broadcast_user :: "auth_principal \<Rightarrow> string \<Rightarrow> int option \<Rightarrow> pmp \<Rightarrow> (db option, api_error, json) comp" where
  "broadcast_user a content user G =
     andthen (require a ''broadcast:user'')
    (bnd (some_or user (validation ''user_id required for broadcast.user'')) (\<lambda>u.
     of_uds (G ''broadcast.user'' (JObj [(''user_id'', JInt u), (''message'', JStr content)]))))"

section \<open>Plugins\<close>

definition named :: "string \<Rightarrow> json" where
  "named name = JObj [(''name'', JStr name)]"

definition plugin_list :: "auth_principal \<Rightarrow> pmp \<Rightarrow> (db option, api_error, json) comp" where
  "plugin_list a = relay a ''plugin:view'' ''plugin.list'' (JObj [])"

definition plugin_info :: "auth_principal \<Rightarrow> string \<Rightarrow> pmp \<Rightarrow> (db option, api_error, json) comp" where
  "plugin_info a name = relay a ''plugin:view'' ''plugin.info'' (named name)"

definition plugin_enable :: "auth_principal \<Rightarrow> string \<Rightarrow> pmp \<Rightarrow> (db option, api_error, json) comp" where
  "plugin_enable a name = relay a ''plugin:manage'' ''plugin.enable'' (named name)"

definition plugin_disable :: "auth_principal \<Rightarrow> string \<Rightarrow> pmp \<Rightarrow> (db option, api_error, json) comp" where
  "plugin_disable a name = relay a ''plugin:manage'' ''plugin.disable'' (named name)"

definition plugin_reload :: "auth_principal \<Rightarrow> pmp \<Rightarrow> (db option, api_error, json) comp" where
  "plugin_reload a = relay a ''plugin:manage'' ''plugin.reload'' (JObj [])"

definition plugin_remove :: "auth_principal \<Rightarrow> string \<Rightarrow> pmp \<Rightarrow> (db option, api_error, unit) comp" where
  "plugin_remove a name G = bnd (relay a ''plugin:manage'' ''plugin.remove'' (named name) G) (\<lambda>_. ret ())"

record plugin_call_body =
  pb_name :: string
  pb_method :: string
  pb_args :: "json list"

definition call_args :: "string \<Rightarrow> plugin_call_body \<Rightarrow> json" where
  "call_args name b = JObj [(''name'', JStr name), (''method'', JStr (pb_method b)), (''args'', JArr (pb_args b))]"

definition plugin_call :: "auth_principal \<Rightarrow> plugin_call_body \<Rightarrow> pmp \<Rightarrow> (db option, api_error, json) comp" where
  "plugin_call a b = relay a ''plugin:call'' ''plugin.call'' (call_args (pb_name b) b)"

text \<open>The derived reader of the body: the name must be there, the method and the arguments may be left
  out; as an array the fields come in their order.\<close>

definition body_of :: "json option \<Rightarrow> json option \<Rightarrow> json option \<Rightarrow> plugin_call_body option" where
  "body_of n m xs =
     Option.bind n (\<lambda>n. Option.bind (as_string n) (\<lambda>name.
     Option.bind (case m of None \<Rightarrow> Some [] | Some v \<Rightarrow> as_string v) (\<lambda>method.
     Option.bind (case xs of None \<Rightarrow> Some [] | Some v \<Rightarrow> as_array v) (\<lambda>args.
       Some \<lparr>pb_name = name, pb_method = method, pb_args = args\<rparr>))))"

definition body_of_json :: "json \<Rightarrow> plugin_call_body option" where
  "body_of_json v =
     (case v of
        JObj _ \<Rightarrow> body_of (get_field v ''name'') (get_field v ''method'') (get_field v ''args'')
      | JArr [n] \<Rightarrow> body_of (Some n) None None
      | JArr [n, m] \<Rightarrow> body_of (Some n) (Some m) None
      | JArr [n, m, xs] \<Rightarrow> body_of (Some n) (Some m) (Some xs)
      | _ \<Rightarrow> None)"

text \<open>\<open>parse\<close> is the JSON reader of the raw body, \<open>why\<close> the text of its refusal.\<close>

definition parse_call_body :: "(string \<Rightarrow> json option) \<Rightarrow> (string \<Rightarrow> string) \<Rightarrow> string \<Rightarrow> api_error + plugin_call_body" where
  "parse_call_body parse why body =
     (if body = [] then Inr \<lparr>pb_name = [], pb_method = [], pb_args = []\<rparr>
      else case Option.bind (parse body) body_of_json of
        Some b \<Rightarrow> Inr b
      | None \<Rightarrow> Inl (validation (''invalid body: '' @ why body)))"

definition action_dispatch ::
  "(string \<Rightarrow> json option) \<Rightarrow> (string \<Rightarrow> string) \<Rightarrow> auth_principal \<Rightarrow> string \<Rightarrow> string \<Rightarrow> string \<Rightarrow> pmp \<Rightarrow> (db option, api_error, json) comp" where
  "action_dispatch parse why a name act body G =
     bnd (from_result (parse_call_body parse why body)) (\<lambda>b.
     if act = ''enable'' then relay a ''plugin:manage'' ''plugin.enable'' (named name) G
     else if act = ''disable'' then relay a ''plugin:manage'' ''plugin.disable'' (named name) G
     else if act = ''reload'' then relay a ''plugin:manage'' ''plugin.reload'' (named name) G
     else if act = ''remove'' then relay a ''plugin:manage'' ''plugin.remove'' (named name) G
     else if act = ''call'' then
       andthen (require a ''plugin:call'')
      (andthen (ensure (pb_method b \<noteq> []) (validation ''method required for plugin.call''))
       (of_uds (G ''plugin.call'' (call_args name b))))
     else throw (validation (''unknown plugin action: '' @ act)))"

section \<open>Status and events\<close>

record server_status =
  sv_version :: string
  sv_connected :: bool
  sv_pmp_version :: "string option"
  sv_session :: "string option"
  sv_db_configured :: bool
  sv_deployment :: deployment_capabilities
  sv_metrics :: json

text \<open>\<open>link\<close> is the state of the connection to the game server: connected, its version, the session.\<close>

definition get_server_status ::
  "string \<Rightarrow> bool \<times> string option \<times> string option \<Rightarrow> deployment_adapter \<Rightarrow> metrics \<Rightarrow> auth_principal \<Rightarrow> (db option, api_error, server_status) comp" where
  "get_server_status version link D M a =
     andthen (require a ''server:view'')
    (bnd (asks (\<lambda>s. s \<noteq> None)) (\<lambda>configured.
     ret \<lparr>sv_version = version, sv_connected = fst link, sv_pmp_version = fst (snd link), sv_session = snd (snd link), sv_db_configured = configured,
          sv_deployment = capabilities D, sv_metrics = metrics_snapshot M\<rparr>))"

text \<open>The events the panel is sent first; then it follows the live ones as the public stream does.\<close>

definition admin_events_sse :: "auth_principal \<Rightarrow> headers \<Rightarrow> ppb_event list \<Rightarrow> (db option, api_error, ppb_event list) comp" where
  "admin_events_sse a hs history =
     andthen (require a ''dashboard:view'') (ret (sse_replay (header_str hs ''last-event-id'') history))"

section \<open>The interface\<close>

datatype admin_request =
    Stats | Runtime | Gates | Action string json | Reload | RoomCreation bool | Shutdown
  | BroadcastAll string | BroadcastRoom string "string option" | BroadcastUser string "int option"
  | Plugins | PluginsReload | PluginInfo string | PluginRemove string | PluginEnable string | PluginDisable string
  | PluginAction string string string | PluginCall plugin_call_body

record relay_libs =
  rl_env :: env
  rl_parse :: "string \<Rightarrow> json option"
  rl_why :: "string \<Rightarrow> string"
  rl_text :: "json \<Rightarrow> string"

definition silent :: "('s, 'e, 'a) comp \<Rightarrow> ('s, 'e, json) comp" where
  "silent m = bnd m (\<lambda>_. ret JNull)"

fun serve_admin :: "relay_libs \<Rightarrow> auth_principal \<Rightarrow> headers \<Rightarrow> admin_request \<Rightarrow> pmp \<Rightarrow> (db option, api_error, json) comp" where
  "serve_admin R a hs Stats G = silent (get_server_stats a G)"
| "serve_admin R a hs Runtime G = runtime_status a G"
| "serve_admin R a hs Gates G = silent (gates (rl_text R) a G)"
| "serve_admin R a hs (Action act args) G = server_actions (rl_env R) a hs act args G"
| "serve_admin R a hs Reload G = config_reload a G"
| "serve_admin R a hs (RoomCreation b) G = room_creation a b G"
| "serve_admin R a hs Shutdown G = shutdown (rl_env R) a hs G"
| "serve_admin R a hs (BroadcastAll c) G = broadcast_all a c G"
| "serve_admin R a hs (BroadcastRoom c r) G = broadcast_room a c r G"
| "serve_admin R a hs (BroadcastUser c u) G = broadcast_user a c u G"
| "serve_admin R a hs Plugins G = plugin_list a G"
| "serve_admin R a hs PluginsReload G = plugin_reload a G"
| "serve_admin R a hs (PluginInfo n) G = plugin_info a n G"
| "serve_admin R a hs (PluginRemove n) G = silent (plugin_remove a n G)"
| "serve_admin R a hs (PluginEnable n) G = plugin_enable a n G"
| "serve_admin R a hs (PluginDisable n) G = plugin_disable a n G"
| "serve_admin R a hs (PluginAction n act body) G = action_dispatch (rl_parse R) (rl_why R) a n act body G"
| "serve_admin R a hs (PluginCall b) G = plugin_call a b G"

text \<open>The policy: the permission a request needs, or none that would do; the requests that need a fresh
  reauthentication; the commands a request may pass on.\<close>

definition action_permission :: "string \<Rightarrow> string option" where
  "action_permission act =
     (if act = ''server.config_reload'' then Some ''config:reload'' else if act = ''server.shutdown'' then Some ''server:shutdown''
      else if act \<in> {''server.roomcreation'', ''server.connections''} then Some ''server:manage'' else None)"

definition plugin_permission :: "string \<Rightarrow> string option" where
  "plugin_permission act =
     (if act \<in> {''enable'', ''disable'', ''reload'', ''remove''} then Some ''plugin:manage'' else if act = ''call'' then Some ''plugin:call'' else None)"

fun admin_permission :: "admin_request \<Rightarrow> string option" where
  "admin_permission Stats = Some ''server:view''"
| "admin_permission Runtime = Some ''server:view''"
| "admin_permission Gates = Some ''server:view''"
| "admin_permission (Action act _) = action_permission act"
| "admin_permission Reload = Some ''config:reload''"
| "admin_permission (RoomCreation _) = Some ''server:manage''"
| "admin_permission Shutdown = Some ''server:shutdown''"
| "admin_permission (BroadcastAll _) = Some ''broadcast:all''"
| "admin_permission (BroadcastRoom _ _) = Some ''broadcast:room''"
| "admin_permission (BroadcastUser _ _) = Some ''broadcast:user''"
| "admin_permission Plugins = Some ''plugin:view''"
| "admin_permission PluginsReload = Some ''plugin:manage''"
| "admin_permission (PluginInfo _) = Some ''plugin:view''"
| "admin_permission (PluginRemove _) = Some ''plugin:manage''"
| "admin_permission (PluginEnable _) = Some ''plugin:manage''"
| "admin_permission (PluginDisable _) = Some ''plugin:manage''"
| "admin_permission (PluginAction _ act _) = plugin_permission act"
| "admin_permission (PluginCall _) = Some ''plugin:call''"

definition stops_server :: "admin_request \<Rightarrow> bool" where
  "stops_server q \<longleftrightarrow> (case q of Shutdown \<Rightarrow> True | Action act _ \<Rightarrow> act = ''server.shutdown'' | _ \<Rightarrow> False)"

definition admin_allowed :: "relay_libs \<Rightarrow> auth_principal \<Rightarrow> headers \<Rightarrow> admin_request \<Rightarrow> db option \<Rightarrow> bool" where
  "admin_allowed R a hs q s \<longleftrightarrow>
     (\<exists>p. admin_permission q = Some p \<and> may s a p) \<and> (stops_server q \<longrightarrow> reauth (rl_env R) a hs RCritical = Inr ())"

text \<open>Weakening a gate, and a gate under what comes after.\<close>

lemma gate_mono: "game_gate m P \<Longrightarrow> (\<And>s. P s \<Longrightarrow> Q s) \<Longrightarrow> game_gate m Q"
  by (auto simp: game_gate_def)

lemma gate_bnd:
  assumes "game_gate m P"
  shows "game_gate (\<lambda>G. bnd (m G) (f G)) P"
proof
  fix s
  assume "\<not> P s"
  then obtain e t where "\<forall>G. m G s = (Inl e, t)" using assms by (auto simp: game_gate_def)
  then show "\<exists>e t. \<forall>G. bnd (m G) (f G) s = (Inl e, t)" by (simp add: bnd_def)
qed

lemma gate_refused: "game_gate (\<lambda>G. throw e) P"
  by (simp add: game_gate_def throw_def)

lemma relay_gate: "game_gate (relay a p c v) (\<lambda>s. may s a p)"
  unfolding relay_def [abs_def] by (rule permission_gate)

lemma server_actions_gate: "game_gate (server_actions E a hs act args) (admin_allowed \<lparr>rl_env = E, rl_parse = parse, rl_why = why, rl_text = tx\<rparr> a hs (Action act args))"
proof -
  consider "act = ''server.config_reload''" | "act = ''server.shutdown''" | "act = ''server.roomcreation''" | "act = ''server.connections''"
    | "act \<notin> {''server.config_reload'', ''server.shutdown'', ''server.roomcreation'', ''server.connections''}" by auto
  then show ?thesis
    by cases (simp_all add: server_actions_def [abs_def] admin_allowed_def [abs_def] action_permission_def stops_server_def gate_refused
        relay_gate reauth_gate)
qed

lemma action_dispatch_gate: "game_gate (action_dispatch parse why a n act body) (admin_allowed R a hs (PluginAction n act body))"
proof (cases "parse_call_body parse why body")
  case (Inl e)
  then show ?thesis by (simp add: action_dispatch_def [abs_def] game_gate_def from_result_def bnd_def)
next
  case (Inr b)
  have run: "bnd (from_result (Inr b)) f = f b" for f :: "plugin_call_body \<Rightarrow> (db option, api_error, json) comp"
    by (simp add: bnd_def from_result_def fun_eq_iff)
  consider "act \<in> {''enable'', ''disable'', ''reload'', ''remove''}" | "act = ''call''" | "act \<notin> {''enable'', ''disable'', ''reload'', ''remove'', ''call''}"
    by auto
  then show ?thesis
    by cases (auto simp: action_dispatch_def [abs_def] Inr run admin_allowed_def [abs_def] plugin_permission_def stops_server_def gate_refused
        relay_gate permission_gate)
qed

lemma admin_gate: "game_gate (serve_admin R a hs q) (admin_allowed R a hs q)"
proof -
  have by_permission: "game_gate m (admin_allowed R a hs q)"
    if "game_gate m (\<lambda>s. may s a p)" "admin_permission q = Some p" "\<not> stops_server q" for m :: "pmp \<Rightarrow> (db option, api_error, json) comp" and p q
    by (rule gate_mono [OF that(1)]) (simp add: admin_allowed_def that(2,3))
  have R: "R = \<lparr>rl_env = rl_env R, rl_parse = rl_parse R, rl_why = rl_why R, rl_text = rl_text R\<rparr>" by simp
  note relays = runtime_status_def config_reload_def room_creation_def broadcast_all_def plugin_list_def plugin_reload_def plugin_info_def
    plugin_enable_def plugin_disable_def plugin_call_def
  note serves = serve_admin.simps [abs_def]
  show ?thesis
  proof (cases q)
    case (Action act args)
    show ?thesis unfolding Action serves by (subst R) (rule server_actions_gate)
  next
    case (PluginAction n act body)
    show ?thesis unfolding PluginAction serves by (rule action_dispatch_gate)
  next
    case Shutdown
    show ?thesis
      unfolding Shutdown serves shutdown_def [abs_def] by (rule gate_mono [OF reauth_gate]) (simp add: admin_allowed_def)
  next
    case Stats
    show ?thesis unfolding Stats serves silent_def [abs_def] get_server_stats_def [abs_def]
      by (rule by_permission [OF gate_bnd [OF permission_gate]]) (simp_all add: stops_server_def)
  next
    case Gates
    show ?thesis unfolding Gates serves silent_def [abs_def] gates_def [abs_def]
      by (rule by_permission [OF gate_bnd [OF permission_gate]]) (simp_all add: stops_server_def)
  next
    case (PluginRemove n)
    show ?thesis unfolding PluginRemove serves silent_def [abs_def] plugin_remove_def [abs_def]
      by (rule by_permission [OF gate_bnd [OF gate_bnd [OF relay_gate]]]) (simp_all add: stops_server_def)
  next
    case (BroadcastRoom c r)
    show ?thesis unfolding BroadcastRoom serves broadcast_room_def [abs_def]
      by (rule by_permission [OF permission_gate]) (simp_all add: stops_server_def)
  next
    case (BroadcastUser c u)
    show ?thesis unfolding BroadcastUser serves broadcast_user_def [abs_def]
      by (rule by_permission [OF permission_gate]) (simp_all add: stops_server_def)
  qed (simp_all only: serves relays, (rule by_permission [OF relay_gate], simp, simp add: stops_server_def)+)
qed

interpretation administration: game_gate "serve_admin R a hs q" "admin_allowed R a hs q" for R a hs q
  by (rule admin_gate)

text \<open>C14: The administration of the game server is behind its permissions. A request that is answered, or whose
  result depends on what the game server says, comes from somebody with the permission of that request,
  and one that stops the server from somebody who has freshly reauthenticated at the critical level.\<close>

theorem server_admin_enforced:
  assumes "serve_admin R a hs q G s = (Inr v, t) \<or> serve_admin R a hs q G s \<noteq> serve_admin R a hs q G' s"
  shows "(\<exists>p. admin_permission q = Some p \<and> may s a p) \<and> (stops_server q \<longrightarrow> reauth (rl_env R) a hs RCritical = Inr ())"
proof -
  have "admin_allowed R a hs q s"
    using assms by (elim disjE administration.answer_allowed administration.consulted_allowed)
  then show ?thesis by (simp add: admin_allowed_def)
qed

section \<open>What is passed on\<close>

definition action_commands :: "string \<Rightarrow> json \<Rightarrow> (string \<times> json) list" where
  "action_commands act args =
     (if act \<in> {''server.config_reload'', ''server.shutdown''} then [(act, JObj [])]
      else if act = ''server.roomcreation'' then [(act, JObj [(''enabled'', JBool (enabled_arg args = Some True))])]
      else if act = ''server.connections'' then [(''cli.execute'', JObj [(''command'', JStr (connections_command args))])]
      else [])"

definition plugin_commands :: "(string \<Rightarrow> json option) \<Rightarrow> string \<Rightarrow> string \<Rightarrow> string \<Rightarrow> (string \<times> json) list" where
  "plugin_commands parse n act body =
     (if act \<in> {''enable'', ''disable'', ''reload'', ''remove''} then [(''plugin.'' @ act, named n)]
      else if act = ''call'' then
        (case Option.bind (parse body) body_of_json of Some b \<Rightarrow> [(''plugin.call'', call_args n b)] | None \<Rightarrow> [])
      else [])"

fun admin_commands :: "relay_libs \<Rightarrow> admin_request \<Rightarrow> (string \<times> json) list" where
  "admin_commands R Stats = [(''server.stats'', JObj [])]"
| "admin_commands R Runtime = [(''runtime.status'', JObj [])]"
| "admin_commands R Gates = map (\<lambda>g. (''cli.execute'', JObj [(''command'', JStr g)])) [''connections'', ''roomcreation'']"
| "admin_commands R (Action act args) = action_commands act args"
| "admin_commands R Reload = [(''server.config_reload'', JObj [])]"
| "admin_commands R (RoomCreation b) = [(''server.roomcreation'', JObj [(''enabled'', JBool b)])]"
| "admin_commands R Shutdown = [(''server.shutdown'', JObj [])]"
| "admin_commands R (BroadcastAll c) = [(''broadcast.all'', JObj [(''message'', JStr c)])]"
| "admin_commands R (BroadcastRoom c r) =
     (case r of Some i \<Rightarrow> [(''broadcast.room'', JObj [(''room_id'', JStr i), (''message'', JStr c)])] | None \<Rightarrow> [])"
| "admin_commands R (BroadcastUser c u) =
     (case u of Some i \<Rightarrow> [(''broadcast.user'', JObj [(''user_id'', JInt i), (''message'', JStr c)])] | None \<Rightarrow> [])"
| "admin_commands R Plugins = [(''plugin.list'', JObj [])]"
| "admin_commands R PluginsReload = [(''plugin.reload'', JObj [])]"
| "admin_commands R (PluginInfo n) = [(''plugin.info'', named n)]"
| "admin_commands R (PluginRemove n) = [(''plugin.remove'', named n)]"
| "admin_commands R (PluginEnable n) = [(''plugin.enable'', named n)]"
| "admin_commands R (PluginDisable n) = [(''plugin.disable'', named n)]"
| "admin_commands R (PluginAction n act body) = plugin_commands (rl_parse R) n act body"
| "admin_commands R (PluginCall b) = [(''plugin.call'', call_args (pb_name b) b)]"

definition agree :: "(string \<times> json) list \<Rightarrow> pmp \<Rightarrow> pmp \<Rightarrow> bool" where
  "agree cs G G' \<longleftrightarrow> (\<forall>(c, v) \<in> set cs. G c v = G' c v)"

lemma agree_simps [simp]:
  "agree [] G G'" "agree ((c, v) # cs) G G' \<longleftrightarrow> G c v = G' c v \<and> agree cs G G'"
  by (simp_all add: agree_def)

lemma server_actions_confined:
  assumes "agree (action_commands act args) G G'"
  shows "server_actions E a hs act args G = server_actions E a hs act args G'"
proof -
  consider "act = ''server.config_reload''" | "act = ''server.shutdown''" | "act = ''server.roomcreation''" | "act = ''server.connections''"
    | "act \<notin> {''server.config_reload'', ''server.shutdown'', ''server.roomcreation'', ''server.connections''}" by auto
  then show ?thesis
  proof cases
    case 3
    have "unwrap_or (enabled_arg args) False \<longleftrightarrow> enabled_arg args = Some True" by (auto simp: unwrap_or_def split: option.splits)
    with assms 3 show ?thesis by (simp add: server_actions_def action_commands_def relay_def)
  qed (use assms in \<open>simp_all add: server_actions_def action_commands_def relay_def\<close>)
qed

lemma action_dispatch_confined:
  assumes "agree (plugin_commands parse n act body) G G'"
  shows "action_dispatch parse why a n act body G = action_dispatch parse why a n act body G'"
proof (cases "parse_call_body parse why body")
  case (Inl e)
  then show ?thesis by (simp add: action_dispatch_def bnd_def from_result_def)
next
  case (Inr b)
  have run: "bnd (from_result (Inr b)) f = f b" for f :: "plugin_call_body \<Rightarrow> (db option, api_error, json) comp"
    by (simp add: bnd_def from_result_def fun_eq_iff)
  consider "act = ''enable''" | "act = ''disable''" | "act = ''reload''" | "act = ''remove''" | "act = ''call''"
    | "act \<notin> {''enable'', ''disable'', ''reload'', ''remove'', ''call''}" by auto
  then show ?thesis
  proof cases
    case 5
    have "G ''plugin.call'' (call_args n b) = G' ''plugin.call'' (call_args n b)" if "pb_method b \<noteq> []"
      using assms Inr that 5 by (auto simp: plugin_commands_def parse_call_body_def split: if_splits option.splits)
    then have "(andthen (ensure (pb_method b \<noteq> []) e) (of_uds (G ''plugin.call'' (call_args n b))) :: (db option, api_error, json) comp) =
        andthen (ensure (pb_method b \<noteq> []) e) (of_uds (G' ''plugin.call'' (call_args n b)))" for e
      by (cases "pb_method b = []") (simp_all add: andthen_def ensure_def bnd_def fun_eq_iff throw_def)
    with 5 show ?thesis by (simp add: action_dispatch_def Inr run)
  qed (use assms in \<open>simp_all add: action_dispatch_def Inr run relay_def plugin_commands_def\<close>)
qed

definition gate_words :: "json set" where
  "gate_words = (\<lambda>w. JObj [(''command'', JStr w)]) ` {''connections'', ''connections on'', ''connections off'', ''roomcreation''}"

lemma action_console: "(''cli.execute'', v) \<in> set (action_commands act args) \<Longrightarrow> v \<in> gate_words"
proof -
  assume v: "(''cli.execute'', v) \<in> set (action_commands act args)"
  then have "v = JObj [(''command'', JStr (connections_command args))]"
    by (cases "act = ''server.connections''") (auto simp: action_commands_def split: if_splits)
  moreover have "connections_command args \<in> {''connections'', ''connections on'', ''connections off'', ''roomcreation''}"
    by (simp add: connections_command_def split: option.splits bool.splits)
  ultimately show ?thesis unfolding gate_words_def by (rule image_eqI)
qed

lemma plugin_console: "(''cli.execute'', v) \<notin> set (plugin_commands parse n act body)"
proof -
  have "list_all (\<lambda>e. fst e \<noteq> ''cli.execute'') (plugin_commands parse n act body)"
    unfolding plugin_commands_def by (cases "Option.bind (parse body) body_of_json") simp_all
  then show ?thesis by (auto simp: list_all_iff)
qed

lemma admin_console: "(''cli.execute'', v) \<in> set (admin_commands R q) \<Longrightarrow> v \<in> gate_words"
proof (cases q)
  case (Action act args)
  assume "(''cli.execute'', v) \<in> set (admin_commands R q)"
  with Action show ?thesis by (simp only: admin_commands.simps action_console)
next
  case (PluginAction n act body)
  assume "(''cli.execute'', v) \<in> set (admin_commands R q)"
  with PluginAction show ?thesis by (simp only: admin_commands.simps plugin_console)
qed (auto simp: gate_words_def split: option.splits)

text \<open>A request passes nothing on but its own commands: two game servers that answer those alike are not
  told apart by it. In particular the console is reached only with the words that read or set a gate.\<close>

theorem server_admin_confined:
  assumes "\<And>c v. (c, v) \<in> set (admin_commands R q) \<Longrightarrow> G c v = G' c v"
  shows "serve_admin R a hs q G = serve_admin R a hs q G' \<and>
    (\<forall>v. (''cli.execute'', v) \<in> set (admin_commands R q) \<longrightarrow> v \<in> gate_words)"
proof -
  note defs = runtime_status_def config_reload_def room_creation_def broadcast_all_def plugin_list_def plugin_reload_def plugin_info_def
    plugin_enable_def plugin_disable_def plugin_call_def plugin_remove_def relay_def silent_def get_server_stats_def gates_def read_cli_gate_def
    shutdown_def broadcast_room_def broadcast_user_def
  from assms have ag: "agree (admin_commands R q) G G'" by (auto simp: agree_def)
  have "serve_admin R a hs q G = serve_admin R a hs q G'"
  proof (cases q)
    case (Action act args)
    then show ?thesis using ag by (simp add: server_actions_confined)
  next
    case (PluginAction n act body)
    then show ?thesis using ag by (simp add: action_dispatch_confined)
  next
    case (BroadcastRoom c r)
    then show ?thesis using ag by (cases r) (simp_all add: defs some_or_def bnd_def ret_def throw_def)
  next
    case (BroadcastUser c u)
    then show ?thesis using ag by (cases u) (simp_all add: defs some_or_def bnd_def ret_def throw_def)
  qed (use ag in \<open>simp_all add: defs\<close>)
  then show ?thesis using admin_console by blast
qed

text \<open>The endpoint and the action registry say the same about connections, but not about room creation: with
  the argument left out the endpoint closes it.\<close>

lemma connections_agree: "fixed_cli_command ''server.connections'' args = Some (connections_command args)"
  by (simp add: fixed_cli_command_def connections_command_def enabled_arg_def split: option.splits bool.splits)

lemma roomcreation_closes: "action_commands ''server.roomcreation'' (JObj []) = [(''server.roomcreation'', JObj [(''enabled'', JBool False)])]"
  by (simp add: action_commands_def enabled_arg_def get_field_def)

text \<open>A body that names only the method is refused, although the plugin is named by the path.\<close>

lemma unnamed_body_refused:
  "action_dispatch (\<lambda>_. Some (JObj [(''method'', JStr ''m'')])) why a n ''call'' ''{}'' G s = (Inl (validation (''invalid body: '' @ why ''{}'')), s)"
  by (simp add: action_dispatch_def parse_call_body_def body_of_json_def body_of_def get_field_def from_result_def bnd_def)

section \<open>Examples\<close>

definition keeper_db :: db where
  "keeper_db = sample_db\<lparr>group_permissions := [(1, ''plugin:manage'')]\<rparr>"

definition demo_relay :: relay_libs where
  "demo_relay = \<lparr>rl_env = sudo_env, rl_parse = (\<lambda>_. None), rl_why = (\<lambda>_. []), rl_text = (\<lambda>_. [])\<rparr>"

theorem server_admin_enforced_witness: "may (Some keeper_db) demo_principal ''plugin:manage''"
proof -
  have "granted keeper_db 7 = {''plugin:manage''}"
    by (auto simp: granted_def member_groups_def keeper_db_def sample_db_def new_group_def empty_db_def ROOT_WILDCARD_def)
  then have "require demo_principal ''plugin:manage'' (Some keeper_db) = (Inr (), Some keeper_db)"
    by (intro require_granted) (simp_all add: demo_principal_def is_root_def, simp add: keeper_db_def sample_db_def empty_db_def)
  then have "serve_admin demo_relay demo_principal [] (PluginEnable ''p'') (\<lambda>_ _. Inr JNull) (Some keeper_db) = (Inr JNull, Some keeper_db)"
    by (simp add: plugin_enable_def relay_def andthen_def bnd_def of_uds_def from_result_def)
  from server_admin_enforced [OF disjI1 [OF this]] show ?thesis by simp
qed

theorem server_admin_confined_witness:
  "serve_admin demo_relay demo_principal [] (PluginEnable ''p'') (\<lambda>c v. if c = ''plugin.enable'' then Inr JNull else Inl (Unavailable [])) =
   serve_admin demo_relay demo_principal [] (PluginEnable ''p'') (\<lambda>_ _. Inr JNull)"
  by (rule server_admin_confined [THEN conjunct1]) simp

end
