(* ===== verification/Extractors.thy ===== *)
theory Extractors
  imports Http
begin

text \<open>
  The typed request extractors (\<^verbatim>\<open>error/extractors.rs\<close>): what the framework refuses, with the status of its
  rejection, becomes an error of the registry. The framework's own extraction is a parameter: it gives a
  value or the status of its rejection. Beside them, the combined error of \<^verbatim>\<open>error/mod.rs\<close> and how it is answered.
\<close>

definition json_rejection :: "nat \<Rightarrow> api_error" where
  "json_rejection st =
     (if st = 415 then api_error_new InvalidContentType ''request content type must be application/json''
      else if st = 413 then api_error_new RequestBodyTooLarge ''request body too large''
      else api_error_new InvalidJson ''invalid json request'')"

definition api_json :: "nat + 'a \<Rightarrow> api_error + 'a" where
  "api_json r = (case r of Inr v \<Rightarrow> Inr v | Inl st \<Rightarrow> Inl (json_rejection st))"

definition api_query :: "nat + 'a \<Rightarrow> api_error + 'a" where
  "api_query r = (case r of Inr v \<Rightarrow> Inr v | Inl _ \<Rightarrow> Inl (api_error_new InvalidQuery ''invalid query parameters''))"

definition api_path :: "nat + 'a \<Rightarrow> api_error + 'a" where
  "api_path r = (case r of Inr v \<Rightarrow> Inr v | Inl _ \<Rightarrow> Inl (api_error_new InvalidPathParam ''invalid path parameter''))"

text \<open>A request that cannot be read is answered with an error of the client, in the common envelope, and
  nothing of what the framework said about it is in the answer: two requests refused with the same status
  are answered alike, whatever was in them.\<close>

lemma rejection_answers:
  "e \<in> {json_rejection st, api_error_new InvalidQuery ''invalid query parameters'', api_error_new InvalidPathParam ''invalid path parameter''} \<Longrightarrow>
    resp_status (into_response rid e) \<in> {400, 413} \<and> (\<exists>b. resp_body (into_response rid e) = Envelope b \<and> eb_params b = [])"
  by (auto simp: json_rejection_def into_response_def error_body_of_def api_error_new_def sanitize_details_def get_field_def split: if_splits)

text \<open>The two places that give the code for a wrong content type disagree on the status: the extractor
  answers 400, the outer layer leaves the framework's 415.\<close>

lemma content_type_statuses:
  "resp_status (into_response rid (json_rejection 415)) = 400"
  "resp_status (normalize_error_response rid \<lparr>resp_status = 415, resp_body = Raw t, resp_request_id = None, resp_retry_after = None\<rparr>) = 415"
  by (simp_all add: json_rejection_def into_response_def normalize_error_response_def is_error_status_def Let_def)

section \<open>The combined error\<close>

text \<open>\<open>AppError\<close>; of a database error it matters whether no row was found.\<close>

datatype app_error =
    AppInternal string
  | AppApi api_error
  | AppRowNotFound
  | AppDb string
  | AppIo string

primrec app_error_response :: "string \<Rightarrow> app_error \<Rightarrow> response" where
  "app_error_response rid (AppApi e) = into_response rid e"
| "app_error_response rid (AppInternal m) = into_response rid internal"
| "app_error_response rid AppRowNotFound = into_response rid (api_error_new ResourceNotFound ''not found'')"
| "app_error_response rid (AppDb m) = into_response rid internal"
| "app_error_response rid (AppIo m) = into_response rid internal"

definition into_app_error :: "('e \<Rightarrow> string) \<Rightarrow> 'e + 'a \<Rightarrow> app_error + 'a" where
  "into_app_error show r = (case r of Inr v \<Rightarrow> Inr v | Inl e \<Rightarrow> Inl (AppInternal (show e)))"

text \<open>What went wrong inside never reaches the client: whatever error a call site wraps, the answer is the one
  internal error, with its fixed message and no parameters.\<close>

lemma wrapped_error_hidden:
  assumes "into_app_error show r = Inl e"
  shows "resp_body (app_error_response rid e) =
    Envelope \<lparr>eb_code = InternalError, eb_message = internal_message, eb_request_id = rid, eb_params = []\<rparr>"
  using assms by (auto simp: into_app_error_def into_response_def error_body_of_def internal_def split: sum.splits)

end
