(* ===== verification/Broadcasts.thy ===== *)
theory Broadcasts
  imports Notifications
begin

text \<open>
  Notifications sent by the administration (\<^verbatim>\<open>admin/notifications.rs\<close>): the payload, the resolution of the
  target, publication and push, and the delivery report.
\<close>

section \<open>Targets\<close>

definition broadcast_db_err :: "sqlx_error \<Rightarrow> api_error" where
  "broadcast_db_err = db_err (api_error_new ResourceNotFound ''not found'')"

definition to_all :: "json \<Rightarrow> bool" where
  "to_all target = unwrap_or (Option.bind (get_field target ''all'') as_bool) False"

definition group_users :: "uuid \<Rightarrow> db \<Rightarrow> uuid list" where
  "group_users g d = map snd (filter (\<lambda>m. fst m = g) (group_members d))"

text \<open>Elements that are not the text of an id are skipped.\<close>

definition id_of_json :: "libs \<Rightarrow> json \<Rightarrow> uuid option" where
  "id_of_json L v = Option.bind (as_string v) (uuid_parse L)"

fun groups_users :: "libs \<Rightarrow> json list \<Rightarrow> (db, api_error, uuid list) comp" where
  "groups_users L [] = ret []"
| "groups_users L (v # vs) =
     (case id_of_json L v of
        None \<Rightarrow> groups_users L vs
      | Some g \<Rightarrow>
          bnd (map_err broadcast_db_err (select (group_users g))) (\<lambda>us.
          bnd (groups_users L vs) (\<lambda>rest. ret (us @ rest))))"

definition resolve_recipients :: "libs \<Rightarrow> json \<Rightarrow> (db, api_error, uuid list) comp" where
  "resolve_recipients L target =
     (if to_all target then map_err broadcast_db_err (select (\<lambda>d. map u_id (users d)))
      else case Option.bind (get_field target ''group_ids'') as_array of
        Some gs \<Rightarrow> bnd (groups_users L gs) (\<lambda>us. ret (remdups_adj (sort us)))
      | None \<Rightarrow>
          (case Option.bind (get_field target ''group_id'') (id_of_json L) of
             Some g \<Rightarrow> map_err broadcast_db_err (select (group_users g))
           | None \<Rightarrow>
               (case Option.bind (get_field target ''user_ids'') as_array of
                  Some vs \<Rightarrow> ret (List.map_filter (id_of_json L) vs)
                | None \<Rightarrow> ret [])))"

section \<open>Sending\<close>

record send_body =
  sb_type :: string
  sb_title :: string
  sb_body :: string
  sb_priority :: string
  sb_target :: json
  sb_actions :: "action_draft list"
  sb_dedup_key :: string
  sb_payload :: json

definition payload_base :: "json \<Rightarrow> api_error + json" where
  "payload_base v =
     (case v of
        JNull \<Rightarrow> Inr (JObj [])
      | JObj kvs \<Rightarrow> Inr (JObj kvs)
      | _ \<Rightarrow> Inl (api_error_new ValidationFailed ''notification payload must be an object''))"

definition full_payload :: "libs \<Rightarrow> send_body \<Rightarrow> action_wire list \<Rightarrow> json \<Rightarrow> json" where
  "full_payload L b ws base =
     foldl (\<lambda>v kx. set_param v (fst kx) (snd kx)) base
       [(''type'', JStr (sb_type b)), (''priority'', JStr (sb_priority b)), (''title'', JStr (sb_title b)), (''body'', JStr (sb_body b)),
        (''actions'', JArr (map (wire_json L) ws)), (''dedup_key'', JStr (sb_dedup_key b)), (''admin_target'', sb_target b)]"

definition add_push :: "push_summary \<Rightarrow> push_summary \<Rightarrow> push_summary" where
  "add_push s x =
     \<lparr>delivered = delivered s + delivered x, not_configured_count = not_configured_count s + not_configured_count x,
      failed_count = failed_count s + failed_count x\<rparr>"

fun push_all ::
  "(uuid \<Rightarrow> (db, api_error, push_summary) comp) \<Rightarrow> uuid list \<Rightarrow> push_summary \<Rightarrow> (db, api_error, push_summary) comp" where
  "push_all f [] s d = (Inr s, d)"
| "push_all f (u # us) s d = (case f u d of (Inr x, d1) \<Rightarrow> push_all f us (add_push s x) d1 | (Inl _, d1) \<Rightarrow> push_all f us s d1)"

record send_response =
  sr_event :: uuid
  sr_recipients :: nat
  sr_push :: push_summary

text \<open>The ids of the event, of the inbox rows and of the buttons, and the random bytes of the push messages
  are arguments.\<close>

definition send_notification ::
  "env \<Rightarrow> push_libs \<Rightarrow> (uuid \<Rightarrow> string \<times> string) \<Rightarrow> uuid \<Rightarrow> (uuid \<Rightarrow> uuid) \<Rightarrow> (nat \<Rightarrow> string) \<Rightarrow> auth_principal \<Rightarrow> send_body \<Rightarrow>
   (db option, api_error, send_response) comp" where
  "send_notification E P rnd i fresh buttons a b =
     guarded a ''notification:send_system'' (Inr ()) (
       bnd (from_result (normalize_action_drafts buttons 0 (sb_actions b))) (\<lambda>ws.
       bnd (from_result (payload_base (sb_payload b))) (\<lambda>base.
       let payload = full_payload (libs_of E) b ws base in
       bnd (resolve_recipients (libs_of E) (sb_target b)) (\<lambda>us.
       andthen (ensure (us \<noteq> []) (api_error_new ValidationFailed ''notification target resolves to no users''))
      (bnd (publish_to_users i fresh (sb_type b) (Some (sub a)) payload us) (\<lambda>e.
       bnd (push_all (\<lambda>u. notify P E rnd u (sb_title b) (sb_body b) (Some payload)) us \<lparr>delivered = 0, not_configured_count = 0, failed_count = 0\<rparr>) (\<lambda>s.
       ret \<lparr>sr_event = ev_id e, sr_recipients = length us, sr_push = s\<rparr>)))))))"

section \<open>The report\<close>

record delivery_item =
  di_id :: uuid
  di_type :: string
  di_title :: string
  di_target :: string
  di_status :: string
  di_delivered :: int
  di_failed :: int
  di_sent_at :: instant

definition dash :: string where
  "dash = bytes [226, 128, 148]"

definition listed :: "json \<Rightarrow> string \<Rightarrow> nat" where
  "listed target k = (case Option.bind (get_field target k) as_array of Some xs \<Rightarrow> length xs | None \<Rightarrow> 0)"

definition summarize_target :: "json option \<Rightarrow> string" where
  "summarize_target t =
     (case t of
        None \<Rightarrow> dash
      | Some target \<Rightarrow>
          if to_all target then ''all''
          else
            let gs = listed target ''group_ids''; us = listed target ''user_ids'' in
            if gs = 0 \<and> us = 0 then dash else ''groups:'' @ nat_digits gs @ ''; users:'' @ nat_digits us)"

definition delivery_item_of :: "db \<Rightarrow> notification_event \<Rightarrow> delivery_item" where
  "delivery_item_of d e =
     (let n = int (length (filter (\<lambda>x. un_event_id x = ev_id e) (user_notifications d))) in
      \<lparr>di_id = ev_id e, di_type = ev_type e, di_title = unwrap_or (string_field (ev_payload e) ''title'') [],
       di_target = summarize_target (get_field (ev_payload e) ''admin_target''), di_status = (if 0 < n then ''delivered'' else ''queued''),
       di_delivered = n, di_failed = 0, di_sent_at = ev_created_at e\<rparr>)"

definition delivery_report :: "auth_principal \<Rightarrow> (db option, api_error, delivery_item list) comp" where
  "delivery_report a =
     guarded a ''notification:send_system'' (Inr ())
       (map_err broadcast_db_err (select (\<lambda>d.
          map (delivery_item_of d) (take 100 (rev (sort_key ev_created_at (notification_events d)))))))"

section \<open>A notification reaches its target\<close>

text \<open>Whom a target means.\<close>

definition target_users :: "libs \<Rightarrow> json \<Rightarrow> db \<Rightarrow> uuid set" where
  "target_users L target d =
     (if to_all target then u_id ` set (users d)
      else case Option.bind (get_field target ''group_ids'') as_array of
        Some gs \<Rightarrow> {u. \<exists>v \<in> set gs. \<exists>g. id_of_json L v = Some g \<and> (g, u) \<in> set (group_members d)}
      | None \<Rightarrow>
          (case Option.bind (get_field target ''group_id'') (id_of_json L) of
             Some g \<Rightarrow> {u. (g, u) \<in> set (group_members d)}
           | None \<Rightarrow>
               (case Option.bind (get_field target ''user_ids'') as_array of
                  Some vs \<Rightarrow> {u. \<exists>v \<in> set vs. id_of_json L v = Some u}
                | None \<Rightarrow> {})))"

lemma set_group_users [simp]: "set (group_users g d) = {u. (g, u) \<in> set (group_members d)}"
  by (force simp: group_users_def)

lemma groups_users_runs:
  assumes "groups_users L vs d = (Inr us, d')"
  shows "untouched d d' \<and> set us = {u. \<exists>v \<in> set vs. \<exists>g. id_of_json L v = Some g \<and> (g, u) \<in> set (group_members d)}"
  using assms
proof (induction vs arbitrary: d us)
  case Nil
  then show ?case by (simp add: ret_def untouched_def)
next
  case (Cons v vs)
  show ?case
  proof (cases "id_of_json L v")
    case None
    with Cons show ?thesis by simp
  next
    case (Some g)
    with Cons.prems obtain xs ys d1 where sel: "select (group_users g) d = (Inr xs, d1)" and rest: "groups_users L vs d1 = (Inr ys, d')" and us: "us = xs @ ys"
      by (auto simp: runs)
    from select_InrD [OF sel] obtain zs where d1: "d1 = d\<lparr>outcomes := zs\<rparr>" and xs: "xs = group_users g d1" by blast
    from Cons.IH [OF rest] d1 xs us Some show ?thesis by (auto simp: untouched_def)
  qed
qed

lemma resolve_runs:
  assumes "resolve_recipients L target d = (Inr us, d')"
  shows "untouched d d' \<and> set us = target_users L target d"
proof -
  have sel: "untouched d t \<and> x = f d" if "select f d = (Inr x, t)" "\<And>d zs. f (d\<lparr>outcomes := zs\<rparr>) = f d" for f :: "db \<Rightarrow> uuid list" and x t
    using select_InrD [OF that(1)] that(2) by (auto simp: untouched_def)
  have g: "group_users g (e\<lparr>outcomes := zs\<rparr>) = group_users g e" for g e zs by (simp add: group_users_def)
  have ids: "set (List.map_filter (id_of_json L) vs) = {u. \<exists>v \<in> set vs. id_of_json L v = Some u}" for vs
    by (force simp: List.map_filter_def)
  consider "to_all target" | gs where "\<not> to_all target" "Option.bind (get_field target ''group_ids'') as_array = Some gs"
    | g where "\<not> to_all target" "Option.bind (get_field target ''group_ids'') as_array = None" "Option.bind (get_field target ''group_id'') (id_of_json L) = Some g"
    | "\<not> to_all target" "Option.bind (get_field target ''group_ids'') as_array = None" "Option.bind (get_field target ''group_id'') (id_of_json L) = None"
    by (cases "Option.bind (get_field target ''group_ids'') as_array"; cases "Option.bind (get_field target ''group_id'') (id_of_json L)") blast+
  then show ?thesis
  proof cases
    case 1
    with assms have "select (\<lambda>d. map u_id (users d)) d = (Inr us, d')" by (simp add: resolve_recipients_def runs)
    from sel [OF this] 1 show ?thesis by (simp add: target_users_def)
  next
    case (2 gs)
    with assms obtain vs where "groups_users L gs d = (Inr vs, d')" and us: "us = remdups_adj (sort vs)" by (auto simp: resolve_recipients_def runs)
    from groups_users_runs [OF this(1)] us 2 show ?thesis by (simp add: target_users_def)
  next
    case (3 g)
    with assms have "select (group_users g) d = (Inr us, d')" by (simp add: resolve_recipients_def runs)
    from sel [OF this g] 3 show ?thesis by (simp add: target_users_def)
  next
    case 4
    with assms have "d' = d" "us = (case Option.bind (get_field target ''user_ids'') as_array of Some vs \<Rightarrow> List.map_filter (id_of_json L) vs | None \<Rightarrow> [])"
      by (auto simp: resolve_recipients_def ret_def split: option.splits)
    with 4 show ?thesis by (simp add: target_users_def ids untouched_def split: option.splits)
  qed
qed

lemma push_all_reads:
  assumes "\<And>u. obeys untouched (f u)"
  shows "\<exists>x d'. push_all f us s d = (Inr x, d') \<and> untouched d d'"
proof (induction us arbitrary: s d)
  case Nil
  show ?case by (simp add: untouched_def)
next
  case (Cons u us)
  obtain r d1 where f: "f u d = (r, d1)" by (cases "f u d")
  have "untouched d d1" by (rule obeys_run [OF assms f])
  moreover obtain s' where "push_all f (u # us) s d = push_all f us s' d1" using f by (cases r) auto
  moreover obtain x d' where "push_all f us s' d1 = (Inr x, d')" "untouched d1 d'" using Cons by blast
  ultimately show ?case by (metis reader.trans_R)
qed

lemma notify_reads: "obeys untouched (notify P E rnd u title body data)"
  unfolding notify_def by (intro reader.table_intros)

lemma push_notify_reads: "\<exists>x d'. push_all (\<lambda>u. notify P E rnd u title body data) us s d = (Inr x, d') \<and> untouched d d'"
  by (rule push_all_reads) (rule notify_reads)

lemma publish_actor:
  assumes "publish_to_users i fresh ty (Some v) payload us d = (Inr e, d')"
  shows "known_user d v"
  using assms unfolding publish_to_users_def
proof (cases rule: transaction_cases)
  case (finished xs x d2 ys)
  then obtain d1 where "create_event i ty (Some v) payload (d\<lparr>outcomes := xs\<rparr>) = (Inr x, d1)" by (auto simp: runs)
  then show ?thesis by (auto simp: create_event_def insert_event_def known_user_def Let_def dest!: query_InrD split: if_splits)
qed simp

text \<open>C26: A notification reaches its target. When sending is answered, the sender has the permission and is a user
  of the table; there is one new event, whose inbox rows are one for each user whom the target means, with
  at least one of them, and for nobody else; and no other inbox row has changed. It is assumed that
  generated ids are new and that inbox rows refer to events.\<close>

theorem send_reaches_target:
  assumes run: "send_notification E P rnd i fresh buttons a b (Some d) = (Inr res, t)"
    and ids: "inj fresh" "\<And>u. fresh u \<notin> un_id ` set (user_notifications d)"
    and refs: "un_event_id ` set (user_notifications d) \<subseteq> ev_id ` set (notification_events d)"
  shows "\<exists>d' e. t = Some d' \<and> may (Some d) a ''notification:send_system'' \<and> known_user d (sub a) \<and> sr_event res = i \<and>
    notification_events d' = notification_events d @ [e] \<and> ev_id e = i \<and>
    set (recipients_of d' i) = target_users (libs_of E) (sb_target b) d \<and> distinct (recipients_of d' i) \<and>
    target_users (libs_of E) (sb_target b) d \<noteq> {} \<and> filter (\<lambda>n. un_event_id n \<noteq> i) (user_notifications d') = user_notifications d"
  using run unfolding send_notification_def
proof (cases rule: guarded_cases)
  case (passed d0 d1 d')
  from passed(5) obtain ws base us e x d2 d3 where resolve: "resolve_recipients (libs_of E) (sb_target b) d1 = (Inr us, d2)" and "us \<noteq> []"
      and pub: "publish_to_users i fresh (sb_type b) (Some (sub a)) (full_payload (libs_of E) b ws base) us d2 = (Inr e, d3)"
      and push: "push_all (\<lambda>u. notify P E rnd u (sb_title b) (sb_body b) (Some (full_payload (libs_of E) b ws base))) us
          \<lparr>delivered = 0, not_configured_count = 0, failed_count = 0\<rparr> d3 = (Inr x, d')"
      and res: "res = \<lparr>sr_event = ev_id e, sr_recipients = length us, sr_push = x\<rparr>"
    by (auto simp: Let_def runs)
  from resolve_runs [OF resolve] have d2: "untouched d1 d2" and us: "set us = target_users (libs_of E) (sb_target b) d1" by auto
  from passed(3,4) d2 have u: "untouched d d1" "untouched d d2" by (auto intro: reader.trans_R)
  have "users d1 = users d" "group_members d1 = group_members d" "users d2 = users d" using u by (auto simp: untouched_def)
  then have same: "target_users L x d1 = target_users L x d" "known_user d2 v = known_user d v" for L x v
    by (simp_all only: target_users_def known_user_def)
  have "user_notifications d2 = user_notifications d" "notification_events d2 = notification_events d" using u(2) by (auto simp: untouched_def)
  with publish_effect [OF pub ids(1)] ids(2) refs have eff:
    "notification_events d3 = notification_events d @ [e]" "ev_id e = i" "set (recipients_of d3 i) = set us" "distinct (recipients_of d3 i)"
    "filter (\<lambda>n. un_event_id n \<noteq> i) (user_notifications d3) = user_notifications d"
    by auto
  have "untouched d3 d'" 
    using push_notify_reads [of P E rnd "sb_title b" "sb_body b" _ us _ d3] push by (metis (no_types) prod.inject)
  then have tables: "user_notifications d' = user_notifications d3" "notification_events d' = notification_events d3" by (auto simp: untouched_def)
  have "target_users (libs_of E) (sb_target b) d \<noteq> {}" using us same(1) \<open>us \<noteq> []\<close> by (metis set_empty)
  moreover have "known_user d (sub a)" using publish_actor [OF pub] same(2) by simp
  moreover have "recipients_of d' i = recipients_of d3 i" by (simp add: recipients_of_def tables(1))
  ultimately show ?thesis
    using eff us same(1) passed(1,6) res tables by (intro exI [of _ d'] exI [of _ e] conjI) (simp_all only: send_response.simps not_False_eq_True)
qed simp

text \<open>The report knows only two of the forms of a target: one that names a single group is shown as none.\<close>

lemma single_group_unreported:
  "summarize_target (Some (JObj [(''group_id'', JStr g)])) = dash"
  by (simp add: summarize_target_def to_all_def get_field_def unwrap_or_def listed_def)

text \<open>A user named twice has one inbox row, but is counted, and pushed to, twice.\<close>

lemma named_twice:
  "id_of_json L v = Some u \<Longrightarrow> resolve_recipients L (JObj [(''user_ids'', JArr [v, v])]) d = (Inr [u, u], d)"
  by (simp add: resolve_recipients_def to_all_def get_field_def unwrap_or_def as_array_def ret_def List.map_filter_def)

section \<open>Examples\<close>

definition herald_db :: db where
  "herald_db = sample_db\<lparr>group_permissions := [(1, ''notification:send_system'')]\<rparr>"

text \<open>A push library that refuses everything.\<close>

definition no_push :: push_libs where
  "no_push = \<lparr>ephemeral_public = id, diffie_hellman = (\<lambda>_ _. Inl []), hkdf_sha256 = (\<lambda>_ _ _ _. Inl []), aes128_gcm = (\<lambda>_ _ _. Inl []),
     public_of_pem = Inl, url_origin = Inl, sign_es256 = (\<lambda>_ _. Inl []), json_bytes = (\<lambda>_. []), subscription_of_json = (\<lambda>_. None),
     b64_decode = (\<lambda>_. None), http_post = (\<lambda>_ _ _. Inl [])\<rparr>"

definition to_staff :: send_body where
  "to_staff = \<lparr>sb_type = ''t'', sb_title = [], sb_body = [], sb_priority = [], sb_target = JObj [(''group_id'', JStr ''a'')], sb_actions = [],
     sb_dedup_key = [], sb_payload = JNull\<rparr>"

lemma herald_require: "require demo_principal ''notification:send_system'' (Some herald_db) = (Inr (), Some herald_db)"
proof -
  have "granted herald_db 7 = {''notification:send_system''}"
    by (auto simp: granted_def member_groups_def herald_db_def sample_db_def new_group_def empty_db_def ROOT_WILDCARD_def)
  then show ?thesis
    by (intro require_granted) (simp_all add: demo_principal_def is_root_def, simp add: herald_db_def sample_db_def empty_db_def)
qed

theorem send_reaches_target_witness:
  "\<exists>d'. set (recipients_of d' 5) = {7} \<and> distinct (recipients_of d' 5)"
proof -
  have parse: "id_of_json (libs_of sudo_env) (JStr ''a'') = Some 1" by (simp add: id_of_json_def sudo_env_def sudo_libs_def demo_libs_def)
  have calm: "outcomes herald_db = []" by (simp add: herald_db_def sample_db_def empty_db_def)
  have target: "resolve_recipients (libs_of sudo_env) (sb_target to_staff) herald_db = (Inr [7], herald_db)"
    by (simp add: resolve_recipients_def to_staff_def to_all_def get_field_def unwrap_or_def parse map_err_def select_def query_calm calm)
      (simp add: group_users_def herald_db_def sample_db_def empty_db_def)
  let ?payload = "full_payload (libs_of sudo_env) to_staff [] (JObj [])"
  have "\<exists>e d3. publish_to_users 5 (\<lambda>u. u + 1) ''t'' (Some 7) ?payload [7] herald_db = (Inr e, d3)"
    by (simp add: publish_to_users_def transaction_def create_event_def insert_event_def map_err_def query_calm Let_def bnd_def
        andthen_def ret_def deliver_def insert_inbox_def known_user_def herald_db_def sample_db_def empty_db_def)
  then obtain e d3 where pub: "publish_to_users 5 (\<lambda>u. u + 1) ''t'' (Some 7) ?payload [7] herald_db = (Inr e, d3)" by blast
  obtain x d' where push: "push_all (\<lambda>u. notify no_push sudo_env (\<lambda>_. ([], [])) u [] [] (Some ?payload)) [7]
      \<lparr>delivered = 0, not_configured_count = 0, failed_count = 0\<rparr> d3 = (Inr x, d')"
    using push_notify_reads [of no_push sudo_env "\<lambda>_. ([], [])" "[]" "[]" "Some ?payload" "[7]" "\<lparr>delivered = 0, not_configured_count = 0, failed_count = 0\<rparr>" d3]
    by (elim exE conjE)
  have "send_notification sudo_env no_push (\<lambda>_. ([], [])) 5 (\<lambda>u. u + 1) (\<lambda>_. []) demo_principal to_staff (Some herald_db) =
      (Inr \<lparr>sr_event = ev_id e, sr_recipients = 1, sr_push = x\<rparr>, Some d')"
    using target pub push herald_require
    by (simp add: send_notification_def guarded_def andthen_def bnd_def from_result_def with_db_def payload_base_def Let_def ensure_def ret_def
        to_staff_def demo_principal_def)
  from send_reaches_target [OF this] have "\<exists>d' e. set (recipients_of d' 5) = target_users (libs_of sudo_env) (sb_target to_staff) herald_db \<and> distinct (recipients_of d' 5)"
    by (simp add: inj_def herald_db_def sample_db_def empty_db_def) blast
  moreover have "target_users (libs_of sudo_env) (sb_target to_staff) herald_db = {7}" using resolve_runs [OF target] by simp
  ultimately show ?thesis by auto
qed

end
