(* ===== verification/Uds_Link.thy ===== *)
theory Uds_Link
  imports Realtime
begin

text \<open>
  The life of the connection to the game server (\<^verbatim>\<open>pmp/openuds/client.rs\<close>): the configuration it is made
  from, one connection from dialling to its end (\<open>connect_once\<close>), and the loop that reconnects with a
  growing pause (\<open>run_link\<close>). The table of pending requests is the machine of \<open>Open_Uds\<close>; here it is driven by
  what arrives on the socket and by what callers do, in the order in which it happens.

  What the operating system and the peer do in one round of the loop is the argument \<open>link_round\<close>. The
  readers that serde derives for the frames are the parameter \<open>frame_readers\<close>.
\<close>

section \<open>Configuration\<close>

datatype open_uds_auth = Token string | Direct

record open_uds_config =
  oc_path :: string
  oc_auth :: open_uds_auth
  oc_reconnect_base_ms :: nat
  oc_reconnect_max_ms :: nat
  oc_request_timeout_ms :: nat
  oc_capabilities :: "string list"

definition from_runtime :: "pmp_config \<Rightarrow> string option \<Rightarrow> open_uds_config" where
  "from_runtime c token =
     \<lparr>oc_path = openuds_path c,
      oc_auth = (case token of Some t \<Rightarrow> if t \<noteq> [] then Token t else Direct | None \<Rightarrow> Direct),
      oc_reconnect_base_ms = reconnect_base_ms c, oc_reconnect_max_ms = reconnect_max_ms c,
      oc_request_timeout_ms = request_timeout_ms c, oc_capabilities = pmp_capabilities c\<rparr>"

section \<open>The link\<close>

text \<open>The shared state of the client: the request table, the published connection state, the number of
  attempts, what was put on the event and stream channels, and the frames written besides commands.\<close>

record link =
  lk_uds :: uds
  lk_connected :: bool
  lk_session :: "string option"
  lk_version :: "string option"
  lk_attempts :: "64 word"
  lk_events :: "event_frame list"
  lk_streams :: "stream_frame list"
  lk_written :: "json list"

definition link_new :: link where
  "link_new = \<lparr>lk_uds = uds_new, lk_connected = False, lk_session = None, lk_version = None, lk_attempts = 0,
     lk_events = [], lk_streams = [], lk_written = []\<rparr>"

record frame_readers =
  response_of :: "json \<Rightarrow> response_frame option"
  event_of :: "json \<Rightarrow> event_frame option"
  stream_of :: "json \<Rightarrow> stream_frame option"
  authenticated_of :: "json \<Rightarrow> string + string \<times> string"

definition on_uds :: "(uds \<Rightarrow> uds) \<Rightarrow> link \<Rightarrow> link" where
  "on_uds f l = l\<lparr>lk_uds := f (lk_uds l)\<rparr>"

definition link_authenticated :: "open_uds_config \<Rightarrow> string \<Rightarrow> string \<Rightarrow> link \<Rightarrow> link" where
  "link_authenticated C session version l =
     on_uds (set_authenticated (oc_capabilities C) version)
       (l\<lparr>lk_connected := True, lk_session := Some session, lk_version := Some version\<rparr>)"

definition link_disconnected :: "link \<Rightarrow> link" where
  "link_disconnected l = on_uds set_disconnected (l\<lparr>lk_connected := False, lk_session := None\<rparr>)"

definition handle_frame :: "frame_readers \<Rightarrow> json \<Rightarrow> link \<Rightarrow> link" where
  "handle_frame R v l =
     (let ty = unwrap_or (string_field v ''type'') [] in
      if ty = ''response'' then (case response_of R v of Some f \<Rightarrow> on_uds (handle_response f) l | None \<Rightarrow> l)
      else if ty = ''event'' then (case event_of R v of Some f \<Rightarrow> l\<lparr>lk_events := lk_events l @ [f]\<rparr> | None \<Rightarrow> l)
      else if ty = ''stream'' then (case stream_of R v of Some f \<Rightarrow> l\<lparr>lk_streams := lk_streams l @ [f]\<rparr> | None \<Rightarrow> l)
      else l)"

text \<open>Frames besides commands. The first argument is the error of the write, if it fails.\<close>

definition send_raw :: "string option \<Rightarrow> json \<Rightarrow> link \<Rightarrow> (uds_error + unit) \<times> link" where
  "send_raw failure frm l =
     (if \<not> writer (lk_uds l) then (Inl (Unavailable ''openuds not connected''), l)
      else case failure of
        Some e \<Rightarrow> (Inl (Io e), l)
      | None \<Rightarrow> (Inr (), l\<lparr>lk_written := lk_written l @ [frm]\<rparr>))"

definition event_types_frame :: "string \<Rightarrow> string list \<Rightarrow> json" where
  "event_types_frame ty ts = JObj [(''type'', JStr ty), (''event_types'', JArr (map JStr ts))]"

definition subscribe :: "string option \<Rightarrow> string list \<Rightarrow> link \<Rightarrow> (uds_error + unit) \<times> link" where
  "subscribe failure ts = send_raw failure (event_types_frame ''subscribe'' ts)"

definition unsubscribe :: "string option \<Rightarrow> string list \<Rightarrow> link \<Rightarrow> (uds_error + unit) \<times> link" where
  "unsubscribe failure ts = send_raw failure (event_types_frame ''unsubscribe'' ts)"

definition subscribe_stream :: "string option \<Rightarrow> string \<Rightarrow> link \<Rightarrow> (uds_error + unit) \<times> link" where
  "subscribe_stream failure stream = send_raw failure (JObj [(''type'', JStr ''subscribe_stream''), (''stream'', JStr stream)])"

definition ping :: "string option \<Rightarrow> link \<Rightarrow> (uds_error + unit) \<times> link" where
  "ping failure = send_raw failure (JObj [(''type'', JStr ''ping'')])"

section \<open>One connection\<close>

text \<open>What happens on the link: a frame arrives, a caller sends a command, a waiting caller's time is up, or
  a caller writes another frame.\<close>

datatype link_input =
    GotFrame json
  | SendsCommand "string option"
  | TimeUp string nat
  | WritesRaw "string option" json

primrec link_step :: "frame_readers \<Rightarrow> link_input \<Rightarrow> link \<Rightarrow> link" where
  "link_step R (GotFrame v) l = handle_frame R v l"
| "link_step R (SendsCommand failure) l = on_uds (send_command failure) l"
| "link_step R (TimeUp i ms) l = on_uds (time_out i ms) l"
| "link_step R (WritesRaw failure frm) l = snd (send_raw failure frm l)"

text \<open>How a dial goes: the socket cannot be opened, the authentication cannot be written, no first frame
  can be read, or the peer answers with a first frame and the connection lives on for some inputs.\<close>

datatype dial =
    Unreachable string
  | AuthUnsent string
  | NoFirstFrame string
  | Answers json "link_input list"

definition client_auth_frame :: "open_uds_auth \<Rightarrow> json" where
  "client_auth_frame a =
     (case a of
        Token t \<Rightarrow> JObj [(''type'', JStr ''authenticate''), (''token'', JStr t)]
      | Direct \<Rightarrow> JObj [(''type'', JStr ''authenticate'')])"

definition connect_once :: "frame_readers \<Rightarrow> open_uds_config \<Rightarrow> dial \<Rightarrow> link \<Rightarrow> (uds_error + unit) \<times> link" where
  "connect_once R C d l =
     (let l1 = l\<lparr>lk_attempts := lk_attempts l + 1\<rparr>;
          l2 = l1\<lparr>lk_written := lk_written l1 @ [client_auth_frame (oc_auth C)]\<rparr> in
      case d of
        Unreachable e \<Rightarrow> (Inl (Io e), l1)
      | AuthUnsent e \<Rightarrow> (Inl (Io e), l1)
      | NoFirstFrame e \<Rightarrow> (Inl (Protocol e), l2)
      | Answers first xs \<Rightarrow>
          (let ty = string_field first ''type'' in
           if ty = Some ''authenticated'' then
             (case authenticated_of R first of
                Inl e \<Rightarrow> (Inl (Protocol e), l2)
              | Inr (session, version) \<Rightarrow>
                  (Inr (), link_disconnected
                     (fold (link_step R) xs (on_uds install_writer (link_authenticated C session version l2)))))
           else if ty = Some ''auth_error''
           then (Inl (UdsAuthRequired (unwrap_or (string_field first ''message'') ''authentication failed'')), l2)
           else (Inl (Protocol ''unexpected first frame''), l2)))"

section \<open>The reconnect loop\<close>

text \<open>One round: the dial, whether the client was told to stop by the time it ends, the jitter that is
  drawn, what callers do during the pause, and whether a stop ends the pause.\<close>

record link_round =
  rd_dial :: dial
  rd_stop :: bool
  rd_jitter :: nat
  rd_idle :: "link_input list"
  rd_woken :: bool

definition tries_after :: "uds_error + unit \<Rightarrow> nat \<Rightarrow> nat" where
  "tries_after r tries = (case r of Inr _ \<Rightarrow> 0 | Inl _ \<Rightarrow> (tries + 1) mod 2 ^ 64)"

text \<open>The pauses that were chosen, and the link at the end.\<close>

fun run_link :: "frame_readers \<Rightarrow> open_uds_config \<Rightarrow> link_round list \<Rightarrow> nat \<Rightarrow> link \<Rightarrow> nat list \<times> link" where
  "run_link R C [] tries l = ([], l)"
| "run_link R C (rd # rds) tries l =
     (let (r, l1) = connect_once R C (rd_dial rd) l;
          tries1 = tries_after r tries;
          l2 = link_disconnected l1 in
      if rd_stop rd then ([], l2)
      else
        let pause = next_backoff (rd_jitter rd) tries1 (oc_reconnect_base_ms C) (oc_reconnect_max_ms C);
            l3 = fold (link_step R) (rd_idle rd) l2 in
        if rd_woken rd then ([pause], l3)
        else let (ps, l4) = run_link R C rds tries1 l3 in (pause # ps, l4))"

section \<open>Nobody is left waiting\<close>

abbreviation uds_run :: "uds \<Rightarrow> bool" where
  "uds_run \<equiv> reachable (\<lambda>u. u = uds_new) uds_step"

lemma on_uds_run: "uds_run (lk_uds l) \<Longrightarrow> uds_step (lk_uds l) (f (lk_uds l)) \<Longrightarrow> uds_run (lk_uds (on_uds f l))"
  by (simp add: on_uds_def reachable.move)

lemma send_raw_uds [simp]: "lk_uds (snd (send_raw failure frm l)) = lk_uds l"
  by (simp add: send_raw_def split: option.splits)

lemma link_step_run: "uds_run (lk_uds l) \<Longrightarrow> uds_run (lk_uds (link_step R x l))"
  by (cases x) (auto simp: handle_frame_def Let_def intro!: on_uds_run uds_step.intros split: option.splits)

lemma link_steps_run: "uds_run (lk_uds l) \<Longrightarrow> uds_run (lk_uds (fold (link_step R) xs l))"
  by (induction xs arbitrary: l) (simp_all add: link_step_run)

lemma disconnected_run: "uds_run (lk_uds l) \<Longrightarrow> uds_run (lk_uds (link_disconnected l))"
  unfolding link_disconnected_def by (rule on_uds_run) (auto intro: uds_step.intros)

lemma connect_run:
  assumes "uds_run (lk_uds l)"
  shows "uds_run (lk_uds (snd (connect_once R C d l)))"
proof -
  have auth: "uds_run (lk_uds (on_uds install_writer (link_authenticated C s v m)))" if "lk_uds m = lk_uds l" for s v m
    unfolding link_authenticated_def using that assms by (auto intro!: on_uds_run uds_step.intros)
  show ?thesis using assms
    by (auto simp: connect_once_def Let_def intro!: disconnected_run link_steps_run auth split: dial.splits sum.splits)
qed

text \<open>A link at rest: not connected, and nobody waits for an answer. Whatever callers try on it, it stays so.\<close>

definition at_rest :: "link \<Rightarrow> bool" where
  "at_rest l \<longleftrightarrow> \<not> lk_connected l \<and> lk_session l = None \<and> \<not> writer (lk_uds l) \<and> pending (lk_uds l) = []"

lemma at_rest_disconnected: "at_rest (link_disconnected l)"
  by (simp add: at_rest_def link_disconnected_def on_uds_def set_disconnected_def)

lemma at_rest_step: "at_rest l \<Longrightarrow> at_rest (link_step R x l)"
  by (cases x)
    (auto simp: at_rest_def on_uds_def handle_frame_def send_raw_def send_command_def handle_response_def time_out_def finish_def
       aput_def adel_def aget_def Let_def split: option.splits)

lemma at_rest_steps: "at_rest l \<Longrightarrow> at_rest (fold (link_step R) xs l)"
  by (induction xs arbitrary: l) (simp_all add: at_rest_step)

lemma run_link_rest:
  "uds_run (lk_uds l) \<Longrightarrow> uds_run (lk_uds (snd (run_link R C rds tries l))) \<and> (rds \<noteq> [] \<or> at_rest l \<longrightarrow> at_rest (snd (run_link R C rds tries l)))"
proof (induction rds arbitrary: tries l)
  case (Cons rd rds)
  obtain r l1 where c: "connect_once R C (rd_dial rd) l = (r, l1)" by (cases "connect_once R C (rd_dial rd) l")
  let ?l2 = "link_disconnected l1" and ?l3 = "fold (link_step R) (rd_idle rd) (link_disconnected l1)"
  have run: "uds_run (lk_uds ?l2)" using connect_run [OF Cons.prems, of R C "rd_dial rd"] c by (simp add: disconnected_run)
  then have idle: "uds_run (lk_uds ?l3)" "at_rest ?l3" by (simp_all add: link_steps_run at_rest_steps at_rest_disconnected)
  from Cons.IH [OF idle(1), of "tries_after r tries"] idle run show ?case
    by (auto simp: c Let_def at_rest_disconnected split: prod.splits)
qed simp

text \<open>C27: Nobody is left waiting. Whatever the game server and the callers do, whenever the loop has ended a
  connection every command that was ever sent has been answered, each exactly once: by the response with
  its own identifier, or with an error; and the link shows itself as disconnected.\<close>

theorem disconnect_answers_all:
  assumes "run_link R C rds 0 link_new = (ps, l)" and "rds \<noteq> []" and "sent (lk_uds l) < 2 ^ 64 - 1"
  shows "\<not> lk_connected l \<and> lk_session l = None \<and> pending (lk_uds l) = [] \<and> distinct (map fst (answers (lk_uds l))) \<and>
    fst ` set (answers (lk_uds l)) = {..< sent (lk_uds l)} \<and>
    (\<forall>k f. (k, Answered f) \<in> set (answers (lk_uds l)) \<longrightarrow> response_frame.rf_id f = Some (nat_digits (Suc k)))"
proof -
  have "uds_run (lk_uds link_new)" by (rule reachable.start) (simp add: link_new_def)
  from run_link_rest [OF this, of R C rds 0] assms have run: "uds_run (lk_uds l)" and rest: "at_rest l" by simp_all
  from openuds.reachable_inv [OF run] assms(3) rest show ?thesis
    by (auto simp: uds_ok_def at_rest_def in_flight_def id_of_def)
qed

section \<open>Pacing\<close>

definition dial_ok :: "frame_readers \<Rightarrow> dial \<Rightarrow> bool" where
  "dial_ok R d =
     (case d of
        Answers first xs \<Rightarrow> string_field first ''type'' = Some ''authenticated'' \<and> \<not> isl (authenticated_of R first)
      | _ \<Rightarrow> False)"

lemma connect_once_ok: "isl (fst (connect_once R C d l)) \<longleftrightarrow> \<not> dial_ok R d"
  by (auto simp: connect_once_def dial_ok_def Let_def split: dial.splits sum.splits)

text \<open>A peer that does not authenticate is not listened to: nothing it sends reaches a caller or a channel.\<close>

lemma refused_dial:
  "\<not> dial_ok R d \<Longrightarrow> \<exists>w. snd (connect_once R C d l) = l\<lparr>lk_attempts := lk_attempts l + 1, lk_written := w\<rparr>"
  by (cases l) (auto simp: connect_once_def dial_ok_def Let_def split: dial.splits sum.splits)

text \<open>A lost connection clears neither the version nor the capabilities: until the next one, a command is let
  through the capability check and fails only at the missing writer.\<close>

lemma capabilities_outlive_connection:
  "caps (lk_uds (link_disconnected l)) = caps (lk_uds l) \<and> lk_version (link_disconnected l) = lk_version l"
  by (simp add: link_disconnected_def on_uds_def set_disconnected_def)

text \<open>The failures in a row up to round \<open>i\<close>, counted from \<open>tries\<close> if no dial succeeded before.\<close>

definition streak :: "frame_readers \<Rightarrow> nat \<Rightarrow> link_round list \<Rightarrow> nat" where
  "streak R tries rds = foldl (\<lambda>n rd. if dial_ok R (rd_dial rd) then 0 else Suc n) tries rds"

lemma streak_ge:
  assumes "0 < n" and "n \<le> Suc i" and "i < length rds" and "\<And>j. j \<le> i \<Longrightarrow> i < j + n \<Longrightarrow> \<not> dial_ok R (rd_dial (rds ! j))"
  shows "n \<le> streak R 0 (take (Suc i) rds)"
  using assms
proof (induction i arbitrary: n)
  case (Suc i)
  have last: "streak R 0 (take (Suc (Suc i)) rds) = Suc (streak R 0 (take (Suc i) rds))"
    using Suc.prems(1,3) Suc.prems(4) [of "Suc i"] by (simp add: take_Suc_conv_app_nth [of "Suc i"] streak_def del: take_Suc)
  show ?case
  proof (cases "n = 1")
    case False
    have "n - 1 \<le> streak R 0 (take (Suc i) rds)"
      using Suc.prems False by (intro Suc.IH) auto
    then show ?thesis unfolding last by simp
  qed (simp add: last)
qed (use assms(4) [of 0] in \<open>auto simp: take_Suc_conv_app_nth streak_def\<close>)

lemma pauses_follow_streak:
  assumes "tries + length rds < 2 ^ 64" and "run_link R C rds tries l = (ps, l')" and "i < length ps"
  shows "i < length rds \<and> ps ! i = next_backoff (rd_jitter (rds ! i)) (streak R tries (take (Suc i) rds)) (oc_reconnect_base_ms C) (oc_reconnect_max_ms C)"
  using assms
proof (induction rds arbitrary: tries l l' ps i)
  case (Cons rd rds)
  obtain r l1 where c: "connect_once R C (rd_dial rd) l = (r, l1)" by (cases "connect_once R C (rd_dial rd) l")
  have tries1: "tries_after r tries = (if dial_ok R (rd_dial rd) then 0 else Suc tries)"
    using connect_once_ok [of R C "rd_dial rd" l] Cons.prems(1) c by (cases r) (simp_all add: tries_after_def)
  then have le: "tries_after r tries + length rds < 2 ^ 64" using Cons.prems(1) by (simp split: if_splits)
  have head: "streak R tries (take (Suc i) (rd # rds)) = streak R (tries_after r tries) (take i rds)"
    by (simp add: streak_def tries1)
  let ?l3 = "fold (link_step R) (rd_idle rd) (link_disconnected l1)"
  obtain qs l4 where rec: "run_link R C rds (tries_after r tries) ?l3 = (qs, l4)" by (cases "run_link R C rds (tries_after r tries) ?l3")
  show ?case
  proof (cases i)
    case 0
    with Cons.prems(2,3) head show ?thesis by (auto simp: c rec Let_def streak_def split: if_splits prod.splits)
  next
    case (Suc j)
    with Cons.prems(2,3) have "j < length qs" "ps ! i = qs ! j" by (auto simp: c rec Let_def split: if_splits)
    with Cons.IH [OF le rec] head Suc show ?thesis by simp
  qed
qed simp

text \<open>Reconnecting is paced. The pause after a round is never longer than the configured maximum; it starts at
  the base as soon as a connection was accepted, and after \<open>n\<close> failures in a row it is at least eight tenths
  of the base doubled \<open>n - 1\<close> times, up to the maximum.\<close>

theorem reconnect_paced:
  assumes "run_link R C rds 0 l = (ps, l')" and "i < length ps" and "length rds < 2 ^ 64"
    and "80 \<le> rd_jitter (rds ! i)" and "rd_jitter (rds ! i) \<le> 120" and "oc_reconnect_base_ms C * 1024 * 120 < 2 ^ 64"
  shows "ps ! i \<le> oc_reconnect_max_ms C \<and>
    (dial_ok R (rd_dial (rds ! i)) \<longrightarrow> ps ! i = min (oc_reconnect_base_ms C) (oc_reconnect_max_ms C)) \<and>
    (\<forall>n. 0 < n \<and> n \<le> Suc i \<and> (\<forall>j \<le> i. i < j + n \<longrightarrow> \<not> dial_ok R (rd_dial (rds ! j))) \<longrightarrow>
       min (oc_reconnect_max_ms C) (oc_reconnect_base_ms C * 2 ^ min (n - 1) 10 * 80 div 100) \<le> ps ! i)"
proof -
  let ?b = "oc_reconnect_base_ms C" and ?m = "oc_reconnect_max_ms C" and ?k = "streak R 0 (take (Suc i) rds)"
  from pauses_follow_streak [OF _ assms(1,2)] assms(3) have i: "i < length rds"
    and p: "ps ! i = next_backoff (rd_jitter (rds ! i)) ?k ?b ?m" by simp_all
  note bounds = backoff_bounds [OF assms(4,6,5), of ?k ?m]
  have last: "take (Suc i) rds = take i rds @ [rds ! i]" using i by (rule take_Suc_conv_app_nth)
  have "ps ! i = min ?b ?m" if "dial_ok R (rd_dial (rds ! i))"
    using that p last by (simp add: streak_def next_backoff_def)
  moreover have "min ?m (?b * 2 ^ min (n - 1) 10 * 80 div 100) \<le> ps ! i"
    if "0 < n" and "n \<le> Suc i" and fails: "\<And>j. j \<le> i \<Longrightarrow> i < j + n \<Longrightarrow> \<not> dial_ok R (rd_dial (rds ! j))" for n
  proof -
    have "n \<le> ?k" using that(1,2) i fails by (rule streak_ge)
    then have "min (n - 1) 10 \<le> min (?k - 1) 10" by simp
    then have "(2 :: nat) ^ min (n - 1) 10 \<le> 2 ^ min (?k - 1) 10" by (rule power_increasing) simp
    then have "?b * 2 ^ min (n - 1) 10 * 80 div 100 \<le> ?b * 2 ^ min (?k - 1) 10 * 80 div 100"
      by (intro div_le_mono mult_le_mono) simp_all
    moreover have "0 < ?k" using \<open>n \<le> ?k\<close> that(1) by simp
    then have "min ?m (?b * 2 ^ min (?k - 1) 10 * 80 div 100) \<le> ps ! i" using bounds [THEN conjunct2] p by (simp only: if_False neq0_conv [symmetric] split: if_splits)
    ultimately show ?thesis by (meson min.mono order_refl order_trans)
  qed
  ultimately show ?thesis using bounds p by auto
qed

section \<open>Witnesses\<close>

definition plain_readers :: frame_readers where
  "plain_readers = \<lparr>response_of = (\<lambda>_. None), event_of = (\<lambda>_. None), stream_of = (\<lambda>_. None), authenticated_of = (\<lambda>_. Inr (''s'', ''1.0.38''))\<rparr>"

definition plain_link :: open_uds_config where
  "plain_link = from_runtime default_pmp (Some ''secret'')"

definition accepted_dial :: dial where
  "accepted_dial = Answers (JObj [(''type'', JStr ''authenticated'')]) [SendsCommand None]"

definition calm_round :: "dial \<Rightarrow> link_round" where
  "calm_round d = \<lparr>rd_dial = d, rd_stop = False, rd_jitter = 100, rd_idle = [SendsCommand None], rd_woken = False\<rparr>"

lemma accepted_type: "string_field (JObj [(''type'', JStr ''authenticated'')]) ''type'' = Some ''authenticated''"
  by code_simp

lemmas link_run_simps = connect_once_def accepted_dial_def accepted_type plain_readers_def calm_round_def link_new_def uds_new_def
  link_authenticated_def link_disconnected_def on_uds_def set_authenticated_def install_writer_def set_disconnected_def
  send_command_def finish_def aput_def adel_def Let_def

lemma one_link_round:
  "\<exists>ps l. run_link plain_readers plain_link [calm_round accepted_dial] 0 link_new = (ps, l) \<and> sent (lk_uds l) = 2 \<and>
     map fst (answers (lk_uds l)) = [0, 1]"
  by (simp add: link_run_simps)

theorem disconnect_answers_all_witness:
  "pending (lk_uds (snd (run_link plain_readers plain_link [calm_round accepted_dial] 0 link_new))) = []"
proof -
  from one_link_round obtain ps l where r: "run_link plain_readers plain_link [calm_round accepted_dial] 0 link_new = (ps, l)"
    "sent (lk_uds l) = 2" by auto
  with disconnect_answers_all [OF r(1)] show ?thesis by simp
qed

lemma two_rounds:
  "\<exists>ps l. run_link plain_readers plain_link [calm_round (Unreachable ''x''), calm_round (Unreachable ''x'')] 0 link_new = (ps, l) \<and> length ps = 2"
  by (simp add: link_run_simps)

theorem reconnect_paced_witness:
  "800 \<le> fst (run_link plain_readers plain_link [calm_round (Unreachable ''x''), calm_round (Unreachable ''x'')] 0 link_new) ! 1"
proof -
  let ?rds = "[calm_round (Unreachable ''x''), calm_round (Unreachable ''x'')]"
  from two_rounds obtain ps l where r: "run_link plain_readers plain_link ?rds 0 link_new = (ps, l)" "length ps = 2" by blast
  have c: "oc_reconnect_base_ms plain_link = 500" "oc_reconnect_max_ms plain_link = 30000"
    by (simp_all add: plain_link_def from_runtime_def default_pmp_def)
  have bad: "\<not> dial_ok plain_readers (rd_dial (?rds ! j))" if "j \<le> 1" for j
    using that by (cases j) (simp_all add: calm_round_def dial_ok_def)
  from reconnect_paced [OF r(1), of 1] r(2) bad
  have "\<forall>n. 0 < n \<and> n \<le> 2 \<longrightarrow> min 30000 (500 * 2 ^ min (n - 1) 10 * 80 div 100) \<le> ps ! 1"
    unfolding c by (simp add: calm_round_def numeral_2_eq_2 [symmetric])
  from this [rule_format, of 2] have "800 \<le> ps ! 1" by simp
  with r(1) show ?thesis by simp
qed

end
