(* ===== verification/Ppctl.thy ===== *)
theory Ppctl
  imports Actions Login
begin

text \<open>
  The bootstrap and recovery tool (\<^verbatim>\<open>bin/ppctl.rs\<close>): its dispatch and flags, the files that \<open>init\<close> writes, the
  environment file that the password reset loads, the checks of \<open>doctor\<close> and the redaction of its report,
  \<open>config check\<close> and \<open>update\<close>. What the tool prints on the terminal is left out, except the reset password.
  Files, sockets, connections and the TOML library are arguments; a panic is a value of its own.
\<close>

section \<open>Command line\<close>

datatype ppctl_command =
    Init "string list" | Doctor "string list" | ConfigCheck "string list" | RootReset "string list" | Update "string list" | Usage

text \<open>The words after the command are taken by a slice, which panics when there is no command.\<close>

definition dispatch :: "string list \<Rightarrow> ppctl_command option" where
  "dispatch args =
     (if length args < 2 then None
      else
        let cmd = args ! 1; rest = drop 2 args in
        Some (if cmd = ''init'' then Init rest
              else if cmd = ''doctor'' then Doctor rest
              else if cmd = ''config'' \<and> rest \<noteq> [] \<and> hd rest = ''check'' then ConfigCheck rest
              else if cmd = ''root'' \<and> rest \<noteq> [] \<and> hd rest = ''reset-password'' then RootReset (tl rest)
              else if cmd = ''update'' then Update rest
              else Usage))"

fun flag_value :: "string list \<Rightarrow> string \<Rightarrow> string option" where
  "flag_value [] name = None"
| "flag_value (w # ws) name = (if w = name then (case ws of v # _ \<Rightarrow> Some v | [] \<Rightarrow> None) else flag_value ws name)"

section \<open>Init\<close>

record init_values =
  iv_api_url :: string
  iv_ppf_url :: string
  iv_panel_url :: string
  iv_docs_url :: string
  iv_openuds_path :: string
  iv_database_url :: string

definition init_values_of :: "string list \<Rightarrow> init_values" where
  "init_values_of args =
     \<lparr>iv_api_url = unwrap_or (flag_value args ''--api-url'') (public_url (server default_config)),
      iv_ppf_url = unwrap_or (flag_value args ''--ppf-url'') (ppf_url (site default_config)),
      iv_panel_url = unwrap_or (flag_value args ''--panel-url'') (panel_url (site default_config)),
      iv_docs_url = unwrap_or (flag_value args ''--docs-url'') (docs_url (site default_config)),
      iv_openuds_path = unwrap_or (flag_value args ''--openuds-path'') [], iv_database_url = unwrap_or (flag_value args ''--database-url'') []\<rparr>"

text \<open>Inserting into an object that is a member of an object; nothing happens where there is none.\<close>

definition in_member :: "string \<Rightarrow> (string \<times> json) list \<Rightarrow> json \<Rightarrow> json" where
  "in_member k kvs v =
     (case v of
        JObj ms \<Rightarrow>
          JObj (map (\<lambda>m. if fst m = k
            then (k, (case snd m of JObj os \<Rightarrow> foldl (\<lambda>x kv. set_param x (fst kv) (snd kv)) (JObj os) kvs | other \<Rightarrow> other))
            else m) ms)
      | _ \<Rightarrow> v)"

definition init_overrides :: "init_values \<Rightarrow> json \<Rightarrow> json" where
  "init_overrides i base =
     (let b = in_member ''site'' [(''ppf_url'', JStr (iv_ppf_url i)), (''panel_url'', JStr (iv_panel_url i)), (''docs_url'', JStr (iv_docs_url i))]
                (in_member ''server'' [(''public_url'', JStr (iv_api_url i))] base)
      in if iv_openuds_path i \<noteq> [] then in_member ''pmp'' [(''openuds_path'', JStr (iv_openuds_path i))] b else b)"

fun strip_nulls :: "json \<Rightarrow> json" where
  "strip_nulls (JObj kvs) = JObj (map (\<lambda>e. (fst e, strip_nulls (snd e))) (filter (\<lambda>e. snd e \<noteq> JNull) kvs))"
| "strip_nulls (JArr xs) = JArr (map strip_nulls xs)"
| "strip_nulls v = v"

definition NL :: string where "NL = bytes [10]"

definition init_env_text :: "string \<Rightarrow> string \<Rightarrow> string \<Rightarrow> string \<Rightarrow> string" where
  "init_env_text url jwt cred token =
     ''# Generated by ppctl init '' @ bytes [226, 128, 148] @ '' secrets are auto-generated, chmod 600.'' @ NL @
     ''PPB_DATABASE_URL='' @ url @ NL @ ''PPB_JWT_SECRET='' @ jwt @ NL @ ''PPB_PHIRA_CREDENTIAL_KEY='' @ cred @ NL @
     ''PPB_PMP_OPENUDS_TOKEN='' @ token @ NL"

text \<open>The directory, and which of its creation and the two writes fail, with the text of the error.\<close>

record init_disk =
  id_mkdir :: "string option"
  id_config :: "string option"
  id_env :: "string option"

definition or_fail :: "string option \<Rightarrow> 'a \<Rightarrow> string + 'a" where
  "or_fail e x = (case e of Some m \<Rightarrow> Inl m | None \<Rightarrow> Inr x)"

text \<open>The files that exist after the run, and its result.\<close>

definition run_init ::
  "string + json \<Rightarrow> (json \<Rightarrow> string + string) \<Rightarrow> init_disk \<Rightarrow> string \<times> string \<times> string \<Rightarrow> string list \<Rightarrow> (string + unit) \<times> (string \<times> string) list" where
  "run_init defaults toml D drawn args =
     (let i = init_values_of args in
      case defaults of
        Inl e \<Rightarrow> (Inl e, [])
      | Inr base \<Rightarrow>
          (case toml (strip_nulls (init_overrides i base)) of
             Inl e \<Rightarrow> (Inl e, [])
           | Inr t \<Rightarrow>
               (case (id_mkdir D, id_config D, id_env D) of
                  (Some e, _, _) \<Rightarrow> (Inl e, [])
                | (None, Some e, _) \<Rightarrow> (Inl e, [])
                | (None, None, Some e) \<Rightarrow> (Inl e, [(''ppb.toml'', t)])
                | (None, None, None) \<Rightarrow>
                    (Inr (), [(''ppb.toml'', t), (''ppb.env'', init_env_text (iv_database_url i) (fst drawn) (fst (snd drawn)) (snd (snd drawn)))]))))"

section \<open>The environment file\<close>

definition split_once :: "char \<Rightarrow> string \<Rightarrow> (string \<times> string) option" where
  "split_once c s = (if c \<in> set s then Some (takeWhile (\<lambda>x. x \<noteq> c) s, tl (dropWhile (\<lambda>x. x \<noteq> c) s)) else None)"

definition trim_quotes :: "string \<Rightarrow> string" where
  "trim_quotes s = (let q = (\<lambda>c. c = CHR 0x27 \<or> c = CHR 0x22) in rev (dropWhile q (rev (dropWhile q s))))"

definition variable_name :: "string \<Rightarrow> bool" where
  "variable_name k \<longleftrightarrow> k \<noteq> [] \<and> list_all (\<lambda>c. c = CHR ''_'' \<or> ascii_alphanumeric c) k"

text \<open>One line: nothing, an assignment, or an error.\<close>

definition read_assignment :: "nat \<Rightarrow> string \<Rightarrow> string + (string \<times> string) option" where
  "read_assignment n l =
     (let t = trim l in
      if t = [] \<or> starts_with t ''#'' then Inr None
      else
        (case split_once (CHR ''='') (unwrap_or (strip_prefix ''export '' t) t) of
           None \<Rightarrow> Inl (''invalid assignment on line '' @ nat_digits n)
         | Some (k, v) \<Rightarrow>
             if \<not> variable_name (trim k) then Inl (''invalid variable name on line '' @ nat_digits n)
             else Inr (Some (trim k, trim_quotes (trim v)))))"

text \<open>Setting a variable to a text with a NUL panics. Variables that are set stay as they are; what was set
  before an error stays set.\<close>

datatype loaded = Loaded | LoadFailed string | LoadPanics

fun load_lines :: "nat \<Rightarrow> string list \<Rightarrow> (string \<Rightarrow> string option) \<Rightarrow> loaded \<times> (string \<Rightarrow> string option)" where
  "load_lines n [] env = (Loaded, env)"
| "load_lines n (l # ls) env =
     (case read_assignment n l of
        Inl e \<Rightarrow> (LoadFailed e, env)
      | Inr None \<Rightarrow> load_lines (Suc n) ls env
      | Inr (Some (k, v)) \<Rightarrow>
          if env k \<noteq> None then load_lines (Suc n) ls env
          else if NUL \<in> set v then (LoadPanics, env)
          else load_lines (Suc n) ls (env(k := Some v)))"

text \<open>A final empty line, which \<open>str::lines\<close> does not give, is skipped like any other.\<close>

definition load_env_file :: "string + string \<Rightarrow> (string \<Rightarrow> string option) \<Rightarrow> loaded \<times> (string \<Rightarrow> string option)" where
  "load_env_file content env =
     (case content of Inl e \<Rightarrow> (LoadFailed e, env) | Inr t \<Rightarrow> load_lines 1 (split_on (CHR 0x0A) t) env)"

section \<open>Resetting the Root password\<close>

datatype exit = Success | Failure | Panic

record host_files =
  hf_read :: "string \<Rightarrow> string + string"
  hf_exists :: "string \<Rightarrow> bool"

definition env_file_of :: "host_files \<Rightarrow> string list \<Rightarrow> string option" where
  "env_file_of H args =
     (case flag_value args ''--env-file'' of
        Some p \<Rightarrow> Some p
      | None \<Rightarrow> if hf_exists H ''/etc/ppb/ppb.env'' then Some ''/etc/ppb/ppb.env'' else None)"

text \<open>\<open>connect\<close> gives the database of a URL; the password that is printed is part of the result.\<close>

definition run_root_reset ::
  "env \<Rightarrow> host_files \<Rightarrow> (string \<Rightarrow> db option) \<Rightarrow> nat \<Rightarrow> nat list \<Rightarrow> string list \<Rightarrow> (string \<Rightarrow> string option) \<Rightarrow> exit \<times> string option \<times> db option" where
  "run_root_reset E H connect salt draws args vars =
     (case (case env_file_of H args of Some p \<Rightarrow> load_env_file (hf_read H p) vars | None \<Rightarrow> (Loaded, vars)) of
        (LoadFailed _, _) \<Rightarrow> (Failure, None, None)
      | (LoadPanics, _) \<Rightarrow> (Panic, None, None)
      | (Loaded, vars1) \<Rightarrow>
          (case env_or vars1 ''PPB_DATABASE_URL'' of
             None \<Rightarrow> (Failure, None, None)
           | Some url \<Rightarrow>
               (case connect url of
                  None \<Rightarrow> (Failure, None, None)
                | Some d \<Rightarrow>
                    (case root_reset_password E salt draws d of
                       (Inr p, d') \<Rightarrow> (Success, Some p, Some d')
                     | (Inl _, d') \<Rightarrow> (Failure, None, Some d')))))"

section \<open>Configuration\<close>

definition from_toml_str :: "(string \<Rightarrow> string + runtime_config) \<Rightarrow> (string \<Rightarrow> string option) \<Rightarrow> string \<Rightarrow> string + runtime_config" where
  "from_toml_str toml vars t =
     (case toml t of
        Inl e \<Rightarrow> Inl e
      | Inr c \<Rightarrow>
          let c1 = apply_env_overrides vars c in
          (case validate_config c1 of Inl e \<Rightarrow> Inl e | Inr _ \<Rightarrow> Inr c1))"

definition read_config ::
  "(string \<Rightarrow> string + runtime_config) \<Rightarrow> host_files \<Rightarrow> (string \<Rightarrow> string option) \<Rightarrow> string \<Rightarrow> string + runtime_config" where
  "read_config toml H vars p = (case hf_read H p of Inl e \<Rightarrow> Inl e | Inr t \<Rightarrow> from_toml_str toml vars t)"

definition config_file_of :: "host_files \<Rightarrow> (string \<Rightarrow> string option) \<Rightarrow> string list \<Rightarrow> string option" where
  "config_file_of H vars args =
     (case flag_value args ''--config'' of
        Some p \<Rightarrow> Some p
      | None \<Rightarrow>
          (case vars ''PPB_RUNTIME_CONFIG'' of
             Some p \<Rightarrow> Some p
           | None \<Rightarrow> if hf_exists H ''config/ppb.toml'' then Some ''config/ppb.toml'' else None))"

definition resolve_config_for_doctor ::
  "(string \<Rightarrow> string + runtime_config) \<Rightarrow> host_files \<Rightarrow> (string \<Rightarrow> string option) \<Rightarrow> string list \<Rightarrow> string + runtime_config \<times> string" where
  "resolve_config_for_doctor toml H vars args =
     (case config_file_of H vars args of
        None \<Rightarrow> Inr (default_config, ''<defaults>'')
      | Some p \<Rightarrow> (case read_config toml H vars p of Inl e \<Rightarrow> Inl e | Inr c \<Rightarrow> Inr (c, p)))"

definition run_config_check :: "(string \<Rightarrow> string + runtime_config) \<Rightarrow> host_files \<Rightarrow> (string \<Rightarrow> string option) \<Rightarrow> string list \<Rightarrow> exit" where
  "run_config_check toml H vars args =
     (case config_file_of H vars args of
        None \<Rightarrow> Failure
      | Some p \<Rightarrow> (case read_config toml H vars p of Inl _ \<Rightarrow> Failure | Inr _ \<Rightarrow> Success))"

definition run_update :: "(string \<Rightarrow> string + runtime_config) \<Rightarrow> host_files \<Rightarrow> (string \<Rightarrow> string option) \<Rightarrow> string list \<Rightarrow> exit" where
  "run_update toml H vars args =
     (case flag_value args ''--check-config'' of
        Some p \<Rightarrow> (case read_config toml H vars p of Inl _ \<Rightarrow> Failure | Inr _ \<Rightarrow> Success)
      | None \<Rightarrow> run_config_check toml H vars [])"

section \<open>Doctor\<close>

fun find_str :: "string \<Rightarrow> string \<Rightarrow> nat option" where
  "find_str p [] = (if p = [] then Some 0 else None)"
| "find_str p (c # cs) = (if starts_with (c # cs) p then Some 0 else map_option Suc (find_str p cs))"

text \<open>The password of the first URL in a text is replaced.\<close>

definition redact :: "string \<Rightarrow> string" where
  "redact s =
     (case find_str ''://'' s of
        None \<Rightarrow> s
      | Some i \<Rightarrow>
          (case find_str ''@'' (drop i s) of
             None \<Rightarrow> s
           | Some j \<Rightarrow>
               (case find_str '':'' (drop (i + 3) s) of
                  None \<Rightarrow> s
                | Some k \<Rightarrow>
                    if i + 3 + k < i + j then take (i + 3 + k + 1) s @ ''[REDACTED]'' @ drop (i + j) s else s)))"

record doctor_check =
  dc_name :: string
  dc_ok :: bool
  dc_message :: string

definition check_result :: "string \<Rightarrow> bool \<Rightarrow> string \<Rightarrow> doctor_check" where
  "check_result n ok m = \<lparr>dc_name = n, dc_ok = ok, dc_message = m\<rparr>"

text \<open>What the checks find: files, the connection to the database (the text of its error), the answer to an
  authentication frame on a socket, the HTTP client and its answers.\<close>

record doctor_world =
  dw_files :: host_files
  dw_is_file :: "string \<Rightarrow> bool"
  dw_connect :: "string \<Rightarrow> string option"
  dw_handshake :: "string \<Rightarrow> json \<Rightarrow> string + json"
  dw_client :: bool
  dw_get :: "string \<Rightarrow> string + nat"

definition auth_frame :: "string option \<Rightarrow> json" where
  "auth_frame token = JObj ((''type'', JStr ''authenticate'') # (case token of Some t \<Rightarrow> [(''token'', JStr t)] | None \<Rightarrow> []))"

definition handshake_result :: "string + json \<Rightarrow> string + string" where
  "handshake_result r =
     (case r of
        Inl e \<Rightarrow> Inl e
      | Inr v \<Rightarrow>
          let ty = string_field v ''type'' in
          if ty = Some ''authenticated'' then Inr (''authenticated; server_version='' @ unwrap_or (string_field v ''server_version'') ''unknown'')
          else if ty = Some ''auth_error'' then Inl ''authentication failed (token/direct mode mismatch)''
          else Inl (''unexpected auth response: '' @ unwrap_or ty ''missing type''))"

definition socket_help :: "string \<Rightarrow> string" where
  "socket_help p =
     ''missing: '' @ p @ NL @ ''PMP server_config.yml:'' @ NL @ ''openuds:'' @ NL @ ''  enabled: true'' @ NL @ ''  socket_path: '' @ [CHR 0x22] @ p @ [CHR 0x22] @ NL @
     ''  auth_token: '' @ [CHR 0x22, CHR 0x22] @ NL @ ''  max_connections: 4'' @ NL @ ''  event_buffer_size: 1024'' @ NL @ ''  heartbeat_interval_secs: 60''"

definition config_checks :: "doctor_world \<Rightarrow> string + runtime_config \<times> string \<Rightarrow> doctor_check list" where
  "config_checks W r =
     (case r of
        Inl e \<Rightarrow> [check_result ''config schema'' False e, check_result ''runtime config file'' False e]
      | Inr (_, src) \<Rightarrow>
          [check_result ''config schema'' True (''loaded from '' @ src),
           (if src = ''<defaults>'' then check_result ''runtime config file'' True ''using defaults''
            else check_result ''runtime config file'' (dw_is_file W src) ((if dw_is_file W src then ''loaded: '' else ''missing: '') @ src))])"

definition postgres_check :: "doctor_world \<Rightarrow> string option \<Rightarrow> doctor_check" where
  "postgres_check W url =
     (case url of
        None \<Rightarrow> check_result ''postgresql'' False ''PPB_DATABASE_URL not set''
      | Some u \<Rightarrow>
          (case dw_connect W u of
             None \<Rightarrow> check_result ''postgresql'' True ''connected''
           | Some e \<Rightarrow> check_result ''postgresql'' False (redact e)))"

definition openuds_check :: "doctor_world \<Rightarrow> string \<Rightarrow> string option \<Rightarrow> doctor_check" where
  "openuds_check W p token =
     (if \<not> hf_exists (dw_files W) p then check_result ''openuds handshake'' False (socket_help p)
      else
        (case handshake_result (dw_handshake W p (auth_frame token)) of
           Inr m \<Rightarrow> check_result ''openuds handshake'' True m
         | Inl m \<Rightarrow> check_result ''openuds handshake'' False m))"

definition probe :: "doctor_world \<Rightarrow> bool \<times> string \<Rightarrow> string \<times> string \<Rightarrow> bool \<times> string" where
  "probe W acc lu =
     (case dw_get W (snd lu) of
        Inr st \<Rightarrow> (fst acc \<and> st < 500, snd acc @ fst lu @ ''='' @ nat_digits st @ '' '')
      | Inl e \<Rightarrow> (False, snd acc @ fst lu @ ''=ERR('' @ redact e @ '') ''))"

definition urls_check :: "doctor_world \<Rightarrow> runtime_config \<Rightarrow> doctor_check" where
  "urls_check W c =
     (let r = (if dw_client W
               then foldl (probe W) (True, []) [(''api'', public_url (server c)), (''ppf'', ppf_url (site c)), (''panel'', panel_url (site c))]
               else (True, []))
      in check_result ''public urls'' (fst r) (snd r))"

definition capability_check :: "runtime_config \<Rightarrow> doctor_check" where
  "capability_check c =
     check_result ''pmp capabilities'' (pmp_capabilities (pmp c) \<noteq> []) (''configured: '' @ join_with '', '' (pmp_capabilities (pmp c)))"

definition push_check :: "runtime_config \<Rightarrow> doctor_check" where
  "push_check c =
     (let ok = vapid_private_key_pem (notification_cfg c) \<noteq> None \<and> vapid_subject (notification_cfg c) \<noteq> None in
      check_result ''push (VAPID)'' ok (if ok then ''configured'' else ''not configured (WebPush disabled)''))"

definition github_check :: "string + secrets \<Rightarrow> doctor_check" where
  "github_check ks =
     (let ok = (case ks of Inr x \<Rightarrow> github_configured x | Inl _ \<Rightarrow> False) in
      check_result ''github oauth'' ok (if ok then ''configured'' else ''not configured (bind-only disabled)''))"

definition doctor_checks ::
  "(string \<Rightarrow> string option) \<Rightarrow> (string \<Rightarrow> string + runtime_config) \<Rightarrow> doctor_world \<Rightarrow> (string \<Rightarrow> string option) \<Rightarrow> string list \<Rightarrow> doctor_check list" where
  "doctor_checks b64 toml W vars args =
     (let r = resolve_config_for_doctor toml (dw_files W) vars args;
          ks = secrets_from_env b64 vars;
          path = (case r of Inr (c, _) \<Rightarrow> openuds_path (pmp c) | Inl _ \<Rightarrow> ''/var/run/pmp-openuds.sock'');
          for_config = (\<lambda>f. case r of Inr (c, _) \<Rightarrow> [f c] | Inl _ \<Rightarrow> [])
      in config_checks W r @ [postgres_check W (case ks of Inr x \<Rightarrow> database_url x | Inl _ \<Rightarrow> None)] @
         [openuds_check W path (env_or vars ''PPB_PMP_OPENUDS_TOKEN'')] @
         for_config capability_check @ for_config push_check @ [github_check ks] @ for_config (urls_check W))"

text \<open>The exit code, and the report if one was asked for.\<close>

definition run_doctor ::
  "string \<Rightarrow> (string \<Rightarrow> bool) \<Rightarrow> doctor_check list \<Rightarrow> string list \<Rightarrow> exit \<times> json option" where
  "run_doctor version writable cs args =
     (let bundle = JObj [(''ppb_version'', JStr version),
            (''checks'', JArr (map (\<lambda>c. JObj [(''name'', JStr (dc_name c)), (''ok'', JBool (dc_ok c)), (''message'', JStr (redact (dc_message c)))]) cs))];
          result = (if list_all dc_ok cs then Success else Failure)
      in case flag_value args ''--report'' of
           None \<Rightarrow> (result, None)
         | Some p \<Rightarrow> if writable p then (result, Some bundle) else (Failure, None))"

section \<open>What init writes, the reset reads\<close>

text \<open>A value that can stand in an environment file: no white space around it, no line break in it, no
  quotation mark at its ends.\<close>

definition plain_value :: "string \<Rightarrow> bool" where
  "plain_value v \<longleftrightarrow> trim v = v \<and> trim_quotes v = v \<and> CHR 0x0A \<notin> set v \<and> NUL \<notin> set v"

lemma split_line: "c \<notin> set w \<Longrightarrow> split_on c (w @ c # r) = w # split_on c r"
  by (induction w) auto

lemma strip_shorter: "length (strip_leading ws s) \<le> length s"
  by (induction ws s rule: strip_leading.induct) (subst strip_leading.simps, auto split: option.splits)

lemma strip_same_length: "length (strip_leading ws s) = length s \<Longrightarrow> leading_ws ws s = None"
proof (rule ccontr)
  assume len: "length (strip_leading ws s) = length s" and "leading_ws ws s \<noteq> None"
  then obtain n where n: "leading_ws ws s = Some n" by auto
  then have "strip_leading ws s = strip_leading ws (drop n s)" by (subst strip_leading.simps) simp
  then have "length s \<le> length s - n" using strip_shorter [of ws "drop n s"] len by simp
  then show False using leading_ws_bounds [OF n] by linarith
qed

lemma strip_nothing: "leading_ws ws s = None \<Longrightarrow> strip_leading ws s = s"
  by (subst strip_leading.simps) simp

lemma starts_with_before: "starts_with (x @ c # y) e \<Longrightarrow> c \<notin> set e \<Longrightarrow> starts_with x e"
proof (induction x arbitrary: e)
  case Nil
  then show ?case by (cases e) (auto simp: starts_with_def)
next
  case (Cons a x)
  then show ?case by (cases e) auto
qed

lemma no_leading_ws:
  assumes "leading_ws ws x = None" and "\<And>e. e \<in> set ws \<Longrightarrow> c \<notin> set e"
  shows "leading_ws ws (x @ c # y) = None"
  using assms starts_with_before by (fastforce simp: leading_ws_def find_None_iff)

lemma trim_plain: "trim v = v \<Longrightarrow> leading_ws (map rev ws_encodings) (rev v) = None"
proof -
  let ?u = "strip_leading ws_encodings v"
  assume t: "trim v = v"
  then have "length (strip_leading (map rev ws_encodings) (rev ?u)) = length v" by (metis length_rev trim_def)
  with strip_shorter [of "map rev ws_encodings" "rev ?u"] strip_shorter [of ws_encodings v] have "length ?u = length v" by simp
  then have "?u = v" by (intro strip_nothing strip_same_length)
  with t have "strip_leading (map rev ws_encodings) (rev v) = rev v" by (metis rev_rev_ident trim_def)
  then show ?thesis by (intro strip_same_length) simp
qed

lemma ws_bytes: "e \<in> set ws_encodings \<Longrightarrow> CHR ''='' \<notin> set e"
proof -
  have "list_all (\<lambda>e. CHR ''='' \<notin> set e) ws_encodings" by code_simp
  then show "e \<in> set ws_encodings \<Longrightarrow> CHR ''='' \<notin> set e" by (simp add: list_all_iff)
qed

text \<open>An assignment of the generated file is read back.\<close>

lemma trim_assignment:
  assumes "trim v = v" and "leading_ws ws_encodings (k @ CHR ''='' # v) = None"
  shows "trim (k @ CHR ''='' # v) = k @ CHR ''='' # v"
proof -
  have "leading_ws (map rev ws_encodings) (rev v @ CHR ''='' # rev k) = None"
    by (rule no_leading_ws [OF trim_plain [OF assms(1)]]) (use ws_bytes in auto)
  then show ?thesis by (simp add: trim_def strip_nothing assms(2))
qed

lemma generated_name:
  assumes "k \<in> {''PPB_DATABASE_URL'', ''PPB_JWT_SECRET'', ''PPB_PHIRA_CREDENTIAL_KEY'', ''PPB_PMP_OPENUDS_TOKEN''}"
  shows "leading_ws ws_encodings (k @ x) = None" "trim k = k" "variable_name k" "CHR ''='' \<notin> set k" "\<not> starts_with (k @ x) ''#''"
    "strip_prefix ''export '' (k @ x) = None" "CHR 0x0A \<notin> set k"
proof -
  have "leading_ws ws_encodings (CHR ''P'' # y) = None" for y by (simp add: leading_ws_def ws_encodings_def)
  then show "leading_ws ws_encodings (k @ x) = None" using assms by auto
  have "trim ''PPB_DATABASE_URL'' = ''PPB_DATABASE_URL''" "trim ''PPB_JWT_SECRET'' = ''PPB_JWT_SECRET''"
    "trim ''PPB_PHIRA_CREDENTIAL_KEY'' = ''PPB_PHIRA_CREDENTIAL_KEY''" "trim ''PPB_PMP_OPENUDS_TOKEN'' = ''PPB_PMP_OPENUDS_TOKEN''"
    by code_simp+
  then show "trim k = k" using assms by auto
  have "list_all variable_name [''PPB_DATABASE_URL'', ''PPB_JWT_SECRET'', ''PPB_PHIRA_CREDENTIAL_KEY'', ''PPB_PMP_OPENUDS_TOKEN'']" by code_simp
  then show "variable_name k" using assms by auto
  show "CHR ''='' \<notin> set k" "\<not> starts_with (k @ x) ''#''" "strip_prefix ''export '' (k @ x) = None" "CHR 0x0A \<notin> set k"
    using assms by (auto simp: strip_prefix_def)
qed

lemma split_once_at: "c \<notin> set k \<Longrightarrow> split_once c (k @ c # v) = Some (k, v)"
  unfolding split_once_def by (induction k) auto

lemma read_generated:
  assumes "k \<in> {''PPB_DATABASE_URL'', ''PPB_JWT_SECRET'', ''PPB_PHIRA_CREDENTIAL_KEY'', ''PPB_PMP_OPENUDS_TOKEN''}" and "plain_value v"
  shows "read_assignment n (k @ CHR ''='' # v) = Inr (Some (k, v))"
proof -
  note k = generated_name [OF assms(1)]
  have t: "trim (k @ CHR ''='' # v) = k @ CHR ''='' # v"
    by (rule trim_assignment) (use assms(2) k(1) in \<open>auto simp: plain_value_def\<close>)
  have "split_once (CHR ''='') (k @ CHR ''='' # v) = Some (k, v)"
    by (rule split_once_at) (rule k(4))
  then show ?thesis
    using t k assms(2) by (simp add: read_assignment_def Let_def unwrap_or_def plain_value_def)
qed

text \<open>C34: What init writes, the reset reads. The generated environment file is loaded without error, and after it
  each of its variables has the generated value, unless it was set before; no other variable changes.\<close>

theorem env_file_round_trip:
  assumes "plain_value url" and "plain_value jwt" and "plain_value cred" and "plain_value token"
  shows "\<exists>vars'. load_env_file (Inr (init_env_text url jwt cred token)) vars = (Loaded, vars') \<and>
    (\<forall>k. vars' k = (case vars k of Some v \<Rightarrow> Some v
        | None \<Rightarrow> map_of [(''PPB_DATABASE_URL'', url), (''PPB_JWT_SECRET'', jwt), (''PPB_PHIRA_CREDENTIAL_KEY'', cred), (''PPB_PMP_OPENUDS_TOKEN'', token)] k))"
proof -
  let ?c = "''# Generated by ppctl init '' @ bytes [226, 128, 148] @ '' secrets are auto-generated, chmod 600.''"
  let ?as = "[(''PPB_DATABASE_URL'', url), (''PPB_JWT_SECRET'', jwt), (''PPB_PHIRA_CREDENTIAL_KEY'', cred), (''PPB_PMP_OPENUDS_TOKEN'', token)]"
  have nl: "NL = [CHR 0x0A]" by code_simp
  have comment: "CHR 0x0A \<notin> set ?c" "read_assignment 1 ?c = Inr None" by code_simp+
  have sep: "CHR 0x0A \<notin> set (k @ ''='' @ v)" if "(k, v) \<in> set ?as" for k v
    using that assms by (auto simp: plain_value_def)
  have lines: "split_on (CHR 0x0A) (init_env_text url jwt cred token) = ?c # map (\<lambda>(k, v). k @ ''='' @ v) ?as @ [[]]"
  proof -
    have whole: "init_env_text url jwt cred token = ?c @ CHR 0x0A # (''PPB_DATABASE_URL'' @ ''='' @ url) @ CHR 0x0A # (''PPB_JWT_SECRET'' @ ''='' @ jwt) @ CHR 0x0A #
        (''PPB_PHIRA_CREDENTIAL_KEY'' @ ''='' @ cred) @ CHR 0x0A # (''PPB_PMP_OPENUDS_TOKEN'' @ ''='' @ token) @ CHR 0x0A # []"
      by (simp add: init_env_text_def nl)
    have s: "CHR 0x0A \<notin> set (''PPB_DATABASE_URL'' @ ''='' @ url)" "CHR 0x0A \<notin> set (''PPB_JWT_SECRET'' @ ''='' @ jwt)"
      "CHR 0x0A \<notin> set (''PPB_PHIRA_CREDENTIAL_KEY'' @ ''='' @ cred)" "CHR 0x0A \<notin> set (''PPB_PMP_OPENUDS_TOKEN'' @ ''='' @ token)"
      by (rule sep, simp)+
    show ?thesis
      unfolding whole split_line [OF comment(1)] split_line [OF s(1)] split_line [OF s(2)] split_line [OF s(3)] split_line [OF s(4)] split_on.simps
      by (simp only: list.map prod.case append.simps)
  qed
  have step: "load_lines n (map (\<lambda>(k, v). k @ ''='' @ v) xs @ [[]]) env = (Loaded, \<lambda>k. case env k of Some v \<Rightarrow> Some v | None \<Rightarrow> map_of xs k)"
    if "set xs \<subseteq> set ?as" for n xs env
    using that
  proof (induction xs arbitrary: n env)
    case Nil
    show ?case by (simp add: read_assignment_def fun_eq_iff split: option.splits)
  next
    case (Cons x xs)
    obtain k v where x: "x = (k, v)" by (cases x)
    with Cons.prems assms have r: "read_assignment m (k @ ''='' @ v) = Inr (Some (k, v))" "NUL \<notin> set v" for m
      using read_generated [of k v m] by (auto simp: plain_value_def)
    show ?case
      using Cons.IH [of "Suc n"] Cons.prems r by (auto simp: x fun_eq_iff split: option.splits)
  qed
  show ?thesis
    using step [of ?as "Suc 1" vars] comment(2) by (simp add: load_env_file_def lines)
qed

section \<open>Redaction\<close>

lemma find_scheme: "find_str ''://'' w = None \<Longrightarrow> find_str ''://'' (w @ ''://'' @ r) = Some (length w)"
proof (induction w)
  case (Cons c w)
  have "\<not> starts_with ((c # w) @ ''://'' @ r) ''://''"
  proof (cases w)
    case (Cons d v)
    with \<open>find_str ''://'' (c # w) = None\<close> show ?thesis by (cases v) (auto split: if_splits)
  qed simp
  with Cons show ?case by (auto split: if_splits)
qed simp

lemma find_char: "c \<notin> set w \<Longrightarrow> find_str [c] (w @ c # r) = Some (length w)"
  by (induction w) auto

text \<open>The redaction hides the password of a URL: in a text whose first URL names a user and a password without
  the separator after it, exactly the password is replaced.\<close>

theorem redact_hides_password:
  assumes "find_str ''://'' before = None" and "CHR '':'' \<notin> set user" and "CHR ''@'' \<notin> set user" and "CHR ''@'' \<notin> set password"
  shows "redact (before @ ''://'' @ user @ '':'' @ password @ ''@'' @ after) = before @ ''://'' @ user @ '':[REDACTED]@'' @ after"
proof -
  let ?s = "before @ ''://'' @ user @ '':'' @ password @ ''@'' @ after"
  let ?n = "length before"
  have "find_str ''@'' ((''://'' @ user @ '':'' @ password) @ CHR ''@'' # after) = Some (length (''://'' @ user @ '':'' @ password))"
    by (rule find_char) (use assms(3,4) in auto)
  then have at: "find_str ''@'' (drop ?n ?s) = Some (length user + length password + 4)" by simp
  have "find_str '':'' (user @ CHR '':'' # password @ ''@'' @ after) = Some (length user)" by (rule find_char) (rule assms(2))
  then have colon: "find_str '':'' (drop (?n + 3) ?s) = Some (length user)" by simp
  have i: "find_str ''://'' ?s = Some ?n" using find_scheme [OF assms(1)] by simp
  have cut: "take (length x) (x @ y) = x" and rest: "drop (length x) (x @ y) = y" for x y :: string by simp_all
  have "take (?n + 3 + length user + 1) ?s = before @ ''://'' @ user @ '':''"
    using cut [of "before @ ''://'' @ user @ '':''" "password @ ''@'' @ after"] by (simp add: add.commute add.left_commute)
  moreover have "drop (?n + (length user + length password + 4)) ?s = ''@'' @ after"
    using rest [of "before @ ''://'' @ user @ '':'' @ password" "''@'' @ after"] by (simp add: add.commute add.left_commute)
  ultimately show ?thesis unfolding redact_def i option.case at colon by simp
qed

text \<open>A password with the separator in it is shown from there on, and only the first URL is redacted.\<close>

lemma redaction_gaps:
  "redact ''postgres://u:p@ss@h'' = ''postgres://u:[REDACTED]@ss@h''"
  "redact ''http://h/ postgres://u:p@h'' = ''http://h/ postgres:[REDACTED]@h''"
  "redact ''http://a@b postgres://u:secret@h'' = ''http://a@b postgres://u:secret@h''"
  by code_simp+

section \<open>Resetting\<close>

text \<open>The password that the reset prints is the one whose hash it stored, with the flag that it must be
  changed; nothing else of the database changes.\<close>

theorem root_reset_effect:
  assumes "run_root_reset E H connect salt draws args vars = (Success, p, t)"
  shows "\<exists>url d w h xs. connect url = Some d \<and> p = Some w \<and> bcrypt_hash (libs_of E) salt w = Some h \<and>
    t = Some (set_root_password h True (d\<lparr>outcomes := xs\<rparr>))"
proof -
  from assms obtain url d w d' where c: "connect url = Some d" and r: "root_reset_password E salt draws d = (Inr w, d')" "p = Some w" "t = Some d'"
    by (auto simp: run_root_reset_def split: option.splits prod.splits loaded.splits sum.splits)
  from r(1) obtain h xs where "bcrypt_hash (libs_of E) salt w = Some h" "d' = set_root_password h True (d\<lparr>outcomes := xs\<rparr>)"
    by (auto simp: root_reset_password_def hash_or_internal_def runs dest!: execute_InrD)
  with c r(2,3) show ?thesis by blast
qed

text \<open>Without a Root account there is nothing to change: the tool prints a password all the same.\<close>

lemma reset_without_root:
  assumes "root_credentials d = None" and "outcomes d = []" and "bcrypt_hash (libs_of E) salt (generate_random_password draws) = Some h"
  shows "root_reset_password E salt draws d = (Inr (generate_random_password draws), d)"
  using assms by (simp add: root_reset_password_def hash_or_internal_def bnd_def andthen_def some_or_def ret_def map_err_def execute_def query_calm set_root_password_def)

text \<open>Without a command the tool panics instead of printing its usage.\<close>

lemma no_command_panics: "dispatch [''ppctl''] = None"
  by (simp add: dispatch_def)

section \<open>Null values\<close>

fun null_free :: "json \<Rightarrow> bool" where
  "null_free (JObj kvs) \<longleftrightarrow> list_all (\<lambda>e. snd e \<noteq> JNull \<and> null_free (snd e)) kvs"
| "null_free (JArr xs) \<longleftrightarrow> list_all null_free xs"
| "null_free v \<longleftrightarrow> True"

lemma strip_null_iff [simp]: "strip_nulls v = JNull \<longleftrightarrow> v = JNull"
  by (cases v) auto

text \<open>No member of an object is null in what init prints as TOML, which has no null.\<close>

theorem strip_nulls_complete: "null_free (strip_nulls v)"
  by (induction v rule: strip_nulls.induct) (auto simp: list_all_iff)

section \<open>Examples\<close>

theorem env_file_round_trip_witness:
  "\<exists>vars'. load_env_file (Inr (init_env_text [] ''a='' ''b'' ''c'')) (\<lambda>_. None) = (Loaded, vars') \<and> vars' ''PPB_JWT_SECRET'' = Some ''a=''"
proof -
  have "plain_value []" "plain_value ''a=''" "plain_value ''b''" "plain_value ''c''" by code_simp+
  from env_file_round_trip [OF this, of "\<lambda>_. None"] obtain vars' where
    "load_env_file (Inr (init_env_text [] ''a='' ''b'' ''c'')) (\<lambda>_. None) = (Loaded, vars')"
    "\<forall>k. vars' k = (case (\<lambda>_. None) k of Some v \<Rightarrow> Some v | None \<Rightarrow> map_of [(''PPB_DATABASE_URL'', []), (''PPB_JWT_SECRET'', ''a=''),
       (''PPB_PHIRA_CREDENTIAL_KEY'', ''b''), (''PPB_PMP_OPENUDS_TOKEN'', ''c'')] k)"
    by (elim exE conjE)
  moreover from spec [OF this(2), of "''PPB_JWT_SECRET''"] have "vars' ''PPB_JWT_SECRET'' = Some ''a=''" by simp
  ultimately show ?thesis by blast
qed

theorem redact_hides_password_witness:
  "redact ''error: postgres://user:s3cret@db'' = ''error: postgres://user:[REDACTED]@db''"
proof -
  have "find_str ''://'' ''error: postgres'' = None" by code_simp
  from redact_hides_password [OF this, of "''user''" "''s3cret''" "''db''"] show ?thesis by simp
qed

definition bare_host :: host_files where
  "bare_host = \<lparr>hf_read = (\<lambda>_. Inl []), hf_exists = (\<lambda>_. False)\<rparr>"

theorem root_reset_effect_witness:
  "\<exists>w d'. run_root_reset demo_env bare_host (\<lambda>_. Some (empty_db 0)) 1 [] [] (\<lambda>_. Some ''u'') = (Success, Some w, Some d') \<and> root_credentials d' = None"
proof -
  have h: "bcrypt_hash (libs_of demo_env) 1 p = Some p" for p by (simp add: demo_env_def alice_libs_def demo_libs_def)
  have "root_reset_password demo_env 1 [] (empty_db 0) = (Inr (generate_random_password []), empty_db 0)"
    by (rule reset_without_root [OF _ _ h]) (simp_all add: empty_db_def)
  then have run: "run_root_reset demo_env bare_host (\<lambda>_. Some (empty_db 0)) 1 [] [] (\<lambda>_. Some ''u'') = (Success, Some (generate_random_password []), Some (empty_db 0))"
    by (simp add: run_root_reset_def env_file_of_def bare_host_def env_or_def)
  from root_reset_effect [OF run] have "\<exists>h xs d. Some d = Some (empty_db 0) \<and> empty_db 0 = set_root_password h True (d\<lparr>outcomes := xs\<rparr>)" by auto
  with run show ?thesis by (auto simp: empty_db_def)
qed

end
