(* ===== verification/Startup.thy ===== *)
theory Startup
  imports Uds_Link Ppctl Config_Repo Group_Routes Phira_Gateway
begin

text \<open>
  How the server comes up and what surrounds every request: the command line (\<^verbatim>\<open>main.rs\<close>), the sources of the
  configuration and the overrides kept in the database (\<^verbatim>\<open>config/mod.rs\<close>), the construction of the
  application state with its bootstrap (\<open>build_state\<close> of \<^verbatim>\<open>app.rs\<close>), the retention task, and the layers around
  the router (\<open>build_router\<close> of \<^verbatim>\<open>app.rs\<close>, \<open>request_context\<close> of \<^verbatim>\<open>middleware/request_id.rs\<close>).

  Connecting, the migrations and the HTTP client builders are parameters: \<open>connect\<close> gives the database behind a
  URL, \<open>migrate\<close> brings it to the schema of the tables.
\<close>

section \<open>The command line\<close>

definition find_index :: "('a \<Rightarrow> bool) \<Rightarrow> 'a list \<Rightarrow> nat option" where
  "find_index P xs = (let n = length (takeWhile (\<lambda>x. \<not> P x) xs) in if n < length xs then Some n else None)"

text \<open>\<open>trim_start_matches\<close> removes the prefix as often as it occurs.\<close>

function trim_start_matches :: "string \<Rightarrow> string \<Rightarrow> string" where
  "trim_start_matches p s = (if p \<noteq> [] \<and> starts_with s p then trim_start_matches p (drop (length p) s) else s)"
  by pat_completeness auto

termination
  by (relation "measure (\<lambda>(p, s). length s)") (auto simp: starts_with_def intro!: diff_less)

definition config_flag :: "string list \<Rightarrow> string option" where
  "config_flag args =
     Option.bind (find_index (\<lambda>a. a = ''--config'') args) (\<lambda>pos.
       if pos + 1 < length args then Some (args ! (pos + 1))
       else map_option (trim_start_matches ''--config='') (find (\<lambda>a. starts_with a ''--config='') args))"

datatype server_mode = ShowVersion | RootInit | ShowOpenapi | CheckConfig string | Serve

definition server_mode_of :: "string list \<Rightarrow> server_mode" where
  "server_mode_of args =
     (if ''--version'' \<in> set args \<or> ''-V'' \<in> set args then ShowVersion
      else if 3 \<le> length args \<and> args ! 1 = ''root'' \<and> args ! 2 = ''init'' then RootInit
      else if ''--openapi'' \<in> set args then ShowOpenapi
      else if 3 \<le> length args \<and> args ! 1 = ''--check-config'' then CheckConfig (args ! 2)
      else Serve)"

section \<open>The configuration\<close>

type_synonym env_vars = "string \<Rightarrow> string option"
type_synonym toml_reader = "string \<Rightarrow> string + runtime_config"

definition resolve_runtime_config :: "toml_reader \<Rightarrow> host_files \<Rightarrow> env_vars \<Rightarrow> string + runtime_config" where
  "resolve_runtime_config toml H vars =
     (case vars ''PPB_RUNTIME_CONFIG'' of
        Some p \<Rightarrow> read_config toml H vars p
      | None \<Rightarrow>
          if hf_exists H ''config/ppb.toml'' then read_config toml H vars ''config/ppb.toml''
          else Inr (apply_env_overrides vars default_config))"

definition runtime_config_of :: "toml_reader \<Rightarrow> host_files \<Rightarrow> env_vars \<Rightarrow> string list \<Rightarrow> string + runtime_config" where
  "runtime_config_of toml H vars args =
     (case config_flag args of Some p \<Rightarrow> read_config toml H vars p | None \<Rightarrow> resolve_runtime_config toml H vars)"

text \<open>The derived conversions between the configuration and JSON.\<close>

record config_serde =
  to_value :: "runtime_config \<Rightarrow> string + json"
  from_value :: "json \<Rightarrow> string + runtime_config"

definition apply_overrides :: "config_serde \<Rightarrow> runtime_config \<Rightarrow> json \<Rightarrow> string + runtime_config" where
  "apply_overrides S c over =
     (case to_value S c of
        Inl e \<Rightarrow> Inl e
      | Inr v \<Rightarrow>
          (case from_value S (case (v, over) of (JObj base, JObj o') \<Rightarrow> JObj (merge_objects base o') | _ \<Rightarrow> v) of
             Inl e \<Rightarrow> Inl e
           | Inr merged \<Rightarrow> (case validate_config merged of Inl e \<Rightarrow> Inl e | Inr _ \<Rightarrow> Inr merged)))"

section \<open>Building the state\<close>

record boot =
  bt_env :: env
  bt_connect :: "string \<Rightarrow> string + db"
  bt_migrate :: "db \<Rightarrow> string + db"
  bt_serde :: config_serde
  bt_http :: "nat \<Rightarrow> string + unit"
  bt_gateway_http :: "nat \<Rightarrow> string + unit"
  bt_deploy :: "string + deployment_adapter"
  bt_api_text :: "api_error \<Rightarrow> string"

text \<open>The parts of the application state that are made from the configuration and the secrets.\<close>

record app_parts =
  ap_config :: runtime_config
  ap_phira :: phira_client
  ap_openuds :: open_uds_config
  ap_deployment :: deployment_adapter
  ap_gateway :: gateway

definition build_parts :: "boot \<Rightarrow> runtime_config \<Rightarrow> secrets \<Rightarrow> string + app_parts" where
  "build_parts B c s =
     (case bt_http B (timeout_ms (phira c)) of
        Inl e \<Rightarrow> Inl (''phira client: '' @ e)
      | Inr _ \<Rightarrow>
          if length (phira_credential_key s) \<noteq> 32
          then Inl (''credential cipher: '' @ bt_api_text B (api_error_new InternalError ''invalid credential key length''))
          else
            (case bt_deploy B of
               Inl e \<Rightarrow> Inl e
             | Inr dep \<Rightarrow>
                 (case bt_gateway_http B (timeout_ms (phira c)) of
                    Inl e \<Rightarrow> Inl e
                  | Inr _ \<Rightarrow>
                 Inr \<lparr>ap_config = c, ap_phira = phira_client_new (base_url (phira c)),
                   ap_openuds = from_runtime (pmp c) (pmp_openuds_token s), ap_deployment = dep,
                   ap_gateway = gateway_new (now_of (bt_env B)) (base_url (phira c)) (gateway_ttl_secs (phira c))
                     (gateway_rate_per_minute (phira c))\<rparr>)))"

definition load_overrides :: "boot \<Rightarrow> runtime_config \<Rightarrow> (db, string, runtime_config) comp" where
  "load_overrides B c =
     bnd (map_err (\<lambda>e. ''config overrides read failed: '' @ bt_api_text B e) get_overrides) (\<lambda>over.
       case over of
         None \<Rightarrow> ret c
       | Some v \<Rightarrow> from_result (case apply_overrides (bt_serde B) c v of Inl e \<Rightarrow> Inl (''config overrides invalid: '' @ e) | Inr m \<Rightarrow> Inr m))"

text \<open>With a database: overrides, parts, the seed groups, the Root password; the value has the password that
  is printed.\<close>

definition build_with_db ::
  "boot \<Rightarrow> (nat \<Rightarrow> uuid) \<Rightarrow> nat \<Rightarrow> nat list \<Rightarrow> runtime_config \<Rightarrow> secrets \<Rightarrow> (db, string, app_parts \<times> string option) comp" where
  "build_with_db B ids salt draws c s =
     bnd (load_overrides B c) (\<lambda>c1.
     bnd (from_result (build_parts B c1 s)) (\<lambda>parts.
     andthen (map_err (bt_api_text B) (run_bootstrap ids))
    (bnd (map_err (bt_api_text B) (root_bootstrap (bt_env B) salt draws)) (\<lambda>pw.
     ret (parts, pw)))))"

definition open_database :: "boot \<Rightarrow> string \<Rightarrow> string + db" where
  "open_database B url =
     (case bt_connect B url of
        Inl e \<Rightarrow> Inl (''database connect failed: '' @ e)
      | Inr d \<Rightarrow> (case bt_migrate B d of Inl e \<Rightarrow> Inl (''database migrate failed: '' @ e) | Inr d1 \<Rightarrow> Inr d1))"

definition build_state ::
  "boot \<Rightarrow> (nat \<Rightarrow> uuid) \<Rightarrow> nat \<Rightarrow> nat list \<Rightarrow> runtime_config \<Rightarrow> secrets \<Rightarrow> (string + app_parts \<times> string option) \<times> db option" where
  "build_state B ids salt draws c s =
     (case database_url s of
        None \<Rightarrow> (case build_parts B c s of Inl e \<Rightarrow> (Inl e, None) | Inr parts \<Rightarrow> (Inr (parts, None), None))
      | Some url \<Rightarrow>
          (case open_database B url of
             Inl e \<Rightarrow> (Inl e, None)
           | Inr d \<Rightarrow> (case build_with_db B ids salt draws c s d of (r, d') \<Rightarrow> (r, Some d'))))"

text \<open>The command that only makes the Root password.\<close>

definition root_init ::
  "boot \<Rightarrow> nat \<Rightarrow> nat list \<Rightarrow> string + secrets \<Rightarrow> (string + string option) \<times> db option" where
  "root_init B salt draws s =
     (case s of
        Inl e \<Rightarrow> (Inl e, None)
      | Inr sec0 \<Rightarrow>
          (case database_url sec0 of
             None \<Rightarrow> (Inl ''PPB_DATABASE_URL is required for `root init`'', None)
           | Some url \<Rightarrow>
               (case bt_connect B url of
                  Inl e \<Rightarrow> (Inl e, None)
                | Inr d \<Rightarrow>
                    (case bt_migrate B d of
                       Inl e \<Rightarrow> (Inl e, None)
                     | Inr d1 \<Rightarrow> (case map_err (bt_api_text B) (root_bootstrap (bt_env B) salt draws) d1 of (r, d2) \<Rightarrow> (r, Some d2))))))"

text \<open>The start of the server: configuration, secrets, state.\<close>

definition start_server ::
  "boot \<Rightarrow> (nat \<Rightarrow> uuid) \<Rightarrow> nat \<Rightarrow> nat list \<Rightarrow> toml_reader \<Rightarrow> host_files \<Rightarrow> env_vars \<Rightarrow> (string \<Rightarrow> string option) \<Rightarrow> string list \<Rightarrow>
   (string + app_parts \<times> string option) \<times> db option" where
  "start_server B ids salt draws toml H vars b64 args =
     (case runtime_config_of toml H vars args of
        Inl e \<Rightarrow> (Inl e, None)
      | Inr c \<Rightarrow>
          (case secrets_from_env b64 vars of
             Inl e \<Rightarrow> (Inl e, None)
           | Inr s \<Rightarrow> build_state B ids salt draws c s))"

text \<open>One tick of the daily task that purges the audit log: an error is logged, nothing else.\<close>

definition audit_purge_tick :: "runtime_config \<Rightarrow> (db, api_error, unit) comp" where
  "audit_purge_tick c = ignore (purge_older_than (audit_retention_days c))"

section \<open>Around every request\<close>

definition insert_header :: "string \<Rightarrow> string \<Rightarrow> headers \<Rightarrow> headers" where
  "insert_header name v hs = (to_ascii_lowercase name, v) # filter (\<lambda>h. fst h \<noteq> to_ascii_lowercase name) hs"

text \<open>What the panic layer answers, in plain text.\<close>

definition catch_panic :: "response option \<Rightarrow> response" where
  "catch_panic r =
     (case r of
        Some x \<Rightarrow> x
      | None \<Rightarrow> \<lparr>resp_status = 500, resp_body = Raw ''Service panicked'', resp_request_id = None, resp_retry_after = None\<rparr>)"

text \<open>The layers from the outside: the request id, the panic layer, CSRF, the routes. A route that panics is
  \<open>None\<close>.\<close>

definition serve_request ::
  "libs \<Rightarrow> runtime_config \<Rightarrow> string \<Rightarrow> instant \<Rightarrow> string \<Rightarrow> (string \<Rightarrow> request \<Rightarrow> response option) \<Rightarrow> request \<Rightarrow> response" where
  "serve_request L c secret now generated route r =
     (let rid = read_request_id (header_str (hdrs r) ''x-request-id'') generated;
          r1 = r\<lparr>hdrs := insert_header ''x-request-id'' rid (hdrs r)\<rparr> in
      normalize_error_response rid (catch_panic
        (case csrf_middleware L c secret now r1 of
           Inl e \<Rightarrow> Some (into_response rid e)
         | Inr _ \<Rightarrow> route rid r1)))"

definition not_found_route :: "string \<Rightarrow> response" where
  "not_found_route rid = into_response rid (api_error_new ResourceNotFound ''route not found'')"

section \<open>What a start establishes\<close>

definition group_names :: "db \<Rightarrow> string set" where
  "group_names d = g_name ` set (groups d)"

definition seed_names :: "string set" where
  "seed_names = {GROUP_ADMINISTRATORS, GROUP_MODERATORS, GROUP_DEVELOPERS, GROUP_MEMBERS}"

text \<open>The statement that seeds a group leaves it in the table, loses no name, writes nothing but groups, and
  writes nothing at all when the group is there.\<close>

definition seeds :: "string set \<Rightarrow> db \<Rightarrow> db \<Rightarrow> bool" where
  "seeds N d t \<longleftrightarrow> N \<subseteq> group_names t \<and> group_names d \<subseteq> group_names t \<and> (\<exists>gs xs. t = d\<lparr>groups := gs, outcomes := xs\<rparr>) \<and>
     (N \<subseteq> group_names d \<longrightarrow> (\<exists>xs. t = d\<lparr>outcomes := xs\<rparr>))"

lemma seeds_trans:
  assumes "seeds N d t" and "seeds M t u"
  shows "seeds (N \<union> M) d u"
proof -
  from assms obtain gs xs hs ys where t: "t = d\<lparr>groups := gs, outcomes := xs\<rparr>" and u: "u = t\<lparr>groups := hs, outcomes := ys\<rparr>"
    unfolding seeds_def by (elim conjE exE)
  have "u = d\<lparr>groups := hs, outcomes := ys\<rparr>" unfolding u t by simp
  moreover have "\<exists>xs. u = d\<lparr>outcomes := xs\<rparr>" if "N \<union> M \<subseteq> group_names d"
  proof -
    from that assms(1) obtain xs' where t': "t = d\<lparr>outcomes := xs'\<rparr>" unfolding seeds_def by auto
    moreover from t' have "group_names t = group_names d" by (simp add: group_names_def)
    ultimately have "M \<subseteq> group_names t" using that by simp
    then obtain ys' where "u = t\<lparr>outcomes := ys'\<rparr>" using assms(2) unfolding seeds_def by (elim conjE impE exE)
    with t' show ?thesis by simp
  qed
  ultimately show ?thesis using assms unfolding seeds_def by blast
qed

lemma mark_default_names [simp]: "group_names (mark_default P d) = group_names d"
  by (auto simp: group_names_def mark_default_def image_image)

lemma ensure_group_seeds:
  assumes "ensure_group i n ds k df pr d = (Inr u, t)"
  shows "seeds {n} d t"
proof -
  let ?g = "(new_group i n ds)\<lparr>system_kind := k, is_default := df, protected := pr\<rparr>"
  from assms obtain m d1 where q: "query (insert_group_if_absent ?g) d = (Inr m, d1)"
      and rest: "(if 0 < m \<and> df then execute (mark_default (\<lambda>g. g_name g = n)) else ret ()) d1 = (Inr u, t)"
    unfolding ensure_group_def by (auto simp only: bnd_runs)
  from query_InrD [OF q] obtain xs where ins: "insert_group_if_absent ?g (d\<lparr>outcomes := xs\<rparr>) = Inr (m, d1)" ..
  have name: "g_name ?g = n" by (simp add: new_group_def)
  show ?thesis
  proof (cases "n \<in> group_names d")
    case True
    then have "m = 0" "d1 = d\<lparr>outcomes := xs\<rparr>" using ins by (simp_all add: insert_group_if_absent_def group_names_def new_group_def)
    with rest True show ?thesis by (auto simp: seeds_def group_names_def ret_def intro: exI [of _ "groups d"])
  next
    case False
    then have m: "m = 1" "d1 = d\<lparr>groups := groups d @ [?g], outcomes := xs\<rparr>"
      using ins by (auto simp: insert_group_if_absent_def group_names_def new_group_def split: if_splits)
    have grown: "group_names d1 = insert n (group_names d)" by (auto simp: m group_names_def new_group_def)
    have "\<exists>ys. t = mark_default (\<lambda>g. g_name g = n) (d1\<lparr>outcomes := ys\<rparr>) \<or> t = d1"
      using rest execute_InrD [of _ d1 u t] by (auto simp: ret_def split: if_splits)
    moreover have "group_names (d1\<lparr>outcomes := ys\<rparr>) = group_names d1" for ys by (simp add: group_names_def)
    ultimately have "group_names t = insert n (group_names d)" using grown by auto
    moreover have "\<exists>gs xs. t = d\<lparr>groups := gs, outcomes := xs\<rparr>"
      using \<open>\<exists>ys. _ \<or> _\<close> unfolding m mark_default_def by (cases d) auto
    ultimately show ?thesis using False by (auto simp: seeds_def)
  qed
qed

lemma run_bootstrap_seeds:
  assumes "run_bootstrap ids d = (Inr u, t)"
  shows "seeds seed_names d t"
proof -
  from assms obtain a b c where "seeds {GROUP_ADMINISTRATORS} d a" "seeds {GROUP_MODERATORS} a b" "seeds {GROUP_DEVELOPERS} b c" "seeds {GROUP_MEMBERS} c t"
    unfolding run_bootstrap_def bootstrap_groups_def by (auto simp only: map_err_Inr andthen_runs dest!: ensure_group_seeds)
  then have "seeds ({GROUP_ADMINISTRATORS} \<union> {GROUP_MODERATORS} \<union> {GROUP_DEVELOPERS} \<union> {GROUP_MEMBERS}) d t"
    by (blast intro: seeds_trans)
  then show ?thesis by (simp add: seed_names_def insert_commute)
qed

lemma root_bootstrap_runs:
  assumes "root_bootstrap E salt draws d = (Inr pw, t)"
  shows "(root_credentials d \<noteq> None \<and> pw = None \<and> (\<exists>xs. t = d\<lparr>outcomes := xs\<rparr>)) \<or>
    (root_credentials d = None \<and> (\<exists>p h xs. pw = Some p \<and> bcrypt_hash (libs_of E) salt p = Some h \<and>
       t = d\<lparr>outcomes := xs, root_credentials := Some \<lparr>password_hash = h, must_change_password = True\<rparr>\<rparr>))"
  using assms unfolding root_bootstrap_def hash_or_internal_def
  by (auto simp: runs dest!: select_InrD execute_InrD split: if_splits)

lemma build_with_dbD:
  assumes "build_with_db B ids salt draws c s d = (Inr (parts, pw), t)"
  obtains c1 d1 u d2 xs where "load_overrides B c d = (Inr c1, d1)" and "d1 = d\<lparr>outcomes := xs\<rparr>" and "build_parts B c1 s = Inr parts"
    and "run_bootstrap ids d1 = (Inr u, d2)" and "root_bootstrap (bt_env B) salt draws d2 = (Inr pw, t)"
proof -
  from assms obtain c1 d1 u d2 where r: "load_overrides B c d = (Inr c1, d1)" "build_parts B c1 s = Inr parts"
      "run_bootstrap ids d1 = (Inr u, d2)" "root_bootstrap (bt_env B) salt draws d2 = (Inr pw, t)"
    unfolding build_with_db_def by (auto simp: runs)
  moreover from r(1) obtain xs where "d1 = d\<lparr>outcomes := xs\<rparr>"
    unfolding load_overrides_def get_overrides_def by (auto simp: runs dest!: select_InrD split: option.splits)
  ultimately show ?thesis using that by blast
qed

text \<open>The configuration a start uses has passed the validation, whatever the overrides in the database are.\<close>

lemma default_config_valid: "validate_config (apply_env_overrides vars default_config) = Inr ()"
proof -
  have "validate_config (apply_env_overrides vars default_config) = validate_config default_config"
    by (simp add: validate_config_def apply_env_overrides_def Let_def)
  also have "\<dots> = Inr ()"
  proof -
    have lax: "to_ascii_lowercase ''lax'' = ''lax''" by code_simp
    have quiet: "\<not> public_auth_enabled (legal default_config)" by (simp add: default_config_def default_legal_def)
    have rest: "''*'' \<notin> set (allowed_origins (cors default_config))" "auth_mode (pmp default_config) = ''approve''"
      "cookie_samesite (session_cfg default_config) = ''lax''"
      by (simp_all add: default_config_def default_cors_def default_pmp_def default_session_def)
    show ?thesis unfolding validate_config_def Let_def first_error_ok by (simp add: lax quiet rest)
  qed
  finally show ?thesis .
qed

lemma read_config_valid: "read_config toml H vars p = Inr c \<Longrightarrow> validate_config c = Inr ()"
  by (auto simp: read_config_def from_toml_str_def Let_def split: sum.splits)

lemma runtime_config_valid: "runtime_config_of toml H vars args = Inr c \<Longrightarrow> validate_config c = Inr ()"
  by (auto simp: runtime_config_of_def resolve_runtime_config_def default_config_valid dest: read_config_valid split: option.splits if_splits)

lemma apply_overrides_valid: "apply_overrides S c v = Inr m \<Longrightarrow> validate_config m = Inr ()"
  unfolding apply_overrides_def by (auto split: sum.splits)

lemma load_overrides_valid:
  assumes "load_overrides B c d = (Inr c1, t)" and "validate_config c = Inr ()"
  shows "validate_config c1 = Inr ()"
proof -
  from assms(1) obtain over u where "(case over of None \<Rightarrow> ret c
      | Some v \<Rightarrow> from_result (case apply_overrides (bt_serde B) c v of Inl e \<Rightarrow> Inl (''config overrides invalid: '' @ e) | Inr m \<Rightarrow> Inr m)) u = (Inr c1, t)"
    unfolding load_overrides_def by (auto simp only: bnd_runs)
  with assms(2) show ?thesis
    by (cases over) (auto simp: ret_def dest: apply_overrides_valid split: sum.splits)
qed

lemma build_parts_config: "build_parts B c s = Inr parts \<Longrightarrow> ap_config parts = c"
  by (auto simp: build_parts_def split: sum.splits if_splits)

lemma start_serverD:
  assumes "start_server B ids salt draws toml H vars b64 args = (Inr (parts, pw), Some t)"
    and "env_or vars ''PPB_DATABASE_URL'' = Some url" and "open_database B url = Inr d"
  shows "\<exists>c s. validate_config c = Inr () \<and> build_with_db B ids salt draws c s d = (Inr (parts, pw), t)"
proof -
  from assms(1) obtain c s where c: "runtime_config_of toml H vars args = Inr c" and s: "secrets_from_env b64 vars = Inr s"
      and b: "build_state B ids salt draws c s = (Inr (parts, pw), Some t)"
    by (auto simp: start_server_def split: sum.splits)
  have "database_url s = Some url" using s assms(2) by (auto simp: secrets_from_env_def split: option.splits if_splits)
  with b assms(3) have "build_with_db B ids salt draws c s d = (Inr (parts, pw), t)"
    by (auto simp: build_state_def split: prod.splits)
  with runtime_config_valid [OF c] show ?thesis by blast
qed

lemma policy_outcomes:
  "group_policy (d\<lparr>outcomes := xs\<rparr>) = group_policy d" "group_policy (d\<lparr>outcomes := xs, root_credentials := rc\<rparr>) = group_policy d"
  by (simp_all add: group_policy_def)

lemma run_bootstrap_policy: "run_bootstrap ids d = (r, t) \<Longrightarrow> group_policy d \<longrightarrow> group_policy t"
  using obeysD [OF bootstrap_policy, of d ids] by (auto simp: run_bootstrap_def map_err_def keeping_def split: prod.splits sum.splits)

text \<open>C29: What a start establishes. The tables are those that were found, with the groups and the Root credentials
  as the only ones written: the policy of the groups holds, the four seed groups are there, and so is Root;
  a password is printed exactly if there was no Root, and it is the one whose hash was stored, to be changed
  at the first login. The configuration in use is valid, with the stored overrides merged in.\<close>

theorem startup_establishes:
  assumes "start_server B ids salt draws toml H vars b64 args = (Inr (parts, pw), Some t)"
    and "env_or vars ''PPB_DATABASE_URL'' = Some url" and "open_database B url = Inr d" and "group_policy d"
  shows "group_policy t \<and> seed_names \<subseteq> group_names t \<and> root_credentials t \<noteq> None \<and>
    (case pw of
       None \<Rightarrow> root_credentials d \<noteq> None \<and> root_credentials t = root_credentials d
     | Some p \<Rightarrow> root_credentials d = None \<and> (\<exists>h. bcrypt_hash (libs_of (bt_env B)) salt p = Some h \<and>
         root_credentials t = Some \<lparr>password_hash = h, must_change_password = True\<rparr>)) \<and>
    (\<exists>gs rc xs. t = d\<lparr>groups := gs, outcomes := xs, root_credentials := rc\<rparr>) \<and>
    validate_config (ap_config parts) = Inr ()"
proof -
  from start_serverD [OF assms(1-3)] obtain c s where c: "validate_config c = Inr ()"
    and build: "build_with_db B ids salt draws c s d = (Inr (parts, pw), t)" by auto
  from build obtain c1 d1 u d2 xs where r: "load_overrides B c d = (Inr c1, d1)" "d1 = d\<lparr>outcomes := xs\<rparr>" "build_parts B c1 s = Inr parts"
      "run_bootstrap ids d1 = (Inr u, d2)" "root_bootstrap (bt_env B) salt draws d2 = (Inr pw, t)" by (rule build_with_dbD)
  have "group_policy d1" using assms(4) unfolding r(2) by (simp add: policy_outcomes)
  with run_bootstrap_policy [OF r(4)] have "group_policy d2" by simp
  moreover from run_bootstrap_seeds [OF r(4)] obtain gs ys where d2: "d2 = d\<lparr>groups := gs, outcomes := ys\<rparr>" and "seed_names \<subseteq> group_names d2"
    unfolding seeds_def r(2) by auto
  moreover from root_bootstrap_runs [OF r(5)] have "group_policy t = group_policy d2" and "group_names t = group_names d2"
    by (auto simp: policy_outcomes group_names_def)
  moreover have "validate_config (ap_config parts) = Inr ()"
    using load_overrides_valid [OF r(1) c] build_parts_config [OF r(3)] by simp
  moreover have "\<exists>gs rc xs. t = d\<lparr>groups := gs, outcomes := xs, root_credentials := rc\<rparr>"
  proof -
    have "t = d\<lparr>groups := gs, outcomes := outcomes t, root_credentials := root_credentials t\<rparr>"
      using root_bootstrap_runs [OF r(5)] unfolding d2 by auto
    then show ?thesis by blast
  qed
  ultimately show ?thesis using root_bootstrap_runs [OF r(5)] unfolding d2 by auto
qed

text \<open>Starting again changes nothing: whatever the second start is configured with, it prints no password and
  leaves every table as the first one left it.\<close>

theorem restart_changes_nothing:
  assumes "start_server B ids salt draws toml H vars b64 args = (Inr (parts, pw), Some t)"
    and "env_or vars ''PPB_DATABASE_URL'' = Some url" and "open_database B url = Inr d"
    and "start_server B' ids' salt' draws' toml' H' vars' b64' args' = (Inr (parts', pw'), Some t')"
    and "env_or vars' ''PPB_DATABASE_URL'' = Some url'" and "open_database B' url' = Inr t"
  shows "pw' = None \<and> (\<exists>xs. t' = t\<lparr>outcomes := xs\<rparr>)"
proof -
  from start_serverD [OF assms(1-3)] obtain c s where "build_with_db B ids salt draws c s d = (Inr (parts, pw), t)" by auto
  then obtain d1 u d2 where r: "run_bootstrap ids d1 = (Inr u, d2)" "root_bootstrap (bt_env B) salt draws d2 = (Inr pw, t)"
    by (rule build_with_dbD)
  from run_bootstrap_seeds [OF r(1)] root_bootstrap_runs [OF r(2)] have t: "seed_names \<subseteq> group_names t" "root_credentials t \<noteq> None"
    by (auto simp: seeds_def group_names_def)
  from start_serverD [OF assms(4-6)] obtain c' s' where "build_with_db B' ids' salt' draws' c' s' t = (Inr (parts', pw'), t')" by auto
  then obtain e1 v e2 xs where q: "e1 = t\<lparr>outcomes := xs\<rparr>" "run_bootstrap ids' e1 = (Inr v, e2)"
      "root_bootstrap (bt_env B') salt' draws' e2 = (Inr pw', t')" by (rule build_with_dbD)
  have "seed_names \<subseteq> group_names e1" using t(1) q(1) by (simp add: group_names_def)
  with run_bootstrap_seeds [OF q(2)] obtain ys where "e2 = e1\<lparr>outcomes := ys\<rparr>" unfolding seeds_def by (elim conjE impE exE)
  with q(1) have e2: "e2 = t\<lparr>outcomes := ys\<rparr>" by simp
  with root_bootstrap_runs [OF q(3)] t(2) show ?thesis by auto
qed

text \<open>The flag is documented to take its value joined by an equals sign; such a flag alone is not seen.\<close>

lemma joined_flag_ignored:
  assumes "''--config'' \<notin> set args"
  shows "config_flag args = None"
proof -
  have "takeWhile (\<lambda>x. x \<noteq> ''--config'') args = args" using assms by (auto simp: takeWhile_eq_all_conv)
  then have "find_index (\<lambda>a. a = ''--config'') args = None" by (simp only: find_index_def Let_def) simp
  then show ?thesis by (simp add: config_flag_def)
qed

section \<open>What every answer has\<close>

text \<open>C36: Every answer is identified. Whatever a route does, even if it panics, the answer carries the request id, which
  is a short printable token; an error is an envelope with that id, and an internal one says nothing about
  its cause; a route that panics is answered with status 500; and what the CSRF layer refuses does not
  depend on the route.\<close>

theorem every_answer_identified:
  assumes "rid = read_request_id (header_str (hdrs r) ''x-request-id'') generated"
    and "q = r\<lparr>hdrs := insert_header ''x-request-id'' rid (hdrs r)\<rparr>" and "a = serve_request L c secret now generated route r"
  shows "resp_request_id a = Some rid \<and> (rid = generated \<or> rid \<noteq> [] \<and> length rid \<le> 128 \<and> list_all is_ascii_graphic rid) \<and>
    (is_error_status (resp_status a) \<longrightarrow> (\<exists>b. resp_body a = Envelope b \<and> eb_request_id b = rid \<and>
       (eb_code b = InternalError \<longrightarrow> eb_message b = internal_message \<and> eb_params b = []))) \<and>
    (csrf_middleware L c secret now q = Inr () \<and> route rid q = None \<longrightarrow> resp_status a = 500) \<and>
    (csrf_middleware L c secret now q = Inl e \<longrightarrow> a = normalize_error_response rid (into_response rid e))"
proof -
  have a: "a = normalize_error_response rid (catch_panic
      (case csrf_middleware L c secret now q of Inl e \<Rightarrow> Some (into_response rid e) | Inr _ \<Rightarrow> route rid q))"
    unfolding assms(2,3) serve_request_def Let_def assms(1) ..
  have norm: "resp_request_id (normalize_error_response rid x) = Some rid" "resp_status (normalize_error_response rid x) = resp_status x"
    "is_error_status (resp_status x) \<Longrightarrow> \<exists>b. resp_body (normalize_error_response rid x) = Envelope b \<and> eb_request_id b = rid \<and>
       (eb_code b = InternalError \<longrightarrow> eb_message b = internal_message \<and> eb_params b = [])" for x
    by (auto simp: normalize_error_response_def Let_def error_body_of_def split: body.splits)
  have "rid = generated \<or> rid \<noteq> [] \<and> length rid \<le> 128 \<and> list_all is_ascii_graphic rid"
    unfolding assms(1) by (auto simp: read_request_id_def Let_def split: option.splits)
  with norm show ?thesis unfolding a by (auto simp: catch_panic_def split: sum.splits option.splits)
qed

section \<open>Witnesses\<close>

definition calm_boot :: "db \<Rightarrow> boot" where
  "calm_boot d = \<lparr>bt_env = demo_env, bt_connect = (\<lambda>_. Inr d), bt_migrate = Inr,
     bt_serde = \<lparr>to_value = (\<lambda>_. Inr JNull), from_value = (\<lambda>_. Inr default_config)\<rparr>, bt_http = (\<lambda>_. Inr ()), bt_gateway_http = (\<lambda>_. Inr ()),
     bt_deploy = from_env (\<lambda>_. Inr []) (\<lambda>_. Inr []) (\<lambda>_. None), bt_api_text = (\<lambda>_. [])\<rparr>"

definition calm_vars :: env_vars where
  "calm_vars k = map_of [(''PPB_JWT_SECRET'', ''k''), (''PPB_PHIRA_CREDENTIAL_KEY'', ''c''), (''PPB_DATABASE_URL'', ''u'')] k"

definition calm_start :: "db \<Rightarrow> (string + app_parts \<times> string option) \<times> db option" where
  "calm_start d = start_server (calm_boot d) word_of_nat 1 [] (\<lambda>_. Inl []) \<lparr>hf_read = (\<lambda>_. Inl []), hf_exists = (\<lambda>_. False)\<rparr> calm_vars
     (\<lambda>_. Some (replicate 32 (CHR ''x''))) []"

lemma calm_deploy: "\<exists>dep. bt_deploy (calm_boot d) = Inr dep"
  by (simp add: calm_boot_def from_env_def specs_of_env_def command_from_env_def non_empty_env_def sbind_def)

lemma calm_parts:
  assumes "length (phira_credential_key s) = 32"
  shows "\<exists>parts. build_parts (calm_boot d) c s = Inr parts"
  using calm_deploy [of d] assms by (auto simp: build_parts_def calm_boot_def)

lemma calm_url: "env_or calm_vars ''PPB_DATABASE_URL'' = Some ''u''" "open_database (calm_boot d) ''u'' = Inr d"
  by (simp_all add: env_or_def calm_vars_def open_database_def calm_boot_def)

lemma calm_start_runs:
  assumes "outcomes d = []" and "runtime_overrides d = None" and "run_bootstrap word_of_nat d = (Inr u, d2)" and "root_bootstrap demo_env 1 [] d2 = (Inr pw, t)"
  shows "\<exists>parts. calm_start d = (Inr (parts, pw), Some t)"
proof -
  have files: "runtime_config_of (\<lambda>_. Inl []) \<lparr>hf_read = (\<lambda>_. Inl []), hf_exists = (\<lambda>_. False)\<rparr> calm_vars [] = Inr (apply_env_overrides calm_vars default_config)"
    by (simp add: runtime_config_of_def resolve_runtime_config_def config_flag_def find_index_def calm_vars_def)
  obtain s where s: "secrets_from_env (\<lambda>_. Some (replicate 32 (CHR ''x''))) calm_vars = Inr s" "database_url s = Some ''u''" "length (phira_credential_key s) = 32"
    by (simp add: secrets_from_env_def env_or_def calm_vars_def)
  from calm_parts [OF s(3)] obtain parts where p: "build_parts (calm_boot d) (apply_env_overrides calm_vars default_config) s = Inr parts" by blast
  have over: "load_overrides (calm_boot d) c d = (Inr c, d)" for c
    using assms(1,2) by (simp add: load_overrides_def get_overrides_def select_def query_calm bnd_def map_err_def ret_def)
  have "build_with_db (calm_boot d) word_of_nat 1 [] (apply_env_overrides calm_vars default_config) s d = (Inr (parts, pw), t)"
    using assms(3,4) p over unfolding build_with_db_def by (auto simp: runs calm_boot_def)
  then show ?thesis by (simp add: calm_start_def start_server_def files s build_state_def calm_url)
qed

lemma first_bootstrap:
  "\<exists>gs. run_bootstrap word_of_nat (empty_db 0) = (Inr (), (empty_db 0)\<lparr>groups := gs\<rparr>) \<and> seed_names \<subseteq> g_name ` set gs"
  by (simp add: run_bootstrap_def bootstrap_groups_def ensure_group_def map_err_def andthen_def bnd_def query_calm execute_def ret_def
      insert_group_if_absent_def mark_default_def new_group_def empty_db_def seed_names_def GROUP_ADMINISTRATORS_def GROUP_MODERATORS_def
      GROUP_DEVELOPERS_def GROUP_MEMBERS_def)

lemma first_start: "\<exists>parts p t. calm_start (empty_db 0) = (Inr (parts, Some p), Some t) \<and> outcomes t = [] \<and> runtime_overrides t = None"
proof -
  from first_bootstrap obtain gs where b: "run_bootstrap word_of_nat (empty_db 0) = (Inr (), (empty_db 0)\<lparr>groups := gs\<rparr>)" by blast
  have "\<exists>p t. root_bootstrap demo_env 1 [] ((empty_db 0)\<lparr>groups := gs\<rparr>) = (Inr (Some p), t) \<and> outcomes t = [] \<and> runtime_overrides t = None"
    by (simp add: root_bootstrap_def hash_or_internal_def demo_env_def alice_libs_def demo_libs_def empty_db_def select_def execute_def query_calm
        bnd_def andthen_def map_err_def some_or_def ret_def)
  then obtain p t where "root_bootstrap demo_env 1 [] ((empty_db 0)\<lparr>groups := gs\<rparr>) = (Inr (Some p), t)" "outcomes t = []" "runtime_overrides t = None" by blast
  with calm_start_runs [OF _ _ b] show ?thesis by (auto simp: empty_db_def)
qed

theorem startup_establishes_witness:
  "\<exists>parts pw t. calm_start (empty_db 0) = (Inr (parts, pw), Some t) \<and> seed_names \<subseteq> group_names t \<and> root_credentials t \<noteq> None"
proof -
  from first_start obtain parts p t where r: "calm_start (empty_db 0) = (Inr (parts, Some p), Some t)" by blast
  have "group_policy (empty_db 0)" by (simp add: group_policy_def empty_db_def)
  with startup_establishes [OF r [unfolded calm_start_def] calm_url] r show ?thesis by blast
qed

lemma second_start:
  assumes "outcomes t = []" and "runtime_overrides t = None" and "seed_names \<subseteq> group_names t" and "root_credentials t \<noteq> None"
  shows "\<exists>parts pw u. calm_start t = (Inr (parts, pw), Some u)"
proof -
  have names: "GROUP_ADMINISTRATORS \<in> g_name ` set (groups t)" "GROUP_MODERATORS \<in> g_name ` set (groups t)"
      "GROUP_DEVELOPERS \<in> g_name ` set (groups t)" "GROUP_MEMBERS \<in> g_name ` set (groups t)"
    using assms(3) by (simp_all add: seed_names_def group_names_def)
  have "ensure_group i n ds k df pr t = (Inr (), t)" if "n \<in> g_name ` set (groups t)" for i n ds k df pr
    using that assms(1) by (simp add: ensure_group_def bnd_def query_calm insert_group_if_absent_def new_group_def ret_def)
  then have "run_bootstrap word_of_nat t = (Inr (), t)"
    by (simp add: run_bootstrap_def bootstrap_groups_def map_err_def andthen_def bnd_def names)
  moreover have "root_bootstrap demo_env 1 [] t = (Inr None, t)"
    using assms(1,4) by (simp add: root_bootstrap_def select_def query_calm bnd_def map_err_def ret_def)
  ultimately show ?thesis using calm_start_runs [OF assms(1,2)] by blast
qed

theorem restart_changes_nothing_witness:
  "\<exists>t parts pw u xs. calm_start t = (Inr (parts, pw), Some u) \<and> pw = None \<and> u = t\<lparr>outcomes := xs\<rparr>"
proof -
  from first_start obtain parts p t where r: "calm_start (empty_db 0) = (Inr (parts, Some p), Some t)" "outcomes t = []" "runtime_overrides t = None" by blast
  from start_serverD [OF r(1) [unfolded calm_start_def] calm_url] obtain c s where
    "build_with_db (calm_boot (empty_db 0)) word_of_nat 1 [] c s (empty_db 0) = (Inr (parts, Some p), t)" by auto
  then obtain d1 u d2 where "run_bootstrap word_of_nat d1 = (Inr u, d2)" "root_bootstrap (bt_env (calm_boot (empty_db 0))) 1 [] d2 = (Inr (Some p), t)"
    by (rule build_with_dbD)
  then have "seed_names \<subseteq> group_names t" "root_credentials t \<noteq> None"
    by (auto simp: seeds_def group_names_def dest!: run_bootstrap_seeds root_bootstrap_runs)
  from second_start [OF r(2,3) this] obtain parts' pw' u' where q: "calm_start t = (Inr (parts', pw'), Some u')" by blast
  from restart_changes_nothing [OF r(1) [unfolded calm_start_def] calm_url q [unfolded calm_start_def] calm_url] q show ?thesis by blast
qed

theorem every_answer_identified_witness:
  "resp_status (serve_request alice_libs default_config ''k'' 0 ''g'' (\<lambda>_ _. None) \<lparr>meth = GET, hdrs = []\<rparr>) = 500"
proof -
  let ?q = "\<lparr>meth = GET, hdrs = [(''x-request-id'', ''g'')]\<rparr>"
  have low: "to_ascii_lowercase ''x-request-id'' = ''x-request-id''" by code_simp
  have "csrf_middleware alice_libs default_config ''k'' 0 ?q = Inr ()" by (simp add: csrf_middleware_def is_state_changing_def)
  moreover have "read_request_id (header_str (hdrs \<lparr>meth = GET, hdrs = []\<rparr>) ''x-request-id'') ''g'' = ''g''"
    by (simp add: read_request_id_def header_str_def header_get_def)
  ultimately show ?thesis
    using every_answer_identified [of "''g''" "\<lparr>meth = GET, hdrs = []\<rparr>" "''g''" ?q _ alice_libs default_config "''k''" 0 "\<lambda>_ _. None"]
    by (simp add: insert_header_def low)
qed

end
