(* ===== verification/Login_Page.thy ===== *)
theory Login_Page
  imports Redirects
begin

text \<open>
  The sign-in page (\<open>phira_login_page\<close> of \<^verbatim>\<open>auth/gateway.rs\<close>). The page is a constant template with holes; \<open>login_holes\<close> lists
  every hole in the order of the arguments of \<open>format!\<close>, with the place it is in and the value it gets, and
  \<open>secure_headers\<close> the headers of the answer. The constant text between the holes is the parameter \<open>render\<close>, and so
  are the texts and colours read from the contract files and the serialisers.
\<close>

section \<open>Contracts\<close>

record gateway_tokens =
  gt_canvas :: string
  gt_surface :: string
  gt_surface_strong :: string
  gt_border :: string
  gt_text_primary :: string
  gt_text_secondary :: string
  gt_accent :: string
  gt_accent_text :: string
  gt_danger :: string
  gt_focus :: string
  gt_radius_control_px :: nat
  gt_radius_window_px :: nat
  gt_max_width_px :: nat

record gateway_strings =
  gs_document_title :: string
  gs_product :: string
  gs_title :: string
  gs_subtitle :: string
  gs_email :: string
  gs_password :: string
  gs_sign_in :: string
  gs_github :: string
  gs_or :: string
  gs_consent_prefix :: string
  gs_terms :: string
  gs_privacy :: string
  gs_consent_join :: string
  gs_consent_required :: string
  gs_legal_unavailable :: string
  gs_network_error :: string
  gs_generic_error :: string
  gs_request_id :: string
  gs_github_hint :: string
  gs_client_ppf :: string
  gs_client_panel :: string
  gs_language :: string
  gs_zh :: string
  gs_en :: string

text \<open>The files of the contract, by locale, and the serialisers of a string and of the table of messages.\<close>

record gateway_contract =
  gc_tokens :: gateway_tokens
  gc_strings :: "bool \<Rightarrow> gateway_strings"
  gc_errors :: "bool \<Rightarrow> (string \<times> string) list"
  gc_logo :: string
  gc_json_string :: "string \<Rightarrow> string"
  gc_json_table :: "(string \<times> string) list \<Rightarrow> string"

definition page_strings :: "gateway_contract \<Rightarrow> string \<Rightarrow> gateway_strings" where
  "page_strings G locale = gc_strings G (locale = ''en'')"

definition error_strings :: "gateway_contract \<Rightarrow> string \<Rightarrow> (string \<times> string) list" where
  "error_strings G locale = gc_errors G (locale = ''en'')"

record login_page_params =
  lp_return_to :: "string option"
  lp_client_type :: "string option"
  lp_lang :: "string option"
  lp_intent :: "string option"
  lp_error :: "string option"
  lp_request_id :: "string option"

section \<open>The page\<close>

definition unicode_escape :: "string \<Rightarrow> string" where
  "unicode_escape hex4 = CHR 0x5C # CHR ''u'' # hex4"

text \<open>The line separators are the bytes E2 80 A8 and E2 80 A9.\<close>

definition json_for_inline_script :: "string \<Rightarrow> string" where
  "json_for_inline_script text =
     replace_all (bytes [226, 128, 169]) (unicode_escape ''2029'')
    (replace_all (bytes [226, 128, 168]) (unicode_escape ''2028'')
    (replace_all ''>'' (unicode_escape ''003e'')
    (replace_all ''<'' (unicode_escape ''003c'')
    (replace_all ''&'' (unicode_escape ''0026'') text))))"

datatype place = Markup | InlineScript | Fixed

definition flag_text :: "bool \<Rightarrow> string" where
  "flag_text b = (if b then ''true'' else ''false'')"

text \<open>The message for the error of the query, with the request id of the query behind it. The separator is a
  middle dot between spaces.\<close>

definition initial_error_text :: "gateway_contract \<Rightarrow> string \<Rightarrow> login_page_params \<Rightarrow> string" where
  "initial_error_text G locale p =
     (let base = unwrap_or (Option.bind (lp_error p) (map_of (error_strings G locale))) [] in
      case lp_request_id p of
        Some i \<Rightarrow>
          if i \<noteq> [] \<and> base \<noteq> []
          then base @ bytes [32, 194, 183, 32] @ gs_request_id (page_strings G locale) @ '': '' @ i
          else base
      | None \<Rightarrow> base)"

definition login_holes ::
  "gateway_contract \<Rightarrow> runtime_config \<Rightarrow> secrets \<Rightarrow> string \<Rightarrow> string \<Rightarrow> string \<Rightarrow> string \<Rightarrow> string \<Rightarrow> login_page_params \<Rightarrow>
   (string \<times> place \<times> string) list" where
  "login_holes G c s return_to redirect_to client_type locale nonce p =
     (let t = gc_tokens G; w = page_strings G locale; l = legal c;
          client_label = (if client_type = ''panel'' then gs_client_panel w else gs_client_ppf w);
          ready = legal_ready l;
          github_ready = (ready \<and> github_configured s);
          off = (\<lambda>b. if b then [] else '' disabled'');
          esc = (\<lambda>n v. (n, Markup, html_escape v));
          js = (\<lambda>n v. (n, InlineScript, json_for_inline_script v));
          fix = (\<lambda>n v. (n, Fixed, v)) in
      [fix ''locale'' locale, fix ''nonce'' nonce, esc ''document_title'' (gs_document_title w),
       fix ''canvas'' (gt_canvas t), fix ''surface'' (gt_surface t), fix ''surface_strong'' (gt_surface_strong t), fix ''border'' (gt_border t),
       fix ''text'' (gt_text_primary t), fix ''text2'' (gt_text_secondary t), fix ''accent'' (gt_accent t), fix ''accent_text'' (gt_accent_text t),
       fix ''danger'' (gt_danger t), fix ''focus'' (gt_focus t), fix ''radius_control'' (nat_digits (gt_radius_control_px t)),
       fix ''radius_window'' (nat_digits (gt_radius_window_px t)), fix ''max_width'' (nat_digits (gt_max_width_px t)),
       fix ''intent_class'' (if lp_intent p = Some ''github'' then '' github-intent'' else []), fix ''logo'' (gc_logo G),
       esc ''product'' (gs_product w), esc ''client_label'' client_label, esc ''title'' (gs_title w),
       esc ''subtitle'' (replace_all ''{client}'' client_label (gs_subtitle w)),
       fix ''legal_open'' (if ready then [] else ''<div class='' @ [CHR 0x22] @ ''legal-unavailable'' @ [CHR 0x22] @ ''>''),
       esc ''legal_block'' (if ready then [] else gs_legal_unavailable w), fix ''legal_close'' (if ready then [] else ''</div>''),
       esc ''return_to'' return_to, esc ''redirect_to'' redirect_to, esc ''client_type'' client_type,
       esc ''terms_version'' (terms_version l), esc ''privacy_version'' (privacy_version l),
       esc ''email'' (gs_email w), esc ''password'' (gs_password w), fix ''disabled'' (off ready),
       esc ''consent_prefix'' (gs_consent_prefix w), esc ''terms_url'' (resolve_legal_link (site c) client_type (terms_url l)),
       esc ''terms'' (gs_terms w), esc ''consent_join'' (gs_consent_join w),
       esc ''privacy_url'' (resolve_legal_link (site c) client_type (privacy_url l)), esc ''privacy'' (gs_privacy w),
       esc ''sign_in'' (gs_sign_in w), esc ''initial_error_text'' (initial_error_text G locale p), esc ''or_text'' (gs_or w),
       fix ''github_disabled'' (off github_ready), esc ''github'' (gs_github w), esc ''github_hint'' (gs_github_hint w),
       esc ''language'' (gs_language w), fix ''zh_current'' (flag_text (locale = ''zh'')), fix ''en_current'' (flag_text (locale = ''en'')),
       esc ''zh_label'' (gs_zh w), esc ''en_label'' (gs_en w),
       js ''error_map'' (gc_json_table G (error_strings G locale)), js ''generic_json'' (gc_json_string G (gs_generic_error w)),
       js ''network_json'' (gc_json_string G (gs_network_error w)), js ''consent_required_json'' (gc_json_string G (gs_consent_required w)),
       js ''request_id_json'' (gc_json_string G (gs_request_id w)),
       fix ''legal_ready_json'' (flag_text ready), fix ''github_ready_json'' (flag_text github_ready)])"

definition csp_of :: "string \<Rightarrow> string" where
  "csp_of nonce =
     (let q = [CHR 0x27] in
      ''default-src '' @ q @ ''none'' @ q @ ''; img-src '' @ q @ ''self'' @ q @ '' data:; style-src '' @ q @ ''nonce-'' @ nonce @ q @
      ''; script-src '' @ q @ ''nonce-'' @ nonce @ q @ ''; connect-src '' @ q @ ''self'' @ q @ ''; form-action '' @ q @ ''self'' @ q @
      ''; frame-ancestors '' @ q @ ''none'' @ q @ ''; base-uri '' @ q @ ''none'' @ q @ ''; object-src '' @ q @ ''none'' @ q)"

definition secure_headers :: "string \<Rightarrow> headers" where
  "secure_headers nonce =
     [(''cache-control'', ''no-store, max-age=0''), (''pragma'', ''no-cache''), (''referrer-policy'', ''no-referrer''),
      (''x-content-type-options'', ''nosniff''), (''x-frame-options'', ''DENY''),
      (''permissions-policy'', ''camera=(), microphone=(), geolocation=(), payment=()''),
      (''content-security-policy'', csp_of nonce)]"

definition page_holes :: "gateway_contract \<Rightarrow> runtime_config \<Rightarrow> secrets \<Rightarrow> headers \<Rightarrow> string \<Rightarrow> login_page_params \<Rightarrow> (string \<times> place \<times> string) list" where
  "page_holes G c s hs nonce p =
     (let client_type = (if lp_client_type p = Some ''panel'' then ''panel'' else ''ppf'');
          locale = locale_from hs (lp_lang p) in
      login_holes G c s (safe_return_to (lp_return_to p))
        (resolve_redirect_target (site c) (return_to_allowlist c) client_type (lp_return_to p)) client_type locale nonce p)"

text \<open>The nonce is the URL-safe base64 text of 18 random bytes.\<close>

definition phira_login_page ::
  "((string \<times> place \<times> string) list \<Rightarrow> string) \<Rightarrow> gateway_contract \<Rightarrow> libs \<Rightarrow> runtime_config \<Rightarrow> secrets \<Rightarrow> string \<Rightarrow> headers \<Rightarrow> login_page_params \<Rightarrow>
   headers \<times> string" where
  "phira_login_page render G L c s random hs p =
     (let nonce = b64url L random in (secure_headers nonce, render (page_holes G c s hs nonce p)))"

section \<open>Nothing of the request is code\<close>

text \<open>Replacing a character by a text without it removes it, and replacing another text by one without the
  character does not bring it back.\<close>

lemma replace_all_avoids: "c \<notin> set s \<Longrightarrow> c \<notin> set w \<Longrightarrow> c \<notin> set (replace_all p w s)"
proof (induction p w s rule: replace_all.induct)
  case (2 p w x xs)
  have "c \<notin> set (drop (length p) (x # xs))" using 2(3) by (meson in_set_dropD)
  with 2 show ?case by (auto split: if_splits)
qed simp

lemma replace_single_removes: "c \<notin> set w \<Longrightarrow> c \<notin> set (replace_all [c] w s)"
  by (auto simp: replace_single split: if_splits)

definition inert_in :: "place \<Rightarrow> string \<Rightarrow> bool" where
  "inert_in pl v =
     (case pl of
        Markup \<Rightarrow> list_all (\<lambda>c. c \<notin> {CHR ''<'', CHR ''>'', CHR 0x22, CHR 0x27}) v
      | InlineScript \<Rightarrow> list_all (\<lambda>c. c \<notin> {CHR ''<'', CHR ''>'', CHR ''&''}) v
      | Fixed \<Rightarrow> True)"

lemma inline_script_inert: "inert_in InlineScript (json_for_inline_script v)"
proof -
  note defs = json_for_inline_script_def unicode_escape_def
  have "CHR ''&'' \<notin> set (json_for_inline_script v)"
    unfolding defs by (rule replace_all_avoids, rule replace_all_avoids, rule replace_all_avoids, rule replace_all_avoids, rule replace_single_removes) simp_all
  moreover have "CHR ''<'' \<notin> set (json_for_inline_script v)"
    unfolding defs by (rule replace_all_avoids, rule replace_all_avoids, rule replace_all_avoids, rule replace_single_removes) simp_all
  moreover have "CHR ''>'' \<notin> set (json_for_inline_script v)"
    unfolding defs by (rule replace_all_avoids, rule replace_all_avoids, rule replace_single_removes) simp_all
  ultimately show ?thesis by (auto simp: inert_in_def list_all_iff)
qed

lemma markup_inert: "inert_in Markup (html_escape v)"
  using html_escape_safe [of v] by (auto simp: inert_in_def list_all_iff)

definition hole :: "(string \<times> place \<times> string) list \<Rightarrow> string \<Rightarrow> string option" where
  "hole hs n = map_option snd (map_of hs n)"

text \<open>What a hole of fixed text may hold does not depend on the words of the request, but for the choice between
  the two languages and the emphasis of the GitHub button.\<close>

definition choices :: "login_page_params \<Rightarrow> headers \<Rightarrow> string \<times> bool" where
  "choices p hs = (locale_from hs (lp_lang p), lp_intent p = Some ''github'')"

definition fixed_holes :: "(string \<times> place \<times> string) list \<Rightarrow> (string \<times> place \<times> string) list" where
  "fixed_holes hs = filter (\<lambda>h. fst (snd h) = Fixed) hs"

text \<open>C37: Nothing of the request becomes markup or code. Of the values put into the page, each one inside an element or
  an attribute holds no angle bracket, quote or apostrophe, and each one inside the script no angle bracket
  or ampersand, so that no closing tag can appear there; the values put in as they are do not depend on the
  request beyond the language and the emphasis; and the answer forbids every script without the fresh
  nonce, framing and caching.\<close>

theorem login_page_inert:
  "(\<forall>(n, pl, v) \<in> set (page_holes G c s hs nonce p). inert_in pl v) \<and>
   (choices p hs = choices p' hs' \<longrightarrow> fixed_holes (page_holes G c s hs nonce p) = fixed_holes (page_holes G c s hs' nonce p')) \<and>
   fst (phira_login_page render G L c s random hs p) = secure_headers (b64url L random)"
proof -
  have "\<forall>(n, pl, v) \<in> set (login_holes G c s a b ct loc nonce p). inert_in pl v" for a b ct loc
    unfolding login_holes_def Let_def by (simp add: markup_inert inline_script_inert) (simp add: inert_in_def)
  moreover have "fixed_holes (login_holes G c s a b ct loc nonce p) = fixed_holes (login_holes G c s a' b' ct' loc nonce p')"
    if "(lp_intent p = Some ''github'') = (lp_intent p' = Some ''github'')" for a b ct loc a' b' ct'
    using that by (simp add: fixed_holes_def login_holes_def Let_def)
  ultimately show ?thesis by (auto simp: page_holes_def choices_def phira_login_page_def Let_def)
qed

text \<open>An absolute address of the allow list is where the password form leads, but the hidden field, which the
  GitHub button passes on, has lost it.\<close>

lemma github_loses_return_to:
  assumes "v \<in> set (return_to_allowlist c)" and "safe_return_to (Some v) \<noteq> v" and "lp_return_to p = Some v"
  shows "hole (page_holes G c s hs nonce p) ''redirect_to'' = Some (html_escape v) \<and>
    hole (page_holes G c s hs nonce p) ''return_to'' = Some (html_escape ''/'')"
proof -
  have "safe_return_to (Some v) = ''/''" using assms(2) by (auto simp: safe_return_to_def split: if_splits)
  moreover have "resolve_redirect_target (site c) (return_to_allowlist c) ct (Some v) = v" for ct
    using assms(1) by (simp add: resolve_redirect_target_def)
  ultimately show ?thesis by (simp add: hole_def page_holes_def login_holes_def Let_def assms(3))
qed

section \<open>Witness\<close>

definition plain_contract :: gateway_contract where
  "plain_contract = \<lparr>gc_tokens = \<lparr>gt_canvas = [], gt_surface = [], gt_surface_strong = [], gt_border = [], gt_text_primary = [], gt_text_secondary = [],
       gt_accent = [], gt_accent_text = [], gt_danger = [], gt_focus = [], gt_radius_control_px = 8, gt_radius_window_px = 8,
       gt_max_width_px = 8\<rparr>,
     gc_strings = (\<lambda>_. \<lparr>gs_document_title = ''document_title'', gs_product = ''product'', gs_title = ''title'', gs_subtitle = ''subtitle'',
       gs_email = ''email'', gs_password = ''password'', gs_sign_in = ''sign_in'', gs_github = ''github'', gs_or = ''or'',
       gs_consent_prefix = ''consent_prefix'', gs_terms = ''terms'', gs_privacy = ''privacy'', gs_consent_join = ''consent_join'',
       gs_consent_required = ''consent_required'', gs_legal_unavailable = ''legal_unavailable'', gs_network_error = ''network_error'',
       gs_generic_error = ''generic_error'', gs_request_id = ''request_id'', gs_github_hint = ''github_hint'',
       gs_client_ppf = ''client_ppf'', gs_client_panel = ''client_panel'', gs_language = ''language'', gs_zh = ''zh'', gs_en = ''en''\<rparr>),
     gc_errors = (\<lambda>_. [(''E'', ''failed'')]), gc_logo = ''AAAA'', gc_json_string = (\<lambda>v. v), gc_json_table = (\<lambda>_. ''{}'')\<rparr>"

definition plain_secrets :: secrets where
  "plain_secrets = \<lparr>database_url = None, jwt_secret = ''k'', phira_credential_key = [], github_client_id = None, github_client_secret = None,
     pmp_openuds_token = None\<rparr>"

definition forged_params :: login_page_params where
  "forged_params = \<lparr>lp_return_to = Some ''/<script>'', lp_client_type = Some ''<b>'', lp_lang = Some ''en'', lp_intent = None, lp_error = Some ''E'',
     lp_request_id = Some ''<script>''\<rparr>"

theorem login_page_inert_witness:
  "fixed_holes (page_holes plain_contract default_config plain_secrets [] ''n'' forged_params) =
   fixed_holes (page_holes plain_contract default_config plain_secrets [] ''n'' (forged_params\<lparr>lp_request_id := None, lp_error := None\<rparr>))"
  using login_page_inert [of plain_contract default_config plain_secrets "[]" "''n''" forged_params
      "forged_params\<lparr>lp_request_id := None, lp_error := None\<rparr>" "[]"]
  by (simp add: choices_def)

end
