(* ===== verification/Spec2Isabelle.thy ===== *)
theory Spec2Isabelle
  imports Github Group_Routes Automation Coupons Config_Routes Me Rooms Admin_Server Extractors Broadcasts Startup Login_Page
begin

text \<open>
  \<^bold>\<open>Phira-plus-Backend (PPB).\<close> PPB is the community backend beside a Phira multiplayer server (PMP): accounts
  and sessions, permission groups, an administration panel that sends commands to PMP over a Unix
  socket (OpenUDS), jobs and runbooks, friends, notifications, replays. It is the Rust crate
  \<^verbatim>\<open>crates/ppb-server\<close>; paths below are relative to its \<^verbatim>\<open>src/\<close>. This development models that crate
  component by component and proves what makes each component correct. No file of the crate is trusted:
  what is not modelled is listed at the end.

  \<^bold>\<open>How the code is modelled.\<close> A handler or repository function is a computation \<open>('s, 'e, 'a) comp\<close>, that is
  \<open>'s \<Rightarrow> ('e + 'a) \<times> 's\<close>: the state it works on, an error or a value, and the state it leaves, also on an
  error (\<open>Prelude\<close>). Early returns, \<open>?\<close> and every error branch are branches of the definition. The state
  is the database, the in-memory tables a handler touches (rate limiter, OAuth states, command queues,
  join intents), or a record of several of them. The database (\<open>Schema\<close>) is a record of tables with the
  constraints of \<^verbatim>\<open>migrations/\<close> as checks of the statements, and with a list of connection outcomes: each
  statement completes, fails before it takes effect, or fails after, so that theorems hold over an
  unreliable connection; a transaction is rolled back or committed as a whole. Strings are their UTF-8
  bytes; \<open>i32\<close>, \<open>i64\<close> and \<open>u64\<close> arithmetic wraps where the code can overflow (\<open>wrap32\<close>, \<open>wrap64\<close>, words); a panic is
  the value \<open>None\<close> or an error of its own. Generated ids, random bytes and clocks are arguments.
  Third-party code (jsonwebtoken, bcrypt, AES-GCM, the cookie parser, serde's derived readers, the HTTP
  clients) and PMP itself are parameters, with named laws only where a theorem needs them.

  \<^bold>\<open>Theories.\<close>
  \<^item> \<open>Prelude\<close>: computations, frames (\<open>obeys\<close>, locale \<open>frame\<close>), transition systems (locale
    \<open>invariant_system\<close>), strings, association lists (locale \<open>keyed_store\<close>), machine integers.
  \<^item> \<open>Api_Errors\<close>: \<^verbatim>\<open>error/\<close> and \<^verbatim>\<open>middleware/request_id.rs\<close>: error codes, redaction, pagination.
  \<^item> \<open>Schema\<close>: the tables, statements, transactions, and the locale \<open>table_frame\<close> of relations that ignore the
    connection.
  \<^item> \<open>Auth_Types\<close>, \<open>Permissions\<close>, \<open>Group_Policy\<close>, \<open>Group_Routes\<close>: \<^verbatim>\<open>auth/types.rs\<close> and \<^verbatim>\<open>permissions/\<close>: the manifest, the
    resolver against its specification \<open>granted\<close>, the invariant \<open>group_policy\<close> of the group graph over every
    interleaving, and the group endpoints.
  \<^item> \<open>Config\<close>, \<open>Config_Repo\<close>: \<^verbatim>\<open>config/mod.rs\<close>, \<^verbatim>\<open>config/deployment.rs\<close>, \<^verbatim>\<open>config/repo.rs\<close>.
  \<^item> \<open>Http\<close>, \<open>Tokens\<close>, \<open>Sessions\<close>, \<open>Redirects\<close>, \<open>Login\<close>, \<open>Github\<close>: \<^verbatim>\<open>auth/\<close>, \<^verbatim>\<open>middleware/\<close>, \<^verbatim>\<open>identities/repo.rs\<close>,
    \<^verbatim>\<open>users/repo.rs\<close>: cookies, access and reauthentication tokens, CSRF, sessions and their rotation, the
    login gateway, consent, Root, and the OAuth flow as a state machine.
  \<^item> \<open>Rate_Limiter\<close>: \<^verbatim>\<open>middleware/rate_limit.rs\<close>, the sliding window.
  \<^item> \<open>Audit_Log\<close>: \<^verbatim>\<open>audit/\<close>, with a CSV reader for the round trip of the export.
  \<^item> \<open>Open_Uds\<close>, \<open>Room_Service\<close>: \<^verbatim>\<open>pmp/openuds/\<close>, \<^verbatim>\<open>pmp/capabilities.rs\<close>, \<^verbatim>\<open>pmp/cli/\<close>, \<^verbatim>\<open>rooms/service.rs\<close>: frames, the table of
    pending requests as a machine, typed room commands.
  \<^item> \<open>Commands\<close>, \<open>Deployment\<close>, \<open>Actions\<close>, \<open>Jobs\<close>, \<open>Automation\<close>: \<^verbatim>\<open>commands/\<close>, \<^verbatim>\<open>deployment.rs\<close>, \<^verbatim>\<open>actions/\<close>, \<^verbatim>\<open>jobs/\<close>,
    \<^verbatim>\<open>automation/\<close>: queues with one worker per resource, the process adapter, the registry and its
    enforcement, jobs as a machine of task steps, runbooks.
  \<^item> \<open>Notifications\<close>, \<open>Inbox\<close>, \<open>Join_Intent\<close>, \<open>Social\<close>, \<open>Preferences\<close>, \<open>Replay\<close>, \<open>Users\<close>: \<^verbatim>\<open>notifications/\<close>, \<^verbatim>\<open>join_intent/\<close>,
    \<^verbatim>\<open>social/\<close>, \<^verbatim>\<open>preferences/\<close>, \<^verbatim>\<open>replay/\<close>, \<^verbatim>\<open>users/\<close>.
  \<^item> \<open>Phira_Client\<close>, \<open>Phira_Gateway\<close>, \<open>Phira_Routes\<close>: \<^verbatim>\<open>phira/\<close>: redirects, retries and their time; the cache with a
    lock per key as a machine that \<open>get_json\<close> refines; credentials, the aggregator, chart archives, handlers.
  \<^item> \<open>Realtime\<close>: \<^verbatim>\<open>pmp/events/\<close>, \<^verbatim>\<open>pmp/live/\<close>, \<^verbatim>\<open>public/\<close>, \<^verbatim>\<open>live/\<close>, \<^verbatim>\<open>metrics/\<close> and the background tasks of \<^verbatim>\<open>app.rs\<close>: the event bus,
    the event stream and the live socket as machines, heartbeats, the task of the join intents.
  \<^item> \<open>Me\<close>, \<open>Rooms\<close>: the endpoints of the own account (\<^verbatim>\<open>app.rs\<close>), and \<^verbatim>\<open>rooms/routes.rs\<close> with the batch.
  \<^item> \<open>Config_Routes\<close>: \<^verbatim>\<open>config/pmp.rs\<close>, \<^verbatim>\<open>config/routes.rs\<close>: the field table, patch, views, save and rollback.
  \<^item> \<open>Logs\<close>, \<open>Admin_Server\<close>, \<open>Coupons\<close>, \<open>Broadcasts\<close>: \<^verbatim>\<open>logs/\<close> and \<^verbatim>\<open>admin/\<close>. \<open>Logs\<close> has the locale \<open>game_gate\<close> of requests
    that consult the game server only when they are allowed to; console and administration interpret it.
  \<^item> \<open>Extractors\<close>: \<^verbatim>\<open>error/extractors.rs\<close> and the combined error of \<^verbatim>\<open>error/mod.rs\<close>. \<open>Ppctl\<close>: \<^verbatim>\<open>bin/ppctl.rs\<close>, with its environment file and the doctor.
  \<^item> \<open>Uds_Link\<close>: the life of the connection of \<^verbatim>\<open>pmp/openuds/client.rs\<close> and its reconnect loop, over the request table
    of \<open>Open_Uds\<close>. \<open>Login_Page\<close>: the values and headers of the page of \<^verbatim>\<open>auth/gateway.rs\<close>.
  \<^item> \<open>Startup\<close>: \<^verbatim>\<open>main.rs\<close>, \<open>build_state\<close> and the layers of \<^verbatim>\<open>app.rs\<close>: the composition of configuration, bootstrap,
    Root and the link, and what surrounds every request.

  \<^bold>\<open>What is shown.\<close> Safety of every administrative entrance (groups, actions, rooms, jobs, runbooks, console,
  configuration, server and plugins, reauthentication, CSRF, the extractor); refinement of the resolver, of
  the replay policy and of the gateway machine; invariants by rule induction over interleavings (group graph,
  OAuth states, pending requests, command queues, jobs, friendships, join intents, coupons, gateway locks);
  atomicity of transactions under connection failures; the exact effect of a configuration patch and of a
  broadcast; round trips (frames, CSV, environment file, snapshot and rollback); bounds (rate limit, coupon
  uses, time of a sign-in, pauses of the reconnect loop); termination (jobs, paging loops); that every command
  is answered when a connection ends; that a start establishes the policies the other theorems assume. Some theorems state a defect of the code as it
  is; they are recorded as findings.

  \<^bold>\<open>Bounds and fuel.\<close> The reader of a byte stream takes the length of the stream as fuel, which is enough
  because each frame consumes its four-byte header. A job task is at most four steps, and the theorem on its
  end runs exactly those. The loop over round pages is a partial function, whose end is a theorem; the loop
  over batches terminates because its 64-bit cursor grows. Handlers are atomic with respect to the in-memory
  tables, which the code guards by mutexes, and interleave between statements only where a machine says so.

  \<^bold>\<open>Not modelled.\<close> Wiring and I/O without logic of its own: the router tables, the signal handler of
  \<^verbatim>\<open>main.rs\<close>, the tracing subscriber (\<^verbatim>\<open>telemetry.rs\<close>), the constant API document and its schema types
  (\<^verbatim>\<open>openapi.rs\<close>), the constant HTML and script text of the login page (\<^verbatim>\<open>auth/gateway.rs\<close>), the socket calls below frames
  and probes, module lists, and test code. Handlers that no route reaches (such as \<^verbatim>\<open>ban_user\<close> of
  \<^verbatim>\<open>users/routes.rs\<close>) are left out.
\<close>

end
